(* ===== verification/Prelude.thy ===== *)
theory Prelude
  imports Main "HOL-Library.Word"
begin

text \<open>
  What every component shares: the result type of fallible code with its sequencing
  function, the lemma collections the component proofs use, casts between Rust's
  integer types, the first-error scan that several request filters instantiate, and
  the contracts of a state machine whose steps keep an invariant and of a keyed table
  with an insert that does nothing on a conflict, and sorting by several keys.
\<close>

section \<open>Results\<close>

type_synonym ('e, 'a) result = "'e + 'a"

text \<open>\<open>res_bind\<close> is Rust's \<open>?\<close>: an error returns early, a value goes on.\<close>

definition res_bind :: "('e, 'a) result \<Rightarrow> ('a \<Rightarrow> ('e, 'b) result) \<Rightarrow> ('e, 'b) result" where
  "res_bind r f = (case r of Inl e \<Rightarrow> Inl e | Inr x \<Rightarrow> f x)"

named_theorems handler_defs "definitions a handler is unfolded with"

lemma res_bind_simps [simp]:
  "res_bind (Inl e) f = Inl e"
  "res_bind (Inr x) f = f x"
  by (simp_all add: res_bind_def)

lemma res_bind_eq_Inr: "res_bind r f = Inr y \<longleftrightarrow> (\<exists>x. r = Inr x \<and> f x = Inr y)"
  by (cases r) auto

lemma res_bind_eq_Inl:
  "res_bind r f = Inl e \<longleftrightarrow> r = Inl e \<or> (\<exists>x. r = Inr x \<and> f x = Inl e)"
  by (cases r) auto

lemma res_bind_cong [fundef_cong]:
  "r = r' \<Longrightarrow> (\<And>x. r' = Inr x \<Longrightarrow> f x = g x) \<Longrightarrow> res_bind r f = res_bind r' g"
  by (cases r') auto

lemma case_res_False: "(case r of Inl _ \<Rightarrow> False | Inr x \<Rightarrow> P x) \<longleftrightarrow> (\<exists>x. r = Inr x \<and> P x)"
  by (cases r) auto

definition unwrap_or :: "'a \<Rightarrow> 'a option \<Rightarrow> 'a" where
  "unwrap_or d x = (case x of None \<Rightarrow> d | Some v \<Rightarrow> v)"

definition or_else :: "'a option \<Rightarrow> 'a option \<Rightarrow> 'a option" where
  "or_else x y = (case x of None \<Rightarrow> y | Some v \<Rightarrow> Some v)"

definition opt_filter :: "('a \<Rightarrow> bool) \<Rightarrow> 'a option \<Rightarrow> 'a option" where
  "opt_filter p x = (case x of None \<Rightarrow> None | Some v \<Rightarrow> if p v then Some v else None)"

lemma option_simps [simp]:
  "unwrap_or d None = d" "unwrap_or d (Some v) = v"
  "or_else None y = y" "or_else (Some v) y = Some v"
  "opt_filter p None = None" "opt_filter p (Some v) = (if p v then Some v else None)"
  by (simp_all add: unwrap_or_def or_else_def opt_filter_def)

lemma opt_filter_eq_Some: "opt_filter p x = Some v \<longleftrightarrow> x = Some v \<and> p v"
  by (cases x) auto

lemma or_else_None [simp]: "or_else x None = x"
  by (cases x) auto

lemma or_else_eq_None: "or_else x y = None \<longleftrightarrow> x = None \<and> y = None"
  by (cases x) auto

section \<open>HTTP statuses\<close>

datatype http_status =
  OK | CREATED | NO_CONTENT | BAD_REQUEST | UNAUTHORIZED | FORBIDDEN | NOT_FOUND
| INTERNAL_SERVER_ERROR | ACCEPTED

section \<open>Integer casts and identifiers\<close>

type_synonym uuid = "128 word"

type_synonym i64 = "64 word"

text \<open>\<open>n as i32\<close> for a \<open>usize\<close>: the low 32 bits, read as two's complement.\<close>

definition as_i32 :: "nat \<Rightarrow> int" where
  "as_i32 n = sint (of_nat n :: 32 word)"

lemma as_i32_small: "n < 2 ^ 31 \<Longrightarrow> as_i32 n = int n"
  unfolding as_i32_def
  by (simp add: signed_of_nat signed_take_bit_int_eq_self_iff)

text \<open>
  \<open>i64::abs\<close> of a release build: \<open>i64::MIN\<close> has no positive counterpart and is
  returned as it is.
\<close>

definition i64_abs :: "i64 \<Rightarrow> i64" where
  "i64_abs x = (if sint x < 0 then - x else x)"

definition i64_max0 :: "int \<Rightarrow> int" where
  "i64_max0 x = max x 0"

section \<open>Scanning a list for the first offending element\<close>

text \<open>
  The request filters walk an argument list and return the error of the first argument
  they reject. \<open>scan\<close> is the loop, \<open>verdict\<close> what it does with one argument.
\<close>

locale first_error_scan =
  fixes scan :: "'a list \<Rightarrow> ('e, unit) result"
    and verdict :: "'a \<Rightarrow> 'e option"
  assumes scan_Nil: "scan [] = Inr ()"
    and scan_Cons: "scan (x # xs) = (case verdict x of Some e \<Rightarrow> Inl e | None \<Rightarrow> scan xs)"
begin

lemma scan_ok_iff: "scan xs = Inr () \<longleftrightarrow> (\<forall>x \<in> set xs. verdict x = None)"
  by (induction xs) (auto simp: scan_Nil scan_Cons split: option.splits)

lemma scan_err_iff:
  "scan xs = Inl e \<longleftrightarrow>
    (\<exists>ys x zs. xs = ys @ x # zs \<and> (\<forall>y \<in> set ys. verdict y = None) \<and> verdict x = Some e)"
proof (induction xs)
  case Nil
  show ?case by (simp add: scan_Nil)
next
  case (Cons a as)
  show ?case
  proof (cases "verdict a")
    case None
    have "(\<exists>ys x zs. a # as = ys @ x # zs \<and> (\<forall>y \<in> set ys. verdict y = None) \<and> verdict x = Some e)
      \<longleftrightarrow> (\<exists>ys x zs. as = ys @ x # zs \<and> (\<forall>y \<in> set ys. verdict y = None) \<and> verdict x = Some e)"
      (is "?l \<longleftrightarrow> ?r")
    proof
      assume ?l
      then obtain ys x zs where *: "a # as = ys @ x # zs" "\<forall>y \<in> set ys. verdict y = None"
        "verdict x = Some e" by blast
      with None show ?r by (cases ys) auto
    next
      assume ?r
      then obtain ys x zs where "as = ys @ x # zs" "\<forall>y \<in> set ys. verdict y = None"
        "verdict x = Some e" by blast
      with None have "a # as = (a # ys) @ x # zs \<and> (\<forall>y \<in> set (a # ys). verdict y = None)
        \<and> verdict x = Some e" by simp
      then show ?l by blast
    qed
    with Cons.IH None show ?thesis by (simp add: scan_Cons)
  next
    case (Some e')
    have "(\<exists>ys x zs. a # as = ys @ x # zs \<and> (\<forall>y \<in> set ys. verdict y = None) \<and> verdict x = Some e)
      \<longleftrightarrow> e' = e"
    proof
      assume "\<exists>ys x zs. a # as = ys @ x # zs \<and> (\<forall>y \<in> set ys. verdict y = None)
        \<and> verdict x = Some e"
      then obtain ys x zs where "a # as = ys @ x # zs" "\<forall>y \<in> set ys. verdict y = None"
        "verdict x = Some e" by blast
      with Some show "e' = e" by (cases ys) auto
    next
      assume "e' = e"
      with Some have "a # as = [] @ a # as \<and> (\<forall>y \<in> set []. verdict y = None) \<and> verdict a = Some e"
        by simp
      then show "\<exists>ys x zs. a # as = ys @ x # zs \<and> (\<forall>y \<in> set ys. verdict y = None)
        \<and> verdict x = Some e" by blast
    qed
    with Some show ?thesis by (simp add: scan_Cons)
  qed
qed

lemma scan_append: "scan (xs @ ys) = res_bind (scan xs) (\<lambda>_. scan ys)"
  by (induction xs) (auto simp: scan_Nil scan_Cons split: option.splits)

end

section \<open>State machines that keep an invariant\<close>

locale step_invariant =
  fixes step :: "'s \<Rightarrow> 'l \<Rightarrow> 's"
    and inv :: "'s \<Rightarrow> bool"
  assumes step_inv: "inv s \<Longrightarrow> inv (step s l)"
begin

lemma run_inv: "inv s \<Longrightarrow> inv (foldl step s ls)"
  by (induction ls arbitrary: s) (auto intro: step_inv)

end

text \<open>A step relation that keeps an invariant and whose steps an abstraction sees, or does not.\<close>

locale simulation =
  fixes step :: "'s \<Rightarrow> 's \<Rightarrow> bool"
    and astep :: "'a \<Rightarrow> 'a \<Rightarrow> bool"
    and abs :: "'s \<Rightarrow> 'a"
    and inv :: "'s \<Rightarrow> bool"
  assumes inv_step: "inv s \<Longrightarrow> step s s' \<Longrightarrow> inv s'"
    and simulates: "inv s \<Longrightarrow> step s s' \<Longrightarrow> abs s' = abs s \<or> astep (abs s) (abs s')"
begin

lemma inv_steps: "step\<^sup>*\<^sup>* s s' \<Longrightarrow> inv s \<Longrightarrow> inv s'"
  by (induction rule: rtranclp_induct) (auto intro: inv_step)

lemma simulates_steps: "step\<^sup>*\<^sup>* s s' \<Longrightarrow> inv s \<Longrightarrow> astep\<^sup>*\<^sup>* (abs s) (abs s')"
proof (induction rule: rtranclp_induct)
  case (step t t')
  then have "abs t' = abs t \<or> astep (abs t) (abs t')" by (meson inv_steps simulates)
  then show ?case using step by (auto intro: rtranclp.rtrancl_into_rtrancl)
qed simp

end

section \<open>Tables with an insert that does nothing on a conflict\<close>

text \<open>
  \<open>INSERT ... ON CONFLICT DO NOTHING\<close>: the row is stored when its key is free, a stored
  row is never overwritten, and the caller learns which of the two happened. \<open>keyed k v\<close> is
  the row as stored, which carries its key.
\<close>

locale insert_once_table =
  fixes get_row :: "'t \<Rightarrow> 'k \<Rightarrow> 'v option"
    and put_row :: "'t \<Rightarrow> 'k \<Rightarrow> 'v \<Rightarrow> bool \<times> 't"
    and keyed :: "'k \<Rightarrow> 'v \<Rightarrow> 'v"
  assumes put_fresh: "get_row t k = None \<Longrightarrow>
      fst (put_row t k v) \<and> get_row (snd (put_row t k v)) = (get_row t)(k \<mapsto> keyed k v)"
    and put_taken: "get_row t k \<noteq> None \<Longrightarrow> put_row t k v = (False, t)"
begin

lemma put_reports: "fst (put_row t k v) \<longleftrightarrow> get_row t k = None"
  using put_fresh [of t k v] put_taken [of t k v] by (cases "get_row t k") auto

lemma put_keeps: "get_row t k' = Some w \<Longrightarrow> get_row (snd (put_row t k v)) k' = Some w"
  using put_fresh [of t k v] put_taken [of t k v] by (cases "get_row t k") auto

lemma put_stored: "get_row (snd (put_row t k v)) k \<noteq> None"
  using put_fresh [of t k v] put_taken [of t k v] by (cases "get_row t k") auto

lemma put_twice: "put_row (snd (put_row t k v)) k w = (False, snd (put_row t k v))"
  by (rule put_taken) (rule put_stored)

end

section \<open>Sorting by several keys\<close>

text \<open>
  Sorting by one key after another: the stable sort by a key keeps the order of what was
  sorted before among elements with the same key, as \<open>sort_by\<close> with a comparator that looks at
  the keys in turn.
\<close>

lemma sorted_groups:
  "sorted_wrt (\<lambda>a b. f a = f b \<longrightarrow> Q a b) xs \<longleftrightarrow> (\<forall>k. sorted_wrt Q (filter (\<lambda>x. f x = k) xs))"
  by (induction xs) (auto split: if_splits)

lemma sort_key_lex:
  fixes k :: "'a \<Rightarrow> 'b::linorder"
  assumes "sorted_wrt Q xs"
  shows "sorted_wrt (\<lambda>a b. k a < k b \<or> k a = k b \<and> Q a b) (sort_key k xs)"
proof -
  have "\<forall>v. sorted_wrt Q (filter (\<lambda>x. k x = v) (sort_key k xs))"
    unfolding sort_key_stable using assms by (blast intro: sorted_wrt_filter)
  then have "sorted_wrt (\<lambda>a b. k a = k b \<longrightarrow> Q a b) (sort_key k xs)" unfolding sorted_groups .
  moreover have "sorted_wrt (\<lambda>a b. k a \<le> k b) (sort_key k xs)"
    using sorted_sort_key [of k xs] by (simp add: sorted_map)
  ultimately show ?thesis unfolding sorted_wrt_iff_nth_less by (metis order_le_less)
qed

lemma sorted_wrt_any: "sorted_wrt (\<lambda>_ _. True) xs"
  by (induction xs) simp_all

end
