(* ===== verification/Rust_String.thy ===== *)
theory Rust_String
  imports Prelude "HOL-Library.List_Lexorder" "HOL-Library.Char_ord"
begin

text \<open>
  Rust strings and the \<open>str\<close> methods the program calls. A \<open>String\<close> is the list of its
  UTF-8 bytes, so \<open>length\<close> is \<open>str::len\<close> and a slice position is a byte position;
  operations that work on Unicode characters (trimming, splitting at white space,
  counting characters) are written out on the encoded bytes. The order of strings is the
  byte-wise lexicographic one, which is that of \<open>List_Lexorder\<close>.
\<close>

section \<open>Bytes, prefixes and searching\<close>

abbreviation byte :: "char \<Rightarrow> nat" where
  "byte c \<equiv> of_char c"

definition starts_with :: "string \<Rightarrow> string \<Rightarrow> bool" where
  "starts_with s p \<longleftrightarrow> take (length p) s = p"

definition ends_with :: "string \<Rightarrow> string \<Rightarrow> bool" where
  "ends_with s p \<longleftrightarrow> length p \<le> length s \<and> drop (length s - length p) s = p"

definition strip_prefix :: "string \<Rightarrow> string \<Rightarrow> string option" where
  "strip_prefix s p = (if starts_with s p then Some (drop (length p) s) else None)"

fun find_sub :: "string \<Rightarrow> string \<Rightarrow> nat option" where
  "find_sub [] p = (if p = [] then Some 0 else None)"
| "find_sub (c # cs) p =
     (if starts_with (c # cs) p then Some 0 else map_option Suc (find_sub cs p))"

definition contains_sub :: "string \<Rightarrow> string \<Rightarrow> bool" where
  "contains_sub s p \<longleftrightarrow> find_sub s p \<noteq> None"

lemma starts_with_append [simp]: "starts_with (p @ s) p"
  by (simp add: starts_with_def)

lemma starts_with_iff: "starts_with s p \<longleftrightarrow> (\<exists>r. s = p @ r)"
  unfolding starts_with_def by (metis append_take_drop_id append_eq_conv_conj)

lemma find_sub_sound: "find_sub s p = Some i \<Longrightarrow> i \<le> length s \<and> starts_with (drop i s) p"
  by (induction s p arbitrary: i rule: find_sub.induct)
     (auto simp: starts_with_def split: if_splits)

section \<open>Joining and splitting\<close>

fun join :: "string \<Rightarrow> string list \<Rightarrow> string" where
  "join sep [] = []"
| "join sep [x] = x"
| "join sep (x # y # ys) = x @ sep @ join sep (y # ys)"

text \<open>\<open>str::split(c)\<close> for one character: never empty.\<close>

fun split_char :: "char \<Rightarrow> string \<Rightarrow> string list" where
  "split_char d [] = [[]]"
| "split_char d (c # cs) =
     (if c = d then [] # split_char d cs
      else (case split_char d cs of [] \<Rightarrow> [[c]] | w # ws \<Rightarrow> (c # w) # ws))"

lemma split_char_nonempty [simp]: "split_char d s \<noteq> []"
  by (induction s) (auto split: list.splits)

lemma join_split_char: "join [d] (split_char d s) = s"
proof (induction s)
  case (Cons c cs)
  obtain w ws where w: "split_char d cs = w # ws"
    by (cases "split_char d cs") auto
  with Cons show ?case by (cases ws) auto
qed simp

text \<open>
  \<open>str::lines\<close>: split at line feeds, one carriage return before a line feed cut, no last
  piece when the text ends in a line feed (or is empty).
\<close>

definition drop_cr :: "string \<Rightarrow> string" where
  "drop_cr l = (if l \<noteq> [] \<and> last l = CHR 0x0D then butlast l else l)"

definition lines :: "string \<Rightarrow> string list" where
  "lines s =
     (let ps = split_char (CHR 0x0A) s
      in map drop_cr (butlast ps) @ (if last ps = [] then [] else [last ps]))"

text \<open>\<open>Path::join\<close> on texts: an absolute name replaces the base.\<close>

definition join_path :: "string \<Rightarrow> string \<Rightarrow> string" where
  "join_path base name =
     (if take 1 name = ''/'' then name
      else if base = [] then name
      else if last base = CHR ''/'' then base @ name else base @ ''/'' @ name)"

text \<open>\<open>str::split(p)\<close> for a string that is not empty.\<close>

fun split_str_aux :: "nat \<Rightarrow> string \<Rightarrow> string \<Rightarrow> string list" where
  "split_str_aux 0 p s = [s]"
| "split_str_aux (Suc n) p s =
     (case find_sub s p of
        None \<Rightarrow> [s]
      | Some i \<Rightarrow> take i s # split_str_aux n p (drop (i + length p) s))"

definition split_str :: "string \<Rightarrow> string \<Rightarrow> string list" where
  "split_str p s = split_str_aux (length s) p s"

section \<open>White space\<close>

text \<open>
  \<open>char::is_whitespace\<close> on UTF-8: \<open>ws_len s\<close> is the number of bytes of the white-space
  character \<open>s\<close> starts with, 0 if it starts with another one. The characters are U+0009
  to U+000D, U+0020, U+0085, U+00A0, U+1680, U+2000 to U+200A, U+2028, U+2029, U+202F,
  U+205F and U+3000.
\<close>

definition ascii_ws :: "char \<Rightarrow> bool" where
  "ascii_ws c \<longleftrightarrow> byte c = 32 \<or> (9 \<le> byte c \<and> byte c \<le> 13)"

fun ws_len :: "string \<Rightarrow> nat" where
  "ws_len [] = 0"
| "ws_len (a # s) =
     (if ascii_ws a then 1
      else case s of
        [] \<Rightarrow> 0
      | b # t \<Rightarrow>
          if byte a = 0xC2 \<and> (byte b = 0x85 \<or> byte b = 0xA0) then 2
          else case t of
            [] \<Rightarrow> 0
          | c # _ \<Rightarrow>
              if byte a = 0xE1 \<and> byte b = 0x9A \<and> byte c = 0x80
               \<or> byte a = 0xE2 \<and> byte b = 0x80 \<and>
                   (0x80 \<le> byte c \<and> byte c \<le> 0x8A \<or> byte c \<in> {0xA8, 0xA9, 0xAF})
               \<or> byte a = 0xE2 \<and> byte b = 0x81 \<and> byte c = 0x9F
               \<or> byte a = 0xE3 \<and> byte b = 0x80 \<and> byte c = 0x80
              then 3 else 0)"

definition ws_len_end :: "string \<Rightarrow> nat" where
  "ws_len_end s =
     (if ws_len (drop (length s - 1) s) = 1 \<and> s \<noteq> [] then 1
      else if 2 \<le> length s \<and> ws_len (drop (length s - 2) s) = 2 then 2
      else if 3 \<le> length s \<and> ws_len (drop (length s - 3) s) = 3 then 3
      else 0)"

lemma ws_len_le: "ws_len s \<le> length s"
  by (induction s rule: ws_len.induct) (auto split: list.splits)

lemma ws_len_end_le: "ws_len_end s \<le> length s"
  by (cases s) (auto simp: ws_len_end_def)

function trim_start :: "string \<Rightarrow> string" where
  "trim_start s = (if ws_len s = 0 then s else trim_start (drop (ws_len s) s))"
  by pat_completeness auto
termination
proof (relation "measure length", goal_cases)
  case (2 s)
  then show ?case using ws_len_le [of s] by (cases s) auto
qed simp

function trim_end :: "string \<Rightarrow> string" where
  "trim_end s = (if ws_len_end s = 0 then s else trim_end (take (length s - ws_len_end s) s))"
  by pat_completeness auto
termination
proof (relation "measure length", goal_cases)
  case (2 s)
  then show ?case using ws_len_end_le [of s] by (cases s) (auto simp: ws_len_end_def)
qed simp

declare trim_start.simps [simp del] trim_end.simps [simp del]

definition trim :: "string \<Rightarrow> string" where
  "trim s = trim_end (trim_start s)"

definition blank :: "string \<Rightarrow> bool" where
  "blank s \<longleftrightarrow> trim s = []"

lemma trim_start_step: "ws_len s \<noteq> 0 \<Longrightarrow> trim_start s = trim_start (drop (ws_len s) s)"
  by (subst trim_start.simps) simp

lemma trim_start_done: "ws_len s = 0 \<Longrightarrow> trim_start s = s"
  by (subst trim_start.simps) simp

lemma trim_end_step:
  "ws_len_end s \<noteq> 0 \<Longrightarrow> trim_end s = trim_end (take (length s - ws_len_end s) s)"
  by (subst trim_end.simps) simp

lemma trim_end_done: "ws_len_end s = 0 \<Longrightarrow> trim_end s = s"
  by (subst trim_end.simps) simp

lemma length_trim_start: "length (trim_start s) \<le> length s"
proof (induction s rule: trim_start.induct)
  case (1 s)
  show ?case
  proof (cases "ws_len s = 0")
    case False
    have "length (trim_start s) \<le> length (drop (ws_len s) s)"
      unfolding trim_start_step [OF False] by (rule "1.IH" [OF False])
    then show ?thesis by simp
  qed (simp add: trim_start_done)
qed

lemma length_trim_end: "length (trim_end s) \<le> length s"
proof (induction s rule: trim_end.induct)
  case (1 s)
  show ?case
  proof (cases "ws_len_end s = 0")
    case False
    have "length (trim_end s) \<le> length (take (length s - ws_len_end s) s)"
      unfolding trim_end_step [OF False] by (rule "1.IH" [OF False])
    then show ?thesis by simp
  qed (simp add: trim_end_done)
qed

lemma trim_start_fixed:
  assumes "length (trim_start s) = length s"
  shows "trim_start s = s"
proof (cases "ws_len s = 0")
  case False
  have "length (trim_start s) \<le> length (drop (ws_len s) s)"
    unfolding trim_start_step [OF False] by (rule length_trim_start)
  with assms False ws_len_le [of s] show ?thesis by simp
qed (rule trim_start_done)

lemma trim_end_fixed:
  assumes "trim_end s = s"
  shows "ws_len_end s = 0"
proof (rule ccontr)
  assume w: "ws_len_end s \<noteq> 0"
  have "length (trim_end s) \<le> length (take (length s - ws_len_end s) s)"
    unfolding trim_end_step [OF w] by (rule length_trim_end)
  with assms w ws_len_end_le [of s] show False by simp
qed

lemma trim_fixed:
  assumes "trim s = s"
  shows "trim_start s = s" and "trim_end s = s"
proof -
  have "length (trim_start s) = length s"
    using length_trim_start [of s] length_trim_end [of "trim_start s"] assms by (simp add: trim_def)
  then show ts: "trim_start s = s" by (rule trim_start_fixed)
  with assms show "trim_end s = s" by (simp add: trim_def)
qed

lemma trim_fixed_last:
  assumes "trim s = s" and "s \<noteq> []"
  shows "\<not> ascii_ws (last s)"
proof
  assume "ascii_ws (last s)"
  moreover have "drop (length s - 1) s = [last s]"
    using assms(2) by (metis append_butlast_last_id append_eq_conv_conj length_butlast)
  ultimately have "ws_len_end s = 1" using assms(2) by (simp add: ws_len_end_def)
  with trim_end_fixed [OF trim_fixed(2) [OF assms(1)]] show False by simp
qed

text \<open>\<open>str::split_whitespace\<close>: the maximal runs of other characters.\<close>

function split_ws_aux :: "string \<Rightarrow> string \<Rightarrow> string list" where
  "split_ws_aux cur [] = (if cur = [] then [] else [cur])"
| "split_ws_aux cur (c # cs) =
     (if ws_len (c # cs) = 0 then split_ws_aux (cur @ [c]) cs
      else (if cur = [] then [] else [cur]) @ split_ws_aux [] (drop (ws_len (c # cs)) (c # cs)))"
  by pat_completeness auto
termination
proof (relation "measure (\<lambda>(cur, s). length s)", goal_cases)
  case (3 cur c cs)
  then show ?case using ws_len_le [of "c # cs"] by auto
qed simp_all

definition split_whitespace :: "string \<Rightarrow> string list" where
  "split_whitespace s = split_ws_aux [] s"

section \<open>Characters\<close>

text \<open>A byte that continues a UTF-8 sequence; every other byte starts a character.\<close>

definition cont_byte :: "char \<Rightarrow> bool" where
  "cont_byte c \<longleftrightarrow> 0x80 \<le> byte c \<and> byte c < 0xC0"

definition is_char_boundary :: "string \<Rightarrow> nat \<Rightarrow> bool" where
  "is_char_boundary s i \<longleftrightarrow> i = 0 \<or> i = length s \<or> (i < length s \<and> \<not> cont_byte (s ! i))"

text \<open>\<open>&s[..n]\<close>: panics (here \<open>None\<close>) past the end and inside a character.\<close>

definition slice_to :: "string \<Rightarrow> nat \<Rightarrow> string option" where
  "slice_to s n = (if is_char_boundary s n then Some (take n s) else None)"

definition char_count :: "string \<Rightarrow> nat" where
  "char_count s = length (filter (\<lambda>c. \<not> cont_byte c) s)"

text \<open>The first \<open>n\<close> characters.\<close>

fun take_chars :: "nat \<Rightarrow> string \<Rightarrow> string" where
  "take_chars n [] = []"
| "take_chars n (c # cs) =
     (if cont_byte c then c # take_chars n cs
      else case n of 0 \<Rightarrow> [] | Suc m \<Rightarrow> c # take_chars m cs)"

definition ascii_upper :: "char \<Rightarrow> bool" where
  "ascii_upper c \<longleftrightarrow> 65 \<le> byte c \<and> byte c \<le> 90"

definition ascii_lower :: "char \<Rightarrow> bool" where
  "ascii_lower c \<longleftrightarrow> 97 \<le> byte c \<and> byte c \<le> 122"

definition ascii_digit :: "char \<Rightarrow> bool" where
  "ascii_digit c \<longleftrightarrow> 48 \<le> byte c \<and> byte c \<le> 57"

definition ascii_alnum :: "char \<Rightarrow> bool" where
  "ascii_alnum c \<longleftrightarrow> ascii_upper c \<or> ascii_lower c \<or> ascii_digit c"

text \<open>\<open>u8::is_ascii_whitespace\<close>, which leaves out the vertical tab.\<close>

definition ascii_whitespace :: "char \<Rightarrow> bool" where
  "ascii_whitespace c \<longleftrightarrow> byte c \<in> {0x20, 0x09, 0x0A, 0x0C, 0x0D}"

definition to_lower_ascii :: "char \<Rightarrow> char" where
  "to_lower_ascii c = (if ascii_upper c then char_of (byte c + 32) else c)"

lemma char_count_take_chars: "char_count (take_chars n s) = min n (char_count s)"
  by (induction n s rule: take_chars.induct) (auto simp: char_count_def split: nat.splits)

section \<open>Decimal numbers\<close>

fun show_nat :: "nat \<Rightarrow> string" where
  "show_nat n = (if n < 10 then [char_of (48 + n)] else show_nat (n div 10) @ [char_of (48 + n mod 10)])"

declare show_nat.simps [simp del]

definition show_int :: "int \<Rightarrow> string" where
  "show_int i = (if i < 0 then ''-'' @ show_nat (nat (- i)) else show_nat (nat i))"

text \<open>Reading the digits back: the printed form determines the number.\<close>

definition digits_val :: "string \<Rightarrow> nat" where
  "digits_val s = foldl (\<lambda>a c. 10 * a + (byte c - 48)) 0 s"

lemma digits_val_show: "digits_val (show_nat n) = n"
proof (induction n rule: show_nat.induct)
  case (1 n)
  then show ?case
    by (cases "n < 10") (simp_all add: show_nat.simps [of n] digits_val_def)
qed

lemma show_nat_inj: "show_nat m = show_nat n \<longleftrightarrow> m = n"
  by (metis digits_val_show)

lemma show_nat_digits: "c \<in> set (show_nat n) \<Longrightarrow> ascii_digit c"
proof (induction n rule: show_nat.induct)
  case (1 n)
  then show ?case
    by (cases "n < 10") (auto simp: show_nat.simps [of n] ascii_digit_def)
qed

lemma show_int_inj: "show_int i = show_int j \<longleftrightarrow> i = j"
proof -
  have neg: "show_nat m \<noteq> CHR ''-'' # s" for m s
    using show_nat_digits [of "CHR ''-''" m] by (auto simp: ascii_digit_def)
  show ?thesis
    using neg [THEN not_sym] by (auto simp: show_int_def show_nat_inj neg split: if_splits)
qed

lemma show_int_chars: "c \<in> set (show_int i) \<Longrightarrow> c = CHR ''-'' \<or> ascii_digit c"
  by (auto simp: show_int_def dest: show_nat_digits split: if_splits)

text \<open>A field that does not hold the separator ends at the first one.\<close>

lemma field_split:
  "d \<notin> set a \<Longrightarrow> d \<notin> set b \<Longrightarrow> a @ d # x = b @ d # y \<longleftrightarrow> a = b \<and> x = y"
  by (induction a arbitrary: b) (case_tac [!] b, auto)

end
