(* ===== verification/Runner.thy ===== *)
theory Runner
  imports Rust_String
begin

text \<open>
  The container runner (\<^verbatim>\<open>backend/src/container_runner.rs\<close>): the policy that turns a
  \<open>docker\<close> command line sent by a PTY into the command line that is run, and the
  execution of one request on the host. The file system and the Docker CLI are a record
  of functions over an abstract host state \<open>'w\<close>; every call of the Docker CLI is recorded
  in a trace.
\<close>

section \<open>Configuration, requests, responses, errors\<close>

definition OWNER_LABEL :: string where "OWNER_LABEL = ''sulion.owner''"
definition OWNER_VALUE :: string where "OWNER_VALUE = ''sulion''"
definition PTY_LABEL :: string where "PTY_LABEL = ''sulion.pty_id''"
definition SULION_NETWORK :: string where "SULION_NETWORK = ''sulion''"
definition COMPOSE_NETWORK_OVERRIDE_PATH :: string where
  "COMPOSE_NETWORK_OVERRIDE_PATH = ''/tmp/sulion-compose-network.override.yaml''"
definition COMPOSE_NETWORK_OVERRIDE :: string where
  "COMPOSE_NETWORK_OVERRIDE =
     ''networks:'' @ [CHR 0x0A] @ ''  default:'' @ [CHR 0x0A] @ ''    name: sulion'' @ [CHR 0x0A]
     @ ''    external: true'' @ [CHR 0x0A]"

lemmas runner_consts = OWNER_LABEL_def OWNER_VALUE_def PTY_LABEL_def SULION_NETWORK_def
  COMPOSE_NETWORK_OVERRIDE_PATH_def

type_synonym path = "string list"

record runner_config =
  allowed_roots :: "string list"
  default_memory :: "string option"
  default_cpus :: "string option"
  default_pids_limit :: "string option"

text \<open>\<open>env_optional\<close> and the parts of \<open>from_env\<close> that compute; \<open>env\<close> is the process environment.\<close>

definition env_optional :: "(string \<Rightarrow> string option) \<Rightarrow> string \<Rightarrow> string option" where
  "env_optional env key = opt_filter (\<lambda>v. v \<noteq> []) (map_option trim (env key))"

definition parse_allowed_roots :: "(string \<Rightarrow> string option) \<Rightarrow> string list" where
  "parse_allowed_roots env =
     filter (\<lambda>v. v \<noteq> [])
       (map trim (split_char (CHR '','')
          (unwrap_or ''/home/dev/repos'' (env ''SULION_RUNNER_ALLOWED_ROOTS''))))"

definition config_from_env :: "(string \<Rightarrow> string option) \<Rightarrow> (string, runner_config) result" where
  "config_from_env env =
     (if parse_allowed_roots env = []
      then Inl ''SULION_RUNNER_ALLOWED_ROOTS must include at least one path''
      else Inr \<lparr>allowed_roots = parse_allowed_roots env,
        default_memory = or_else (env_optional env ''SULION_RUNNER_DEFAULT_MEMORY'') (Some ''2g''),
        default_cpus = or_else (env_optional env ''SULION_RUNNER_DEFAULT_CPUS'') (Some ''2''),
        default_pids_limit = or_else (env_optional env ''SULION_RUNNER_DEFAULT_PIDS'') (Some ''512'')\<rparr>)"

record docker_request =
  req_pty_id :: "string option"
  req_cwd :: string
  req_argv :: "string list"

record docker_response =
  exit_code :: int
  resp_stdout :: string
  resp_stderr :: string

record runner_error =
  err_status :: http_status
  err_message :: string

definition bad_request :: "string \<Rightarrow> runner_error" where
  "bad_request m = \<lparr>err_status = BAD_REQUEST, err_message = m\<rparr>"
definition forbidden :: "string \<Rightarrow> runner_error" where
  "forbidden m = \<lparr>err_status = FORBIDDEN, err_message = m\<rparr>"
definition internal :: "string \<Rightarrow> runner_error" where
  "internal m = \<lparr>err_status = INTERNAL_SERVER_ERROR, err_message = m\<rparr>"

datatype docker_subcommand =
  Build | Run | Ps | Images | Pull | Logs | Stop | Rm | Inspect | Compose | Version | Help

record prepared_args =
  p_subcommand :: docker_subcommand
  p_args :: "string list"

section \<open>Flag policy of build and run\<close>

datatype flag_policy = PolicyBuild | PolicyRun

definition denied_flags :: "flag_policy \<Rightarrow> string list" where
  "denied_flags policy = (case policy of
     PolicyBuild \<Rightarrow>
       [''--allow'', ''--build-context'', ''--iidfile'', ''--network'', ''--metadata-file'',
        ''--output'', ''--secret'', ''--ssh'', ''--label'', ''-o'']
   | PolicyRun \<Rightarrow>
       [''--add-host'', ''--cap-add'', ''--cgroupns'', ''--cpu-period'', ''--cpu-quota'',
        ''--cpu-shares'', ''--cpus'', ''--cpuset-cpus'', ''--device'', ''--group-add'', ''--ipc'',
        ''--label'', ''--memory'', ''--memory-reservation'', ''--memory-swap'', ''--mount'',
        ''--network'', ''--net'', ''--oom-kill-disable'', ''--pid'', ''--pids-limit'',
        ''--privileged'', ''--restart'', ''--security-opt'', ''--storage-opt'', ''--tmpfs'',
        ''--userns'', ''--uts'', ''--volume'', ''--volumes-from'', ''-m'', ''-v''])"

definition interactive_flags :: "string list" where
  "interactive_flags = [''-i'', ''-t'', ''-it'', ''-ti'', ''--interactive'', ''--tty'']"

definition host_namespace_flags :: "string list" where
  "host_namespace_flags =
     [''--pid=host'', ''--network=host'', ''--net=host'', ''--ipc=host'', ''--uts=host'',
      ''--cgroupns=host'']"

text \<open>One flag of the list against one argument: itself, \<open>flag=value\<close>, or \<open>-ovalue\<close>.\<close>

definition flag_matches :: "string \<Rightarrow> string \<Rightarrow> bool" where
  "flag_matches arg flag \<longleftrightarrow>
     arg = flag \<or> starts_with arg (flag @ ''='')
     \<or> (length flag = 2 \<and> starts_with arg flag \<and> 2 < length arg)"

definition flag_verdict :: "flag_policy \<Rightarrow> string \<Rightarrow> runner_error option" where
  "flag_verdict policy arg =
     (if policy = PolicyRun \<and> arg \<in> set interactive_flags
      then Some (forbidden ''interactive docker runs are not supported through sulion-runner'')
      else case find (flag_matches arg) (denied_flags policy) of
        Some flag \<Rightarrow>
          Some (forbidden (''docker flag is not allowed through sulion-runner: '' @ flag))
      | None \<Rightarrow>
          if arg \<in> set host_namespace_flags
          then Some (forbidden (''host namespace flag is not allowed: '' @ arg)) else None)"

fun deny_dangerous_flags :: "flag_policy \<Rightarrow> string list \<Rightarrow> (runner_error, unit) result" where
  "deny_dangerous_flags policy [] = Inr ()"
| "deny_dangerous_flags policy (arg # args) =
     (case flag_verdict policy arg of
        Some e \<Rightarrow> Inl e
      | None \<Rightarrow> deny_dangerous_flags policy args)"

definition log_verdict :: "string \<Rightarrow> runner_error option" where
  "log_verdict arg =
     (if arg = ''-f'' \<or> arg = ''--follow'' \<or> starts_with arg ''--follow=''
      then Some (forbidden ''streaming docker logs are not supported through sulion-runner'')
      else None)"

fun deny_log_streaming_flags :: "string list \<Rightarrow> (runner_error, unit) result" where
  "deny_log_streaming_flags [] = Inr ()"
| "deny_log_streaming_flags (arg # args) =
     (case log_verdict arg of Some e \<Rightarrow> Inl e | None \<Rightarrow> deny_log_streaming_flags args)"

definition compose_global_verdict :: "string \<Rightarrow> runner_error option" where
  "compose_global_verdict arg =
     (if arg = ''--project-directory'' \<or> starts_with arg ''--project-directory=''
      then Some (forbidden
        ''docker compose --project-directory is not supported through sulion-runner'')
      else None)"

fun deny_compose_global_args :: "string list \<Rightarrow> (runner_error, unit) result" where
  "deny_compose_global_args [] = Inr ()"
| "deny_compose_global_args (arg # args) =
     (case compose_global_verdict arg of Some e \<Rightarrow> Inl e | None \<Rightarrow> deny_compose_global_args args)"

interpretation flag_scan: first_error_scan "deny_dangerous_flags policy" "flag_verdict policy"
  for policy by unfold_locales simp_all

interpretation log_scan: first_error_scan deny_log_streaming_flags log_verdict
  by unfold_locales simp_all

interpretation compose_scan: first_error_scan deny_compose_global_args compose_global_verdict
  by unfold_locales simp_all

section \<open>Compose command lines\<close>

definition compose_value_flags :: "string list" where
  "compose_value_flags =
     [''-f'', ''--file'', ''-p'', ''--project-name'', ''--profile'', ''--env-file'', ''--ansi'',
      ''--progress'', ''--parallel'']"

definition compose_eq_flags :: "string list" where
  "compose_eq_flags =
     [''--file='', ''--project-name='', ''--profile='', ''--env-file='', ''--ansi='',
      ''--progress='', ''--parallel='']"

text \<open>The loop of \<open>compose_command_index\<close> from \<open>index\<close> on.\<close>

function compose_index_from :: "string list \<Rightarrow> nat \<Rightarrow> (runner_error, nat) result" where
  "compose_index_from args index =
     (if index < length args then
        let arg = args ! index in
        if arg = ''--'' then Inl (bad_request ''docker compose command is required'')
        else if arg \<in> set compose_value_flags then compose_index_from args (index + 2)
        else if \<exists>p \<in> set compose_eq_flags. starts_with arg p then compose_index_from args (index + 1)
        else if starts_with arg ''-'' then compose_index_from args (index + 1)
        else Inr index
      else Inl (bad_request ''docker compose command is required''))"
  by pat_completeness auto
termination
  by (relation "measure (\<lambda>(args, index). length args - index)") auto

declare compose_index_from.simps [simp del]

definition compose_command_index :: "string list \<Rightarrow> (runner_error, nat) result" where
  "compose_command_index args = compose_index_from args 0"

definition compose_commands :: "string list" where
  "compose_commands =
     [''build'', ''config'', ''down'', ''images'', ''logs'', ''ps'', ''pull'', ''restart'', ''rm'',
      ''start'', ''stop'', ''up'', ''version'']"

definition validate_compose_command :: "string \<Rightarrow> (runner_error, unit) result" where
  "validate_compose_command command =
     (if command \<in> set compose_commands then Inr ()
      else Inl (forbidden (''docker compose command is not supported: '' @ command)))"

definition compose_args_include_files :: "string list \<Rightarrow> bool" where
  "compose_args_include_files args \<longleftrightarrow>
     (\<exists>arg \<in> set args. arg = ''-f'' \<or> arg = ''--file'' \<or> starts_with arg ''--file='')"

text \<open>\<open>is_file name\<close> says whether \<open>cwd.join(name)\<close> is a file.\<close>

definition default_compose_files :: "(string \<Rightarrow> bool) \<Rightarrow> (runner_error, string list) result" where
  "default_compose_files is_file =
     (case find is_file
             [''compose.yaml'', ''compose.yml'', ''docker-compose.yaml'', ''docker-compose.yml''] of
        None \<Rightarrow> Inl (bad_request ''compose file not found'')
      | Some base \<Rightarrow>
          Inr (base # filter is_file
                 [''compose.override.yaml'', ''compose.override.yml'',
                  ''docker-compose.override.yaml'', ''docker-compose.override.yml'']))"

definition prepare_compose_args ::
    "docker_request \<Rightarrow> (string \<Rightarrow> bool) \<Rightarrow> (runner_error, prepared_args) result" where
  "prepare_compose_args request is_file =
     (let compose_args = drop 1 (req_argv request) in
      if compose_args \<noteq> [] \<and> hd compose_args \<in> {''version'', ''--version'', ''-v''}
      then Inr \<lparr>p_subcommand = Compose, p_args = [''compose'', ''version'']\<rparr>
      else res_bind (compose_command_index compose_args) (\<lambda>command_index.
        let command = compose_args ! command_index;
            global_args = take command_index compose_args in
        res_bind (validate_compose_command command) (\<lambda>_.
        res_bind (deny_compose_global_args global_args) (\<lambda>_.
        res_bind
          (if command \<noteq> ''version'' then
             res_bind
               (if compose_args_include_files global_args then Inr []
                else res_bind (default_compose_files is_file)
                       (\<lambda>files. Inr (concat (map (\<lambda>file. [''-f'', file]) files))))
               (\<lambda>files. Inr (files @ global_args @ [''-f'', COMPOSE_NETWORK_OVERRIDE_PATH]))
           else Inr global_args)
          (\<lambda>globals.
             Inr \<lparr>p_subcommand = Compose,
               p_args = ''compose'' # globals @ drop command_index compose_args\<rparr>)))))"

section \<open>The other subcommands\<close>

definition pty_label_value :: "docker_request \<Rightarrow> string" where
  "pty_label_value request = unwrap_or ''unknown'' (req_pty_id request)"

definition simple_args :: "docker_request \<Rightarrow> docker_subcommand \<Rightarrow> prepared_args" where
  "simple_args request sub = \<lparr>p_subcommand = sub, p_args = req_argv request\<rparr>"

definition owner_labels :: "docker_request \<Rightarrow> string list" where
  "owner_labels request =
     [''--label'', OWNER_LABEL @ ''='' @ OWNER_VALUE,
      ''--label'', PTY_LABEL @ ''='' @ pty_label_value request]"

definition prepare_build_args :: "docker_request \<Rightarrow> (runner_error, prepared_args) result" where
  "prepare_build_args request =
     res_bind (deny_dangerous_flags PolicyBuild (drop 1 (req_argv request))) (\<lambda>_.
       Inr \<lparr>p_subcommand = Build,
         p_args = ''build'' # owner_labels request @ drop 1 (req_argv request)\<rparr>)"

definition flag_with_value :: "string \<Rightarrow> string option \<Rightarrow> string list" where
  "flag_with_value flag v = (case v of None \<Rightarrow> [] | Some x \<Rightarrow> [flag, x])"

definition run_defaults :: "docker_request \<Rightarrow> runner_config \<Rightarrow> string list" where
  "run_defaults request config =
     owner_labels request @ [''--network'', SULION_NETWORK]
     @ flag_with_value ''--memory'' (default_memory config)
     @ flag_with_value ''--cpus'' (default_cpus config)
     @ flag_with_value ''--pids-limit'' (default_pids_limit config)"

definition prepare_run_args ::
    "docker_request \<Rightarrow> runner_config \<Rightarrow> (runner_error, prepared_args) result" where
  "prepare_run_args request config =
     res_bind (deny_dangerous_flags PolicyRun (drop 1 (req_argv request))) (\<lambda>_.
       Inr \<lparr>p_subcommand = Run,
         p_args = ''run'' # run_defaults request config @ drop 1 (req_argv request)\<rparr>)"

definition prepare_ps_args :: "docker_request \<Rightarrow> prepared_args" where
  "prepare_ps_args request =
     \<lparr>p_subcommand = Ps,
      p_args = [''ps'', ''--filter'', ''label='' @ OWNER_LABEL @ ''='' @ OWNER_VALUE]
               @ drop 1 (req_argv request)\<rparr>"

definition prepare_logs_args :: "docker_request \<Rightarrow> (runner_error, prepared_args) result" where
  "prepare_logs_args request =
     res_bind (deny_log_streaming_flags (drop 1 (req_argv request)))
       (\<lambda>_. Inr (simple_args request Logs))"

definition prepare_docker_args ::
    "docker_request \<Rightarrow> runner_config \<Rightarrow> (string \<Rightarrow> bool) \<Rightarrow> (runner_error, prepared_args) result" where
  "prepare_docker_args request config is_file =
     (case req_argv request of
        [] \<Rightarrow> Inl (bad_request ''docker command is required'')
      | command # _ \<Rightarrow>
          if \<exists>arg \<in> set (req_argv request). arg = ''--help'' \<or> arg = ''-h''
          then Inr (simple_args request Help)
          else if command = ''--version'' \<or> command = ''version'' then Inr (simple_args request Version)
          else if command = ''build'' then prepare_build_args request
          else if command = ''run'' then prepare_run_args request config
          else if command = ''ps'' then Inr (prepare_ps_args request)
          else if command = ''images'' then Inr (simple_args request Images)
          else if command = ''pull'' then Inr (simple_args request Pull)
          else if command = ''logs'' then prepare_logs_args request
          else if command = ''stop'' then Inr (simple_args request Stop)
          else if command = ''rm'' then Inr (simple_args request Rm)
          else if command = ''inspect'' then Inr (simple_args request Inspect)
          else if command = ''compose'' then prepare_compose_args request is_file
          else Inl (forbidden (''docker subcommand is not supported: '' @ command)))"

section \<open>Container targets\<close>

definition flag_takes_value :: "string \<Rightarrow> bool" where
  "flag_takes_value flag \<longleftrightarrow>
     flag \<in> {''--filter'', ''--format'', ''--since'', ''--tail'', ''--until'', ''--time''}"

text \<open>The loop over the arguments after the subcommand.\<close>

function targets_from :: "string list \<Rightarrow> string list" where
  "targets_from [] = []"
| "targets_from (arg # args) =
     (if arg = ''--'' then args
      else if starts_with arg ''--'' then
        (if flag_takes_value arg \<and> CHR ''='' \<notin> set arg then targets_from (drop 1 args)
         else targets_from args)
      else if starts_with arg ''-'' then targets_from args
      else arg # targets_from args)"
  by pat_completeness auto
termination
  by (relation "measure length") auto

definition container_targets :: "string list \<Rightarrow> string list" where
  "container_targets args = targets_from (drop 1 args)"

section \<open>The host and the execution of a request\<close>

text \<open>
  Every call of the Docker CLI is recorded in a trace, with the host's reply. What the runner asks of the host. Paths that \<open>canonicalize\<close> returns are lists of
  components; an \<open>Inl\<close> is the operating system's error text. A finished process gives
  its exit code, if it has one, and its output as text.
\<close>

record process_output =
  out_code :: "int option"
  out_stdout :: string
  out_stderr :: string

datatype docker_call =
  DockerCall (call_args: "string list") (call_cwd: "path option")

record 'w host =
  h_canonicalize :: "'w \<Rightarrow> string \<Rightarrow> (string, path) result"
  h_is_file :: "'w \<Rightarrow> path \<Rightarrow> string \<Rightarrow> bool"
  h_write_file :: "'w \<Rightarrow> string \<Rightarrow> string \<Rightarrow> (string, unit) result \<times> 'w"
  h_docker :: "'w \<Rightarrow> docker_call \<Rightarrow> (string, process_output) result \<times> 'w"

text \<open>\<open>Path::starts_with\<close> compares whole components.\<close>

definition path_starts_with :: "path \<Rightarrow> path \<Rightarrow> bool" where
  "path_starts_with p root \<longleftrightarrow> take (length root) p = root"

type_synonym docker_trace = "(docker_call \<times> (string, process_output) result) list"

definition show_path :: "path \<Rightarrow> string" where
  "show_path p = (if p = [] then ''/'' else concat (map (\<lambda>c. ''/'' @ c) p))"

definition cwd_allowed :: "'w host \<Rightarrow> 'w \<Rightarrow> runner_config \<Rightarrow> path \<Rightarrow> bool" where
  "cwd_allowed h w config canonical \<longleftrightarrow>
     (\<exists>root \<in> set (allowed_roots config).
        case h_canonicalize h w root of
          Inl _ \<Rightarrow> False
        | Inr root' \<Rightarrow> path_starts_with canonical root')"

definition validate_cwd ::
    "'w host \<Rightarrow> 'w \<Rightarrow> runner_config \<Rightarrow> string \<Rightarrow> (runner_error, path) result" where
  "validate_cwd h w config cwd =
     (if \<not> starts_with cwd ''/'' then Inl (bad_request ''cwd must be absolute'')
      else case h_canonicalize h w cwd of
        Inl err \<Rightarrow> Inl (bad_request (''invalid cwd: '' @ err))
      | Inr canonical \<Rightarrow>
          if cwd_allowed h w config canonical then Inr canonical
          else Inl (forbidden (''cwd is outside allowed roots: '' @ show_path canonical)))"

definition inspect_args :: "string \<Rightarrow> string list" where
  "inspect_args target =
     [''inspect'', ''--format'',
      ''{{ index .Config.Labels '' @ [CHR 0x22] @ OWNER_LABEL @ [CHR 0x22] @ '' }}'', target]"

text \<open>Whether the reply of the inspection says that the runner's label is on the container.\<close>

definition owned_reply :: "process_output \<Rightarrow> bool" where
  "owned_reply out \<longleftrightarrow> out_code out = Some 0 \<and> trim (out_stdout out) = OWNER_VALUE"

definition ensure_target_owned ::
    "'w host \<Rightarrow> 'w \<Rightarrow> string \<Rightarrow> (runner_error, unit) result \<times> 'w \<times> docker_trace" where
  "ensure_target_owned h w target =
     (let call = DockerCall (inspect_args target) None;
          (reply, w') = h_docker h w call in
      (case reply of
         Inl err \<Rightarrow> Inl (internal (''docker inspect failed: '' @ err))
       | Inr out \<Rightarrow>
           if out_code out \<noteq> Some 0
           then Inl (forbidden (''container is not accessible through sulion-runner: '' @ target))
           else if trim (out_stdout out) \<noteq> OWNER_VALUE
           then Inl (forbidden (''container is not owned by sulion: '' @ target))
           else Inr (), w', [(call, reply)]))"

fun ensure_all_owned ::
    "'w host \<Rightarrow> 'w \<Rightarrow> string list \<Rightarrow> (runner_error, unit) result \<times> 'w \<times> docker_trace" where
  "ensure_all_owned h w [] = (Inr (), w, [])"
| "ensure_all_owned h w (target # targets) =
     (case ensure_target_owned h w target of
        (Inl e, w', calls) \<Rightarrow> (Inl e, w', calls)
      | (Inr _, w', calls) \<Rightarrow>
          (case ensure_all_owned h w' targets of
             (r, w'', calls') \<Rightarrow> (r, w'', calls @ calls')))"

definition ensure_owned_targets ::
    "'w host \<Rightarrow> 'w \<Rightarrow> docker_subcommand \<Rightarrow> string list \<Rightarrow>
       (runner_error, unit) result \<times> 'w \<times> docker_trace" where
  "ensure_owned_targets h w subcommand args =
     (if subcommand \<notin> {Logs, Stop, Rm, Inspect} then (Inr (), w, [])
      else if container_targets args = []
      then (Inl (bad_request ''container command requires at least one target''), w, [])
      else ensure_all_owned h w (container_targets args))"

definition write_compose_network_override ::
    "'w host \<Rightarrow> 'w \<Rightarrow> (runner_error, unit) result \<times> 'w" where
  "write_compose_network_override h w =
     (case h_write_file h w COMPOSE_NETWORK_OVERRIDE_PATH COMPOSE_NETWORK_OVERRIDE of
        (Inl err, w') \<Rightarrow>
          (Inl (internal (''failed to prepare docker compose network override: '' @ err)), w')
      | (Inr _, w') \<Rightarrow> (Inr (), w'))"

definition run_prepared ::
    "'w host \<Rightarrow> 'w \<Rightarrow> path \<Rightarrow> string list \<Rightarrow>
       (runner_error, docker_response) result \<times> 'w \<times> docker_trace" where
  "run_prepared h w cwd args =
     (let call = DockerCall args (Some cwd);
          (reply, w') = h_docker h w call in
      (case reply of
         Inl err \<Rightarrow> Inl (internal (''docker command failed: '' @ err))
       | Inr out \<Rightarrow>
           Inr \<lparr>exit_code = unwrap_or 1 (out_code out), resp_stdout = out_stdout out,
             resp_stderr = out_stderr out\<rparr>, w', [(call, reply)]))"

definition execute ::
    "'w host \<Rightarrow> runner_config \<Rightarrow> docker_request \<Rightarrow> 'w \<Rightarrow>
       (runner_error, docker_response) result \<times> 'w \<times> docker_trace" where
  "execute h config request w =
     (case validate_cwd h w config (req_cwd request) of
        Inl e \<Rightarrow> (Inl e, w, [])
      | Inr cwd \<Rightarrow>
     (case prepare_docker_args request config (h_is_file h w cwd) of
        Inl e \<Rightarrow> (Inl e, w, [])
      | Inr prepared \<Rightarrow>
     (case (if p_subcommand prepared = Compose then write_compose_network_override h w
            else (Inr (), w)) of
        (Inl e, w1) \<Rightarrow> (Inl e, w1, [])
      | (Inr _, w1) \<Rightarrow>
     (case ensure_owned_targets h w1 (p_subcommand prepared) (p_args prepared) of
        (Inl e, w2, calls) \<Rightarrow> (Inl e, w2, calls)
      | (Inr _, w2, calls) \<Rightarrow>
     (case run_prepared h w2 cwd (p_args prepared) of
        (r, w3, calls') \<Rightarrow> (r, w3, calls @ calls'))))))"

text \<open>The client's exit code when the runner answers with an error, or does not answer.\<close>

datatype client_reply = Replied docker_response | Rejected | Unreachable

fun client_exit_code :: "client_reply \<Rightarrow> int" where
  "client_exit_code (Replied r) = exit_code r"
| "client_exit_code Rejected = 64"
| "client_exit_code Unreachable = 69"

section \<open>What the policy guarantees\<close>

lemma flag_verdict_None:
  "flag_verdict policy a = None \<longleftrightarrow>
    (policy = PolicyRun \<longrightarrow> a \<notin> set interactive_flags)
    \<and> (\<forall>f \<in> set (denied_flags policy). \<not> flag_matches a f) \<and> a \<notin> set host_namespace_flags"
  using find_None_iff [of "flag_matches a" "denied_flags policy"]
  by (cases "find (flag_matches a) (denied_flags policy)") (auto simp: flag_verdict_def)

lemma deny_dangerous_flags_ok:
  "deny_dangerous_flags policy args = Inr () \<longleftrightarrow>
    (\<forall>a \<in> set args. (policy = PolicyRun \<longrightarrow> a \<notin> set interactive_flags)
       \<and> (\<forall>f \<in> set (denied_flags policy). \<not> flag_matches a f) \<and> a \<notin> set host_namespace_flags)"
  by (simp add: flag_scan.scan_ok_iff flag_verdict_None)

lemma res_unit_cases: "(r :: ('e, unit) result) \<noteq> Inr () \<Longrightarrow> \<exists>e. r = Inl e"
  by (cases r) auto

lemma prepare_build_eq:
  "prepare_build_args request = Inr p \<longleftrightarrow>
     deny_dangerous_flags PolicyBuild (drop 1 (req_argv request)) = Inr ()
     \<and> p = \<lparr>p_subcommand = Build,
             p_args = ''build'' # owner_labels request @ drop 1 (req_argv request)\<rparr>"
  by (auto simp: prepare_build_args_def res_bind_eq_Inr)

lemma prepare_run_eq:
  "prepare_run_args request config = Inr p \<longleftrightarrow>
     deny_dangerous_flags PolicyRun (drop 1 (req_argv request)) = Inr ()
     \<and> p = \<lparr>p_subcommand = Run,
             p_args = ''run'' # run_defaults request config @ drop 1 (req_argv request)\<rparr>"
  by (auto simp: prepare_run_args_def res_bind_eq_Inr)

lemma prepare_logs_eq:
  "prepare_logs_args request = Inr p \<longleftrightarrow>
     deny_log_streaming_flags (drop 1 (req_argv request)) = Inr () \<and> p = simple_args request Logs"
  by (auto simp: prepare_logs_args_def res_bind_eq_Inr)

lemma prepare_compose_subcommand:
  "prepare_compose_args request is_file = Inr p \<Longrightarrow> p_subcommand p = Compose"
  by (auto simp: prepare_compose_args_def Let_def res_bind_eq_Inr split: if_splits)

text \<open>Which subcommand an accepted request was prepared as says which command it was.\<close>

lemma prepare_docker_cases:
  assumes "prepare_docker_args request config is_file = Inr p"
  obtains
    (asks_help) "p = simple_args request Help" and "\<exists>a \<in> set (req_argv request). a = ''--help'' \<or> a = ''-h''"
  | (version) "p = simple_args request Version"
  | (build) "hd (req_argv request) = ''build''" and "prepare_build_args request = Inr p"
  | (run) "hd (req_argv request) = ''run''" and "prepare_run_args request config = Inr p"
  | (ps) "hd (req_argv request) = ''ps''" and "p = prepare_ps_args request"
  | (logs) "hd (req_argv request) = ''logs''" and "prepare_logs_args request = Inr p"
  | (compose) "hd (req_argv request) = ''compose''" and "prepare_compose_args request is_file = Inr p"
  | (plain) sub where "p = simple_args request sub" and "sub \<in> {Images, Pull, Stop, Rm, Inspect}"
  using assms
  by (auto simp: prepare_docker_args_def split: list.splits if_splits)

lemma prepared_run:
  assumes "prepare_docker_args request config is_file = Inr p" and "p_subcommand p = Run"
  shows "hd (req_argv request) = ''run'' \<and> prepare_run_args request config = Inr p"
  using assms(1)
  by (cases rule: prepare_docker_cases)
     (use assms(2) in \<open>auto simp: simple_args_def prepare_build_eq prepare_ps_args_def prepare_logs_eq
        dest: prepare_compose_subcommand\<close>)

lemma prepared_compose:
  assumes "prepare_docker_args request config is_file = Inr p" and "p_subcommand p = Compose"
  shows "prepare_compose_args request is_file = Inr p"
  using assms(1)
  by (cases rule: prepare_docker_cases)
     (use assms(2) in \<open>auto simp: simple_args_def prepare_build_eq prepare_run_eq prepare_ps_args_def
        prepare_logs_eq\<close>)

lemma flag_not_matched:
  "\<not> flag_matches a f \<Longrightarrow>
    a \<noteq> f \<and> \<not> starts_with a (f @ ''='') \<and> (length f = 2 \<longrightarrow> \<not> starts_with a f)"
  by (auto simp: flag_matches_def starts_with_iff)

text \<open>
  The flags that must not reach \<open>docker run\<close>: written out, as the policy is meant, apart from
  the list the code goes through.
\<close>

definition forbidden_run_flags :: "string set" where
  "forbidden_run_flags =
     {''--label'', ''--network'', ''--net'', ''--memory'', ''-m'', ''--memory-reservation'', ''--memory-swap'',
      ''--cpus'', ''--cpu-period'', ''--cpu-quota'', ''--cpu-shares'', ''--cpuset-cpus'', ''--pids-limit'',
      ''--privileged'', ''--cap-add'', ''--security-opt'', ''--device'', ''--group-add'',
      ''--volume'', ''-v'', ''--volumes-from'', ''--mount'', ''--tmpfs'', ''--storage-opt'',
      ''--pid'', ''--ipc'', ''--uts'', ''--userns'', ''--cgroupns'',
      ''--add-host'', ''--restart'', ''--oom-kill-disable''}"

definition refused_run_arg :: "string \<Rightarrow> bool" where
  "refused_run_arg a \<longleftrightarrow> a \<in> {''-i'', ''-t'', ''-it'', ''-ti'', ''--interactive'', ''--tty''}
     \<or> (\<exists>f \<in> forbidden_run_flags. a = f \<or> starts_with a (f @ ''='') \<or> length f = 2 \<and> starts_with a f)"

definition asks_help :: "docker_request \<Rightarrow> bool" where
  "asks_help request \<longleftrightarrow> ''--help'' \<in> set (req_argv request) \<or> ''-h'' \<in> set (req_argv request)"

lemma run_flags: "set (denied_flags PolicyRun) = forbidden_run_flags"
  by (auto simp: denied_flags_def forbidden_run_flags_def)

lemma refused_run_arg_iff: "refused_run_arg a \<longleftrightarrow> flag_verdict PolicyRun a \<noteq> None"
proof -
  have "\<exists>f \<in> forbidden_run_flags. starts_with a (f @ ''='')" if "a \<in> set host_namespace_flags"
    using that by (auto simp: host_namespace_flags_def forbidden_run_flags_def starts_with_def)
  moreover have "flag_matches a f \<longleftrightarrow> a = f \<or> starts_with a (f @ ''='') \<or> length f = 2 \<and> starts_with a f" for f
    by (auto simp: flag_matches_def starts_with_iff)
  ultimately show ?thesis
    by (auto simp: refused_run_arg_def flag_verdict_None run_flags interactive_flags_def)
qed

lemma prepare_help:
  "asks_help request \<Longrightarrow> prepare_docker_args request config is_file = Inr (simple_args request Help)"
proof -
  assume "asks_help request"
  then have ex: "\<exists>arg \<in> set (req_argv request). arg = ''--help'' \<or> arg = ''-h''" by (auto simp only: asks_help_def)
  then obtain c cs where a: "req_argv request = c # cs" by (cases "req_argv request") auto
  show ?thesis using ex unfolding prepare_docker_args_def a list.case by (simp only: if_True)
qed

text \<open>
  C1. A \<open>docker run\<close> without \<open>-h\<close> or \<open>--help\<close> among its arguments is refused exactly when one of them
  is an interactive flag or a forbidden flag, alone, with \<open>=value\<close> or as a short flag with its value
  attached; otherwise it is run with the owner labels, Sulion's network and the configured limits in
  front of exactly the user's arguments. One with \<open>-h\<close> or \<open>--help\<close> anywhere is taken for a request for
  help and run as it is. (Clusters of short flags such as \<open>-dv\<close> are none of the three spellings.)
\<close>

theorem run_policy_enforced:
  assumes "req_argv request = ''run'' # args"
  shows "case prepare_docker_args request config is_file of
      Inl e \<Rightarrow> \<not> asks_help request \<and> list_ex refused_run_arg args
    | Inr p \<Rightarrow>
        if asks_help request then p = \<lparr>p_subcommand = Help, p_args = ''run'' # args\<rparr>
        else \<not> list_ex refused_run_arg args \<and> p_subcommand p = Run
          \<and> p_args p = [''run'', ''--label'', ''sulion.owner=sulion'',
                ''--label'', ''sulion.pty_id='' @ unwrap_or ''unknown'' (req_pty_id request), ''--network'', ''sulion'']
              @ (case default_memory config of None \<Rightarrow> [] | Some m \<Rightarrow> [''--memory'', m])
              @ (case default_cpus config of None \<Rightarrow> [] | Some c \<Rightarrow> [''--cpus'', c])
              @ (case default_pids_limit config of None \<Rightarrow> [] | Some n \<Rightarrow> [''--pids-limit'', n])
              @ args"
proof (cases "asks_help request")
  case True
  then show ?thesis using assms by (simp add: prepare_help simple_args_def)
next
  case False
  then have p: "prepare_docker_args request config is_file = prepare_run_args request config"
    using assms by (auto simp: prepare_docker_args_def asks_help_def)
  show ?thesis
  proof (cases "deny_dangerous_flags PolicyRun args")
    case (Inl e)
    then have "list_ex refused_run_arg args"
      using flag_scan.scan_ok_iff [of PolicyRun args] by (auto simp: list_ex_iff refused_run_arg_iff)
    then show ?thesis using Inl False assms by (simp add: p prepare_run_args_def)
  next
    case (Inr x)
    then have "\<not> list_ex refused_run_arg args"
      using flag_scan.scan_ok_iff [of PolicyRun args] by (auto simp: list_ex_iff refused_run_arg_iff)
    then show ?thesis using Inr False assms
      by (simp add: p prepare_run_args_def run_defaults_def owner_labels_def pty_label_value_def flag_with_value_def runner_consts)
  qed
qed

text \<open>Requests the witnesses use.\<close>

definition example_config :: runner_config where
  "example_config = \<lparr>allowed_roots = [''/repos''], default_memory = Some ''2g'',
     default_cpus = Some ''2'', default_pids_limit = None\<rparr>"

definition example_request :: "string list \<Rightarrow> docker_request" where
  "example_request argv = \<lparr>req_pty_id = Some ''p1'', req_cwd = ''/repos/a'', req_argv = argv\<rparr>"

lemmas example_defs = example_config_def example_request_def

lemma example_run:
  "prepare_docker_args (example_request [''run'', ''--rm'', ''alpine'']) example_config (\<lambda>_. False)
     = Inr \<lparr>p_subcommand = Run, p_args = [''run'', ''--label'', ''sulion.owner=sulion'', ''--label'',
         ''sulion.pty_id=p1'', ''--network'', ''sulion'', ''--memory'', ''2g'', ''--cpus'', ''2'',
         ''--rm'', ''alpine'']\<rparr>"
  by (simp add: example_defs prepare_docker_args_def prepare_run_args_def run_defaults_def
      owner_labels_def runner_consts pty_label_value_def flag_with_value_def flag_verdict_def
      interactive_flags_def denied_flags_def flag_matches_def starts_with_def
      host_namespace_flags_def)

theorem run_policy_enforced_witness:
  "prepare_docker_args (example_request [''run'', ''--rm'', ''alpine'']) example_config (\<lambda>_. False)
     = Inr \<lparr>p_subcommand = Run, p_args = [''run'', ''--label'', ''sulion.owner=sulion'', ''--label'',
         ''sulion.pty_id=p1'', ''--network'', ''sulion'', ''--memory'', ''2g'', ''--cpus'', ''2'',
         ''--rm'', ''alpine'']\<rparr>
   \<and> \<not> refused_run_arg ''--rm''"
proof -
  let ?r = "example_request [''run'', ''--rm'', ''alpine'']"
  have a: "req_argv ?r = ''run'' # [''--rm'', ''alpine'']" by (simp add: example_request_def)
  then have "\<not> asks_help ?r" by (simp add: asks_help_def)
  then show ?thesis using run_policy_enforced [OF a, of example_config "\<lambda>_. False"] example_run by simp
qed

end
