(* ===== verification/Runner_Safety.thy ===== *)
theory Runner_Safety
  imports Runner
begin

text \<open>
  What one execution of the container runner can make the Docker CLI do: only inside an
  allowed directory, only on containers the inspection found owned, Compose always with
  the network override last; and the two ways in which the flag policy is narrower than
  it reads, a help flag anywhere and a cluster of short flags.
\<close>

section \<open>Executions\<close>

lemma ensure_target_owned_cases:
  "ensure_target_owned h w t = (r, w', tr) \<Longrightarrow>
    \<exists>reply. tr = [(DockerCall (inspect_args t) None, reply)]
      \<and> (r = Inr () \<longrightarrow> (\<exists>out. reply = Inr out \<and> owned_reply out))"
  by (auto simp: ensure_target_owned_def owned_reply_def Let_def
      split: prod.splits sum.splits if_splits)

lemma ensure_all_owned_ok:
  "ensure_all_owned h w ts = (Inr (), w', tr) \<Longrightarrow>
    map fst tr = map (\<lambda>t. DockerCall (inspect_args t) None) ts
    \<and> (\<forall>rp \<in> snd ` set tr. \<exists>out. rp = Inr out \<and> owned_reply out)"
  by (induction ts arbitrary: w w' tr)
     (fastforce split: prod.splits sum.splits dest: ensure_target_owned_cases)+

lemma ensure_all_owned_calls:
  "ensure_all_owned h w ts = (r, w', tr) \<Longrightarrow> \<forall>c \<in> fst ` set tr. call_cwd c = None"
  by (induction ts arbitrary: w r w' tr)
     (fastforce split: prod.splits sum.splits dest: ensure_target_owned_cases)+

lemma ensure_owned_targets_calls:
  "ensure_owned_targets h w sub args = (r, w', tr) \<Longrightarrow> \<forall>c \<in> fst ` set tr. call_cwd c = None"
  by (auto simp: ensure_owned_targets_def split: if_splits dest: ensure_all_owned_calls)

lemma ensure_all_owned_inspects:
  "ensure_all_owned h w ts = (r, w', tr) \<Longrightarrow> \<forall>c \<in> fst ` set tr. \<exists>t. c = DockerCall (inspect_args t) None"
  by (induction ts arbitrary: w r w' tr)
     (fastforce split: prod.splits sum.splits dest: ensure_target_owned_cases)+

lemma ensure_owned_targets_inspects:
  "ensure_owned_targets h w sub args = (r, w', tr) \<Longrightarrow> \<forall>c \<in> fst ` set tr. \<exists>t. c = DockerCall (inspect_args t) None"
  by (auto simp: ensure_owned_targets_def split: if_splits dest: ensure_all_owned_inspects)

lemma run_prepared_trace:
  "run_prepared h w cwd args = (r, w', tr) \<Longrightarrow> \<exists>reply. tr = [(DockerCall args (Some cwd), reply)]"
  by (auto simp: run_prepared_def Let_def split: prod.splits)

text \<open>
  The shape of a run that reached the Docker CLI in a working directory: the directory was
  validated, the arguments are the prepared ones, the inspections before it succeeded.
\<close>

lemma execute_docker_call:
  assumes "execute h config request w = (r, w', tr)"
    and "(DockerCall args (Some cwd), reply) \<in> set tr"
  obtains p w1 w2 ins where
    "validate_cwd h w config (req_cwd request) = Inr cwd"
    and "prepare_docker_args request config (h_is_file h w cwd) = Inr p"
    and "args = p_args p"
    and "ensure_owned_targets h w1 (p_subcommand p) (p_args p) = (Inr (), w2, ins)"
    and "tr = ins @ [(DockerCall args (Some cwd), reply)]"
proof -
  from assms(1) obtain dir where dir: "validate_cwd h w config (req_cwd request) = Inr dir"
    using assms(2) by (auto simp: execute_def split: sum.splits)
  from assms(1) dir obtain p where p: "prepare_docker_args request config (h_is_file h w dir) = Inr p"
    using assms(2) by (auto simp: execute_def split: sum.splits)
  from assms(1) dir p obtain w1 ow w2 ins where
    own: "ensure_owned_targets h w1 (p_subcommand p) (p_args p) = (ow, w2, ins)"
    and rest: "(r, w', tr) = (case ow of Inl e \<Rightarrow> (Inl e, w2, ins) | Inr _ \<Rightarrow>
       (case run_prepared h w2 dir (p_args p) of (r, w3, calls') \<Rightarrow> (r, w3, ins @ calls')))"
    using assms(2) that
    by (fastforce simp: execute_def split: prod.splits sum.splits)
  have none: "\<forall>c \<in> fst ` set ins. call_cwd c = None"
    using own by (rule ensure_owned_targets_calls)
  then have not_ins: "(DockerCall args (Some cwd), reply) \<notin> set ins" by force
  from rest assms(2) not_ins have ow: "ow = Inr ()" by (cases ow) auto
  obtain rr w3 trr where run: "run_prepared h w2 dir (p_args p) = (rr, w3, trr)"
    by (cases "run_prepared h w2 dir (p_args p)") auto
  from run_prepared_trace [OF run] obtain rp where "trr = [(DockerCall (p_args p) (Some dir), rp)]"
    by blast
  with rest ow run assms(2) not_ins have "args = p_args p" "cwd = dir"
    "tr = ins @ [(DockerCall args (Some cwd), reply)]" by auto
  with dir p own ow show thesis using that by blast
qed

section \<open>The working directory\<close>

lemma execute_trace:
  assumes "execute h config request w = (r, w', tr)"
  obtains ins run where "tr = ins @ run" and "\<forall>c \<in> fst ` set ins. \<exists>t. c = DockerCall (inspect_args t) None"
    and "length run \<le> 1" and "\<forall>resp. r = Inr resp \<longrightarrow> run \<noteq> []"
    and "\<forall>c \<in> fst ` set run. \<exists>cwd. call_cwd c = Some cwd \<and> validate_cwd h w config (req_cwd request) = Inr cwd"
proof (cases "validate_cwd h w config (req_cwd request)")
  case (Inl e)
  then show thesis using assms that [of "[]" "[]"] by (auto simp: execute_def)
next
  case (Inr dir)
  show thesis
  proof (cases "prepare_docker_args request config (h_is_file h w dir)")
    case (Inl e)
    then show thesis using assms Inr that [of "[]" "[]"] by (auto simp: execute_def)
  next
    case p: (Inr p)
    obtain o1 w1 where o1: "(if p_subcommand p = Compose then write_compose_network_override h w else (Inr (), w)) = (o1, w1)"
      by force
    show thesis
    proof (cases o1)
      case (Inl e)
      then show thesis using assms Inr p o1 that [of "[]" "[]"] by (auto simp: execute_def)
    next
      case ok: (Inr u)
      obtain ow w2 ins where own: "ensure_owned_targets h w1 (p_subcommand p) (p_args p) = (ow, w2, ins)"
        by (cases "ensure_owned_targets h w1 (p_subcommand p) (p_args p)") auto
      note ins = ensure_owned_targets_inspects [OF own]
      show thesis
      proof (cases ow)
        case (Inl e)
        then have "tr = ins" "r = Inl e" using assms Inr p o1 ok own by (simp_all add: execute_def)
        then show thesis using ins that [of ins "[]"] by auto
      next
        case owned: (Inr v)
        obtain rr w3 trr where run: "run_prepared h w2 dir (p_args p) = (rr, w3, trr)"
          by (cases "run_prepared h w2 dir (p_args p)") auto
        then have "tr = ins @ trr" using assms Inr p o1 ok own owned by (simp add: execute_def)
        moreover obtain rp where "trr = [(DockerCall (p_args p) (Some dir), rp)]" using run_prepared_trace [OF run] by blast
        ultimately show thesis using ins Inr that [of ins trr] by auto
      qed
    qed
  qed
qed

text \<open>
  C28. Whatever the request, the Docker commands of its execution are inspections for the owner
  label, which run in no directory of the user's, and then at most one command, which is there
  when a response is given. That one runs in the canonical form of the directory the request
  named, and the directory is, component by component, inside the canonical form of one of the
  configured roots.
\<close>

theorem execute_inside_allowed_roots:
  assumes "execute h config request w = (r, w', tr)"
  shows "\<exists>ins run. tr = ins @ run
    \<and> (\<forall>c \<in> fst ` set ins. \<exists>t. c = DockerCall
         [''inspect'', ''--format'', ''{{ index .Config.Labels '' @ [CHR 0x22] @ ''sulion.owner'' @ [CHR 0x22] @ '' }}'', t] None)
    \<and> length run \<le> 1 \<and> (\<forall>resp. r = Inr resp \<longrightarrow> run \<noteq> [])
    \<and> (\<forall>c \<in> fst ` set run. \<exists>cwd. call_cwd c = Some cwd \<and> h_canonicalize h w (req_cwd request) = Inr cwd
         \<and> (\<exists>root \<in> set (allowed_roots config). \<exists>base rest.
              h_canonicalize h w root = Inr base \<and> cwd = base @ rest))"
proof -
  have inside: "h_canonicalize h w (req_cwd request) = Inr cwd
      \<and> (\<exists>root \<in> set (allowed_roots config). \<exists>base rest. h_canonicalize h w root = Inr base \<and> cwd = base @ rest)"
    if v: "validate_cwd h w config (req_cwd request) = Inr cwd" for cwd
  proof -
    from v have c: "h_canonicalize h w (req_cwd request) = Inr cwd" and a: "cwd_allowed h w config cwd"
      by (auto simp: validate_cwd_def split: if_splits sum.splits)
    from a obtain root base where "root \<in> set (allowed_roots config)"
      "h_canonicalize h w root = Inr base" "path_starts_with cwd base"
      by (auto simp: cwd_allowed_def case_res_False)
    then show ?thesis using c by (metis path_starts_with_def append_take_drop_id)
  qed
  obtain ins run where tr: "tr = ins @ run" "\<forall>c \<in> fst ` set ins. \<exists>t. c = DockerCall (inspect_args t) None"
      "length run \<le> 1" "\<forall>resp. r = Inr resp \<longrightarrow> run \<noteq> []"
      "\<forall>c \<in> fst ` set run. \<exists>cwd. call_cwd c = Some cwd \<and> validate_cwd h w config (req_cwd request) = Inr cwd"
    by (rule execute_trace [OF assms])
  show ?thesis
    by (rule exI [of _ ins], rule exI [of _ run])
      (use tr inside in \<open>auto simp: inspect_args_def OWNER_LABEL_def\<close>)
qed

text \<open>A host whose containers are all owned: \<open>/\<close> separates the components of a path.\<close>

definition example_host :: "unit host" where
  "example_host = \<lparr>
     h_canonicalize = (\<lambda>w p. Inr (filter (\<lambda>c. c \<noteq> []) (split_char (CHR ''/'') p))),
     h_is_file = (\<lambda>w p n. n = ''compose.yml''),
     h_write_file = (\<lambda>w p s. (Inr (), w)),
     h_docker = (\<lambda>w c. (Inr \<lparr>out_code = Some 0, out_stdout = ''sulion'' @ [CHR 0x0A],
                              out_stderr = []\<rparr>, w))\<rparr>"

abbreviation example_reply :: "(string, process_output) result" where
  "example_reply \<equiv> Inr \<lparr>out_code = Some 0, out_stdout = ''sulion'' @ [CHR 0x0A], out_stderr = []\<rparr>"

lemma example_owned: "trim (''sulion'' @ [CHR 0x0A]) = OWNER_VALUE"
  by (simp add: trim_def trim_start.simps trim_end.simps ws_len_end_def ascii_ws_def OWNER_VALUE_def)

lemma example_validate:
  "validate_cwd example_host () example_config ''/repos/a'' = Inr [''repos'', ''a'']"
  by (simp add: validate_cwd_def cwd_allowed_def path_starts_with_def example_host_def
      example_config_def starts_with_def)

lemma example_stop:
  "execute example_host example_config (example_request [''stop'', ''c1'']) () =
     (Inr \<lparr>exit_code = 0, resp_stdout = ''sulion'' @ [CHR 0x0A], resp_stderr = []\<rparr>, (),
      [(DockerCall (inspect_args ''c1'') None, example_reply),
       (DockerCall [''stop'', ''c1''] (Some [''repos'', ''a'']), example_reply)])"
proof -
  let ?r = "example_request [''stop'', ''c1'']"
  have p: "prepare_docker_args ?r example_config f = Inr (simple_args ?r Stop)" for f
    by (simp add: prepare_docker_args_def example_request_def)
  have own: "ensure_target_owned example_host () ''c1'' =
      (Inr (), (), [(DockerCall (inspect_args ''c1'') None, example_reply)])"
    using example_owned by (simp add: ensure_target_owned_def example_host_def)
  have t: "container_targets [''stop'', ''c1''] = [''c1'']"
    by (simp add: container_targets_def starts_with_def)
  have c: "req_cwd ?r = ''/repos/a''" and a: "req_argv ?r = [''stop'', ''c1'']"
    by (simp_all add: example_request_def)
  have run: "run_prepared example_host () [''repos'', ''a''] [''stop'', ''c1''] =
      (Inr \<lparr>exit_code = 0, resp_stdout = ''sulion'' @ [CHR 0x0A], resp_stderr = []\<rparr>, (),
       [(DockerCall [''stop'', ''c1''] (Some [''repos'', ''a'']), example_reply)])"
    by (simp add: run_prepared_def example_host_def)
  show ?thesis
    unfolding execute_def c example_validate
    by (simp add: p simple_args_def a ensure_owned_targets_def t own run del: append.simps)
qed

lemma last_of_two: "[a, b] = ins @ run \<Longrightarrow> length run \<le> 1 \<Longrightarrow> run \<noteq> [] \<Longrightarrow> run = [b]"
  by (cases run) (auto simp: Cons_eq_append_conv)

theorem execute_inside_allowed_roots_witness:
  "\<exists>call reply. snd (snd (execute example_host example_config (example_request [''stop'', ''c1'']) ()))
      = [(DockerCall (inspect_args ''c1'') None, example_reply), (call, reply)]
    \<and> (\<exists>base rest. h_canonicalize example_host () ''/repos'' = Inr base \<and> call_cwd call = Some (base @ rest))"
proof -
  let ?c = "(DockerCall [''stop'', ''c1''] (Some [''repos'', ''a'']), example_reply)"
  from execute_inside_allowed_roots [OF example_stop] show ?thesis
  proof (elim exE conjE)
    fix ins run assume tr: "[(DockerCall (inspect_args ''c1'') None, example_reply), ?c] = ins @ run" "length run \<le> 1"
      and some: "\<forall>resp. Inr \<lparr>exit_code = 0, resp_stdout = ''sulion'' @ [CHR 0x0A], resp_stderr = []\<rparr> = Inr resp \<longrightarrow> run \<noteq> []"
      and dirs: "\<forall>c \<in> fst ` set run. \<exists>cwd. call_cwd c = Some cwd
        \<and> h_canonicalize example_host () (req_cwd (example_request [''stop'', ''c1''])) = Inr cwd
        \<and> (\<exists>root \<in> set (allowed_roots example_config). \<exists>base rest.
             h_canonicalize example_host () root = Inr base \<and> cwd = base @ rest)"
    from some have "run \<noteq> []" by blast
    with tr have run: "run = [?c]" by (rule last_of_two)
    have roots: "allowed_roots example_config = [''/repos'']" by (simp add: example_config_def)
    have "\<exists>base rest. h_canonicalize example_host () ''/repos'' = Inr base
        \<and> call_cwd (fst ?c) = Some (base @ rest)"
      using dirs unfolding run roots by fastforce
    then show ?thesis unfolding example_stop snd_conv fst_conv by blast
  qed
qed

section \<open>Ownership\<close>

text \<open>
  The loop inspects every argument after the subcommand that is not a flag and does not follow a
  flag that takes a value.
\<close>

lemma targets_from_positional:
  "i < length args \<Longrightarrow> \<not> starts_with (args ! i) ''-'' \<Longrightarrow> (i > 0 \<Longrightarrow> \<not> flag_takes_value (args ! (i - 1))) \<Longrightarrow>
     args ! i \<in> set (targets_from args)"
proof (induction args arbitrary: i rule: targets_from.induct)
  case (2 arg args)
  show ?case
  proof (cases i)
    case 0
    then have "\<not> starts_with arg ''-''" using "2.prems"(2) by simp
    moreover from this have "\<not> starts_with arg ''--''" by (cases arg) (auto simp: starts_with_def)
    ultimately show ?thesis using 0 by (auto simp: starts_with_def)
  next
    case (Suc j)
    have j: "j < length args" "\<not> starts_with (args ! j) ''-''" using "2.prems" Suc by auto
    have pred: "j > 0 \<Longrightarrow> \<not> flag_takes_value (args ! (j - 1))" using "2.prems"(3) Suc by (cases j) auto
    have arg: "\<not> flag_takes_value arg" if "j = 0" using "2.prems"(3) Suc that by simp
    consider (all) "arg = ''--''" | (skip) "arg \<noteq> ''--''" "starts_with arg ''--''" "flag_takes_value arg \<and> CHR ''='' \<notin> set arg"
      | (flag) "arg \<noteq> ''--''" "starts_with arg ''--''" "\<not> (flag_takes_value arg \<and> CHR ''='' \<notin> set arg)"
      | (short) "arg \<noteq> ''--''" "\<not> starts_with arg ''--''" "starts_with arg ''-''"
      | (target) "arg \<noteq> ''--''" "\<not> starts_with arg ''--''" "\<not> starts_with arg ''-''" by blast
    then show ?thesis
    proof cases
      case skip
      with arg obtain k where k: "j = Suc k" by (cases j) auto
      have "drop 1 args ! k \<in> set (targets_from (drop 1 args))"
        by (rule "2.IH"(1) [OF skip(1,2,3)]) (use j pred k in \<open>auto simp: nth_Cons' nth_drop\<close>)
      then show ?thesis using skip Suc k j by simp
    qed (use "2.IH" j pred Suc in auto)
  qed
qed simp

lemma prepare_inspected:
  assumes "prepare_docker_args request config is_file = Inr p" and "\<not> asks_help request"
    and "hd (req_argv request) \<in> {''logs'', ''stop'', ''rm'', ''inspect''}"
  shows "p_args p = req_argv request \<and> p_subcommand p \<in> {Logs, Stop, Rm, Inspect}"
proof -
  from assms(1) obtain c cs where a: "req_argv request = c # cs" by (cases "req_argv request") (auto simp: prepare_docker_args_def)
  have nh: "\<not> (\<exists>arg \<in> set (req_argv request). arg = ''--help'' \<or> arg = ''-h'')"
    using assms(2) by (auto simp only: asks_help_def)
  have c: "c = ''logs'' \<or> c = ''stop'' \<or> c = ''rm'' \<or> c = ''inspect''" using assms(3) a by simp
  from assms(1) have "(if c = ''logs'' then prepare_logs_args request
      else Inr (simple_args request (if c = ''stop'' then Stop else if c = ''rm'' then Rm else Inspect))) = Inr p"
    unfolding prepare_docker_args_def a list.case if_not_P [OF nh [unfolded a]] using c by (elim disjE) simp_all
  then show ?thesis by (auto simp: simple_args_def prepare_logs_eq split: if_splits)
qed

text \<open>
  C9. A request \<open>logs\<close>, \<open>stop\<close>, \<open>rm\<close> or \<open>inspect\<close> without \<open>-h\<close> or \<open>--help\<close> is run only after one
  inspection of every container target of its arguments, in order, each of which reported success and
  the owner label \<open>sulion\<close>. The targets are at least every argument after the subcommand that is no flag
  and does not follow a flag with a value, and there is one. With \<open>-h\<close> or \<open>--help\<close> anywhere it is a
  request for help, run at once without inspection.
\<close>

theorem execute_owned_targets_only:
  assumes "execute h config request w = (r, w', tr)"
    and "(DockerCall args (Some cwd), reply) \<in> set tr"
    and "hd (req_argv request) \<in> {''logs'', ''stop'', ''rm'', ''inspect''}"
  shows "args = req_argv request
    \<and> (if asks_help request then tr = [(DockerCall args (Some cwd), reply)]
       else \<exists>ins targets. tr = ins @ [(DockerCall args (Some cwd), reply)]
         \<and> map fst ins = map (\<lambda>t. DockerCall
             [''inspect'', ''--format'', ''{{ index .Config.Labels '' @ [CHR 0x22] @ ''sulion.owner'' @ [CHR 0x22] @ '' }}'', t] None) targets
         \<and> (\<forall>rp \<in> snd ` set ins. \<exists>out. rp = Inr out \<and> out_code out = Some 0 \<and> trim (out_stdout out) = ''sulion'')
         \<and> targets \<noteq> []
         \<and> (\<forall>i. 1 \<le> i \<and> i < length args \<and> \<not> starts_with (args ! i) ''-''
               \<and> (i = 1 \<or> args ! (i - 1) \<notin> {''--filter'', ''--format'', ''--since'', ''--tail'', ''--until'', ''--time''})
              \<longrightarrow> args ! i \<in> set targets))"
proof -
  from execute_docker_call [OF assms(1,2)] obtain p w1 w2 ins where
    prep: "prepare_docker_args request config (h_is_file h w cwd) = Inr p"
    and args: "args = p_args p"
    and own: "ensure_owned_targets h w1 (p_subcommand p) (p_args p) = (Inr (), w2, ins)"
    and tr: "tr = ins @ [(DockerCall args (Some cwd), reply)]" by metis
  show ?thesis
  proof (cases "asks_help request")
    case True
    then have "p = simple_args request Help" using prep by (simp add: prepare_help)
    then show ?thesis using True args own tr by (simp add: simple_args_def ensure_owned_targets_def)
  next
    case False
    have p: "p_args p = req_argv request" "p_subcommand p \<in> {Logs, Stop, Rm, Inspect}"
      using prepare_inspected [OF prep False assms(3)] by blast+
    from own p(2) have ne: "container_targets args \<noteq> []"
      and all: "ensure_all_owned h w1 (container_targets args) = (Inr (), w2, ins)"
      by (auto simp: ensure_owned_targets_def args split: if_splits)
    have "args ! i \<in> set (container_targets args)"
      if "1 \<le> i" "i < length args" "\<not> starts_with (args ! i) ''-''"
        "i = 1 \<or> args ! (i - 1) \<notin> {''--filter'', ''--format'', ''--since'', ''--tail'', ''--until'', ''--time''}" for i
    proof -
      obtain x xs j where "args = x # xs" "i = Suc j" using \<open>1 \<le> i\<close> \<open>i < length args\<close> by (cases args; cases i) auto
      then show ?thesis using that targets_from_positional [of j xs]
        by (cases j) (auto simp: container_targets_def flag_takes_value_def)
    qed
    moreover have "map fst ins = map (\<lambda>t. DockerCall
             [''inspect'', ''--format'', ''{{ index .Config.Labels '' @ [CHR 0x22] @ ''sulion.owner'' @ [CHR 0x22] @ '' }}'', t] None)
             (container_targets args)"
      using ensure_all_owned_ok [OF all] by (simp add: inspect_args_def OWNER_LABEL_def)
    moreover have "\<forall>rp \<in> snd ` set ins. \<exists>out. rp = Inr out \<and> out_code out = Some 0 \<and> trim (out_stdout out) = ''sulion''"
      using ensure_all_owned_ok [OF all] by (simp add: owned_reply_def OWNER_VALUE_def)
    ultimately show ?thesis using False ne tr p(1) args by auto
  qed
qed

theorem execute_owned_targets_only_witness:
  "\<exists>ins. snd (snd (execute example_host example_config (example_request [''stop'', ''c1'']) ()))
      = ins @ [(DockerCall [''stop'', ''c1''] (Some [''repos'', ''a'']), example_reply)] \<and> ins \<noteq> []"
proof -
  have h: "hd (req_argv (example_request [''stop'', ''c1''])) \<in> {''logs'', ''stop'', ''rm'', ''inspect''}"
    and nh: "\<not> asks_help (example_request [''stop'', ''c1''])"
    by (simp_all add: example_request_def asks_help_def)
  let ?c = "(DockerCall [''stop'', ''c1''] (Some [''repos'', ''a'']), example_reply)"
  have m: "?c \<in> set [(DockerCall (inspect_args ''c1'') None, example_reply), ?c]" by (simp del: append.simps)
  from execute_owned_targets_only [OF example_stop m h, THEN conjunct2, unfolded if_not_P [OF nh]] show ?thesis
    unfolding example_stop snd_conv by (elim exE conjE) (intro exI conjI, assumption, auto)
qed

section \<open>Compose\<close>

lemma compose_index_from_sound:
  "compose_index_from args i = Inr k \<Longrightarrow>
    i \<le> k \<and> k < length args \<and> \<not> starts_with (args ! k) ''-''"
proof (induction args i rule: compose_index_from.induct)
  case (1 args i)
  from "1.prems" have i: "i < length args"
    by (subst (asm) compose_index_from.simps) (simp split: if_splits)
  consider "args ! i = ''--''" | "args ! i \<noteq> ''--''" "args ! i \<in> set compose_value_flags"
    | "args ! i \<noteq> ''--''" "args ! i \<notin> set compose_value_flags"
      "\<exists>p \<in> set compose_eq_flags. starts_with (args ! i) p"
    | "args ! i \<noteq> ''--''" "args ! i \<notin> set compose_value_flags"
      "\<not> (\<exists>p \<in> set compose_eq_flags. starts_with (args ! i) p)" "starts_with (args ! i) ''-''"
    | "\<not> starts_with (args ! i) ''-''" "k = i"
    using "1.prems" i by (subst (asm) compose_index_from.simps) (auto simp: Let_def split: if_splits)
  then show ?case
    using i "1.prems" "1.IH" by cases (simp_all add: compose_index_from.simps [of args i])
qed

lemma compose_command_index_sound:
  "compose_command_index args = Inr k \<Longrightarrow> k < length args \<and> \<not> starts_with (args ! k) ''-''"
  using compose_index_from_sound [of args 0 k] by (simp add: compose_command_index_def)

lemma default_compose_files_ok:
  "default_compose_files is_file = Inr files \<Longrightarrow> files \<noteq> [] \<and> (\<forall>f \<in> set files. is_file f)"
  by (auto simp: default_compose_files_def split: if_splits)

text \<open>
  An accepted Compose request that is not a version query names one of the supported
  commands, and the runner's command line is \<open>compose\<close>, the files (the user's own, or else
  the default ones found in the directory), the user's global arguments with no
  \<open>--project-directory\<close>, the network override as the last file, and then the user's
  command with everything after it unchanged.
\<close>

theorem compose_override_last:
  assumes "prepare_docker_args request config is_file = Inr p" and "p_subcommand p = Compose"
  shows "p_args p = [''compose'', ''version'']
    \<or> (\<exists>globals command rest files.
         drop 1 (req_argv request) = globals @ command # rest
         \<and> command \<in> set compose_commands \<and> \<not> starts_with command ''-''
         \<and> (\<forall>g \<in> set globals. compose_global_verdict g = None)
         \<and> (if command = ''version'' then p_args p = ''compose'' # globals @ command # rest
            else p_args p = ''compose'' # concat (map (\<lambda>f. [''-f'', f]) files) @ globals
                   @ [''-f'', COMPOSE_NETWORK_OVERRIDE_PATH] @ command # rest
              \<and> (if compose_args_include_files globals then files = []
                 else default_compose_files is_file = Inr files)))"
proof (cases "p_args p = [''compose'', ''version'']")
  case False
  let ?a = "drop 1 (req_argv request)"
  from prepared_compose [OF assms] have prep: "prepare_compose_args request is_file = Inr p" .
  with False obtain k where k: "compose_command_index ?a = Inr k"
    and cmd: "?a ! k \<in> set compose_commands"
    and gl: "deny_compose_global_args (take k ?a) = Inr ()"
    and args: "if ?a ! k = ''version'' then p_args p = ''compose'' # take k ?a @ drop k ?a
      else (\<exists>files. p_args p = ''compose'' # concat (map (\<lambda>f. [''-f'', f]) files) @ take k ?a
                   @ [''-f'', COMPOSE_NETWORK_OVERRIDE_PATH] @ drop k ?a
              \<and> (if compose_args_include_files (take k ?a) then files = []
                 else default_compose_files is_file = Inr files))"
    by (fastforce simp: prepare_compose_args_def Let_def res_bind_eq_Inr validate_compose_command_def
        split: if_splits)
  have b: "k < length ?a" "\<not> starts_with (?a ! k) ''-''"
    using compose_command_index_sound [OF k] by simp_all
  then have d: "drop k ?a = ?a ! k # drop (Suc k) ?a" by (simp only: Cons_nth_drop_Suc)
  have split: "?a = take k ?a @ ?a ! k # drop (Suc k) ?a"
    using b by (metis append_take_drop_id d)
  from gl have g: "\<forall>g \<in> set (take k ?a). compose_global_verdict g = None"
    by (simp only: compose_scan.scan_ok_iff)
  show ?thesis
    using split b cmd g args unfolding d by (metis (no_types, lifting))
qed simp

theorem compose_override_last_witness:
  "p_args \<lparr>p_subcommand = Compose, p_args = [''compose'', ''-f'', ''compose.yml'', ''-f'',
      COMPOSE_NETWORK_OVERRIDE_PATH, ''up'', ''-d'']\<rparr> \<noteq> [''compose'', ''version'']
   \<and> (\<exists>globals command rest.
        [''up'', ''-d''] = globals @ command # rest \<and> command \<in> set compose_commands)"
proof -
  let ?r = "example_request [''compose'', ''up'', ''-d'']"
  let ?p = "\<lparr>p_subcommand = Compose, p_args = [''compose'', ''-f'', ''compose.yml'', ''-f'',
      COMPOSE_NETWORK_OVERRIDE_PATH, ''up'', ''-d'']\<rparr>"
  have idx: "compose_command_index [''up'', ''-d''] = Inr 0"
    by (simp add: compose_command_index_def compose_index_from.simps [of _ 0] compose_value_flags_def
        compose_eq_flags_def starts_with_def)
  have files: "default_compose_files (\<lambda>f. f = ''compose.yml'') = Inr [''compose.yml'']"
    by (simp add: default_compose_files_def)
  have ok: "validate_compose_command ''up'' = Inr ()" "\<not> compose_args_include_files []"
    by (simp_all add: validate_compose_command_def compose_commands_def compose_args_include_files_def)
  have "prepare_compose_args ?r (\<lambda>f. f = ''compose.yml'') = Inr ?p"
    by (simp add: prepare_compose_args_def example_request_def idx files ok)
  then have h: "prepare_docker_args ?r example_config (\<lambda>f. f = ''compose.yml'') = Inr ?p"
    by (simp add: prepare_docker_args_def example_request_def)
  have "drop 1 (req_argv ?r) = [''up'', ''-d'']" by (simp add: example_request_def)
  with compose_override_last [OF h] show ?thesis by auto
qed

section \<open>Where the flag policy ends\<close>

text \<open>
  An argument \<open>--help\<close> or \<open>-h\<close> anywhere, also after the image or as the value of
  another flag, turns the request into a help request: no flag is checked, no label or
  limit is added, no container is inspected, and the user's arguments are run as they are.
\<close>

theorem help_flag_skips_policy:
  assumes "validate_cwd h w config (req_cwd request) = Inr cwd"
    and "''--help'' \<in> set (req_argv request) \<or> ''-h'' \<in> set (req_argv request)"
  shows "execute h config request w = run_prepared h w cwd (req_argv request)"
proof -
  have ex: "\<exists>arg \<in> set (req_argv request). arg = ''--help'' \<or> arg = ''-h''"
    using assms(2) by blast
  then obtain c cs where a: "req_argv request = c # cs" by (cases "req_argv request") auto
  have "prepare_docker_args request config f = Inr (simple_args request Help)" for f
    using ex unfolding prepare_docker_args_def a list.case by (simp only: if_True)
  with assms(1) show ?thesis
    by (simp add: execute_def simple_args_def ensure_owned_targets_def split: prod.split)
qed

theorem help_flag_skips_policy_witness:
  "execute example_host example_config
      (example_request [''run'', ''--privileged'', ''-h'', ''x'', ''alpine'']) () =
    run_prepared example_host () [''repos'', ''a'']
      [''run'', ''--privileged'', ''-h'', ''x'', ''alpine'']"
proof -
  let ?r = "example_request [''run'', ''--privileged'', ''-h'', ''x'', ''alpine'']"
  have c: "req_cwd ?r = ''/repos/a''"
    and a: "req_argv ?r = [''run'', ''--privileged'', ''-h'', ''x'', ''alpine'']"
    by (simp_all add: example_request_def)
  show ?thesis
    using help_flag_skips_policy [of example_host "()" example_config ?r "[''repos'', ''a'']"]
    unfolding c a using example_validate by simp
qed

text \<open>
  A cluster of short flags is judged by its first letter only: one that does not start
  with \<open>m\<close> or \<open>v\<close> and is not exactly \<open>-i\<close>, \<open>-t\<close>, \<open>-it\<close> or \<open>-ti\<close> is accepted, whatever the
  letters after the first are; \<open>-dv\<close> passes where \<open>-v\<close> is refused.
\<close>

theorem short_flag_cluster_accepted:
  assumes "c \<notin> {CHR ''-'', CHR ''m'', CHR ''v''}" and "''-'' @ c # cs \<notin> set interactive_flags"
  shows "flag_verdict PolicyRun (''-'' @ c # cs) = None"
  unfolding flag_verdict_None using assms
  by (simp add: denied_flags_def flag_matches_def starts_with_def host_namespace_flags_def)

theorem short_flag_cluster_accepted_witness:
  "flag_verdict PolicyRun ''-dv'' = None \<and> flag_verdict PolicyRun ''-v'' \<noteq> None"
proof -
  have "flag_verdict PolicyRun ''-v'' \<noteq> None"
    unfolding flag_verdict_None by (simp add: denied_flags_def flag_matches_def)
  then show ?thesis
    using short_flag_cluster_accepted [of "CHR ''d''" "''v''"]
    by (simp add: interactive_flags_def)
qed

end
