(* ===== verification/Broker_Protocol.thy ===== *)
theory Broker_Protocol
  imports Rust_String
begin

text \<open>
  The signed request by which a PTY redeems a secret (\<^verbatim>\<open>backend/src/secret_protocol.rs\<close>),
  the text that is signed, and the validation of secret ids and tool names
  (\<^verbatim>\<open>backend/src/secret_broker.rs\<close>). The printed form of a UUID is the \<open>uuid\<close> crate's and a
  parameter, \<open>show_uuid\<close>.
\<close>

section \<open>Messages and errors\<close>

record register_request =
  reg_pty_session_id :: uuid
  reg_public_key :: string

record use_request =
  use_pty_session_id :: uuid
  use_secret_id :: "string option"
  use_tool :: string
  use_timestamp :: i64
  use_nonce :: string
  use_signature :: string

definition nl :: char where "nl = CHR 0x0A"

definition canonical_use_payload ::
    "(uuid \<Rightarrow> string) \<Rightarrow> uuid \<Rightarrow> string option \<Rightarrow> string \<Rightarrow> i64 \<Rightarrow> string \<Rightarrow> string" where
  "canonical_use_payload show_uuid pty secret_id tool timestamp nonce =
     ''sulion-secret-use-v1'' @ nl # show_uuid pty @ nl # tool @ nl # unwrap_or [] secret_id
     @ nl # show_int (sint timestamp) @ nl # nonce @ [nl]"

definition use_payload :: "(uuid \<Rightarrow> string) \<Rightarrow> use_request \<Rightarrow> string" where
  "use_payload show_uuid body =
     canonical_use_payload show_uuid (use_pty_session_id body) (use_secret_id body) (use_tool body)
       (use_timestamp body) (use_nonce body)"

record broker_error =
  be_status :: http_status
  be_message :: string

definition broker_bad_request :: "string \<Rightarrow> broker_error" where
  "broker_bad_request m = \<lparr>be_status = BAD_REQUEST, be_message = m\<rparr>"
definition broker_unauthorized :: "string \<Rightarrow> broker_error" where
  "broker_unauthorized m = \<lparr>be_status = UNAUTHORIZED, be_message = m\<rparr>"
definition broker_forbidden :: "string \<Rightarrow> broker_error" where
  "broker_forbidden m = \<lparr>be_status = FORBIDDEN, be_message = m\<rparr>"
definition broker_internal :: "string \<Rightarrow> broker_error" where
  "broker_internal m = \<lparr>be_status = INTERNAL_SERVER_ERROR, be_message = m\<rparr>"

section \<open>Validation\<close>

definition secret_id_char :: "char \<Rightarrow> bool" where
  "secret_id_char ch \<longleftrightarrow> ascii_alnum ch \<or> ch \<in> {CHR ''-'', CHR ''_'', CHR ''.''}"

definition validate_secret_id :: "string \<Rightarrow> (broker_error, unit) result" where
  "validate_secret_id sid =
     (if sid = [] \<or> \<not> list_all secret_id_char sid
      then Inl (broker_bad_request ''invalid secret id'') else Inr ())"

definition validate_tool_name :: "string \<Rightarrow> (broker_error, unit) result" where
  "validate_tool_name tool =
     (if tool \<in> {''with-cred'', ''aws''} then Inr ()
      else Inl (broker_bad_request ''tool must be one of: with-cred, aws''))"

lemma validate_secret_id_ok:
  "validate_secret_id sid = Inr () \<longleftrightarrow> sid \<noteq> [] \<and> list_all secret_id_char sid"
  by (auto simp: validate_secret_id_def)

lemma validate_tool_name_ok: "validate_tool_name t = Inr () \<longleftrightarrow> t = ''with-cred'' \<or> t = ''aws''"
  by (auto simp: validate_tool_name_def)

lemma secret_id_no_nl: "list_all secret_id_char sid \<Longrightarrow> nl \<notin> set sid"
  by (auto simp: list_all_iff secret_id_char_def nl_def ascii_alnum_def ascii_upper_def
      ascii_lower_def ascii_digit_def)

lemma show_int_no_nl: "nl \<notin> set (show_int i)"
  using show_int_chars [of nl i] by (auto simp: nl_def ascii_digit_def)

text \<open>What the checks after the signature establish about a request.\<close>

definition valid_use :: "use_request \<Rightarrow> bool" where
  "valid_use body \<longleftrightarrow> validate_tool_name (use_tool body) = Inr ()
     \<and> (case use_secret_id body of None \<Rightarrow> True | Some sid \<Rightarrow> validate_secret_id sid = Inr ())"

lemma valid_use_no_nl:
  assumes "valid_use body"
  shows "nl \<notin> set (use_tool body)" and "nl \<notin> set (unwrap_or [] (use_secret_id body))"
  using assms
  by (auto simp: valid_use_def validate_tool_name_ok validate_secret_id_ok nl_def
      dest!: secret_id_no_nl split: option.splits)

section \<open>The signed text determines the request\<close>

text \<open>
  Two requests that pass validation and have the same signed text agree in PTY, secret,
  tool, timestamp and nonce, so a signature made for one redemption is good for no other;
  this needs of the UUID printer that it is injective and prints no line feed.
\<close>

theorem use_payload_injective:
  assumes "\<And>u. nl \<notin> set (show_uuid u)" and "inj show_uuid"
    and "valid_use b1" and "valid_use b2"
    and "use_payload show_uuid b1 = use_payload show_uuid b2"
  shows "use_pty_session_id b1 = use_pty_session_id b2 \<and> use_secret_id b1 = use_secret_id b2
    \<and> use_tool b1 = use_tool b2 \<and> use_timestamp b1 = use_timestamp b2
    \<and> use_nonce b1 = use_nonce b2"
proof -
  note no_nl = assms(1) valid_use_no_nl [OF assms(3)] valid_use_no_nl [OF assms(4)] show_int_no_nl
  have "show_uuid (use_pty_session_id b1) = show_uuid (use_pty_session_id b2)
    \<and> use_tool b1 = use_tool b2
    \<and> unwrap_or [] (use_secret_id b1) = unwrap_or [] (use_secret_id b2)
    \<and> show_int (sint (use_timestamp b1)) = show_int (sint (use_timestamp b2))
    \<and> use_nonce b1 = use_nonce b2"
    using assms(5) no_nl
    by (simp add: use_payload_def canonical_use_payload_def field_split)
  moreover have "use_secret_id b1 = use_secret_id b2"
    if "unwrap_or [] (use_secret_id b1) = unwrap_or [] (use_secret_id b2)"
    using that assms(3,4) by (auto simp: valid_use_def validate_secret_id_ok split: option.splits)
  ultimately show ?thesis
    using assms(2) by (auto simp: inj_eq show_int_inj)
qed

definition example_use :: use_request where
  "example_use = \<lparr>use_pty_session_id = 7, use_secret_id = Some ''db'', use_tool = ''with-cred'',
     use_timestamp = 1000, use_nonce = ''n1'', use_signature = ''sig''\<rparr>"

text \<open>A printer with the two properties, for the witnesses.\<close>

definition example_show_uuid :: "uuid \<Rightarrow> string" where
  "example_show_uuid u = show_nat (unat u)"

lemma example_show_uuid_ok: "nl \<notin> set (example_show_uuid u)" "inj example_show_uuid"
  using show_nat_digits [of nl "unat u"]
  by (auto simp: example_show_uuid_def nl_def ascii_digit_def inj_def show_nat_inj word_unat_eq_iff)

lemma example_use_valid: "valid_use example_use"
  by (simp add: valid_use_def example_use_def validate_tool_name_def validate_secret_id_def
      secret_id_char_def ascii_alnum_def ascii_lower_def)

theorem use_payload_injective_witness:
  "valid_use example_use
    \<and> use_nonce example_use = use_nonce (example_use\<lparr>use_signature := ''other''\<rparr>)"
  using use_payload_injective [of example_show_uuid example_use
      "example_use\<lparr>use_signature := ''other''\<rparr>"] example_show_uuid_ok example_use_valid
  by (simp add: use_payload_def valid_use_def)

end
