(* ===== verification/Broker.thy ===== *)
theory Broker
  imports Broker_Protocol "HOL-Library.AList"
begin

text \<open>
  The secret broker (\<^verbatim>\<open>backend/src/secret_broker.rs\<close>): its database tables (the schema is
  \<^verbatim>\<open>backend/broker_migrations\<close>), the handler of every route, and the routing with its two
  authentication layers. A table with a primary key is an association list without
  duplicate keys. The cipher, the JSON codec of an environment, base64, the signature
  check, the UUID printer, the token check and the collation of the database are the
  record \<open>primitives\<close>; statement times (\<open>NOW()\<close>, in microseconds) are arguments.
  Statements are taken to succeed, but for the foreign key of \<open>grants\<close>.
\<close>

section \<open>State\<close>

type_synonym bytes = string
type_synonym env = "(string \<times> string) list"
type_synonym time = int

record secret_row =
  s_description :: string
  s_scope :: string
  s_repo :: "string option"
  s_ciphertext :: bytes
  s_nonce :: bytes
  s_updated_at :: time

record grant_row =
  g_pty :: uuid
  g_secret :: string
  g_tool :: string
  g_sub :: string
  g_username :: "string option"
  g_created_at :: time
  g_expires_at :: time
  g_revoked_at :: "time option"

record credential_row =
  c_public_key :: string
  c_created_at :: time
  c_revoked_at :: "time option"

record audit_row =
  a_pty :: uuid
  a_secret :: string
  a_tool :: string
  a_used_at :: time

record broker_db =
  secrets :: "(string \<times> secret_row) list"
  grants :: "grant_row list"
  credentials :: "(uuid \<times> credential_row) list"
  nonces :: "((uuid \<times> string) \<times> time) list"
  audit :: "audit_row list"

record user =
  u_sub :: string
  u_username :: "string option"

record primitives =
  show_uuid :: "uuid \<Rightarrow> string"
  b64_decode :: "string \<Rightarrow> bytes option"
  ed25519_verify :: "bytes \<Rightarrow> string \<Rightarrow> bytes \<Rightarrow> bool"
  cipher_encrypt :: "bytes \<Rightarrow> bytes \<Rightarrow> bytes option"
  cipher_decrypt :: "bytes \<Rightarrow> bytes \<Rightarrow> bytes option"
  json_encode :: "env \<Rightarrow> (string, bytes) result"
  json_decode :: "bytes \<Rightarrow> (string, env) result"
  collate :: "string list \<Rightarrow> string list"
  validate_bearer :: "string \<Rightarrow> user option"

section \<open>Encryption at rest\<close>

text \<open>\<open>iv\<close> is the nonce drawn for this encryption.\<close>

definition encrypt_env :: "primitives \<Rightarrow> bytes \<Rightarrow> env \<Rightarrow> (broker_error, bytes \<times> bytes) result" where
  "encrypt_env P iv env =
     (case json_encode P env of
        Inl err \<Rightarrow> Inl (broker_internal err)
      | Inr plaintext \<Rightarrow>
          (case cipher_encrypt P iv plaintext of
             None \<Rightarrow> Inl (broker_internal ''encrypt secret payload'')
           | Some ciphertext \<Rightarrow> Inr (ciphertext, iv)))"

definition decrypt_env :: "primitives \<Rightarrow> bytes \<Rightarrow> bytes \<Rightarrow> (broker_error, env) result" where
  "decrypt_env P ciphertext iv =
     (if length iv \<noteq> 12 then Inl (broker_internal ''invalid nonce length'')
      else case cipher_decrypt P iv ciphertext of
        None \<Rightarrow> Inl (broker_internal ''decrypt secret payload'')
      | Some plaintext \<Rightarrow>
          (case json_decode P plaintext of
             Inl err \<Rightarrow> Inl (broker_internal err)
           | Inr env \<Rightarrow> Inr env))"

definition row_env :: "primitives \<Rightarrow> secret_row \<Rightarrow> (broker_error, env) result" where
  "row_env P row = decrypt_env P (s_ciphertext row) (s_nonce row)"

text \<open>\<open>SecretCrypto::from_file\<close>: the key bytes of the file, white space removed.\<close>

definition master_key :: "bytes \<Rightarrow> bytes option" where
  "master_key file =
     (let key = filter (\<lambda>b. \<not> ascii_whitespace b) file
      in if length key = 32 then Some key else None)"

section \<open>Secrets\<close>

record secret_envelope =
  e_description :: string
  e_scope :: string
  e_repo :: "string option"
  e_env :: env

record secret_metadata =
  m_id :: string
  m_description :: string
  m_scope :: string
  m_repo :: "string option"
  m_env_keys :: "string list"
  m_updated_at :: time

definition load_secret_env ::
    "primitives \<Rightarrow> broker_db \<Rightarrow> string \<Rightarrow> (broker_error, env option) result" where
  "load_secret_env P st sid =
     (case map_of (secrets st) sid of
        None \<Rightarrow> Inr None
      | Some row \<Rightarrow> res_bind (row_env P row) (\<lambda>env. Inr (Some env)))"

fun list_rows ::
    "primitives \<Rightarrow> broker_db \<Rightarrow> string list \<Rightarrow> (broker_error, secret_metadata list) result" where
  "list_rows P st [] = Inr []"
| "list_rows P st (sid # sids) =
     (case map_of (secrets st) sid of
        None \<Rightarrow> list_rows P st sids
      | Some row \<Rightarrow>
          res_bind (row_env P row) (\<lambda>env.
          res_bind (list_rows P st sids) (\<lambda>items.
            Inr (\<lparr>m_id = sid, m_description = s_description row, m_scope = s_scope row,
                  m_repo = s_repo row, m_env_keys = sort (map fst env),
                  m_updated_at = s_updated_at row\<rparr> # items))))"

definition list_secrets ::
    "primitives \<Rightarrow> broker_db \<Rightarrow> (broker_error, secret_metadata list) result" where
  "list_secrets P st = list_rows P st (collate P (map fst (secrets st)))"

definition get_secret :: "primitives \<Rightarrow> broker_db \<Rightarrow> string \<Rightarrow> (broker_error, secret_envelope) result" where
  "get_secret P st sid =
     res_bind (validate_secret_id sid) (\<lambda>_.
       case map_of (secrets st) sid of
         None \<Rightarrow> Inl \<lparr>be_status = NOT_FOUND, be_message = ''secret not found''\<rparr>
       | Some row \<Rightarrow>
           res_bind (row_env P row) (\<lambda>env.
             Inr \<lparr>e_description = s_description row, e_scope = s_scope row, e_repo = s_repo row,
               e_env = map (\<lambda>kv. (fst kv, [])) env\<rparr>))"

text \<open>
  The loop of \<open>upsert_secret\<close> over the submitted variables: an empty value keeps the stored
  one and is an error for a variable that is not stored. The list is the order in which the
  hash map is iterated.
\<close>

fun merge_submitted :: "env option \<Rightarrow> env \<Rightarrow> (broker_error, env) result" where
  "merge_submitted existing [] = Inr []"
| "merge_submitted existing ((key, v) # rest) =
     (if v = [] then
        (case (case existing of None \<Rightarrow> None | Some items \<Rightarrow> map_of items key) of
           Some old \<Rightarrow> res_bind (merge_submitted existing rest) (\<lambda>env. Inr ((key, old) # env))
         | None \<Rightarrow> Inl (broker_bad_request
             (''value for new env var '' @ key @ '' must not be empty'')))
      else res_bind (merge_submitted existing rest) (\<lambda>env. Inr ((key, v) # env)))"

definition upsert_secret ::
    "primitives \<Rightarrow> bytes \<Rightarrow> time \<Rightarrow> broker_db \<Rightarrow> string \<Rightarrow> secret_envelope \<Rightarrow>
       (broker_error, http_status) result \<times> broker_db" where
  "upsert_secret P iv now st sid body =
     (case
        res_bind (validate_secret_id sid) (\<lambda>_.
        if e_env body = [] then Inl (broker_bad_request ''env set must not be empty'') else
        res_bind (load_secret_env P st sid) (\<lambda>existing.
        res_bind (merge_submitted existing (e_env body)) (\<lambda>env.
        if env = [] then Inl (broker_bad_request ''env set must not be empty'')
        else encrypt_env P iv env)))
      of
        Inl e \<Rightarrow> (Inl e, st)
      | Inr (ciphertext, iv') \<Rightarrow>
          (Inr NO_CONTENT,
           st\<lparr>secrets := AList.update sid
             \<lparr>s_description = e_description body, s_scope = e_scope body, s_repo = e_repo body,
              s_ciphertext = ciphertext, s_nonce = iv', s_updated_at = now\<rparr> (secrets st)\<rparr>))"

text \<open>Deleting a secret deletes its grants (\<open>ON DELETE CASCADE\<close>).\<close>

definition delete_secret :: "broker_db \<Rightarrow> string \<Rightarrow> (broker_error, http_status) result \<times> broker_db" where
  "delete_secret st sid =
     (Inr NO_CONTENT,
      st\<lparr>secrets := AList.delete sid (secrets st),
         grants := filter (\<lambda>g. g_secret g \<noteq> sid) (grants st)\<rparr>)"

section \<open>Grants\<close>

definition grant_active :: "time \<Rightarrow> grant_row \<Rightarrow> bool" where
  "grant_active now g \<longleftrightarrow> g_revoked_at g = None \<and> now < g_expires_at g"

record grant_metadata =
  gm_secret_id :: string
  gm_tool :: string
  gm_granted_by_sub :: string
  gm_granted_by_username :: "string option"
  gm_expires_at :: time

text \<open>Grants that expire at the same moment come in an order SQL leaves open.\<close>

definition list_grants :: "time \<Rightarrow> broker_db \<Rightarrow> uuid \<Rightarrow> grant_metadata list" where
  "list_grants now st pty =
     map (\<lambda>g. \<lparr>gm_secret_id = g_secret g, gm_tool = g_tool g, gm_granted_by_sub = g_sub g,
               gm_granted_by_username = g_username g, gm_expires_at = g_expires_at g\<rparr>)
       (rev (sort_key g_expires_at
         (filter (\<lambda>g. g_pty g = pty \<and> grant_active now g) (grants st))))"

record grant_request =
  gr_pty :: uuid
  gr_secret :: string
  gr_tool :: string
  gr_ttl :: i64

definition as_i32_word :: "i64 \<Rightarrow> int" where
  "as_i32_word x = sint (of_int (sint x) :: 32 word)"

definition unlock_grant ::
    "time \<Rightarrow> user \<Rightarrow> broker_db \<Rightarrow> grant_request \<Rightarrow> (broker_error, http_status) result \<times> broker_db" where
  "unlock_grant now user st body =
     (case
        res_bind (validate_secret_id (gr_secret body)) (\<lambda>_.
        res_bind (validate_tool_name (gr_tool body)) (\<lambda>_.
        if \<not> (60 \<le> sint (gr_ttl body) \<and> sint (gr_ttl body) \<le> 86400)
        then Inl (broker_bad_request ''ttl_seconds must be between 60 and 86400'')
        else if map_of (secrets st) (gr_secret body) = None
        then Inl (broker_internal ''foreign key violation: grants.secret_id'')
        else Inr ()))
      of
        Inl e \<Rightarrow> (Inl e, st)
      | Inr _ \<Rightarrow>
          (Inr CREATED,
           st\<lparr>grants := grants st @
             [\<lparr>g_pty = gr_pty body, g_secret = gr_secret body, g_tool = gr_tool body,
               g_sub = u_sub user, g_username = u_username user, g_created_at = now,
               g_expires_at = now + as_i32_word (gr_ttl body) * 1000000,
               g_revoked_at = None\<rparr>]\<rparr>))"

definition revoke_grant ::
    "time \<Rightarrow> broker_db \<Rightarrow> uuid \<Rightarrow> string \<Rightarrow> string \<Rightarrow> (broker_error, http_status) result \<times> broker_db" where
  "revoke_grant now st pty sid tool =
     (Inr NO_CONTENT,
      st\<lparr>grants := map (\<lambda>g.
          if g_pty g = pty \<and> g_secret g = sid \<and> g_tool g = tool \<and> g_revoked_at g = None
          then g\<lparr>g_revoked_at := Some now\<rparr> else g) (grants st)\<rparr>)"

section \<open>PTY credentials\<close>

definition register_pty_credential ::
    "primitives \<Rightarrow> time \<Rightarrow> broker_db \<Rightarrow> register_request \<Rightarrow>
       (broker_error, http_status) result \<times> broker_db" where
  "register_pty_credential P now st body =
     (case b64_decode P (reg_public_key body) of
        None \<Rightarrow> (Inl (broker_bad_request ''invalid public key''), st)
      | Some public_key \<Rightarrow>
          if length public_key \<noteq> 32
          then (Inl (broker_bad_request ''invalid public key length''), st)
          else (Inr CREATED,
            st\<lparr>credentials := AList.update (reg_pty_session_id body)
              \<lparr>c_public_key = reg_public_key body, c_created_at = now, c_revoked_at = None\<rparr>
              (credentials st)\<rparr>))"

definition revoke_pty_credential ::
    "time \<Rightarrow> broker_db \<Rightarrow> uuid \<Rightarrow> (broker_error, http_status) result \<times> broker_db" where
  "revoke_pty_credential now st pty =
     (Inr NO_CONTENT,
      st\<lparr>credentials := map (\<lambda>(k, c).
          (k, if k = pty \<and> c_revoked_at c = None then c\<lparr>c_revoked_at := Some now\<rparr> else c))
        (credentials st)\<rparr>)"

definition active_key :: "broker_db \<Rightarrow> uuid \<Rightarrow> string option" where
  "active_key st pty =
     (case map_of (credentials st) pty of
        None \<Rightarrow> None
      | Some c \<Rightarrow> if c_revoked_at c = None then Some (c_public_key c) else None)"

section \<open>Redeeming a secret\<close>

text \<open>The times of the statements of one redemption, and the application's clock (seconds).\<close>

record use_clock =
  app_now :: i64
  prune_now :: time
  nonce_now :: time
  select_now :: time
  audit_now :: time

definition NONCE_RETENTION :: time where "NONCE_RETENTION = 5 * 60 * 1000000"

definition prune_nonces ::
    "time \<Rightarrow> ((uuid \<times> string) \<times> time) list \<Rightarrow> ((uuid \<times> string) \<times> time) list" where
  "prune_nonces now t = filter (\<lambda>(k, seen). \<not> seen < now - NONCE_RETENTION) t"

definition insert_nonce ::
    "((uuid \<times> string) \<times> time) list \<Rightarrow> uuid \<times> string \<Rightarrow> time \<Rightarrow>
       bool \<times> ((uuid \<times> string) \<times> time) list" where
  "insert_nonce t k now = (case map_of t k of None \<Rightarrow> (True, t @ [(k, now)]) | Some _ \<Rightarrow> (False, t))"

definition stale :: "i64 \<Rightarrow> i64 \<Rightarrow> bool" where
  "stale timestamp now \<longleftrightarrow> 60 < sint (i64_abs (timestamp - now))"

definition check_use_request ::
    "primitives \<Rightarrow> i64 \<Rightarrow> broker_db \<Rightarrow> use_request \<Rightarrow> (broker_error, unit) result" where
  "check_use_request P now st body =
     (if blank (use_nonce body) \<or> 128 < length (use_nonce body)
      then Inl (broker_unauthorized ''invalid nonce'')
      else if stale (use_timestamp body) now
      then Inl (broker_unauthorized ''stale secret-use request'')
      else case active_key st (use_pty_session_id body) of
        None \<Rightarrow> Inl (broker_unauthorized ''unknown PTY credential'')
      | Some key64 \<Rightarrow>
     (case b64_decode P key64 of
        None \<Rightarrow> Inl (broker_unauthorized ''invalid registered PTY key'')
      | Some public_key \<Rightarrow>
     (case b64_decode P (use_signature body) of
        None \<Rightarrow> Inl (broker_unauthorized ''invalid request signature'')
      | Some signature \<Rightarrow>
          if ed25519_verify P public_key (use_payload (show_uuid P) body) signature then Inr ()
          else Inl (broker_unauthorized ''invalid request signature''))))"

definition verify_signed_use_request ::
    "primitives \<Rightarrow> use_clock \<Rightarrow> broker_db \<Rightarrow> use_request \<Rightarrow>
       (broker_error, unit) result \<times> broker_db" where
  "verify_signed_use_request P clk st body =
     (case check_use_request P (app_now clk) st body of
        Inl e \<Rightarrow> (Inl e, st)
      | Inr _ \<Rightarrow>
          (case insert_nonce (prune_nonces (prune_now clk) (nonces st))
                  (use_pty_session_id body, use_nonce body) (nonce_now clk) of
             (inserted, t) \<Rightarrow>
               (if inserted then Inr () else Inl (broker_unauthorized ''replayed secret-use request''),
                st\<lparr>nonces := t\<rparr>)))"

definition granted ::
    "time \<Rightarrow> broker_db \<Rightarrow> uuid \<Rightarrow> string \<Rightarrow> grant_row list" where
  "granted now st pty tool =
     filter (\<lambda>g. g_pty g = pty \<and> g_tool g = tool \<and> grant_active now g) (grants st)"

definition join_secret :: "broker_db \<Rightarrow> string \<Rightarrow> (string \<times> secret_row) list" where
  "join_secret st sid =
     (case map_of (secrets st) sid of None \<Rightarrow> [] | Some row \<Rightarrow> [(sid, row)])"

definition unlocked_rows ::
    "primitives \<Rightarrow> time \<Rightarrow> broker_db \<Rightarrow> use_request \<Rightarrow> (string \<times> secret_row) list" where
  "unlocked_rows P now st body =
     (let gs = granted now st (use_pty_session_id body) (use_tool body) in
      case use_secret_id body of
        Some sid \<Rightarrow>
          take 1 (concat (map (\<lambda>g. join_secret st (g_secret g))
            (rev (sort_key g_expires_at (filter (\<lambda>g. g_secret g = sid) gs)))))
      | None \<Rightarrow> concat (map (join_secret st) (collate P (remdups (map g_secret gs)))))"

text \<open>Adding one secret's variables to the response; a variable already there is an error.\<close>

fun add_env :: "string \<Rightarrow> env \<Rightarrow> env \<Rightarrow> (broker_error, env) result" where
  "add_env tool env [] = Inr env"
| "add_env tool env ((key, v) # rest) =
     (case map_of env key of
        Some _ \<Rightarrow> Inl (broker_bad_request
          (''conflicting env var '' @ key @ '' across unlocked secrets for tool '' @ tool))
      | None \<Rightarrow> add_env tool (env @ [(key, v)]) rest)"

fun collect_env ::
    "primitives \<Rightarrow> string \<Rightarrow> env \<Rightarrow> (string \<times> secret_row) list \<Rightarrow> (broker_error, env) result" where
  "collect_env P tool env [] = Inr env"
| "collect_env P tool env ((sid, row) # rows) =
     res_bind (row_env P row) (\<lambda>secret_env.
     res_bind (add_env tool env secret_env) (\<lambda>env'. collect_env P tool env' rows))"

definition use_secret ::
    "primitives \<Rightarrow> use_clock \<Rightarrow> broker_db \<Rightarrow> use_request \<Rightarrow> (broker_error, env) result \<times> broker_db" where
  "use_secret P clk st body =
     (case verify_signed_use_request P clk st body of
        (Inl e, st1) \<Rightarrow> (Inl e, st1)
      | (Inr _, st1) \<Rightarrow>
     (case
        res_bind (validate_tool_name (use_tool body)) (\<lambda>_.
        if use_tool body = ''aws'' \<and> use_secret_id body = None
        then Inl (broker_bad_request ''aws redemption requires a secret id'') else
        res_bind (case use_secret_id body of Some sid \<Rightarrow> validate_secret_id sid | None \<Rightarrow> Inr ())
          (\<lambda>_. let rows = unlocked_rows P (select_now clk) st1 body in
               if rows = []
               then Inl (broker_forbidden ''secret is not unlocked for this terminal/tool'')
               else res_bind (collect_env P (use_tool body) [] rows) (\<lambda>env. Inr (env, rows))))
      of
        Inl e \<Rightarrow> (Inl e, st1)
      | Inr (env, rows) \<Rightarrow>
          (Inr env,
           st1\<lparr>audit := audit st1 @ map (\<lambda>(sid, _).
             \<lparr>a_pty = use_pty_session_id body, a_secret = sid, a_tool = use_tool body,
              a_used_at = audit_now clk\<rparr>) rows\<rparr>)))"

section \<open>Authentication and routing\<close>

text \<open>\<open>header\<close> is the value of the authorization header, when there is one and it is text.\<close>

definition bearer_from_request :: "string option \<Rightarrow> string option \<Rightarrow> string option" where
  "bearer_from_request header query_token =
     or_else
       (opt_filter (\<lambda>t. \<not> blank t)
          (case header of None \<Rightarrow> None | Some v \<Rightarrow> strip_prefix v ''Bearer ''))
       (opt_filter (\<lambda>t. \<not> blank t) query_token)"

datatype broker_route =
  Health
| ListSecrets
| GetSecret string
| UpsertSecret string secret_envelope
| DeleteSecret string
| ListGrants uuid
| UnlockGrant grant_request
| RevokeGrant uuid string string
| UseSecret use_request
| RegisterPtyCredential register_request
| RevokePtyCredential uuid

datatype broker_reply =
  ReplyStatus http_status
| ReplyError broker_error
| ReplySecrets "secret_metadata list"
| ReplySecret secret_envelope
| ReplyGrants "grant_metadata list"
| ReplyEnv env

datatype auth_layer = UserAuth | RegistrationAuth | NoAuth

fun route_layer :: "broker_route \<Rightarrow> auth_layer" where
  "route_layer (UseSecret _) = NoAuth"
| "route_layer (RegisterPtyCredential _) = RegistrationAuth"
| "route_layer (RevokePtyCredential _) = RegistrationAuth"
| "route_layer _ = UserAuth"

record http_request =
  h_authorization :: "string option"
  h_access_token :: "string option"
  h_route :: broker_route
  h_now :: time
  h_clock :: use_clock
  h_iv :: bytes

definition reply_of :: "('a \<Rightarrow> broker_reply) \<Rightarrow> (broker_error, 'a) result \<Rightarrow> broker_reply" where
  "reply_of f r = (case r of Inl e \<Rightarrow> ReplyError e | Inr x \<Rightarrow> f x)"

fun user_handler ::
    "primitives \<Rightarrow> http_request \<Rightarrow> user \<Rightarrow> broker_db \<Rightarrow> broker_route \<Rightarrow> broker_reply \<times> broker_db" where
  "user_handler P rq u st ListSecrets = (reply_of ReplySecrets (list_secrets P st), st)"
| "user_handler P rq u st (GetSecret sid) = (reply_of ReplySecret (get_secret P st sid), st)"
| "user_handler P rq u st (UpsertSecret sid body) =
     map_prod (reply_of ReplyStatus) id (upsert_secret P (h_iv rq) (h_now rq) st sid body)"
| "user_handler P rq u st (DeleteSecret sid) =
     map_prod (reply_of ReplyStatus) id (delete_secret st sid)"
| "user_handler P rq u st (ListGrants pty) = (ReplyGrants (list_grants (h_now rq) st pty), st)"
| "user_handler P rq u st (UnlockGrant body) =
     map_prod (reply_of ReplyStatus) id (unlock_grant (h_now rq) u st body)"
| "user_handler P rq u st (RevokeGrant pty sid tool) =
     map_prod (reply_of ReplyStatus) id (revoke_grant (h_now rq) st pty sid tool)"
| "user_handler P rq u st _ = (ReplyStatus OK, st)"

definition unauthorized_reply :: broker_reply where
  "unauthorized_reply = ReplyError (broker_unauthorized ''unauthorized'')"

definition serve ::
    "primitives \<Rightarrow> string \<Rightarrow> broker_db \<Rightarrow> http_request \<Rightarrow> broker_reply \<times> broker_db" where
  "serve P registration_token st rq =
     (let token = bearer_from_request (h_authorization rq) (h_access_token rq) in
      case route_layer (h_route rq) of
        UserAuth \<Rightarrow>
          (case token of
             None \<Rightarrow> (unauthorized_reply, st)
           | Some t \<Rightarrow>
               (case validate_bearer P t of
                  None \<Rightarrow> (unauthorized_reply, st)
                | Some u \<Rightarrow> user_handler P rq u st (h_route rq)))
      | RegistrationAuth \<Rightarrow>
          if token \<noteq> Some registration_token then (unauthorized_reply, st)
          else (case h_route rq of
            RegisterPtyCredential body \<Rightarrow>
              map_prod (reply_of ReplyStatus) id (register_pty_credential P (h_now rq) st body)
          | RevokePtyCredential pty \<Rightarrow>
              map_prod (reply_of ReplyStatus) id (revoke_pty_credential (h_now rq) st pty)
          | _ \<Rightarrow> (unauthorized_reply, st))
      | NoAuth \<Rightarrow>
          (case h_route rq of
            UseSecret body \<Rightarrow>
              map_prod (reply_of ReplyEnv) id (use_secret P (h_clock rq) st body)
          | _ \<Rightarrow> (unauthorized_reply, st)))"

definition serve_step :: "primitives \<Rightarrow> string \<Rightarrow> broker_db \<Rightarrow> http_request \<Rightarrow> broker_db" where
  "serve_step P registration_token st rq = snd (serve P registration_token st rq)"

end
