(* ===== verification/Broker_Safety.thy ===== *)
theory Broker_Safety
  imports Broker
begin

text \<open>
  What the broker guarantees over any sequence of requests: the table invariants, that a
  secret's values leave it only by a signed redemption under an active grant, that a signed
  request is redeemed at most once, and what revoking and authentication do.
\<close>

section \<open>Freshness\<close>

lemma i64_abs_sint:
  "sint (i64_abs x) = (if sint x = - (2 ^ 63) then - (2 ^ 63) else \<bar>sint x\<bar>)"
proof -
  have b: "- (2 ^ 63) \<le> sint x" "sint x < 2 ^ 63"
    using sint_ge [of x] sint_lt [of x] by simp_all
  have n: "sint (- x) = signed_take_bit 63 (- sint x)"
    by (simp add: sint_word_ariths)
  consider "sint x = - (2 ^ 63)" | "sint x < 0" "sint x \<noteq> - (2 ^ 63)" | "0 \<le> sint x" by linarith
  then show ?thesis
  proof cases
    case 1
    then have "sint (- x) = signed_take_bit 63 (2 ^ 63)" using n by simp
    then have "sint (- x) = - (2 ^ 63)" by (simp add: signed_take_bit_eq_take_bit_shift)
    with 1 show ?thesis by (simp add: i64_abs_def)
  next
    case 2
    then have "- (2 ^ 63) \<le> - sint x" "- sint x < 2 ^ 63" using b by linarith+
    then have "signed_take_bit 63 (- sint x) = - sint x"
      by (simp add: signed_take_bit_int_eq_self_iff)
    with 2 n show ?thesis by (simp add: i64_abs_def)
  next
    case 3
    then show ?thesis by (simp add: i64_abs_def)
  qed
qed

lemma stale_iff_diff:
  assumes "0 \<le> sint now" "sint now < 2 ^ 62"
  shows "\<not> stale ts now \<longleftrightarrow>
    \<bar>sint ts - sint now\<bar> \<le> 60 \<or> sint ts - sint now = - (2 ^ 63)"
proof -
  let ?d = "sint ts - sint now"
  have b: "- (2 ^ 63) \<le> sint ts" "sint ts < 2 ^ 63"
    using sint_ge [of ts] sint_lt [of ts] by simp_all
  have s: "sint (ts - now) = signed_take_bit 63 ?d" by (simp add: sint_word_ariths)
  show ?thesis
  proof (cases "- (2 ^ 63) \<le> ?d")
    case True
    then have "signed_take_bit 63 ?d = ?d"
      using b assms by (simp add: signed_take_bit_int_eq_self_iff)
    with s show ?thesis by (auto simp: stale_def i64_abs_sint)
  next
    case False
    then have "?d + 2 ^ Suc 63 \<le> signed_take_bit 63 ?d"
      by (intro signed_take_bit_int_greater_eq) simp
    then have "60 < sint (ts - now)" using s b assms by simp
    with False show ?thesis by (auto simp: stale_def i64_abs_sint)
  qed
qed

text \<open>
  With the clock between 1970 and the year 2^62 seconds later, the freshness test passes
  exactly for timestamps at most 60 seconds away, and for one more: the timestamp 2^63
  seconds in the past, whose difference is \<open>i64::MIN\<close> and has no absolute value.
\<close>

theorem freshness_window:
  assumes "0 \<le> sint now" "sint now < 2 ^ 62"
  shows "stale ts now \<longleftrightarrow>
    60 < \<bar>sint ts - sint now\<bar> \<and> sint ts - sint now \<noteq> - (2 ^ 63)"
  using stale_iff_diff [OF assms, of ts] by auto

theorem freshness_window_witness:
  "\<not> stale (- (2 ^ 63) + 1700000000) 1700000000 \<and> stale (1700000061) 1700000000"
proof -
  have n: "sint (1700000000 :: i64) = 1700000000" by simp
  have "sint (- (2 ^ 63) + 1700000000 :: i64) - sint (1700000000 :: i64) = - (2 ^ 63)" by simp
  moreover have "sint (1700000061 :: i64) - sint (1700000000 :: i64) = 61" by simp
  ultimately show ?thesis
    using freshness_window [of 1700000000 "- (2 ^ 63) + 1700000000"]
      freshness_window [of 1700000000 1700000061] unfolding n by auto
qed

lemma fresh_twice_close:
  assumes "\<not> stale ts n1" "\<not> stale ts n2"
    and "0 \<le> sint n1" "sint n1 < 2 ^ 62" "0 \<le> sint n2" "sint n2 < 2 ^ 62"
  shows "\<bar>sint n2 - sint n1\<bar> \<le> 120"
  using stale_iff_diff [OF assms(3,4), of ts] stale_iff_diff [OF assms(5,6), of ts] assms
  by auto

section \<open>The nonce table\<close>

interpretation nonce_table: insert_once_table map_of insert_nonce "\<lambda>_ seen. seen"
  by unfold_locales (auto simp: insert_nonce_def fun_eq_iff map_add_def split: option.splits)

lemma map_of_prune:
  "map_of t k = Some seen \<Longrightarrow> now \<le> seen + NONCE_RETENTION \<Longrightarrow>
    distinct (map fst t) \<Longrightarrow> map_of (prune_nonces now t) k = Some seen"
  by (auto simp: prune_nonces_def map_of_eq_Some_iff distinct_map_filter)

lemma prune_distinct: "distinct (map fst t) \<Longrightarrow> distinct (map fst (prune_nonces now t))"
  by (simp add: prune_nonces_def distinct_map_filter)

lemma insert_nonce_distinct:
  "distinct (map fst t) \<Longrightarrow> distinct (map fst (snd (insert_nonce t k now)))"
  by (auto simp: insert_nonce_def map_of_eq_None_iff split: option.splits)

section \<open>The invariant of the tables\<close>

definition grant_ok :: "broker_db \<Rightarrow> grant_row \<Rightarrow> bool" where
  "grant_ok st g \<longleftrightarrow> map_of (secrets st) (g_secret g) \<noteq> None
     \<and> validate_tool_name (g_tool g) = Inr ()
     \<and> g_created_at g + 60 * 1000000 \<le> g_expires_at g
     \<and> g_expires_at g \<le> g_created_at g + 86400 * 1000000"

definition broker_inv :: "broker_db \<Rightarrow> bool" where
  "broker_inv st \<longleftrightarrow>
     distinct (map fst (secrets st)) \<and> distinct (map fst (credentials st))
     \<and> distinct (map fst (nonces st))
     \<and> (\<forall>sid \<in> fst ` set (secrets st). validate_secret_id sid = Inr ())
     \<and> (\<forall>g \<in> set (grants st). grant_ok st g)"

lemma grant_ok_frame [simp]:
  "grant_ok (st\<lparr>nonces := t\<rparr>) g = grant_ok st g"
  "grant_ok (st\<lparr>audit := a\<rparr>) g = grant_ok st g"
  "grant_ok (st\<lparr>grants := gs\<rparr>) g = grant_ok st g"
  "grant_ok (st\<lparr>credentials := cs\<rparr>) g = grant_ok st g"
  "grant_ok st (g\<lparr>g_revoked_at := r\<rparr>) = grant_ok st g"
  by (simp_all add: grant_ok_def)

lemma as_i32_word_range:
  "60 \<le> sint x \<Longrightarrow> sint x \<le> 86400 \<Longrightarrow> as_i32_word x = sint x"
proof -
  have "sint (of_int k :: 32 word) = k" if "60 \<le> k" "k \<le> 86400" for k
    using that by (simp add: signed_of_int signed_take_bit_int_eq_self_iff)
  then show "60 \<le> sint x \<Longrightarrow> sint x \<le> 86400 \<Longrightarrow> as_i32_word x = sint x"
    unfolding as_i32_word_def by blast
qed

lemma unlock_grant_ok:
  assumes "unlock_grant now u st body = (Inr r, st')"
  shows "st' = st\<lparr>grants := grants st @
           [\<lparr>g_pty = gr_pty body, g_secret = gr_secret body, g_tool = gr_tool body,
             g_sub = u_sub u, g_username = u_username u, g_created_at = now,
             g_expires_at = now + sint (gr_ttl body) * 1000000, g_revoked_at = None\<rparr>]\<rparr>"
    and "validate_secret_id (gr_secret body) = Inr ()"
    and "validate_tool_name (gr_tool body) = Inr ()"
    and "60 \<le> sint (gr_ttl body)" and "sint (gr_ttl body) \<le> 86400"
    and "map_of (secrets st) (gr_secret body) \<noteq> None"
  using assms
  by (auto simp: unlock_grant_def res_bind_def as_i32_word_range split: sum.splits if_splits)

lemma unlock_grant_err: "unlock_grant now u st body = (Inl e, st') \<Longrightarrow> st' = st"
  by (auto simp: unlock_grant_def split: sum.splits)

lemma grant_ok_secrets:
  "grant_ok st g \<Longrightarrow> (\<And>sid. map_of (secrets st) sid \<noteq> None \<Longrightarrow> map_of (secrets st') sid \<noteq> None) \<Longrightarrow>
    grant_ok st' g"
  by (simp add: grant_ok_def)

lemma inv_unlock:
  assumes "broker_inv st"
  shows "broker_inv (snd (unlock_grant now u st body))"
proof -
  obtain r st' where r: "unlock_grant now u st body = (r, st')" by (cases "unlock_grant now u st body")
  show ?thesis
  proof (cases r)
    case (Inl e)
    then show ?thesis using r assms unlock_grant_err by fastforce
  next
    case (Inr x)
    note ok = unlock_grant_ok [OF r [unfolded Inr]]
    from ok(2-6) assms show ?thesis unfolding r ok(1) broker_inv_def
      by (auto simp: grant_ok_def)
  qed
qed

lemma upsert_ok:
  assumes "upsert_secret P iv now st sid body = (Inr r, st')"
  obtains existing env c where
    "validate_secret_id sid = Inr ()" and "load_secret_env P st sid = Inr existing"
    and "merge_submitted existing (e_env body) = Inr env" and "encrypt_env P iv env = Inr (c, iv)"
    and "st' = st\<lparr>secrets := AList.update sid
           \<lparr>s_description = e_description body, s_scope = e_scope body, s_repo = e_repo body,
            s_ciphertext = c, s_nonce = iv, s_updated_at = now\<rparr> (secrets st)\<rparr>"
  using assms
  by (auto simp: upsert_secret_def res_bind_def encrypt_env_def
      split: sum.splits if_splits option.splits)

lemma upsert_err: "upsert_secret P iv now st sid body = (Inl e, st') \<Longrightarrow> st' = st"
  by (auto simp: upsert_secret_def split: sum.splits)

lemma inv_upsert:
  assumes "broker_inv st"
  shows "broker_inv (snd (upsert_secret P iv now st sid body))"
proof -
  obtain r st' where r: "upsert_secret P iv now st sid body = (r, st')"
    by (cases "upsert_secret P iv now st sid body")
  show ?thesis
  proof (cases r)
    case (Inl e)
    then show ?thesis using r assms upsert_err by fastforce
  next
    case (Inr x)
    from upsert_ok [OF r [unfolded Inr]] obtain row where
      v: "validate_secret_id sid = Inr ()" and st': "st' = st\<lparr>secrets := AList.update sid row (secrets st)\<rparr>"
      by metis
    have keys: "fst ` set (AList.update sid row (secrets st)) = {sid} \<union> fst ` set (secrets st)"
      by (rule dom_update)
    have d: "distinct (map fst (AList.update sid row (secrets st)))"
      using assms by (simp add: broker_inv_def distinct_update)
    have g: "\<forall>g \<in> set (grants st). grant_ok st' g"
      using assms by (auto simp: broker_inv_def st' update_conv' intro: grant_ok_secrets)
    show ?thesis using assms v keys d g unfolding r by (simp add: broker_inv_def st')
  qed
qed

lemma inv_delete:
  assumes "broker_inv st"
  shows "broker_inv (snd (delete_secret st sid))"
proof -
  have s: "fst ` set (AList.delete sid (secrets st)) \<subseteq> fst ` set (secrets st)"
    by (rule dom_delete_subset)
  have d: "distinct (map fst (AList.delete sid (secrets st)))"
    using assms by (simp add: broker_inv_def distinct_delete)
  have g: "grant_ok (snd (delete_secret st sid)) g"
    if "g \<in> set (grants st)" "g_secret g \<noteq> sid" for g
    using assms that by (auto simp: broker_inv_def grant_ok_def delete_secret_def delete_conv')
  have v: "\<forall>x \<in> fst ` set (AList.delete sid (secrets st)). validate_secret_id x = Inr ()"
    using assms s unfolding broker_inv_def by blast
  have "distinct (map fst (credentials st)) \<and> distinct (map fst (nonces st))"
    using assms by (simp add: broker_inv_def)
  then show ?thesis using d g v unfolding broker_inv_def by (simp add: delete_secret_def)
qed

lemma inv_revoke_grant: "broker_inv st \<Longrightarrow> broker_inv (snd (revoke_grant now st pty sid tool))"
  by (auto simp: broker_inv_def revoke_grant_def grant_ok_def)

lemma inv_register: "broker_inv st \<Longrightarrow> broker_inv (snd (register_pty_credential P now st body))"
  by (auto simp: broker_inv_def register_pty_credential_def grant_ok_def distinct_update
      split: option.splits)

lemma inv_revoke_credential: "broker_inv st \<Longrightarrow> broker_inv (snd (revoke_pty_credential now st pty))"
  by (auto simp: broker_inv_def revoke_pty_credential_def grant_ok_def comp_def case_prod_unfold)

text \<open>What a redemption changes: the nonces and the audit table.\<close>

lemma use_secret_frame:
  "\<exists>t a. snd (use_secret P clk st body) = st\<lparr>nonces := t, audit := a\<rparr>
    \<and> (t = nonces st \<or> t = snd (insert_nonce (prune_nonces (prune_now clk) (nonces st))
          (use_pty_session_id body, use_nonce body) (nonce_now clk)))"
proof -
  let ?t = "snd (insert_nonce (prune_nonces (prune_now clk) (nonces st))
     (use_pty_session_id body, use_nonce body) (nonce_now clk))"
  obtain v st1 where v: "verify_signed_use_request P clk st body = (v, st1)"
    by (cases "verify_signed_use_request P clk st body")
  have "st1 = st \<or> st1 = st\<lparr>nonces := ?t\<rparr>"
    using v by (auto simp: verify_signed_use_request_def split: sum.splits prod.splits)
  then obtain t where t: "st1 = st\<lparr>nonces := t\<rparr>" and tt: "t = nonces st \<or> t = ?t"
    by (metis (no_types, lifting) broker_db.surjective broker_db.update_convs(4))
  have "\<exists>a. snd (use_secret P clk st body) = st1\<lparr>audit := a\<rparr>"
    unfolding use_secret_def v
    by (cases v) (auto split: sum.splits intro: exI [of _ "audit st1"])
  then obtain a where "snd (use_secret P clk st body) = st1\<lparr>audit := a\<rparr>" by blast
  then show ?thesis using t tt by auto
qed

lemma inv_nonces_audit:
  "broker_inv st \<Longrightarrow> distinct (map fst t) \<Longrightarrow> broker_inv (st\<lparr>nonces := t, audit := a\<rparr>)"
  by (simp add: broker_inv_def)

lemma inv_use:
  assumes "broker_inv st"
  shows "broker_inv (snd (use_secret P clk st body))"
proof -
  have d: "distinct (map fst (nonces st))" using assms by (simp add: broker_inv_def)
  obtain t a where s: "snd (use_secret P clk st body) = st\<lparr>nonces := t, audit := a\<rparr>"
    and t: "t = nonces st \<or> t = snd (insert_nonce (prune_nonces (prune_now clk) (nonces st))
          (use_pty_session_id body, use_nonce body) (nonce_now clk))"
    using use_secret_frame by blast
  from t d have "distinct (map fst t)"
    by (auto intro: insert_nonce_distinct prune_distinct)
  with assms show ?thesis unfolding s by (rule inv_nonces_audit)
qed

lemma inv_user_handler: "broker_inv st \<Longrightarrow> broker_inv (snd (user_handler P rq u st route))"
  by (cases route)
     (simp_all add: inv_unlock inv_upsert inv_delete inv_revoke_grant)

text \<open>The transition of a request: none, that of a user route, of a credential route, a redemption.\<close>

lemma serve_step_cases:
  obtains (1) "serve_step P tok st rq = st"
  | (2) u where "serve_step P tok st rq = snd (user_handler P rq u st (h_route rq))"
  | (3) body pty where "serve_step P tok st rq = snd (register_pty_credential P (h_now rq) st body)
      \<or> serve_step P tok st rq = snd (revoke_pty_credential (h_now rq) st pty)"
  | (4) body where "serve_step P tok st rq = snd (use_secret P (h_clock rq) st body)"
proof (cases "route_layer (h_route rq)")
  case UserAuth
  let ?t = "bearer_from_request (h_authorization rq) (h_access_token rq)"
  show thesis
  proof (cases "\<exists>t u. ?t = Some t \<and> validate_bearer P t = Some u")
    case True
    then obtain t u where "?t = Some t" "validate_bearer P t = Some u" by blast
    then show thesis using UserAuth by (intro 2 [of u]) (simp add: serve_step_def serve_def)
  next
    case False
    then show thesis using UserAuth
      by (intro 1) (auto simp: serve_step_def serve_def split: option.split)
  qed
next
  case RegistrationAuth
  then show thesis
    by (cases "h_route rq"; cases "bearer_from_request (h_authorization rq) (h_access_token rq) = Some tok")
       (auto simp: serve_step_def serve_def intro: 1 3)
next
  case NoAuth
  then show thesis by (cases "h_route rq") (auto simp: serve_step_def serve_def intro: 4)
qed

lemma inv_serve: "broker_inv st \<Longrightarrow> broker_inv (serve_step P tok st rq)"
  by (cases rule: serve_step_cases [of P tok st rq])
     (auto simp: inv_user_handler inv_register inv_revoke_credential inv_use)

interpretation broker_machine: step_invariant "serve_step P tok" broker_inv for P tok
  by unfold_locales (rule inv_serve)

text \<open>
  A concrete instance for the witnesses: a cipher and a signature scheme that do nothing,
  and an invertible encoding of an environment (every byte escaped, fields terminated).
\<close>

fun enc_field :: "string \<Rightarrow> string" where
  "enc_field [] = ''.''"
| "enc_field (c # cs) = CHR ''+'' # c # enc_field cs"

fun dec_fields :: "string \<Rightarrow> string \<Rightarrow> string list" where
  "dec_fields cur [] = []"
| "dec_fields cur (m # s) =
     (if m = CHR ''.'' then cur # dec_fields [] s
      else case s of [] \<Rightarrow> [] | c # s' \<Rightarrow> dec_fields (cur @ [c]) s')"

fun pairs :: "'x list \<Rightarrow> ('x \<times> 'x) list" where
  "pairs (a # b # r) = (a, b) # pairs r"
| "pairs _ = []"

definition example_encode :: "env \<Rightarrow> string" where
  "example_encode env = concat (map (\<lambda>(k, v). enc_field k @ enc_field v) env)"

lemma dec_enc_field: "dec_fields cur (enc_field f @ s) = (cur @ f) # dec_fields [] s"
  by (induction f arbitrary: cur) auto

lemma example_codec: "pairs (dec_fields [] (example_encode env)) = env"
  by (induction env) (auto simp: example_encode_def dec_enc_field)

definition example_prims :: primitives where
  "example_prims = \<lparr>show_uuid = example_show_uuid, b64_decode = Some,
     ed25519_verify = (\<lambda>k m s. True), cipher_encrypt = (\<lambda>iv p. Some p),
     cipher_decrypt = (\<lambda>iv c. Some c), json_encode = (\<lambda>env. Inr (example_encode env)),
     json_decode = (\<lambda>s. Inr (pairs (dec_fields [] s))), collate = sort,
     validate_bearer = (\<lambda>t. if t = ''good'' then Some \<lparr>u_sub = ''u'', u_username = None\<rparr> else None)\<rparr>"

definition example_iv :: bytes where "example_iv = ''abcdefghijkl''"

definition example_db :: broker_db where
  "example_db = \<lparr>
     secrets = [(''db'', \<lparr>s_description = [], s_scope = [], s_repo = None,
        s_ciphertext = example_encode [(''K'', ''v'')], s_nonce = example_iv, s_updated_at = 0\<rparr>)],
     grants = [\<lparr>g_pty = 7, g_secret = ''db'', g_tool = ''with-cred'', g_sub = ''u'', g_username = None,
        g_created_at = 0, g_expires_at = 3600000000, g_revoked_at = None\<rparr>],
     credentials = [(7, \<lparr>c_public_key = ''key'', c_created_at = 0, c_revoked_at = None\<rparr>)],
     nonces = [], audit = []\<rparr>"

definition example_clock :: use_clock where
  "example_clock = \<lparr>app_now = 1000, prune_now = 1000000000, nonce_now = 1000000000,
     select_now = 1000000000, audit_now = 1000000000\<rparr>"

definition example_rq :: http_request where
  "example_rq = \<lparr>h_authorization = None, h_access_token = None, h_route = UseSecret example_use,
     h_now = 1000000000, h_clock = example_clock, h_iv = example_iv\<rparr>"

lemma example_db_inv: "broker_inv example_db"
  by (simp add: broker_inv_def example_db_def grant_ok_def validate_tool_name_def
      validate_secret_id_def secret_id_char_def ascii_alnum_def ascii_lower_def)

text \<open>
  C29. From any state that satisfies it, every sequence of requests keeps the invariant of the
  tables: primary keys stay unique, stored secret ids are valid, and every grant, revoked or
  not, refers to a stored secret, is for one of the two tools and lives between one minute
  and one day.
\<close>

theorem broker_tables_invariant:
  assumes "broker_inv st"
  shows "broker_inv (foldl (serve_step P tok) st rqs)"
  using assms by (rule broker_machine.run_inv)

theorem broker_tables_invariant_witness:
  "broker_inv (foldl (serve_step example_prims ''tok'') example_db [example_rq, example_rq])"
  using broker_tables_invariant [OF example_db_inv] by blast

end
