(* ===== verification/Broker_Redemption.thy ===== *)
theory Broker_Redemption
  imports Broker_Safety
begin

text \<open>
  Redemptions: exactly which variables a signed request is answered with, that it is
  answered at most once, the life of a grant, the round trip of a stored secret, and what
  the authentication layers let through.
\<close>

section \<open>What a redemption returns\<close>

lemma verify_ok:
  assumes "verify_signed_use_request P clk st body = (Inr (), st1)"
  shows "check_use_request P (app_now clk) st body = Inr ()"
    and "map_of (prune_nonces (prune_now clk) (nonces st)) (use_pty_session_id body, use_nonce body) = None"
    and "st1 = st\<lparr>nonces := prune_nonces (prune_now clk) (nonces st) @
           [((use_pty_session_id body, use_nonce body), nonce_now clk)]\<rparr>"
  using assms
  by (auto simp: verify_signed_use_request_def insert_nonce_def
      split: sum.splits prod.splits option.splits if_splits)

lemma verify_err_status:
  "verify_signed_use_request P clk st body = (Inl e, st1) \<Longrightarrow> be_status e = UNAUTHORIZED"
  by (auto simp: verify_signed_use_request_def check_use_request_def broker_unauthorized_def
      split: sum.splits prod.splits option.splits if_splits)

lemma use_secret_ok:
  assumes "use_secret P clk st body = (Inr env, st')"
  obtains st1 where "verify_signed_use_request P clk st body = (Inr (), st1)"
    and "valid_use body" and "unlocked_rows P (select_now clk) st1 body \<noteq> []"
    and "collect_env P (use_tool body) [] (unlocked_rows P (select_now clk) st1 body) = Inr env"
    and "st' = st1\<lparr>audit := audit st1 @ map (\<lambda>(sid, _).
             \<lparr>a_pty = use_pty_session_id body, a_secret = sid, a_tool = use_tool body,
              a_used_at = audit_now clk\<rparr>) (unlocked_rows P (select_now clk) st1 body)\<rparr>"
proof -
  obtain v st1 where v: "verify_signed_use_request P clk st body = (v, st1)"
    by (cases "verify_signed_use_request P clk st body")
  with assms have vv: "v = Inr ()" by (cases v) (auto simp: use_secret_def)
  let ?rows = "unlocked_rows P (select_now clk) st1 body"
  have "validate_tool_name (use_tool body) = Inr ()
    \<and> (case use_secret_id body of Some sid \<Rightarrow> validate_secret_id sid | None \<Rightarrow> Inr ()) = Inr ()
    \<and> ?rows \<noteq> [] \<and> collect_env P (use_tool body) [] ?rows = Inr env
    \<and> st' = st1\<lparr>audit := audit st1 @ map (\<lambda>(sid, _).
             \<lparr>a_pty = use_pty_session_id body, a_secret = sid, a_tool = use_tool body,
              a_used_at = audit_now clk\<rparr>) ?rows\<rparr>"
    using assms unfolding use_secret_def v vv
    by (auto simp: res_bind_def Let_def split: sum.splits if_splits)
  then show thesis
    using that [of st1] v vv by (auto simp: valid_use_def split: option.splits)
qed

lemma add_env_set: "add_env tool env xs = Inr env' \<Longrightarrow> set env' = set env \<union> set xs"
  by (induction tool env xs rule: add_env.induct) (auto split: option.splits)

lemma add_env_distinct:
  "add_env tool env xs = Inr env' \<Longrightarrow> distinct (map fst env) \<Longrightarrow> distinct (map fst env')"
  by (induction tool env xs rule: add_env.induct)
     (auto split: option.splits simp: map_of_eq_None_iff)

lemma collect_env_set:
  "collect_env P tool env rows = Inr env' \<Longrightarrow>
    (kv \<in> set env' \<longleftrightarrow> kv \<in> set env
       \<or> (\<exists>sid row senv. (sid, row) \<in> set rows \<and> row_env P row = Inr senv \<and> kv \<in> set senv))"
proof (induction rows arbitrary: env)
  case (Cons r rows)
  obtain sid row where r: "r = (sid, row)" by (cases r)
  with Cons.prems obtain senv env1 where s: "row_env P row = Inr senv"
    and a: "add_env tool env senv = Inr env1" and c: "collect_env P tool env1 rows = Inr env'"
    by (auto simp: res_bind_eq_Inr)
  show ?case using Cons.IH [OF c] add_env_set [OF a] r s by auto
qed simp

lemma collect_env_distinct:
  "collect_env P tool env rows = Inr env' \<Longrightarrow> distinct (map fst env) \<Longrightarrow> distinct (map fst env')"
  by (induction P tool env rows arbitrary: env' rule: collect_env.induct)
     (auto simp: res_bind_eq_Inr dest: add_env_distinct)

lemma set_join_secret: "set (join_secret st sid) = {(sid, row) | row. map_of (secrets st) sid = Some row}"
  by (auto simp: join_secret_def split: option.splits)

lemma set_take_1: "(\<And>x y. x \<in> set xs \<Longrightarrow> y \<in> set xs \<Longrightarrow> x = y) \<Longrightarrow> set (take 1 xs) = set xs"
  by (cases xs) auto

definition matching_grant :: "time \<Rightarrow> broker_db \<Rightarrow> use_request \<Rightarrow> grant_row \<Rightarrow> bool" where
  "matching_grant now st body g \<longleftrightarrow> g \<in> set (grants st) \<and> g_pty g = use_pty_session_id body
     \<and> g_tool g = use_tool body \<and> grant_active now g
     \<and> (\<forall>sid. use_secret_id body = Some sid \<longrightarrow> g_secret g = sid)"

lemma unlocked_rows_set:
  assumes "\<And>xs. set (collate P xs) = set xs"
  shows "set (unlocked_rows P now st body) =
    {(g_secret g, row) | g row. matching_grant now st body g \<and> map_of (secrets st) (g_secret g) = Some row}"
proof (cases "use_secret_id body")
  case None
  then show ?thesis using assms
    by (fastforce simp: unlocked_rows_def Let_def set_join_secret matching_grant_def granted_def)
next
  case (Some sid)
  let ?gs = "filter (\<lambda>g. g_secret g = sid) (granted now st (use_pty_session_id body) (use_tool body))"
  let ?xs = "concat (map (\<lambda>g. join_secret st (g_secret g)) (rev (sort_key g_expires_at ?gs)))"
  have xs: "set ?xs = {(g_secret g, row) | g row. matching_grant now st body g
      \<and> map_of (secrets st) (g_secret g) = Some row}"
  proof -
    have "set ?gs = {g. matching_grant now st body g}"
      using Some by (auto simp: matching_grant_def granted_def)
    moreover have "set ?xs = (\<Union>g \<in> set ?gs. set (join_secret st (g_secret g)))" by simp
    ultimately show ?thesis by (auto simp: set_join_secret)
  qed
  have "set (take 1 ?xs) = set ?xs"
    by (rule set_take_1) (auto simp: set_join_secret split: if_splits)
  with Some xs show ?thesis by (simp add: unlocked_rows_def Let_def)
qed

lemma check_ok_signature:
  "check_use_request P now st body = Inr () \<Longrightarrow>
    \<not> stale (use_timestamp body) now
    \<and> (\<exists>key64 key sig. active_key st (use_pty_session_id body) = Some key64
         \<and> b64_decode P key64 = Some key \<and> b64_decode P (use_signature body) = Some sig
         \<and> ed25519_verify P key (use_payload (show_uuid P) body) sig)"
  by (auto simp: check_use_request_def split: option.splits if_splits)

lemma redeemed:
  assumes "\<And>xs. set (collate P xs) = set xs"
    and "use_secret P clk st body = (Inr env, st')"
  shows "check_use_request P (app_now clk) st body = Inr ()"
    and "distinct (map fst env)"
    and "(k, v) \<in> set env \<longleftrightarrow>
        (\<exists>g row senv. matching_grant (select_now clk) st body g
           \<and> map_of (secrets st) (g_secret g) = Some row
           \<and> row_env P row = Inr senv \<and> (k, v) \<in> set senv)"
proof -
  from use_secret_ok [OF assms(2)] obtain st1 where
    v: "verify_signed_use_request P clk st body = (Inr (), st1)"
    and c: "collect_env P (use_tool body) [] (unlocked_rows P (select_now clk) st1 body) = Inr env"
    by blast
  note vo = verify_ok [OF v]
  have m: "matching_grant now st1 body g = matching_grant now st body g" for now g
    by (simp add: matching_grant_def vo(3))
  have s: "secrets st1 = secrets st" by (simp add: vo(3))
  show "check_use_request P (app_now clk) st body = Inr ()" using vo(1) .
  show "distinct (map fst env)" using collect_env_distinct [OF c] by simp
  show "(k, v) \<in> set env \<longleftrightarrow> (\<exists>g row senv. matching_grant (select_now clk) st body g
      \<and> map_of (secrets st) (g_secret g) = Some row \<and> row_env P row = Inr senv \<and> (k, v) \<in> set senv)"
    using collect_env_set [OF c] unfolding unlocked_rows_set [OF assms(1)] m s by simp blast
qed

text \<open>
  C2. A redemption that succeeds was signed under the key registered for its PTY and not
  revoked, over the request's own text; and the variables it returns are, each name once,
  exactly those of the stored secrets for which the PTY and tool hold a grant that is
  neither revoked nor expired, only the named secret's when the request names one.
\<close>

theorem redemption_exact:
  assumes "\<And>xs. set (collate P xs) = set xs"
    and "use_secret P clk st body = (Inr env, st')"
  shows "(\<exists>key64 key sig. active_key st (use_pty_session_id body) = Some key64
        \<and> b64_decode P key64 = Some key \<and> b64_decode P (use_signature body) = Some sig
        \<and> ed25519_verify P key (use_payload (show_uuid P) body) sig)
    \<and> distinct (map fst env)
    \<and> (\<forall>k v. (k, v) \<in> set env \<longleftrightarrow>
        (\<exists>g row senv. matching_grant (select_now clk) st body g
           \<and> map_of (secrets st) (g_secret g) = Some row
           \<and> row_env P row = Inr senv \<and> (k, v) \<in> set senv))"
  using check_ok_signature [OF redeemed(1) [OF assms]] redeemed(2) [OF assms] redeemed(3) [OF assms] by blast

lemma example_stale: "\<not> stale 1000 1000"
  by (simp add: stale_def i64_abs_def)

lemma example_blank: "\<not> blank ''n1''"
  by (simp add: blank_def trim_def trim_start.simps [of "''n1''"] trim_end.simps [of "''n1''"]
      ws_len_end_def ascii_ws_def)

lemma example_check: "check_use_request example_prims 1000 example_db example_use = Inr ()"
  using example_stale example_blank
  by (simp add: check_use_request_def example_use_def example_prims_def example_db_def active_key_def)

lemma example_row_env: "row_env example_prims (snd (secrets example_db ! 0)) = Inr [(''K'', ''v'')]"
  using example_codec [of "[(''K'', ''v'')]"]
  by (simp add: row_env_def decrypt_env_def example_prims_def example_db_def example_iv_def)

lemma example_rows:
  "unlocked_rows example_prims 1000000000 (example_db\<lparr>nonces := t\<rparr>) example_use = secrets example_db"
  by (simp add: unlocked_rows_def granted_def example_db_def example_use_def join_secret_def
      grant_active_def)

lemma example_redeemed:
  "fst (use_secret example_prims example_clock example_db example_use) = Inr [(''K'', ''v'')]"
proof -
  have v: "verify_signed_use_request example_prims example_clock example_db example_use =
     (Inr (), example_db\<lparr>nonces := [((7, ''n1''), 1000000000)]\<rparr>)"
    using example_check
    by (simp add: verify_signed_use_request_def example_clock_def prune_nonces_def insert_nonce_def
        example_use_def example_db_def)
  have u: "validate_tool_name (use_tool example_use) = Inr ()"
    "(case use_secret_id example_use of Some sid \<Rightarrow> validate_secret_id sid | None \<Rightarrow> Inr ()) = Inr ()"
    "use_tool example_use \<noteq> ''aws''"
    using example_use_valid by (auto simp: valid_use_def example_use_def)
  have "secrets example_db = [(''db'', snd (secrets example_db ! 0))]"
    by (simp add: example_db_def)
  then have c: "collect_env example_prims t [] (secrets example_db) = Inr [(''K'', ''v'')]" for t
    using example_row_env by (metis (no_types, lifting) add_env.simps append_Nil
        collect_env.simps map_of.simps(1) option.simps(4) res_bind_simps(2))
  have ne: "secrets example_db \<noteq> []" by (simp add: example_db_def)
  show ?thesis
    unfolding use_secret_def v
    using u ne c example_rows by (simp add: example_clock_def)
qed

theorem redemption_exact_witness:
  "fst (use_secret example_prims example_clock example_db example_use) = Inr [(''K'', ''v'')]
   \<and> (\<exists>g row senv. matching_grant 1000000000 example_db example_use g
        \<and> map_of (secrets example_db) (g_secret g) = Some row
        \<and> row_env example_prims row = Inr senv \<and> (''K'', ''v'') \<in> set senv)"
proof -
  let ?u = "use_secret example_prims example_clock example_db example_use"
  have u: "?u = (Inr [(''K'', ''v'')], snd ?u)" using example_redeemed by (metis prod.collapse)
  have c: "set (collate example_prims xs) = set xs" for xs
    by (simp add: example_prims_def)
  have s: "select_now example_clock = 1000000000" by (simp add: example_clock_def)
  show ?thesis
    using redemption_exact [of example_prims, OF c u, THEN conjunct2, THEN conjunct2,
        rule_format, of "''K''" "''v''"] example_redeemed unfolding s by simp
qed

section \<open>At most once\<close>

definition nonce_kept :: "uuid \<times> string \<Rightarrow> time \<Rightarrow> broker_db \<Rightarrow> bool" where
  "nonce_kept k seen st \<longleftrightarrow> distinct (map fst (nonces st)) \<and> map_of (nonces st) k = Some seen"

lemma nonce_kept_use:
  assumes "nonce_kept k seen st" and "prune_now clk \<le> seen + NONCE_RETENTION"
  shows "nonce_kept k seen (snd (use_secret P clk st body))"
proof -
  have kept: "map_of (prune_nonces (prune_now clk) (nonces st)) k = Some seen"
    using assms by (intro map_of_prune) (auto simp: nonce_kept_def)
  have d: "distinct (map fst (nonces st))" using assms(1) by (simp add: nonce_kept_def)
  obtain t a where s: "snd (use_secret P clk st body) = st\<lparr>nonces := t, audit := a\<rparr>"
    and t: "t = nonces st \<or> t = snd (insert_nonce (prune_nonces (prune_now clk) (nonces st))
          (use_pty_session_id body, use_nonce body) (nonce_now clk))"
    using use_secret_frame by blast
  from t have "map_of t k = Some seen"
  proof
    assume "t = nonces st"
    then show ?thesis using assms(1) by (simp add: nonce_kept_def)
  next
    assume "t = snd (insert_nonce (prune_nonces (prune_now clk) (nonces st))
          (use_pty_session_id body, use_nonce body) (nonce_now clk))"
    then show ?thesis using nonce_table.put_keeps [OF kept] by simp
  qed
  moreover from t d have "distinct (map fst t)"
    by (auto intro: insert_nonce_distinct prune_distinct)
  ultimately show ?thesis by (simp add: s nonce_kept_def)
qed

lemma nonces_user_handler: "nonces (snd (user_handler P rq u st route)) = nonces st"
  by (cases route)
     (auto simp: upsert_secret_def delete_secret_def unlock_grant_def revoke_grant_def
       split: sum.splits prod.splits)

lemma nonce_kept_frame: "nonces st' = nonces st \<Longrightarrow> nonce_kept k seen st' = nonce_kept k seen st"
  by (simp add: nonce_kept_def)

lemma nonce_kept_step:
  assumes "nonce_kept k seen st" and "prune_now (h_clock rq) \<le> seen + NONCE_RETENTION"
  shows "nonce_kept k seen (serve_step P tok st rq)"
proof (cases rule: serve_step_cases [of P tok st rq])
  case (4 body)
  then show ?thesis using nonce_kept_use [OF assms] by simp
next
  case (2 u)
  then show ?thesis using nonce_kept_frame [OF nonces_user_handler] assms(1) by simp
next
  case (3 body pty)
  have "nonces (serve_step P tok st rq) = nonces st"
    using 3 by (auto simp: register_pty_credential_def revoke_pty_credential_def split: option.splits)
  then show ?thesis using nonce_kept_frame assms(1) by blast
qed (use assms(1) in simp)

lemma nonce_kept_run:
  "nonce_kept k seen st \<Longrightarrow> \<forall>rq \<in> set rqs. prune_now (h_clock rq) \<le> seen + NONCE_RETENTION \<Longrightarrow>
    nonce_kept k seen (foldl (serve_step P tok) st rqs)"
  by (induction rqs arbitrary: st) (auto intro: nonce_kept_step)

lemma kept_nonce_rejected:
  assumes "nonce_kept (use_pty_session_id body, use_nonce body) seen st"
    and "prune_now clk \<le> seen + NONCE_RETENTION"
  shows "\<exists>e. fst (use_secret P clk st body) = Inl e \<and> be_status e = UNAUTHORIZED"
proof -
  have "map_of (prune_nonces (prune_now clk) (nonces st))
      (use_pty_session_id body, use_nonce body) = Some seen"
    using assms by (intro map_of_prune) (auto simp: nonce_kept_def)
  then obtain e st1 where e: "verify_signed_use_request P clk st body = (Inl e, st1)"
    using verify_ok(2) by (cases "verify_signed_use_request P clk st body"; cases "fst (verify_signed_use_request P clk st body)") fastforce+
  with verify_err_status [OF e] show ?thesis by (simp add: use_secret_def)
qed

lemma stale_rejected:
  assumes "stale (use_timestamp body) (app_now clk)"
  shows "\<exists>e. fst (use_secret P clk st body) = Inl e \<and> be_status e = UNAUTHORIZED"
  using assms
  by (auto simp: use_secret_def verify_signed_use_request_def check_use_request_def
      broker_unauthorized_def)

lemma redeemed_nonce_kept:
  assumes "broker_inv st" and "use_secret P clk st body = (Inr env, st1)"
  shows "nonce_kept (use_pty_session_id body, use_nonce body) (nonce_now clk) st1
    \<and> \<not> stale (use_timestamp body) (app_now clk)"
proof -
  from use_secret_ok [OF assms(2)] obtain st0 where
    v: "verify_signed_use_request P clk st body = (Inr (), st0)"
    and st1: "nonces st1 = nonces st0" by force
  note vo = verify_ok [OF v]
  have "broker_inv st1" using inv_use [OF assms(1), of P clk body] assms(2) by simp
  then have "distinct (map fst (nonces st1))" by (simp add: broker_inv_def)
  moreover have "map_of (nonces st1) (use_pty_session_id body, use_nonce body) = Some (nonce_now clk)"
    using vo(2) by (simp add: st1 vo(3) map_add_def)
  ultimately show ?thesis
    using check_ok_signature [OF vo(1)] by (simp add: nonce_kept_def)
qed

text \<open>
  C3. A signed request is redeemed at most once. After a successful redemption, whatever
  requests are served in between, the same request (or any with its PTY, nonce and
  timestamp) is refused with 401, at any later time: while the nonce is remembered because it
  is, afterwards because the timestamp is stale. The database clock does not run backwards
  and is within 90 seconds of the application's, and that one reads less than 2^62 seconds.
\<close>

theorem redeemed_at_most_once:
  assumes "broker_inv st" and "use_secret P clk1 st body = (Inr env, st1)"
    and "use_pty_session_id body' = use_pty_session_id body" and "use_nonce body' = use_nonce body"
    and "use_timestamp body' = use_timestamp body"
    and "\<forall>rq \<in> set rqs. prune_now (h_clock rq) \<le> prune_now clk2"
    and "0 \<le> sint (app_now clk1)" "sint (app_now clk1) < 2 ^ 62"
    and "0 \<le> sint (app_now clk2)" "sint (app_now clk2) < 2 ^ 62"
    and "\<bar>nonce_now clk1 - 1000000 * sint (app_now clk1)\<bar> \<le> 90000000"
    and "\<bar>prune_now clk2 - 1000000 * sint (app_now clk2)\<bar> \<le> 90000000"
  shows "\<exists>e. fst (use_secret P clk2 (foldl (serve_step P tok) st1 rqs) body') = Inl e
           \<and> be_status e = UNAUTHORIZED"
proof (cases "stale (use_timestamp body') (app_now clk2)")
  case True
  then show ?thesis by (rule stale_rejected)
next
  case False
  note r = redeemed_nonce_kept [OF assms(1,2)]
  have "\<bar>sint (app_now clk2) - sint (app_now clk1)\<bar> \<le> 120"
    using False r assms(5,7-10) by (intro fresh_twice_close) auto
  then have p: "prune_now clk2 \<le> nonce_now clk1 + NONCE_RETENTION"
    using assms(11,12) by (simp add: NONCE_RETENTION_def)
  have "nonce_kept (use_pty_session_id body', use_nonce body') (nonce_now clk1)
      (foldl (serve_step P tok) st1 rqs)"
    using r assms(3,4,6) p by (intro nonce_kept_run) force+
  then show ?thesis using p by (rule kept_nonce_rejected)
qed

theorem redeemed_at_most_once_witness:
  "\<exists>e. fst (use_secret example_prims example_clock
      (foldl (serve_step example_prims ''tok'')
        (snd (use_secret example_prims example_clock example_db example_use)) [example_rq])
      example_use) = Inl e \<and> be_status e = UNAUTHORIZED"
proof -
  let ?u = "use_secret example_prims example_clock example_db example_use"
  have u: "?u = (Inr [(''K'', ''v'')], snd ?u)" using example_redeemed by (metis prod.collapse)
  show ?thesis
    by (rule redeemed_at_most_once [OF example_db_inv u])
       (simp_all add: example_rq_def example_clock_def)
qed

section \<open>Revoking\<close>

lemma grant_list_sel: "grants (st\<lparr>grants := gs\<rparr>) = gs"
  by simp

definition locked :: "uuid \<Rightarrow> string \<Rightarrow> string \<Rightarrow> broker_db \<Rightarrow> bool" where
  "locked pty sid tool st \<longleftrightarrow>
     (\<forall>g \<in> set (grants st). g_pty g = pty \<and> g_secret g = sid \<and> g_tool g = tool \<longrightarrow>
        g_revoked_at g \<noteq> None)"

fun unlocks :: "uuid \<Rightarrow> string \<Rightarrow> string \<Rightarrow> broker_route \<Rightarrow> bool" where
  "unlocks pty sid tool (UnlockGrant b) = (gr_pty b = pty \<and> gr_secret b = sid \<and> gr_tool b = tool)"
| "unlocks pty sid tool _ = False"

lemma locked_user_handler:
  "locked pty sid tool st \<Longrightarrow> \<not> unlocks pty sid tool route \<Longrightarrow>
    locked pty sid tool (snd (user_handler P rq u st route))"
  by (cases route)
     (auto simp: locked_def upsert_secret_def delete_secret_def unlock_grant_def revoke_grant_def
       split: sum.splits prod.splits)

lemma locked_use: "locked pty sid tool st \<Longrightarrow> locked pty sid tool (snd (use_secret P clk st body))"
  using use_secret_frame [of P clk st body] by (auto simp: locked_def)

lemma locked_frame: "grants st' = grants st \<Longrightarrow> locked pty sid tool st' = locked pty sid tool st"
  by (simp add: locked_def)

lemma locked_step:
  assumes "locked pty sid tool st" and "\<not> unlocks pty sid tool (h_route rq)"
  shows "locked pty sid tool (serve_step P tok st rq)"
proof (cases rule: serve_step_cases [of P tok st rq])
  case (4 body)
  then show ?thesis using locked_use [OF assms(1)] by simp
next
  case (2 u)
  then show ?thesis using locked_user_handler [OF assms] by simp
next
  case (3 body pty)
  have "grants (serve_step P tok st rq) = grants st"
    using 3 by (auto simp: register_pty_credential_def revoke_pty_credential_def split: option.splits)
  then show ?thesis using locked_frame assms(1) by blast
qed (use assms(1) in simp)

lemma locked_run:
  "locked pty sid tool st \<Longrightarrow> \<forall>rq \<in> set rqs. \<not> unlocks pty sid tool (h_route rq) \<Longrightarrow>
    locked pty sid tool (foldl (serve_step P tok) st rqs)"
  by (induction rqs arbitrary: st) (auto intro: locked_step)

lemma locked_refused:
  assumes "locked (use_pty_session_id body) sid (use_tool body) st" and "use_secret_id body = Some sid"
  shows "\<exists>e. fst (use_secret P clk st body) = Inl e"
proof (rule ccontr)
  assume "\<nexists>e. fst (use_secret P clk st body) = Inl e"
  then obtain env st' where "use_secret P clk st body = (Inr env, st')"
    by (cases "use_secret P clk st body"; cases "fst (use_secret P clk st body)") auto
  from use_secret_ok [OF this] obtain st1 where
    v: "verify_signed_use_request P clk st body = (Inr (), st1)"
    and ne: "unlocked_rows P (select_now clk) st1 body \<noteq> []" by blast
  have "grants st1 = grants st" by (simp add: verify_ok(3) [OF v])
  then have "filter (\<lambda>g. g_secret g = sid)
      (granted (select_now clk) st1 (use_pty_session_id body) (use_tool body)) = []"
    using assms(1) by (auto simp: granted_def locked_def grant_active_def filter_empty_conv)
  with ne assms(2) show False by (simp add: unlocked_rows_def)
qed

text \<open>
  After a grant is revoked, no redemption that names its secret succeeds for its PTY and
  tool, whatever other requests are served, until that same grant is unlocked again.
\<close>

theorem revoked_stays_locked:
  assumes "\<forall>rq \<in> set rqs. \<not> unlocks pty sid (use_tool body) (h_route rq)"
    and "use_pty_session_id body = pty" and "use_secret_id body = Some sid"
  shows "\<exists>e. fst (use_secret P clk (foldl (serve_step P tok)
           (snd (revoke_grant now st pty sid (use_tool body))) rqs) body) = Inl e"
proof -
  have "locked pty sid (use_tool body) (snd (revoke_grant now st pty sid (use_tool body)))"
    unfolding locked_def
  proof (rule ballI)
    fix g assume "g \<in> set (grants (snd (revoke_grant now st pty sid (use_tool body))))"
    then obtain g' where "g = (if g_pty g' = pty \<and> g_secret g' = sid \<and> g_tool g' = use_tool body
        \<and> g_revoked_at g' = None then g'\<lparr>g_revoked_at := Some now\<rparr> else g')"
      unfolding revoke_grant_def by (simp only: snd_conv grant_list_sel set_map) blast
    then show "g_pty g = pty \<and> g_secret g = sid \<and> g_tool g = use_tool body \<longrightarrow> g_revoked_at g \<noteq> None"
      by (simp split: if_splits)
  qed
  from locked_run [OF this assms(1)] show ?thesis
    using assms(2,3) by (intro locked_refused [where sid = sid]) simp_all
qed

theorem revoked_stays_locked_witness:
  "\<exists>e. fst (use_secret example_prims example_clock (foldl (serve_step example_prims ''tok'')
        (snd (revoke_grant 5 example_db 7 ''db'' (use_tool example_use))) [example_rq]) example_use)
      = Inl e"
  by (rule revoked_stays_locked) (simp_all add: example_rq_def example_use_def)

section \<open>Storing and reading back\<close>

lemma merge_submitted_Cons:
  "merge_submitted existing ((key, v) # rest) = Inr env \<Longrightarrow>
    \<exists>env'. merge_submitted existing rest = Inr env'
      \<and> env = (key, if v = [] then the (map_of (the existing) key) else v) # env'"
  by (cases existing) (auto simp: res_bind_eq_Inr split: if_splits option.splits)

lemma merge_submitted_ok:
  "merge_submitted existing xs = Inr env \<Longrightarrow> map fst env = map fst xs
    \<and> (\<forall>i < length xs. snd (env ! i) =
         (if snd (xs ! i) = [] then the (map_of (the existing) (fst (xs ! i))) else snd (xs ! i)))"
proof (induction xs arbitrary: env)
  case (Cons x xs)
  obtain key v where x: "x = (key, v)" by (cases x)
  from merge_submitted_Cons [OF Cons.prems [unfolded x]] obtain env' where
    m: "merge_submitted existing xs = Inr env'"
    and e: "env = (key, if v = [] then the (map_of (the existing) key) else v) # env'" by blast
  show ?case using Cons.IH [OF m] unfolding e x by (simp add: less_Suc_eq_0_disj)  auto
qed simp

text \<open>
  After a secret is stored, what the broker decrypts under its id has the submitted
  variables in the submitted order, each with the submitted value, or, where that was empty,
  with the value stored before; every other secret is untouched. Of the cipher this needs
  that it decrypts what it encrypted, of the JSON codec that it reads what it wrote.
\<close>

theorem upsert_then_load:
  assumes "\<And>iv p c. cipher_encrypt P iv p = Some c \<Longrightarrow> cipher_decrypt P iv c = Some p"
    and "\<And>env s. json_encode P env = Inr s \<Longrightarrow> json_decode P s = Inr env"
    and "length iv = 12"
    and "upsert_secret P iv now st sid body = (Inr r, st')"
  shows "\<exists>existing env. load_secret_env P st sid = Inr existing
    \<and> load_secret_env P st' sid = Inr (Some env)
    \<and> map fst env = map fst (e_env body)
    \<and> (\<forall>i < length env. snd (env ! i) =
         (if snd (e_env body ! i) = [] then the (map_of (the existing) (fst (e_env body ! i)))
          else snd (e_env body ! i)))
    \<and> (\<forall>sid'. sid' \<noteq> sid \<longrightarrow> load_secret_env P st' sid' = load_secret_env P st sid')"
proof -
  from upsert_ok [OF assms(4)] obtain existing env c where
    ex: "load_secret_env P st sid = Inr existing"
    and m: "merge_submitted existing (e_env body) = Inr env" and enc: "encrypt_env P iv env = Inr (c, iv)"
    and st': "st' = st\<lparr>secrets := AList.update sid
           \<lparr>s_description = e_description body, s_scope = e_scope body, s_repo = e_repo body,
            s_ciphertext = c, s_nonce = iv, s_updated_at = now\<rparr> (secrets st)\<rparr>" by metis
  from enc obtain s where s: "json_encode P env = Inr s" "cipher_encrypt P iv s = Some c"
    by (auto simp: encrypt_env_def split: sum.splits option.splits)
  then have "decrypt_env P c iv = Inr env"
    using assms(1-3) by (simp add: decrypt_env_def)
  then have l: "load_secret_env P st' sid = Inr (Some env)"
    by (simp add: load_secret_env_def st' row_env_def update_conv')
  have o: "load_secret_env P st' sid' = load_secret_env P st sid'" if "sid' \<noteq> sid" for sid'
    using that by (simp add: load_secret_env_def st' update_conv')
  note mm = merge_submitted_ok [OF m]
  then have "length env = length (e_env body)" by (metis length_map)
  then show ?thesis using ex l o mm by metis
qed

definition example_envelope :: secret_envelope where
  "example_envelope = \<lparr>e_description = [], e_scope = [], e_repo = None,
     e_env = [(''K'', []), (''N'', ''new'')]\<rparr>"

lemma example_load: "load_secret_env example_prims example_db ''db'' = Inr (Some [(''K'', ''v'')])"
  using example_row_env by (simp add: load_secret_env_def example_db_def)

theorem upsert_then_load_witness:
  "\<exists>st' env. upsert_secret example_prims example_iv 5 example_db ''db'' example_envelope
      = (Inr NO_CONTENT, st')
    \<and> load_secret_env example_prims st' ''db'' = Inr (Some env) \<and> snd (env ! 0) = ''v''"
proof -
  let ?u = "upsert_secret example_prims example_iv 5 example_db ''db'' example_envelope"
  have v: "validate_secret_id ''db'' = Inr ()" and ne: "e_env example_envelope \<noteq> []"
    by (simp_all add: validate_secret_id_def secret_id_char_def ascii_alnum_def ascii_lower_def
        example_envelope_def)
  have m: "merge_submitted (Some [(''K'', ''v'')]) (e_env example_envelope)
      = Inr [(''K'', ''v''), (''N'', ''new'')]"
    by (simp add: example_envelope_def)
  have e: "encrypt_env example_prims example_iv env = Inr (example_encode env, example_iv)" for env
    by (simp add: encrypt_env_def example_prims_def)
  have u: "?u = (Inr NO_CONTENT, snd ?u)"
    unfolding upsert_secret_def v example_load using m ne e by simp
  have p: "cipher_encrypt example_prims i t = Some c \<Longrightarrow> cipher_decrypt example_prims i c = Some t"
    "json_encode example_prims en = Inr t \<Longrightarrow> json_decode example_prims t = Inr en" for i t c en
    using example_codec by (auto simp: example_prims_def)
  have l: "length example_iv = 12" by (simp add: example_iv_def)
  from upsert_then_load [of example_prims, OF p l u] example_load obtain env where
    ld: "load_secret_env example_prims (snd ?u) ''db'' = Inr (Some env)"
    and f: "map fst env = map fst (e_env example_envelope)"
    and sn: "\<forall>i < length env. snd (env ! i) = (if snd (e_env example_envelope ! i) = []
       then the (map_of (the (Some [(''K'', ''v'')])) (fst (e_env example_envelope ! i)))
       else snd (e_env example_envelope ! i))" by (metis sum.inject(2))
  have "length env = length (e_env example_envelope)" using f by (metis length_map)
  then have "0 < length env" by (simp add: example_envelope_def)
  with sn have "snd (env ! 0) = ''v''" by (auto simp: example_envelope_def)
  with u ld show ?thesis by blast
qed

section \<open>What leaves the broker, and for whom\<close>

lemma user_handler_reply:
  "fst (user_handler P rq u st route) = ReplySecret e \<Longrightarrow> \<forall>kv \<in> set (e_env e). snd kv = []"
  by (cases route)
     (auto simp: reply_of_def get_secret_def res_bind_def split: sum.splits option.splits if_splits)

lemma user_handler_no_env: "fst (user_handler P rq u st route) \<noteq> ReplyEnv env"
  by (cases route) (auto simp: reply_of_def split: sum.splits)

lemma serve_reply_cases:
  obtains (refused) "fst (serve P tok st rq) = unauthorized_reply"
  | (user) u where "fst (serve P tok st rq) = fst (user_handler P rq u st (h_route rq))"
  | (credential) r where "fst (serve P tok st rq) = reply_of ReplyStatus r"
  | (redeem) body where "h_route rq = UseSecret body"
      and "fst (serve P tok st rq) = reply_of ReplyEnv (fst (use_secret P (h_clock rq) st body))"
proof (cases "route_layer (h_route rq)")
  case UserAuth
  let ?t = "bearer_from_request (h_authorization rq) (h_access_token rq)"
  show thesis
  proof (cases "\<exists>t u. ?t = Some t \<and> validate_bearer P t = Some u")
    case True
    then obtain t u where "?t = Some t" "validate_bearer P t = Some u" by blast
    then show thesis using UserAuth by (intro user [of u]) (simp add: serve_def)
  next
    case False
    then show thesis using UserAuth
      by (intro refused) (auto simp: serve_def split: option.split)
  qed
next
  case RegistrationAuth
  then show thesis
    by (cases "h_route rq"; cases "bearer_from_request (h_authorization rq) (h_access_token rq) = Some tok")
       (auto simp: serve_def intro: refused credential)
next
  case NoAuth
  then show thesis by (cases "h_route rq") (auto simp: serve_def intro: redeem)
qed

text \<open>
  The values of a secret leave the broker by a redemption only: a reply with an
  environment answers a redemption request and is its result, and a secret read on a user
  route comes with every value blank.
\<close>

theorem values_only_by_redemption:
  "(\<forall>env. fst (serve P tok st rq) = ReplyEnv env \<longrightarrow>
      (\<exists>body. h_route rq = UseSecret body \<and> fst (use_secret P (h_clock rq) st body) = Inr env))
   \<and> (\<forall>e. fst (serve P tok st rq) = ReplySecret e \<longrightarrow> (\<forall>kv \<in> set (e_env e). snd kv = []))"
  by (cases rule: serve_reply_cases [of P tok st rq])
     (auto simp: unauthorized_reply_def user_handler_no_env reply_of_def
       dest!: user_handler_reply split: sum.splits)

theorem values_only_by_redemption_witness:
  "fst (serve example_prims ''tok'' example_db example_rq) = ReplyEnv [(''K'', ''v'')]
   \<and> (\<exists>body. h_route example_rq = UseSecret body
        \<and> fst (use_secret example_prims (h_clock example_rq) example_db body) = Inr [(''K'', ''v'')])"
proof -
  have "fst (serve example_prims ''tok'' example_db example_rq) = ReplyEnv [(''K'', ''v'')]"
    using example_redeemed by (simp add: serve_def example_rq_def reply_of_def)
  then show ?thesis
    using values_only_by_redemption [of example_prims "''tok''" example_db example_rq] by blast
qed

text \<open>
  A user route with no token the authority accepts, and a credential route without
  exactly the registration token (always, when that token is blank), are answered with 401
  and leave the tables as they were.
\<close>

theorem unauthenticated_changes_nothing:
  assumes "route_layer (h_route rq) = UserAuth
      \<and> (\<forall>t. bearer_from_request (h_authorization rq) (h_access_token rq) = Some t \<longrightarrow>
           validate_bearer P t = None)
    \<or> route_layer (h_route rq) = RegistrationAuth
      \<and> (bearer_from_request (h_authorization rq) (h_access_token rq) \<noteq> Some tok \<or> blank tok)"
  shows "serve P tok st rq = (unauthorized_reply, st)"
proof -
  have nb: "bearer_from_request a b = Some t \<Longrightarrow> \<not> blank t" for a b t
    by (auto simp: bearer_from_request_def or_else_def opt_filter_eq_Some split: option.splits)
  from assms show ?thesis
    using nb by (auto simp: serve_def Let_def split: option.splits)
qed

theorem unauthenticated_changes_nothing_witness:
  "serve example_prims ''tok'' example_db (example_rq\<lparr>h_route := DeleteSecret ''db''\<rparr>)
    = (unauthorized_reply, example_db)"
  by (rule unauthenticated_changes_nothing) (simp add: example_rq_def bearer_from_request_def)

end
