(* ===== verification/Json.thy ===== *)
theory Json
  imports Rust_String
begin

text \<open>
  JSON values as \<open>serde_json::Value\<close> has them. An object is a \<open>BTreeMap\<close>, here its
  association list in strictly increasing key order; a number is kept as its printed text,
  which is all the program uses of it. The printer and the parser are parameters.
\<close>

section \<open>Values\<close>

datatype json =
  JNull
| JBool bool
| JNum string
| JStr string
| JArr "json list"
| JObj "(string \<times> json) list"

type_synonym json_map = "(string \<times> json) list"

record json_lib =
  js_print :: "json \<Rightarrow> string"
  js_pretty :: "json \<Rightarrow> string"
  js_parse :: "string \<Rightarrow> json option"

fun jget :: "json \<Rightarrow> string \<Rightarrow> json option" where
  "jget (JObj m) k = map_of m k"
| "jget _ k = None"

fun as_str :: "json \<Rightarrow> string option" where
  "as_str (JStr s) = Some s"
| "as_str _ = None"

fun as_bool :: "json \<Rightarrow> bool option" where
  "as_bool (JBool b) = Some b"
| "as_bool _ = None"

fun as_array :: "json \<Rightarrow> json list option" where
  "as_array (JArr vs) = Some vs"
| "as_array _ = None"

fun as_object :: "json \<Rightarrow> json_map option" where
  "as_object (JObj m) = Some m"
| "as_object _ = None"

definition get_str :: "json \<Rightarrow> string \<Rightarrow> string option" where
  "get_str v k = Option.bind (jget v k) as_str"

definition get_bool :: "json \<Rightarrow> string \<Rightarrow> bool option" where
  "get_bool v k = Option.bind (jget v k) as_bool"

definition map_str :: "json_map \<Rightarrow> string \<Rightarrow> string option" where
  "map_str m k = Option.bind (map_of m k) as_str"

lemmas json_access = get_str_def get_bool_def map_str_def

section \<open>Objects\<close>

fun obj_insert :: "string \<Rightarrow> json \<Rightarrow> json_map \<Rightarrow> json_map" where
  "obj_insert k v [] = [(k, v)]"
| "obj_insert k v ((k', v') # m) =
     (if k = k' then (k, v) # m
      else if k < k' then (k, v) # (k', v') # m
      else (k', v') # obj_insert k v m)"

definition obj_sorted :: "json_map \<Rightarrow> bool" where
  "obj_sorted m \<longleftrightarrow> sorted_wrt (<) (map fst m)"

lemma map_of_obj_insert: "map_of (obj_insert k v m) = (map_of m)(k \<mapsto> v)"
  by (induction k v m rule: obj_insert.induct) (auto simp: fun_eq_iff)

lemma fst_obj_insert: "fst ` set (obj_insert k v m) = insert k (fst ` set m)"
  by (induction k v m rule: obj_insert.induct) auto

lemma obj_sorted_insert: "obj_sorted m \<Longrightarrow> obj_sorted (obj_insert k v m)"
proof (induction k v m rule: obj_insert.induct)
  case (2 k v k' v' m)
  have "fst ` set (obj_insert k v m) = insert k (fst ` set m)" by (rule fst_obj_insert)
  with 2 show ?case by (fastforce simp: obj_sorted_def)
qed (simp add: obj_sorted_def)

lemma set_obj_insert: "kv \<in> set (obj_insert k v m) \<Longrightarrow> kv = (k, v) \<or> kv \<in> set m"
  by (induction k v m rule: obj_insert.induct) (auto split: if_splits)

text \<open>Every object inside a value has its keys in order, hence no key twice.\<close>

lemma json_size_arr: "v \<in> set vs \<Longrightarrow> size v < Suc (size_list size vs)"
  by (induction vs) auto

lemma json_size_obj:
  "(k, v) \<in> set m \<Longrightarrow> size v < Suc (size_list (size_prod (\<lambda>_. 0) size) m)"
  by (induction m) auto

function json_wf :: "json \<Rightarrow> bool" where
  "json_wf JNull = True"
| "json_wf (JBool b) = True"
| "json_wf (JNum n) = True"
| "json_wf (JStr s) = True"
| "json_wf (JArr vs) = (\<forall>v \<in> set vs. json_wf v)"
| "json_wf (JObj m) = (obj_sorted m \<and> (\<forall>kv \<in> set m. json_wf (snd kv)))"
  by pat_completeness auto
termination
proof (relation "measure size", goal_cases)
  case (3 m kv)
  then show ?case using json_size_obj [of "fst kv" "snd kv" m] by simp
qed (use json_size_arr in auto)

end
