(* ===== verification/Canonical_Types.thy ===== *)
theory Canonical_Types
  imports Json
begin

text \<open>
  The canonical event model (\<^verbatim>\<open>backend/src/ingest/canonical/types.rs\<close>): the enumerations
  with their stored names, blocks and events, the search text and the content kind of a
  list of blocks, and the contract of a transcript parser.
\<close>

section \<open>Enumerations\<close>

datatype speaker = User | Assistant | System | Summary | SpeakerOther

fun speaker_str :: "speaker \<Rightarrow> string" where
  "speaker_str User = ''user''"
| "speaker_str Assistant = ''assistant''"
| "speaker_str System = ''system''"
| "speaker_str Summary = ''summary''"
| "speaker_str SpeakerOther = ''other''"

datatype content_kind = CNone | CText | CThinking | CToolUse | CToolResult | CMixed

fun content_kind_str :: "content_kind \<Rightarrow> string" where
  "content_kind_str CNone = ''none''"
| "content_kind_str CText = ''text''"
| "content_kind_str CThinking = ''thinking''"
| "content_kind_str CToolUse = ''tool_use''"
| "content_kind_str CToolResult = ''tool_result''"
| "content_kind_str CMixed = ''mixed''"

datatype block_kind = BText | BThinking | BToolUse | BToolResult | BUnknown

fun block_kind_str :: "block_kind \<Rightarrow> string" where
  "block_kind_str BText = ''text''"
| "block_kind_str BThinking = ''thinking''"
| "block_kind_str BToolUse = ''tool_use''"
| "block_kind_str BToolResult = ''tool_result''"
| "block_kind_str BUnknown = ''unknown''"

datatype operation_category =
  CreateContent | InspectOp | Utility | Research | Delegate | Workflow | OtherOp

fun category_str :: "operation_category \<Rightarrow> string" where
  "category_str CreateContent = ''create_content''"
| "category_str InspectOp = ''inspect''"
| "category_str Utility = ''utility''"
| "category_str Research = ''research''"
| "category_str Delegate = ''delegate''"
| "category_str Workflow = ''workflow''"
| "category_str OtherOp = ''other''"

definition category_parse :: "string \<Rightarrow> operation_category option" where
  "category_parse raw =
     (if raw = ''create_content'' then Some CreateContent
      else if raw = ''inspect'' then Some InspectOp
      else if raw = ''utility'' then Some Utility
      else if raw = ''research'' then Some Research
      else if raw = ''delegate'' then Some Delegate
      else if raw = ''workflow'' then Some Workflow
      else if raw = ''other'' then Some OtherOp
      else None)"

lemma category_parse_str: "category_parse raw = Some c \<longleftrightarrow> raw = category_str c"
  by (cases c) (auto simp: category_parse_def)

text \<open>The name orders the categories, as the code sorts them.\<close>

instantiation operation_category :: linorder
begin

definition less_eq_operation_category :: "operation_category \<Rightarrow> operation_category \<Rightarrow> bool" where
  "less_eq_operation_category a b \<longleftrightarrow> category_str a \<le> category_str b"

definition less_operation_category :: "operation_category \<Rightarrow> operation_category \<Rightarrow> bool" where
  "less_operation_category a b \<longleftrightarrow> category_str a < category_str b"

lemma category_str_inj: "category_str a = category_str b \<Longrightarrow> a = b"
  using category_parse_str [of "category_str a" b] category_parse_str [of "category_str a" a] by auto

instance
  by standard
     (auto simp: less_eq_operation_category_def less_operation_category_def intro: category_str_inj)

end

section \<open>Blocks\<close>

record block =
  b_ord :: int
  b_kind :: block_kind
  b_text :: "string option"
  b_tool_id :: "string option"
  b_tool_name :: "string option"
  b_tool_name_canonical :: "string option"
  b_operation_type :: "string option"
  b_operation_category :: "operation_category option"
  b_tool_input :: "json option"
  b_tool_output :: "json option"
  b_is_error :: "bool option"
  b_raw :: "json option"

definition blank_block :: "int \<Rightarrow> block_kind \<Rightarrow> block" where
  "blank_block ord kind =
     \<lparr>b_ord = ord, b_kind = kind, b_text = None, b_tool_id = None, b_tool_name = None,
      b_tool_name_canonical = None, b_operation_type = None, b_operation_category = None,
      b_tool_input = None, b_tool_output = None, b_is_error = None, b_raw = None\<rparr>"

definition block_text :: "int \<Rightarrow> string \<Rightarrow> block" where
  "block_text ord text = (blank_block ord BText)\<lparr>b_text := Some text\<rparr>"

definition block_thinking :: "int \<Rightarrow> string \<Rightarrow> block" where
  "block_thinking ord text = (blank_block ord BThinking)\<lparr>b_text := Some text\<rparr>"

definition block_tool_result ::
    "int \<Rightarrow> string \<Rightarrow> string option \<Rightarrow> bool \<Rightarrow> json option \<Rightarrow> block" where
  "block_tool_result ord tool_id text is_error tool_output =
     (blank_block ord BToolResult)\<lparr>b_text := text, b_tool_id := Some tool_id,
        b_tool_output := tool_output, b_is_error := Some is_error\<rparr>"

definition block_unknown :: "int \<Rightarrow> json \<Rightarrow> block" where
  "block_unknown ord raw = (blank_block ord BUnknown)\<lparr>b_raw := Some raw\<rparr>"

section \<open>Events\<close>

record canonical_event =
  ce_agent :: string
  ce_speaker :: speaker
  ce_content_kind :: content_kind
  ce_event_uuid :: "string option"
  ce_parent_event_uuid :: "string option"
  ce_related_tool_use_id :: "string option"
  ce_is_sidechain :: bool
  ce_is_meta :: bool
  ce_subtype :: "string option"
  ce_blocks :: "block list"

definition ce_empty :: "string \<Rightarrow> speaker \<Rightarrow> canonical_event" where
  "ce_empty agent speaker =
     \<lparr>ce_agent = agent, ce_speaker = speaker, ce_content_kind = CNone, ce_event_uuid = None,
      ce_parent_event_uuid = None, ce_related_tool_use_id = None, ce_is_sidechain = False,
      ce_is_meta = False, ce_subtype = None, ce_blocks = []\<rparr>"

definition content_kind_of :: "block list \<Rightarrow> content_kind" where
  "content_kind_of blocks =
     (let has = (\<lambda>k. k \<in> b_kind ` set blocks);
          count = length (filter has [BText, BThinking, BToolUse, BToolResult])
      in if blocks = [] \<or> count = 0 then CNone
         else if count = 1 \<and> has BText then CText
         else if count = 1 \<and> has BThinking then CThinking
         else if count = 1 \<and> has BToolUse then CToolUse
         else if count = 1 \<and> has BToolResult then CToolResult
         else CMixed)"

definition printed_part :: "json_lib \<Rightarrow> json option \<Rightarrow> string list" where
  "printed_part J v =
     (case v of None \<Rightarrow> []
      | Some x \<Rightarrow>
          let serialized = js_print J x
          in if serialized \<noteq> ''null'' \<and> \<not> blank serialized then [serialized] else [])"

definition nonblank_part :: "string option \<Rightarrow> string list" where
  "nonblank_part t = (case t of None \<Rightarrow> [] | Some s \<Rightarrow> if blank s then [] else [s])"

definition block_search_parts :: "json_lib \<Rightarrow> block \<Rightarrow> string list" where
  "block_search_parts J b =
     (case b_kind b of
        BToolUse \<Rightarrow>
          (case b_tool_name_canonical b of None \<Rightarrow> [] | Some n \<Rightarrow> [n])
          @ nonblank_part (b_tool_name b) @ printed_part J (b_tool_input b)
      | BUnknown \<Rightarrow>
          (case b_raw b of None \<Rightarrow> []
           | Some raw \<Rightarrow> if blank (js_print J raw) then [] else [js_print J raw])
      | _ \<Rightarrow> nonblank_part (b_text b) @ printed_part J (b_tool_output b))"

definition search_text :: "json_lib \<Rightarrow> canonical_event \<Rightarrow> string" where
  "search_text J e =
     join [CHR 0x0A]
       (speaker_str (ce_speaker e) # nonblank_part (ce_subtype e)
        @ concat (map (block_search_parts J) (ce_blocks e)))"

section \<open>The contract of a parser\<close>

text \<open>
  \<open>EventParser\<close>: a parser stamps its agent, derives the content kind from the blocks it
  emits, and numbers the blocks by their position.
\<close>

definition blocks_numbered :: "block list \<Rightarrow> bool" where
  "blocks_numbered bs \<longleftrightarrow> map b_ord bs = map as_i32 [0..<length bs]"

locale event_parser =
  fixes agent_id :: string and parse :: "json \<Rightarrow> canonical_event"
  assumes parse_agent: "ce_agent (parse v) = agent_id"
    and parse_content_kind: "ce_content_kind (parse v) = content_kind_of (ce_blocks (parse v))"
    and parse_numbered: "blocks_numbered (ce_blocks (parse v))"
begin

lemma block_ord_nth: "i < length (ce_blocks (parse v)) \<Longrightarrow> b_ord (ce_blocks (parse v) ! i) = as_i32 i"
  using parse_numbered [of v] unfolding blocks_numbered_def
  by (metis (no_types, lifting) add_0 length_map length_upt minus_nat.diff_0 nth_map nth_upt)

lemma block_ords_distinct:
  "length (ce_blocks (parse v)) \<le> 2 ^ 31 \<Longrightarrow> distinct (map b_ord (ce_blocks (parse v)))"
proof -
  assume l: "length (ce_blocks (parse v)) \<le> 2 ^ 31"
  have "map as_i32 [0..<length (ce_blocks (parse v))] = map int [0..<length (ce_blocks (parse v))]"
    using l by (auto simp: as_i32_small)
  then show ?thesis
    using parse_numbered [of v] unfolding blocks_numbered_def by (simp add: distinct_map inj_on_def)
qed

lemma no_blocks_none: "ce_blocks (parse v) = [] \<Longrightarrow> ce_content_kind (parse v) = CNone"
  by (simp add: parse_content_kind content_kind_of_def)

end

end
