(* ===== verification/Canonical_Tools.thy ===== *)
theory Canonical_Tools
  imports Canonical_Types
begin

text \<open>
  Tool names, inputs and results in agent-agnostic form
  (\<^verbatim>\<open>backend/src/ingest/canonical/tools.rs\<close>): the name table with its snake-case fallback, the
  rewriting of inputs, the parser of Codex patches, the renaming of result keys.
\<close>

section \<open>Names\<close>

fun snake_from :: "bool \<Rightarrow> string \<Rightarrow> string" where
  "snake_from prev_lower [] = []"
| "snake_from prev_lower (c # cs) =
     (if ascii_upper c then
        (if prev_lower then ''_'' else []) @ to_lower_ascii c # snake_from False cs
      else if c = CHR ''-'' \<or> c = CHR '' '' then CHR ''_'' # snake_from False cs
      else c # snake_from (ascii_lower c \<or> ascii_digit c) cs)"

definition to_snake_case :: "string \<Rightarrow> string" where
  "to_snake_case s = snake_from False s"

definition tool_name_table :: "(string \<times> string) list" where
  "tool_name_table =
     [(''Read'', ''read''), (''read_file'', ''read''),
      (''Write'', ''write''), (''write_file'', ''write''),
      (''Edit'', ''edit''), (''apply_diff'', ''edit''),
      (''MultiEdit'', ''multi_edit''),
      (''Bash'', ''bash''), (''shell'', ''bash''), (''execute_shell'', ''bash''),
      (''Grep'', ''grep''), (''grep_search'', ''grep''),
      (''Glob'', ''glob''), (''glob_files'', ''glob''),
      (''Task'', ''task''), (''spawn_agent'', ''task''),
      (''TodoWrite'', ''todo_write''), (''todo_update'', ''todo_write''),
      (''WebFetch'', ''web_fetch''), (''fetch_url'', ''web_fetch''),
      (''WebSearch'', ''web_search''), (''web_search_query'', ''web_search''),
      (''NotebookEdit'', ''notebook_edit''),
      (''BashOutput'', ''bash_output''),
      (''KillShell'', ''kill_shell''), (''killShell'', ''kill_shell''),
      (''ExitPlanMode'', ''exit_plan_mode''), (''exitPlanMode'', ''exit_plan_mode'')]"

definition canonicalize_tool_name :: "string \<Rightarrow> string" where
  "canonicalize_tool_name raw =
     (case map_of tool_name_table raw of Some name \<Rightarrow> name | None \<Rightarrow> to_snake_case raw)"

section \<open>Patches\<close>

record file_edit_buf =
  fe_path :: string
  fe_operation :: string
  fe_old_path :: "string option"
  fe_diff :: string

definition fe_new :: "string \<Rightarrow> string \<Rightarrow> string option \<Rightarrow> file_edit_buf" where
  "fe_new path operation old_path =
     \<lparr>fe_path = path, fe_operation = operation, fe_old_path = old_path, fe_diff = []\<rparr>"

definition trim_newlines_end :: "string \<Rightarrow> string" where
  "trim_newlines_end s = rev (dropWhile (\<lambda>c. c = CHR 0x0A) (rev s))"

definition fe_into_value :: "file_edit_buf \<Rightarrow> json" where
  "fe_into_value b =
     JObj (obj_insert ''diff'' (JStr (trim_newlines_end (fe_diff b)))
       ((case fe_old_path b of None \<Rightarrow> id | Some p \<Rightarrow> obj_insert ''old_path'' (JStr p))
         (obj_insert ''operation'' (JStr (fe_operation b))
           (obj_insert ''path'' (JStr (fe_path b)) []))))"

definition split_move :: "string \<Rightarrow> (string \<times> string) option" where
  "split_move rest =
     (case find_sub rest '' to '' of
        None \<Rightarrow> None
      | Some idx \<Rightarrow>
          let from = trim (take idx rest); to = trim (drop (idx + 4) rest)
          in if from = [] \<or> to = [] then None else Some (from, to))"

text \<open>The buffer a header line opens; other headers open none.\<close>

definition patch_header :: "string \<Rightarrow> file_edit_buf option" where
  "patch_header header =
     (if header = ''Begin Patch'' \<or> header = ''End Patch'' then None
      else case strip_prefix header ''Update File: '' of
        Some path \<Rightarrow> Some (fe_new (trim path) ''update'' None)
      | None \<Rightarrow>
     (case strip_prefix header ''Add File: '' of
        Some path \<Rightarrow> Some (fe_new (trim path) ''add'' None)
      | None \<Rightarrow>
     (case strip_prefix header ''Delete File: '' of
        Some path \<Rightarrow> Some (fe_new (trim path) ''delete'' None)
      | None \<Rightarrow>
     (case strip_prefix header ''Move File: '' of
        Some rest \<Rightarrow>
          (case (case split_move rest of Some ft \<Rightarrow> ft | None \<Rightarrow> (trim rest, trim rest)) of
             (from, to) \<Rightarrow> Some (fe_new to ''move'' (Some from)))
      | None \<Rightarrow> None))))"

text \<open>The loop over the lines; \<open>current\<close> is the open buffer.\<close>

fun patch_entries :: "file_edit_buf option \<Rightarrow> string list \<Rightarrow> file_edit_buf list" where
  "patch_entries current [] = (case current of None \<Rightarrow> [] | Some b \<Rightarrow> [b])"
| "patch_entries current (line # rest) =
     (case strip_prefix line ''*** '' of
        Some header \<Rightarrow>
          (case current of None \<Rightarrow> [] | Some b \<Rightarrow> [b]) @ patch_entries (patch_header header) rest
      | None \<Rightarrow>
          patch_entries
            (map_option (\<lambda>b. b\<lparr>fe_diff := fe_diff b @ line @ [CHR 0x0A]\<rparr>) current) rest)"

definition parse_apply_patch :: "string \<Rightarrow> json" where
  "parse_apply_patch raw =
     JObj [(''file_edits'', JArr (map fe_into_value (patch_entries None (lines raw))))]"

section \<open>Inputs\<close>

definition copy_first :: "json_map \<Rightarrow> json_map \<Rightarrow> string \<Rightarrow> string list \<Rightarrow> json_map" where
  "copy_first src dst target candidates =
     (case find (\<lambda>k. map_of src k \<noteq> None) candidates of
        None \<Rightarrow> dst
      | Some k \<Rightarrow> obj_insert target (the (map_of src k)) dst)"

definition copy_key :: "json_map \<Rightarrow> json_map \<Rightarrow> string \<Rightarrow> json_map" where
  "copy_key src dst key = (case map_of src key of None \<Rightarrow> dst | Some v \<Rightarrow> obj_insert key v dst)"

text \<open>One entry of \<open>file_edits\<close>, from the fields of an edit and the path it applies to.\<close>

definition edit_entry :: "json \<Rightarrow> json_map \<Rightarrow> json" where
  "edit_entry path obj =
     (let old_text = unwrap_or (JStr []) (or_else (map_of obj ''old_text'') (map_of obj ''old_string''));
          new_text = unwrap_or (JStr []) (or_else (map_of obj ''new_text'') (map_of obj ''new_string''));
          in_out = obj_insert ''new_text'' new_text (obj_insert ''old_text'' old_text []);
          entry = obj_insert ''in_out'' (JObj in_out)
                    (obj_insert ''operation'' (JStr ''update'') (obj_insert ''path'' path []))
      in JObj (case map_of obj ''replace_all'' of
           None \<Rightarrow> entry | Some v \<Rightarrow> obj_insert ''replace_all'' v entry))"

definition edit_path :: "json_map \<Rightarrow> json" where
  "edit_path obj = unwrap_or JNull (or_else (map_of obj ''path'') (map_of obj ''file_path''))"

definition multi_edit_to_file_edit :: "json \<Rightarrow> json \<Rightarrow> json" where
  "multi_edit_to_file_edit path edit =
     (case edit of JObj obj \<Rightarrow> edit_entry path obj | _ \<Rightarrow> JNull)"

definition canonicalize_object :: "string \<Rightarrow> json_map \<Rightarrow> json_map" where
  "canonicalize_object name obj =
     (if name = ''read'' then
        copy_key obj (copy_key obj (copy_first obj [] ''path'' [''path'', ''file_path'']) ''offset'') ''limit''
      else if name = ''write'' then
        copy_key obj (copy_first obj [] ''path'' [''path'', ''file_path'']) ''content''
      else if name = ''edit'' then [(''file_edits'', JArr [edit_entry (edit_path obj) obj])]
      else if name = ''multi_edit'' then
        [(''file_edits'', JArr (case map_of obj ''edits'' of
           Some (JArr edits) \<Rightarrow> map (multi_edit_to_file_edit (edit_path obj)) edits
         | _ \<Rightarrow> []))]
      else if name = ''bash'' then copy_key obj (copy_key obj [] ''command'') ''description''
      else if name = ''grep'' then
        copy_first obj (copy_first obj (copy_key obj [] ''pattern'') ''path'' [''path'', ''glob''])
          ''mode'' [''mode'', ''output_mode'']
      else if name = ''glob'' then copy_key obj (copy_key obj [] ''pattern'') ''path''
      else if name = ''task'' then
        copy_key obj (copy_key obj (copy_first obj [] ''agent'' [''agent'', ''subagent_type''])
          ''description'') ''prompt''
      else if name = ''todo_write'' then copy_key obj [] ''todos''
      else if name = ''web_fetch'' then copy_key obj (copy_key obj [] ''url'') ''prompt''
      else if name = ''web_search'' then copy_key obj (copy_key obj [] ''query'') ''prompt''
      else obj)"

definition canonicalize_tool_input :: "string \<Rightarrow> json \<Rightarrow> json" where
  "canonicalize_tool_input name input =
     (case input of
        JStr raw \<Rightarrow> if name = ''apply_patch'' then parse_apply_patch raw else input
      | JObj obj \<Rightarrow> JObj (canonicalize_object name obj)
      | _ \<Rightarrow> input)"

definition block_tool_use :: "int \<Rightarrow> string \<Rightarrow> string \<Rightarrow> json \<Rightarrow> block" where
  "block_tool_use ord tool_id name input =
     (blank_block ord BToolUse)\<lparr>b_tool_id := Some tool_id, b_tool_name := Some name,
        b_tool_name_canonical := Some (canonicalize_tool_name name),
        b_tool_input := Some (canonicalize_tool_input (canonicalize_tool_name name) input)\<rparr>"

section \<open>Results\<close>

definition normalize_result_key :: "string \<Rightarrow> string" where
  "normalize_result_key raw =
     (if raw \<in> {''filePath'', ''file_path''} then ''path''
      else if raw \<in> {''oldString'', ''old_string''} then ''old_text''
      else if raw \<in> {''newString'', ''new_string''} then ''new_text''
      else if raw \<in> {''replaceAll'', ''replace_all''} then ''replace_all''
      else if raw \<in> {''originalFile'', ''original_file''} then ''original_file''
      else if raw \<in> {''structuredPatch'', ''structured_patch''} then ''structured_patch''
      else if raw \<in> {''userModified'', ''user_modified''} then ''user_modified''
      else to_snake_case raw)"

function normalize_result_value :: "json \<Rightarrow> json" where
  "normalize_result_value JNull = JNull"
| "normalize_result_value (JBool b) = JBool b"
| "normalize_result_value (JNum n) = JNum n"
| "normalize_result_value (JStr s) = JStr s"
| "normalize_result_value (JArr vs) = JArr (map normalize_result_value vs)"
| "normalize_result_value (JObj m) =
     JObj (foldl (\<lambda>out kv. obj_insert (fst kv) (snd kv) out) []
       (map (\<lambda>kv. (normalize_result_key (fst kv), normalize_result_value (snd kv))) m))"
  by pat_completeness auto
termination
proof (relation "measure size", goal_cases)
  case (3 m kv)
  then show ?case using json_size_obj [of "fst kv" "snd kv" m] by simp
qed (use json_size_arr in auto)

end
