(* ===== verification/Canonical_Parsers.thy ===== *)
theory Canonical_Parsers
  imports Canonical_Tools
begin

text \<open>
  The two transcript parsers (\<^verbatim>\<open>backend/src/ingest/canonical/claude.rs\<close> and
  \<^verbatim>\<open>codex.rs\<close>), as interpretations of the parser contract.
\<close>

section \<open>Claude\<close>

definition string_field :: "json \<Rightarrow> string list \<Rightarrow> string option" where
  "string_field v keys = Option.bind (find (\<lambda>k. get_str v k \<noteq> None) keys) (get_str v)"

definition bool_field :: "json \<Rightarrow> string list \<Rightarrow> bool option" where
  "bool_field v keys = Option.bind (find (\<lambda>k. get_bool v k \<noteq> None) keys) (get_bool v)"

text \<open>Flattening the content of a tool result: texts of the parts, one per line.\<close>

fun join_parts :: "string \<Rightarrow> json list \<Rightarrow> string" where
  "join_parts buf [] = buf"
| "join_parts buf (p # ps) =
     (case get_str p ''text'' of
        None \<Rightarrow> join_parts buf ps
      | Some s \<Rightarrow> join_parts ((if buf = [] then buf else buf @ [CHR 0x0A]) @ s) ps)"

definition result_text :: "json_lib \<Rightarrow> json option \<Rightarrow> string option" where
  "result_text J content =
     (case content of
        None \<Rightarrow> None
      | Some (JStr s) \<Rightarrow> Some s
      | Some (JArr parts) \<Rightarrow> (let buf = join_parts [] parts in if buf = [] then None else Some buf)
      | Some other \<Rightarrow> Some (js_print J other))"

text \<open>
  One element of a content array. \<open>payload\<close> is the tool-result payload still to be attached;
  the second component is what remains of it.
\<close>

definition parse_block :: "json_lib \<Rightarrow> int \<Rightarrow> json option \<Rightarrow> json \<Rightarrow> block \<times> json option" where
  "parse_block J ord payload raw =
     (case get_str raw ''type'' of
        None \<Rightarrow> (block_unknown ord raw, payload)
      | Some ty \<Rightarrow>
          if ty = ''text'' then (block_text ord (unwrap_or [] (get_str raw ''text'')), payload)
          else if ty = ''thinking'' then
            (block_thinking ord (unwrap_or [] (get_str raw ''thinking'')), payload)
          else if ty = ''tool_use'' then
            (block_tool_use ord (unwrap_or [] (get_str raw ''id'')) (unwrap_or [] (get_str raw ''name''))
               (unwrap_or JNull (jget raw ''input'')), payload)
          else if ty = ''tool_result'' then
            (block_tool_result ord (unwrap_or [] (get_str raw ''tool_use_id''))
               (result_text J (jget raw ''content''))
               (unwrap_or False (get_bool raw ''is_error'')) payload, None)
          else (block_unknown ord raw, payload))"

fun parse_blocks_from :: "json_lib \<Rightarrow> nat \<Rightarrow> json option \<Rightarrow> json list \<Rightarrow> block list" where
  "parse_blocks_from J i payload [] = []"
| "parse_blocks_from J i payload (raw # rest) =
     (case parse_block J (as_i32 i) payload raw of
        (b, payload') \<Rightarrow> b # parse_blocks_from J (Suc i) payload' rest)"

definition parse_blocks :: "json_lib \<Rightarrow> json list \<Rightarrow> json option \<Rightarrow> block list" where
  "parse_blocks J arr payload = parse_blocks_from J 0 payload arr"

definition claude_speaker :: "string \<Rightarrow> speaker" where
  "claude_speaker kind =
     (if kind = ''user'' then User else if kind = ''assistant'' then Assistant
      else if kind = ''system'' then System else if kind = ''summary'' then Summary
      else SpeakerOther)"

definition claude_blocks :: "json_lib \<Rightarrow> string \<Rightarrow> json \<Rightarrow> block list" where
  "claude_blocks J kind v =
     (let payload = map_option normalize_result_value
                      (opt_filter (\<lambda>p. p \<noteq> JNull) (jget v ''toolUseResult''));
          blocks = (case Option.bind (jget v ''message'') (\<lambda>m. jget m ''content'') of
             Some (JArr arr) \<Rightarrow> parse_blocks J arr payload
           | Some (JStr s) \<Rightarrow> [block_text 0 s]
           | _ \<Rightarrow> [])
      in if blocks = [] \<and> kind = ''summary''
         then (case get_str v ''summary'' of None \<Rightarrow> [] | Some s \<Rightarrow> [block_text 0 s])
         else blocks)"

definition claude_parse :: "json_lib \<Rightarrow> json \<Rightarrow> canonical_event" where
  "claude_parse J v =
     (let kind = unwrap_or [] (get_str v ''type''); blocks = claude_blocks J kind v
      in \<lparr>ce_agent = ''claude-code'', ce_speaker = claude_speaker kind,
          ce_content_kind = content_kind_of blocks,
          ce_event_uuid = string_field v [''uuid''],
          ce_parent_event_uuid = string_field v [''parentUuid'', ''parent_uuid''],
          ce_related_tool_use_id = string_field v [''tool_use_id''],
          ce_is_sidechain = unwrap_or False (bool_field v [''isSidechain'']),
          ce_is_meta = unwrap_or False (bool_field v [''isMeta'']),
          ce_subtype = string_field v [''subtype''],
          ce_blocks = blocks\<rparr>)"

section \<open>Codex\<close>

definition codex_record_kind :: "json \<Rightarrow> string option" where
  "codex_record_kind v = or_else (get_str v ''kind'') (get_str v ''type'')"

definition codex_payload :: "json \<Rightarrow> json" where
  "codex_payload v = unwrap_or JNull (jget v ''payload'')"

definition codex_message_block :: "nat \<Rightarrow> json \<Rightarrow> block" where
  "codex_message_block i item =
     (if unwrap_or [] (get_str item ''type'') \<in> {''input_text'', ''output_text''}
      then block_text (as_i32 i) (unwrap_or [] (get_str item ''text''))
      else block_unknown (as_i32 i) item)"

definition parse_codex_message_items :: "json list \<Rightarrow> block list" where
  "parse_codex_message_items items = map (\<lambda>(i, item). codex_message_block i item) (enumerate 0 items)"

definition reasoning_part :: "json \<Rightarrow> string list" where
  "reasoning_part item =
     (case as_str item of
        Some s \<Rightarrow> if blank s then [] else [s]
      | None \<Rightarrow>
          (case get_str item ''text'' of
             None \<Rightarrow> []
           | Some s \<Rightarrow> if blank s then [] else [s]))"

definition codex_reasoning_text :: "json \<Rightarrow> string option" where
  "codex_reasoning_text payload =
     (case Option.bind (jget payload ''summary'') as_array of
        None \<Rightarrow> None
      | Some summary \<Rightarrow>
          (let parts = concat (map reasoning_part summary)
           in if parts = [] then None else Some (join [CHR 0x0A] parts)))"

definition parse_json_string :: "json_lib \<Rightarrow> json option \<Rightarrow> json" where
  "parse_json_string J v =
     (case v of
        Some (JStr raw) \<Rightarrow> unwrap_or (JStr raw) (js_parse J raw)
      | _ \<Rightarrow> unwrap_or JNull v)"

function value_to_text :: "json_lib \<Rightarrow> json \<Rightarrow> string option" where
  "value_to_text J JNull = None"
| "value_to_text J (JStr s) = Some s"
| "value_to_text J (JArr parts) =
     (let out = concat (map (\<lambda>part. case value_to_text J part of
                  None \<Rightarrow> [] | Some text \<Rightarrow> if blank text then [] else [text]) parts)
      in if out = [] then None else Some (join [CHR 0x0A] out))"
| "value_to_text J (JObj obj) =
     (case map_str obj ''text'' of Some s \<Rightarrow> Some s | None \<Rightarrow> Some (js_print J (JObj obj)))"
| "value_to_text J (JBool b) = Some (js_print J (JBool b))"
| "value_to_text J (JNum n) = Some (js_print J (JNum n))"
  by pat_completeness auto
termination
  by (relation "measure (\<lambda>(J, v). size v)") (use json_size_arr in auto)

definition codex_event :: "speaker \<Rightarrow> bool \<Rightarrow> string \<Rightarrow> block list \<Rightarrow> canonical_event" where
  "codex_event speaker is_meta subtype blocks =
     (ce_empty ''codex'' speaker)\<lparr>ce_content_kind := content_kind_of blocks, ce_is_meta := is_meta,
        ce_subtype := Some subtype, ce_blocks := blocks\<rparr>"

definition codex_role_speaker :: "string \<Rightarrow> speaker" where
  "codex_role_speaker role =
     (if role = ''user'' then User else if role = ''assistant'' then Assistant
      else if role \<in> {''developer'', ''system''} then System else SpeakerOther)"

definition parse_codex_response_item :: "json_lib \<Rightarrow> json \<Rightarrow> canonical_event" where
  "parse_codex_response_item J v =
     (let payload = codex_payload v;
          subtype = unwrap_or ''response_item'' (get_str payload ''type'');
          call_id = unwrap_or [] (get_str payload ''call_id'')
      in if subtype = ''message'' then
           (let role = unwrap_or ''other'' (get_str payload ''role'');
                blocks = (case jget payload ''content'' of
                   Some (JArr items) \<Rightarrow> parse_codex_message_items items
                 | Some (JStr s) \<Rightarrow> [block_text 0 s]
                 | _ \<Rightarrow> [])
            in codex_event (codex_role_speaker role) (role \<in> {''developer'', ''system''}) subtype blocks)
         else if subtype = ''reasoning'' then
           codex_event Assistant False subtype
             [block_thinking 0 (unwrap_or [] (codex_reasoning_text payload))]
         else if subtype = ''function_call'' \<or> subtype = ''custom_tool_call'' then
           (let name = unwrap_or subtype (get_str payload ''name'');
                input = (if subtype = ''function_call''
                         then parse_json_string J (jget payload ''arguments'')
                         else unwrap_or JNull (jget payload ''input''))
            in codex_event Assistant False subtype [block_tool_use 0 call_id name input])
         else if subtype = ''function_call_output'' \<or> subtype = ''custom_tool_call_output'' then
           (codex_event System False subtype
              [block_tool_result 0 call_id (Option.bind (jget payload ''output'') (value_to_text J))
                 (unwrap_or False (get_bool payload ''is_error'')) None])
             \<lparr>ce_related_tool_use_id := Some call_id\<rparr>
         else codex_event System True subtype [])"

definition parse_codex_event_msg :: "json \<Rightarrow> canonical_event" where
  "parse_codex_event_msg v =
     (let payload = codex_payload v
      in (codex_event System True (unwrap_or ''event_msg'' (get_str payload ''type'')) [])
           \<lparr>ce_related_tool_use_id := get_str payload ''call_id''\<rparr>)"

definition codex_parse :: "json_lib \<Rightarrow> json \<Rightarrow> canonical_event" where
  "codex_parse J v =
     (let kind = unwrap_or [] (codex_record_kind v)
      in if kind = ''response_item'' then parse_codex_response_item J v
         else if kind = ''event_msg'' then parse_codex_event_msg v
         else if kind \<in> {''session_meta'', ''turn_context'', ''compacted''} then
           codex_event System True kind []
         else codex_event SpeakerOther True kind [block_unknown 0 v])"

section \<open>Both meet the contract\<close>

lemma block_ords [simp]:
  "b_ord (block_text i s) = i" "b_ord (block_thinking i s) = i" "b_ord (block_unknown i v) = i"
  "b_ord (block_tool_use i t n x) = i" "b_ord (block_tool_result i t txt e y) = i"
  by (simp_all add: block_text_def block_thinking_def block_unknown_def block_tool_use_def
      block_tool_result_def blank_block_def)

lemma block_kinds [simp]:
  "b_kind (block_text i s) = BText" "b_kind (block_thinking i s) = BThinking"
  "b_kind (block_unknown i v) = BUnknown" "b_kind (block_tool_use i t n x) = BToolUse"
  "b_kind (block_tool_result i t txt e y) = BToolResult"
  by (simp_all add: block_text_def block_thinking_def block_unknown_def block_tool_use_def
      block_tool_result_def blank_block_def)

lemma as_i32_0 [simp]: "as_i32 0 = 0"
  by (simp add: as_i32_def)

lemma parse_block_ord: "b_ord (fst (parse_block J ord payload raw)) = ord"
  by (auto simp: parse_block_def split: option.splits)

lemma parse_blocks_from_ords:
  "map b_ord (parse_blocks_from J i payload arr) = map as_i32 [i..<i + length arr]"
proof (induction arr arbitrary: i payload)
  case (Cons raw rest)
  obtain b p where b: "parse_block J (as_i32 i) payload raw = (b, p)" by fastforce
  then have "b_ord b = as_i32 i" using parse_block_ord [of J "as_i32 i" payload raw] by simp
  with b Cons.IH [of "Suc i" p] show ?case by (simp add: upt_conv_Cons del: upt_Suc)
qed simp

lemma length_parse_blocks_from [simp]: "length (parse_blocks_from J i payload arr) = length arr"
  by (induction arr arbitrary: i payload) (auto split: prod.split)

lemma numbered_Nil [simp]: "blocks_numbered []"
  by (simp add: blocks_numbered_def)

lemma numbered_single [simp]: "b_ord b = 0 \<Longrightarrow> blocks_numbered [b]"
  by (simp add: blocks_numbered_def)

lemma numbered_parse_blocks [simp]: "blocks_numbered (parse_blocks J arr payload)"
  using parse_blocks_from_ords [of J 0 payload arr]
  by (simp add: blocks_numbered_def parse_blocks_def)

lemma codex_message_block_ord [simp]: "b_ord (codex_message_block i item) = as_i32 i"
  by (simp add: codex_message_block_def)

lemma numbered_message_items [simp]: "blocks_numbered (parse_codex_message_items items)"
proof -
  have "map b_ord (map (\<lambda>(i, item). codex_message_block i item) (enumerate n items))
      = map as_i32 [n..<n + length items]" for n
    by (induction items arbitrary: n) (simp_all add: upt_conv_Cons del: upt_Suc)
  from this [of 0] show ?thesis
    by (simp add: blocks_numbered_def parse_codex_message_items_def)
qed

lemma claude_blocks_numbered: "blocks_numbered (claude_blocks J kind v)"
  by (auto simp: claude_blocks_def Let_def split: option.splits json.splits)

interpretation claude: event_parser "''claude-code''" "claude_parse J" for J
  by unfold_locales (simp_all add: claude_parse_def Let_def claude_blocks_numbered)

lemma codex_event_simps [simp]:
  "ce_agent (codex_event sp m s bs) = ''codex''" "ce_blocks (codex_event sp m s bs) = bs"
  "ce_content_kind (codex_event sp m s bs) = content_kind_of bs"
  by (simp_all add: codex_event_def ce_empty_def)

lemma response_item_contract:
  "ce_agent (parse_codex_response_item J v) = ''codex''
    \<and> ce_content_kind (parse_codex_response_item J v)
        = content_kind_of (ce_blocks (parse_codex_response_item J v))
    \<and> blocks_numbered (ce_blocks (parse_codex_response_item J v))"
  by (auto simp: parse_codex_response_item_def Let_def split: option.splits json.splits)

interpretation codex: event_parser "''codex''" "codex_parse J" for J
  using response_item_contract
  by unfold_locales (auto simp: codex_parse_def Let_def parse_codex_event_msg_def)

end
