(* ===== verification/Canonical_Props.thy ===== *)
theory Canonical_Props
  imports Canonical_Parsers
begin

text \<open>
  What holds of the canonical events: the kinds and the numbering both parsers derive, where
  a Claude tool-result payload ends up, the round trip of Codex patches, and the shape of
  normalised results.
\<close>

section \<open>Kinds and numbering\<close>

text \<open>The kinds present that count: an unknown block never decides the content kind.\<close>

definition known_kinds :: "block list \<Rightarrow> block_kind set" where
  "known_kinds bs = b_kind ` set bs - {BUnknown}"

fun kind_of_single :: "block_kind \<Rightarrow> content_kind" where
  "kind_of_single BText = CText"
| "kind_of_single BThinking = CThinking"
| "kind_of_single BToolUse = CToolUse"
| "kind_of_single BToolResult = CToolResult"
| "kind_of_single BUnknown = CNone"

definition content_kind_spec :: "block list \<Rightarrow> content_kind \<Rightarrow> bool" where
  "content_kind_spec bs k \<longleftrightarrow>
     (known_kinds bs = {} \<and> k = CNone)
     \<or> (\<exists>b. known_kinds bs = {b} \<and> k = kind_of_single b)
     \<or> (\<exists>b \<in> known_kinds bs. \<exists>c \<in> known_kinds bs. b \<noteq> c \<and> k = CMixed)"

lemma known_kinds_filter:
  "known_kinds bs = set (filter (\<lambda>k. k \<in> b_kind ` set bs) [BText, BThinking, BToolUse, BToolResult])"
proof -
  define S where "S = b_kind ` set bs"
  have "k \<in> S - {BUnknown}
      \<longleftrightarrow> k \<in> set (filter (\<lambda>k. k \<in> S) [BText, BThinking, BToolUse, BToolResult])" for k
    by (cases k) auto
  then show ?thesis unfolding known_kinds_def S_def by blast
qed

lemma content_kind_of_spec: "content_kind_spec bs (content_kind_of bs)"
proof -
  define S where "S = b_kind ` set bs"
  have e: "bs = [] \<longleftrightarrow> S = {}" by (simp add: S_def)
  show ?thesis
    unfolding content_kind_spec_def known_kinds_filter content_kind_of_def Let_def
      S_def [symmetric] e
    by (cases "BText \<in> S"; cases "BThinking \<in> S"; cases "BToolUse \<in> S"; cases "BToolResult \<in> S")
       auto
qed

text \<open>
  The contract both parsers keep: every event either parser emits carries the
  content kind of its blocks - none when no block is of a known kind, the kind itself when
  one kind occurs, mixed when two do, unknown blocks never counting - and numbers its blocks
  by their position.
\<close>

theorem parsers_derive_kind_and_ords:
  "content_kind_spec (ce_blocks (claude_parse J v)) (ce_content_kind (claude_parse J v))
   \<and> map b_ord (ce_blocks (claude_parse J v))
       = map as_i32 [0..<length (ce_blocks (claude_parse J v))]
   \<and> content_kind_spec (ce_blocks (codex_parse J v)) (ce_content_kind (codex_parse J v))
   \<and> map b_ord (ce_blocks (codex_parse J v))
       = map as_i32 [0..<length (ce_blocks (codex_parse J v))]"
  using claude.parse_numbered [of J v] codex.parse_numbered [of J v]
  by (simp add: claude.parse_content_kind codex.parse_content_kind content_kind_of_spec
      blocks_numbered_def)

section \<open>The payload of a Claude tool result\<close>

definition is_tool_result :: "json \<Rightarrow> bool" where
  "is_tool_result raw \<longleftrightarrow> get_str raw ''type'' = Some ''tool_result''"

definition claude_payload :: "json \<Rightarrow> json option" where
  "claude_payload v =
     (case jget v ''toolUseResult'' of
        None \<Rightarrow> None
      | Some p \<Rightarrow> if p = JNull then None else Some (normalize_result_value p))"

lemma parse_block_payload:
  "snd (parse_block J ord p raw) = (if is_tool_result raw then None else p)"
  "b_tool_output (fst (parse_block J ord p raw)) = (if is_tool_result raw then p else None)"
  by (auto simp: parse_block_def is_tool_result_def block_text_def block_thinking_def
      block_unknown_def block_tool_use_def block_tool_result_def blank_block_def split: option.splits)

lemma parse_block_kind:
  "b_kind (fst (parse_block J ord p raw)) = BToolResult \<longleftrightarrow> is_tool_result raw"
  "b_raw (fst (parse_block J ord p raw))
     = (if b_kind (fst (parse_block J ord p raw)) = BUnknown then Some raw else None)"
  by (auto simp: parse_block_def is_tool_result_def block_text_def block_thinking_def
      block_unknown_def block_tool_use_def block_tool_result_def blank_block_def split: option.splits)

lemma parse_blocks_from_nth:
  "i < length arr \<Longrightarrow>
     parse_blocks_from J n p arr ! i =
       fst (parse_block J (as_i32 (n + i))
              (if \<exists>r \<in> set (take i arr). is_tool_result r then None else p) (arr ! i))"
proof (induction arr arbitrary: n p i)
  case (Cons raw rest)
  obtain b q where b: "parse_block J (as_i32 n) p raw = (b, q)" by fastforce
  then have q: "q = (if is_tool_result raw then None else p)"
    using parse_block_payload(1) [of J "as_i32 n" p raw] by simp
  show ?case
  proof (cases i)
    case 0
    with b show ?thesis by simp
  next
    case (Suc j)
    with Cons.prems have "j < length rest" by simp
    from Cons.IH [OF this, of "Suc n" q] b q Suc show ?thesis by auto
  qed
qed simp

text \<open>
  A Claude message with a content array becomes one block per element, in order. The
  separate tool-result payload of the record goes, normalised, to the first tool-result
  block and to no other; an element the parser does not know becomes an unknown block that
  keeps the element whole.
\<close>

theorem claude_payload_to_first_result:
  assumes "jget v ''message'' = Some m" and "jget m ''content'' = Some (JArr arr)"
    and "i < length arr"
  shows "length (ce_blocks (claude_parse J v)) = length arr
    \<and> (b_kind (ce_blocks (claude_parse J v) ! i) = BToolResult \<longleftrightarrow> is_tool_result (arr ! i))
    \<and> b_tool_output (ce_blocks (claude_parse J v) ! i)
        = (if is_tool_result (arr ! i) \<and> (\<forall>r \<in> set (take i arr). \<not> is_tool_result r)
           then claude_payload v else None)
    \<and> b_raw (ce_blocks (claude_parse J v) ! i)
        = (if b_kind (ce_blocks (claude_parse J v) ! i) = BUnknown then Some (arr ! i) else None)"
proof -
  have ne: "arr \<noteq> []" using assms(3) by auto
  have pay: "map_option normalize_result_value (opt_filter (\<lambda>p. p \<noteq> JNull) (jget v ''toolUseResult''))
      = claude_payload v"
    by (simp add: claude_payload_def opt_filter_def split: option.split)
  have ne': "parse_blocks J arr q \<noteq> []" for q
    using ne length_parse_blocks_from [of J 0 q arr]
    by (metis length_0_conv parse_blocks_def)
  have bl: "ce_blocks (claude_parse J v) = parse_blocks_from J 0 (claude_payload v) arr"
    using assms ne' by (simp add: claude_parse_def Let_def claude_blocks_def pay parse_blocks_def)
  show ?thesis
    unfolding bl parse_blocks_from_nth [OF assms(3)]
    by (auto simp: parse_block_kind parse_block_payload)
qed

definition sample_lib :: json_lib where
  "sample_lib = \<lparr>js_print = (\<lambda>_. ''{}''), js_pretty = (\<lambda>_. ''{}''), js_parse = (\<lambda>_. None)\<rparr>"

theorem claude_payload_to_first_result_witness:
  "b_tool_output (ce_blocks (claude_parse sample_lib
      (JObj [(''message'', JObj [(''content'', JArr [JNull,
         JObj [(''type'', JStr ''tool_result'')], JObj [(''type'', JStr ''tool_result'')]])]),
       (''toolUseResult'', JObj [(''filePath'', JStr ''a'')])])) ! 1)
     = Some (JObj [(''path'', JStr ''a'')])"
proof -
  let ?r = "JObj [(''type'', JStr ''tool_result'')]"
  let ?v = "JObj [(''message'', JObj [(''content'', JArr [JNull, ?r, ?r])]),
      (''toolUseResult'', JObj [(''filePath'', JStr ''a'')])]"
  have "b_tool_output (ce_blocks (claude_parse sample_lib ?v) ! 1)
      = (if is_tool_result ([JNull, ?r, ?r] ! 1)
           \<and> (\<forall>r \<in> set (take 1 [JNull, ?r, ?r]). \<not> is_tool_result r)
         then claude_payload ?v else None)"
    using claude_payload_to_first_result
      [of ?v "JObj [(''content'', JArr [JNull, ?r, ?r])]" "[JNull, ?r, ?r]" 1 sample_lib] by simp
  then show ?thesis
    by (simp add: is_tool_result_def get_str_def claude_payload_def normalize_result_key_def)
qed

section \<open>Patches\<close>

text \<open>
  A patch as Codex writes it: sections, each a header line and the lines of its hunks. A
  move names the old path first.
\<close>

datatype patch_section = PUpdate string | PAdd string | PDelete string | PMove string string

fun section_header :: "patch_section \<Rightarrow> string" where
  "section_header (PUpdate p) = ''*** Update File: '' @ p"
| "section_header (PAdd p) = ''*** Add File: '' @ p"
| "section_header (PDelete p) = ''*** Delete File: '' @ p"
| "section_header (PMove from to) = ''*** Move File: '' @ from @ '' to '' @ to"

definition one_line :: "string \<Rightarrow> bool" where
  "one_line l \<longleftrightarrow> CHR 0x0A \<notin> set l \<and> (l = [] \<or> last l \<noteq> CHR 0x0D)"

definition clean_path :: "string \<Rightarrow> bool" where
  "clean_path p \<longleftrightarrow> p \<noteq> [] \<and> trim p = p \<and> CHR 0x0A \<notin> set p"

fun header_ok :: "patch_section \<Rightarrow> bool" where
  "header_ok (PMove from to) \<longleftrightarrow>
     clean_path from \<and> clean_path to \<and> find_sub (from @ '' to '' @ to) '' to '' = Some (length from)"
| "header_ok (PUpdate p) \<longleftrightarrow> clean_path p"
| "header_ok (PAdd p) \<longleftrightarrow> clean_path p"
| "header_ok (PDelete p) \<longleftrightarrow> clean_path p"

definition body_ok :: "string list \<Rightarrow> bool" where
  "body_ok ls \<longleftrightarrow> (\<forall>l \<in> set ls. one_line l \<and> \<not> starts_with l ''*** '') \<and> (ls = [] \<or> last ls \<noteq> [])"

definition patch_lines :: "(patch_section \<times> string list) list \<Rightarrow> string list" where
  "patch_lines secs =
     ''*** Begin Patch'' # concat (map (\<lambda>(h, body). section_header h # body) secs)
       @ [''*** End Patch'']"

definition print_patch :: "(patch_section \<times> string list) list \<Rightarrow> string" where
  "print_patch secs = concat (map (\<lambda>l. l @ [CHR 0x0A]) (patch_lines secs))"

fun section_fields :: "patch_section \<Rightarrow> (string \<times> json) list" where
  "section_fields (PUpdate p) = [(''operation'', JStr ''update''), (''path'', JStr p)]"
| "section_fields (PAdd p) = [(''operation'', JStr ''add''), (''path'', JStr p)]"
| "section_fields (PDelete p) = [(''operation'', JStr ''delete''), (''path'', JStr p)]"
| "section_fields (PMove from to) =
     [(''old_path'', JStr from), (''operation'', JStr ''move''), (''path'', JStr to)]"

definition section_value :: "patch_section \<times> string list \<Rightarrow> json" where
  "section_value s = JObj ((''diff'', JStr (join [CHR 0x0A] (snd s))) # section_fields (fst s))"

lemma split_char_line: "d \<notin> set l \<Longrightarrow> split_char d (l @ d # s) = l # split_char d s"
  by (induction l) auto

lemma split_char_unlines:
  "\<forall>l \<in> set ls. d \<notin> set l \<Longrightarrow> split_char d (concat (map (\<lambda>l. l @ [d]) ls)) = ls @ [[]]"
  by (induction ls) (auto simp: split_char_line)

lemma drop_cr_one_line: "one_line l \<Longrightarrow> drop_cr l = l"
  by (auto simp: one_line_def drop_cr_def)

lemma lines_unlines:
  assumes "\<forall>l \<in> set ls. one_line l"
  shows "lines (concat (map (\<lambda>l. l @ [CHR 0x0A]) ls)) = ls"
proof -
  have "split_char (CHR 0x0A) (concat (map (\<lambda>l. l @ [CHR 0x0A]) ls)) = ls @ [[]]"
    by (rule split_char_unlines) (use assms in \<open>auto simp: one_line_def\<close>)
  moreover have "map drop_cr ls = ls"
    using assms by (induction ls) (auto simp: drop_cr_one_line)
  ultimately show ?thesis by (simp add: lines_def Let_def)
qed

definition section_buf :: "patch_section \<Rightarrow> file_edit_buf" where
  "section_buf h = (case h of PUpdate p \<Rightarrow> fe_new p ''update'' None | PAdd p \<Rightarrow> fe_new p ''add'' None
     | PDelete p \<Rightarrow> fe_new p ''delete'' None | PMove from to \<Rightarrow> fe_new to ''move'' (Some from))"

lemma header_opens:
  assumes "header_ok h"
  shows "\<exists>r. strip_prefix (section_header h) ''*** '' = Some r \<and> patch_header r = Some (section_buf h)"
  using assms
  by (cases h) (auto simp: strip_prefix_def starts_with_def patch_header_def section_buf_def
      clean_path_def split_move_def Let_def)

lemma body_extends:
  "\<forall>l \<in> set ls. \<not> starts_with l ''*** '' \<Longrightarrow>
     patch_entries (Some b) (ls @ rest)
       = patch_entries (Some (b\<lparr>fe_diff := fe_diff b @ concat (map (\<lambda>l. l @ [CHR 0x0A]) ls)\<rparr>)) rest"
  by (induction ls arbitrary: b) (auto simp: strip_prefix_def)

lemma entries_of_sections:
  "\<forall>s \<in> set secs. header_ok (fst s) \<and> body_ok (snd s) \<Longrightarrow>
     patch_entries cur (concat (map (\<lambda>(h, body). section_header h # body) secs) @ [''*** End Patch''])
       = (case cur of None \<Rightarrow> [] | Some b \<Rightarrow> [b])
         @ map (\<lambda>(h, body). (section_buf h)\<lparr>fe_diff := concat (map (\<lambda>l. l @ [CHR 0x0A]) body)\<rparr>) secs"
proof (induction secs arbitrary: cur)
  case Nil
  show ?case by (simp add: strip_prefix_def starts_with_def patch_header_def)
next
  case (Cons s secs)
  obtain h body where s: "s = (h, body)" by fastforce
  from Cons.prems s obtain r where r: "strip_prefix (section_header h) ''*** '' = Some r"
    "patch_header r = Some (section_buf h)" using header_opens [of h] by auto
  have body: "\<forall>l \<in> set body. \<not> starts_with l ''*** ''"
    using Cons.prems s by (auto simp: body_ok_def)
  have d: "fe_diff (section_buf h) = []" by (cases h) (simp_all add: section_buf_def fe_new_def)
  show ?case
    using Cons.IH Cons.prems s r body_extends [OF body] d by simp
qed

lemma unlines_join: "ls \<noteq> [] \<Longrightarrow> concat (map (\<lambda>l. l @ [d]) ls) = join [d] ls @ [d]"
  by (induction "[d]" ls rule: join.induct) auto

lemma last_join: "ls \<noteq> [] \<Longrightarrow> last ls \<noteq> [] \<Longrightarrow> join sep ls \<noteq> [] \<and> last (join sep ls) = last (last ls)"
  by (induction sep ls rule: join.induct) auto

lemma trim_unlines:
  assumes "body_ok ls"
  shows "trim_newlines_end (concat (map (\<lambda>l. l @ [CHR 0x0A]) ls)) = join [CHR 0x0A] ls"
proof (cases "ls = []")
  case True
  then show ?thesis by (simp add: trim_newlines_end_def)
next
  case False
  with assms have l: "last ls \<noteq> []" "one_line (last ls)" by (auto simp: body_ok_def)
  from last_join [OF False l(1), of "[CHR 0x0A]"] obtain ys y where
    y: "join [CHR 0x0A] ls = ys @ [y]" "y = last (last ls)"
    by (metis append_butlast_last_id)
  then have "y \<noteq> CHR 0x0A" using l by (metis last_in_set one_line_def)
  with y False show ?thesis by (simp add: unlines_join trim_newlines_end_def)
qed

lemma key_order: "''diff'' < ''path''" "''diff'' < ''operation''" "''diff'' < ''old_path''"
    "''operation'' < ''path''" "''old_path'' < ''operation''" "''old_path'' < ''path''"
  by code_simp+

lemma section_buf_value:
  assumes "body_ok body"
  shows "fe_into_value ((section_buf h)\<lparr>fe_diff := concat (map (\<lambda>l. l @ [CHR 0x0A]) body)\<rparr>)
    = section_value (h, body)"
  by (cases h) (simp_all add: section_buf_def fe_new_def fe_into_value_def section_value_def
      trim_unlines [OF assms] key_order)

lemma printed_one_line:
  assumes "\<forall>s \<in> set secs. header_ok (fst s) \<and> body_ok (snd s)"
  shows "\<forall>l \<in> set (patch_lines secs). one_line l"
proof -
  have tr: "last p \<noteq> CHR 0x0D" if "trim p = p" "p \<noteq> []" for p
    using trim_fixed_last [OF that] by (auto simp: ascii_ws_def)
  have "one_line (section_header h)" if "header_ok h" for h
    using that tr by (cases h) (auto simp: one_line_def clean_path_def)
  with assms show ?thesis
    by (auto simp: patch_lines_def body_ok_def) (simp_all add: one_line_def)
qed

text \<open>
  Parsing a printed Codex patch gives back its sections: one \<open>file_edits\<close> entry per
  section, in order, with its operation, its path (for a move also the old one) and its hunk
  lines verbatim.
\<close>

theorem apply_patch_roundtrip:
  assumes "\<forall>s \<in> set secs. header_ok (fst s) \<and> body_ok (snd s)"
  shows "canonicalize_tool_input ''apply_patch'' (JStr (print_patch secs))
    = JObj [(''file_edits'', JArr (map section_value secs))]"
proof -
  have "patch_entries None (patch_lines secs)
      = map (\<lambda>(h, body). (section_buf h)\<lparr>fe_diff := concat (map (\<lambda>l. l @ [CHR 0x0A]) body)\<rparr>) secs"
    using entries_of_sections [OF assms, of None]
    by (simp add: patch_lines_def strip_prefix_def starts_with_def patch_header_def)
  moreover have "lines (print_patch secs) = patch_lines secs"
    unfolding print_patch_def by (rule lines_unlines) (rule printed_one_line [OF assms])
  moreover have "fe_into_value ((section_buf (fst s))\<lparr>fe_diff := concat (map (\<lambda>l. l @ [CHR 0x0A]) (snd s))\<rparr>)
      = section_value s" if "s \<in> set secs" for s
    using section_buf_value [of "snd s" "fst s"] assms that by simp
  ultimately show ?thesis
    by (auto simp: canonicalize_tool_input_def parse_apply_patch_def case_prod_unfold)
qed

definition sample_patch :: "(patch_section \<times> string list) list" where
  "sample_patch = [(PMove ''a.rs'' ''b.rs'', [''@@'', ''-x'', ''+y'']), (PDelete ''c.rs'', [])]"

lemma sample_patch_ok: "\<forall>s \<in> set sample_patch. header_ok (fst s) \<and> body_ok (snd s)"
  by code_simp

theorem apply_patch_roundtrip_witness:
  "canonicalize_tool_input ''apply_patch'' (JStr (print_patch sample_patch))
    = JObj [(''file_edits'', JArr (map section_value sample_patch))]"
  by (rule apply_patch_roundtrip [OF sample_patch_ok])

section \<open>Names and result keys\<close>

text \<open>A name in snake case holds no upper-case ASCII letter, no dash and no space.\<close>

definition snake_case :: "string \<Rightarrow> bool" where
  "snake_case s \<longleftrightarrow> list_all (\<lambda>c. \<not> ascii_upper c \<and> c \<noteq> CHR ''-'' \<and> c \<noteq> CHR '' '') s"

lemma lower_not_upper: "\<not> ascii_upper (to_lower_ascii c) \<and> to_lower_ascii c \<noteq> CHR '' ''
    \<and> (c \<noteq> CHR ''-'' \<longrightarrow> to_lower_ascii c \<noteq> CHR ''-'')" if "ascii_upper c"
proof -
  have "byte (to_lower_ascii c) = byte c + 32"
    using that by (simp add: to_lower_ascii_def ascii_upper_def)
  then show ?thesis using that by (auto simp: ascii_upper_def)
qed

lemma snake_from_case: "snake_case (snake_from b s)"
  using lower_not_upper
  by (induction b s rule: snake_from.induct) (auto simp: snake_case_def ascii_upper_def)

lemma snake_from_fixed: "snake_case s \<Longrightarrow> snake_from b s = s"
  by (induction b s rule: snake_from.induct) (auto simp: snake_case_def)

lemma tool_table_snake: "list_all (\<lambda>(k, n). snake_case n) tool_name_table"
  by code_simp

lemma tool_name_snake: "snake_case (canonicalize_tool_name raw)"
proof (cases "map_of tool_name_table raw")
  case None
  then show ?thesis by (simp add: canonicalize_tool_name_def to_snake_case_def snake_from_case)
next
  case (Some n)
  then have "(raw, n) \<in> set tool_name_table" by (rule map_of_SomeD)
  with tool_table_snake Some show ?thesis
    by (auto simp: canonicalize_tool_name_def list_all_iff)
qed

lemma result_key_snake: "snake_case (normalize_result_key raw)"
  unfolding normalize_result_key_def to_snake_case_def
  by (simp add: snake_from_case) (simp add: snake_case_def ascii_upper_def)

function snake_keys :: "json \<Rightarrow> bool" where
  "snake_keys JNull = True"
| "snake_keys (JBool b) = True"
| "snake_keys (JNum n) = True"
| "snake_keys (JStr s) = True"
| "snake_keys (JArr vs) = (\<forall>v \<in> set vs. snake_keys v)"
| "snake_keys (JObj m) = (\<forall>kv \<in> set m. snake_case (fst kv) \<and> snake_keys (snd kv))"
  by pat_completeness auto
termination
proof (relation "measure size", goal_cases)
  case (3 m kv)
  then show ?case using json_size_obj [of "fst kv" "snd kv" m] by simp
qed (use json_size_arr in auto)

lemma fold_insert_sorted:
  "obj_sorted acc \<Longrightarrow> obj_sorted (foldl (\<lambda>out kv. obj_insert (fst kv) (snd kv) out) acc kvs)"
  by (induction kvs arbitrary: acc) (auto intro: obj_sorted_insert)

lemma fold_insert_set:
  "kv \<in> set (foldl (\<lambda>out kv. obj_insert (fst kv) (snd kv) out) acc kvs) \<Longrightarrow> kv \<in> set acc \<union> set kvs"
  by (induction kvs arbitrary: acc) (fastforce dest: set_obj_insert)+

lemma fold_insert_map_of:
  "map_of (foldl (\<lambda>out kv. obj_insert (fst kv) (snd kv) out) acc kvs) = map_of acc ++ map_of (rev kvs)"
proof (induction kvs arbitrary: acc)
  case (Cons kv kvs)
  have ins: "map_of (obj_insert (fst kv) (snd kv) acc) = map_of acc ++ map_of [kv]"
    by (cases kv) (simp add: map_of_obj_insert)
  show ?case
    by (simp only: foldl_Cons Cons.IH ins rev.simps map_of_append map_add_assoc)
qed simp

lemma normalized_ok: "json_wf (normalize_result_value v) \<and> snake_keys (normalize_result_value v)"
proof (induction v rule: normalize_result_value.induct)
  case (6 m)
  let ?kvs = "map (\<lambda>kv. (normalize_result_key (fst kv), normalize_result_value (snd kv))) m"
  let ?o = "foldl (\<lambda>out kv. obj_insert (fst kv) (snd kv) out) [] ?kvs"
  have "obj_sorted ?o" by (rule fold_insert_sorted) (simp add: obj_sorted_def)
  moreover have "snake_case (fst kv) \<and> json_wf (snd kv) \<and> snake_keys (snd kv)"
    if "kv \<in> set ?o" for kv
    using fold_insert_set [OF that] 6 result_key_snake by auto
  ultimately show ?case by (simp only: normalize_result_value.simps json_wf.simps snake_keys.simps) blast
qed auto

text \<open>
  Whatever the agent sends, canonical names are in snake case, and a normalised result
  has only snake-case keys, none twice, at every depth. A key of the result holds the
  normalised value of the last source entry renamed to it.
\<close>

theorem normalized_names_and_results:
  "snake_case (canonicalize_tool_name raw)
   \<and> json_wf (normalize_result_value v) \<and> snake_keys (normalize_result_value v)
   \<and> jget (normalize_result_value (JObj m)) k
       = map_of (rev (map (\<lambda>kv. (normalize_result_key (fst kv), normalize_result_value (snd kv))) m)) k"
  using tool_name_snake normalized_ok by (simp add: fold_insert_map_of)

end
