(* ===== verification/Timeline_Types.thy ===== *)
theory Timeline_Types
  imports Canonical_Types
begin

text \<open>
  The data of the timeline (\<^verbatim>\<open>backend/src/ingest/timeline/types.rs\<close>): stored events,
  filters, and the projected turns with their tool pairs, sub-agents and chunks. A turn, a
  tool pair and a sub-agent contain each other, so they are datatypes whose selectors carry
  the field names; the rest are records. A timestamp is its number of nanoseconds since the
  epoch.
\<close>

type_synonym timestamp = int

record stored_event =
  se_byte_offset :: int
  se_timestamp :: timestamp
  se_kind :: string
  se_agent :: string
  se_speaker :: "string option"
  se_content_kind :: "string option"
  se_event_uuid :: "string option"
  se_parent_event_uuid :: "string option"
  se_related_tool_use_id :: "string option"
  se_is_sidechain :: bool
  se_is_meta :: bool
  se_subtype :: "string option"
  se_blocks :: "block list"

definition BOOKKEEPING_KINDS :: "string list" where
  "BOOKKEEPING_KINDS =
     [''file-history-snapshot'', ''permission-mode'', ''last-prompt'', ''queue-operation'',
      ''attachment'']"

datatype speaker_facet = FacetUser | FacetAssistant | FacetToolResult

record projection_filters =
  hidden_speakers :: "speaker_facet set"
  hidden_operation_categories :: "operation_category set"
  errors_only :: bool
  show_bookkeeping :: bool
  show_sidechain :: bool
  pf_file_path :: string

definition default_filters :: projection_filters where
  "default_filters =
     \<lparr>hidden_speakers = {}, hidden_operation_categories = {}, errors_only = False,
      show_bookkeeping = False, show_sidechain = False, pf_file_path = []\<rparr>"

record file_touch =
  ft_repo :: string
  ft_path :: string
  ft_touch_kind :: string
  ft_is_write :: bool

record tool_result =
  tr_content :: "string option"
  tr_payload :: "json option"
  tr_is_error :: bool

datatype assistant_item = ItemText string | ItemTool string

record generic_details =
  gd_event_uuid :: "string option"
  gd_parent_event_uuid :: "string option"
  gd_related_tool_use_id :: "string option"
  gd_subtype :: "string option"
  gd_speaker :: "string option"
  gd_content_kind :: "string option"
  gd_blocks :: "block list"

datatype chunk =
  ChunkAssistant "assistant_item list" "string list"
| ChunkTool string
| ChunkSummary "string option" string
| ChunkSystem "string option" string bool
| ChunkGeneric string generic_details

datatype tool_pair =
  ToolPair (tp_id: string) (tp_name: string) (tp_raw_name: "string option")
    (tp_operation_type: "string option") (tp_category: "operation_category option")
    (tp_input: "json option") (tp_result: "tool_result option") (tp_is_error: bool)
    (tp_is_pending: bool) (tp_file_touches: "file_touch list") (tp_subagent: "subagent option")
and subagent =
  Subagent (sa_title: string) (sa_event_count: nat) (sa_turns: "turn list")
and turn =
  Turn (t_id: int) (t_turn_key: "string option") (t_preview: string)
    (t_user_prompt_text: "string option") (t_start: timestamp) (t_end: timestamp)
    (t_duration_ms: int) (t_event_count: nat) (t_operation_count: nat)
    (t_tool_pairs: "tool_pair list") (t_thinking_count: nat) (t_has_errors: bool)
    (t_markdown: string) (t_chunks: "chunk list") (t_pty_session_id: "uuid option")
    (t_session_uuid: "uuid option") (t_session_agent: "string option")
    (t_session_label: "string option") (t_session_state: "string option")

record timeline_response =
  tl_session_uuid :: "uuid option"
  tl_session_agent :: "string option"
  tl_total_event_count :: int
  tl_turns :: "turn list"

text \<open>
  What the projection takes from libraries: the JSON printer and \<open>str::to_lowercase\<close>, which
  needs the Unicode tables.
\<close>

record text_lib =
  x_json :: json_lib
  x_lower :: "string \<Rightarrow> string"

end
