(* ===== verification/Timeline_Events.thy ===== *)
theory Timeline_Events
  imports Timeline_Types
begin

text \<open>
  What a stored event is and holds (the predicates and views of
  \<^verbatim>\<open>backend/src/ingest/timeline/project.rs\<close>), the preview of a turn, and the grouping of events
  into turns.
\<close>

section \<open>Speakers\<close>

definition event_speaker :: "stored_event \<Rightarrow> string" where
  "event_speaker e =
     (case se_speaker e of
        Some s \<Rightarrow> s
      | None \<Rightarrow>
          if se_kind e \<in> {''assistant'', ''user'', ''system'', ''summary''} then se_kind e
          else ''other'')"

definition is_tool_result_event :: "stored_event \<Rightarrow> bool" where
  "is_tool_result_event e \<longleftrightarrow> (\<exists>b \<in> set (se_blocks e). b_kind b = BToolResult)"

definition is_real_user_prompt :: "stored_event \<Rightarrow> bool" where
  "is_real_user_prompt e \<longleftrightarrow> event_speaker e = ''user'' \<and> \<not> is_tool_result_event e"

definition is_assistant_event :: "stored_event \<Rightarrow> bool" where
  "is_assistant_event e \<longleftrightarrow> event_speaker e = ''assistant''"

definition is_summary_event :: "stored_event \<Rightarrow> bool" where
  "is_summary_event e \<longleftrightarrow> event_speaker e = ''summary''"

definition is_system_event :: "stored_event \<Rightarrow> bool" where
  "is_system_event e \<longleftrightarrow> event_speaker e = ''system''"

definition is_bookkeeping_event :: "stored_event \<Rightarrow> bool" where
  "is_bookkeeping_event e \<longleftrightarrow>
     se_kind e \<in> set BOOKKEEPING_KINDS \<or> is_system_event e \<and> se_is_meta e"

definition speaker_facet_of :: "stored_event \<Rightarrow> speaker_facet option" where
  "speaker_facet_of e =
     (if event_speaker e = ''assistant'' then Some FacetAssistant
      else if is_tool_result_event e then Some FacetToolResult
      else if event_speaker e = ''user'' then Some FacetUser
      else None)"

definition event_is_visible :: "stored_event \<Rightarrow> projection_filters \<Rightarrow> bool" where
  "event_is_visible e f =
     (case speaker_facet_of e of None \<Rightarrow> True | Some s \<Rightarrow> s \<notin> hidden_speakers f)"

section \<open>Views of the blocks\<close>

record tool_use_view =
  tu_id :: "string option"
  tu_name :: string
  tu_raw_name :: "string option"
  tu_operation_type :: "string option"
  tu_category :: "operation_category option"
  tu_input :: "json option"

record tool_result_view =
  trv_tool_use_id :: "string option"
  trv_content :: "string option"
  trv_payload :: "json option"
  trv_is_error :: bool

definition use_view :: "block \<Rightarrow> tool_use_view" where
  "use_view b =
     \<lparr>tu_id = b_tool_id b,
      tu_name = unwrap_or ''unknown'' (or_else (b_tool_name_canonical b) (b_tool_name b)),
      tu_raw_name = b_tool_name b, tu_operation_type = b_operation_type b,
      tu_category = b_operation_category b, tu_input = b_tool_input b\<rparr>"

definition result_view :: "block \<Rightarrow> tool_result_view" where
  "result_view b =
     \<lparr>trv_tool_use_id = b_tool_id b, trv_content = b_text b, trv_payload = b_tool_output b,
      trv_is_error = unwrap_or False (b_is_error b)\<rparr>"

definition tool_uses_in :: "stored_event \<Rightarrow> tool_use_view list" where
  "tool_uses_in e = map use_view (filter (\<lambda>b. b_kind b = BToolUse) (se_blocks e))"

definition tool_results_in :: "stored_event \<Rightarrow> tool_result_view list" where
  "tool_results_in e = map result_view (filter (\<lambda>b. b_kind b = BToolResult) (se_blocks e))"

definition text_blocks_in :: "stored_event \<Rightarrow> string list" where
  "text_blocks_in e =
     List.map_filter (\<lambda>b. if b_kind b = BText then b_text b else None) (se_blocks e)"

definition thinking_texts_in :: "stored_event \<Rightarrow> string list" where
  "thinking_texts_in e =
     filter (\<lambda>t. t \<noteq> [])
       (List.map_filter (\<lambda>b. if b_kind b = BThinking then map_option trim (b_text b) else None)
          (se_blocks e))"

definition has_useful_thinking :: "stored_event \<Rightarrow> bool" where
  "has_useful_thinking e \<longleftrightarrow> thinking_texts_in e \<noteq> []"

definition user_prompt_text :: "stored_event \<Rightarrow> string" where
  "user_prompt_text e = join '' '' (text_blocks_in e)"

section \<open>Previews\<close>

text \<open>\<open>ellipsis\<close> is U+2026. Slicing inside a character panics, which is \<open>None\<close>.\<close>

definition ellipsis :: string where
  "ellipsis = [CHR 0xE2, CHR 0x80, CHR 0xA6]"

definition first_paragraph :: "string \<Rightarrow> nat \<Rightarrow> string option" where
  "first_paragraph txt max_len =
     (let trimmed = trim txt
      in if trimmed = [] then Some []
         else let paragraphs = split_str [CHR 0x0A, CHR 0x0A] trimmed;
                  first = join '' '' (split_whitespace (hd paragraphs));
                  has_more = (\<exists>part \<in> set (tl paragraphs). trim part \<noteq> [])
              in if length first \<le> max_len
                 then Some (if has_more then first @ '' '' @ ellipsis else first)
                 else map_option (\<lambda>s. s @ ellipsis) (slice_to first (max_len - 1)))"

definition turn_preview :: "stored_event option \<Rightarrow> stored_event list \<Rightarrow> string option" where
  "turn_preview prompt events =
     (let from_assistant =
            (case find is_assistant_event events of
               None \<Rightarrow> Some ''(no user prompt)''
             | Some a \<Rightarrow>
                 let txt = join '' '' (text_blocks_in a)
                 in if txt = [] then Some ''(no user prompt)''
                    else map_option (\<lambda>p. ''(assistant) '' @ p) (first_paragraph txt 260))
      in case prompt of
           None \<Rightarrow> from_assistant
         | Some p \<Rightarrow>
             if user_prompt_text p \<noteq> [] then first_paragraph (user_prompt_text p) 280
             else from_assistant)"

section \<open>Turns\<close>

record turn_seed =
  sd_id :: int
  sd_prompt :: "stored_event option"
  sd_events :: "stored_event list"
  sd_start :: timestamp
  sd_end :: timestamp
  sd_duration_ms :: int

definition duration_ms_between :: "timestamp \<Rightarrow> timestamp \<Rightarrow> int" where
  "duration_ms_between a b = max ((b - a) div 1000000) 0"

text \<open>\<open>new_turn\<close> starts a turn at a prompt, or, without one, at the event about to be pushed.\<close>

definition new_turn :: "bool \<Rightarrow> stored_event \<Rightarrow> turn_seed" where
  "new_turn is_prompt first =
     \<lparr>sd_id = se_byte_offset first, sd_prompt = (if is_prompt then Some first else None),
      sd_events = (if is_prompt then [first] else []), sd_start = se_timestamp first,
      sd_end = se_timestamp first, sd_duration_ms = 0\<rparr>"

definition push_event :: "turn_seed \<Rightarrow> stored_event \<Rightarrow> turn_seed" where
  "push_event t e =
     t\<lparr>sd_events := sd_events t @ [e], sd_end := se_timestamp e,
       sd_duration_ms := duration_ms_between (sd_start t) (se_timestamp e)\<rparr>"

text \<open>One round of the loop. The current turn is the last one.\<close>

definition group_event :: "turn_seed list \<Rightarrow> stored_event \<Rightarrow> turn_seed list" where
  "group_event turns e =
     (if is_real_user_prompt e then turns @ [new_turn True e]
      else let turns' = (if turns = [] then [new_turn False e] else turns)
           in butlast turns' @ [push_event (last turns') e])"

definition group_into_turns :: "stored_event list \<Rightarrow> turn_seed list" where
  "group_into_turns events = foldl group_event [] events"

end
