(* ===== verification/Timeline_Render.thy ===== *)
theory Timeline_Render
  imports Timeline_Events
begin

text \<open>
  The markdown of a turn (\<^verbatim>\<open>backend/src/ingest/timeline/render.rs\<close>).
\<close>

abbreviation nl :: string where
  "nl \<equiv> [CHR 0x0A]"

abbreviation nl2 :: string where
  "nl2 \<equiv> [CHR 0x0A, CHR 0x0A]"

abbreviation backtick :: string where
  "backtick \<equiv> [CHR 0x60]"

text \<open>The map from pair identifiers to pairs; a repeated identifier keeps the last pair.\<close>

definition pair_by_id :: "tool_pair list \<Rightarrow> string \<Rightarrow> tool_pair option" where
  "pair_by_id pairs = map_of (rev (map (\<lambda>p. (tp_id p, p)) pairs))"

definition pair_operation_type :: "tool_pair \<Rightarrow> string" where
  "pair_operation_type p = unwrap_or (tp_name p) (tp_operation_type p)"

definition truncate :: "string \<Rightarrow> nat \<Rightarrow> string" where
  "truncate txt max_chars =
     (if char_count txt \<le> max_chars then txt else take_chars (max_chars - 1) txt @ ellipsis)"

definition fence :: "string \<Rightarrow> string \<Rightarrow> string" where
  "fence lang body =
     (let f = (if contains_sub body (replicate 3 (CHR 0x60)) then replicate 4 (CHR 0x60)
               else replicate 3 (CHR 0x60))
      in f @ lang @ nl @ body @ nl @ f)"

definition unified_diff :: "string \<Rightarrow> string \<Rightarrow> string" where
  "unified_diff old_text new_text =
     join nl (map (\<lambda>l. ''- '' @ l) (lines old_text) @ map (\<lambda>l. ''+ '' @ l) (lines new_text))"

definition format_prompt :: "string \<Rightarrow> string" where
  "format_prompt txt =
     ''**Prompt**'' @ nl2 @ join nl (map (\<lambda>l. ''> '' @ l) (split_char (CHR 0x0A) txt))"

definition tool_status :: "tool_pair \<Rightarrow> string" where
  "tool_status p =
     (if tp_is_pending p then '' _(pending)_'' else if tp_is_error p then '' _(error)_'' else [])"

definition one_line_summary :: "string \<Rightarrow> json_map \<Rightarrow> string" where
  "one_line_summary op input =
     (let pick = map_str input
      in if op \<in> {''edit'', ''write'', ''multi_edit'', ''read''} then unwrap_or [] (pick ''path'')
         else if op = ''bash'' then unwrap_or [] (pick ''command'')
         else if op = ''exec_command'' then unwrap_or [] (or_else (pick ''cmd'') (pick ''command''))
         else if op \<in> {''grep'', ''glob''} then unwrap_or [] (pick ''pattern'')
         else if op = ''task'' then unwrap_or [] (or_else (pick ''description'') (pick ''agent''))
         else if op = ''web_fetch'' then unwrap_or [] (pick ''url'')
         else if op = ''web_search'' then unwrap_or [] (pick ''query'')
         else [])"

definition tool_one_line :: "tool_pair \<Rightarrow> string" where
  "tool_one_line p =
     (case Option.bind (tp_input p) as_object of
        None \<Rightarrow> []
      | Some input \<Rightarrow>
          let summary = one_line_summary (pair_operation_type p) input
          in if summary = [] then [] else '' '' @ backtick @ truncate summary 160 @ backtick)"

definition arrow :: string where
  "arrow = [CHR 0xE2, CHR 0x86, CHR 0x92]"

definition edit_header :: "string \<Rightarrow> string option \<Rightarrow> string \<Rightarrow> string" where
  "edit_header operation old_path path =
     (case old_path of
        Some from \<Rightarrow>
          if operation = ''move'' then
            ''**'' @ operation @ ''**: '' @ backtick @ from @ backtick @ '' '' @ arrow @ '' ''
              @ backtick @ path @ backtick
          else ''**'' @ operation @ ''**: '' @ backtick @ path @ backtick
      | None \<Rightarrow> ''**'' @ operation @ ''**: '' @ backtick @ path @ backtick)"

definition render_file_edit_entry :: "json \<Rightarrow> string option" where
  "render_file_edit_entry entry =
     (case entry of
        JObj obj \<Rightarrow>
          (let header = edit_header (unwrap_or ''update'' (map_str obj ''operation''))
                          (map_str obj ''old_path'') (unwrap_or ''(no path)'' (map_str obj ''path''))
           in case Option.bind (map_of obj ''in_out'') as_object of
                Some in_out \<Rightarrow>
                  (let old_text = unwrap_or [] (map_str in_out ''old_text'');
                       new_text = unwrap_or [] (map_str in_out ''new_text'')
                   in if old_text = [] \<and> new_text = [] then Some header
                      else Some (header @ nl2 @ fence ''diff'' (unified_diff old_text new_text)))
              | None \<Rightarrow>
                  (case map_str obj ''diff'' of
                     Some diff \<Rightarrow>
                       if blank diff then Some header else Some (header @ nl2 @ fence ''diff'' diff)
                   | None \<Rightarrow> Some header))
      | _ \<Rightarrow> None)"

definition format_file_edits_input :: "json \<Rightarrow> string option" where
  "format_file_edits_input input =
     (case Option.bind (jget input ''file_edits'') as_array of
        None \<Rightarrow> None
      | Some entries \<Rightarrow>
          let chunks = List.map_filter render_file_edit_entry entries
          in if entries = [] \<or> chunks = [] then None
             else Some (join (nl2 @ ''---'' @ nl2) chunks))"

definition format_write_input :: "json \<Rightarrow> string option" where
  "format_write_input input =
     (case as_object input of
        None \<Rightarrow> None
      | Some obj \<Rightarrow>
          let content = unwrap_or [] (map_str obj ''content'')
          in if content = [] then None else Some (fence [] content))"

definition todo_line :: "json_map \<Rightarrow> string" where
  "todo_line todo =
     (let status = (case map_str todo ''status'' of
            Some s \<Rightarrow> if s = ''completed'' then ''[x]'' else if s = ''in_progress'' then ''[~]''
                      else ''[ ]''
          | None \<Rightarrow> ''[ ]'')
      in ''- '' @ status @ '' '' @ unwrap_or [] (map_str todo ''content''))"

definition format_tool_input :: "json_lib \<Rightarrow> tool_pair \<Rightarrow> string option" where
  "format_tool_input J p =
     (case tp_input p of
        None \<Rightarrow> None
      | Some input \<Rightarrow>
          (case format_file_edits_input input of
             Some rendered \<Rightarrow> Some rendered
           | None \<Rightarrow>
               let op = pair_operation_type p
               in if op = ''write'' then format_write_input input
                  else if op = ''bash'' \<or> op = ''exec_command'' then
                    (let command = unwrap_or []
                           (Option.bind (or_else (jget input ''command'') (jget input ''cmd'')) as_str)
                     in if command = [] then None else Some (fence ''bash'' command))
                  else if op = ''todo_write'' then
                    (case Option.bind (jget input ''todos'') as_array of
                       None \<Rightarrow> None
                     | Some todos \<Rightarrow>
                         if todos = [] then None
                         else Some (join nl (map todo_line (List.map_filter as_object todos))))
                  else Some (fence ''json'' (js_pretty J input))))"

definition format_tool_result :: "tool_pair \<Rightarrow> string option" where
  "format_tool_result p =
     (case tp_result p of
        None \<Rightarrow> None
      | Some result \<Rightarrow>
          let body = unwrap_or [] (tr_content result);
              label = (if tp_is_error p then ''Result (error)'' else ''Result'')
          in if body = [] then None else Some (''_'' @ label @ ''_'' @ nl2 @ fence [] body))"

definition format_tool_pair_markdown :: "json_lib \<Rightarrow> tool_pair \<Rightarrow> string" where
  "format_tool_pair_markdown J p =
     join nl2 (List.map_filter id
       [Some (''**Tool:** '' @ backtick @ unwrap_or (tp_name p) (tp_operation_type p) @ backtick
              @ tool_one_line p @ tool_status p),
        format_tool_input J p, format_tool_result p])"

definition block_markdown :: "json_lib \<Rightarrow> (string \<Rightarrow> tool_pair option) \<Rightarrow> block \<Rightarrow> string list" where
  "block_markdown J pairs b =
     (case b_kind b of
        BText \<Rightarrow>
          (case b_text b of
             None \<Rightarrow> []
           | Some t \<Rightarrow> if trim t = [] then [] else [trim t])
      | BToolUse \<Rightarrow>
          (case Option.bind (b_tool_id b) pairs of
             None \<Rightarrow> []
           | Some p \<Rightarrow> [format_tool_pair_markdown J p])
      | _ \<Rightarrow> [])"

definition format_assistant_event_markdown ::
    "json_lib \<Rightarrow> (string \<Rightarrow> tool_pair option) \<Rightarrow> stored_event \<Rightarrow> string" where
  "format_assistant_event_markdown J pairs e =
     join nl2 (concat (map (block_markdown J pairs) (se_blocks e)))"

text \<open>
  The events of a turn other than its prompt. The code skips the prompt by comparing
  addresses; a turn that has a prompt starts with it and holds it once.
\<close>

definition events_after_prompt :: "stored_event option \<Rightarrow> stored_event list \<Rightarrow> stored_event list" where
  "events_after_prompt prompt events = (if prompt = None then events else drop 1 events)"

definition format_turn_markdown ::
    "json_lib \<Rightarrow> stored_event option \<Rightarrow> stored_event list \<Rightarrow> (string \<Rightarrow> tool_pair option) \<Rightarrow> string" where
  "format_turn_markdown J prompt events pairs =
     join nl2
       ((case prompt of
           None \<Rightarrow> []
         | Some p \<Rightarrow>
             if blank (user_prompt_text p) then [] else [format_prompt (user_prompt_text p)])
        @ filter (\<lambda>s. s \<noteq> [])
            (map (format_assistant_event_markdown J pairs)
               (filter (\<lambda>e. \<not> is_tool_result_event e \<and> is_assistant_event e)
                  (events_after_prompt prompt events))))"

definition middle_dot :: string where
  "middle_dot = [CHR 0xC2, CHR 0xB7]"

definition subagent_title :: "tool_pair \<Rightarrow> string" where
  "subagent_title p =
     (case Option.bind (tp_input p) as_object of
        None \<Rightarrow> ''Agent log''
      | Some input \<Rightarrow>
          (case or_else (map_str input ''description'') (map_str input ''agent'') of
             None \<Rightarrow> ''Agent log''
           | Some s \<Rightarrow> ''Agent log '' @ middle_dot @ '' '' @ s))"

end
