(* ===== verification/Timeline_Project.thy ===== *)
theory Timeline_Project
  imports Timeline_Render
begin

text \<open>
  The projection of events to turns (\<^verbatim>\<open>backend/src/ingest/timeline/project.rs\<close>): pairing of
  tool uses with results, chunks, sub-agent lineages and filters. A panic of a preview is
  \<open>None\<close> and goes through everything that calls it.
\<close>

section \<open>Pairing\<close>

record turn_scan =
  sc_results :: "string \<Rightarrow> tool_result_view option"
  sc_use_order :: nat
  sc_uses :: "(string \<times> tool_use_view \<times> stored_event) list"
  sc_thinking :: nat
  sc_errors :: bool

definition scan_empty :: turn_scan where
  "scan_empty =
     \<lparr>sc_results = (\<lambda>_. None), sc_use_order = 0, sc_uses = [], sc_thinking = 0, sc_errors = False\<rparr>"

definition or_noid :: "nat \<Rightarrow> string option \<Rightarrow> string" where
  "or_noid n i = unwrap_or (''noid-'' @ show_nat n) i"

definition scan_use :: "stored_event \<Rightarrow> turn_scan \<Rightarrow> tool_use_view \<Rightarrow> turn_scan" where
  "scan_use e s tool =
     s\<lparr>sc_uses := sc_uses s @ [(or_noid (sc_use_order s) (tu_id tool), tool, e)],
       sc_use_order := sc_use_order s + 1\<rparr>"

definition scan_result :: "turn_scan \<Rightarrow> tool_result_view \<Rightarrow> turn_scan" where
  "scan_result s r =
     s\<lparr>sc_errors := (sc_errors s \<or> trv_is_error r),
       sc_results := (sc_results s)(or_noid (sc_use_order s) (trv_tool_use_id r) \<mapsto> r)\<rparr>"

definition scan_event :: "turn_scan \<Rightarrow> stored_event \<Rightarrow> turn_scan" where
  "scan_event s e =
     (let s1 = (if is_assistant_event e
                then (let s' = foldl (scan_use e) s (tool_uses_in e)
                      in s'\<lparr>sc_thinking :=
                           sc_thinking s' + (if has_useful_thinking e then 1 else 0)\<rparr>)
                else s)
      in if is_tool_result_event e then foldl scan_result s1 (tool_results_in e) else s1)"

definition scan_turn :: "stored_event list \<Rightarrow> turn_scan" where
  "scan_turn events = foldl scan_event scan_empty events"

definition pair_of ::
    "string \<Rightarrow> tool_use_view \<Rightarrow> tool_result_view option \<Rightarrow> subagent option \<Rightarrow> tool_pair" where
  "pair_of i tool r sub =
     ToolPair i (tu_name tool) (tu_raw_name tool) (tu_operation_type tool) (tu_category tool)
       (tu_input tool)
       (map_option (\<lambda>v. \<lparr>tr_content = trv_content v, tr_payload = trv_payload v,
                          tr_is_error = trv_is_error v\<rparr>) r)
       (case r of None \<Rightarrow> False | Some v \<Rightarrow> trv_is_error v) (r = None) [] sub"

section \<open>Chunks\<close>

record pending_assistant =
  pa_items :: "assistant_item list"
  pa_thinking :: "string list"
  pa_has_text :: bool

definition pending_empty :: pending_assistant where
  "pending_empty = \<lparr>pa_items = [], pa_thinking = [], pa_has_text = False\<rparr>"

text \<open>\<open>flush_pending\<close> empties the pending assistant item into the chunks.\<close>

definition flush_pending :: "chunk list \<Rightarrow> pending_assistant \<Rightarrow> chunk list" where
  "flush_pending chunks p =
     (if pa_has_text p \<or> pa_thinking p \<noteq> []
      then chunks @ [ChunkAssistant (pa_items p) (pa_thinking p)] else chunks)"

definition tool_pair_is_visible :: "tool_pair \<Rightarrow> projection_filters \<Rightarrow> bool" where
  "tool_pair_is_visible p f =
     (case tp_category p of None \<Rightarrow> True | Some c \<Rightarrow> c \<notin> hidden_operation_categories f)"

text \<open>One block of an assistant event; the list collects the identifiers of visible pairs.\<close>

definition chunk_block ::
    "(string \<Rightarrow> tool_pair option) \<Rightarrow> projection_filters \<Rightarrow>
     pending_assistant \<times> string list \<Rightarrow> block \<Rightarrow> pending_assistant \<times> string list" where
  "chunk_block pairs f st b =
     (case st of (p, visible) \<Rightarrow>
        (case b_kind b of
           BText \<Rightarrow>
             (case b_text b of
                None \<Rightarrow> (p, visible)
              | Some t \<Rightarrow>
                  if t = [] then (p, visible)
                  else (p\<lparr>pa_items := pa_items p @ [ItemText t], pa_has_text := True\<rparr>, visible))
         | BThinking \<Rightarrow>
             (case b_text b of
                None \<Rightarrow> (p, visible)
              | Some t \<Rightarrow>
                  if trim t = [] then (p, visible)
                  else (p\<lparr>pa_thinking := pa_thinking p @ [trim t]\<rparr>, visible))
         | BToolUse \<Rightarrow>
             (case b_tool_id b of
                None \<Rightarrow> (p, visible)
              | Some i \<Rightarrow>
                  (case pairs i of
                     None \<Rightarrow> (p, visible)
                   | Some pair \<Rightarrow>
                       if tool_pair_is_visible pair f
                       then (p\<lparr>pa_items := pa_items p @ [ItemTool i]\<rparr>, visible @ [i])
                       else (p, visible)))
         | _ \<Rightarrow> (p, visible)))"

definition other_chunk :: "stored_event \<Rightarrow> chunk" where
  "other_chunk e =
     (if is_summary_event e then ChunkSummary (se_subtype e) (join '' '' (text_blocks_in e))
      else if is_system_event e then
        ChunkSystem (se_subtype e) (join '' '' (text_blocks_in e)) (se_is_meta e)
      else ChunkGeneric (se_kind e)
        \<lparr>gd_event_uuid = se_event_uuid e, gd_parent_event_uuid = se_parent_event_uuid e,
         gd_related_tool_use_id = se_related_tool_use_id e, gd_subtype = se_subtype e,
         gd_speaker = se_speaker e, gd_content_kind = se_content_kind e,
         gd_blocks = se_blocks e\<rparr>)"

definition chunk_event ::
    "(string \<Rightarrow> tool_pair option) \<Rightarrow> projection_filters \<Rightarrow>
     chunk list \<times> pending_assistant \<Rightarrow> stored_event \<Rightarrow> chunk list \<times> pending_assistant" where
  "chunk_event pairs f st e =
     (case st of (chunks, p) \<Rightarrow>
        if is_tool_result_event e \<or> \<not> event_is_visible e f then (chunks, p)
        else if is_assistant_event e then
          (case foldl (chunk_block pairs f) (p, []) (se_blocks e) of
             (p', visible) \<Rightarrow>
               if visible = [] then (chunks, p')
               else (flush_pending chunks p' @ map ChunkTool visible, pending_empty))
        else (flush_pending chunks p @ [other_chunk e], pending_empty))"

definition build_chunks ::
    "stored_event option \<Rightarrow> stored_event list \<Rightarrow> (string \<Rightarrow> tool_pair option) \<Rightarrow>
     projection_filters \<Rightarrow> chunk list" where
  "build_chunks prompt events pairs f =
     (case foldl (chunk_event pairs f) ([], pending_empty) (events_after_prompt prompt events) of
        (chunks, p) \<Rightarrow> flush_pending chunks p)"

section \<open>Lineages\<close>

definition lineage_seed :: "stored_event list \<Rightarrow> string \<Rightarrow> string option \<Rightarrow> string set" where
  "lineage_seed events tool_use_id seed_uuid =
     set_option seed_uuid
     \<union> set (List.map_filter
         (\<lambda>e. if se_related_tool_use_id e = Some tool_use_id then se_event_uuid e else None) events)"

text \<open>One event of a round of the closure loop.\<close>

definition lineage_event :: "string set \<Rightarrow> stored_event \<Rightarrow> string set" where
  "lineage_event L e =
     (case (se_event_uuid e, se_parent_event_uuid e) of
        (Some uuid, Some parent) \<Rightarrow>
          if se_is_sidechain e \<and> uuid \<notin> L \<and> parent \<in> L then insert uuid L else L
      | _ \<Rightarrow> L)"

definition lineage_round :: "stored_event list \<Rightarrow> string set \<Rightarrow> string set" where
  "lineage_round events L = foldl lineage_event L events"

text \<open>The loop: rounds until one adds nothing. Every other round adds an event's identifier.\<close>

definition event_ids :: "stored_event list \<Rightarrow> string set" where
  "event_ids events = set (List.map_filter se_event_uuid events)"

lemma lineage_event_mono: "L \<subseteq> lineage_event L e"
  by (auto simp: lineage_event_def split: option.splits)

lemma lineage_event_ids: "lineage_event L e \<subseteq> L \<union> set_option (se_event_uuid e)"
  by (auto simp: lineage_event_def split: option.splits)

lemma lineage_round_mono: "L \<subseteq> lineage_round events L"
  unfolding lineage_round_def
  by (induction events arbitrary: L) (use lineage_event_mono in \<open>fastforce+\<close>)

lemma lineage_round_ids: "lineage_round events L \<subseteq> L \<union> event_ids events"
  unfolding lineage_round_def event_ids_def
proof (induction events arbitrary: L)
  case (Cons e events)
  have "foldl lineage_event L (e # events)
      \<subseteq> lineage_event L e \<union> set (List.map_filter se_event_uuid events)"
    using Cons.IH by simp
  also have "\<dots> \<subseteq> L \<union> set_option (se_event_uuid e) \<union> set (List.map_filter se_event_uuid events)"
    using lineage_event_ids [of L e] by blast
  also have "\<dots> = L \<union> set (List.map_filter se_event_uuid (e # events))"
    by (cases "se_event_uuid e") (auto simp: List.map_filter_simps)
  finally show ?case .
qed simp

lemma lineage_decreases:
  assumes "lineage_round events L \<noteq> L"
  shows "card (event_ids events - lineage_round events L) < card (event_ids events - L)"
proof (rule psubset_card_mono)
  show "finite (event_ids events - L)" by (simp add: event_ids_def)
  show "event_ids events - lineage_round events L \<subset> event_ids events - L"
    using assms lineage_round_mono [of L events] lineage_round_ids [of events L] by blast
qed

function lineage_loop :: "stored_event list \<Rightarrow> string set \<Rightarrow> string set" where
  "lineage_loop events L =
     (let L' = lineage_round events L in if L' = L then L else lineage_loop events L')"
  by pat_completeness auto
termination
  by (relation "measure (\<lambda>(events, L). card (event_ids events - L))")
     (use lineage_decreases in auto)

declare lineage_loop.simps [simp del]

definition in_lineage :: "string set \<Rightarrow> string \<Rightarrow> stored_event \<Rightarrow> bool" where
  "in_lineage L tool_use_id e \<longleftrightarrow>
     se_is_sidechain e \<and> (case se_event_uuid e of None \<Rightarrow> False | Some u \<Rightarrow> u \<in> L)
     \<or> se_related_tool_use_id e = Some tool_use_id"

definition collect_subagent_events ::
    "stored_event list \<Rightarrow> string \<Rightarrow> string option \<Rightarrow> stored_event list" where
  "collect_subagent_events events tool_use_id seed_uuid =
     (let L = lineage_loop events (lineage_seed events tool_use_id seed_uuid)
      in filter (in_lineage L tool_use_id) events)"

section \<open>Turns\<close>

text \<open>
  \<open>link\<close> is how a task pair finds its sub-agent: \<open>project_subagent\<close> at the top level,
  nothing inside a sub-agent.
\<close>

definition pair_with_link ::
    "(tool_pair \<Rightarrow> stored_event \<Rightarrow> subagent option option) \<Rightarrow>
     (string \<Rightarrow> tool_result_view option) \<Rightarrow> string \<times> tool_use_view \<times> stored_event \<Rightarrow>
     tool_pair option" where
  "pair_with_link link results u =
     (case u of (i, tool, e) \<Rightarrow>
        let p = pair_of i tool (results i) None
        in if pair_operation_type p = ''task'' \<and> i \<noteq> []
           then map_option (pair_of i tool (results i)) (link p e)
           else Some p)"

definition project_turn_with ::
    "text_lib \<Rightarrow> (tool_pair \<Rightarrow> stored_event \<Rightarrow> subagent option option) \<Rightarrow> turn_seed \<Rightarrow>
     projection_filters \<Rightarrow> turn option" where
  "project_turn_with X link t f =
     (let s = scan_turn (sd_events t)
      in Option.bind (those (map (pair_with_link link (sc_results s)) (sc_uses s))) (\<lambda>pairs.
         map_option (\<lambda>preview.
           Turn (sd_id t) None preview (map_option user_prompt_text (sd_prompt t)) (sd_start t)
             (sd_end t) (sd_duration_ms t) (length (sd_events t)) (length pairs) pairs
             (sc_thinking s) (sc_errors s)
             (format_turn_markdown (x_json X) (sd_prompt t) (sd_events t) (pair_by_id pairs))
             (build_chunks (sd_prompt t) (sd_events t) (pair_by_id pairs) f)
             None None None None None)
           (turn_preview (sd_prompt t) (sd_events t))))"

definition no_link :: "tool_pair \<Rightarrow> stored_event \<Rightarrow> subagent option option" where
  "no_link p e = Some None"

definition project_subagent ::
    "text_lib \<Rightarrow> stored_event list \<Rightarrow> tool_pair \<Rightarrow> stored_event \<Rightarrow> subagent option option" where
  "project_subagent X all_events p e =
     (let selected = collect_subagent_events all_events (tp_id p) (se_event_uuid e)
      in if selected = [] then Some None
         else map_option (\<lambda>turns. Some (Subagent (subagent_title p) (length selected) turns))
           (those (map (\<lambda>t. project_turn_with X no_link t default_filters)
              (group_into_turns selected))))"

definition project_turn ::
    "text_lib \<Rightarrow> turn_seed \<Rightarrow> stored_event list \<Rightarrow> projection_filters \<Rightarrow> bool \<Rightarrow> turn option" where
  "project_turn X t all_events f include_links =
     project_turn_with X (if include_links then project_subagent X all_events else no_link) t f"

definition project_turns ::
    "text_lib \<Rightarrow> stored_event list \<Rightarrow> stored_event list \<Rightarrow> projection_filters \<Rightarrow> bool \<Rightarrow>
     turn list option" where
  "project_turns X events all_events f include_links =
     those (map (\<lambda>t. project_turn X t all_events f include_links) (group_into_turns events))"

section \<open>Filters\<close>

definition tool_pair_matches_file_path :: "text_lib \<Rightarrow> tool_pair \<Rightarrow> string \<Rightarrow> bool" where
  "tool_pair_matches_file_path X p needle =
     (case Option.bind (tp_input p) as_object of
        None \<Rightarrow> False
      | Some input \<Rightarrow>
          (\<exists>v \<in> set (List.map_filter (map_str input)
                       [''path'', ''pattern'', ''command'', ''query'', ''url'']).
             contains_sub (x_lower X v) needle))"

definition turn_matches_filters :: "text_lib \<Rightarrow> turn \<Rightarrow> projection_filters \<Rightarrow> bool" where
  "turn_matches_filters X t f =
     (if errors_only f \<and> \<not> t_has_errors t then False
      else if trim (pf_file_path f) \<noteq> [] then
        (\<exists>p \<in> set (t_tool_pairs t). tool_pair_matches_file_path X p (x_lower X (pf_file_path f)))
      else True)"

definition project_timeline ::
    "text_lib \<Rightarrow> stored_event list \<Rightarrow> int \<Rightarrow> projection_filters \<Rightarrow> timeline_response option" where
  "project_timeline X events total_count f =
     (let filtered = filter (\<lambda>e. show_sidechain f \<or> \<not> se_is_sidechain e)
            (filter (\<lambda>e. show_bookkeeping f \<or> \<not> is_bookkeeping_event e) events)
      in map_option (\<lambda>turns.
           \<lparr>tl_session_uuid = None, tl_session_agent = None, tl_total_event_count = total_count,
            tl_turns = filter (\<lambda>t. turn_matches_filters X t f) turns\<rparr>)
         (project_turns X filtered events f True))"

end
