(* ===== verification/Timeline_Turns.thy ===== *)
theory Timeline_Turns
  imports Timeline_Project
begin

text \<open>
  What holds of turns: the grouping cuts the events into turns and loses none, uses are
  paired with the last result that carries their identifier, and a sub-agent's events are
  the least set closed under the parent relation.
\<close>

section \<open>Grouping\<close>

definition seed_ok :: "turn_seed \<Rightarrow> bool" where
  "seed_ok t \<longleftrightarrow>
     sd_events t \<noteq> []
     \<and> sd_prompt t = (if is_real_user_prompt (hd (sd_events t)) then Some (hd (sd_events t)) else None)
     \<and> list_all (\<lambda>e. \<not> is_real_user_prompt e) (tl (sd_events t))
     \<and> sd_id t = se_byte_offset (hd (sd_events t))
     \<and> sd_start t = se_timestamp (hd (sd_events t))
     \<and> sd_end t = se_timestamp (last (sd_events t))
     \<and> sd_duration_ms t = duration_ms_between (sd_start t) (sd_end t)"

lemma seed_ok_prompt: "is_real_user_prompt e \<Longrightarrow> seed_ok (new_turn True e)"
  by (simp add: seed_ok_def new_turn_def duration_ms_between_def)

lemma seed_ok_push: "seed_ok t \<Longrightarrow> \<not> is_real_user_prompt e \<Longrightarrow> seed_ok (push_event t e)"
  by (cases "sd_events t") (auto simp: seed_ok_def push_event_def)

lemma seed_ok_first: "\<not> is_real_user_prompt e \<Longrightarrow> seed_ok (push_event (new_turn False e) e)"
  by (simp add: seed_ok_def new_turn_def push_event_def)

definition turns_ok :: "turn_seed list \<Rightarrow> bool" where
  "turns_ok ts \<longleftrightarrow> list_all seed_ok ts \<and> list_all (\<lambda>t. sd_prompt t \<noteq> None) (tl ts)"

lemma turns_ok_snoc:
  "turns_ok (ts @ [t]) \<longleftrightarrow> turns_ok ts \<and> seed_ok t \<and> (ts = [] \<or> sd_prompt t \<noteq> None)"
  by (cases ts) (auto simp: turns_ok_def)

lemma group_event_step:
  "turns_ok ts \<Longrightarrow>
     turns_ok (group_event ts e)
     \<and> concat (map sd_events (group_event ts e)) = concat (map sd_events ts) @ [e]"
proof (cases "is_real_user_prompt e")
  case True
  assume "turns_ok ts"
  with True show ?thesis
    by (simp add: group_event_def turns_ok_snoc seed_ok_prompt) (simp add: new_turn_def)
next
  case False
  assume ok: "turns_ok ts"
  show ?thesis
  proof (cases ts rule: rev_cases)
    case Nil
    with False show ?thesis
      by (simp add: group_event_def turns_ok_def seed_ok_first) (simp add: push_event_def new_turn_def)
  next
    case (snoc us u)
    with ok have u: "turns_ok us" "seed_ok u" "us = [] \<or> sd_prompt u \<noteq> None"
      by (simp_all add: turns_ok_snoc)
    have p: "sd_prompt (push_event u e) = sd_prompt u" "sd_events (push_event u e) = sd_events u @ [e]"
      by (simp_all add: push_event_def)
    from False snoc u show ?thesis
      by (simp add: group_event_def turns_ok_snoc seed_ok_push p)
  qed
qed

lemma group_into_turns_fold:
  "turns_ok ts \<Longrightarrow>
     turns_ok (foldl group_event ts es)
     \<and> concat (map sd_events (foldl group_event ts es)) = concat (map sd_events ts) @ es"
  using group_event_step by (induction es arbitrary: ts) auto

lemma group_ok: "turns_ok (group_into_turns es)"
  and group_concat: "concat (map sd_events (group_into_turns es)) = es"
  using group_into_turns_fold [of "[]" es] by (simp_all add: group_into_turns_def turns_ok_def)

text \<open>
  C24. Grouping cuts the events into turns: laid end to end the turns are the events, in
  order; every turn is non-empty, is named by its first event, spans its first to its last
  time stamp, and holds no prompt but its first event; only the first turn may lack a
  prompt.
\<close>

theorem turns_partition_events:
  "concat (map sd_events (group_into_turns es)) = es
   \<and> list_all seed_ok (group_into_turns es)
   \<and> list_all (\<lambda>t. sd_prompt t \<noteq> None) (tl (group_into_turns es))"
  using group_ok [of es] group_concat [of es] by (simp add: turns_ok_def)

section \<open>Pairing\<close>

text \<open>The uses of the assistant events, in order, with the identifiers that pairs carry.\<close>

definition uses_of :: "stored_event list \<Rightarrow> (tool_use_view \<times> stored_event) list" where
  "uses_of es =
     concat (map (\<lambda>e. if is_assistant_event e then map (\<lambda>u. (u, e)) (tool_uses_in e) else []) es)"

definition keyed_uses :: "stored_event list \<Rightarrow> (string \<times> tool_use_view \<times> stored_event) list" where
  "keyed_uses es = map (\<lambda>(n, u, e). (or_noid n (tu_id u), u, e)) (enumerate 0 (uses_of es))"

text \<open>
  The results, in order, under their identifiers. One without an identifier takes the number
  of the uses up to and including its event.
\<close>

fun keyed_results_from :: "nat \<Rightarrow> stored_event list \<Rightarrow> (string \<times> tool_result_view) list" where
  "keyed_results_from n [] = []"
| "keyed_results_from n (e # es) =
     (let n' = n + length (uses_of [e])
      in map (\<lambda>r. (or_noid n' (trv_tool_use_id r), r)) (tool_results_in e)
         @ keyed_results_from n' es)"

abbreviation keyed_results :: "stored_event list \<Rightarrow> (string \<times> tool_result_view) list" where
  "keyed_results \<equiv> keyed_results_from 0"

lemma scan_uses_fold:
  "foldl (scan_use e) s us =
     s\<lparr>sc_uses := sc_uses s
         @ map (\<lambda>(n, u). (or_noid n (tu_id u), u, e)) (enumerate (sc_use_order s) us),
       sc_use_order := sc_use_order s + length us\<rparr>"
  by (induction us arbitrary: s) (simp_all add: scan_use_def)

lemma scan_results_fold:
  "foldl scan_result s rs =
     s\<lparr>sc_errors := (sc_errors s \<or> list_ex trv_is_error rs),
       sc_results := sc_results s
         ++ map_of (rev (map (\<lambda>r. (or_noid (sc_use_order s) (trv_tool_use_id r), r)) rs))\<rparr>"
proof (induction rs arbitrary: s)
  case Nil
  show ?case by simp
next
  case (Cons r rs)
  have "(sc_results s)(k \<mapsto> r) ++ m = sc_results s ++ ([k \<mapsto> r] ++ m)" for k m
    by (rule ext) (simp add: map_add_def split: option.split)
  then show ?case by (simp add: Cons.IH) (simp add: scan_result_def disj_assoc)
qed

lemma no_results: "\<not> is_tool_result_event e \<longleftrightarrow> tool_results_in e = []"
  by (auto simp: is_tool_result_event_def tool_results_in_def filter_empty_conv)

lemma scan_event_fields:
  "sc_use_order (scan_event s e) = sc_use_order s + length (uses_of [e])"
  "sc_uses (scan_event s e) = sc_uses s
     @ map (\<lambda>(n, u, e). (or_noid n (tu_id u), u, e)) (enumerate (sc_use_order s) (uses_of [e]))"
  "sc_results (scan_event s e) = sc_results s ++ map_of (rev (map
     (\<lambda>r. (or_noid (sc_use_order s + length (uses_of [e])) (trv_tool_use_id r), r)) (tool_results_in e)))"
  "sc_errors (scan_event s e) = (sc_errors s \<or> list_ex trv_is_error (tool_results_in e))"
proof -
  have en: "enumerate n (map (\<lambda>u. (u, e)) us) = map (\<lambda>(n, u). (n, u, e)) (enumerate n us)"
    for n and us :: "tool_use_view list"
    by (induction us arbitrary: n) auto
  have u: "uses_of [e] = (if is_assistant_event e then map (\<lambda>u. (u, e)) (tool_uses_in e) else [])"
    by (simp add: uses_of_def)
  show "sc_use_order (scan_event s e) = sc_use_order s + length (uses_of [e])"
    by (simp add: scan_event_def scan_uses_fold scan_results_fold u)
  show "sc_uses (scan_event s e) = sc_uses s
     @ map (\<lambda>(n, u, e). (or_noid n (tu_id u), u, e)) (enumerate (sc_use_order s) (uses_of [e]))"
    by (simp add: scan_event_def scan_uses_fold scan_results_fold u en case_prod_unfold comp_def)
  show "sc_results (scan_event s e) = sc_results s ++ map_of (rev (map
     (\<lambda>r. (or_noid (sc_use_order s + length (uses_of [e])) (trv_tool_use_id r), r)) (tool_results_in e)))"
    using no_results [of e] by (auto simp: scan_event_def scan_uses_fold scan_results_fold u)
  show "sc_errors (scan_event s e) = (sc_errors s \<or> list_ex trv_is_error (tool_results_in e))"
    using no_results [of e] by (auto simp: scan_event_def scan_uses_fold scan_results_fold)
qed

lemma uses_of_Cons: "uses_of (e # es) = uses_of [e] @ uses_of es"
  by (simp add: uses_of_def)

lemma enumerate_append': "enumerate n (xs @ ys) = enumerate n xs @ enumerate (n + length xs) ys"
  by (induction xs arbitrary: n) simp_all

lemma scan_fold:
  "sc_uses (foldl scan_event s es) = sc_uses s
     @ map (\<lambda>(n, u, e). (or_noid n (tu_id u), u, e)) (enumerate (sc_use_order s) (uses_of es))
   \<and> sc_results (foldl scan_event s es)
       = sc_results s ++ map_of (rev (keyed_results_from (sc_use_order s) es))
   \<and> sc_errors (foldl scan_event s es)
       = (sc_errors s \<or> (\<exists>e \<in> set es. list_ex trv_is_error (tool_results_in e)))"
proof (induction es arbitrary: s)
  case Nil
  show ?case by (simp add: uses_of_def)
next
  case (Cons e es)
  show ?case
    using Cons.IH [of "scan_event s e"]
    by (simp add: scan_event_fields uses_of_Cons [of e es] enumerate_append' Let_def)
qed

lemma scan_turn_fields:
  "sc_uses (scan_turn es) = keyed_uses es"
  "sc_results (scan_turn es) = map_of (rev (keyed_results es))"
  "sc_errors (scan_turn es) \<longleftrightarrow> (\<exists>e \<in> set es. list_ex trv_is_error (tool_results_in e))"
  using scan_fold [of scan_empty es]
  by (simp_all add: scan_turn_def scan_empty_def keyed_uses_def)

lemma those_Some_iff: "those xs = Some ys \<longleftrightarrow> xs = map Some ys"
  by (induction xs arbitrary: ys) (auto split: option.splits)

text \<open>A pair shows the view of its use and the given result.\<close>

definition pair_shows :: "tool_pair \<Rightarrow> string \<Rightarrow> tool_use_view \<Rightarrow> tool_result_view option \<Rightarrow> bool" where
  "pair_shows p i u r \<longleftrightarrow>
     tp_id p = i \<and> tp_name p = tu_name u \<and> tp_input p = tu_input u \<and> tp_category p = tu_category u
     \<and> tp_is_pending p = (r = None)
     \<and> tp_is_error p = (case r of None \<Rightarrow> False | Some v \<Rightarrow> trv_is_error v)
     \<and> map_option tr_content (tp_result p) = map_option trv_content r
     \<and> map_option tr_payload (tp_result p) = map_option trv_payload r"

lemma pair_with_link_shows:
  "pair_with_link link results (i, u, e) = Some p \<Longrightarrow> pair_shows p i u (results i)"
  by (auto simp: pair_with_link_def Let_def pair_shows_def pair_of_def option.map_comp comp_def
      split: if_splits option.splits)

text \<open>
  C12. Pairing. A projected turn has one pair per tool use of its assistant events, in
  order. A pair shows the last result of the turn that carries its identifier, wherever in
  the turn it stands, and is pending exactly when there is none; the turn has errors exactly
  when some result in it is an error, paired or not.
\<close>

theorem pairs_take_last_result:
  assumes "project_turn X seed all_events f links = Some t"
  shows "length (t_tool_pairs t) = length (keyed_uses (sd_events seed))
    \<and> t_operation_count t = length (t_tool_pairs t)
    \<and> (t_has_errors t \<longleftrightarrow> (\<exists>e \<in> set (sd_events seed). list_ex trv_is_error (tool_results_in e)))
    \<and> (\<forall>n < length (t_tool_pairs t). case keyed_uses (sd_events seed) ! n of (i, u, e) \<Rightarrow>
         pair_shows (t_tool_pairs t ! n) i u (map_of (rev (keyed_results (sd_events seed))) i))"
proof -
  let ?link = "if links then project_subagent X all_events else no_link"
  obtain pairs pv where p: "those (map (pair_with_link ?link (map_of (rev (keyed_results (sd_events seed)))))
      (keyed_uses (sd_events seed))) = Some pairs" "turn_preview (sd_prompt seed) (sd_events seed) = Some pv"
    and t: "t_tool_pairs t = pairs" "t_operation_count t = length pairs"
      "t_has_errors t = sc_errors (scan_turn (sd_events seed))"
    using assms by (auto simp: project_turn_def project_turn_with_def Let_def scan_turn_fields
        bind_eq_Some_conv)
  from p(1) have m: "map (pair_with_link ?link (map_of (rev (keyed_results (sd_events seed)))))
      (keyed_uses (sd_events seed)) = map Some pairs" by (simp add: those_Some_iff)
  then have len: "length pairs = length (keyed_uses (sd_events seed))" by (metis length_map)
  have "case keyed_uses (sd_events seed) ! n of (i, u, e) \<Rightarrow>
      pair_shows (pairs ! n) i u (map_of (rev (keyed_results (sd_events seed))) i)"
    if "n < length pairs" for n
  proof -
    obtain i u e where k: "keyed_uses (sd_events seed) ! n = (i, u, e)" by (metis prod_cases3)
    have "pair_with_link ?link (map_of (rev (keyed_results (sd_events seed))))
        (keyed_uses (sd_events seed) ! n) = Some (pairs ! n)"
      using m that len by (metis nth_map)
    with k show ?thesis by (simp add: pair_with_link_shows)
  qed
  then show ?thesis using t len by (simp add: scan_turn_fields)
qed

text \<open>A small turn: a prompt, one call, and two results for it, the second an error.\<close>

definition sample_event :: "int \<Rightarrow> string \<Rightarrow> block list \<Rightarrow> stored_event" where
  "sample_event off who bs =
     \<lparr>se_byte_offset = off, se_timestamp = off, se_kind = who, se_agent = ''claude-code'',
      se_speaker = Some who, se_content_kind = None, se_event_uuid = None,
      se_parent_event_uuid = None, se_related_tool_use_id = None, se_is_sidechain = False,
      se_is_meta = False, se_subtype = None, se_blocks = bs\<rparr>"

definition sample_use :: "string option \<Rightarrow> block" where
  "sample_use i = (blank_block 0 BToolUse)\<lparr>b_tool_id := i, b_tool_name := Some ''Bash''\<rparr>"

definition sample_result :: "string option \<Rightarrow> string \<Rightarrow> bool \<Rightarrow> block" where
  "sample_result i txt err =
     (blank_block 0 BToolResult)\<lparr>b_tool_id := i, b_text := Some txt, b_is_error := Some err\<rparr>"

definition sample_events :: "stored_event list" where
  "sample_events =
     [sample_event 0 ''user'' [block_text 0 ''go''],
      sample_event 10 ''assistant'' [sample_use (Some ''a'')],
      sample_event 20 ''user'' [sample_result (Some ''a'') ''one'' False],
      sample_event 30 ''user'' [sample_result (Some ''a'') ''two'' True]]"

definition sample_text :: text_lib where
  "sample_text =
     \<lparr>x_json = \<lparr>js_print = (\<lambda>_. ''{}''), js_pretty = (\<lambda>_. ''{}''), js_parse = (\<lambda>_. None)\<rparr>,
      x_lower = id\<rparr>"

definition sample_seed :: turn_seed where
  "sample_seed = hd (group_into_turns sample_events)"

lemma sample_projects:
  "case project_turn sample_text sample_seed sample_events default_filters True of
     None \<Rightarrow> False | Some t \<Rightarrow> t_operation_count t = 1"
  by code_simp

lemma sample_keyed:
  "map fst (keyed_uses (sd_events sample_seed)) = [''a'']"
  "map_option trv_is_error (map_of (rev (keyed_results (sd_events sample_seed))) ''a'') = Some True"
  "list_ex (\<lambda>e. list_ex trv_is_error (tool_results_in e)) (sd_events sample_seed)"
  by code_simp+

theorem pairs_take_last_result_witness:
  "\<exists>t. project_turn sample_text sample_seed sample_events default_filters True = Some t
     \<and> t_has_errors t \<and> map tp_is_error (t_tool_pairs t) = [True]"
proof -
  obtain t where t: "project_turn sample_text sample_seed sample_events default_filters True = Some t"
    "t_operation_count t = 1"
    using sample_projects by (auto split: option.splits)
  note th = pairs_take_last_result [OF t(1)]
  from th t(2) have len: "length (t_tool_pairs t) = 1" by simp
  obtain i u e where k: "keyed_uses (sd_events sample_seed) ! 0 = (i, u, e)" by (metis prod_cases3)
  from th len k have p: "pair_shows (t_tool_pairs t ! 0) i u
      (map_of (rev (keyed_results (sd_events sample_seed))) i)" by auto
  have i: "i = ''a''"
  proof (cases "keyed_uses (sd_events sample_seed)")
    case Nil
    with sample_keyed(1) show ?thesis by simp
  next
    case (Cons x xs)
    with sample_keyed(1) k show ?thesis by simp
  qed
  obtain v where v: "map_of (rev (keyed_results (sd_events sample_seed))) ''a'' = Some v"
    "trv_is_error v" using sample_keyed(2) unfolding map_option_eq_Some by blast
  have err: "tp_is_error (t_tool_pairs t ! 0)"
    using p i v by (simp add: pair_shows_def)
  have one: "t_tool_pairs t = [t_tool_pairs t ! 0]"
    using len by (cases "t_tool_pairs t") simp_all
  have "map tp_is_error (t_tool_pairs t) = map tp_is_error [t_tool_pairs t ! 0]"
    by (rule arg_cong [OF one])
  then have errs: "map tp_is_error (t_tool_pairs t) = [True]" using err by simp
  from th have "t_has_errors t \<longleftrightarrow>
      (\<exists>e \<in> set (sd_events sample_seed). list_ex trv_is_error (tool_results_in e))" by (elim conjE)
  then have "t_has_errors t" using sample_keyed(3) by (simp only: list_ex_iff)
  then show ?thesis by (intro exI [of _ t] conjI t(1) errs)
qed

section \<open>Lineages\<close>

text \<open>
  The events of a sub-agent run: what the call itself names, and every side-chain event whose
  parent belongs to it.
\<close>

inductive in_closure :: "stored_event list \<Rightarrow> string set \<Rightarrow> string \<Rightarrow> bool"
  for events :: "stored_event list" and S :: "string set" where
  seed: "u \<in> S \<Longrightarrow> in_closure events S u"
| child: "in_closure events S parent \<Longrightarrow> e \<in> set events \<Longrightarrow> se_is_sidechain e \<Longrightarrow>
    se_event_uuid e = Some u \<Longrightarrow> se_parent_event_uuid e = Some parent \<Longrightarrow> in_closure events S u"

lemma lineage_round_sound:
  "\<forall>u \<in> L. in_closure all S u \<Longrightarrow> set events \<subseteq> set all \<Longrightarrow>
     u \<in> foldl lineage_event L events \<Longrightarrow> in_closure all S u"
proof (induction events arbitrary: L)
  case (Cons e events)
  have "\<forall>u \<in> lineage_event L e. in_closure all S u"
    using Cons.prems(1,2)
    by (auto simp: lineage_event_def intro: in_closure.child split: option.splits if_splits)
  then show ?case using Cons.IH Cons.prems by auto
qed auto

lemma lineage_loop_sound:
  "\<forall>u \<in> L. in_closure events S u \<Longrightarrow> u \<in> lineage_loop events L \<Longrightarrow> in_closure events S u"
proof (induction events L rule: lineage_loop.induct)
  case (1 events L)
  have r: "\<forall>u \<in> lineage_round events L. in_closure events S u"
    using lineage_round_sound [of L events S events] "1.prems"(1) by (auto simp: lineage_round_def)
  show ?case
  proof (cases "lineage_round events L = L")
    case True
    then show ?thesis using "1.prems" by (simp add: lineage_loop.simps [of events L])
  next
    case False
    then have "u \<in> lineage_loop events (lineage_round events L)"
      using "1.prems"(2) by (simp add: lineage_loop.simps [of events L] Let_def)
    then show ?thesis using "1.IH" [OF refl False r] by simp
  qed
qed

lemma lineage_loop_mono: "L \<subseteq> lineage_loop events L"
proof (induction events L rule: lineage_loop.induct)
  case (1 events L)
  then show ?case
    using lineage_round_mono [of L events]
    by (cases "lineage_round events L = L") (auto simp: lineage_loop.simps [of events L] Let_def)
qed

lemma lineage_loop_fixed: "lineage_round events (lineage_loop events L) = lineage_loop events L"
proof (induction events L rule: lineage_loop.induct)
  case (1 events L)
  then show ?case
    by (cases "lineage_round events L = L") (simp_all add: lineage_loop.simps [of events L] Let_def)
qed

lemma lineage_event_adds:
  "se_is_sidechain e \<Longrightarrow> se_event_uuid e = Some u \<Longrightarrow> se_parent_event_uuid e = Some q \<Longrightarrow> q \<in> L \<Longrightarrow>
     u \<in> lineage_event L e"
  by (auto simp: lineage_event_def)

lemma lineage_round_adds:
  "e \<in> set events \<Longrightarrow> se_is_sidechain e \<Longrightarrow> se_event_uuid e = Some u \<Longrightarrow>
     se_parent_event_uuid e = Some q \<Longrightarrow> q \<in> L \<Longrightarrow> u \<in> lineage_round events L"
proof (induction events arbitrary: L)
  case (Cons a events)
  show ?case
  proof (cases "a = e")
    case True
    then have "u \<in> lineage_event L a" using Cons.prems lineage_event_adds by auto
    then show ?thesis
      using lineage_round_mono [of "lineage_event L a" events] by (auto simp: lineage_round_def)
  next
    case False
    have "q \<in> lineage_event L a" using Cons.prems(5) lineage_event_mono by blast
    then show ?thesis
      using False Cons.IH [of "lineage_event L a"] Cons.prems by (auto simp: lineage_round_def)
  qed
qed simp

lemma lineage_loop_closure: "u \<in> lineage_loop events S \<longleftrightarrow> in_closure events S u"
proof
  assume "u \<in> lineage_loop events S"
  then show "in_closure events S u" by (rule lineage_loop_sound [rotated]) (auto intro: in_closure.seed)
next
  assume "in_closure events S u"
  then show "u \<in> lineage_loop events S"
  proof (induction rule: in_closure.induct)
    case (seed u)
    then show ?case using lineage_loop_mono by blast
  next
    case (child parent e u)
    then show ?case using lineage_round_adds lineage_loop_fixed by blast
  qed
qed

text \<open>
  C27. The loop that collects a sub-agent's events ends, and what it returns are, in
  order, exactly the events tied to the call and the side-chain events in the least set that
  holds the call's own event, the events tied to the call, and every side-chain child of a
  member.
\<close>

theorem subagent_events_are_closure:
  "collect_subagent_events events tool_use_id seed_uuid =
     filter (\<lambda>e. se_related_tool_use_id e = Some tool_use_id
       \<or> se_is_sidechain e \<and> (\<exists>u. se_event_uuid e = Some u
            \<and> in_closure events (set_option seed_uuid
                \<union> {v. \<exists>d \<in> set events. se_related_tool_use_id d = Some tool_use_id
                        \<and> se_event_uuid d = Some v}) u)) events"
proof -
  have s: "lineage_seed events tool_use_id seed_uuid
      = set_option seed_uuid \<union> {v. \<exists>d \<in> set events. se_related_tool_use_id d = Some tool_use_id
                        \<and> se_event_uuid d = Some v}"
    by (auto simp: lineage_seed_def List.map_filter_def split: if_splits) force
  show ?thesis
    unfolding collect_subagent_events_def Let_def s
    by (rule filter_cong) (auto simp: in_lineage_def lineage_loop_closure split: option.splits)
qed

end
