(* ===== verification/Timeline_Chunks.thy ===== *)
theory Timeline_Chunks
  imports Timeline_Turns
begin

text \<open>
  What the chunks of a turn show: everything that the filters leave, once and in order, and
  nothing else.
\<close>

section \<open>What chunks and events show\<close>

definition item_texts :: "assistant_item list \<Rightarrow> string list" where
  "item_texts items = List.map_filter (\<lambda>i. case i of ItemText t \<Rightarrow> Some t | ItemTool _ \<Rightarrow> None) items"

fun chunk_texts :: "chunk \<Rightarrow> string list" where
  "chunk_texts (ChunkAssistant items _) = item_texts items"
| "chunk_texts _ = []"

fun chunk_thoughts :: "chunk \<Rightarrow> string list" where
  "chunk_thoughts (ChunkAssistant _ thoughts) = thoughts"
| "chunk_thoughts _ = []"

fun chunk_tools :: "chunk \<Rightarrow> string list" where
  "chunk_tools (ChunkTool i) = [i]"
| "chunk_tools _ = []"

fun chunk_others :: "chunk \<Rightarrow> chunk list" where
  "chunk_others (ChunkAssistant _ _) = []"
| "chunk_others (ChunkTool _) = []"
| "chunk_others c = [c]"

definition shown_texts :: "stored_event \<Rightarrow> string list" where
  "shown_texts e = filter (\<lambda>t. t \<noteq> []) (text_blocks_in e)"

definition shown_tool :: "(string \<Rightarrow> tool_pair option) \<Rightarrow> projection_filters \<Rightarrow> block \<Rightarrow> string option" where
  "shown_tool pairs f b =
     (if b_kind b = BToolUse
      then opt_filter (\<lambda>i. case pairs i of None \<Rightarrow> False
          | Some p \<Rightarrow> \<forall>c. tp_category p = Some c \<longrightarrow> c \<notin> hidden_operation_categories f) (b_tool_id b)
      else None)"

definition shown_tools :: "(string \<Rightarrow> tool_pair option) \<Rightarrow> projection_filters \<Rightarrow> stored_event \<Rightarrow> string list" where
  "shown_tools pairs f e = List.map_filter (shown_tool pairs f) (se_blocks e)"

section \<open>The fold over the blocks\<close>

definition pending_ok :: "pending_assistant \<Rightarrow> bool" where
  "pending_ok p \<longleftrightarrow> (pa_has_text p \<longleftrightarrow> item_texts (pa_items p) \<noteq> [])"

lemma item_texts_simps [simp]:
  "item_texts [] = []" "item_texts (xs @ ys) = item_texts xs @ item_texts ys"
  "item_texts [ItemText t] = [t]" "item_texts [ItemTool i] = []"
  by (simp_all add: item_texts_def List.map_filter_def)

definition block_texts :: "block \<Rightarrow> string list" where
  "block_texts b = (if b_kind b = BText then filter (\<lambda>t. t \<noteq> []) (case b_text b of None \<Rightarrow> [] | Some t \<Rightarrow> [t]) else [])"

definition block_thoughts :: "block \<Rightarrow> string list" where
  "block_thoughts b = (if b_kind b = BThinking
     then filter (\<lambda>t. t \<noteq> []) (case b_text b of None \<Rightarrow> [] | Some t \<Rightarrow> [trim t]) else [])"

lemma chunk_block_step:
  assumes "chunk_block pairs f (p, v) b = (p', v')"
  shows "item_texts (pa_items p') = item_texts (pa_items p) @ block_texts b"
    and "pa_thinking p' = pa_thinking p @ block_thoughts b"
    and "v' = v @ (case shown_tool pairs f b of None \<Rightarrow> [] | Some i \<Rightarrow> [i])"
    and "pending_ok p \<Longrightarrow> pending_ok p'"
  using assms
  by (auto simp: chunk_block_def block_texts_def block_thoughts_def shown_tool_def pending_ok_def
      opt_filter_def tool_pair_is_visible_def split: block_kind.splits option.splits if_splits)

lemma chunk_block_fold:
  assumes "foldl (chunk_block pairs f) (p, v) bs = (p', v')"
  shows "item_texts (pa_items p') = item_texts (pa_items p) @ concat (map block_texts bs)
    \<and> pa_thinking p' = pa_thinking p @ concat (map block_thoughts bs)
    \<and> v' = v @ List.map_filter (shown_tool pairs f) bs \<and> (pending_ok p \<longrightarrow> pending_ok p')"
  using assms
proof (induction bs arbitrary: p v)
  case (Cons b bs)
  obtain q w where q: "chunk_block pairs f (p, v) b = (q, w)" by fastforce
  from Cons.IH [of q w] Cons.prems q chunk_block_step [OF q] show ?case
    by (auto simp: List.map_filter_simps split: option.splits)
qed (simp add: List.map_filter_simps)

lemma blocks_shown:
  "concat (map block_texts (se_blocks e)) = shown_texts e"
  "concat (map block_thoughts (se_blocks e)) = thinking_texts_in e"
proof -
  have "concat (map block_texts bs)
      = filter (\<lambda>t. t \<noteq> []) (List.map_filter (\<lambda>b. if b_kind b = BText then b_text b else None) bs)" for bs
    by (induction bs) (auto simp: block_texts_def List.map_filter_simps split: option.splits)
  then show "concat (map block_texts (se_blocks e)) = shown_texts e"
    by (simp add: shown_texts_def text_blocks_in_def)
  have "concat (map block_thoughts bs) = filter (\<lambda>t. t \<noteq> [])
      (List.map_filter (\<lambda>b. if b_kind b = BThinking then map_option trim (b_text b) else None) bs)" for bs
    by (induction bs) (auto simp: block_thoughts_def List.map_filter_simps split: option.splits)
  then show "concat (map block_thoughts (se_blocks e)) = thinking_texts_in e"
    by (simp add: thinking_texts_in_def)
qed

section \<open>The fold over the events\<close>

lemma flush_shows:
  "pending_ok p \<Longrightarrow> concat (map chunk_texts (flush_pending cs p))
     = concat (map chunk_texts cs) @ item_texts (pa_items p)"
  "concat (map chunk_thoughts (flush_pending cs p)) = concat (map chunk_thoughts cs) @ pa_thinking p"
  "concat (map chunk_tools (flush_pending cs p)) = concat (map chunk_tools cs)"
  "concat (map chunk_others (flush_pending cs p)) = concat (map chunk_others cs)"
  by (auto simp: flush_pending_def pending_ok_def)

lemma tool_chunks_show:
  "concat (map chunk_texts (map ChunkTool is)) = []" "concat (map chunk_thoughts (map ChunkTool is)) = []"
  "concat (map chunk_tools (map ChunkTool is)) = is" "concat (map chunk_others (map ChunkTool is)) = []"
  by (induction "is") simp_all

lemma other_chunk_shows:
  "chunk_texts (other_chunk e) = []" "chunk_thoughts (other_chunk e) = []"
  "chunk_tools (other_chunk e) = []" "chunk_others (other_chunk e) = [other_chunk e]"
  by (simp_all add: other_chunk_def)

lemma pending_empty_ok [simp]:
  "pending_ok pending_empty" "pa_items pending_empty = []" "pa_thinking pending_empty = []"
  by (simp_all add: pending_ok_def pending_empty_def)

definition visible :: "projection_filters \<Rightarrow> stored_event \<Rightarrow> bool" where
  "visible f e \<longleftrightarrow> \<not> is_tool_result_event e \<and> event_is_visible e f"

definition of_assistant :: "projection_filters \<Rightarrow> (stored_event \<Rightarrow> 'a list) \<Rightarrow> stored_event list \<Rightarrow> 'a list" where
  "of_assistant f g es = concat (map g (filter (\<lambda>e. visible f e \<and> is_assistant_event e) es))"

lemma of_assistant_simps [simp]:
  "of_assistant f g [] = []"
  "of_assistant f g (e # es) = (if visible f e \<and> is_assistant_event e then g e else []) @ of_assistant f g es"
  by (simp_all add: of_assistant_def)

definition others :: "projection_filters \<Rightarrow> stored_event list \<Rightarrow> chunk list" where
  "others f es = map other_chunk (filter (\<lambda>e. visible f e \<and> \<not> is_assistant_event e) es)"

lemma chunk_event_fold:
  assumes "foldl (chunk_event pairs f) (cs, p) es = (cs', p')" and "pending_ok p"
  shows "concat (map chunk_texts cs') @ item_texts (pa_items p')
      = concat (map chunk_texts cs) @ item_texts (pa_items p) @ of_assistant f shown_texts es
    \<and> concat (map chunk_thoughts cs') @ pa_thinking p'
      = concat (map chunk_thoughts cs) @ pa_thinking p @ of_assistant f thinking_texts_in es
    \<and> concat (map chunk_tools cs')
      = concat (map chunk_tools cs) @ of_assistant f (shown_tools pairs f) es
    \<and> concat (map chunk_others cs') = concat (map chunk_others cs) @ others f es
    \<and> pending_ok p'"
  using assms
proof (induction es arbitrary: cs p)
  case (Cons e es)
  obtain ds q where d: "chunk_event pairs f (cs, p) e = (ds, q)" by fastforce
  have step: "pending_ok q
    \<and> concat (map chunk_texts ds) @ item_texts (pa_items q)
      = concat (map chunk_texts cs) @ item_texts (pa_items p) @ of_assistant f shown_texts [e]
    \<and> concat (map chunk_thoughts ds) @ pa_thinking q
      = concat (map chunk_thoughts cs) @ pa_thinking p @ of_assistant f thinking_texts_in [e]
    \<and> concat (map chunk_tools ds)
      = concat (map chunk_tools cs) @ of_assistant f (shown_tools pairs f) [e]
    \<and> concat (map chunk_others ds) = concat (map chunk_others cs) @ others f [e]"
  proof (cases "visible f e \<and> is_assistant_event e")
    case True
    obtain r v where r: "foldl (chunk_block pairs f) (p, []) (se_blocks e) = (r, v)" by fastforce
    note b = chunk_block_fold [OF r, unfolded blocks_shown]
    have ok: "pending_ok r" using b Cons.prems(2) by blast
    from d True r have ds: "(ds, q) = (if v = [] then (cs, r)
        else (flush_pending cs r @ map ChunkTool v, pending_empty))"
      by (simp add: chunk_event_def visible_def)
    show ?thesis
      using True ds b ok flush_shows [where p = r and cs = cs] tool_chunks_show [of v]
      by (cases "v = []") (simp_all add: shown_tools_def others_def)
  next
    case False
    then show ?thesis
      using d Cons.prems(2) flush_shows [where p = p and cs = cs]
      by (auto simp: chunk_event_def visible_def others_def other_chunk_shows split: if_splits)
  qed
  have "foldl (chunk_event pairs f) (ds, q) es = (cs', p')" using Cons.prems(1) d by simp
  from Cons.IH [OF this] step show ?case
    by (auto simp: others_def)
qed (simp add: others_def)

lemma chunks_keep_content:
  "concat (map chunk_texts (build_chunks prompt events pairs f))
     = of_assistant f shown_texts (events_after_prompt prompt events)
   \<and> concat (map chunk_thoughts (build_chunks prompt events pairs f))
     = of_assistant f thinking_texts_in (events_after_prompt prompt events)
   \<and> concat (map chunk_tools (build_chunks prompt events pairs f))
     = of_assistant f (shown_tools pairs f) (events_after_prompt prompt events)
   \<and> concat (map chunk_others (build_chunks prompt events pairs f))
     = others f (events_after_prompt prompt events)"
proof -
  obtain cs p where c: "foldl (chunk_event pairs f) ([], pending_empty)
      (events_after_prompt prompt events) = (cs, p)" by fastforce
  from chunk_event_fold [OF c] show ?thesis
    by (simp add: build_chunks_def c flush_shows)
qed

section \<open>The chunks, written down\<close>

text \<open>An event that is shown: it holds no tool result and its speaker is not hidden.\<close>

definition shown_event :: "projection_filters \<Rightarrow> stored_event \<Rightarrow> bool" where
  "shown_event f e \<longleftrightarrow> (\<forall>b \<in> set (se_blocks e). b_kind b \<noteq> BToolResult)
     \<and> \<not> (event_speaker e = ''assistant'' \<and> FacetAssistant \<in> hidden_speakers f)
     \<and> \<not> (event_speaker e = ''user'' \<and> FacetUser \<in> hidden_speakers f)"

text \<open>The chunk of an event of another speaker.\<close>

definition event_chunk :: "stored_event \<Rightarrow> chunk" where
  "event_chunk e =
     (let words = join '' '' [t. b \<leftarrow> se_blocks e, b_kind b = BText, t \<leftarrow> (case b_text b of None \<Rightarrow> [] | Some t \<Rightarrow> [t])]
      in if event_speaker e = ''summary'' then ChunkSummary (se_subtype e) words
         else if event_speaker e = ''system'' then ChunkSystem (se_subtype e) words (se_is_meta e)
         else ChunkGeneric (se_kind e)
           \<lparr>gd_event_uuid = se_event_uuid e, gd_parent_event_uuid = se_parent_event_uuid e,
            gd_related_tool_use_id = se_related_tool_use_id e, gd_subtype = se_subtype e,
            gd_speaker = se_speaker e, gd_content_kind = se_content_kind e, gd_blocks = se_blocks e\<rparr>)"

text \<open>What a run of assistant events shows: its texts and tool uses in order, and its thoughts.\<close>

definition shown_item :: "(string \<Rightarrow> tool_pair option) \<Rightarrow> projection_filters \<Rightarrow> block \<Rightarrow> assistant_item option" where
  "shown_item pairs f b =
     (if b_kind b = BText \<and> b_text b \<noteq> None \<and> b_text b \<noteq> Some [] then Some (ItemText (the (b_text b)))
      else map_option ItemTool (shown_tool pairs f b))"

definition run_items ::
    "(string \<Rightarrow> tool_pair option) \<Rightarrow> projection_filters \<Rightarrow> stored_event list \<Rightarrow> assistant_item list" where
  "run_items pairs f es = concat (map (\<lambda>e. List.map_filter (shown_item pairs f) (se_blocks e)) es)"

definition run_thoughts :: "stored_event list \<Rightarrow> string list" where
  "run_thoughts es = concat (map (\<lambda>e. concat (map block_thoughts (se_blocks e))) es)"

definition run_chunk ::
    "(string \<Rightarrow> tool_pair option) \<Rightarrow> projection_filters \<Rightarrow> stored_event list \<Rightarrow> chunk list" where
  "run_chunk pairs f es =
     (if item_texts (run_items pairs f es) = [] \<and> run_thoughts es = [] then []
      else [ChunkAssistant (run_items pairs f es) (run_thoughts es)])"

text \<open>
  A run of assistant events goes up to the first that shows a tool, whose tools follow it, or to an
  event of another speaker, which follows it as a chunk of its own.
\<close>

definition goes_on :: "(string \<Rightarrow> tool_pair option) \<Rightarrow> projection_filters \<Rightarrow> stored_event \<Rightarrow> bool" where
  "goes_on pairs f e \<longleftrightarrow> event_speaker e = ''assistant'' \<and> shown_tools pairs f e = []"

function turn_chunks ::
    "(string \<Rightarrow> tool_pair option) \<Rightarrow> projection_filters \<Rightarrow> stored_event list \<Rightarrow> chunk list" where
  "turn_chunks pairs f es =
     (let run = takeWhile (goes_on pairs f) es
      in case dropWhile (goes_on pairs f) es of
           [] \<Rightarrow> run_chunk pairs f run
         | e # rest \<Rightarrow>
             (if event_speaker e = ''assistant''
              then run_chunk pairs f (run @ [e]) @ map ChunkTool (shown_tools pairs f e)
              else run_chunk pairs f run @ [event_chunk e]) @ turn_chunks pairs f rest)"
  by auto
termination
proof (relation "measure (\<lambda>(pairs, f, es). length es)")
  fix pairs f and es :: "stored_event list" and run e rest
  assume "dropWhile (goes_on pairs f) es = e # rest"
  then have "length (e # rest) \<le> length es" by (metis length_dropWhile_le)
  then show "((pairs, f, rest), pairs, f, es) \<in> measure (\<lambda>(pairs, f, es). length es)" by simp
qed simp

declare turn_chunks.simps [simp del]

text \<open>The same with the events of the run so far in hand.\<close>

definition chunks_after ::
    "(string \<Rightarrow> tool_pair option) \<Rightarrow> projection_filters \<Rightarrow> stored_event list \<Rightarrow> stored_event list \<Rightarrow> chunk list" where
  "chunks_after pairs f g es =
     (let run = g @ takeWhile (goes_on pairs f) es
      in case dropWhile (goes_on pairs f) es of
           [] \<Rightarrow> run_chunk pairs f run
         | e # rest \<Rightarrow>
             (if event_speaker e = ''assistant''
              then run_chunk pairs f (run @ [e]) @ map ChunkTool (shown_tools pairs f e)
              else run_chunk pairs f run @ [event_chunk e]) @ turn_chunks pairs f rest)"

lemma chunks_after_simps:
  "chunks_after pairs f [] es = turn_chunks pairs f es"
  "chunks_after pairs f g [] = run_chunk pairs f g"
  "goes_on pairs f e \<Longrightarrow> chunks_after pairs f g (e # es) = chunks_after pairs f (g @ [e]) es"
  "event_speaker e \<noteq> ''assistant'' \<Longrightarrow>
     chunks_after pairs f g (e # es) = run_chunk pairs f g @ [event_chunk e] @ turn_chunks pairs f es"
  "event_speaker e = ''assistant'' \<Longrightarrow> shown_tools pairs f e \<noteq> [] \<Longrightarrow>
     chunks_after pairs f g (e # es)
       = run_chunk pairs f (g @ [e]) @ map ChunkTool (shown_tools pairs f e) @ turn_chunks pairs f es"
  by (simp_all add: chunks_after_def turn_chunks.simps [of pairs f es] goes_on_def)

section \<open>The fold makes them\<close>

definition pending_of ::
    "(string \<Rightarrow> tool_pair option) \<Rightarrow> projection_filters \<Rightarrow> stored_event list \<Rightarrow> pending_assistant" where
  "pending_of pairs f g = \<lparr>pa_items = run_items pairs f g, pa_thinking = run_thoughts g,
     pa_has_text = (item_texts (run_items pairs f g) \<noteq> [])\<rparr>"

lemma run_items_append:
  "run_items pairs f (g @ [e]) = run_items pairs f g @ List.map_filter (shown_item pairs f) (se_blocks e)"
  "run_thoughts (g @ [e]) = run_thoughts g @ concat (map block_thoughts (se_blocks e))"
  "pending_of pairs f [] = pending_empty"
  by (simp_all add: run_items_def run_thoughts_def pending_of_def pending_empty_def)

lemma flush_run: "flush_pending cs (pending_of pairs f g) = cs @ run_chunk pairs f g"
  by (simp add: flush_pending_def pending_of_def run_chunk_def)

lemma chunk_block_items:
  assumes "foldl (chunk_block pairs f) (p, v) bs = (p', v')"
  shows "pa_items p' = pa_items p @ List.map_filter (shown_item pairs f) bs"
  using assms
proof (induction bs arbitrary: p v)
  case (Cons b bs)
  obtain q w where q: "chunk_block pairs f (p, v) b = (q, w)" by fastforce
  have "pa_items q = pa_items p @ (case shown_item pairs f b of None \<Rightarrow> [] | Some i \<Rightarrow> [i])"
    using q by (auto simp: chunk_block_def shown_item_def shown_tool_def opt_filter_def tool_pair_is_visible_def
        split: block_kind.splits option.splits if_splits)
  with Cons.IH [of q w] Cons.prems q show ?case
    by (auto simp: List.map_filter_simps split: option.splits)
qed (simp add: List.map_filter_simps)

lemma pending_step:
  assumes "foldl (chunk_block pairs f) (pending_of pairs f g, []) (se_blocks e) = (p', v)"
  shows "p' = pending_of pairs f (g @ [e])" and "v = shown_tools pairs f e"
proof -
  note b = chunk_block_fold [OF assms] and i = chunk_block_items [OF assms]
  have "pending_ok (pending_of pairs f g)" by (simp add: pending_ok_def pending_of_def)
  with b have ok: "pending_ok p'" by blast
  have items: "pa_items p' = run_items pairs f (g @ [e])" using i by (simp add: pending_of_def run_items_append)
  moreover have "pa_thinking p' = run_thoughts (g @ [e])" using b by (simp add: pending_of_def run_items_append)
  moreover have "pa_has_text p' = (item_texts (run_items pairs f (g @ [e])) \<noteq> [])"
    using ok items by (simp add: pending_ok_def)
  ultimately show "p' = pending_of pairs f (g @ [e])" by (simp add: pending_of_def)
  show "v = shown_tools pairs f e" using b by (simp add: shown_tools_def)
qed

lemma shown_visible: "shown_event f e \<longleftrightarrow> \<not> (is_tool_result_event e \<or> \<not> event_is_visible e f)"
  by (auto simp: shown_event_def is_tool_result_event_def event_is_visible_def speaker_facet_of_def)

lemma event_chunk_other: "event_chunk e = other_chunk e"
proof -
  have h: "[t. b \<leftarrow> bs, b_kind b = BText, t \<leftarrow> (case b_text b of None \<Rightarrow> [] | Some t \<Rightarrow> [t])]
      = List.map_filter (\<lambda>b. if b_kind b = BText then b_text b else None) bs" for bs
    by (induction bs) (auto simp: List.map_filter_simps split: option.splits)
  show ?thesis
    unfolding event_chunk_def other_chunk_def Let_def text_blocks_in_def is_summary_event_def is_system_event_def h ..
qed

lemma chunk_events_after:
  "foldl (chunk_event pairs f) (cs, pending_of pairs f g) es = (cs', p') \<Longrightarrow>
     flush_pending cs' p' = cs @ chunks_after pairs f g (filter (shown_event f) es)"
proof (induction es arbitrary: cs g)
  case (Cons e es)
  show ?case
  proof (cases "shown_event f e")
    case False
    then have "chunk_event pairs f (cs, pending_of pairs f g) e = (cs, pending_of pairs f g)"
      by (auto simp: chunk_event_def shown_visible)
    with Cons False show ?thesis by simp
  next
    case True
    show ?thesis
    proof (cases "event_speaker e = ''assistant''")
      case False
      then have "chunk_event pairs f (cs, pending_of pairs f g) e
          = (cs @ run_chunk pairs f g @ [event_chunk e], pending_of pairs f [])"
        using True by (simp add: chunk_event_def shown_visible is_assistant_event_def flush_run run_items_append event_chunk_other)
      with Cons.prems Cons.IH [of _ "[]"] True False show ?thesis by (simp add: chunks_after_simps)
    next
      case speaks: True
      obtain p v where pv: "foldl (chunk_block pairs f) (pending_of pairs f g, []) (se_blocks e) = (p, v)" by fastforce
      note s = pending_step [OF pv]
      have ev: "chunk_event pairs f (cs, pending_of pairs f g) e = (if shown_tools pairs f e = []
          then (cs, pending_of pairs f (g @ [e]))
          else (cs @ run_chunk pairs f (g @ [e]) @ map ChunkTool (shown_tools pairs f e), pending_of pairs f []))"
        using True speaks pv by (simp add: chunk_event_def shown_visible is_assistant_event_def s flush_run run_items_append)
      show ?thesis
      proof (cases "shown_tools pairs f e = []")
        case True
        then have "goes_on pairs f e" using speaks by (simp add: goes_on_def)
        with Cons.prems Cons.IH [of cs "g @ [e]"] ev True \<open>shown_event f e\<close> show ?thesis by (simp add: chunks_after_simps)
      next
        case False
        with Cons.prems Cons.IH [of _ "[]"] ev speaks \<open>shown_event f e\<close> show ?thesis by (simp add: chunks_after_simps)
      qed
    qed
  qed
qed (auto simp: flush_run chunks_after_simps)

text \<open>
  C15. The chunks of a turn are, in the order of its events after the prompt, of those that hold no
  tool result and whose speaker is not hidden: one chunk for each event of another speaker than the
  assistant (a summary, a system message or a generic event), and for each run of assistant events, up to
  such an event or up to the first that shows a tool, one chunk of its texts, tool uses
  and thoughts, if it has a text or a thought, followed by one chunk for each tool that last event shows.
  A tool is shown when its pair exists and is of no hidden category. So every non-empty assistant text,
  every non-blank thought, every shown tool and every other event appears once and in order.
\<close>

theorem chunks_show_visible_events:
  "build_chunks prompt events pairs f
     = turn_chunks pairs f (filter (shown_event f) (if prompt = None then events else tl events))
   \<and> concat (map chunk_texts (build_chunks prompt events pairs f))
     = of_assistant f shown_texts (events_after_prompt prompt events)
   \<and> concat (map chunk_thoughts (build_chunks prompt events pairs f))
     = of_assistant f thinking_texts_in (events_after_prompt prompt events)
   \<and> concat (map chunk_tools (build_chunks prompt events pairs f))
     = of_assistant f (shown_tools pairs f) (events_after_prompt prompt events)
   \<and> concat (map chunk_others (build_chunks prompt events pairs f))
     = others f (events_after_prompt prompt events)"
proof (intro conjI)
  obtain cs p where c: "foldl (chunk_event pairs f) ([], pending_of pairs f [])
      (events_after_prompt prompt events) = (cs, p)" by fastforce
  from chunk_events_after [OF c] c show "build_chunks prompt events pairs f
     = turn_chunks pairs f (filter (shown_event f) (if prompt = None then events else tl events))"
    by (simp add: build_chunks_def run_items_append chunks_after_simps events_after_prompt_def drop_Suc)
qed (use chunks_keep_content in blast)+

end
