(* ===== verification/Timeline_Safety.thy ===== *)
theory Timeline_Safety
  imports Timeline_Turns
begin

text \<open>
  When the projection returns: always on ASCII text, not on every text, because a preview
  is cut at a byte position. What a returned timeline holds.
\<close>

section \<open>Previews of ASCII text\<close>

definition ascii_text :: "string \<Rightarrow> bool" where
  "ascii_text s \<longleftrightarrow> list_all (\<lambda>c. byte c < 128) s"

lemma set_trim_start: "set (trim_start s) \<subseteq> set s"
proof (induction s rule: trim_start.induct)
  case (1 s)
  then show ?case
    using set_drop_subset [of "ws_len s" s]
    by (cases "ws_len s = 0") (auto simp: trim_start_done trim_start_step)
qed

lemma set_trim_end: "set (trim_end s) \<subseteq> set s"
proof (induction s rule: trim_end.induct)
  case (1 s)
  then show ?case
    using set_take_subset [of "length s - ws_len_end s" s]
    by (cases "ws_len_end s = 0") (auto simp: trim_end_done trim_end_step)
qed

lemma set_trim: "set (trim s) \<subseteq> set s"
  using set_trim_start set_trim_end unfolding trim_def by blast

lemma split_str_aux_sets: "p \<in> set (split_str_aux n d s) \<Longrightarrow> set p \<subseteq> set s"
proof (induction n d s rule: split_str_aux.induct)
  case (2 n d s)
  show ?case
  proof (cases "find_sub s d")
    case None
    with 2 show ?thesis by simp
  next
    case (Some i)
    with 2 consider "p = take i s" | "set p \<subseteq> set (drop (i + length d) s)" by auto
    then show ?thesis using set_take_subset set_drop_subset by cases fast+
  qed
qed simp

lemma split_ws_sets: "w \<in> set (split_ws_aux cur s) \<Longrightarrow> set w \<subseteq> set cur \<union> set s"
proof (induction cur s rule: split_ws_aux.induct)
  case (2 cur c cs)
  show ?case
  proof (cases "ws_len (c # cs) = 0")
    case True
    with 2 show ?thesis by auto
  next
    case False
    with 2 consider "w = cur" | "set w \<subseteq> set (drop (ws_len (c # cs)) (c # cs))"
      by (auto split: if_splits)
    then show ?thesis using set_drop_subset [of "ws_len (c # cs)" "c # cs"] by cases auto
  qed
qed (simp split: if_splits)

lemma set_join: "set (join sep ws) \<subseteq> set sep \<union> \<Union> (set ` set ws)"
  by (induction sep ws rule: join.induct) auto

lemma split_str_nonempty: "split_str d s \<noteq> []"
  unfolding split_str_def by (cases "length s") (auto split: option.splits)

lemma slice_ascii: "ascii_text s \<Longrightarrow> n \<le> length s \<Longrightarrow> slice_to s n = Some (take n s)"
  by (auto simp: slice_to_def is_char_boundary_def ascii_text_def list_all_length cont_byte_def)
     (metis leD le_neq_implies_less)

lemma first_paragraph_ascii:
  assumes "ascii_text s" shows "first_paragraph s n \<noteq> None"
proof -
  define ws where "ws = split_whitespace (hd (split_str [CHR 0x0A, CHR 0x0A] (trim s)))"
  have "set (hd (split_str [CHR 0x0A, CHR 0x0A] (trim s))) \<subseteq> set s"
    using split_str_aux_sets [of "hd (split_str [CHR 0x0A, CHR 0x0A] (trim s))"]
      split_str_nonempty [of "[CHR 0x0A, CHR 0x0A]" "trim s"] set_trim [of s]
    unfolding split_str_def by (meson hd_in_set subset_trans)
  then have "set (join '' '' ws) \<subseteq> insert (CHR '' '') (set s)"
    using set_join [of "'' ''" ws] split_ws_sets
      unfolding ws_def split_whitespace_def by fastforce
  then have "ascii_text (join '' '' ws)"
    using assms by (auto simp: ascii_text_def list_all_iff)
  then have "length (join '' '' ws) > n \<Longrightarrow> slice_to (join '' '' ws) (n - 1) \<noteq> None"
    using slice_ascii by simp
  then show ?thesis
    unfolding first_paragraph_def Let_def ws_def by auto
qed

definition ascii_event :: "stored_event \<Rightarrow> bool" where
  "ascii_event e \<longleftrightarrow> list_all ascii_text (text_blocks_in e)"

lemma ascii_join: "list_all ascii_text ts \<Longrightarrow> ascii_text (join '' '' ts)"
  using set_join [of "'' ''" ts] by (fastforce simp: ascii_text_def list_all_iff)

lemma turn_preview_ascii:
  assumes "\<forall>e \<in> set_option prompt \<union> set events. ascii_event e"
  shows "turn_preview prompt events \<noteq> None"
proof -
  have "ascii_text (join '' '' (text_blocks_in e))" if "ascii_event e" for e
    using that by (simp add: ascii_event_def ascii_join)
  moreover have "ascii_event e" if "find is_assistant_event events = Some e" for e
    using that assms by (auto simp: find_Some_iff)
  ultimately show ?thesis
    using assms
    by (auto simp: turn_preview_def Let_def user_prompt_text_def first_paragraph_ascii [simplified]
        split: option.splits)
qed

section \<open>The projection returns\<close>

lemma those_ok: "(\<And>x. x \<in> set xs \<Longrightarrow> x \<noteq> None) \<Longrightarrow> those xs \<noteq> None"
  by (induction xs) (auto split: option.splits)

lemma seed_events_of:
  assumes "t \<in> set (group_into_turns es)"
  shows "set (sd_events t) \<subseteq> set es" and "set_option (sd_prompt t) \<subseteq> set (sd_events t)"
proof -
  show "set (sd_events t) \<subseteq> set es"
    using arg_cong [OF group_concat [of es], of set] assms by auto
  show "set_option (sd_prompt t) \<subseteq> set (sd_events t)"
    using group_ok [of es] assms
    by (cases "sd_events t") (auto simp: turns_ok_def list_all_iff seed_ok_def split: if_splits)
qed

lemma project_turn_with_ascii:
  assumes "t \<in> set (group_into_turns es)" and "\<forall>e \<in> set es. ascii_event e"
    and "\<And>p e. link p e \<noteq> None"
  shows "project_turn_with X link t f \<noteq> None"
proof -
  have "pair_with_link link results u \<noteq> None" for results u
    using assms(3) by (auto simp: pair_with_link_def Let_def split: prod.split)
  then have "those (map (pair_with_link link (sc_results (scan_turn (sd_events t))))
      (sc_uses (scan_turn (sd_events t)))) \<noteq> None"
    by (intro those_ok) auto
  moreover have "turn_preview (sd_prompt t) (sd_events t) \<noteq> None"
    by (rule turn_preview_ascii) (use assms(2) seed_events_of [OF assms(1)] in blast)
  ultimately show ?thesis by (auto simp: project_turn_with_def Let_def)
qed

lemma project_subagent_ascii:
  assumes "\<forall>e \<in> set es. ascii_event e"
  shows "project_subagent X es p e \<noteq> None"
proof -
  let ?sel = "collect_subagent_events es (tp_id p) (se_event_uuid e)"
  have sel: "\<forall>e \<in> set ?sel. ascii_event e"
    using assms by (simp add: collect_subagent_events_def Let_def)
  have "those (map (\<lambda>t. project_turn_with X no_link t default_filters) (group_into_turns ?sel)) \<noteq> None"
    by (rule those_ok) (use project_turn_with_ascii [OF _ sel, of _ no_link] in \<open>auto simp: no_link_def\<close>)
  then show ?thesis by (auto simp: project_subagent_def Let_def)
qed

lemma project_turn_ascii:
  assumes "t \<in> set (group_into_turns sel)" and "set sel \<subseteq> set es" and "\<forall>e \<in> set es. ascii_event e"
  shows "project_turn X t es f links \<noteq> None"
  unfolding project_turn_def
  by (rule project_turn_with_ascii [OF assms(1)])
     (use assms project_subagent_ascii in \<open>auto simp: no_link_def\<close>)

text \<open>
  On ASCII text the projection never panics: the timeline of any events, under any
  filters, is returned.
\<close>

theorem ascii_timeline_returns:
  assumes "\<forall>e \<in> set events. ascii_event e"
  shows "\<exists>r. project_timeline X events total_count f = Some r"
proof -
  let ?sel = "filter (\<lambda>e. show_sidechain f \<or> \<not> se_is_sidechain e)
      (filter (\<lambda>e. show_bookkeeping f \<or> \<not> is_bookkeeping_event e) events)"
  have "project_turn X t events f True \<noteq> None" if "t \<in> set (group_into_turns ?sel)" for t
    by (rule project_turn_ascii [OF that]) (use assms in auto)
  then have "project_turns X ?sel events f True \<noteq> None"
    unfolding project_turns_def by (intro those_ok) auto
  then show ?thesis unfolding project_timeline_def Let_def by auto
qed

theorem ascii_timeline_returns_witness:
  "\<exists>r. project_timeline sample_text sample_events 4 default_filters = Some r"
  by (rule ascii_timeline_returns) code_simp

section \<open>A preview that panics\<close>

text \<open>\<open>accents n\<close> is \<open>n\<close> times U+00E9, two bytes each.\<close>

definition accents :: "nat \<Rightarrow> string" where
  "accents n = concat (replicate n [CHR 0xC3, CHR 0xA9])"

lemma accents_panic: "first_paragraph (accents 141) 280 = None"
  by code_simp

text \<open>
  The preview of a prompt is cut at byte 279 without looking at characters: one
  prompt of 141 two-byte letters, an accented e each, makes the projection of its session
  panic, whatever the filters.
\<close>

theorem accented_prompt_panics:
  "project_timeline X [sample_event 0 ''user'' [block_text 0 (accents 141)]] total_count f = None"
proof -
  let ?e = "sample_event 0 ''user'' [block_text 0 (accents 141)]"
  have e: "is_real_user_prompt ?e" "\<not> is_bookkeeping_event ?e" "\<not> se_is_sidechain ?e"
    "user_prompt_text ?e = accents 141" "accents 141 \<noteq> []"
    by (simp_all add: is_real_user_prompt_def event_speaker_def sample_event_def block_text_def
        blank_block_def is_tool_result_event_def is_bookkeeping_event_def BOOKKEEPING_KINDS_def
        is_system_event_def user_prompt_text_def text_blocks_in_def List.map_filter_def accents_def)
  then have "turn_preview (Some ?e) [?e] = None"
    by (simp add: turn_preview_def Let_def accents_panic)
  then have "project_turn X (new_turn True ?e) [?e] f True = None"
    by (simp add: project_turn_def project_turn_with_def Let_def new_turn_def bind_eq_None_conv)
  moreover have "group_into_turns [?e] = [new_turn True ?e]"
    using e by (simp add: group_into_turns_def group_event_def)
  ultimately show ?thesis
    using e by (simp add: project_timeline_def project_turns_def)
qed

end
