(* ===== verification/Ingest_Metadata.thy ===== *)
theory Ingest_Metadata
  imports Canonical_Parsers
begin

text \<open>
  What a transcript record says about its session (\<^verbatim>\<open>backend/src/ingest/metadata.rs\<close>): the
  patch extracted from a record and its merge into the stored row. The reading of a JSON
  number as an \<open>i64\<close> is a parameter.
\<close>

section \<open>Reading\<close>

fun value_at :: "json \<Rightarrow> string list \<Rightarrow> json option" where
  "value_at v [] = Some v"
| "value_at v (k # ks) = (case jget v k of None \<Rightarrow> None | Some w \<Rightarrow> value_at w ks)"

definition string_at :: "json \<Rightarrow> string list \<Rightarrow> string option" where
  "string_at v path = Option.bind (value_at v path) as_str"

definition i64_at :: "(string \<Rightarrow> int option) \<Rightarrow> json \<Rightarrow> string list \<Rightarrow> int option" where
  "i64_at num v path =
     (case value_at v path of Some (JNum n) \<Rightarrow> num n | _ \<Rightarrow> None)"

definition opt_json :: "string option \<Rightarrow> json" where
  "opt_json s = (case s of None \<Rightarrow> JNull | Some t \<Rightarrow> JStr t)"

definition json_object :: "(string \<times> json) list \<Rightarrow> json" where
  "json_object kvs = JObj (foldl (\<lambda>m kv. obj_insert (fst kv) (snd kv) m) [] kvs)"

definition compact_object :: "json \<Rightarrow> json" where
  "compact_object v =
     (case as_object v of
        None \<Rightarrow> v
      | Some _ \<Rightarrow>
          json_object
            (map (\<lambda>k. (k, opt_json (string_at v [k])))
               [''id'', ''cwd'', ''model'', ''model_provider'', ''cli_version'', ''effort'',
                ''reasoning_effort'']))"

section \<open>Patches\<close>

record metadata_patch =
  mp_model :: "string option"
  mp_model_provider :: "string option"
  mp_reasoning_effort :: "string option"
  mp_cli_version :: "string option"
  mp_cwd :: "string option"
  mp_context_window :: "int option"
  mp_raw :: json_map

definition empty_patch :: metadata_patch where
  "empty_patch =
     \<lparr>mp_model = None, mp_model_provider = None, mp_reasoning_effort = None,
      mp_cli_version = None, mp_cwd = None, mp_context_window = None, mp_raw = []\<rparr>"

definition patch_is_empty :: "metadata_patch \<Rightarrow> bool" where
  "patch_is_empty p \<longleftrightarrow>
     mp_model p = None \<and> mp_model_provider p = None \<and> mp_reasoning_effort p = None
     \<and> mp_cli_version p = None \<and> mp_cwd p = None \<and> mp_context_window p = None \<and> mp_raw p = []"

definition effort_at :: "json \<Rightarrow> string option" where
  "effort_at v = or_else (string_at v [''reasoning_effort'']) (string_at v [''effort''])"

definition extract_codex_metadata :: "(string \<Rightarrow> int option) \<Rightarrow> json \<Rightarrow> metadata_patch" where
  "extract_codex_metadata num v =
     (let kind = unwrap_or [] (codex_record_kind v); payload = codex_payload v;
          ty = string_at payload [''type'']
      in if kind = ''session_meta'' then
           empty_patch\<lparr>mp_model_provider := string_at payload [''model_provider''],
             mp_cli_version := string_at payload [''cli_version''],
             mp_cwd := string_at payload [''cwd''],
             mp_raw := [(''session_meta'', compact_object payload)]\<rparr>
         else if kind = ''turn_context'' then
           empty_patch\<lparr>mp_model := string_at payload [''model''],
             mp_reasoning_effort := effort_at payload, mp_cwd := string_at payload [''cwd''],
             mp_raw := [(''turn_context'', compact_object payload)]\<rparr>
         else if kind = ''event_msg'' \<and> ty = Some ''task_started'' then
           (let window = i64_at num payload [''model_context_window'']
            in empty_patch\<lparr>mp_context_window := window,
                 mp_raw := [(''task_started'', json_object
                   [(''model_context_window'',
                       case window of None \<Rightarrow> JNull | Some n \<Rightarrow> JNum (show_int n)),
                    (''collaboration_mode_kind'',
                       opt_json (string_at payload [''collaboration_mode_kind'']))])]\<rparr>)
         else if kind = ''event_msg'' \<and> ty = Some ''collab_agent_spawn_end'' then
           (let model = string_at payload [''model'']; effort = effort_at payload
            in empty_patch\<lparr>mp_model := model, mp_reasoning_effort := effort,
                 mp_raw := [(''collab_agent_spawn_end'', json_object
                   [(''model'', opt_json model), (''reasoning_effort'', opt_json effort)])]\<rparr>)
         else empty_patch)"

definition extract_claude_metadata :: "json \<Rightarrow> metadata_patch" where
  "extract_claude_metadata v =
     (let model = or_else (string_at v [''message'', ''model'']) (string_at v [''model'']);
          version = or_else (string_at v [''version'']) (string_at v [''cli_version'']);
          cwd = string_at v [''cwd'']
      in empty_patch\<lparr>mp_model := model, mp_cli_version := version, mp_cwd := cwd,
           mp_raw := (if model \<noteq> None \<or> version \<noteq> None \<or> cwd \<noteq> None
             then [(''claude'', json_object
               [(''type'', opt_json (string_at v [''type''])), (''model'', opt_json model),
                (''version'', opt_json version), (''cwd'', opt_json cwd)])]
             else [])\<rparr>)"

definition extract_metadata :: "(string \<Rightarrow> int option) \<Rightarrow> string \<Rightarrow> json \<Rightarrow> metadata_patch" where
  "extract_metadata num agent v =
     (if agent = ''codex'' then extract_codex_metadata num v else extract_claude_metadata v)"

section \<open>Storing\<close>

record metadata_row =
  mr_agent :: string
  mr_model :: "string option"
  mr_model_provider :: "string option"
  mr_reasoning_effort :: "string option"
  mr_cli_version :: "string option"
  mr_cwd :: "string option"
  mr_context_window :: "int option"
  mr_raw :: json_map

text \<open>\<open>jsonb || jsonb\<close>: the right object's entries replace those of the left.\<close>

definition json_concat :: "json_map \<Rightarrow> json_map \<Rightarrow> json_map" where
  "json_concat a b = foldl (\<lambda>m kv. obj_insert (fst kv) (snd kv) m) a b"

definition metadata_of_patch :: "string \<Rightarrow> metadata_patch \<Rightarrow> metadata_row" where
  "metadata_of_patch agent p =
     \<lparr>mr_agent = agent, mr_model = mp_model p, mr_model_provider = mp_model_provider p,
      mr_reasoning_effort = mp_reasoning_effort p, mr_cli_version = mp_cli_version p,
      mr_cwd = mp_cwd p, mr_context_window = mp_context_window p, mr_raw = mp_raw p\<rparr>"

definition merge_metadata :: "string \<Rightarrow> metadata_patch \<Rightarrow> metadata_row \<Rightarrow> metadata_row" where
  "merge_metadata agent p r =
     \<lparr>mr_agent = agent, mr_model = or_else (mp_model p) (mr_model r),
      mr_model_provider = or_else (mp_model_provider p) (mr_model_provider r),
      mr_reasoning_effort = or_else (mp_reasoning_effort p) (mr_reasoning_effort r),
      mr_cli_version = or_else (mp_cli_version p) (mr_cli_version r),
      mr_cwd = or_else (mp_cwd p) (mr_cwd r),
      mr_context_window = or_else (mp_context_window p) (mr_context_window r),
      mr_raw = json_concat (mr_raw r) (mp_raw p)\<rparr>"

type_synonym metadata_table = "uuid \<Rightarrow> metadata_row option"

definition upsert_from_event ::
    "(string \<Rightarrow> int option) \<Rightarrow> metadata_table \<Rightarrow> uuid \<Rightarrow> string \<Rightarrow> json \<Rightarrow> metadata_table" where
  "upsert_from_event num tab session agent v =
     (let p = extract_metadata num agent v
      in if patch_is_empty p then tab
         else tab(session \<mapsto> (case tab session of
                None \<Rightarrow> metadata_of_patch agent p
              | Some r \<Rightarrow> merge_metadata agent p r)))"

end
