(* ===== verification/Ingest_Codex.thy ===== *)
theory Ingest_Codex
  imports Ingest_Metadata
begin

text \<open>
  What ingestion derives from one record (\<^verbatim>\<open>backend/src/ingest/ingester.rs\<close>): the session a
  file belongs to, the Codex session context, lineage identifiers, the stored kind, the time
  stamp and the parent session. Parsing and printing of identifiers and time stamps are
  parameters.
\<close>

section \<open>Sources\<close>

datatype transcript_source = ClaudeCode | Codex

fun agent_id :: "transcript_source \<Rightarrow> string" where
  "agent_id ClaudeCode = ''claude-code''"
| "agent_id Codex = ''codex''"

record ingest_lib =
  i_json :: json_lib
  i_uuid_parse :: "string \<Rightarrow> uuid option"
  i_uuid_show :: "uuid \<Rightarrow> string"
  i_time_parse :: "string \<Rightarrow> int option"
  i_num :: "string \<Rightarrow> int option"

text \<open>A path is the list of its components. \<open>Path::file_stem\<close> cuts the last extension.\<close>

definition file_stem :: "string \<Rightarrow> string" where
  "file_stem name =
     (let before = rev (drop 1 (dropWhile (\<lambda>c. c \<noteq> CHR ''.'') (rev name)))
      in if name = ''..'' \<or> CHR ''.'' \<notin> set name \<or> before = [] then name else before)"

definition path_stem :: "string list \<Rightarrow> string option" where
  "path_stem path = (if path = [] then None else Some (file_stem (last path)))"

definition parse_claude_session_uuid :: "ingest_lib \<Rightarrow> string list \<Rightarrow> uuid option" where
  "parse_claude_session_uuid L path = Option.bind (path_stem path) (i_uuid_parse L)"

definition parse_codex_session_uuid :: "ingest_lib \<Rightarrow> string list \<Rightarrow> uuid option" where
  "parse_codex_session_uuid L path =
     (case path_stem path of
        None \<Rightarrow> None
      | Some stem \<Rightarrow>
          if length stem < 36 then None
          else let start = length stem - 36
               in if is_char_boundary stem start then i_uuid_parse L (drop start stem) else None)"

fun parse_session_uuid :: "ingest_lib \<Rightarrow> string list \<Rightarrow> transcript_source \<Rightarrow> uuid option" where
  "parse_session_uuid L path ClaudeCode = parse_claude_session_uuid L path"
| "parse_session_uuid L path Codex = parse_codex_session_uuid L path"

fun parse_project_hash :: "string list \<Rightarrow> transcript_source \<Rightarrow> string option" where
  "parse_project_hash path ClaudeCode =
     (if length path < 2 then None else Some (last (butlast path)))"
| "parse_project_hash path Codex = None"

section \<open>The Codex context\<close>

record codex_context =
  cx_session_id :: string
  cx_parent_session_id :: "string option"
  cx_current_turn_id :: "string option"

definition new_codex_context :: "ingest_lib \<Rightarrow> uuid \<Rightarrow> codex_context" where
  "new_codex_context L session =
     \<lparr>cx_session_id = i_uuid_show L session, cx_parent_session_id = None,
      cx_current_turn_id = None\<rparr>"

definition codex_parent_session_string :: "json \<Rightarrow> string option" where
  "codex_parent_session_string v =
     or_else (string_at (codex_payload v) [''forked_from_id''])
       (string_at (codex_payload v) [''source'', ''subagent'', ''thread_spawn'', ''parent_thread_id''])"

definition update_codex_context ::
    "ingest_lib \<Rightarrow> codex_context \<Rightarrow> json \<Rightarrow> uuid \<Rightarrow> codex_context" where
  "update_codex_context L ctx v session =
     (let payload = codex_payload v; kind = unwrap_or [] (codex_record_kind v)
      in if kind = ''session_meta'' then
           ctx\<lparr>cx_session_id := unwrap_or (i_uuid_show L session) (string_at payload [''id'']),
               cx_parent_session_id := codex_parent_session_string v\<rparr>
         else if kind = ''turn_context''
              \<or> kind = ''event_msg'' \<and> get_str payload ''type'' = Some ''task_started'' then
           ctx\<lparr>cx_current_turn_id := string_at payload [''turn_id'']\<rparr>
         else ctx)"

section \<open>Lineage\<close>

definition synthetic_id :: "ingest_lib \<Rightarrow> uuid \<Rightarrow> int \<Rightarrow> string" where
  "synthetic_id L session off = ''codex:'' @ i_uuid_show L session @ '':'' @ show_int off"

text \<open>The part of a response item: the identifier it is stored under.\<close>

definition response_item_id :: "ingest_lib \<Rightarrow> uuid \<Rightarrow> int \<Rightarrow> canonical_event \<Rightarrow> string" where
  "response_item_id L session off parsed =
     (let subtype = unwrap_or [] (ce_subtype parsed); synth = synthetic_id L session off
      in if subtype = ''function_call'' \<or> subtype = ''custom_tool_call'' then
           (case List.map_filter b_tool_id (ce_blocks parsed) of [] \<Rightarrow> synth | i # _ \<Rightarrow> i)
         else if subtype = ''function_call_output'' \<or> subtype = ''custom_tool_call_output'' then
           (case ce_related_tool_use_id parsed of
              None \<Rightarrow> synth | Some i \<Rightarrow> i @ '':output:'' @ show_int off)
         else synth)"

definition enrich_codex_lineage ::
    "ingest_lib \<Rightarrow> canonical_event \<Rightarrow> json \<Rightarrow> uuid \<Rightarrow> int \<Rightarrow> codex_context option \<Rightarrow> canonical_event" where
  "enrich_codex_lineage L parsed v session off ctx =
     (let payload = codex_payload v; outer = unwrap_or [] (codex_record_kind v);
          subtype = unwrap_or [] (ce_subtype parsed);
          session_id = (case ctx of None \<Rightarrow> i_uuid_show L session | Some c \<Rightarrow> cx_session_id c);
          has_parent = (case ctx of None \<Rightarrow> False | Some c \<Rightarrow> cx_parent_session_id c \<noteq> None);
          turn = Option.bind ctx cx_current_turn_id; synth = synthetic_id L session off
      in if outer = ''session_meta'' then
           parsed\<lparr>ce_event_uuid := or_else (string_at payload [''id'']) (Some session_id),
             ce_parent_event_uuid := codex_parent_session_string v,
             ce_is_sidechain := codex_parent_session_string v \<noteq> None\<rparr>
         else if outer = ''turn_context'' then
           parsed\<lparr>ce_event_uuid := or_else (string_at payload [''turn_id'']) (Some synth),
             ce_parent_event_uuid := Some session_id, ce_is_sidechain := has_parent\<rparr>
         else if outer = ''response_item'' then
           parsed\<lparr>ce_parent_event_uuid := or_else turn (Some session_id),
             ce_is_sidechain := has_parent,
             ce_event_uuid := Some (response_item_id L session off parsed)\<rparr>
         else if outer = ''event_msg'' then
           (let related = parsed\<lparr>ce_related_tool_use_id :=
                  or_else (ce_related_tool_use_id parsed) (string_at payload [''call_id'']),
                  ce_is_sidechain := has_parent\<rparr>
            in if subtype = ''task_started'' then
                 related\<lparr>ce_event_uuid := or_else (string_at payload [''turn_id'']) (Some synth),
                   ce_parent_event_uuid := Some session_id\<rparr>
               else if subtype = ''collab_agent_spawn_end'' then
                 related\<lparr>ce_event_uuid := or_else (string_at payload [''new_thread_id'']) (Some synth),
                   ce_parent_event_uuid := or_else turn (Some session_id), ce_is_sidechain := False\<rparr>
               else
                 related\<lparr>ce_event_uuid := Some synth,
                   ce_parent_event_uuid :=
                     or_else (or_else (string_at payload [''turn_id'']) turn) (Some session_id)\<rparr>)
         else parsed)"

definition parse_canonical_event ::
    "ingest_lib \<Rightarrow> string \<Rightarrow> json \<Rightarrow> uuid \<Rightarrow> int \<Rightarrow> codex_context option \<Rightarrow> canonical_event" where
  "parse_canonical_event L agent v session off ctx =
     (if agent = ''codex''
      then enrich_codex_lineage L (codex_parse (i_json L) v) v session off ctx
      else claude_parse (i_json L) v)"

fun stored_event_kind :: "transcript_source \<Rightarrow> json \<Rightarrow> canonical_event \<Rightarrow> string" where
  "stored_event_kind ClaudeCode v parsed = unwrap_or ''unknown'' (get_str v ''type'')"
| "stored_event_kind Codex v parsed =
     (let outer = unwrap_or [] (codex_record_kind v);
          subtype = unwrap_or ''unknown'' (opt_filter (\<lambda>k. k \<noteq> []) (ce_subtype parsed))
      in if outer \<in> {''response_item'', ''event_msg'', []} then subtype else outer)"

definition parse_event_timestamp :: "ingest_lib \<Rightarrow> json \<Rightarrow> int option" where
  "parse_event_timestamp L v =
     Option.bind (Option.bind (or_else (jget v ''timestamp'') (jget v ''ts'')) as_str) (i_time_parse L)"

section \<open>Parent sessions\<close>

definition detect_codex_parent_session :: "ingest_lib \<Rightarrow> json \<Rightarrow> uuid \<Rightarrow> uuid option" where
  "detect_codex_parent_session L v current =
     opt_filter (\<lambda>u. u \<noteq> current)
       (Option.bind (codex_parent_session_string v) (i_uuid_parse L))"

definition compaction_candidates :: "string list" where
  "compaction_candidates =
     [''leafUuid'', ''parentSessionUuid'', ''parent_session_uuid'', ''parentSessionId'',
      ''parent_session_id'', ''compactedFromSessionUuid'']"

definition eq_ignore_ascii_case :: "string \<Rightarrow> string \<Rightarrow> bool" where
  "eq_ignore_ascii_case a b \<longleftrightarrow> map to_lower_ascii a = map to_lower_ascii b"

definition is_compact_record :: "json \<Rightarrow> bool" where
  "is_compact_record v \<longleftrightarrow>
     unwrap_or False (get_bool v ''isCompactSummary'')
     \<or> (case get_str v ''type'' of
          None \<Rightarrow> False
        | Some s \<Rightarrow> eq_ignore_ascii_case s ''summary'' \<or> eq_ignore_ascii_case s ''compact_summary'')"

fun first_parent :: "ingest_lib \<Rightarrow> json \<Rightarrow> uuid \<Rightarrow> bool \<Rightarrow> string list \<Rightarrow> uuid option" where
  "first_parent L v current compact [] = None"
| "first_parent L v current compact (key # keys) =
     (case Option.bind (get_str v key) (i_uuid_parse L) of
        None \<Rightarrow> first_parent L v current compact keys
      | Some u \<Rightarrow>
          if u \<noteq> current \<and> (compact \<or> key \<noteq> ''leafUuid'') then Some u
          else if compact \<and> u \<noteq> current then Some u
          else first_parent L v current compact keys)"

definition detect_compaction_parent :: "ingest_lib \<Rightarrow> json \<Rightarrow> uuid \<Rightarrow> uuid option" where
  "detect_compaction_parent L v current =
     first_parent L v current (is_compact_record v) compaction_candidates"

fun detect_parent :: "ingest_lib \<Rightarrow> transcript_source \<Rightarrow> json \<Rightarrow> uuid \<Rightarrow> uuid option" where
  "detect_parent L ClaudeCode v current = detect_compaction_parent L v current"
| "detect_parent L Codex v current = detect_codex_parent_session L v current"

lemma detect_parent_not_self: "detect_parent L src v current = Some u \<Longrightarrow> u \<noteq> current"
proof -
  have "first_parent L v current c keys = Some u \<Longrightarrow> u \<noteq> current" for c keys
    by (induction L v current c keys rule: first_parent.induct)
       (auto split: option.splits if_splits)
  then show "detect_parent L src v current = Some u \<Longrightarrow> u \<noteq> current"
    by (cases src) (auto simp: detect_compaction_parent_def detect_codex_parent_session_def
        opt_filter_eq_Some)
qed

end
