(* ===== verification/Ingest_File.thy ===== *)
theory Ingest_File
  imports Ingest_Codex
begin

text \<open>
  Ingestion of transcript files (\<^verbatim>\<open>backend/src/ingest/ingester.rs\<close>, \<^verbatim>\<open>file_scan.rs\<close>): the
  tables it writes, the insertion of one line, the pass over one file and over a directory.
  The record \<open>tick_env\<close> says what the clock reads and which database calls of the pass fail.
  The rebuild of the projections is recorded as a call.
\<close>

section \<open>Tables\<close>

record event_row =
  ev_session :: uuid
  ev_offset :: int
  ev_timestamp :: int
  ev_kind :: string
  ev_payload :: json
  ev_agent :: string
  ev_speaker :: "string option"
  ev_content_kind :: "string option"
  ev_event_uuid :: "string option"
  ev_parent_event_uuid :: "string option"
  ev_related_tool_use_id :: "string option"
  ev_is_sidechain :: bool
  ev_is_meta :: bool
  ev_subtype :: "string option"
  ev_search_text :: string

record block_row =
  br_session :: uuid
  br_offset :: int
  br_block :: block

record session_row =
  cs_agent :: string
  cs_project_hash :: "string option"
  cs_pty_session_id :: "uuid option"
  cs_parent_session_uuid :: "uuid option"

record state_row =
  is_file_path :: "string list"
  is_offset :: int

datatype rebuild_call = RebuildAfter uuid int | RebuildAll uuid

record ingest_db =
  ev_rows :: "event_row list"
  block_rows :: "block_row list"
  sessions :: "uuid \<Rightarrow> session_row option"
  states :: "uuid \<Rightarrow> state_row option"
  metadata :: metadata_table
  ptys :: "(uuid \<times> uuid option) list"
  rebuilds :: "rebuild_call list"

record tick_env =
  en_now :: int
  en_session_fails :: bool
  en_context_fails :: bool
  en_offset_fails :: bool
  en_insert_fails :: "int \<Rightarrow> bool"
  en_metadata_fails :: "int \<Rightarrow> bool"
  en_parent_fails :: "int \<Rightarrow> bool"

section \<open>Statements\<close>

definition upsert_agent_session ::
    "ingest_db \<Rightarrow> uuid \<Rightarrow> string \<Rightarrow> string option \<Rightarrow> ingest_db" where
  "upsert_agent_session db u agent project_hash =
     (let pty = map_option fst (find (\<lambda>p. snd p = Some u) (ptys db))
      in db\<lparr>sessions := (sessions db)(u \<mapsto> (case sessions db u of
           None \<Rightarrow> \<lparr>cs_agent = agent, cs_project_hash = project_hash, cs_pty_session_id = pty,
                    cs_parent_session_uuid = None\<rparr>
         | Some s \<Rightarrow> s\<lparr>cs_agent := agent,
             cs_project_hash := or_else project_hash (cs_project_hash s),
             cs_pty_session_id := or_else (cs_pty_session_id s) pty\<rparr>))\<rparr>)"

definition set_offset :: "ingest_db \<Rightarrow> uuid \<Rightarrow> string list \<Rightarrow> int \<Rightarrow> ingest_db" where
  "set_offset db u path off =
     db\<lparr>states := (states db)(u \<mapsto> \<lparr>is_file_path = path, is_offset = off\<rparr>)\<rparr>"

definition set_parent_session :: "ingest_db \<Rightarrow> uuid \<Rightarrow> uuid \<Rightarrow> ingest_db" where
  "set_parent_session db u parent =
     (case sessions db u of
        None \<Rightarrow> db
      | Some s \<Rightarrow>
          if cs_parent_session_uuid s = None
          then db\<lparr>sessions := (sessions db)(u \<mapsto> s\<lparr>cs_parent_session_uuid := Some parent\<rparr>)\<rparr>
          else db)"

text \<open>The row of a session with the largest offset among those of the given kinds.\<close>

definition latest_codex_payload :: "ingest_db \<Rightarrow> uuid \<Rightarrow> string set \<Rightarrow> json option" where
  "latest_codex_payload db u kinds =
     (let rows = sort_key ev_offset
            (filter (\<lambda>r. ev_session r = u \<and> ev_agent r = ''codex'' \<and> ev_kind r \<in> kinds) (ev_rows db))
      in if rows = [] then None else Some (ev_payload (last rows)))"

definition load_codex_context :: "ingest_lib \<Rightarrow> ingest_db \<Rightarrow> uuid \<Rightarrow> codex_context" where
  "load_codex_context L db u =
     (let apply_row = (\<lambda>row ctx. case row of None \<Rightarrow> ctx | Some v \<Rightarrow> update_codex_context L ctx v u)
      in apply_row (latest_codex_payload db u {''turn_context'', ''task_started''})
           (apply_row (latest_codex_payload db u {''session_meta''}) (new_codex_context L u)))"

text \<open>\<open>INSERT INTO events ... ON CONFLICT (session_uuid, byte_offset) DO NOTHING\<close>.\<close>

definition event_at :: "event_row list \<Rightarrow> uuid \<times> int \<Rightarrow> event_row option" where
  "event_at rows k = find (\<lambda>r. (ev_session r, ev_offset r) = k) rows"

definition put_event :: "event_row list \<Rightarrow> uuid \<times> int \<Rightarrow> event_row \<Rightarrow> bool \<times> event_row list" where
  "put_event rows k row =
     (if event_at rows k = None
      then (True, rows @ [row\<lparr>ev_session := fst k, ev_offset := snd k\<rparr>]) else (False, rows))"

text \<open>One block, on conflict replaced. The operation columns are not in the table.\<close>

definition stored_block :: "block \<Rightarrow> block" where
  "stored_block b = b\<lparr>b_operation_type := None, b_operation_category := None\<rparr>"

fun put_block :: "uuid \<Rightarrow> int \<Rightarrow> block_row list \<Rightarrow> block \<Rightarrow> block_row list" where
  "put_block u off [] b = [\<lparr>br_session = u, br_offset = off, br_block = stored_block b\<rparr>]"
| "put_block u off (r # rows) b =
     (if br_session r = u \<and> br_offset r = off \<and> b_ord (br_block r) = b_ord b
      then r\<lparr>br_block := stored_block b\<rparr> # rows else r # put_block u off rows b)"

definition insert_blocks :: "block_row list \<Rightarrow> uuid \<Rightarrow> int \<Rightarrow> block list \<Rightarrow> block_row list" where
  "insert_blocks rows u off bs = foldl (put_block u off) rows bs"

section \<open>One line\<close>

datatype insert_error = ParseFailed | DbError

definition row_of_event ::
    "ingest_lib \<Rightarrow> transcript_source \<Rightarrow> uuid \<Rightarrow> int \<Rightarrow> int \<Rightarrow> json \<Rightarrow> canonical_event \<Rightarrow> event_row" where
  "row_of_event L src u off now v parsed =
     \<lparr>ev_session = u, ev_offset = off,
      ev_timestamp = unwrap_or now (parse_event_timestamp L v),
      ev_kind = stored_event_kind src v parsed, ev_payload = v, ev_agent = ce_agent parsed,
      ev_speaker = Some (speaker_str (ce_speaker parsed)),
      ev_content_kind = Some (content_kind_str (ce_content_kind parsed)),
      ev_event_uuid = ce_event_uuid parsed, ev_parent_event_uuid = ce_parent_event_uuid parsed,
      ev_related_tool_use_id = ce_related_tool_use_id parsed,
      ev_is_sidechain = ce_is_sidechain parsed, ev_is_meta = ce_is_meta parsed,
      ev_subtype = ce_subtype parsed, ev_search_text = search_text (i_json L) parsed\<rparr>"

definition insert_event ::
    "ingest_lib \<Rightarrow> tick_env \<Rightarrow> uuid \<Rightarrow> transcript_source \<Rightarrow> int \<Rightarrow> string \<Rightarrow>
     codex_context option \<times> ingest_db \<Rightarrow>
     (insert_error, bool) result \<times> codex_context option \<times> ingest_db" where
  "insert_event L env u src off line st =
     (case st of (ctx, db) \<Rightarrow>
        if list_all ascii_whitespace line then (Inr False, ctx, db)
        else case js_parse (i_json L) line of
          None \<Rightarrow> (Inl ParseFailed, ctx, db)
        | Some v \<Rightarrow>
            let parsed = parse_canonical_event L (agent_id src) v u off ctx;
                row = row_of_event L src u off (en_now env) v parsed
            in if en_insert_fails env off then (Inl DbError, ctx, db)
               else case put_event (ev_rows db) (u, off) row of
                 (inserted, rows) \<Rightarrow>
                   let db1 = db\<lparr>ev_rows := rows\<rparr>;
                       db2 = (if inserted \<and> ce_blocks parsed \<noteq> []
                              then db1\<lparr>block_rows := insert_blocks (block_rows db1) u off (ce_blocks parsed)\<rparr>
                              else db1);
                       db3 = (if inserted \<and> \<not> en_metadata_fails env off
                              then db2\<lparr>metadata := upsert_from_event (i_num L) (metadata db2) u (agent_id src) v\<rparr>
                              else db2);
                       ctx' = map_option (\<lambda>c. update_codex_context L c v u) ctx;
                       db4 = (case detect_parent L src v u of
                                None \<Rightarrow> db3
                              | Some p \<Rightarrow>
                                  if en_parent_fails env off then db3 else set_parent_session db3 u p)
                   in (Inr inserted, ctx', db4))"

section \<open>One file\<close>

record dirty_file =
  df_path :: "string list"
  df_session :: uuid
  df_project_hash :: "string option"
  df_committed :: int
  df_len :: int

record file_result =
  fr_inserted :: nat
  fr_parse_errors :: nat
  fr_committed :: int

text \<open>The variables of the loop over the buffer.\<close>

record loop_state =
  lp_line_start :: nat
  lp_next_committed :: int
  lp_first_inserted :: "int option"
  lp_inserted :: nat
  lp_parse_errors :: nat
  lp_ctx :: "codex_context option"
  lp_db :: ingest_db

definition count_insert ::
    "int \<Rightarrow> (insert_error, bool) result \<times> codex_context option \<times> ingest_db \<Rightarrow> loop_state \<Rightarrow> loop_state" where
  "count_insert off r s =
     (case r of (res, ctx, db) \<Rightarrow>
        let s' = s\<lparr>lp_ctx := ctx, lp_db := db\<rparr>
        in case res of
             Inr True \<Rightarrow> s'\<lparr>lp_first_inserted := or_else (lp_first_inserted s) (Some off),
                           lp_inserted := lp_inserted s + 1\<rparr>
           | Inr False \<Rightarrow> s'
           | Inl ParseFailed \<Rightarrow> s'\<lparr>lp_parse_errors := lp_parse_errors s + 1\<rparr>
           | Inl DbError \<Rightarrow> s')"

definition loop_byte ::
    "ingest_lib \<Rightarrow> tick_env \<Rightarrow> dirty_file \<Rightarrow> transcript_source \<Rightarrow> string \<Rightarrow>
     loop_state \<Rightarrow> nat \<times> char \<Rightarrow> loop_state" where
  "loop_byte L env f src buf s ib =
     (case ib of (i, b) \<Rightarrow>
        if b \<noteq> CHR 0x0A then s
        else let line = take (i - lp_line_start s) (drop (lp_line_start s) buf);
                 off = df_committed f + int (lp_line_start s);
                 s' = count_insert off
                        (insert_event L env (df_session f) src off line (lp_ctx s, lp_db s)) s
             in s'\<lparr>lp_line_start := i + 1, lp_next_committed := df_committed f + int (i + 1)\<rparr>)"

definition loop_start :: "dirty_file \<Rightarrow> codex_context option \<Rightarrow> ingest_db \<Rightarrow> loop_state" where
  "loop_start f ctx db =
     \<lparr>lp_line_start = 0, lp_next_committed = df_committed f, lp_first_inserted = None,
      lp_inserted = 0, lp_parse_errors = 0, lp_ctx = ctx, lp_db = db\<rparr>"

definition run_buffer ::
    "ingest_lib \<Rightarrow> tick_env \<Rightarrow> dirty_file \<Rightarrow> transcript_source \<Rightarrow> string \<Rightarrow>
     codex_context option \<Rightarrow> ingest_db \<Rightarrow> loop_state" where
  "run_buffer L env f src buf ctx db =
     foldl (loop_byte L env f src buf) (loop_start f ctx db) (enumerate 0 buf)"

text \<open>The loop up the parent links; it has no other way out than a session without parent.\<close>

definition parent_of :: "ingest_db \<Rightarrow> uuid \<Rightarrow> uuid option" where
  "parent_of db u = Option.bind (sessions db u) cs_parent_session_uuid"

partial_function (option) parent_chain :: "(uuid \<Rightarrow> uuid option) \<Rightarrow> uuid \<Rightarrow> uuid list option" where
  "parent_chain P current =
     (case P current of
        None \<Rightarrow> Some []
      | Some parent \<Rightarrow> Option.bind (parent_chain P parent) (\<lambda>chain. Some (parent # chain)))"

definition codex_parent_session_chain :: "ingest_db \<Rightarrow> uuid \<Rightarrow> uuid list option" where
  "codex_parent_session_chain db u = parent_chain (parent_of db) u"

definition rebuild_projections_after_insert ::
    "ingest_db \<Rightarrow> uuid \<Rightarrow> transcript_source \<Rightarrow> int \<Rightarrow> ingest_db option" where
  "rebuild_projections_after_insert db u src off =
     (let db1 = db\<lparr>rebuilds := rebuilds db @ [RebuildAfter u off]\<rparr>
      in if src = Codex
         then Option.bind (codex_parent_session_chain db1 u)
                (\<lambda>ancestors. Some (db1\<lparr>rebuilds := rebuilds db1 @ map RebuildAll ancestors\<rparr>))
         else Some db1)"

text \<open>
  \<open>None\<close> is a call that never returns. \<open>content\<close> is what the file holds when it is read, or
  \<open>None\<close> if it cannot be opened; a seek past its end reads nothing.
\<close>

definition finish_file ::
    "tick_env \<Rightarrow> dirty_file \<Rightarrow> transcript_source \<Rightarrow> loop_state \<Rightarrow>
     ((string, file_result) result \<times> ingest_db) option" where
  "finish_file env f src s =
     (let moved = lp_next_committed s \<noteq> df_committed f
      in if moved \<and> en_offset_fails env then Some (Inl ''set_offset'', lp_db s)
         else let db = (if moved then set_offset (lp_db s) (df_session f) (df_path f) (lp_next_committed s)
                        else lp_db s);
                  res = \<lparr>fr_inserted = lp_inserted s, fr_parse_errors = lp_parse_errors s,
                         fr_committed = lp_next_committed s\<rparr>
              in case lp_first_inserted s of
                   None \<Rightarrow> Some (Inr res, db)
                 | Some off \<Rightarrow>
                     Option.bind (rebuild_projections_after_insert db (df_session f) src off)
                       (\<lambda>db'. Some (Inr res, db')))"

definition process_file ::
    "ingest_lib \<Rightarrow> tick_env \<Rightarrow> ingest_db \<Rightarrow> dirty_file \<Rightarrow> transcript_source \<Rightarrow> string option \<Rightarrow>
     ((string, file_result) result \<times> ingest_db) option" where
  "process_file L env db f src content =
     (if en_session_fails env then Some (Inl ''upsert_agent_session'', db)
      else let db1 = upsert_agent_session db (df_session f) (agent_id src) (df_project_hash f)
           in if df_len f < df_committed f then
                (if en_offset_fails env then Some (Inl ''set_offset'', db1)
                 else Some (Inr \<lparr>fr_inserted = 0, fr_parse_errors = 0, fr_committed = 0\<rparr>,
                            set_offset db1 (df_session f) (df_path f) 0))
              else case content of
                None \<Rightarrow> Some (Inl ''open'', db1)
              | Some bytes \<Rightarrow>
                  if src = Codex \<and> en_context_fails env then Some (Inl ''load_codex_context'', db1)
                  else let buf = drop (nat (df_committed f)) bytes;
                           ctx = (if src = Codex then Some (load_codex_context L db1 (df_session f))
                                  else None)
                       in finish_file env f src (run_buffer L env f src buf ctx db1))"

section \<open>A directory\<close>

text \<open>
  What the walk finds, in its order: path, whether it is a regular file, and the length
  when it is asked for (\<open>None\<close> if that fails).
\<close>

type_synonym walk_entry = "string list \<times> bool \<times> int option"

definition has_jsonl_extension :: "string list \<Rightarrow> bool" where
  "has_jsonl_extension path \<longleftrightarrow>
     path \<noteq> [] \<and> file_stem (last path) \<noteq> last path
     \<and> drop (length (file_stem (last path)) + 1) (last path) = ''jsonl''"

definition discovered_transcript_file ::
    "ingest_lib \<Rightarrow> transcript_source \<Rightarrow> walk_entry \<Rightarrow> dirty_file option" where
  "discovered_transcript_file L src e =
     (case e of (path, is_file, flen) \<Rightarrow>
        if is_file \<and> has_jsonl_extension path then
          (case (parse_session_uuid L path src, flen) of
             (Some u, Some n) \<Rightarrow>
               Some \<lparr>df_path = path, df_session = u, df_project_hash = parse_project_hash path src,
                     df_committed = 0, df_len = n\<rparr>
           | _ \<Rightarrow> None)
        else None)"

definition dirty_transcript_files ::
    "ingest_lib \<Rightarrow> ingest_db \<Rightarrow> transcript_source \<Rightarrow> walk_entry list \<Rightarrow> dirty_file list" where
  "dirty_transcript_files L db src entries =
     filter (\<lambda>f. df_len f \<noteq> df_committed f)
       (map (\<lambda>f. f\<lparr>df_committed := (case states db (df_session f) of None \<Rightarrow> 0 | Some s \<Rightarrow> is_offset s)\<rparr>)
         (List.map_filter (discovered_transcript_file L src) entries))"

text \<open>
  \<open>contents\<close> is what each path holds when it is read, \<open>envs\<close> the clock and the failures while
  it is ingested. The two sums are the \<open>TickSummary\<close>.
\<close>

definition tick_file ::
    "ingest_lib \<Rightarrow> (string list \<Rightarrow> tick_env) \<Rightarrow> transcript_source \<Rightarrow> (string list \<Rightarrow> string option) \<Rightarrow>
     (nat \<times> nat \<times> ingest_db) option \<Rightarrow> dirty_file \<Rightarrow> (nat \<times> nat \<times> ingest_db) option" where
  "tick_file L envs src contents acc f =
     Option.bind acc (\<lambda>(ins, errs, db).
       Option.bind (process_file L (envs (df_path f)) db f src (contents (df_path f))) (\<lambda>(res, db').
         case res of
           Inl _ \<Rightarrow> Some (ins, errs, db')
         | Inr r \<Rightarrow> Some (ins + fr_inserted r, errs + fr_parse_errors r, db')))"

definition tick_root ::
    "ingest_lib \<Rightarrow> (string list \<Rightarrow> tick_env) \<Rightarrow> transcript_source \<Rightarrow> walk_entry list \<Rightarrow>
     (string list \<Rightarrow> string option) \<Rightarrow> nat \<times> nat \<times> ingest_db \<Rightarrow> (nat \<times> nat \<times> ingest_db) option" where
  "tick_root L envs src entries contents acc =
     foldl (tick_file L envs src contents) (Some acc)
       (dirty_transcript_files L (snd (snd acc)) src entries)"

definition tick ::
    "ingest_lib \<Rightarrow> (string list \<Rightarrow> tick_env) \<Rightarrow> walk_entry list \<Rightarrow> walk_entry list option \<Rightarrow>
     (string list \<Rightarrow> string option) \<Rightarrow> ingest_db \<Rightarrow> (nat \<times> nat \<times> ingest_db) option" where
  "tick L envs claude codex contents db =
     Option.bind (tick_root L envs ClaudeCode claude contents (0, 0, db)) (\<lambda>acc.
       case codex of
         None \<Rightarrow> Some acc
       | Some entries \<Rightarrow> tick_root L envs Codex entries contents acc)"

end
