(* ===== verification/Ingest_Lines.thy ===== *)
theory Ingest_Lines
  imports Ingest_File
begin

text \<open>
  The loop over the bytes of a transcript, as a fold over its complete lines, and what one
  line and a list of lines do to the tables.
\<close>

section \<open>Complete lines\<close>

text \<open>The newline-terminated lines of a buffer with their offsets; the rest is left.\<close>

fun complete_lines :: "int \<Rightarrow> string \<Rightarrow> string \<Rightarrow> (int \<times> string) list" where
  "complete_lines off cur [] = []"
| "complete_lines off cur (c # cs) =
     (if c = CHR 0x0A then (off, cur) # complete_lines (off + int (length cur) + 1) [] cs
      else complete_lines off (cur @ [c]) cs)"

abbreviation lines_at :: "int \<Rightarrow> string \<Rightarrow> (int \<times> string) list" where
  "lines_at off buf \<equiv> complete_lines off [] buf"

fun lines_end :: "int \<Rightarrow> (int \<times> string) list \<Rightarrow> int" where
  "lines_end off [] = off"
| "lines_end off ((o', l) # ls) = lines_end (o' + int (length l) + 1) ls"

definition line_step ::
    "ingest_lib \<Rightarrow> tick_env \<Rightarrow> dirty_file \<Rightarrow> transcript_source \<Rightarrow> loop_state \<Rightarrow> int \<times> string \<Rightarrow> loop_state" where
  "line_step L env f src s ol =
     (count_insert (fst ol)
        (insert_event L env (df_session f) src (fst ol) (snd ol) (lp_ctx s, lp_db s)) s)
       \<lparr>lp_line_start := nat (fst ol - df_committed f) + length (snd ol) + 1,
        lp_next_committed := fst ol + int (length (snd ol)) + 1\<rparr>"

lemma loop_lines:
  "buf = pre @ cur @ rest \<Longrightarrow> lp_line_start s = length pre \<Longrightarrow>
   foldl (loop_byte L env f src buf) s (enumerate (length pre + length cur) rest)
     = foldl (line_step L env f src) s (complete_lines (df_committed f + int (length pre)) cur rest)"
proof (induction rest arbitrary: s pre cur)
  case (Cons c rest)
  show ?case
  proof (cases "c = CHR 0x0A")
    case False
    then have "loop_byte L env f src buf s (length pre + length cur, c) = s"
      by (simp add: loop_byte_def)
    with Cons.IH [of pre "cur @ [c]" s] Cons.prems False show ?thesis by simp
  next
    case True
    have line: "take (length pre + length cur - lp_line_start s) (drop (lp_line_start s) buf) = cur"
      using Cons.prems by simp
    have step: "loop_byte L env f src buf s (length pre + length cur, c)
        = line_step L env f src s (df_committed f + int (length pre), cur)"
      using True Cons.prems(2) line by (simp add: loop_byte_def line_step_def Let_def)
    have start: "lp_line_start (line_step L env f src s (df_committed f + int (length pre), cur))
        = length (pre @ cur @ [c])" by (simp add: line_step_def)
    have e: "Suc (length pre + length cur) = length (pre @ cur @ [c]) + length ([] :: string)"
      "df_committed f + int (length pre) + int (length cur) + 1
        = df_committed f + int (length (pre @ cur @ [c]))" by simp_all
    have "foldl (loop_byte L env f src buf) s (enumerate (length pre + length cur) (c # rest))
        = foldl (loop_byte L env f src buf)
            (line_step L env f src s (df_committed f + int (length pre), cur))
            (enumerate (length (pre @ cur @ [c]) + length ([] :: string)) rest)"
      by (simp only: enumerate_simps foldl_Cons step e(1))
    also have "\<dots> = foldl (line_step L env f src)
            (line_step L env f src s (df_committed f + int (length pre), cur))
            (complete_lines (df_committed f + int (length (pre @ cur @ [c]))) [] rest)"
      by (rule Cons.IH) (use Cons.prems start in simp_all)
    finally show ?thesis using True by (simp add: ac_simps)
  qed
qed simp

lemma run_buffer_lines:
  "run_buffer L env f src buf ctx db
     = foldl (line_step L env f src) (loop_start f ctx db) (lines_at (df_committed f) buf)"
  using loop_lines [of buf "[]" "[]" buf "loop_start f ctx db" L env f src]
  by (simp add: run_buffer_def loop_start_def)

section \<open>Offsets\<close>

lemma lines_end_append: "lines_end off (a @ b) = lines_end (lines_end off a) b"
  by (induction off a rule: lines_end.induct) simp_all

lemma complete_lines_append:
  "complete_lines off cur (a @ CHR 0x0A # b)
     = complete_lines off cur (a @ [CHR 0x0A])
       @ lines_at (off + int (length cur) + int (length a) + 1) b"
  by (induction off cur a rule: complete_lines.induct) (simp_all add: ac_simps)

text \<open>An offset at a line boundary: the start, or one past a newline.\<close>

definition at_boundary :: "string \<Rightarrow> int \<Rightarrow> bool" where
  "at_boundary c n \<longleftrightarrow>
     n = 0 \<or> 0 < n \<and> n \<le> int (length c) \<and> c ! nat (n - 1) = CHR 0x0A"

lemma at_boundary_append: "at_boundary c n \<Longrightarrow> at_boundary (c @ d) n"
  by (auto simp: at_boundary_def nth_append)

lemma at_boundary_range: "at_boundary c n \<Longrightarrow> 0 \<le> n \<and> n \<le> int (length c)"
  by (auto simp: at_boundary_def)

lemma lines_split:
  assumes "at_boundary c n"
  shows "lines_at 0 c = lines_at 0 (take (nat n) c) @ lines_at n (drop (nat n) c)"
proof (cases "n = 0")
  case False
  define m where "m = nat (n - 1)"
  have m: "n = int m + 1" "m < length c" "c ! m = CHR 0x0A"
    using assms False by (auto simp: at_boundary_def m_def)
  have c: "c = take m c @ CHR 0x0A # drop (Suc m) c"
    using m(2,3) id_take_nth_drop by fastforce
  have "take (nat n) c = take m c @ [CHR 0x0A]" "nat n = Suc m"
    using m by (simp_all add: take_Suc_conv_app_nth nat_add_distrib)
  moreover have "lines_at 0 c = lines_at 0 (take m c @ [CHR 0x0A]) @ lines_at (int m + 1) (drop (Suc m) c)"
    using complete_lines_append [of 0 "[]" "take m c" "drop (Suc m) c"] m(2) c by simp
  ultimately show ?thesis using m(1) by simp
qed simp

lemma lines_end_spec:
  "CHR 0x0A \<notin> set cur \<Longrightarrow>
   \<exists>pre tail. cur @ buf = pre @ tail \<and> CHR 0x0A \<notin> set tail \<and> (pre = [] \<or> last pre = CHR 0x0A)
     \<and> lines_end off (complete_lines off cur buf) = off + int (length pre)"
proof (induction off cur buf rule: complete_lines.induct)
  case (1 off cur)
  then show ?case by (intro exI [of _ "[]"] exI [of _ cur]) simp
next
  case (2 off cur c cs)
  show ?case
  proof (cases "c = CHR 0x0A")
    case False
    with 2 show ?thesis by simp
  next
    case True
    let ?off = "off + int (length cur) + 1"
    from "2.IH"(1) [OF True] obtain pre tail where t: "cs = pre @ tail" "CHR 0x0A \<notin> set tail"
      "pre = [] \<or> last pre = CHR 0x0A" "lines_end ?off (lines_at ?off cs) = ?off + int (length pre)"
      unfolding append_Nil by (metis empty_iff empty_set)
    have "cur @ c # cs = (cur @ c # pre) @ tail" "last (cur @ c # pre) = CHR 0x0A"
      using t(1,3) True by auto
    moreover have "lines_end off (complete_lines off cur (c # cs)) = off + int (length (cur @ c # pre))"
      using t(4) True by simp
    ultimately show ?thesis using t(2) by blast
  qed
qed

lemma lines_end_boundary:
  assumes "at_boundary c n"
  shows "at_boundary c (lines_end n (lines_at n (drop (nat n) c)))"
    and "n \<le> lines_end n (lines_at n (drop (nat n) c))"
    and "CHR 0x0A \<notin> set (drop (nat (lines_end n (lines_at n (drop (nat n) c)))) c)"
proof -
  let ?e = "lines_end n (lines_at n (drop (nat n) c))"
  note r = at_boundary_range [OF assms]
  have "\<exists>pre tail. [] @ drop (nat n) c = pre @ tail \<and> CHR 0x0A \<notin> set tail
      \<and> (pre = [] \<or> last pre = CHR 0x0A) \<and> ?e = n + int (length pre)"
    by (rule lines_end_spec) simp
  then obtain pre tail where t: "drop (nat n) c = pre @ tail" "CHR 0x0A \<notin> set tail"
    "pre = [] \<or> last pre = CHR 0x0A" "?e = n + int (length pre)" unfolding append_Nil by blast
  have c: "c = (take (nat n) c @ pre) @ tail" using t(1) append_take_drop_id [of "nat n" c] by simp
  have len: "length (take (nat n) c @ pre) = nat ?e"
    using t(4) r by (auto simp: nat_add_distrib min_def)
  show "n \<le> ?e" using t(4) by simp
  have "drop (nat ?e) c = tail" using c len by (metis append_eq_conv_conj)
  with t(2) show "CHR 0x0A \<notin> set (drop (nat ?e) c)" by simp
  show "at_boundary c ?e"
  proof (cases "pre = []")
    case True
    with t(4) have "?e = n" by simp
    with assms show ?thesis by simp
  next
    case False
    then have "last (take (nat n) c @ pre) = CHR 0x0A" using t(3) by simp
    moreover have ne: "take (nat n) c @ pre \<noteq> []" using False by simp
    ultimately have "(take (nat n) c @ pre) ! (nat ?e - 1) = CHR 0x0A"
      by (metis last_conv_nth len)
    moreover have pos: "0 < ?e" using t(4) r False by (cases pre) auto
    moreover have "nat ?e - 1 < length (take (nat n) c @ pre)" using len pos by simp
    ultimately have "c ! (nat ?e - 1) = CHR 0x0A" using c by (metis nth_append)
    moreover have "?e \<le> int (length c)" using arg_cong [OF c, of length] len pos by simp
    ultimately show ?thesis using pos by (simp add: at_boundary_def nat_diff_distrib)
  qed
qed

lemma fold_next_committed:
  "lp_next_committed s = off \<Longrightarrow>
     lp_next_committed (foldl (line_step L env f src) s ls) = lines_end off ls"
  by (induction ls arbitrary: s off) (auto simp: line_step_def)

lemma complete_lines_offsets:
  "(o', l) \<in> set (complete_lines off cur buf) \<Longrightarrow> off \<le> o'"
  by (induction off cur buf rule: complete_lines.induct) (auto split: if_splits)

lemma complete_lines_sorted: "sorted_wrt (<) (map fst (complete_lines off cur buf))"
proof (induction off cur buf rule: complete_lines.induct)
  case (2 off cur c cs)
  then show ?case using complete_lines_offsets by fastforce
qed simp

end
