(* ===== verification/Ingest_Run.thy ===== *)
theory Ingest_Run
  imports Ingest_Lines
begin

text \<open>
  What one line, one pass and a run of passes do to the tables: the lemmas behind the
  properties of ingestion.
\<close>

section \<open>The event table\<close>

lemma event_at_append:
  "event_at (rows @ [r]) k
     = (case event_at rows k of Some x \<Rightarrow> Some x
        | None \<Rightarrow> if (ev_session r, ev_offset r) = k then Some r else None)"
  by (induction rows) (auto simp: event_at_def)

lemma event_at_Some: "event_at rows k = Some r \<Longrightarrow> r \<in> set rows \<and> (ev_session r, ev_offset r) = k"
  by (auto simp: event_at_def find_Some_iff)

lemma event_at_None: "event_at rows k = None \<longleftrightarrow> (\<forall>r \<in> set rows. (ev_session r, ev_offset r) \<noteq> k)"
  by (auto simp: event_at_def find_None_iff)

interpretation event_table: insert_once_table event_at put_event
  "\<lambda>k row. row\<lparr>ev_session := fst k, ev_offset := snd k\<rparr>"
  by unfold_locales (auto simp: put_event_def fun_eq_iff event_at_append split: option.splits)

definition row_keys :: "event_row list \<Rightarrow> (uuid \<times> int) list" where
  "row_keys rows = map (\<lambda>r. (ev_session r, ev_offset r)) rows"

lemma put_event_keys: "distinct (row_keys rows) \<Longrightarrow> distinct (row_keys (snd (put_event rows k row)))"
  by (auto simp: put_event_def row_keys_def event_at_None)

section \<open>One line\<close>

text \<open>A line that ingestion stores: not blank, and JSON.\<close>

definition usable :: "ingest_lib \<Rightarrow> string \<Rightarrow> json \<Rightarrow> bool" where
  "usable L line v \<longleftrightarrow> \<not> list_all ascii_whitespace line \<and> js_parse (i_json L) line = Some v"

abbreviation insert_db ::
    "ingest_lib \<Rightarrow> tick_env \<Rightarrow> uuid \<Rightarrow> transcript_source \<Rightarrow> int \<Rightarrow> string \<Rightarrow>
     codex_context option \<Rightarrow> ingest_db \<Rightarrow> ingest_db" where
  "insert_db L env u src off line ctx db \<equiv> snd (snd (insert_event L env u src off line (ctx, db)))"

abbreviation line_row ::
    "ingest_lib \<Rightarrow> tick_env \<Rightarrow> uuid \<Rightarrow> transcript_source \<Rightarrow> int \<Rightarrow> json \<Rightarrow> codex_context option \<Rightarrow> event_row" where
  "line_row L env u src off v ctx \<equiv>
     row_of_event L src u off (en_now env) v (parse_canonical_event L (agent_id src) v u off ctx)"

lemma set_parent_tables [simp]:
  "ev_rows (set_parent_session db u p) = ev_rows db"
  "block_rows (set_parent_session db u p) = block_rows db"
  "states (set_parent_session db u p) = states db"
  "metadata (set_parent_session db u p) = metadata db"
  "ptys (set_parent_session db u p) = ptys db"
  "rebuilds (set_parent_session db u p) = rebuilds db"
  by (simp_all add: set_parent_session_def split: option.split)

text \<open>The three ways a line goes: skipped, failed, or put.\<close>

lemma insert_event_skip:
  "(\<And>v. \<not> usable L line v) \<Longrightarrow> insert_db L env u src off line ctx db = db"
  by (auto simp: insert_event_def usable_def split: option.splits)

lemma insert_event_fail:
  "en_insert_fails env off \<Longrightarrow> insert_db L env u src off line ctx db = db"
  by (auto simp: insert_event_def Let_def split: option.splits)

lemma insert_event_put:
  assumes "usable L line v" and "\<not> en_insert_fails env off"
  shows "ev_rows (insert_db L env u src off line ctx db)
           = snd (put_event (ev_rows db) (u, off) (line_row L env u src off v ctx))"
    and "block_rows (insert_db L env u src off line ctx db)
           = (if event_at (ev_rows db) (u, off) = None
              then insert_blocks (block_rows db) u off
                     (ce_blocks (parse_canonical_event L (agent_id src) v u off ctx))
              else block_rows db)"
    and "metadata (insert_db L env u src off line ctx db)
           = (if event_at (ev_rows db) (u, off) = None \<and> \<not> en_metadata_fails env off
              then upsert_from_event (i_num L) (metadata db) u (agent_id src) v else metadata db)"
    and "fst (insert_event L env u src off line (ctx, db)) = Inr (event_at (ev_rows db) (u, off) = None)"
  using assms event_table.put_reports [of "ev_rows db" "(u, off)" "line_row L env u src off v ctx"]
  by (auto simp: insert_event_def usable_def Let_def insert_blocks_def split: prod.splits option.splits)

lemma insert_event_rest [simp]:
  "states (insert_db L env u src off line ctx db) = states db"
  "ptys (insert_db L env u src off line ctx db) = ptys db"
  "rebuilds (insert_db L env u src off line ctx db) = rebuilds db"
  by (auto simp: insert_event_def Let_def split: prod.splits option.splits)

lemma insert_event_rows:
  "ev_rows (insert_db L env u src off line ctx db) = ev_rows db
   \<or> (\<exists>v. usable L line v \<and> \<not> en_insert_fails env off \<and> event_at (ev_rows db) (u, off) = None
        \<and> ev_rows (insert_db L env u src off line ctx db) = ev_rows db @ [line_row L env u src off v ctx])"
proof (cases "(\<exists>v. usable L line v) \<and> \<not> en_insert_fails env off")
  case False
  then show ?thesis using insert_event_skip insert_event_fail by metis
next
  case True
  then obtain v where v: "usable L line v" "\<not> en_insert_fails env off" by blast
  have k: "row\<lparr>ev_session := u, ev_offset := off\<rparr> = row" if "row = line_row L env u src off v ctx" for row
    using that by (simp add: row_of_event_def)
  show ?thesis
    using v insert_event_put(1) [OF v] by (auto simp: put_event_def k)
qed

lemma line_row_fields [simp]:
  "ev_session (line_row L env u src off v ctx) = u" "ev_offset (line_row L env u src off v ctx) = off"
  "ev_payload (line_row L env u src off v ctx) = v"
  by (simp_all add: row_of_event_def)

lemma count_insert_fields [simp]:
  "lp_db (count_insert off r s) = snd (snd r)" "lp_ctx (count_insert off r s) = fst (snd r)"
  by (simp_all add: count_insert_def Let_def split: prod.split sum.split bool.split insert_error.split)

lemma line_step_fields [simp]:
  "lp_db (line_step L env f src s ol)
     = insert_db L env (df_session f) src (fst ol) (snd ol) (lp_ctx s) (lp_db s)"
  "lp_ctx (line_step L env f src s ol)
     = fst (snd (insert_event L env (df_session f) src (fst ol) (snd ol) (lp_ctx s, lp_db s)))"
  by (simp_all add: line_step_def)

section \<open>A list of lines\<close>

lemma fold_lines_inv:
  assumes "\<And>off line ctx db. (off, line) \<in> set ls \<Longrightarrow> P db \<Longrightarrow>
      P (insert_db L env (df_session f) src off line ctx db)" and "P (lp_db s)"
  shows "P (lp_db (foldl (line_step L env f src) s ls))"
  using assms
proof (induction ls arbitrary: s)
  case (Cons ol ls)
  have "P (lp_db (line_step L env f src s ol))" using Cons.prems by (cases ol) simp
  with Cons show ?case by simp
qed simp

lemma event_stays:
  "event_at (ev_rows db) k = Some r \<Longrightarrow> event_at (ev_rows (insert_db L env u src off line ctx db)) k = Some r"
  using insert_event_rows [of L env u src off line ctx db] by (auto simp: event_at_append)

lemma fold_event_stays:
  "event_at (ev_rows (lp_db s)) k = Some r \<Longrightarrow>
     event_at (ev_rows (lp_db (foldl (line_step L env f src) s ls))) k = Some r"
  by (rule fold_lines_inv) (auto intro: event_stays)

lemma fold_states:
  "states (lp_db (foldl (line_step L env f src) s ls)) = states (lp_db s)"
  "rebuilds (lp_db (foldl (line_step L env f src) s ls)) = rebuilds (lp_db s)"
  by (induction ls arbitrary: s) simp_all

lemma fold_stores:
  assumes "(off, line) \<in> set ls" and "usable L line v" and "\<not> en_insert_fails env off"
  shows "event_at (ev_rows (lp_db (foldl (line_step L env f src) s ls))) (df_session f, off) \<noteq> None"
  using assms(1)
proof (induction ls arbitrary: s)
  case (Cons ol ls)
  show ?case
  proof (cases "ol = (off, line)")
    case True
    have "event_at (ev_rows (lp_db (line_step L env f src s ol))) (df_session f, off) \<noteq> None"
      using event_table.put_stored insert_event_put(1) [OF assms(2,3)] True by simp
    then show ?thesis using fold_event_stays by fastforce
  next
    case False
    with Cons show ?thesis by simp
  qed
qed simp

section \<open>One pass\<close>

lemma finish_file_tables:
  assumes "finish_file env f src s = Some (r, db')"
  shows "ev_rows db' = ev_rows (lp_db s)" and "block_rows db' = block_rows (lp_db s)"
    and "metadata db' = metadata (lp_db s)" and "sessions db' = sessions (lp_db s)"
    and "ptys db' = ptys (lp_db s)"
    and "states db' = (if r = Inl ''set_offset'' \<or> lp_next_committed s = df_committed f
           then states (lp_db s)
           else (states (lp_db s))(df_session f \<mapsto>
                  \<lparr>is_file_path = df_path f, is_offset = lp_next_committed s\<rparr>))"
    and "r = Inl ''set_offset'' \<longleftrightarrow> lp_next_committed s \<noteq> df_committed f \<and> en_offset_fails env"
    and "r = Inl ''set_offset'' \<or> r = Inr \<lparr>fr_inserted = lp_inserted s,
           fr_parse_errors = lp_parse_errors s, fr_committed = lp_next_committed s\<rparr>"
  using assms
  by (auto simp: finish_file_def Let_def rebuild_projections_after_insert_def set_offset_def
      bind_eq_Some_conv split: if_splits option.splits)

lemma upsert_session_tables [simp]:
  "ev_rows (upsert_agent_session db u a h) = ev_rows db"
  "block_rows (upsert_agent_session db u a h) = block_rows db"
  "metadata (upsert_agent_session db u a h) = metadata db"
  "states (upsert_agent_session db u a h) = states db"
  "ptys (upsert_agent_session db u a h) = ptys db"
  "rebuilds (upsert_agent_session db u a h) = rebuilds db"
  by (simp_all add: upsert_agent_session_def Let_def)

definition pass_context :: "ingest_lib \<Rightarrow> ingest_db \<Rightarrow> uuid \<Rightarrow> transcript_source \<Rightarrow> codex_context option" where
  "pass_context L db u src = (if src = Codex then Some (load_codex_context L db u) else None)"

definition pass_lines ::
    "ingest_lib \<Rightarrow> tick_env \<Rightarrow> ingest_db \<Rightarrow> dirty_file \<Rightarrow> transcript_source \<Rightarrow> string \<Rightarrow> loop_state" where
  "pass_lines L env db f src bytes =
     (let db1 = upsert_agent_session db (df_session f) (agent_id src) (df_project_hash f)
      in foldl (line_step L env f src) (loop_start f (pass_context L db1 (df_session f) src) db1)
           (lines_at (df_committed f) (drop (nat (df_committed f)) bytes)))"

lemma process_file_cases:
  assumes "process_file L env db f src (Some bytes) = Some (r, db')"
  obtains
    (failed) e where "r = Inl e" "ev_rows db' = ev_rows db" "block_rows db' = block_rows db"
      "metadata db' = metadata db" "states db' = states db"
      "db' = db \<or> db' = upsert_agent_session db (df_session f) (agent_id src) (df_project_hash f)"
  | (reset) "df_len f < df_committed f" "r = Inr \<lparr>fr_inserted = 0, fr_parse_errors = 0, fr_committed = 0\<rparr>"
      "db' = set_offset (upsert_agent_session db (df_session f) (agent_id src) (df_project_hash f))
               (df_session f) (df_path f) 0"
  | (ran) "df_committed f \<le> df_len f" "finish_file env f src (pass_lines L env db f src bytes) = Some (r, db')"
  using assms
  by (auto simp: process_file_def Let_def pass_lines_def run_buffer_lines pass_context_def
      split: if_splits)

end
