(* ===== verification/Ingest_Props.thy ===== *)
theory Ingest_Props
  imports Ingest_Run
begin

text \<open>
  What ingestion guarantees for a transcript that is only appended to, under any database
  failures and any stale file lengths: where the committed offset stands, which rows exist,
  and that replaying is harmless; and what a failed insert costs.
\<close>

section \<open>Runs over one transcript\<close>

text \<open>
  The file grows by \<open>Append\<close>; \<open>Pass env flen\<close> is one \<open>process_file\<close> on it, with the length
  \<open>flen\<close> the scan saw and the failures of \<open>env\<close>.
\<close>

datatype ingest_action = Append string | Pass tick_env int

definition committed :: "ingest_db \<Rightarrow> uuid \<Rightarrow> int" where
  "committed db u = (case states db u of None \<Rightarrow> 0 | Some s \<Rightarrow> is_offset s)"

definition file_at :: "ingest_db \<Rightarrow> uuid \<Rightarrow> string list \<Rightarrow> string option \<Rightarrow> int \<Rightarrow> dirty_file" where
  "file_at db u path h flen =
     \<lparr>df_path = path, df_session = u, df_project_hash = h, df_committed = committed db u,
      df_len = flen\<rparr>"

fun ingest_step ::
    "ingest_lib \<Rightarrow> uuid \<Rightarrow> string list \<Rightarrow> string option \<Rightarrow> transcript_source \<Rightarrow>
     string \<times> ingest_db \<Rightarrow> ingest_action \<Rightarrow> (string \<times> ingest_db) option" where
  "ingest_step L u path h src (c, db) (Append d) = Some (c @ d, db)"
| "ingest_step L u path h src (c, db) (Pass env flen) =
     map_option (\<lambda>rd. (c, snd rd)) (process_file L env db (file_at db u path h flen) src (Some c))"

fun ingest_run ::
    "ingest_lib \<Rightarrow> uuid \<Rightarrow> string list \<Rightarrow> string option \<Rightarrow> transcript_source \<Rightarrow>
     string \<times> ingest_db \<Rightarrow> ingest_action list \<Rightarrow> (string \<times> ingest_db) option" where
  "ingest_run L u path h src st [] = Some st"
| "ingest_run L u path h src st (a # as) =
     Option.bind (ingest_step L u path h src st a) (\<lambda>st'. ingest_run L u path h src st' as)"

section \<open>The invariant\<close>

text \<open>Every row of the session is a complete line of the file, at its offset.\<close>

definition sound :: "ingest_lib \<Rightarrow> uuid \<Rightarrow> string \<Rightarrow> ingest_db \<Rightarrow> bool" where
  "sound L u c db \<longleftrightarrow>
     (\<forall>r \<in> set (ev_rows db). ev_session r = u \<longrightarrow>
        (\<exists>line. (ev_offset r, line) \<in> set (lines_at 0 c) \<and> usable L line (ev_payload r)))"

text \<open>Every usable line before the committed offset has its row.\<close>

definition covered :: "ingest_lib \<Rightarrow> uuid \<Rightarrow> string \<Rightarrow> ingest_db \<Rightarrow> bool" where
  "covered L u c db \<longleftrightarrow>
     (\<forall>(off, line) \<in> set (lines_at 0 (take (nat (committed db u)) c)). \<forall>v. usable L line v \<longrightarrow>
        event_at (ev_rows db) (u, off) \<noteq> None)"

definition no_insert_failure :: "ingest_action \<Rightarrow> bool" where
  "no_insert_failure a =
     (case a of Append _ \<Rightarrow> True | Pass env _ \<Rightarrow> \<forall>off. \<not> en_insert_fails env off)"

lemma lines_at_append_subset: "set (complete_lines off cur a) \<subseteq> set (complete_lines off cur (a @ b))"
  by (induction off cur a rule: complete_lines.induct) auto

lemma take_boundary_append: "at_boundary c n \<Longrightarrow> take (nat n) (c @ d) = take (nat n) c"
  using at_boundary_range [of c n] by (simp add: nat_le_iff)

lemma no_newline_lines: "CHR 0x0A \<notin> set buf \<Longrightarrow> complete_lines off cur buf = []"
  by (induction off cur buf rule: complete_lines.induct) auto

lemma lines_take_end:
  assumes "at_boundary c n"
  shows "lines_at 0 (take (nat (lines_end n (lines_at n (drop (nat n) c)))) c)
    = lines_at 0 (take (nat n) c) @ lines_at n (drop (nat n) c)"
  using lines_split [OF lines_end_boundary(1) [OF assms]] lines_split [OF assms]
    no_newline_lines [OF lines_end_boundary(3) [OF assms]] by simp

text \<open>What a pass that ran its lines did to the rows of any session.\<close>

lemma pass_lines_rows:
  assumes "r \<in> set (ev_rows (lp_db (pass_lines L env db f src c)))"
  shows "r \<in> set (ev_rows db) \<or> ev_session r = df_session f
    \<and> (\<exists>line. (ev_offset r, line) \<in> set (lines_at (df_committed f) (drop (nat (df_committed f)) c))
         \<and> usable L line (ev_payload r) \<and> \<not> en_insert_fails env (ev_offset r))"
proof -
  let ?ls = "lines_at (df_committed f) (drop (nat (df_committed f)) c)"
  let ?P = "\<lambda>d. \<forall>r \<in> set (ev_rows d). r \<in> set (ev_rows db) \<or> ev_session r = df_session f
    \<and> (\<exists>line. (ev_offset r, line) \<in> set ?ls \<and> usable L line (ev_payload r)
         \<and> \<not> en_insert_fails env (ev_offset r))"
  have "?P (lp_db (pass_lines L env db f src c))"
    unfolding pass_lines_def Let_def
  proof (rule fold_lines_inv)
    fix off line ctx and d :: ingest_db
    assume l: "(off, line) \<in> set ?ls" and P: "?P d"
    from insert_event_rows [of L env "df_session f" src off line ctx d]
    show "?P (insert_db L env (df_session f) src off line ctx d)"
    proof (elim disjE exE conjE)
      fix v
      assume "usable L line v" "\<not> en_insert_fails env off"
        "ev_rows (insert_db L env (df_session f) src off line ctx d)
          = ev_rows d @ [line_row L env (df_session f) src off v ctx]"
      with l P show ?thesis by (auto simp: row_of_event_def)
    qed (use P in simp)
  qed (simp add: loop_start_def)
  with assms show ?thesis by blast
qed

lemma pass_lines_keeps:
  "event_at (ev_rows db) k = Some r \<Longrightarrow> event_at (ev_rows (lp_db (pass_lines L env db f src c))) k = Some r"
  unfolding pass_lines_def Let_def by (rule fold_event_stays) (simp add: loop_start_def)

lemma pass_lines_states:
  "states (lp_db (pass_lines L env db f src c)) = states db"
  "lp_next_committed (pass_lines L env db f src c)
     = lines_end (df_committed f) (lines_at (df_committed f) (drop (nat (df_committed f)) c))"
  by (simp_all add: pass_lines_def Let_def fold_states loop_start_def fold_next_committed)

lemma pass_lines_keys:
  "distinct (row_keys (ev_rows db)) \<Longrightarrow> distinct (row_keys (ev_rows (lp_db (pass_lines L env db f src c))))"
  unfolding pass_lines_def Let_def
proof (rule fold_lines_inv)
  fix off line ctx and d :: ingest_db
  assume d: "distinct (row_keys (ev_rows d))"
  from insert_event_rows [of L env "df_session f" src off line ctx d]
  show "distinct (row_keys (ev_rows (insert_db L env (df_session f) src off line ctx d)))"
  proof (elim disjE exE conjE)
    fix v
    assume "event_at (ev_rows d) (df_session f, off) = None"
      and "ev_rows (insert_db L env (df_session f) src off line ctx d)
        = ev_rows d @ [line_row L env (df_session f) src off v ctx]"
    moreover from this(1) have "(df_session f, off) \<notin> set (row_keys (ev_rows d))"
      by (auto simp: event_at_None row_keys_def)
    ultimately show ?thesis using d by (simp add: row_keys_def)
  qed (use d in simp)
qed (simp add: loop_start_def)

lemma pass_keeps_invariant:
  assumes p: "process_file L env db (file_at db u path h flen) src (Some c) = Some (res, db')"
    and b: "at_boundary c (committed db u)" and s: "sound L u c db"
    and k: "distinct (row_keys (ev_rows db))"
  shows "at_boundary c (committed db' u) \<and> sound L u c db' \<and> distinct (row_keys (ev_rows db'))
    \<and> ((\<forall>off. \<not> en_insert_fails env off) \<longrightarrow> covered L u c db \<longrightarrow> covered L u c db')"
proof -
  let ?f = "file_at db u path h flen"
  let ?n = "committed db u"
  have f: "df_committed ?f = ?n" "df_session ?f = u" by (simp_all add: file_at_def)
  from p show ?thesis
  proof (cases rule: process_file_cases)
    case (failed e)
    with b s k show ?thesis by (simp add: sound_def covered_def committed_def)
  next
    case reset
    then show ?thesis
      using s k f by (auto simp: set_offset_def sound_def covered_def committed_def at_boundary_def)
  next
    case ran
    let ?S = "pass_lines L env db ?f src c"
    note t = finish_file_tables [OF ran(2)]
    have ls: "set (lines_at ?n (drop (nat ?n) c)) \<subseteq> set (lines_at 0 c)"
      using lines_split [OF b] by simp
    have sound': "sound L u c db'"
      unfolding sound_def t(1)
    proof (intro ballI impI)
      fix r assume r: "r \<in> set (ev_rows (lp_db ?S))" "ev_session r = u"
      from pass_lines_rows [OF r(1)] show
        "\<exists>line. (ev_offset r, line) \<in> set (lines_at 0 c) \<and> usable L line (ev_payload r)"
        using s r(2) ls unfolding f sound_def by blast
    qed
    have keys': "distinct (row_keys (ev_rows db'))"
      unfolding t(1) by (rule pass_lines_keys [OF k])
    have com: "committed db' u = ?n \<or> committed db' u = lines_end ?n (lines_at ?n (drop (nat ?n) c))"
      using t(6) pass_lines_states by (auto simp: committed_def f split: if_splits)
    have bound: "at_boundary c (committed db' u)"
      using com b lines_end_boundary(1) [OF b] by auto
    have cov: "covered L u c db'" if "\<forall>off. \<not> en_insert_fails env off" "covered L u c db"
    proof -
      have stored: "event_at (ev_rows db') (u, off) \<noteq> None"
        if "(off, line) \<in> set (lines_at 0 (take (nat ?n) c) @ lines_at ?n (drop (nat ?n) c))"
          "usable L line v" for off line v
      proof (cases "(off, line) \<in> set (lines_at ?n (drop (nat ?n) c))")
        case True
        then show ?thesis
          using fold_stores [of off line _ L v env ?f src] that(2) \<open>\<forall>off. \<not> en_insert_fails env off\<close>
          unfolding t(1) pass_lines_def Let_def f by blast
      next
        case False
        with that \<open>covered L u c db\<close> have "event_at (ev_rows db) (u, off) \<noteq> None"
          by (auto simp: covered_def)
        then show ?thesis using pass_lines_keeps unfolding t(1) by fastforce
      qed
      have "set (lines_at 0 (take (nat (committed db' u)) c))
          \<subseteq> set (lines_at 0 (take (nat ?n) c) @ lines_at ?n (drop (nat ?n) c))"
        using com lines_take_end [OF b] by auto
      with stored show ?thesis unfolding covered_def by blast
    qed
    show ?thesis using sound' keys' bound cov by blast
  qed
qed

lemma run_keeps_invariant:
  assumes "ingest_run L u path h src (c, db) acts = Some (c', db')"
    and "at_boundary c (committed db u)" and "sound L u c db" and "distinct (row_keys (ev_rows db))"
  shows "at_boundary c' (committed db' u) \<and> sound L u c' db' \<and> distinct (row_keys (ev_rows db'))
    \<and> (list_all no_insert_failure acts \<longrightarrow> covered L u c db \<longrightarrow> covered L u c' db')"
  using assms
proof (induction acts arbitrary: c db)
  case (Cons a acts)
  show ?case
  proof (cases a)
    case (Append d)
    have "at_boundary (c @ d) (committed db u)" by (rule at_boundary_append [OF Cons.prems(2)])
    moreover have "sound L u (c @ d) db"
      using Cons.prems(3) lines_at_append_subset [of 0 "[]" c d] unfolding sound_def by blast
    moreover have "covered L u (c @ d) db \<longleftrightarrow> covered L u c db"
      unfolding covered_def take_boundary_append [OF Cons.prems(2)] ..
    ultimately show ?thesis
      using Cons.IH [of "c @ d" db] Cons.prems(1,4) Append by (simp add: no_insert_failure_def)
  next
    case (Pass env flen)
    from Cons.prems(1) Pass obtain res db1 where
      p: "process_file L env db (file_at db u path h flen) src (Some c) = Some (res, db1)"
      and r: "ingest_run L u path h src (c, db1) acts = Some (c', db')"
      by (auto simp: bind_eq_Some_conv)
    note i = pass_keeps_invariant [OF p Cons.prems(2-4)]
    from Cons.IH [OF r] i Pass show ?thesis by (auto simp: no_insert_failure_def)
  qed
qed auto

section \<open>The documented invariants\<close>

text \<open>A database that has seen nothing of the session.\<close>

definition unseen :: "ingest_db \<Rightarrow> uuid \<Rightarrow> bool" where
  "unseen db u \<longleftrightarrow>
     states db u = None \<and> list_all (\<lambda>r. ev_session r \<noteq> u) (ev_rows db)
     \<and> distinct (row_keys (ev_rows db))"

lemma unseen_start: "unseen db u \<Longrightarrow>
    at_boundary [] (committed db u) \<and> sound L u [] db \<and> distinct (row_keys (ev_rows db)) \<and> covered L u [] db"
  by (auto simp: unseen_def at_boundary_def committed_def sound_def covered_def list_all_iff)

text \<open>
  C5. However a transcript grows, however its passes interleave with the growth,
  whatever lengths the scan reports and whichever database calls fail: the committed offset
  is at a line boundary, no two rows have the same key, and every row of the session holds
  the JSON of the complete line at its offset.
\<close>

theorem offset_at_line_boundary:
  assumes "unseen db u" and "ingest_run L u path h src ([], db) acts = Some (c, db')"
  shows "(committed db' u = 0
          \<or> 0 < committed db' u \<and> committed db' u \<le> int (length c)
            \<and> c ! nat (committed db' u - 1) = CHR 0x0A)
    \<and> distinct (row_keys (ev_rows db'))
    \<and> (\<forall>r \<in> set (ev_rows db'). ev_session r = u \<longrightarrow>
         (\<exists>line. (ev_offset r, line) \<in> set (lines_at 0 c) \<and> usable L line (ev_payload r)))"
proof -
  from unseen_start [OF assms(1), of L] have s: "at_boundary [] (committed db u)" "sound L u [] db"
    "distinct (row_keys (ev_rows db))" by blast+
  from run_keeps_invariant [OF assms(2) s] show ?thesis
    unfolding at_boundary_def sound_def by blast
qed

definition env_ok :: "tick_env \<Rightarrow> bool" where
  "env_ok env \<longleftrightarrow> \<not> en_session_fails env \<and> \<not> en_context_fails env \<and> \<not> en_offset_fails env"

definition last_line_end :: "string \<Rightarrow> int" where
  "last_line_end c = lines_end 0 (lines_at 0 c)"

lemma lines_end_boundary_eq:
  assumes "at_boundary c n"
  shows "lines_end n (lines_at n (drop (nat n) c)) = last_line_end c"
proof (cases "n = 0")
  case True
  then show ?thesis by (simp add: last_line_end_def)
next
  case False
  define m where "m = nat (n - 1)"
  have m: "n = int m + 1" "m < length c" "c ! m = CHR 0x0A"
    using assms False by (auto simp: at_boundary_def m_def)
  have "\<exists>pre tail. [] @ take m c @ [CHR 0x0A] = pre @ tail \<and> CHR 0x0A \<notin> set tail
      \<and> (pre = [] \<or> last pre = CHR 0x0A)
      \<and> lines_end 0 (lines_at 0 (take m c @ [CHR 0x0A])) = 0 + int (length pre)"
    by (rule lines_end_spec) simp
  then obtain pre tail where t: "take m c @ [CHR 0x0A] = pre @ tail" "CHR 0x0A \<notin> set tail"
    and e: "lines_end 0 (lines_at 0 (take m c @ [CHR 0x0A])) = int (length pre)" by auto
  have "tail = []"
  proof (rule ccontr)
    assume ne: "tail \<noteq> []"
    then have "last (pre @ tail) = last tail" by simp
    moreover have "last (pre @ tail) = CHR 0x0A" using t(1) by (metis last_snoc)
    ultimately show False using t(2) ne by (metis last_in_set)
  qed
  then have "length pre = m + 1" using arg_cong [OF t(1), of length] m(2) by simp
  with e m(1) have e: "lines_end 0 (lines_at 0 (take m c @ [CHR 0x0A])) = n" by simp
  have "take (nat n) c = take m c @ [CHR 0x0A]"
    using m by (simp add: take_Suc_conv_app_nth nat_add_distrib)
  then show ?thesis
    unfolding last_line_end_def lines_split [OF assms] lines_end_append using e by simp
qed

lemma run_append:
  "ingest_run L u path h src st (as @ bs)
     = Option.bind (ingest_run L u path h src st as) (\<lambda>st'. ingest_run L u path h src st' bs)"
  by (induction "as" arbitrary: st) (auto simp: Option.bind_assoc split: option.splits)

lemma pass_catches_up:
  assumes p: "process_file L env db (file_at db u path h flen) src (Some c) = Some (res, db')"
    and b: "at_boundary c (committed db u)" and "env_ok env" and "committed db u \<le> flen"
  shows "committed db' u = last_line_end c"
  using p
proof (cases rule: process_file_cases)
  case (failed e)
  then show ?thesis using p assms(3,4) by (auto simp: process_file_def Let_def env_ok_def
        finish_file_def rebuild_projections_after_insert_def file_at_def bind_eq_Some_conv
        split: if_splits option.splits)
next
  case reset
  then show ?thesis using assms(4) by (simp add: file_at_def)
next
  case ran
  note t = finish_file_tables [OF ran(2)]
  have "res \<noteq> Inl ''set_offset''" using t(7) assms(3) by (auto simp: env_ok_def)
  then show ?thesis
    using t(6) lines_end_boundary_eq [OF b] pass_lines_states(1,2) [of L env db "file_at db u path h flen" src c]
    by (auto simp: committed_def file_at_def split: if_splits)
qed

lemma lines_beyond:
  assumes "at_boundary c n" and "(off, line) \<in> set (lines_at 0 c)" and "off < n"
  shows "(off, line) \<in> set (lines_at 0 (take (nat n) c))"
  using assms lines_split [OF assms(1)] complete_lines_offsets [of off line n "[]" "drop (nat n) c"] by auto

lemma lines_unique:
  assumes "(off, l) \<in> set (complete_lines o' cur buf)" and "(off, l') \<in> set (complete_lines o' cur buf)"
  shows "l = l'"
proof -
  have "distinct (map fst (complete_lines o' cur buf))"
    using complete_lines_sorted strict_sorted_iff by blast
  with assms show ?thesis by (metis eq_key_imp_eq_value)
qed

text \<open>
  C4. When no insert fails, nothing is lost: after any run that ends with a pass over
  the whole file, the rows of the session are exactly the complete lines of the file that are
  not blank and are JSON, each at its offset with its payload, and the committed offset is
  the end of the last complete line.
\<close>

theorem ingestion_complete:
  assumes "unseen db u" and "ingest_run L u path h src ([], db) (acts @ [Pass env flen]) = Some (c, db')"
    and "list_all no_insert_failure (acts @ [Pass env flen])" and "env_ok env"
    and "flen = int (length c)"
  shows "{(ev_offset r, ev_payload r) | r. r \<in> set (ev_rows db') \<and> ev_session r = u}
      = {(off, v). \<exists>line. (off, line) \<in> set (lines_at 0 c) \<and> usable L line v}
    \<and> committed db' u = last_line_end c"
proof -
  from unseen_start [OF assms(1), of L] have s: "at_boundary [] (committed db u)" "sound L u [] db"
    "distinct (row_keys (ev_rows db))" "covered L u [] db" by blast+
  note all = run_keeps_invariant [OF assms(2) s(1-3)]
  from assms(2) obtain c1 db1 where r1: "ingest_run L u path h src ([], db) acts = Some (c1, db1)"
    and "ingest_run L u path h src (c1, db1) [Pass env flen] = Some (c, db')"
    by (auto simp: run_append bind_eq_Some_conv)
  then obtain res where p: "process_file L env db1 (file_at db1 u path h flen) src (Some c) = Some (res, db')"
    and c1: "c1 = c" by (auto simp: bind_eq_Some_conv)
  have b1: "at_boundary c (committed db1 u)" using run_keeps_invariant [OF r1 s(1-3)] c1 by simp
  have com: "committed db' u = last_line_end c"
    by (rule pass_catches_up [OF p b1 assms(4)]) (use at_boundary_range [OF b1] assms(5) in simp)
  have cov: "covered L u c db'" and snd: "sound L u c db'"
    using all assms(3) s(4) by blast+
  have pre: "lines_at 0 (take (nat (committed db' u)) c) = lines_at 0 c"
    using lines_take_end [of c 0] com by (simp add: last_line_end_def at_boundary_def)
  have "\<exists>r \<in> set (ev_rows db'). ev_session r = u \<and> ev_offset r = off \<and> ev_payload r = v"
    if l: "(off, line) \<in> set (lines_at 0 c)" "usable L line v" for off line v
  proof -
    from cov l pre have "event_at (ev_rows db') (u, off) \<noteq> None" by (auto simp: covered_def)
    then obtain r where r: "r \<in> set (ev_rows db')" "ev_session r = u" "ev_offset r = off"
      using event_at_Some by fastforce
    with snd obtain line' where "(off, line') \<in> set (lines_at 0 c)" "usable L line' (ev_payload r)"
      unfolding sound_def by metis
    with l lines_unique have "ev_payload r = v" by (fastforce simp: usable_def)
    with r show ?thesis by blast
  qed
  then show ?thesis using snd com unfolding sound_def by blast
qed

section \<open>A sample run\<close>

definition sample_ingest :: ingest_lib where
  "sample_ingest =
     \<lparr>i_json = \<lparr>js_print = (\<lambda>_. ''{}''), js_pretty = (\<lambda>_. ''{}''),
        js_parse = (\<lambda>s. if s = ''{}'' then Some (JObj []) else None)\<rparr>,
      i_uuid_parse = (\<lambda>s. if s = ''a'' then Some 1 else if s = ''b'' then Some 2 else None),
      i_uuid_show = (\<lambda>u. if u = 1 then ''a'' else ''b''), i_time_parse = (\<lambda>_. None), i_num = (\<lambda>_. None)\<rparr>"

definition fine_env :: tick_env where
  "fine_env =
     \<lparr>en_now = 0, en_session_fails = False, en_context_fails = False, en_offset_fails = False,
      en_insert_fails = (\<lambda>_. False), en_metadata_fails = (\<lambda>_. False), en_parent_fails = (\<lambda>_. False)\<rparr>"

definition empty_db :: ingest_db where
  "empty_db =
     \<lparr>ev_rows = [], block_rows = [], sessions = (\<lambda>_. None), states = (\<lambda>_. None),
      metadata = (\<lambda>_. None), ptys = [], rebuilds = []\<rparr>"

definition sample_acts :: "ingest_action list" where
  "sample_acts = [Append (''{}'' @ [CHR 0x0A] @ ''{''), Pass fine_env 3, Append (''}'' @ [CHR 0x0A])]"

lemma empty_unseen: "unseen empty_db u"
  by (simp add: unseen_def empty_db_def row_keys_def)

lemma sample_run:
  "case ingest_run sample_ingest 1 [''t''] None ClaudeCode ([], empty_db)
          (sample_acts @ [Pass fine_env 6]) of
     None \<Rightarrow> False
   | Some (c, db) \<Rightarrow> length c = 6 \<and> map ev_offset (ev_rows db) = [0, 3]
       \<and> committed db 1 = last_line_end c"
  by code_simp

lemma sample_run_obtain:
  obtains c db where "ingest_run sample_ingest 1 [''t''] None ClaudeCode ([], empty_db)
      (sample_acts @ [Pass fine_env 6]) = Some (c, db)" "length c = 6" "map ev_offset (ev_rows db) = [0, 3]"
    "committed db 1 = last_line_end c"
  using sample_run by (auto split: option.splits)

lemma sample_fine: "list_all no_insert_failure (sample_acts @ [Pass fine_env 6])" "env_ok fine_env"
  by (simp_all add: sample_acts_def no_insert_failure_def fine_env_def env_ok_def)

theorem offset_at_line_boundary_witness:
  "\<exists>c db. ingest_run sample_ingest 1 [''t''] None ClaudeCode ([], empty_db)
       (sample_acts @ [Pass fine_env 6]) = Some (c, db) \<and> distinct (row_keys (ev_rows db))"
proof -
  obtain c db where r: "ingest_run sample_ingest 1 [''t''] None ClaudeCode ([], empty_db)
      (sample_acts @ [Pass fine_env 6]) = Some (c, db)" by (rule sample_run_obtain)
  from offset_at_line_boundary [OF empty_unseen r] have "distinct (row_keys (ev_rows db))"
    by (elim conjE)
  with r show ?thesis by (intro exI conjI)
qed

theorem ingestion_complete_witness:
  "\<exists>c db. ingest_run sample_ingest 1 [''t''] None ClaudeCode ([], empty_db)
       (sample_acts @ [Pass fine_env 6]) = Some (c, db) \<and> committed db 1 = last_line_end c"
proof -
  obtain c db where r: "ingest_run sample_ingest 1 [''t''] None ClaudeCode ([], empty_db)
      (sample_acts @ [Pass fine_env 6]) = Some (c, db)" "length c = 6" by (rule sample_run_obtain)
  have "(6 :: int) = int (length c)" using r(2) by simp
  from ingestion_complete [OF empty_unseen r(1) sample_fine this]
  have "committed db 1 = last_line_end c" by (elim conjE)
  with r(1) show ?thesis by (intro exI conjI)
qed

section \<open>Replays\<close>

lemma insert_event_again:
  assumes "\<And>v. usable L line v \<Longrightarrow> event_at (ev_rows db) (u, off) \<noteq> None"
  shows "ev_rows (insert_db L env u src off line ctx db) = ev_rows db"
    and "block_rows (insert_db L env u src off line ctx db) = block_rows db"
    and "metadata (insert_db L env u src off line ctx db) = metadata db"
    and "fst (insert_event L env u src off line (ctx, db)) \<noteq> Inr True"
proof -
  consider "\<And>v. \<not> usable L line v" | "en_insert_fails env off" | v where "usable L line v" "\<not> en_insert_fails env off"
    by blast
  then have "ev_rows (insert_db L env u src off line ctx db) = ev_rows db
    \<and> block_rows (insert_db L env u src off line ctx db) = block_rows db
    \<and> metadata (insert_db L env u src off line ctx db) = metadata db
    \<and> fst (insert_event L env u src off line (ctx, db)) \<noteq> Inr True"
  proof cases
    case 1
    then show ?thesis
      by (auto simp: insert_event_def usable_def split: option.splits)
  next
    case 2
    then show ?thesis by (auto simp: insert_event_def Let_def split: option.splits)
  next
    case 3
    have e: "event_at (ev_rows db) (u, off) \<noteq> None" by (rule assms [OF 3(1)])
    show ?thesis
      using insert_event_put [OF 3, where u = u and src = src and ctx = ctx and db = db] e
        event_table.put_taken [OF e] by simp
  qed
  then show "ev_rows (insert_db L env u src off line ctx db) = ev_rows db"
    and "block_rows (insert_db L env u src off line ctx db) = block_rows db"
    and "metadata (insert_db L env u src off line ctx db) = metadata db"
    and "fst (insert_event L env u src off line (ctx, db)) \<noteq> Inr True" by blast+
qed

lemma fold_again:
  assumes "\<forall>(off, line) \<in> set ls. \<forall>v. usable L line v \<longrightarrow> event_at (ev_rows (lp_db s)) (df_session f, off) \<noteq> None"
  shows "ev_rows (lp_db (foldl (line_step L env f src) s ls)) = ev_rows (lp_db s)
    \<and> block_rows (lp_db (foldl (line_step L env f src) s ls)) = block_rows (lp_db s)
    \<and> metadata (lp_db (foldl (line_step L env f src) s ls)) = metadata (lp_db s)
    \<and> lp_inserted (foldl (line_step L env f src) s ls) = lp_inserted s
    \<and> lp_first_inserted (foldl (line_step L env f src) s ls) = lp_first_inserted s"
  using assms
proof (induction ls arbitrary: s)
  case (Cons ol ls)
  obtain off line where ol: "ol = (off, line)" by fastforce
  have e: "\<And>v. usable L line v \<Longrightarrow> event_at (ev_rows (lp_db s)) (df_session f, off) \<noteq> None"
    using Cons.prems ol by auto
  note i = insert_event_again [OF e, where env = env and src = src and ctx = "lp_ctx s"]
  have c: "lp_inserted (count_insert off r s) = lp_inserted s \<and> lp_first_inserted (count_insert off r s) = lp_first_inserted s"
    if "fst r \<noteq> Inr True" for r
    using that by (cases r) (auto simp: count_insert_def Let_def split: sum.split bool.split insert_error.split)
  have "lp_inserted (line_step L env f src s ol) = lp_inserted s
      \<and> lp_first_inserted (line_step L env f src s ol) = lp_first_inserted s"
    using c [OF i(4)] by (simp add: line_step_def ol)
  moreover have "ev_rows (lp_db (line_step L env f src s ol)) = ev_rows (lp_db s)"
    "block_rows (lp_db (line_step L env f src s ol)) = block_rows (lp_db s)"
    "metadata (lp_db (line_step L env f src s ol)) = metadata (lp_db s)"
    using i(1-3) by (simp_all add: ol)
  ultimately show ?case using Cons.IH [of "line_step L env f src s ol"] Cons.prems by simp
qed simp

text \<open>
  Replaying is harmless: when a crash or a reset puts the committed offset of a
  fully ingested transcript back to 0, the next pass inserts nothing and leaves events,
  blocks and metadata as they are, whatever fails in it.
\<close>

theorem replay_changes_nothing:
  assumes "unseen db u" and "ingest_run L u path h src ([], db) acts = Some (c, db1)"
    and "list_all no_insert_failure acts" and "committed db1 u = last_line_end c"
    and "process_file L env db2 (file_at db2 u path h flen) src (Some c) = Some (res, db3)"
    and "db2 = set_offset db1 u path 0"
  shows "ev_rows db3 = ev_rows db1 \<and> block_rows db3 = block_rows db1 \<and> metadata db3 = metadata db1
    \<and> (case res of Inl _ \<Rightarrow> True | Inr r \<Rightarrow> fr_inserted r = 0)"
proof -
  from unseen_start [OF assms(1), of L] have s: "at_boundary [] (committed db u)" "sound L u [] db"
    "distinct (row_keys (ev_rows db))" "covered L u [] db" by blast+
  have cov: "covered L u c db1" using run_keeps_invariant [OF assms(2) s(1-3)] assms(3) s(4) by blast
  have pre: "lines_at 0 (take (nat (committed db1 u)) c) = lines_at 0 c"
    using lines_take_end [of c 0] assms(4) by (simp add: last_line_end_def at_boundary_def)
  have tabs: "ev_rows db2 = ev_rows db1" "block_rows db2 = block_rows db1" "metadata db2 = metadata db1"
    and zero: "committed db2 u = 0"
    by (simp_all add: assms(6) set_offset_def committed_def)
  let ?f = "file_at db2 u path h flen"
  from assms(5) show ?thesis
  proof (cases rule: process_file_cases)
    case (failed e)
    then show ?thesis by (simp add: tabs)
  next
    case reset
    then show ?thesis by (simp add: tabs set_offset_def)
  next
    case ran
    note t = finish_file_tables [OF ran(2)]
    let ?db = "upsert_agent_session db2 (df_session ?f) (agent_id src) (df_project_hash ?f)"
    let ?s = "loop_start ?f (pass_context L ?db (df_session ?f) src) ?db"
    have "\<forall>(off, line) \<in> set (lines_at 0 c). \<forall>v. usable L line v \<longrightarrow>
        event_at (ev_rows (lp_db ?s)) (df_session ?f, off) \<noteq> None"
      using cov pre by (auto simp: covered_def loop_start_def tabs file_at_def)
    from fold_again [OF this, of env src] have
      "ev_rows (lp_db (pass_lines L env db2 ?f src c)) = ev_rows db1
       \<and> block_rows (lp_db (pass_lines L env db2 ?f src c)) = block_rows db1
       \<and> metadata (lp_db (pass_lines L env db2 ?f src c)) = metadata db1
       \<and> lp_inserted (pass_lines L env db2 ?f src c) = 0"
      unfolding pass_lines_def Let_def by (simp add: file_at_def zero loop_start_def tabs)
    with t show ?thesis by (auto split: sum.split)
  qed
qed

lemma claude_returns: "process_file L env db f ClaudeCode content \<noteq> None"
  by (auto simp: process_file_def finish_file_def rebuild_projections_after_insert_def Let_def
      split: option.splits)

theorem replay_changes_nothing_witness:
  "\<exists>c db res db3. ingest_run sample_ingest 1 [''t''] None ClaudeCode ([], empty_db)
       (sample_acts @ [Pass fine_env 6]) = Some (c, db)
     \<and> process_file sample_ingest fine_env (set_offset db 1 [''t''] 0)
         (file_at (set_offset db 1 [''t''] 0) 1 [''t''] None 6) ClaudeCode (Some c) = Some (res, db3)
     \<and> map ev_offset (ev_rows db3) = [0, 3]"
proof -
  obtain c db where r: "ingest_run sample_ingest 1 [''t''] None ClaudeCode ([], empty_db)
      (sample_acts @ [Pass fine_env 6]) = Some (c, db)" "map ev_offset (ev_rows db) = [0, 3]"
    "committed db 1 = last_line_end c" by (rule sample_run_obtain)
  obtain res db3 where p: "process_file sample_ingest fine_env (set_offset db 1 [''t''] 0)
      (file_at (set_offset db 1 [''t''] 0) 1 [''t''] None 6) ClaudeCode (Some c) = Some (res, db3)"
    using claude_returns by fastforce
  from replay_changes_nothing [OF empty_unseen r(1) sample_fine(1) r(3) p refl]
  have "ev_rows db3 = ev_rows db" by (elim conjE)
  then have "map ev_offset (ev_rows db3) = [0, 3]" using r(2) by simp
  with r(1) p show ?thesis by (intro exI conjI)
qed

section \<open>A failed insert\<close>

text \<open>Whether some pass of a run sees a length below the committed offset, which resets it.\<close>

fun never_resets ::
    "ingest_lib \<Rightarrow> uuid \<Rightarrow> string list \<Rightarrow> string option \<Rightarrow> transcript_source \<Rightarrow>
     string \<times> ingest_db \<Rightarrow> ingest_action list \<Rightarrow> bool" where
  "never_resets L u path h src st [] = True"
| "never_resets L u path h src st (a # as) =
     ((case a of Append _ \<Rightarrow> True | Pass env flen \<Rightarrow> committed (snd st) u \<le> flen)
      \<and> (case ingest_step L u path h src st a of
           None \<Rightarrow> True | Some st' \<Rightarrow> never_resets L u path h src st' as))"

lemma pass_skips_before:
  assumes p: "process_file L env db (file_at db u path h flen) src (Some c) = Some (res, db')"
    and "off < committed db u" and "event_at (ev_rows db) (u, off) = None" and "committed db u \<le> flen"
    and b: "at_boundary c (committed db u)"
  shows "off < committed db' u \<and> event_at (ev_rows db') (u, off) = None"
  using p
proof (cases rule: process_file_cases)
  case (failed e)
  then show ?thesis using assms(2,3) by (simp add: committed_def)
next
  case reset
  then show ?thesis using assms(4) by (simp add: file_at_def)
next
  case ran
  let ?f = "file_at db u path h flen"
  note t = finish_file_tables [OF ran(2)]
  have "(ev_session r, ev_offset r) \<noteq> (u, off)" if "r \<in> set (ev_rows db')" for r
  proof
    assume k: "(ev_session r, ev_offset r) = (u, off)"
    from that [unfolded t(1)] have "r \<in> set (ev_rows db) \<or> (\<exists>line. (ev_offset r, line)
        \<in> set (lines_at (committed db u) (drop (nat (committed db u)) c)))"
      using pass_lines_rows by (fastforce simp: file_at_def)
    with k assms(2,3) show False
      using complete_lines_offsets by (fastforce simp: event_at_None)
  qed
  moreover have "committed db u \<le> committed db' u"
    using t(6) pass_lines_states [of L env db ?f src c] lines_end_boundary(2) [OF b]
    by (auto simp: committed_def file_at_def split: if_splits)
  ultimately show ?thesis using assms(2) by (auto simp: event_at_None)
qed

lemma run_skips_before:
  assumes "ingest_run L u path h src (c, db) acts = Some (c', db')"
    and "never_resets L u path h src (c, db) acts"
    and "at_boundary c (committed db u)" and "sound L u c db" and "distinct (row_keys (ev_rows db))"
    and "off < committed db u" and "event_at (ev_rows db) (u, off) = None"
  shows "event_at (ev_rows db') (u, off) = None"
  using assms
proof (induction acts arbitrary: c db)
  case (Cons a acts)
  show ?case
  proof (cases a)
    case (Append d)
    have "at_boundary (c @ d) (committed db u)" by (rule at_boundary_append [OF Cons.prems(3)])
    moreover have "sound L u (c @ d) db"
      using Cons.prems(4) lines_at_append_subset [of 0 "[]" c d] unfolding sound_def by blast
    ultimately show ?thesis using Cons.IH [of "c @ d" db] Cons.prems Append by simp
  next
    case (Pass env flen)
    from Cons.prems(1) Pass obtain res db1 where
      p: "process_file L env db (file_at db u path h flen) src (Some c) = Some (res, db1)"
      and r: "ingest_run L u path h src (c, db1) acts = Some (c', db')"
      by (auto simp: bind_eq_Some_conv)
    have fl: "committed db u \<le> flen" and nr: "never_resets L u path h src (c, db1) acts"
      using Cons.prems(2) Pass p by auto
    note i = pass_keeps_invariant [OF p Cons.prems(3-5)]
    note q = pass_skips_before [OF p Cons.prems(6,7) fl Cons.prems(3)]
    from i have "at_boundary c (committed db1 u)" "sound L u c db1" "distinct (row_keys (ev_rows db1))"
      by simp_all
    with q show ?thesis using Cons.IH [OF r nr] by simp
  qed
qed simp

text \<open>
  C31. A failed insert loses the event. The failure is only logged: the pass succeeds and the
  committed offset moves past the line, so that no later pass, whatever is appended and however well the
  database does, inserts it, as long as no pass finds the file shorter than the committed offset. (Such a
  pass sets the offset back to 0, and a later one can then insert the line.)
\<close>

theorem failed_insert_is_lost:
  assumes "unseen db u" and "ingest_run L u path h src ([], db) acts = Some (c, db1)"
    and "committed db1 u \<le> off" and "(off, line) \<in> set (lines_at 0 c)" and "usable L line v"
    and "event_at (ev_rows db1) (u, off) = None"
    and "process_file L env db1 (file_at db1 u path h (int (length c))) src (Some c) = Some (Inr res, db2)"
    and "en_insert_fails env off"
    and "ingest_run L u path h src (c, db2) later = Some (c', db3)"
    and "never_resets L u path h src (c, db2) later"
  shows "off < fr_committed res \<and> committed db2 u = fr_committed res
    \<and> event_at (ev_rows db3) (u, off) = None"
proof -
  from unseen_start [OF assms(1), of L] have s: "at_boundary [] (committed db u)" "sound L u [] db"
    "distinct (row_keys (ev_rows db))" by blast+
  note inv = run_keeps_invariant [OF assms(2) s]
  then have b: "at_boundary c (committed db1 u)" and snd: "sound L u c db1"
    and k: "distinct (row_keys (ev_rows db1))" by blast+
  note inv2 = pass_keeps_invariant [OF assms(7) b snd k]
  let ?n = "committed db1 u"
  let ?f = "file_at db1 u path h (int (length c))"
  from assms(7) show ?thesis
  proof (cases rule: process_file_cases)
    case (failed e)
    then show ?thesis by simp
  next
    case reset
    then show ?thesis using at_boundary_range [OF b] by (simp add: file_at_def)
  next
    case ran
    note t = finish_file_tables [OF ran(2)]
    have com: "fr_committed res = last_line_end c" "committed db2 u = last_line_end c"
      using t(6,8) pass_lines_states [of L env db1 ?f src c] lines_end_boundary_eq [OF b]
      by (auto simp: committed_def file_at_def split: if_splits)
    have "(off, line) \<in> set (lines_at 0 (take (nat (last_line_end c)) c))"
      using lines_take_end [of c 0] assms(4) by (simp add: last_line_end_def at_boundary_def)
    then have lt: "off < last_line_end c"
    proof -
      have "o' < lines_end off0 (complete_lines off0 cur buf)"
        if "(o', l) \<in> set (complete_lines off0 cur buf)" for o' l off0 cur buf
        using that
      proof (induction off0 cur buf rule: complete_lines.induct)
        case (2 off0 cur ch cs)
        have "off' \<le> lines_end off' (complete_lines off' [] cs)" for off'
          using lines_end_spec [of "[]" cs off'] by auto
        from this [of "off0 + int (length cur) + 1"] 2 show ?case by (auto split: if_splits)
      qed simp
      then show ?thesis using assms(4) unfolding last_line_end_def by blast
    qed
    have none: "event_at (ev_rows db2) (u, off) = None"
    proof -
      have "(ev_session r, ev_offset r) \<noteq> (u, off)" if "r \<in> set (ev_rows db2)" for r
      proof
        assume "(ev_session r, ev_offset r) = (u, off)"
        moreover from that [unfolded t(1)] have "r \<in> set (ev_rows db1) \<or> \<not> en_insert_fails env (ev_offset r)"
          using pass_lines_rows by blast
        ultimately show False using assms(6,8) by (auto simp: event_at_None)
      qed
      then show ?thesis by (simp add: event_at_None)
    qed
    have "event_at (ev_rows db3) (u, off) = None"
      by (rule run_skips_before [OF assms(9,10)]) (use inv2 lt com none in auto)
    with lt com show ?thesis by simp
  qed
qed

definition brace_line :: string where
  "brace_line = ''{}'' @ [CHR 0x0A]"

definition failing_env :: tick_env where
  "failing_env = fine_env\<lparr>en_insert_fails := (\<lambda>off. off = 0)\<rparr>"

lemma sample_failure:
  "case ingest_run sample_ingest 1 [''t''] None ClaudeCode ([], empty_db) [Append brace_line] of
     None \<Rightarrow> False
   | Some (c, db1) \<Rightarrow> c = brace_line \<and> committed db1 1 = 0 \<and> event_at (ev_rows db1) (1, 0) = None
     \<and> (case process_file sample_ingest failing_env db1 (file_at db1 1 [''t''] None 3) ClaudeCode (Some c) of
          Some (Inr res, db2) \<Rightarrow>
            never_resets sample_ingest 1 [''t''] None ClaudeCode (c, db2) [Pass fine_env 3]
            \<and> ingest_run sample_ingest 1 [''t''] None ClaudeCode (c, db2) [Pass fine_env 3] \<noteq> None
        | _ \<Rightarrow> False)"
  by code_simp

lemma sample_line:
  "(0, ''{}'') \<in> set (lines_at 0 brace_line)" "usable sample_ingest ''{}'' (JObj [])"
  by (simp_all add: usable_def sample_ingest_def ascii_whitespace_def brace_line_def)

lemma case_returned:
  "(case q of Some (Inr r, d) \<Rightarrow> P r d | _ \<Rightarrow> False) \<longleftrightarrow> (\<exists>r d. q = Some (Inr r, d) \<and> P r d)"
  by (auto split: option.splits sum.splits)

theorem failed_insert_is_lost_witness:
  "\<exists>db1 res db2 db3. process_file sample_ingest failing_env db1 (file_at db1 1 [''t''] None 3) ClaudeCode
       (Some brace_line) = Some (Inr res, db2)
     \<and> ingest_run sample_ingest 1 [''t''] None ClaudeCode (brace_line, db2) [Pass fine_env 3]
         = Some (brace_line, db3)
     \<and> event_at (ev_rows db3) (1, 0) = None"
proof -
  obtain db1 where d1: "ingest_run sample_ingest 1 [''t''] None ClaudeCode ([], empty_db) [Append brace_line] = Some (brace_line, db1)"
    and c1: "committed db1 1 = 0" "event_at (ev_rows db1) (1, 0) = None" and rest:
      "case process_file sample_ingest failing_env db1 (file_at db1 1 [''t''] None 3) ClaudeCode (Some brace_line) of
          Some (Inr res, db2) \<Rightarrow>
            never_resets sample_ingest 1 [''t''] None ClaudeCode (brace_line, db2) [Pass fine_env 3]
            \<and> ingest_run sample_ingest 1 [''t''] None ClaudeCode (brace_line, db2) [Pass fine_env 3] \<noteq> None
        | _ \<Rightarrow> False"
    using sample_failure by (auto split: option.splits)
  from rest obtain res db2 where p: "process_file sample_ingest failing_env db1
      (file_at db1 1 [''t''] None 3) ClaudeCode (Some brace_line) = Some (Inr res, db2)"
    and nr: "never_resets sample_ingest 1 [''t''] None ClaudeCode (brace_line, db2) [Pass fine_env 3]"
    and some: "ingest_run sample_ingest 1 [''t''] None ClaudeCode (brace_line, db2) [Pass fine_env 3] \<noteq> None"
    unfolding case_returned by blast
  obtain c3 db3 where r: "ingest_run sample_ingest 1 [''t''] None ClaudeCode (brace_line, db2) [Pass fine_env 3]
      = Some (c3, db3)" using some by auto
  then have c3: "c3 = brace_line" by (auto simp: bind_eq_Some_conv)
  have p': "process_file sample_ingest failing_env db1
      (file_at db1 1 [''t''] None (int (length brace_line))) ClaudeCode (Some brace_line) = Some (Inr res, db2)"
    using p by (simp add: brace_line_def)
  have "en_insert_fails failing_env 0" by (simp add: failing_env_def)
  from failed_insert_is_lost [OF empty_unseen d1 _ sample_line c1(2) p' this r nr]
  have "event_at (ev_rows db3) (1, 0) = None" using c1(1) by simp
  with p r c3 show ?thesis by blast
qed

end
