(* ===== verification/Ingest_Parents.thy ===== *)
theory Ingest_Parents
  imports Ingest_Props
begin

text \<open>
  Parent links between sessions: set once and never to the session itself, followed to the
  end only when they do not form a cycle; and the merge of session metadata.
\<close>

section \<open>Parent links\<close>

lemma parent_of_upsert: "parent_of (upsert_agent_session db u a h) w = parent_of db w"
  by (auto simp: parent_of_def upsert_agent_session_def Let_def split: option.split)

lemma parent_of_set_parent:
  "parent_of (set_parent_session db u p) w
     = (if w = u \<and> sessions db u \<noteq> None \<and> parent_of db u = None then Some p else parent_of db w)"
  by (auto simp: parent_of_def set_parent_session_def split: option.split)

text \<open>How parents may change: links stay, only the session's own may appear, never to itself.\<close>

definition parents_grow :: "uuid \<Rightarrow> ingest_db \<Rightarrow> ingest_db \<Rightarrow> bool" where
  "parents_grow u db db' \<longleftrightarrow>
     (\<forall>w. parent_of db' w = parent_of db w
        \<or> w = u \<and> parent_of db u = None \<and> parent_of db' u \<noteq> Some u)"

lemma parents_grow_trans: "parents_grow u a b \<Longrightarrow> parents_grow u b c \<Longrightarrow> parents_grow u a c"
  unfolding parents_grow_def by metis

lemma parent_of_updates [simp]:
  "parent_of (db\<lparr>ev_rows := rows\<rparr>) = parent_of db" "parent_of (db\<lparr>block_rows := bs\<rparr>) = parent_of db"
  "parent_of (db\<lparr>metadata := m\<rparr>) = parent_of db" "parent_of (db\<lparr>states := st\<rparr>) = parent_of db"
  "parent_of (db\<lparr>rebuilds := rb\<rparr>) = parent_of db"
  by (auto simp: parent_of_def)

lemma insert_parents_grow: "parents_grow u db (insert_db L env u src off line ctx db)"
  using detect_parent_not_self [of L src _ u]
  by (auto simp: parents_grow_def insert_event_def Let_def parent_of_set_parent
      split: prod.splits option.splits)

lemma process_parents_grow:
  assumes "process_file L env db f src content = Some (res, db')"
  shows "parents_grow (df_session f) db db'"
proof -
  have refl: "parents_grow (df_session f) db d" if "parent_of d = parent_of db" for d
    using that by (simp add: parents_grow_def)
  have up: "parent_of (upsert_agent_session db u a h) = parent_of db" for u a h
    by (rule ext) (rule parent_of_upsert)
  show ?thesis
  proof (cases content)
    case None
    with assms show ?thesis
      by (auto simp: process_file_def Let_def set_offset_def up parents_grow_def split: if_splits)
  next
    case (Some bytes)
    from assms [unfolded Some] show ?thesis
    proof (cases rule: process_file_cases)
      case (failed e)
      then show ?thesis by (auto simp: up parents_grow_def)
    next
      case reset
      then show ?thesis by (auto simp: set_offset_def up parents_grow_def)
    next
      case ran
      let ?P = "\<lambda>d. parents_grow (df_session f) db d"
      have "?P (lp_db (pass_lines L env db f src bytes))"
        unfolding pass_lines_def Let_def
        by (rule fold_lines_inv)
           (auto simp: loop_start_def up intro: refl parents_grow_trans [OF _ insert_parents_grow])
      moreover have "parent_of db' = parent_of (lp_db (pass_lines L env db f src bytes))"
        using finish_file_tables(4) [OF ran(2)] by (simp add: parent_of_def fun_eq_iff)
      ultimately show ?thesis by (simp add: parents_grow_def)
    qed
  qed
qed

text \<open>
  A pass over a transcript sets at most the parent of its own session, sets it only
  when there is none, and never to the session itself: a recorded parent is never
  overwritten, and no pass makes a session its own parent.
\<close>

theorem parent_set_once:
  assumes "process_file L env db f src content = Some (res, db')"
  shows "(\<forall>w p. parent_of db w = Some p \<longrightarrow> parent_of db' w = Some p)
    \<and> (\<forall>w. w \<noteq> df_session f \<longrightarrow> parent_of db' w = parent_of db w)
    \<and> (\<forall>w. parent_of db w \<noteq> Some w \<longrightarrow> parent_of db' w \<noteq> Some w)"
  using process_parents_grow [OF assms] unfolding parents_grow_def by (metis option.distinct(1))

section \<open>Parent chains\<close>

text \<open>The \<open>n\<close>-th ancestor.\<close>

fun ancestor :: "(uuid \<Rightarrow> uuid option) \<Rightarrow> nat \<Rightarrow> uuid \<Rightarrow> uuid option" where
  "ancestor P 0 u = Some u"
| "ancestor P (Suc n) u = Option.bind (P u) (ancestor P n)"

lemma chain_ends:
  assumes "parent_chain P u = Some xs"
  shows "\<exists>n. ancestor P n u = None"
proof -
  have "(\<lambda>(P, u) _. \<exists>n. ancestor P n u = None) (P, u) xs"
  proof (rule parent_chain.raw_induct [OF _ assms])
    fix chain P u and ys :: "uuid list"
    assume IH: "\<And>P u y. chain P u = Some y \<Longrightarrow> (\<lambda>(P, u) _. \<exists>n. ancestor P n u = None) (P, u) y"
      and body: "(case P u of None \<Rightarrow> Some []
        | Some parent \<Rightarrow> Option.bind (chain P parent) (\<lambda>chain. Some (parent # chain))) = Some ys"
    have "\<exists>n. ancestor P n u = None"
    proof (cases "P u")
      case None
      then have "ancestor P (Suc 0) u = None" by simp
      then show ?thesis by (rule exI)
    next
      case (Some p)
      with body obtain zs where "chain P p = Some zs" by (auto simp: bind_eq_Some_conv)
      from IH [OF this] obtain n where "ancestor P n p = None" by auto
      with Some have "ancestor P (Suc n) u = None" by simp
      then show ?thesis by (rule exI)
    qed
    then show "(\<lambda>(P, u) _. \<exists>n. ancestor P n u = None) (P, u) ys" by simp
  qed
  then show ?thesis by simp
qed

lemma chain_found:
  "ancestor P n u = None \<Longrightarrow> \<exists>xs. parent_chain P u = Some xs \<and> length xs < n
     \<and> (\<forall>i < length xs. ancestor P (Suc i) u = Some (xs ! i))"
proof (induction n arbitrary: u)
  case (Suc n)
  show ?case
  proof (cases "P u")
    case None
    then show ?thesis by (subst parent_chain.simps) simp
  next
    case (Some p)
    with Suc.prems have "ancestor P n p = None" by simp
    from Suc.IH [OF this] obtain xs where xs: "parent_chain P p = Some xs" "length xs < n"
      "\<forall>i < length xs. ancestor P (Suc i) p = Some (xs ! i)" by blast
    have "parent_chain P u = Some (p # xs)"
      using Some xs(1) by (subst parent_chain.simps) simp
    moreover have "ancestor P (Suc i) u = Some ((p # xs) ! i)" if "i < length (p # xs)" for i
      using Some xs(3) that by (cases i) auto
    ultimately show ?thesis using xs(2) by (intro exI [of _ "p # xs"]) simp
  qed
qed simp

text \<open>
  The walk to a session's ancestors returns exactly when some ancestor has no
  parent, and then it returns every ancestor, nearest first; on a cycle of parents it never
  returns.
\<close>

theorem ancestor_walk_returns_iff:
  "(codex_parent_session_chain db u = None \<longleftrightarrow> (\<forall>n. ancestor (parent_of db) n u \<noteq> None))
   \<and> (case codex_parent_session_chain db u of
        None \<Rightarrow> True
      | Some xs \<Rightarrow> map Some xs = map (\<lambda>i. ancestor (parent_of db) (Suc i) u) [0..<length xs]
                   \<and> ancestor (parent_of db) (Suc (length xs)) u = None)"
proof -
  let ?P = "parent_of db"
  have last: "ancestor ?P (Suc (length xs)) v = None" if "parent_chain ?P v = Some xs" for xs v
    using that
  proof (induction xs arbitrary: v)
    case Nil
    then show ?case by (subst (asm) parent_chain.simps) (auto split: option.splits simp: bind_eq_Some_conv)
  next
    case (Cons x xs)
    then have "?P v = Some x" "parent_chain ?P x = Some xs"
      by (subst (asm) (2) parent_chain.simps, auto split: option.splits simp: bind_eq_Some_conv)+
    with Cons.IH show ?case by simp
  qed
  show ?thesis
  proof (cases "codex_parent_session_chain db u")
    case None
    then show ?thesis using chain_found [of ?P] by (fastforce simp: codex_parent_session_chain_def)
  next
    case (Some xs)
    then have c: "parent_chain ?P u = Some xs" by (simp add: codex_parent_session_chain_def)
    from chain_ends [OF c] obtain n where n: "ancestor ?P n u = None" by blast
    from chain_found [OF n] c have "\<forall>i < length xs. ancestor ?P (Suc i) u = Some (xs ! i)" by auto
    then have "map Some xs = map (\<lambda>i. ancestor ?P (Suc i) u) [0..<length xs]"
      by (intro nth_equalityI) simp_all
    with Some n last [OF c] show ?thesis by auto
  qed
qed

section \<open>Two sessions that name each other\<close>

definition fork_line :: "string \<Rightarrow> json" where
  "fork_line other =
     JObj [(''payload'', JObj [(''forked_from_id'', JStr other)]), (''type'', JStr ''session_meta'')]"

text \<open>A library whose parser knows the lines \<open>x\<close> and \<open>y\<close>: forked from session b, from session a.\<close>

definition fork_ingest :: ingest_lib where
  "fork_ingest = sample_ingest\<lparr>i_json := (i_json sample_ingest)\<lparr>js_parse :=
     (\<lambda>s. if s = ''x'' then Some (fork_line ''b'') else if s = ''y'' then Some (fork_line ''a'') else None)\<rparr>\<rparr>"

definition fork_pass :: "ingest_db \<Rightarrow> uuid \<Rightarrow> string \<Rightarrow> ((string, file_result) result \<times> ingest_db) option" where
  "fork_pass db u line =
     process_file fork_ingest fine_env db (file_at db u [''t''] None 2) Codex (Some (line @ [CHR 0x0A]))"

definition fork_lines :: "ingest_db \<Rightarrow> uuid \<Rightarrow> string \<Rightarrow> loop_state" where
  "fork_lines db u line =
     (let f = file_at db u [''t''] None 2; db1 = upsert_agent_session db u ''codex'' None
      in run_buffer fork_ingest fine_env f Codex (line @ [CHR 0x0A])
           (Some (load_codex_context fork_ingest db1 u)) db1)"

text \<open>The database after session a is ingested.\<close>

definition forked_db :: ingest_db where
  "forked_db = (set_offset (lp_db (fork_lines empty_db 1 ''x'')) 1 [''t''] 2)
     \<lparr>rebuilds := [RebuildAfter 1 0, RebuildAll 2]\<rparr>"

lemma fork_pass_finish:
  assumes "committed db u = 0"
  shows "fork_pass db u line
    = finish_file fine_env (file_at db u [''t''] None 2) Codex (fork_lines db u line)"
proof -
  have e: "\<not> en_session_fails fine_env" "\<not> en_context_fails fine_env" by (simp_all add: fine_env_def)
  show ?thesis
    unfolding fork_pass_def process_file_def fork_lines_def Let_def
    by (simp add: e file_at_def assms)
qed

lemma first_state:
  "lp_first_inserted (fork_lines empty_db 1 ''x'') = Some 0"
  "lp_next_committed (fork_lines empty_db 1 ''x'') = 2" "lp_inserted (fork_lines empty_db 1 ''x'') = 1"
  "lp_parse_errors (fork_lines empty_db 1 ''x'') = 0" "rebuilds (lp_db (fork_lines empty_db 1 ''x'')) = []"
  "parent_of (lp_db (fork_lines empty_db 1 ''x'')) 1 = Some 2"
  "parent_of (lp_db (fork_lines empty_db 1 ''x'')) 2 = None" "committed empty_db 1 = 0"
  by code_simp+

lemma second_state:
  "lp_first_inserted (fork_lines forked_db 2 ''y'') = Some 0"
  "lp_next_committed (fork_lines forked_db 2 ''y'') = 2"
  "parent_of (lp_db (fork_lines forked_db 2 ''y'')) 2 = Some 1"
  "parent_of (lp_db (fork_lines forked_db 2 ''y'')) 1 = Some 2" "committed forked_db 2 = 0"
  by code_simp+

lemma cycle_chain:
  assumes "parent_of db u = Some w" and "parent_of db w = Some u"
  shows "codex_parent_session_chain db u = None"
proof -
  have "ancestor (parent_of db) n u \<in> {Some u, Some w} \<and> ancestor (parent_of db) n w \<in> {Some u, Some w}" for n
    using assms by (induction n) auto
  then have "ancestor (parent_of db) n u \<noteq> None" for n by (metis insertE option.distinct(1) singletonD)
  then show ?thesis
    unfolding codex_parent_session_chain_def using chain_ends by (metis option.exhaust)
qed

text \<open>
  Two Codex transcripts that each name the other as the session they were forked
  from are both accepted as parent links; ingesting the second inserts its line and then
  never returns, so neither it nor any file after it is ingested.
\<close>

theorem mutual_forks_hang:
  "fork_pass empty_db 1 ''x'' = Some (Inr \<lparr>fr_inserted = 1, fr_parse_errors = 0, fr_committed = 2\<rparr>, forked_db)
   \<and> fork_pass forked_db 2 ''y'' = None"
proof
  have env: "\<not> en_offset_fails fine_env" by (simp add: fine_env_def)
  have sess: "codex_parent_session_chain db u = parent_chain (parent_of d) u"
    if "sessions db = sessions d" for db d u
  proof -
    have "parent_of db = parent_of d" using that by (simp add: parent_of_def fun_eq_iff)
    then show ?thesis by (simp add: codex_parent_session_chain_def)
  qed
  have "parent_chain (parent_of (lp_db (fork_lines empty_db 1 ''x''))) 1 = Some [2]"
    using first_state by (subst parent_chain.simps, simp) (subst parent_chain.simps, simp)
  then show "fork_pass empty_db 1 ''x'' = Some (Inr \<lparr>fr_inserted = 1, fr_parse_errors = 0, fr_committed = 2\<rparr>, forked_db)"
    unfolding fork_pass_finish [OF first_state(8)] finish_file_def
    by (simp add: first_state env Let_def file_at_def rebuild_projections_after_insert_def
        sess [of _ "lp_db (fork_lines empty_db 1 ''x'')"] set_offset_def forked_db_def)
  have "codex_parent_session_chain db 2 = None"
    if "sessions db = sessions (lp_db (fork_lines forked_db 2 ''y''))" for db
  proof (rule cycle_chain)
    have "parent_of db = parent_of (lp_db (fork_lines forked_db 2 ''y''))"
      using that by (simp add: parent_of_def fun_eq_iff)
    then show "parent_of db 2 = Some 1" "parent_of db 1 = Some 2" by (simp_all only: second_state)
  qed
  then show "fork_pass forked_db 2 ''y'' = None"
    unfolding fork_pass_finish [OF second_state(5)] finish_file_def
    by (simp add: second_state env Let_def file_at_def rebuild_projections_after_insert_def set_offset_def)
qed

theorem parent_set_once_witness:
  "\<exists>res db. process_file sample_ingest fine_env empty_db (file_at empty_db 1 [''t''] None 0) ClaudeCode (Some [])
     = Some (res, db) \<and> parent_of db 2 = None"
proof -
  obtain res db where p: "process_file sample_ingest fine_env empty_db (file_at empty_db 1 [''t''] None 0)
      ClaudeCode (Some []) = Some (res, db)" using claude_returns by fastforce
  have "(2 :: uuid) \<noteq> df_session (file_at empty_db 1 [''t''] None 0)" by (simp add: file_at_def)
  with parent_set_once [OF p] have "parent_of db 2 = parent_of empty_db 2" by blast
  with p show ?thesis by (auto simp: parent_of_def empty_db_def)
qed

section \<open>Metadata\<close>

text \<open>The value of a field after some records: that of the last record which has it.\<close>

definition last_known :: "(metadata_patch \<Rightarrow> 'a option) \<Rightarrow> metadata_patch list \<Rightarrow> 'a option \<Rightarrow> 'a option" where
  "last_known field ps old = foldl (\<lambda>acc p. or_else (field p) acc) old ps"

lemma upsert_fields:
  fixes num agent v
  defines "p \<equiv> extract_metadata num agent v"
  shows "Option.bind (upsert_from_event num tab u agent v u) mr_model = or_else (mp_model p) (Option.bind (tab u) mr_model)"
    and "Option.bind (upsert_from_event num tab u agent v u) mr_cwd = or_else (mp_cwd p) (Option.bind (tab u) mr_cwd)"
    and "Option.bind (upsert_from_event num tab u agent v u) mr_cli_version
           = or_else (mp_cli_version p) (Option.bind (tab u) mr_cli_version)"
    and "Option.bind (upsert_from_event num tab u agent v u) mr_reasoning_effort
           = or_else (mp_reasoning_effort p) (Option.bind (tab u) mr_reasoning_effort)"
    and "Option.bind (upsert_from_event num tab u agent v u) mr_model_provider
           = or_else (mp_model_provider p) (Option.bind (tab u) mr_model_provider)"
    and "Option.bind (upsert_from_event num tab u agent v u) mr_context_window
           = or_else (mp_context_window p) (Option.bind (tab u) mr_context_window)"
    and "w \<noteq> u \<Longrightarrow> upsert_from_event num tab u agent v w = tab w"
  unfolding p_def
  by (auto simp: upsert_from_event_def Let_def patch_is_empty_def metadata_of_patch_def
      merge_metadata_def split: option.split)

lemma upsert_fold:
  assumes "\<And>tab v. Option.bind (upsert_from_event num tab u agent v u) column
      = or_else (field (extract_metadata num agent v)) (Option.bind (tab u) column)"
  shows "Option.bind (foldl (\<lambda>t v. upsert_from_event num t u agent v) tab vs u) column
     = last_known field (map (extract_metadata num agent) vs) (Option.bind (tab u) column)"
  by (induction vs arbitrary: tab) (simp_all add: last_known_def assms)

lemma upsert_fold_other:
  "w \<noteq> u \<Longrightarrow> foldl (\<lambda>t v. upsert_from_event num t u agent v) tab vs w = tab w"
  by (induction vs arbitrary: tab) (simp_all add: upsert_fields(7))

text \<open>
  A session's metadata row shows, for every field, the value of the last record
  that has it: a record that lacks a field never clears it, and a record touches the row of
  no other session.
\<close>

theorem metadata_keeps_last_known:
  "Option.bind (foldl (\<lambda>t v. upsert_from_event num t u agent v) tab vs u) mr_model
     = last_known mp_model (map (extract_metadata num agent) vs) (Option.bind (tab u) mr_model)
   \<and> Option.bind (foldl (\<lambda>t v. upsert_from_event num t u agent v) tab vs u) mr_cwd
     = last_known mp_cwd (map (extract_metadata num agent) vs) (Option.bind (tab u) mr_cwd)
   \<and> Option.bind (foldl (\<lambda>t v. upsert_from_event num t u agent v) tab vs u) mr_cli_version
     = last_known mp_cli_version (map (extract_metadata num agent) vs) (Option.bind (tab u) mr_cli_version)
   \<and> Option.bind (foldl (\<lambda>t v. upsert_from_event num t u agent v) tab vs u) mr_reasoning_effort
     = last_known mp_reasoning_effort (map (extract_metadata num agent) vs)
         (Option.bind (tab u) mr_reasoning_effort)
   \<and> Option.bind (foldl (\<lambda>t v. upsert_from_event num t u agent v) tab vs u) mr_model_provider
     = last_known mp_model_provider (map (extract_metadata num agent) vs)
         (Option.bind (tab u) mr_model_provider)
   \<and> Option.bind (foldl (\<lambda>t v. upsert_from_event num t u agent v) tab vs u) mr_context_window
     = last_known mp_context_window (map (extract_metadata num agent) vs)
         (Option.bind (tab u) mr_context_window)
   \<and> (u' = u \<or> foldl (\<lambda>t v. upsert_from_event num t u agent v) tab vs u' = tab u')"
  by (intro conjI upsert_fold upsert_fields) (use upsert_fold_other in blast)

end
