(* ===== verification/Timeline_Files.thy ===== *)
theory Timeline_Files
  imports Timeline_Project
begin

text \<open>
  Which files a tool pair touches (\<^verbatim>\<open>backend/src/ingest/timeline/file_touches.rs\<close>) and the
  check of a path inside a repository (\<open>resolve_in_repo\<close> of \<^verbatim>\<open>backend/src/workspace.rs\<close>).
  A \<open>PathBuf\<close> of the context is an absolute path, held as the list of its components; a
  candidate is the text it is in the transcript. The file system is a parameter.
\<close>

section \<open>Paths\<close>

datatype path_comp = RootDir | CurDir | ParentDir | Normal string

type_synonym fs_path = "string list"

record fs_view =
  fs_exists :: "fs_path \<Rightarrow> bool"
  fs_is_dir :: "fs_path \<Rightarrow> bool"
  fs_canonicalize :: "fs_path \<Rightarrow> fs_path option"

abbreviation slash :: char where
  "slash \<equiv> CHR ''/''"

text \<open>A piece between slashes that \<open>Path::components\<close> skips.\<close>

definition skipped :: "string \<Rightarrow> bool" where
  "skipped p \<longleftrightarrow> p = [] \<or> p = ''.''"

definition is_absolute :: "string \<Rightarrow> bool" where
  "is_absolute s \<longleftrightarrow> starts_with s [slash]"

definition components :: "string \<Rightarrow> path_comp list" where
  "components s =
     (if is_absolute s then [RootDir]
      else if hd (split_char slash s) = ''.'' then [CurDir] else [])
     @ map (\<lambda>p. if p = ''..'' then ParentDir else Normal p)
         (filter (\<lambda>p. \<not> skipped p) (split_char slash s))"

definition path_join :: "fs_path \<Rightarrow> string \<Rightarrow> fs_path" where
  "path_join root rel = root @ filter (\<lambda>p. \<not> skipped p) (split_char slash rel)"

definition under :: "fs_path \<Rightarrow> fs_path \<Rightarrow> bool" where
  "under p root \<longleftrightarrow> take (length root) p = root"

text \<open>
  \<open>Path::strip_prefix\<close> of a candidate: what is left of its text after the components of the
  root, without the separators and dots at its two ends.
\<close>

fun strip_pieces :: "string list \<Rightarrow> fs_path \<Rightarrow> string list option" where
  "strip_pieces ps [] = Some ps"
| "strip_pieces [] (r # rs) = None"
| "strip_pieces (p # ps) (r # rs) =
     (if skipped p then strip_pieces ps (r # rs)
      else if p = r then strip_pieces ps rs else None)"

definition strip_root :: "string \<Rightarrow> fs_path \<Rightarrow> string option" where
  "strip_root s root =
     map_option (\<lambda>ps. join [slash] (rev (dropWhile skipped (rev (dropWhile skipped ps)))))
       (strip_pieces (split_char slash s) root)"

section \<open>Paths inside a repository\<close>

definition resolve_in_repo :: "fs_view \<Rightarrow> fs_path \<Rightarrow> string \<Rightarrow> (string, fs_path \<times> string) result" where
  "resolve_in_repo fs root rel =
     (if is_absolute rel then Inl ''absolute path rejected''
      else if ParentDir \<in> set (components rel) then Inl ''path escape (..) rejected''
      else let target = path_join root rel
           in if fs_exists fs target then
                (case (fs_canonicalize fs root, fs_canonicalize fs target) of
                   (Some root_real, Some target_real) \<Rightarrow>
                     if under target_real root_real then Inr (target, rel)
                     else Inl ''path escape after canonicalize''
                 | _ \<Rightarrow> Inl ''canonicalize failed'')
              else Inr (target, rel))"

section \<open>Candidates\<close>

record file_touch_context =
  fc_repo_name :: string
  fc_repo_root :: fs_path
  fc_working_dir :: fs_path

fun walk :: "fs_path \<Rightarrow> fs_path \<Rightarrow> path_comp list \<Rightarrow> fs_path option" where
  "walk root current [] = Some current"
| "walk root current (CurDir # cs) = walk root current cs"
| "walk root current (Normal seg # cs) = walk root (current @ [seg]) cs"
| "walk root current (ParentDir # cs) =
     (if current = root \<or> current = [] then None else walk root (butlast current) cs)"
| "walk root current (RootDir # cs) = None"

definition normalize_relative_candidate ::
    "fs_view \<Rightarrow> fs_path \<Rightarrow> fs_path \<Rightarrow> string \<Rightarrow> string option" where
  "normalize_relative_candidate fs root base candidate =
     (case walk root base (components candidate) of
        None \<Rightarrow> None
      | Some current \<Rightarrow>
          if \<not> under current root then None
          else let rel = join [slash] (drop (length root) current)
               in if rel = [] then None
                  else (case resolve_in_repo fs root rel of
                          Inl _ \<Rightarrow> None
                        | Inr (_, rel') \<Rightarrow> Some rel'))"

definition not_a_path :: "string \<Rightarrow> bool" where
  "not_a_path c \<longleftrightarrow>
     c = [] \<or> starts_with c ''-'' \<or> starts_with c ''http://'' \<or> starts_with c ''https://''
     \<or> starts_with c ''$'' \<or> starts_with c ''~'' \<or> CHR 0x0A \<in> set c"

definition normalize_candidate :: "fs_view \<Rightarrow> file_touch_context \<Rightarrow> string \<Rightarrow> string option" where
  "normalize_candidate fs ctx raw =
     (let candidate = trim raw; root = fc_repo_root ctx
      in if not_a_path candidate then None
         else case (if is_absolute candidate then strip_root candidate root
                    else if ends_with candidate [slash] then None
                    else or_else (normalize_relative_candidate fs root root candidate)
                           (normalize_relative_candidate fs root (fc_working_dir ctx) candidate)) of
           None \<Rightarrow> None
         | Some rel \<Rightarrow>
             if rel = [] then None
             else if fs_is_dir fs (path_join root rel) then None else Some rel)"

section \<open>Touches\<close>

definition write_operations :: "string list" where
  "write_operations =
     [''write'', ''edit'', ''multi_edit'', ''apply_patch'', ''create'', ''update'', ''delete'',
      ''add'', ''remove'']"

definition is_write_pair :: "tool_pair \<Rightarrow> bool" where
  "is_write_pair p \<longleftrightarrow> pair_operation_type p \<in> set write_operations"

definition is_command_pair :: "tool_pair \<Rightarrow> bool" where
  "is_command_pair p \<longleftrightarrow> pair_operation_type p \<in> {''bash'', ''exec_command''}"

definition touch_kind_for_pair :: "tool_pair \<Rightarrow> string" where
  "touch_kind_for_pair p =
     (if pair_operation_type p \<in> set write_operations then ''write''
      else if pair_operation_type p \<in> {''bash'', ''exec_command''} then ''command''
      else ''inspect'')"

definition command_text :: "json option \<Rightarrow> string option" where
  "command_text input =
     (case Option.bind input as_object of
        None \<Rightarrow> None
      | Some obj \<Rightarrow> or_else (map_str obj ''command'') (map_str obj ''cmd''))"

definition command_quote :: "char \<Rightarrow> bool" where
  "command_quote c \<longleftrightarrow>
     c \<in> set ([CHR 0x22, CHR 0x27, CHR 0x60] @ '',;:()[]{}|'')"

definition clean_command_token :: "string \<Rightarrow> string option" where
  "clean_command_token token =
     (let trimmed = rev (dropWhile command_quote (rev (dropWhile command_quote token)))
      in if trimmed = [] then None else Some trimmed)"

definition is_path_like_token :: "string \<Rightarrow> bool" where
  "is_path_like_token t \<longleftrightarrow>
     starts_with t ''/'' \<or> starts_with t ''./'' \<or> starts_with t ''../'' \<or> slash \<in> set t
     \<or> CHR ''.'' \<in> set t"

text \<open>The texts of the input that may be paths, in the order the code looks at them.\<close>

definition structured_candidates :: "json_map \<Rightarrow> string list" where
  "structured_candidates input =
     List.map_filter (map_str input) [''path'', ''file_path'', ''old_path'', ''new_path'']
     @ concat (map (\<lambda>key. case map_of input key of
                      Some (JArr values) \<Rightarrow> List.map_filter as_str values
                    | _ \<Rightarrow> []) [''paths'', ''files''])
     @ (case map_of input ''file_edits'' of
          Some (JArr entries) \<Rightarrow>
            concat (map (\<lambda>entry. List.map_filter (get_str entry) [''path'', ''old_path'']) entries)
        | _ \<Rightarrow> [])"

definition command_candidates :: "tool_pair \<Rightarrow> string list" where
  "command_candidates p =
     (if is_command_pair p then
        (case command_text (tp_input p) of
           None \<Rightarrow> []
         | Some command \<Rightarrow>
             filter is_path_like_token
               (List.map_filter clean_command_token (split_whitespace command)))
      else [])"

definition push_touch ::
    "fs_view \<Rightarrow> file_touch_context \<Rightarrow> string \<Rightarrow> bool \<Rightarrow>
     file_touch list \<times> (string \<times> string) set \<Rightarrow> string \<Rightarrow>
     file_touch list \<times> (string \<times> string) set" where
  "push_touch fs ctx kind is_write st raw =
     (case st of (out, seen) \<Rightarrow>
        (case normalize_candidate fs ctx raw of
           None \<Rightarrow> (out, seen)
         | Some path \<Rightarrow>
             if (path, kind) \<in> seen then (out, seen)
             else (out @ [\<lparr>ft_repo = fc_repo_name ctx, ft_path = path, ft_touch_kind = kind,
                            ft_is_write = is_write\<rparr>], insert (path, kind) seen)))"

definition extract_file_touches ::
    "fs_view \<Rightarrow> tool_pair \<Rightarrow> file_touch_context option \<Rightarrow> file_touch list" where
  "extract_file_touches fs p context =
     (case context of
        None \<Rightarrow> []
      | Some ctx \<Rightarrow>
          fst (foldl (push_touch fs ctx (touch_kind_for_pair p) (is_write_pair p)) ([], {})
            ((case Option.bind (tp_input p) as_object of
                None \<Rightarrow> [] | Some input \<Rightarrow> structured_candidates input)
             @ command_candidates p)))"

end
