(* ===== verification/Timeline_Derived.thy ===== *)
theory Timeline_Derived
  imports Timeline_Files
begin

text \<open>
  What is stored of a projected turn (\<^verbatim>\<open>backend/src/ingest/timeline/derived.rs\<close>): its
  operations, the files they touch and the activity signals, each numbered in order.
\<close>

record stored_operation =
  so_operation_ord :: int
  so_pair_id :: string
  so_name :: string
  so_raw_name :: "string option"
  so_operation_type :: "string option"
  so_operation_category :: "operation_category option"
  so_input :: "json option"
  so_result_content :: "string option"
  so_result_payload :: "json option"
  so_result_is_error :: bool
  so_is_error :: bool
  so_is_pending :: bool
  so_file_touches :: "file_touch list"
  so_subagent :: "subagent option"

record stored_file_touch =
  sf_touch_ord :: int
  sf_operation_ord :: "int option"
  sf_repo_name :: string
  sf_repo_rel_path :: string
  sf_touch_kind :: string
  sf_is_write :: bool

record activity_signal =
  as_signal_ord :: int
  as_signal_type :: string
  as_signal_value :: "string option"
  as_signal_count :: int

record stored_turn =
  st_turn_ord :: int
  st_is_sidechain_turn :: bool
  st_turn :: turn
  st_operations :: "stored_operation list"
  st_file_touches :: "stored_file_touch list"
  st_activity_signals :: "activity_signal list"

section \<open>Operations\<close>

definition operation_of ::
    "fs_view \<Rightarrow> file_touch_context option \<Rightarrow> nat \<times> tool_pair \<Rightarrow> stored_operation" where
  "operation_of fs ctx np =
     (case np of (n, p) \<Rightarrow>
        \<lparr>so_operation_ord = as_i32 n, so_pair_id = tp_id p, so_name = tp_name p,
         so_raw_name = tp_raw_name p, so_operation_type = tp_operation_type p,
         so_operation_category = tp_category p, so_input = tp_input p,
         so_result_content = Option.bind (tp_result p) tr_content,
         so_result_payload = Option.bind (tp_result p) tr_payload,
         so_result_is_error = (case tp_result p of None \<Rightarrow> False | Some r \<Rightarrow> tr_is_error r),
         so_is_error = tp_is_error p, so_is_pending = tp_is_pending p,
         so_file_touches = extract_file_touches fs p ctx, so_subagent = tp_subagent p\<rparr>)"

definition build_operation_projections ::
    "fs_view \<Rightarrow> turn \<Rightarrow> file_touch_context option \<Rightarrow> stored_operation list" where
  "build_operation_projections fs t ctx =
     map (operation_of fs ctx) (enumerate 0 (t_tool_pairs t))"

fun with_file_touches :: "tool_pair \<Rightarrow> file_touch list \<Rightarrow> tool_pair" where
  "with_file_touches (ToolPair i n rn ot c inp r e pend _ sub) touches =
     ToolPair i n rn ot c inp r e pend touches sub"

fun with_tool_pairs :: "turn \<Rightarrow> tool_pair list \<Rightarrow> turn" where
  "with_tool_pairs (Turn i k pv up s e d ec oc _ th er md ch py su sa sl ss) pairs =
     Turn i k pv up s e d ec oc pairs th er md ch py su sa sl ss"

text \<open>\<open>operation_ord as usize\<close>: a negative ordinal is past the end of every list.\<close>

definition apply_touches_step :: "tool_pair list \<Rightarrow> stored_operation \<Rightarrow> tool_pair list" where
  "apply_touches_step pairs op =
     (let n = nat (so_operation_ord op)
      in if 0 \<le> so_operation_ord op \<and> n < length pairs
         then pairs[n := with_file_touches (pairs ! n) (so_file_touches op)] else pairs)"

definition apply_operation_file_touches :: "turn \<Rightarrow> stored_operation list \<Rightarrow> turn" where
  "apply_operation_file_touches t ops =
     with_tool_pairs t (foldl apply_touches_step (t_tool_pairs t) ops)"

section \<open>File touches\<close>

definition touch_step :: "int \<Rightarrow> stored_file_touch list \<Rightarrow> file_touch \<Rightarrow> stored_file_touch list" where
  "touch_step op_ord out touch =
     out @ [\<lparr>sf_touch_ord = as_i32 (length out), sf_operation_ord = Some op_ord,
             sf_repo_name = ft_repo touch, sf_repo_rel_path = ft_path touch,
             sf_touch_kind = ft_touch_kind touch, sf_is_write = ft_is_write touch\<rparr>]"

definition build_file_touch_projections :: "stored_operation list \<Rightarrow> stored_file_touch list" where
  "build_file_touch_projections ops =
     foldl (\<lambda>out op. foldl (touch_step (so_operation_ord op)) out (so_file_touches op)) [] ops"

section \<open>Activity signals\<close>

definition new_activity_signal :: "string \<Rightarrow> string option \<Rightarrow> int \<Rightarrow> activity_signal" where
  "new_activity_signal ty val n =
     \<lparr>as_signal_ord = 0, as_signal_type = ty, as_signal_value = val, as_signal_count = n\<rparr>"

definition is_assistant_chunk :: "chunk \<Rightarrow> bool" where
  "is_assistant_chunk c = (case c of ChunkAssistant _ _ \<Rightarrow> True | _ \<Rightarrow> False)"

text \<open>The categories of the pairs with their numbers, in the order of the names.\<close>

definition category_count :: "tool_pair list \<Rightarrow> operation_category \<Rightarrow> nat" where
  "category_count pairs c = length (filter (\<lambda>p. tp_category p = Some c) pairs)"

definition category_signals :: "tool_pair list \<Rightarrow> activity_signal list" where
  "category_signals pairs =
     map (\<lambda>c. new_activity_signal ''operation_category'' (Some (category_str c))
                (as_i32 (category_count pairs c)))
       (sort (remdups (List.map_filter tp_category pairs)))"

definition signal_list :: "turn \<Rightarrow> bool \<Rightarrow> activity_signal list" where
  "signal_list t sidechain =
     (let assistant_chunks = as_i32 (length (filter is_assistant_chunk (t_chunks t)));
          results = as_i32 (length (filter (\<lambda>p. tp_result p \<noteq> None) (t_tool_pairs t)));
          errors = as_i32 (max (length (filter tp_is_error (t_tool_pairs t))) 1)
      in (case t_user_prompt_text t of
            None \<Rightarrow> []
          | Some txt \<Rightarrow>
              if blank txt then [] else [new_activity_signal ''speaker'' (Some ''user'') 1])
         @ (if assistant_chunks > 0
            then [new_activity_signal ''speaker'' (Some ''assistant'') assistant_chunks] else [])
         @ (if results > 0
            then [new_activity_signal ''speaker'' (Some ''tool_result'') results] else [])
         @ category_signals (t_tool_pairs t)
         @ (if t_thinking_count t > 0
            then [new_activity_signal ''thinking'' None (as_i32 (t_thinking_count t))] else [])
         @ (if t_has_errors t then [new_activity_signal ''error'' None errors] else [])
         @ (if sidechain then [new_activity_signal ''sidechain'' None 1] else []))"

definition build_activity_signals :: "turn \<Rightarrow> bool \<Rightarrow> activity_signal list" where
  "build_activity_signals t sidechain =
     map (\<lambda>(n, s). s\<lparr>as_signal_ord := as_i32 n\<rparr>) (enumerate 0 (signal_list t sidechain))"

section \<open>Sessions\<close>

definition seed_sidechain :: "turn_seed \<Rightarrow> bool" where
  "seed_sidechain t =
     (case sd_prompt t of
        Some e \<Rightarrow> se_is_sidechain e
      | None \<Rightarrow> (case sd_events t of [] \<Rightarrow> False | e # _ \<Rightarrow> se_is_sidechain e))"

definition stored_turn_of ::
    "text_lib \<Rightarrow> fs_view \<Rightarrow> stored_event list \<Rightarrow> file_touch_context option \<Rightarrow>
     nat \<times> turn_seed \<Rightarrow> stored_turn option" where
  "stored_turn_of X fs events ctx nt =
     (case nt of (n, seed) \<Rightarrow>
        map_option (\<lambda>t.
          let ops = build_operation_projections fs t ctx; sidechain = seed_sidechain seed;
              t' = apply_operation_file_touches t ops
          in \<lparr>st_turn_ord = as_i32 n, st_is_sidechain_turn = sidechain, st_turn = t',
              st_operations = ops, st_file_touches = build_file_touch_projections ops,
              st_activity_signals = build_activity_signals t' sidechain\<rparr>)
          (project_turn X seed events default_filters True))"

definition build_session_projection ::
    "text_lib \<Rightarrow> fs_view \<Rightarrow> stored_event list \<Rightarrow> file_touch_context option \<Rightarrow>
     stored_turn list option" where
  "build_session_projection X fs events ctx =
     those (map (stored_turn_of X fs events ctx) (enumerate 0 (group_into_turns events)))"

end
