(* ===== verification/Store_Load.thy ===== *)
theory Store_Load
  imports Ingest_File Timeline_Derived
begin

text \<open>
  Reading stored events back (\<^verbatim>\<open>backend/src/ingest/timeline/load.rs\<close>): the rows of a session in
  the order of their offsets, their blocks with the operation that the table
  \<^verbatim>\<open>tool_category_rules\<close> gives them, and the session a terminal shows. A time stamp comes back
  in the microseconds of PostgreSQL.
\<close>

section \<open>Operation rules\<close>

record tool_rule =
  rl_exact :: bool
  rl_pattern :: string
  rl_operation_type :: string
  rl_operation_category :: string
  rl_precedence :: int

text \<open>\<open>regexp_replace(name, '^.*\.', '')\<close>.\<close>

definition last_segment :: "string \<Rightarrow> string" where
  "last_segment s = rev (takeWhile (\<lambda>c. c \<noteq> CHR ''.'') (rev s))"

text \<open>SQL's \<open>LIKE\<close>: a percent sign is any text, an underscore any character, a backslash quotes.\<close>

definition drop_char :: "string \<Rightarrow> string" where
  "drop_char s = dropWhile cont_byte (tl s)"

lemma drop_char_shorter: "s \<noteq> [] \<Longrightarrow> length (drop_char s) < length s"
  by (cases s) (auto simp: drop_char_def le_imp_less_Suc length_dropWhile_le)

function sql_like :: "string \<Rightarrow> string \<Rightarrow> bool" where
  "sql_like [] s \<longleftrightarrow> s = []"
| "sql_like (c # p) s \<longleftrightarrow>
     (if c = CHR ''%'' then sql_like p s \<or> (if s = [] then False else sql_like (c # p) (drop_char s))
      else if s = [] then False
      else if c = CHR ''_'' then sql_like p (drop_char s)
      else if c = CHR 0x5C then (if p = [] then False else hd s = hd p \<and> sql_like (tl p) (tl s))
      else hd s = c \<and> sql_like p (tl s))"
  by pat_completeness auto
termination
  by (relation "measure (\<lambda>(p, s). length p + length s)") (auto dest: drop_char_shorter)

definition rule_matches :: "string \<Rightarrow> tool_rule \<Rightarrow> bool" where
  "rule_matches name r \<longleftrightarrow>
     (if rl_exact r then rl_pattern r = name else sql_like (rl_pattern r @ ''%'') name)"

definition rule_for :: "tool_rule list \<Rightarrow> string \<Rightarrow> tool_rule option" where
  "rule_for rules name =
     (case sort_key rl_precedence (filter (rule_matches name) rules) of [] \<Rightarrow> None | r # _ \<Rightarrow> Some r)"

section \<open>Blocks and events\<close>

definition loaded_block :: "tool_rule list \<Rightarrow> block \<Rightarrow> block" where
  "loaded_block rules b =
     (let name = last_segment (unwrap_or [] (or_else (b_tool_name_canonical b) (b_tool_name b)));
          rule = rule_for rules name; use = (b_kind b = BToolUse)
      in b\<lparr>b_operation_type :=
             (if use then Some (case rule of None \<Rightarrow> name | Some r \<Rightarrow> rl_operation_type r) else None),
           b_operation_category :=
             (if use then category_parse (case rule of None \<Rightarrow> ''other'' | Some r \<Rightarrow> rl_operation_category r)
              else None),
           b_raw := None\<rparr>)"

definition load_event_blocks ::
    "tool_rule list \<Rightarrow> block_row list \<Rightarrow> uuid \<Rightarrow> int \<Rightarrow> block list" where
  "load_event_blocks rules rows u off =
     map (\<lambda>r. loaded_block rules (br_block r))
       (sort_key (\<lambda>r. b_ord (br_block r)) (filter (\<lambda>r. br_session r = u \<and> br_offset r = off) rows))"

definition pg_time :: "timestamp \<Rightarrow> timestamp" where
  "pg_time t = t div 1000 * 1000"

definition stored_event_of :: "tool_rule list \<Rightarrow> block_row list \<Rightarrow> event_row \<Rightarrow> stored_event" where
  "stored_event_of rules blocks r =
     \<lparr>se_byte_offset = ev_offset r, se_timestamp = pg_time (ev_timestamp r), se_kind = ev_kind r,
      se_agent = ev_agent r, se_speaker = ev_speaker r, se_content_kind = ev_content_kind r,
      se_event_uuid = ev_event_uuid r, se_parent_event_uuid = ev_parent_event_uuid r,
      se_related_tool_use_id = ev_related_tool_use_id r, se_is_sidechain = ev_is_sidechain r,
      se_is_meta = ev_is_meta r, se_subtype = ev_subtype r,
      se_blocks = load_event_blocks rules blocks (ev_session r) (ev_offset r)\<rparr>"

record session_event_filter =
  sef_after :: "int option"
  sef_limit :: "int option"
  sef_kind :: "string option"

definition no_event_filter :: session_event_filter where
  "no_event_filter = \<lparr>sef_after = None, sef_limit = None, sef_kind = None\<rparr>"

definition selected_rows :: "event_row list \<Rightarrow> uuid \<Rightarrow> session_event_filter \<Rightarrow> event_row list" where
  "selected_rows rows u f =
     (let chosen = sort_key ev_offset
            (filter (\<lambda>r. ev_session r = u \<and> ev_offset r > unwrap_or (- 1) (sef_after f)
               \<and> (case sef_kind f of None \<Rightarrow> True | Some k \<Rightarrow> ev_kind r = k)) rows)
      in case sef_limit f of None \<Rightarrow> chosen | Some n \<Rightarrow> take (nat (max 1 (min n 5000))) chosen)"

definition load_session_events ::
    "tool_rule list \<Rightarrow> ingest_db \<Rightarrow> uuid \<Rightarrow> session_event_filter \<Rightarrow> stored_event list" where
  "load_session_events rules db u f =
     map (stored_event_of rules (block_rows db)) (selected_rows (ev_rows db) u f)"

definition load_all_session_events ::
    "tool_rule list \<Rightarrow> ingest_db \<Rightarrow> uuid \<Rightarrow> stored_event list" where
  "load_all_session_events rules db u = load_session_events rules db u no_event_filter"

definition count_session_events :: "ingest_db \<Rightarrow> uuid \<Rightarrow> nat" where
  "count_session_events db u = length (filter (\<lambda>r. ev_session r = u) (ev_rows db))"

section \<open>The session of a terminal\<close>

datatype session_lookup = MissingPty | NoSession | Resolved uuid "string option"

definition resolve_session_target ::
    "ingest_db \<Rightarrow> uuid \<Rightarrow> uuid option \<Rightarrow> session_lookup" where
  "resolve_session_target db pty explicit =
     (let resolved = (\<lambda>u. Resolved u (map_option cs_agent (sessions db u)))
      in case explicit of
           Some u \<Rightarrow> resolved u
         | None \<Rightarrow>
             (case map_of (ptys db) pty of
                None \<Rightarrow> MissingPty
              | Some None \<Rightarrow> NoSession
              | Some (Some u) \<Rightarrow> resolved u))"

section \<open>Loading from an offset\<close>

lemma selected_rows_all:
  "selected_rows rows u \<lparr>sef_after = a, sef_limit = None, sef_kind = None\<rparr>
     = filter (\<lambda>r. ev_offset r > unwrap_or (- 1) a)
         (sort_key ev_offset (filter (\<lambda>r. ev_session r = u) rows))"
  by (simp add: selected_rows_def filter_sort [symmetric] conj_commute)

lemma stored_event_offset [simp]: "se_byte_offset (stored_event_of rules bs r) = ev_offset r"
  by (simp add: stored_event_of_def)

lemma load_after:
  assumes "0 \<le> n"
  shows "load_session_events rules db u \<lparr>sef_after = Some (n - 1), sef_limit = None, sef_kind = None\<rparr>
     = filter (\<lambda>e. n \<le> se_byte_offset e) (load_all_session_events rules db u)"
proof -
  have "(\<lambda>r :: event_row. n - 1 < ev_offset r) = (\<lambda>r. n \<le> ev_offset r \<and> - 1 < ev_offset r)"
    using assms by (auto simp: fun_eq_iff)
  then show ?thesis
    by (simp add: load_all_session_events_def load_session_events_def no_event_filter_def
        selected_rows_all filter_map o_def conj_commute)
qed

lemma load_nonneg: "e \<in> set (load_all_session_events rules db u) \<Longrightarrow> 0 \<le> se_byte_offset e"
  by (auto simp: load_all_session_events_def load_session_events_def no_event_filter_def selected_rows_all)

lemma load_sorted: "sorted (map se_byte_offset (load_all_session_events rules db u))"
proof -
  have "sorted (map ev_offset (sort_key ev_offset (filter (\<lambda>r. ev_session r = u) (ev_rows db))))"
    by simp
  then show ?thesis
    by (simp add: load_all_session_events_def load_session_events_def no_event_filter_def
        selected_rows_all o_def sorted_filter)
qed

end
