(* ===== verification/Projection_Write.thy ===== *)
theory Projection_Write
  imports Store_Load
begin

text \<open>
  The stored timeline (\<^verbatim>\<open>backend/src/ingest/projection/write.rs\<close> and the source events of
  \<^verbatim>\<open>backend/src/ingest/projection.rs\<close>): its tables, which events it is computed from, and the
  full and the incremental rebuild of a session. \<open>Inl\<close> is a failed transaction, which leaves
  the tables as they are; a row with a key that is taken makes it fail. \<open>None\<close> is a call that
  does not return. Derived JSON codecs are parameters.
\<close>

section \<open>Tables\<close>

record codec_lib =
  cd_turn :: "turn \<Rightarrow> json"
  cd_chunks :: "chunk list \<Rightarrow> json"
  cd_chunks_back :: "json \<Rightarrow> chunk list option"
  cd_subagent :: "subagent \<Rightarrow> json"
  cd_subagent_back :: "json \<Rightarrow> subagent option"

record turn_row =
  tt_session :: uuid
  tt_turn_id :: int
  tt_turn_ord :: int
  tt_is_sidechain :: bool
  tt_preview :: string
  tt_user_prompt_text :: "string option"
  tt_start :: timestamp
  tt_end :: timestamp
  tt_duration_ms :: int
  tt_event_count :: int
  tt_operation_count :: int
  tt_thinking_count :: int
  tt_has_errors :: bool
  tt_markdown :: string
  tt_turn_json :: json
  tt_chunks_json :: json

record operation_row =
  or_session :: uuid
  or_turn_id :: int
  or_ord :: int
  or_pair_id :: string
  or_name :: string
  or_raw_name :: "string option"
  or_operation_type :: "string option"
  or_operation_category :: "string option"
  or_input :: "json option"
  or_result_content :: "string option"
  or_result_payload :: "json option"
  or_result_is_error :: bool
  or_is_error :: bool
  or_is_pending :: bool
  or_subagent_json :: "json option"

record touch_row =
  tf_session :: uuid
  tf_turn_id :: int
  tf_ord :: int
  tf_operation_ord :: "int option"
  tf_repo_name :: string
  tf_repo_rel_path :: string
  tf_touch_kind :: string
  tf_is_write :: bool

record signal_row =
  sg_session :: uuid
  sg_turn_id :: int
  sg_ord :: int
  sg_type :: string
  sg_value :: "string option"
  sg_count :: int

record session_state =
  ss_revision :: int
  ss_total_event_count :: int
  ss_turn_count :: int
  ss_latest_turn_id :: "int option"
  ss_latest_event_at :: "timestamp option"

text \<open>
  The first four fields are tables the projection only reads: the keys of
  \<^verbatim>\<open>claude_sessions\<close> in ascending order, the repository and directory of each terminal, the
  paths of the repositories, and the operation rules.
\<close>

record projection_db =
  pd_sessions :: "uuid list"
  pd_ptys :: "uuid \<Rightarrow> (string \<times> fs_path) option"
  pd_repos :: "string \<Rightarrow> fs_path option"
  pd_rules :: "tool_rule list"
  pd_turns :: "turn_row list"
  pd_operations :: "operation_row list"
  pd_touches :: "touch_row list"
  pd_signals :: "signal_row list"
  pd_states :: "uuid \<Rightarrow> session_state option"

section \<open>Source events\<close>

definition load_file_touch_context ::
    "ingest_db \<Rightarrow> projection_db \<Rightarrow> uuid \<Rightarrow> file_touch_context option" where
  "load_file_touch_context db pd u =
     Option.bind (Option.bind (sessions db u) cs_pty_session_id) (\<lambda>pty.
     Option.bind (pd_ptys pd pty) (\<lambda>(repo, working_dir).
       Some \<lparr>fc_repo_name = repo, fc_repo_root = unwrap_or working_dir (pd_repos pd repo),
             fc_working_dir = working_dir\<rparr>))"

definition children_of :: "ingest_db \<Rightarrow> projection_db \<Rightarrow> uuid \<Rightarrow> uuid list" where
  "children_of db pd u = filter (\<lambda>v. parent_of db v = Some u) (pd_sessions pd)"

text \<open>
  The recursive query, level by level, each level in ascending order. It has no cycle check.
\<close>

partial_function (option) descend_levels :: "(uuid \<Rightarrow> uuid list) \<Rightarrow> uuid list \<Rightarrow> uuid list option" where
  "descend_levels ch level =
     (if level = [] then Some []
      else Option.bind (descend_levels ch (sort (concat (map ch level))))
             (\<lambda>deeper. Some (level @ deeper)))"

definition descendant_session_ids :: "ingest_db \<Rightarrow> projection_db \<Rightarrow> uuid \<Rightarrow> uuid list option" where
  "descendant_session_ids db pd u =
     (if u \<in> set (pd_sessions pd)
      then descend_levels (children_of db pd) (sort (children_of db pd u)) else Some [])"

text \<open>
  Which events of a descendant belong to the session: those its own identifier is the parent
  of, and everything below them.
\<close>

definition include_event :: "string set \<Rightarrow> stored_event \<Rightarrow> string set" where
  "include_event K e =
     (case se_parent_event_uuid e of
        None \<Rightarrow> K
      | Some parent \<Rightarrow>
          if parent \<notin> K then K
          else (case se_event_uuid e of None \<Rightarrow> K | Some i \<Rightarrow> insert i K))"

definition include_round :: "stored_event list \<Rightarrow> string set \<Rightarrow> string set" where
  "include_round events K = foldl include_event K events"

lemma include_event_bounds:
  "K \<subseteq> include_event K e \<and> include_event K e \<subseteq> K \<union> set_option (se_event_uuid e)"
  by (auto simp: include_event_def split: option.splits)

lemma include_round_bounds: "K \<subseteq> include_round events K \<and> include_round events K \<subseteq> K \<union> event_ids events"
  unfolding include_round_def event_ids_def
proof (induction events arbitrary: K)
  case (Cons e events)
  have "K \<subseteq> include_event K e" "include_event K e \<subseteq> K \<union> set_option (se_event_uuid e)"
    using include_event_bounds by blast+
  moreover have "set (List.map_filter se_event_uuid (e # events))
      = set_option (se_event_uuid e) \<union> set (List.map_filter se_event_uuid events)"
    by (cases "se_event_uuid e") (auto simp: List.map_filter_simps)
  ultimately show ?case using Cons.IH [of "include_event K e"] by auto
qed simp

function include_loop :: "stored_event list \<Rightarrow> string set \<Rightarrow> string set" where
  "include_loop events K =
     (let K' = include_round events K in if K' = K then K else include_loop events K')"
  by pat_completeness auto
termination
proof (relation "measure (\<lambda>(events, K). card (event_ids events - K))", goal_cases)
  case (2 events K x)
  then have "event_ids events - x \<subset> event_ids events - K"
    using include_round_bounds [of K events] by blast
  then show ?case by (simp add: psubset_card_mono event_ids_def)
qed simp

declare include_loop.simps [simp del]

definition include_seed :: "stored_event list \<Rightarrow> string set \<Rightarrow> string \<Rightarrow> string set" where
  "include_seed events known descendant_id =
     set (filter (\<lambda>i. i \<notin> known)
       (List.map_filter se_event_uuid
         (filter (\<lambda>e. se_is_sidechain e \<and> se_parent_event_uuid e = Some descendant_id) events)))"

definition filter_descendant_projection_events ::
    "stored_event list \<Rightarrow> string set \<Rightarrow> string \<Rightarrow> stored_event list" where
  "filter_descendant_projection_events events known descendant_id =
     (let K = include_loop events (include_seed events known descendant_id)
      in filter (\<lambda>e. (case se_event_uuid e of None \<Rightarrow> False | Some i \<Rightarrow> i \<in> K)
                  \<or> (case se_parent_event_uuid e of None \<Rightarrow> False | Some p \<Rightarrow> p \<in> K)) events)"

definition add_descendant ::
    "ingest_lib \<Rightarrow> ingest_db \<Rightarrow> projection_db \<Rightarrow> stored_event list \<times> string set \<Rightarrow> uuid \<Rightarrow>
     stored_event list \<times> string set" where
  "add_descendant L db pd st v =
     (case st of (events, known) \<Rightarrow>
        let filtered = filter_descendant_projection_events
              (load_all_session_events (pd_rules pd) db v) known (i_uuid_show L v)
        in (events @ filtered, known \<union> event_ids filtered))"

text \<open>Sorted by time stamp, and by offset among equal ones: the sorts are stable.\<close>

definition load_projection_source_events ::
    "ingest_lib \<Rightarrow> ingest_db \<Rightarrow> projection_db \<Rightarrow> uuid \<Rightarrow> stored_event list option" where
  "load_projection_source_events L db pd u =
     (let root = load_all_session_events (pd_rules pd) db u
      in map_option (\<lambda>ds. sort_key se_timestamp (sort_key se_byte_offset
             (fst (foldl (add_descendant L db pd) (root, event_ids root) ds))))
           (descendant_session_ids db pd u))"

section \<open>Writing rows\<close>

definition insert_new :: "('r \<Rightarrow> 'k) \<Rightarrow> string \<Rightarrow> 'r list \<Rightarrow> 'r \<Rightarrow> (string, 'r list) result" where
  "insert_new key what rows r = (if key r \<in> key ` set rows then Inl what else Inr (rows @ [r]))"

fun insert_each :: "('r \<Rightarrow> 'k) \<Rightarrow> string \<Rightarrow> 'r list \<Rightarrow> 'r list \<Rightarrow> (string, 'r list) result" where
  "insert_each key what rows [] = Inr rows"
| "insert_each key what rows (r # rs) =
     res_bind (insert_new key what rows r) (\<lambda>rows'. insert_each key what rows' rs)"

definition turn_key_of :: "turn_row \<Rightarrow> uuid \<times> int" where
  "turn_key_of r = (tt_session r, tt_turn_id r)"

definition operation_key :: "operation_row \<Rightarrow> uuid \<times> int \<times> int" where
  "operation_key r = (or_session r, or_turn_id r, or_ord r)"

definition touch_key :: "touch_row \<Rightarrow> uuid \<times> int \<times> int" where
  "touch_key r = (tf_session r, tf_turn_id r, tf_ord r)"

definition signal_key :: "signal_row \<Rightarrow> uuid \<times> int \<times> int" where
  "signal_key r = (sg_session r, sg_turn_id r, sg_ord r)"

definition turn_row_of :: "codec_lib \<Rightarrow> uuid \<Rightarrow> stored_turn \<Rightarrow> turn_row" where
  "turn_row_of C u st =
     (let t = st_turn st
      in \<lparr>tt_session = u, tt_turn_id = t_id t, tt_turn_ord = st_turn_ord st,
          tt_is_sidechain = st_is_sidechain_turn st, tt_preview = t_preview t,
          tt_user_prompt_text = t_user_prompt_text t, tt_start = t_start t, tt_end = t_end t,
          tt_duration_ms = t_duration_ms t, tt_event_count = as_i32 (t_event_count t),
          tt_operation_count = as_i32 (t_operation_count t),
          tt_thinking_count = as_i32 (t_thinking_count t), tt_has_errors = t_has_errors t,
          tt_markdown = t_markdown t, tt_turn_json = cd_turn C t,
          tt_chunks_json = cd_chunks C (t_chunks t)\<rparr>)"

definition operation_row_of :: "codec_lib \<Rightarrow> uuid \<Rightarrow> int \<Rightarrow> stored_operation \<Rightarrow> operation_row" where
  "operation_row_of C u turn_id op =
     \<lparr>or_session = u, or_turn_id = turn_id, or_ord = so_operation_ord op,
      or_pair_id = so_pair_id op, or_name = so_name op, or_raw_name = so_raw_name op,
      or_operation_type = so_operation_type op,
      or_operation_category = map_option category_str (so_operation_category op),
      or_input = so_input op, or_result_content = so_result_content op,
      or_result_payload = so_result_payload op, or_result_is_error = so_result_is_error op,
      or_is_error = so_is_error op, or_is_pending = so_is_pending op,
      or_subagent_json = map_option (cd_subagent C) (so_subagent op)\<rparr>"

definition touch_row_of :: "uuid \<Rightarrow> int \<Rightarrow> stored_file_touch \<Rightarrow> touch_row" where
  "touch_row_of u turn_id t =
     \<lparr>tf_session = u, tf_turn_id = turn_id, tf_ord = sf_touch_ord t,
      tf_operation_ord = sf_operation_ord t, tf_repo_name = sf_repo_name t,
      tf_repo_rel_path = sf_repo_rel_path t, tf_touch_kind = sf_touch_kind t,
      tf_is_write = sf_is_write t\<rparr>"

definition signal_row_of :: "uuid \<Rightarrow> int \<Rightarrow> activity_signal \<Rightarrow> signal_row" where
  "signal_row_of u turn_id s =
     \<lparr>sg_session = u, sg_turn_id = turn_id, sg_ord = as_signal_ord s, sg_type = as_signal_type s,
      sg_value = as_signal_value s, sg_count = as_signal_count s\<rparr>"

definition insert_projected_operations ::
    "codec_lib \<Rightarrow> uuid \<Rightarrow> stored_turn \<Rightarrow> operation_row list \<Rightarrow> (string, operation_row list) result" where
  "insert_projected_operations C u st rows =
     insert_each operation_key ''insert timeline_operations row'' rows
       (map (operation_row_of C u (t_id (st_turn st))) (st_operations st))"

definition insert_projected_file_touches ::
    "uuid \<Rightarrow> stored_turn \<Rightarrow> touch_row list \<Rightarrow> (string, touch_row list) result" where
  "insert_projected_file_touches u st rows =
     insert_each touch_key ''insert timeline_file_touches row'' rows
       (map (touch_row_of u (t_id (st_turn st))) (st_file_touches st))"

definition insert_projected_activity_signals ::
    "uuid \<Rightarrow> stored_turn \<Rightarrow> signal_row list \<Rightarrow> (string, signal_row list) result" where
  "insert_projected_activity_signals u st rows =
     insert_each signal_key ''insert timeline_activity_signals row'' rows
       (map (signal_row_of u (t_id (st_turn st))) (st_activity_signals st))"

definition insert_projected_turn ::
    "codec_lib \<Rightarrow> uuid \<Rightarrow> projection_db \<Rightarrow> stored_turn \<Rightarrow> (string, projection_db) result" where
  "insert_projected_turn C u pd st =
     res_bind (insert_new turn_key_of ''insert timeline_turns row'' (pd_turns pd) (turn_row_of C u st)) (\<lambda>ts.
     res_bind (insert_projected_operations C u st (pd_operations pd)) (\<lambda>ops.
     res_bind (insert_projected_file_touches u st (pd_touches pd)) (\<lambda>fts.
     res_bind (insert_projected_activity_signals u st (pd_signals pd)) (\<lambda>sgs.
       Inr (pd\<lparr>pd_turns := ts, pd_operations := ops, pd_touches := fts, pd_signals := sgs\<rparr>)))))"

fun insert_projection_rows ::
    "codec_lib \<Rightarrow> uuid \<Rightarrow> projection_db \<Rightarrow> stored_turn list \<Rightarrow> (string, projection_db) result" where
  "insert_projection_rows C u pd [] = Inr pd"
| "insert_projection_rows C u pd (st # sts) =
     res_bind (insert_projected_turn C u pd st) (\<lambda>pd'. insert_projection_rows C u pd' sts)"

section \<open>Clearing and the session state\<close>

definition clear_session_projection :: "projection_db \<Rightarrow> uuid \<Rightarrow> projection_db" where
  "clear_session_projection pd u =
     pd\<lparr>pd_touches := filter (\<lambda>r. tf_session r \<noteq> u) (pd_touches pd),
        pd_signals := filter (\<lambda>r. sg_session r \<noteq> u) (pd_signals pd),
        pd_operations := filter (\<lambda>r. or_session r \<noteq> u) (pd_operations pd),
        pd_turns := filter (\<lambda>r. tt_session r \<noteq> u) (pd_turns pd)\<rparr>"

definition clear_session_projection_from :: "projection_db \<Rightarrow> uuid \<Rightarrow> int \<Rightarrow> projection_db" where
  "clear_session_projection_from pd u from_id =
     pd\<lparr>pd_touches := filter (\<lambda>r. \<not> (tf_session r = u \<and> from_id \<le> tf_turn_id r)) (pd_touches pd),
        pd_signals := filter (\<lambda>r. \<not> (sg_session r = u \<and> from_id \<le> sg_turn_id r)) (pd_signals pd),
        pd_operations := filter (\<lambda>r. \<not> (or_session r = u \<and> from_id \<le> or_turn_id r)) (pd_operations pd),
        pd_turns := filter (\<lambda>r. \<not> (tt_session r = u \<and> from_id \<le> tt_turn_id r)) (pd_turns pd)\<rparr>"

definition refresh_timeline_session_state :: "projection_db \<Rightarrow> uuid \<Rightarrow> projection_db" where
  "refresh_timeline_session_state pd u =
     (let rows = filter (\<lambda>r. tt_session r = u) (pd_turns pd);
          max_of = (\<lambda>xs. if xs = [] then None else Some (Max (set xs)))
      in pd\<lparr>pd_states := (pd_states pd)(u \<mapsto>
           \<lparr>ss_revision = (case pd_states pd u of None \<Rightarrow> 1 | Some s \<Rightarrow> ss_revision s + 1),
            ss_total_event_count = sum_list (map tt_event_count rows),
            ss_turn_count = int (length rows),
            ss_latest_turn_id = max_of (map tt_turn_id rows),
            ss_latest_event_at = max_of (map tt_end rows)\<rparr>)\<rparr>)"

section \<open>Rebuilds\<close>

record projection_env =
  pe_text :: text_lib
  pe_ingest :: ingest_lib
  pe_codec :: codec_lib
  pe_fs :: fs_view

definition write_projection ::
    "codec_lib \<Rightarrow> uuid \<Rightarrow> projection_db \<Rightarrow> projection_db \<Rightarrow> stored_turn list \<Rightarrow>
     (string, nat) result \<times> projection_db" where
  "write_projection C u pd cleared projected =
     (case insert_projection_rows C u cleared projected of
        Inl e \<Rightarrow> (Inl e, pd)
      | Inr pd' \<Rightarrow> (Inr (length projected), refresh_timeline_session_state pd' u))"

definition rebuild_session_projection ::
    "projection_env \<Rightarrow> ingest_db \<Rightarrow> projection_db \<Rightarrow> uuid \<Rightarrow>
     ((string, nat) result \<times> projection_db) option" where
  "rebuild_session_projection E db pd u =
     Option.bind (load_projection_source_events (pe_ingest E) db pd u) (\<lambda>events.
     Option.bind (build_session_projection (pe_text E) (pe_fs E) events
                    (load_file_touch_context db pd u)) (\<lambda>projected.
       Some (write_projection (pe_codec E) u pd (clear_session_projection pd u) projected)))"

definition session_has_descendants :: "ingest_db \<Rightarrow> projection_db \<Rightarrow> uuid \<Rightarrow> bool" where
  "session_has_descendants db pd u \<longleftrightarrow> children_of db pd u \<noteq> []"

text \<open>The anchor: identifier and ordinal of the last turn that starts at or before the offset.\<close>

definition projection_rebuild_anchor :: "projection_db \<Rightarrow> uuid \<Rightarrow> int \<Rightarrow> (int \<times> int) option" where
  "projection_rebuild_anchor pd u off =
     (let rows = sort_key tt_turn_id
            (filter (\<lambda>r. tt_session r = u \<and> tt_turn_id r \<le> off) (pd_turns pd))
      in if rows = [] then None else Some (tt_turn_id (last rows), tt_turn_ord (last rows)))"

text \<open>\<open>saturating_sub(1)\<close> on an \<open>i64\<close>.\<close>

definition saturating_pred :: "int \<Rightarrow> int" where
  "saturating_pred n = max (- (2 ^ 63)) (n - 1)"

definition load_direct_session_events_from ::
    "ingest_db \<Rightarrow> projection_db \<Rightarrow> uuid \<Rightarrow> int \<Rightarrow> stored_event list" where
  "load_direct_session_events_from db pd u from_offset =
     load_session_events (pd_rules pd) db u
       \<lparr>sef_after = Some (saturating_pred from_offset), sef_limit = None, sef_kind = None\<rparr>"

text \<open>\<open>anchor.turn_ord + idx as i32\<close>, which wraps.\<close>

definition add_i32 :: "int \<Rightarrow> int \<Rightarrow> int" where
  "add_i32 a b = sint (of_int a + of_int b :: 32 word)"

definition shift_ords :: "int \<Rightarrow> stored_turn list \<Rightarrow> stored_turn list" where
  "shift_ords base sts =
     map (\<lambda>(n, st). st\<lparr>st_turn_ord := add_i32 base (as_i32 n)\<rparr>) (enumerate 0 sts)"

definition rebuild_session_projection_after_insert ::
    "projection_env \<Rightarrow> ingest_db \<Rightarrow> projection_db \<Rightarrow> uuid \<Rightarrow> int \<Rightarrow>
     ((string, nat) result \<times> projection_db) option" where
  "rebuild_session_projection_after_insert E db pd u first_inserted =
     (if session_has_descendants db pd u then rebuild_session_projection E db pd u
      else case projection_rebuild_anchor pd u first_inserted of
        None \<Rightarrow> rebuild_session_projection E db pd u
      | Some (turn_id, turn_ord) \<Rightarrow>
          let events = load_direct_session_events_from db pd u turn_id
          in if events = [] then rebuild_session_projection E db pd u
             else Option.bind (build_session_projection (pe_text E) (pe_fs E) events
                                 (load_file_touch_context db pd u)) (\<lambda>projected.
                    Some (write_projection (pe_codec E) u pd
                            (clear_session_projection_from pd u turn_id)
                            (shift_ords turn_ord projected))))"

end
