(* ===== verification/Projection_Rebuild.thy ===== *)
theory Projection_Rebuild
  imports Projection_Write Timeline_Turns
begin

text \<open>
  What the rebuilds of a stored timeline do to the tables, and when the incremental rebuild
  gives what the full rebuild gives.
\<close>

section \<open>Inserting rows\<close>

definition fresh_rows :: "('r \<Rightarrow> 'k) \<Rightarrow> 'r list \<Rightarrow> 'r list \<Rightarrow> bool" where
  "fresh_rows key rows new \<longleftrightarrow> distinct (map key new) \<and> key ` set new \<inter> key ` set rows = {}"

lemma insert_each_iff:
  "insert_each key what rows new = Inr rows' \<longleftrightarrow> fresh_rows key rows new \<and> rows' = rows @ new"
  by (induction new arbitrary: rows)
     (auto simp: insert_new_def fresh_rows_def res_bind_eq_Inr)

lemma fresh_rows_append:
  "fresh_rows key rows (xs @ ys) \<longleftrightarrow> fresh_rows key rows xs \<and> fresh_rows key (rows @ xs) ys"
  by (auto simp: fresh_rows_def)

definition turn_rows :: "codec_lib \<Rightarrow> uuid \<Rightarrow> stored_turn list \<Rightarrow> turn_row list" where
  "turn_rows C u sts = map (turn_row_of C u) sts"

definition operation_rows :: "codec_lib \<Rightarrow> uuid \<Rightarrow> stored_turn list \<Rightarrow> operation_row list" where
  "operation_rows C u sts =
     concat (map (\<lambda>st. map (operation_row_of C u (t_id (st_turn st))) (st_operations st)) sts)"

definition touch_rows_of :: "uuid \<Rightarrow> stored_turn list \<Rightarrow> touch_row list" where
  "touch_rows_of u sts =
     concat (map (\<lambda>st. map (touch_row_of u (t_id (st_turn st))) (st_file_touches st)) sts)"

definition signal_rows :: "uuid \<Rightarrow> stored_turn list \<Rightarrow> signal_row list" where
  "signal_rows u sts =
     concat (map (\<lambda>st. map (signal_row_of u (t_id (st_turn st))) (st_activity_signals st)) sts)"

lemmas rows_defs = turn_rows_def operation_rows_def touch_rows_of_def signal_rows_def

definition rows_fit :: "codec_lib \<Rightarrow> uuid \<Rightarrow> projection_db \<Rightarrow> stored_turn list \<Rightarrow> bool" where
  "rows_fit C u pd sts \<longleftrightarrow>
     fresh_rows turn_key_of (pd_turns pd) (turn_rows C u sts)
     \<and> fresh_rows operation_key (pd_operations pd) (operation_rows C u sts)
     \<and> fresh_rows touch_key (pd_touches pd) (touch_rows_of u sts)
     \<and> fresh_rows signal_key (pd_signals pd) (signal_rows u sts)"

definition with_rows :: "codec_lib \<Rightarrow> uuid \<Rightarrow> projection_db \<Rightarrow> stored_turn list \<Rightarrow> projection_db" where
  "with_rows C u pd sts =
     pd\<lparr>pd_turns := pd_turns pd @ turn_rows C u sts,
        pd_operations := pd_operations pd @ operation_rows C u sts,
        pd_touches := pd_touches pd @ touch_rows_of u sts,
        pd_signals := pd_signals pd @ signal_rows u sts\<rparr>"

lemma insert_new_iff:
  "insert_new key what rows r = Inr rows' \<longleftrightarrow> fresh_rows key rows [r] \<and> rows' = rows @ [r]"
  by (auto simp: insert_new_def fresh_rows_def)

lemma insert_projected_turn_iff:
  "insert_projected_turn C u pd st = Inr pd' \<longleftrightarrow> rows_fit C u pd [st] \<and> pd' = with_rows C u pd [st]"
  by (auto simp: insert_projected_turn_def insert_projected_operations_def
      insert_projected_file_touches_def insert_projected_activity_signals_def
      res_bind_eq_Inr insert_new_iff insert_each_iff rows_fit_def with_rows_def rows_defs)

lemma with_rows_Cons: "with_rows C u (with_rows C u pd [st]) sts = with_rows C u pd (st # sts)"
  by (simp add: with_rows_def rows_defs)

lemma rows_fit_Cons:
  "rows_fit C u pd (st # sts) \<longleftrightarrow> rows_fit C u pd [st] \<and> rows_fit C u (with_rows C u pd [st]) sts"
proof -
  have "turn_rows C u (st # sts) = turn_rows C u [st] @ turn_rows C u sts"
    "operation_rows C u (st # sts) = operation_rows C u [st] @ operation_rows C u sts"
    "touch_rows_of u (st # sts) = touch_rows_of u [st] @ touch_rows_of u sts"
    "signal_rows u (st # sts) = signal_rows u [st] @ signal_rows u sts"
    by (simp_all add: rows_defs)
  then show ?thesis by (auto simp: rows_fit_def with_rows_def fresh_rows_append)
qed

lemma rows_fit_Nil [simp]: "rows_fit C u pd []" and with_rows_Nil [simp]: "with_rows C u pd [] = pd"
  by (simp_all add: rows_fit_def with_rows_def rows_defs fresh_rows_def)

lemma insert_projection_rows_iff:
  "insert_projection_rows C u pd sts = Inr pd' \<longleftrightarrow> rows_fit C u pd sts \<and> pd' = with_rows C u pd sts"
proof (induction sts arbitrary: pd)
  case (Cons st sts)
  show ?case
    by (auto simp: res_bind_eq_Inr insert_projected_turn_iff Cons.IH rows_fit_Cons [of C u pd st sts]
        with_rows_Cons)
qed auto

section \<open>The tables of a session\<close>

definition session_tables ::
    "projection_db \<Rightarrow> uuid \<Rightarrow> turn_row list \<times> operation_row list \<times> touch_row list \<times> signal_row list" where
  "session_tables pd u =
     (filter (\<lambda>r. tt_session r = u) (pd_turns pd), filter (\<lambda>r. or_session r = u) (pd_operations pd),
      filter (\<lambda>r. tf_session r = u) (pd_touches pd), filter (\<lambda>r. sg_session r = u) (pd_signals pd))"

definition tables_of ::
    "codec_lib \<Rightarrow> uuid \<Rightarrow> stored_turn list \<Rightarrow>
     turn_row list \<times> operation_row list \<times> touch_row list \<times> signal_row list" where
  "tables_of C u sts =
     (turn_rows C u sts, operation_rows C u sts, touch_rows_of u sts, signal_rows u sts)"

lemma row_sessions [simp]:
  "tt_session (turn_row_of C u st) = u" "or_session (operation_row_of C u i op) = u"
  "tf_session (touch_row_of u i t) = u" "sg_session (signal_row_of u i s) = u"
  by (simp_all add: turn_row_of_def operation_row_of_def touch_row_of_def signal_row_of_def Let_def)

lemma row_turns [simp]:
  "tt_turn_id (turn_row_of C u st) = t_id (st_turn st)" "or_turn_id (operation_row_of C u i op) = i"
  "tf_turn_id (touch_row_of u i t) = i" "sg_turn_id (signal_row_of u i s) = i"
  by (simp_all add: turn_row_of_def operation_row_of_def touch_row_of_def signal_row_of_def Let_def)

lemma sessions_of_rows:
  "r \<in> set (turn_rows C u sts) \<Longrightarrow> tt_session r = u"
  "r1 \<in> set (operation_rows C u sts) \<Longrightarrow> or_session r1 = u"
  "r2 \<in> set (touch_rows_of u sts) \<Longrightarrow> tf_session r2 = u"
  "r3 \<in> set (signal_rows u sts) \<Longrightarrow> sg_session r3 = u"
  by (auto simp: rows_defs)

lemma filter_none: "(\<And>x. x \<in> set xs \<Longrightarrow> \<not> P x) \<Longrightarrow> filter P xs = []"
  by (simp add: filter_empty_conv)

lemma filter_rows:
  "filter (\<lambda>r. tt_session r = v) (turn_rows C u sts) = (if v = u then turn_rows C u sts else [])"
  "filter (\<lambda>r. or_session r = v) (operation_rows C u sts) = (if v = u then operation_rows C u sts else [])"
  "filter (\<lambda>r. tf_session r = v) (touch_rows_of u sts) = (if v = u then touch_rows_of u sts else [])"
  "filter (\<lambda>r. sg_session r = v) (signal_rows u sts) = (if v = u then signal_rows u sts else [])"
  by (auto intro!: filter_none filter_True dest: sessions_of_rows)

lemma other_sessions_kept:
  "v \<noteq> u \<Longrightarrow> session_tables (with_rows C u pd sts) v = session_tables pd v"
  by (simp add: session_tables_def with_rows_def filter_rows)

lemma other_sessions_cleared:
  assumes "v \<noteq> u"
  shows "session_tables (clear_session_projection pd u) v = session_tables pd v"
    and "session_tables (clear_session_projection_from pd u n) v = session_tables pd v"
  using assms
  by (auto simp: session_tables_def clear_session_projection_def clear_session_projection_from_def
      intro!: filter_cong)

lemma rows_fit_cleared:
  "rows_fit C u (clear_session_projection pd u) sts \<longleftrightarrow>
     distinct (map turn_key_of (turn_rows C u sts)) \<and> distinct (map operation_key (operation_rows C u sts))
     \<and> distinct (map touch_key (touch_rows_of u sts)) \<and> distinct (map signal_key (signal_rows u sts))"
  by (auto simp: rows_fit_def fresh_rows_def clear_session_projection_def turn_key_of_def
      operation_key_def touch_key_def signal_key_def dest: sessions_of_rows)

lemma own_tables_full:
  "session_tables (with_rows C u (clear_session_projection pd u) sts) u = tables_of C u sts"
  by (simp add: session_tables_def with_rows_def clear_session_projection_def tables_of_def filter_rows)

lemma refresh_tables [simp]:
  "session_tables (refresh_timeline_session_state pd u) v = session_tables pd v"
  by (simp add: session_tables_def refresh_timeline_session_state_def Let_def)

text \<open>What the tables look like after a suffix was replaced.\<close>

lemma turn_ids_of_rows:
  "r \<in> set (turn_rows C u sts) \<Longrightarrow> tt_turn_id r \<in> (\<lambda>st. t_id (st_turn st)) ` set sts"
  "r1 \<in> set (operation_rows C u sts) \<Longrightarrow> or_turn_id r1 \<in> (\<lambda>st. t_id (st_turn st)) ` set sts"
  "r2 \<in> set (touch_rows_of u sts) \<Longrightarrow> tf_turn_id r2 \<in> (\<lambda>st. t_id (st_turn st)) ` set sts"
  "r3 \<in> set (signal_rows u sts) \<Longrightarrow> sg_turn_id r3 \<in> (\<lambda>st. t_id (st_turn st)) ` set sts"
  by (auto simp: rows_defs)

lemma rows_append:
  "turn_rows C u (xs @ ys) = turn_rows C u xs @ turn_rows C u ys"
  "operation_rows C u (xs @ ys) = operation_rows C u xs @ operation_rows C u ys"
  "touch_rows_of u (xs @ ys) = touch_rows_of u xs @ touch_rows_of u ys"
  "signal_rows u (xs @ ys) = signal_rows u xs @ signal_rows u ys"
  by (simp_all add: rows_defs)

lemma cut_rows:
  assumes "filter (\<lambda>r. sess r = u) rows = as @ bs"
    and "\<And>r. r \<in> set as \<Longrightarrow> tid r < n" and "\<And>r. r \<in> set bs \<Longrightarrow> n \<le> (tid r :: int)"
  shows "filter (\<lambda>r. sess r = u) (filter (\<lambda>r. \<not> (sess r = u \<and> n \<le> tid r)) rows) = as"
proof -
  have "filter (\<lambda>r. sess r = u) (filter (\<lambda>r. \<not> (sess r = u \<and> n \<le> tid r)) rows)
      = filter (\<lambda>r. \<not> n \<le> tid r) (filter (\<lambda>r. sess r = u) rows)"
    by (induction rows) auto
  also have "\<dots> = filter (\<lambda>r. \<not> n \<le> tid r) as @ filter (\<lambda>r. \<not> n \<le> tid r) bs"
    using assms(1) by simp
  also have "filter (\<lambda>r. \<not> n \<le> tid r) as = as" by (rule filter_True) (use assms(2) in force)
  also have "filter (\<lambda>r. \<not> n \<le> tid r) bs = []" by (rule filter_none) (use assms(3) in force)
  finally show ?thesis by simp
qed

lemma own_tables_from:
  assumes "session_tables pd u = tables_of C u (xs @ ys)"
    and "\<And>st. st \<in> set xs \<Longrightarrow> t_id (st_turn st) < n" and "\<And>st. st \<in> set ys \<Longrightarrow> n \<le> t_id (st_turn st)"
  shows "session_tables (clear_session_projection_from pd u n) u = tables_of C u xs"
proof -
  have t: "filter (\<lambda>r. tt_session r = u) (pd_turns pd) = turn_rows C u xs @ turn_rows C u ys"
    "filter (\<lambda>r. or_session r = u) (pd_operations pd) = operation_rows C u xs @ operation_rows C u ys"
    "filter (\<lambda>r. tf_session r = u) (pd_touches pd) = touch_rows_of u xs @ touch_rows_of u ys"
    "filter (\<lambda>r. sg_session r = u) (pd_signals pd) = signal_rows u xs @ signal_rows u ys"
    using assms(1) by (simp_all add: session_tables_def tables_of_def rows_append)
  have ids: "i \<in> (\<lambda>st. t_id (st_turn st)) ` set xs \<Longrightarrow> i < n"
    "i \<in> (\<lambda>st. t_id (st_turn st)) ` set ys \<Longrightarrow> n \<le> i" for i
    using assms(2,3) by auto
  have "filter (\<lambda>r. tt_session r = u) (pd_turns (clear_session_projection_from pd u n)) = turn_rows C u xs"
    "filter (\<lambda>r. or_session r = u) (pd_operations (clear_session_projection_from pd u n)) = operation_rows C u xs"
    "filter (\<lambda>r. tf_session r = u) (pd_touches (clear_session_projection_from pd u n)) = touch_rows_of u xs"
    "filter (\<lambda>r. sg_session r = u) (pd_signals (clear_session_projection_from pd u n)) = signal_rows u xs"
    using cut_rows [OF t(1), where tid = tt_turn_id and n = n] cut_rows [OF t(2), where tid = or_turn_id and n = n]
      cut_rows [OF t(3), where tid = tf_turn_id and n = n] cut_rows [OF t(4), where tid = sg_turn_id and n = n]
    by (simp_all del: filter_filter add: clear_session_projection_from_def ids turn_ids_of_rows [THEN ids(1)]
        turn_ids_of_rows [THEN ids(2)])
  then show ?thesis by (simp add: session_tables_def tables_of_def)
qed

section \<open>Grouping from the last turn\<close>

lemma group_event_last:
  "ts \<noteq> [] \<Longrightarrow> group_event ts e = butlast ts @ group_event [last ts] e"
  by (cases ts rule: rev_cases) (auto simp: group_event_def)

lemma group_event_nonempty [simp]: "group_event ts e \<noteq> []"
  by (simp add: group_event_def)

lemma group_fold_last:
  "ts \<noteq> [] \<Longrightarrow> foldl group_event ts es = butlast ts @ foldl group_event [last ts] es"
proof (induction es arbitrary: ts)
  case (Cons e es)
  have "foldl group_event ts (e # es) = foldl group_event (butlast ts @ group_event [last ts] e) es"
    using Cons.prems by (simp add: group_event_last [of ts])
  also have "\<dots> = butlast ts @ foldl group_event (group_event [last ts] e) es"
    by (subst (1 2) Cons.IH) (simp_all add: butlast_append)
  finally show ?case by simp
qed simp

text \<open>A turn is what grouping makes of its own events, if these start with its prompt or it has none.\<close>

lemma group_pushes:
  "list_all (\<lambda>e. \<not> is_real_user_prompt e) es \<Longrightarrow> foldl group_event [t] es = [foldl push_event t es]"
  by (induction es arbitrary: t) (simp_all add: group_event_def)

lemma push_events_fields:
  "es \<noteq> [] \<Longrightarrow> foldl push_event t es =
     t\<lparr>sd_events := sd_events t @ es, sd_end := se_timestamp (last es),
       sd_duration_ms := duration_ms_between (sd_start t) (se_timestamp (last es))\<rparr>"
  by (induction es arbitrary: t rule: list_nonempty_induct) (auto simp: push_event_def)

lemma group_one_turn:
  assumes "seed_ok t"
  shows "group_into_turns (sd_events t) = [t]"
proof -
  obtain e es where t: "sd_events t = e # es"
    using assms by (cases "sd_events t") (auto simp: seed_ok_def)
  have rest: "list_all (\<lambda>e. \<not> is_real_user_prompt e) es" using assms t by (simp add: seed_ok_def)
  let ?s = "if is_real_user_prompt e then new_turn True e else push_event (new_turn False e) e"
  have "group_into_turns (sd_events t) = [foldl push_event ?s es]"
    using group_pushes [OF rest] by (simp add: group_into_turns_def t group_event_def)
  also have "foldl push_event ?s es = t"
    using assms t
    by (cases "es = []")
       (auto simp: push_events_fields seed_ok_def new_turn_def push_event_def duration_ms_between_def)
  finally show ?thesis .
qed

lemma group_split:
  assumes "group_into_turns es = ts @ [t]"
  shows "group_into_turns (es @ fs) = ts @ group_into_turns (sd_events t @ fs)"
proof -
  have "seed_ok t" using group_ok [of es] assms by (simp add: turns_ok_snoc)
  then have one: "foldl group_event [] (sd_events t) = [t]"
    using group_one_turn by (simp add: group_into_turns_def)
  have "group_into_turns (es @ fs) = foldl group_event (ts @ [t]) fs"
    using assms by (simp add: group_into_turns_def)
  also have "\<dots> = ts @ foldl group_event [t] fs" by (simp add: group_fold_last [of "ts @ [t]"])
  also have "foldl group_event [t] fs = group_into_turns (sd_events t @ fs)"
    using one by (simp add: group_into_turns_def)
  finally show ?thesis .
qed

section \<open>Sub-agents that stay in their turn\<close>

text \<open>The task calls of a turn: identifier of the call and identifier of its event.\<close>

definition task_calls :: "turn_seed \<Rightarrow> (string \<times> string option) list" where
  "task_calls t =
     map (\<lambda>(i, tool, e). (i, se_event_uuid e))
       (filter (\<lambda>(i, tool, e). pair_operation_type (pair_of i tool None None) = ''task'' \<and> i \<noteq> [])
          (sc_uses (scan_turn (sd_events t))))"

definition same_subagents :: "stored_event list \<Rightarrow> stored_event list \<Rightarrow> turn_seed \<Rightarrow> bool" where
  "same_subagents es fs t \<longleftrightarrow>
     list_all (\<lambda>(i, uuid). collect_subagent_events es i uuid = collect_subagent_events fs i uuid)
       (task_calls t)"

lemma pair_operation_type_of:
  "pair_operation_type (pair_of i tool r sub) = unwrap_or (tu_name tool) (tu_operation_type tool)"
  by (simp add: pair_operation_type_def pair_of_def)

lemma tp_id_pair_of [simp]: "tp_id (pair_of i tool r sub) = i"
  by (simp add: pair_of_def)

lemma pair_same:
  assumes "same_subagents es fs t" and "u \<in> set (sc_uses (scan_turn (sd_events t)))"
  shows "pair_with_link (project_subagent X es) rs u = pair_with_link (project_subagent X fs) rs u"
proof -
  obtain i tool e where u: "u = (i, tool, e)" by (cases u)
  have "collect_subagent_events es i (se_event_uuid e) = collect_subagent_events fs i (se_event_uuid e)"
    if "unwrap_or (tu_name tool) (tu_operation_type tool) = ''task''" "i \<noteq> []"
    using assms that u
    by (auto simp: same_subagents_def task_calls_def list_all_iff pair_operation_type_of)
  then show ?thesis
    by (auto simp: u pair_with_link_def Let_def pair_operation_type_of project_subagent_def)
qed

lemma project_same:
  assumes "same_subagents es fs t"
  shows "project_turn X t es f True = project_turn X t fs f True"
proof -
  have "map (pair_with_link (project_subagent X es) rs) (sc_uses (scan_turn (sd_events t)))
      = map (pair_with_link (project_subagent X fs) rs) (sc_uses (scan_turn (sd_events t)))" for rs
    using pair_same [OF assms] by auto
  then show ?thesis by (simp only: project_turn_def project_turn_with_def Let_def if_True)
qed

lemma stored_same:
  "same_subagents es fs t \<Longrightarrow> stored_turn_of X v es ctx (n, t) = stored_turn_of X v fs ctx (n, t)"
  using project_same [of es fs t X default_filters] by (simp add: stored_turn_of_def)

text \<open>Ordinals are the only thing the position of a turn decides.\<close>

lemma as_i32_add: "add_i32 (as_i32 m) (as_i32 n) = as_i32 (m + n)"
  by (simp add: add_i32_def as_i32_def)

lemma stored_turn_shift:
  "stored_turn_of X v es ctx (m + n, t)
     = map_option (\<lambda>st. st\<lparr>st_turn_ord := add_i32 (as_i32 m) (as_i32 n)\<rparr>) (stored_turn_of X v es ctx (n, t))"
  by (cases "project_turn X t es default_filters True")
     (simp_all add: stored_turn_of_def as_i32_add Let_def)

section \<open>When the incremental rebuild is the full one\<close>

definition projection_of ::
    "projection_env \<Rightarrow> ingest_db \<Rightarrow> projection_db \<Rightarrow> uuid \<Rightarrow> stored_event list \<Rightarrow> stored_turn list option" where
  "projection_of E db pd u es =
     build_session_projection (pe_text E) (pe_fs E) es (load_file_touch_context db pd u)"

definition projection_current ::
    "projection_env \<Rightarrow> ingest_db \<Rightarrow> projection_db \<Rightarrow> uuid \<Rightarrow> stored_event list \<Rightarrow> bool" where
  "projection_current E db pd u es \<longleftrightarrow>
     (case projection_of E db pd u es of
        None \<Rightarrow> False
      | Some sts \<Rightarrow> session_tables pd u = tables_of (pe_codec E) u sts)"

definition in_order :: "stored_event list \<Rightarrow> bool" where
  "in_order es \<longleftrightarrow>
     sorted_wrt (\<lambda>a b. se_byte_offset a < se_byte_offset b \<and> se_timestamp a \<le> se_timestamp b) es"

definition subagents_local :: "stored_event list \<Rightarrow> stored_event list \<Rightarrow> bool" where
  "subagents_local old new \<longleftrightarrow>
     (let ts = group_into_turns old; rebuilt = sd_events (last ts) @ new
      in ts = [] \<or>
         list_all (same_subagents (old @ new) old) (butlast ts)
         \<and> list_all (same_subagents (old @ new) rebuilt) (group_into_turns rebuilt))"

lemma descend_none [simp]: "descend_levels ch [] = Some []"
  by (subst descend_levels.simps) simp

lemma source_events:
  assumes "children_of db pd u = []" and "in_order (load_all_session_events (pd_rules pd) db u)"
  shows "load_projection_source_events L db pd u = Some (load_all_session_events (pd_rules pd) db u)"
proof -
  let ?es = "load_all_session_events (pd_rules pd) db u"
  have "sorted (map se_timestamp ?es)"
    using assms(2) by (auto simp: in_order_def sorted_wrt_map elim: sorted_wrt_mono_rel [rotated])
  then have "sort_key se_timestamp (sort_key se_byte_offset ?es) = ?es"
    by (simp add: load_sorted sort_key_id_if_sorted)
  then show ?thesis
    using assms(1) by (simp add: load_projection_source_events_def descendant_session_ids_def Let_def)
qed

lemma stored_turn_fields:
  assumes "stored_turn_of X v es ctx (n, t) = Some st"
  shows "t_id (st_turn st) = sd_id t" and "st_turn_ord st = as_i32 n"
proof -
  have "t_id (with_tool_pairs q ps) = t_id q" for q ps by (cases q) simp
  then show "t_id (st_turn st) = sd_id t" "st_turn_ord st = as_i32 n"
    using assms
    by (auto simp: stored_turn_of_def project_turn_def project_turn_with_def Let_def
        apply_operation_file_touches_def split: bind_splits)
qed

lemma heads_ordered:
  assumes "sorted_wrt R (concat (map f ts))" and "\<And>t. t \<in> set ts \<Longrightarrow> f t \<noteq> []"
  shows "sorted_wrt (\<lambda>a b. R (hd (f a)) (hd (f b))) ts"
  using assms
proof (induction ts)
  case (Cons t ts)
  have "hd (f t) \<in> set (f t)" "\<And>b. b \<in> set ts \<Longrightarrow> hd (f b) \<in> set (f b)"
    using Cons.prems(2) by simp_all
  then show ?case using Cons by (auto simp: sorted_wrt_append)
qed simp

lemma turn_ids_ascend:
  assumes "in_order es"
  shows "sorted_wrt (<) (map sd_id (group_into_turns es))"
proof -
  let ?ts = "group_into_turns es"
  have ok: "seed_ok t" if "t \<in> set ?ts" for t
    using that group_ok [of es] by (simp add: turns_ok_def list_all_iff)
  have "sorted_wrt (\<lambda>a b. se_byte_offset (hd (sd_events a)) < se_byte_offset (hd (sd_events b))) ?ts"
    using heads_ordered [of _ sd_events ?ts] ok assms
    by (fastforce simp: group_concat in_order_def seed_ok_def elim: sorted_wrt_mono_rel [rotated])
  then have "sorted_wrt (\<lambda>a b. sd_id a < sd_id b) ?ts"
    by (rule sorted_wrt_mono_rel [rotated]) (use ok in \<open>simp add: seed_ok_def\<close>)
  then show ?thesis by (simp add: sorted_wrt_map)
qed

lemma projection_turns:
  assumes "projection_of E db pd u es = Some sts"
  shows "map (stored_turn_of (pe_text E) (pe_fs E) es (load_file_touch_context db pd u))
      (enumerate 0 (group_into_turns es)) = map Some sts"
  using assms by (simp add: projection_of_def build_session_projection_def those_Some_iff)

lemma projection_ids:
  assumes "map (stored_turn_of X v es ctx) (enumerate n ts) = map Some sts"
  shows "map (\<lambda>st. t_id (st_turn st)) sts = map sd_id ts"
    and "map st_turn_ord sts = map as_i32 [n..<n + length ts]"
proof -
  have l: "length sts = length ts" using assms by (metis length_enumerate length_map)
  have e: "stored_turn_of X v es ctx (n + i, ts ! i) = Some (sts ! i)" if "i < length ts" for i
    using that l arg_cong [OF assms, of "\<lambda>xs. xs ! i"] by (simp add: nth_enumerate_eq)
  show "map (\<lambda>st. t_id (st_turn st)) sts = map sd_id ts"
    using l stored_turn_fields(1) [OF e] by (auto intro!: nth_equalityI)
  show "map st_turn_ord sts = map as_i32 [n..<n + length ts]"
    using l stored_turn_fields(2) [OF e] by (auto intro!: nth_equalityI)
qed

lemma anchor_is_last_turn:
  assumes "projection_current E db pd u old" and "in_order old"
    and "group_into_turns old = ts @ [t]" and "\<And>e. e \<in> set old \<Longrightarrow> se_byte_offset e < off"
  shows "projection_rebuild_anchor pd u off = Some (sd_id t, as_i32 (length ts))"
proof -
  obtain sts where sts: "projection_of E db pd u old = Some sts"
    "session_tables pd u = tables_of (pe_codec E) u sts"
    using assms(1) by (auto simp: projection_current_def split: option.splits)
  note ids = projection_ids [OF projection_turns [OF sts(1)]]
  have rows: "filter (\<lambda>r. tt_session r = u) (pd_turns pd) = turn_rows (pe_codec E) u sts"
    using sts(2) by (simp add: session_tables_def tables_of_def)
  have row_ids: "map tt_turn_id (turn_rows (pe_codec E) u sts) = map sd_id (ts @ [t])"
    using ids(1) assms(3) by (simp add: turn_rows_def o_def)
  have "sd_id s < off" if "s \<in> set (ts @ [t])" for s
  proof -
    have "seed_ok s" using that group_ok [of old] assms(3) by (auto simp: turns_ok_def list_all_iff)
    moreover from this have "hd (sd_events s) \<in> set old"
      using that assms(3) group_concat [of old] by (force simp: seed_ok_def)
    ultimately show ?thesis using assms(4) by (simp add: seed_ok_def)
  qed
  then have below: "list_all (\<lambda>i. i \<le> off) (map tt_turn_id (turn_rows (pe_codec E) u sts))"
    unfolding row_ids by (auto simp: list_all_iff less_imp_le)
  have "filter (\<lambda>r. tt_session r = u \<and> tt_turn_id r \<le> off) (pd_turns pd)
      = filter (\<lambda>r. tt_turn_id r \<le> off) (turn_rows (pe_codec E) u sts)"
    unfolding rows [symmetric] by (simp add: conj_commute)
  also have "\<dots> = turn_rows (pe_codec E) u sts"
    by (rule filter_True) (use below in \<open>simp add: list_all_iff\<close>)
  finally have sel: "filter (\<lambda>r. tt_session r = u \<and> tt_turn_id r \<le> off) (pd_turns pd)
      = turn_rows (pe_codec E) u sts" .
  have "sorted (map tt_turn_id (turn_rows (pe_codec E) u sts))"
    using turn_ids_ascend [OF assms(2)] unfolding row_ids assms(3) by (rule strict_sorted_imp_sorted)
  then have srt: "sort_key tt_turn_id (turn_rows (pe_codec E) u sts) = turn_rows (pe_codec E) u sts"
    by (rule sort_key_id_if_sorted)
  obtain us st where us: "sts = us @ [st]"
    using ids(1) assms(3) by (cases sts rule: rev_cases) auto
  have "length us = length ts" using ids(1) assms(3) us by (metis length_append_singleton length_map nat.inject)
  then have "st_turn_ord st = as_i32 (length ts)" "t_id (st_turn st) = sd_id t"
    using ids assms(3) us by simp_all
  moreover have "tt_turn_ord (turn_row_of (pe_codec E) u st) = st_turn_ord st"
    by (simp add: turn_row_of_def Let_def)
  ultimately show ?thesis
    unfolding projection_rebuild_anchor_def sel srt Let_def by (simp add: turn_rows_def us)
qed

lemma enumerate_shift: "enumerate m xs = map (\<lambda>(n, x). (m + n, x)) (enumerate 0 xs)"
  by (rule nth_equalityI) (simp_all add: nth_enumerate_eq)

lemma rebuilt_suffix:
  assumes "map (stored_turn_of X v es ctx) (enumerate m ss) = map Some bs"
    and "\<And>s. s \<in> set ss \<Longrightarrow> same_subagents es fs s"
  shows "\<exists>bs'. map (stored_turn_of X v fs ctx) (enumerate 0 ss) = map Some bs'
           \<and> shift_ords (as_i32 m) bs' = bs"
proof -
  let ?f = "\<lambda>i. stored_turn_of X v fs ctx (i, ss ! i)"
  have l: "length bs = length ss" using assms(1) by (metis length_enumerate length_map)
  have step: "map_option (\<lambda>st. st\<lparr>st_turn_ord := add_i32 (as_i32 m) (as_i32 i)\<rparr>) (?f i) = Some (bs ! i)"
    if "i < length ss" for i
  proof -
    have "stored_turn_of X v es ctx (m + i, ss ! i) = Some (bs ! i)"
      using that l arg_cong [OF assms(1), of "\<lambda>xs. xs ! i"] by (simp add: nth_enumerate_eq)
    then show ?thesis
      using stored_same [OF assms(2) [OF nth_mem [OF that]], of X v ctx i]
      by (simp add: stored_turn_shift)
  qed
  then have some: "i < length ss \<Longrightarrow> ?f i \<noteq> None" for i by fastforce
  let ?bs' = "map (\<lambda>i. the (?f i)) [0..<length ss]"
  have "map (stored_turn_of X v fs ctx) (enumerate 0 ss) = map Some ?bs'"
    by (rule nth_equalityI) (simp_all add: nth_enumerate_eq some)
  moreover have "shift_ords (as_i32 m) ?bs' = bs"
    by (rule nth_equalityI) (use l step in \<open>force simp: shift_ords_def nth_enumerate_eq\<close>)+
  ultimately show ?thesis by blast
qed

lemma shifted_ids: "map (\<lambda>st. t_id (st_turn st)) (shift_ords b sts) = map (\<lambda>st. t_id (st_turn st)) sts"
  by (rule nth_equalityI) (simp_all add: shift_ords_def nth_enumerate_eq)

text \<open>Rows that fit after the prefix of a session fit where the prefix is all that was kept.\<close>

lemma fresh_suffix:
  assumes "distinct (map key (as @ bs))" and "filter (\<lambda>r. sess r = u) rows = as"
    and "\<And>r. r \<in> set bs \<Longrightarrow> sess r = u" and "\<And>r. fst (key r) = sess r"
  shows "fresh_rows key rows bs"
proof -
  have "key r \<noteq> key q" if "r \<in> set bs" "q \<in> set rows" for r q
  proof (cases "sess q = u")
    case True
    then have "q \<in> set as" using assms(2) that(2) by auto
    then show ?thesis using assms(1) that(1) by (metis disjoint_iff distinct_append imageI map_append set_map)
  next
    case False
    then show ?thesis using assms(3,4) that(1) by metis
  qed
  then have "key ` set bs \<inter> key ` set rows = {}" by blast
  then show ?thesis using assms(1) by (simp add: fresh_rows_def)
qed

lemma suffix_fits:
  assumes "rows_fit C u (clear_session_projection pd u) (xs @ ys)"
    and "session_tables cl u = tables_of C u xs"
  shows "rows_fit C u cl ys"
proof -
  have d: "distinct (map turn_key_of (turn_rows C u xs @ turn_rows C u ys))"
    "distinct (map operation_key (operation_rows C u xs @ operation_rows C u ys))"
    "distinct (map touch_key (touch_rows_of u xs @ touch_rows_of u ys))"
    "distinct (map signal_key (signal_rows u xs @ signal_rows u ys))"
    using assms(1) unfolding rows_fit_cleared rows_append by blast+
  have t: "filter (\<lambda>r. tt_session r = u) (pd_turns cl) = turn_rows C u xs"
    "filter (\<lambda>r. or_session r = u) (pd_operations cl) = operation_rows C u xs"
    "filter (\<lambda>r. tf_session r = u) (pd_touches cl) = touch_rows_of u xs"
    "filter (\<lambda>r. sg_session r = u) (pd_signals cl) = signal_rows u xs"
    using assms(2) by (simp_all add: session_tables_def tables_of_def)
  show ?thesis
    unfolding rows_fit_def
    by (intro conjI fresh_suffix [OF d(1) t(1)] fresh_suffix [OF d(2) t(2)]
          fresh_suffix [OF d(3) t(3)] fresh_suffix [OF d(4) t(4)])
       (simp_all add: sessions_of_rows turn_key_of_def operation_key_def touch_key_def signal_key_def)
qed

lemma states_agree:
  assumes "session_tables p u = session_tables q u" and "pd_states p = pd_states q"
  shows "pd_states (refresh_timeline_session_state p u) = pd_states (refresh_timeline_session_state q u)"
  using assms by (simp add: refresh_timeline_session_state_def session_tables_def Let_def)

end
