(* ===== verification/Timeline_Touches.thy ===== *)
theory Timeline_Touches
  imports Timeline_Derived Timeline_Turns
begin

text \<open>
  What holds of file touches and of stored projections: a relative candidate never leaves
  the repository, an absolute one can, and the stored rows are numbered and refer to each
  other.
\<close>

section \<open>Relative candidates\<close>

definition plain :: "string \<Rightarrow> bool" where
  "plain p \<longleftrightarrow> \<not> skipped p \<and> p \<noteq> ''..'' \<and> slash \<notin> set p"

lemma split_char_pieces: "p \<in> set (split_char d s) \<Longrightarrow> d \<notin> set p"
  by (induction s arbitrary: p) (auto split: list.splits if_splits)

lemma split_char_none: "d \<notin> set s \<Longrightarrow> split_char d s = [s]"
  by (induction s) auto

lemma split_char_sep: "d \<notin> set s \<Longrightarrow> split_char d (s @ d # r) = s # split_char d r"
  by (induction s) auto

lemma split_char_join:
  "segs \<noteq> [] \<Longrightarrow> \<forall>p \<in> set segs. d \<notin> set p \<Longrightarrow> split_char d (join [d] segs) = segs"
  by (induction "[d]" segs rule: join.induct) (auto simp: split_char_none split_char_sep)

lemma components_plain: "Normal p \<in> set (components s) \<Longrightarrow> plain p"
  using split_char_pieces by (auto simp: components_def plain_def skipped_def split: if_splits)

lemma walk_plain:
  "walk root current cs = Some end_path \<Longrightarrow> \<forall>p. Normal p \<in> set cs \<longrightarrow> plain p \<Longrightarrow>
     \<forall>p \<in> set current. plain p \<Longrightarrow> \<forall>p \<in> set end_path. plain p"
  by (induction root current cs rule: walk.induct) (auto split: if_splits dest: in_set_butlastD)

lemma plain_join:
  assumes "segs \<noteq> []" and "\<forall>p \<in> set segs. plain p"
  shows "components (join [slash] segs) = map Normal segs" and "join [slash] segs \<noteq> []"
    and "path_join root (join [slash] segs) = root @ segs"
proof -
  have sp: "split_char slash (join [slash] segs) = segs"
    by (rule split_char_join) (use assms in \<open>auto simp: plain_def\<close>)
  have fl: "filter (\<lambda>p. \<not> skipped p) segs = segs"
    using assms(2) by (simp add: filter_id_conv plain_def)
  obtain c cs ss where c: "segs = (c # cs) # ss" "c \<noteq> slash"
    using assms by (cases segs) (auto simp: plain_def skipped_def neq_Nil_conv)
  then obtain r where r: "join [slash] segs = c # r" by (cases ss) auto
  with c have na: "\<not> is_absolute (join [slash] segs)" by (simp add: is_absolute_def starts_with_def)
  have "hd segs \<noteq> ''.''" using assms by (cases segs) (auto simp: plain_def skipped_def)
  then show "components (join [slash] segs) = map Normal segs"
    using na sp fl assms(2) by (auto simp: components_def plain_def)
  show "join [slash] segs \<noteq> []" using r by simp
  show "path_join root (join [slash] segs) = root @ segs"
    by (simp add: path_join_def sp fl)
qed

text \<open>
  \<open>inside fs root rel\<close>: \<open>rel\<close> is made of ordinary names only, and what it leads to, if it
  exists, is really below the root, links resolved.
\<close>

definition inside :: "fs_view \<Rightarrow> fs_path \<Rightarrow> string \<Rightarrow> bool" where
  "inside fs root rel \<longleftrightarrow>
     (\<exists>segs. segs \<noteq> [] \<and> list_all plain segs \<and> rel = join [slash] segs
       \<and> (fs_exists fs (root @ segs) \<longrightarrow>
            (\<exists>rr tr. fs_canonicalize fs root = Some rr \<and> fs_canonicalize fs (root @ segs) = Some tr
               \<and> under tr rr)))"

lemma normalize_relative_inside:
  assumes "normalize_relative_candidate fs root base candidate = Some rel"
    and "list_all plain base"
  shows "inside fs root rel"
proof -
  from assms(1) obtain current where c: "walk root base (components candidate) = Some current"
    "under current root"
    by (auto simp: normalize_relative_candidate_def split: option.splits if_splits)
  define segs where "segs = drop (length root) current"
  have r: "join [slash] segs \<noteq> []" "\<exists>t. resolve_in_repo fs root (join [slash] segs) = Inr (t, rel)"
    using assms(1) c(1,2)
    by (auto simp: normalize_relative_candidate_def segs_def Let_def split: if_splits sum.splits)
  have pl: "\<forall>p \<in> set current. plain p"
    by (rule walk_plain [OF c(1)]) (use components_plain assms(2) in \<open>auto simp: list_all_iff\<close>)
  then have ps: "\<forall>p \<in> set segs. plain p" unfolding segs_def by (meson in_set_dropD)
  have ne: "segs \<noteq> []" using r(1) by auto
  note pj = plain_join [OF ne ps]
  from r(2) have "rel = join [slash] segs"
    by (auto simp: resolve_in_repo_def Let_def split: if_splits option.splits)
  moreover have "fs_exists fs (root @ segs) \<longrightarrow> (\<exists>rr tr. fs_canonicalize fs root = Some rr
      \<and> fs_canonicalize fs (root @ segs) = Some tr \<and> under tr rr)"
    using r(2) pj by (auto simp: resolve_in_repo_def Let_def split: if_splits option.splits)
  ultimately show ?thesis
    unfolding inside_def using ne ps by (auto simp: list_all_iff)
qed

lemma normalize_candidate_inside:
  assumes "normalize_candidate fs ctx raw = Some rel" and "\<not> is_absolute (trim raw)"
    and "list_all plain (fc_repo_root ctx)" and "list_all plain (fc_working_dir ctx)"
  shows "inside fs (fc_repo_root ctx) rel"
proof -
  from assms(1,2) consider
      "normalize_relative_candidate fs (fc_repo_root ctx) (fc_repo_root ctx) (trim raw) = Some rel"
    | "normalize_relative_candidate fs (fc_repo_root ctx) (fc_working_dir ctx) (trim raw) = Some rel"
    by (auto simp: normalize_candidate_def Let_def or_else_def split: if_splits option.splits)
  then show ?thesis using normalize_relative_inside assms(3,4) by cases blast+
qed

section \<open>Touches\<close>

definition touch_candidates :: "tool_pair \<Rightarrow> string list" where
  "touch_candidates p =
     (case Option.bind (tp_input p) as_object of None \<Rightarrow> [] | Some input \<Rightarrow> structured_candidates input)
     @ command_candidates p"

definition touch_ok ::
    "fs_view \<Rightarrow> file_touch_context \<Rightarrow> tool_pair \<Rightarrow> string list \<Rightarrow> file_touch \<Rightarrow> bool" where
  "touch_ok fs ctx p raws t \<longleftrightarrow>
     ft_repo t = fc_repo_name ctx \<and> ft_touch_kind t = touch_kind_for_pair p
     \<and> ft_is_write t = is_write_pair p
     \<and> (\<exists>raw \<in> set raws. normalize_candidate fs ctx raw = Some (ft_path t))"

lemma push_touch_fold:
  assumes "foldl (push_touch fs ctx (touch_kind_for_pair p) (is_write_pair p)) (out, seen) raws
      = (out', seen')"
    and "seen = (\<lambda>t. (ft_path t, touch_kind_for_pair p)) ` set out" and "distinct (map ft_path out)"
    and "set raws \<subseteq> set all" and "\<forall>t \<in> set out. touch_ok fs ctx p all t"
  shows "distinct (map ft_path out') \<and> (\<forall>t \<in> set out'. touch_ok fs ctx p all t)
    \<and> (\<forall>raw \<in> set raws. \<forall>rel. normalize_candidate fs ctx raw = Some rel \<longrightarrow> rel \<in> ft_path ` set out')
    \<and> set out \<subseteq> set out'"
  using assms
proof (induction raws arbitrary: out seen)
  case (Cons raw raws)
  let ?step = "push_touch fs ctx (touch_kind_for_pair p) (is_write_pair p)"
  obtain out1 seen1 where s1: "?step (out, seen) raw = (out1, seen1)" by fastforce
  have f: "foldl ?step (out1, seen1) raws = (out', seen')" using Cons.prems(1) s1 by simp
  have a: "seen1 = (\<lambda>t. (ft_path t, touch_kind_for_pair p)) ` set out1"
    using s1 Cons.prems(2) by (auto simp: push_touch_def split: option.splits if_splits)
  have b: "distinct (map ft_path out1)"
    using s1 Cons.prems(2,3) by (auto simp: push_touch_def split: option.splits if_splits)
  have "raw \<in> set all" using Cons.prems(4) by simp
  then have new: "touch_ok fs ctx p all \<lparr>ft_repo = fc_repo_name ctx, ft_path = x,
      ft_touch_kind = touch_kind_for_pair p, ft_is_write = is_write_pair p\<rparr>"
    if "normalize_candidate fs ctx raw = Some x" for x
    using that by (auto simp: touch_ok_def)
  have c: "\<forall>t \<in> set out1. touch_ok fs ctx p all t"
    using s1 Cons.prems(5) new by (auto simp: push_touch_def split: option.splits if_splits)
  have d: "set out \<subseteq> set out1" "normalize_candidate fs ctx raw = Some rel \<Longrightarrow> rel \<in> ft_path ` set out1"
    for rel using s1 Cons.prems(2) by (auto simp: push_touch_def split: option.splits if_splits)
  from Cons.IH [OF f a b _ c] Cons.prems(4) d show ?case by auto (meson image_iff subsetD)
qed auto

text \<open>
  Every file touch of a tool pair belongs to the context's repository, has the
  kind and the write flag of the pair's operation, and comes from a text of its input or
  command; each path is reported once. A path that was not given as an absolute one is made
  of ordinary names only and does not leave the repository, links resolved.
\<close>

theorem relative_touches_stay_inside:
  assumes "list_all plain (fc_repo_root ctx)" and "list_all plain (fc_working_dir ctx)"
  shows "distinct (map ft_path (extract_file_touches fs p (Some ctx)))
    \<and> (\<forall>t \<in> set (extract_file_touches fs p (Some ctx)).
         touch_ok fs ctx p (touch_candidates p) t
         \<and> (inside fs (fc_repo_root ctx) (ft_path t)
            \<or> (\<exists>raw \<in> set (touch_candidates p). is_absolute (trim raw)
                 \<and> normalize_candidate fs ctx raw = Some (ft_path t))))"
proof -
  obtain out seen where o: "foldl (push_touch fs ctx (touch_kind_for_pair p) (is_write_pair p))
      ([], {}) (touch_candidates p) = (out, seen)" by fastforce
  then have e: "extract_file_touches fs p (Some ctx) = out"
    by (simp add: extract_file_touches_def touch_candidates_def)
  from push_touch_fold [OF o, of "touch_candidates p"]
  have k: "distinct (map ft_path out)" "\<forall>t \<in> set out. touch_ok fs ctx p (touch_candidates p) t"
    by auto
  then have "\<forall>t \<in> set out. inside fs (fc_repo_root ctx) (ft_path t)
      \<or> (\<exists>raw \<in> set (touch_candidates p). is_absolute (trim raw)
                 \<and> normalize_candidate fs ctx raw = Some (ft_path t))"
    using normalize_candidate_inside [OF _ _ assms] unfolding touch_ok_def by blast
  with k e show ?thesis by blast
qed

definition sample_fs :: fs_view where
  "sample_fs =
     \<lparr>fs_exists = (\<lambda>_. False), fs_is_dir = (\<lambda>_. False), fs_canonicalize = (\<lambda>p. Some p)\<rparr>"

definition sample_context :: file_touch_context where
  "sample_context =
     \<lparr>fc_repo_name = ''alpha'', fc_repo_root = [''tmp'', ''alpha''],
      fc_working_dir = [''tmp'', ''alpha'', ''src'']\<rparr>"

definition read_pair :: "string \<Rightarrow> tool_pair" where
  "read_pair path =
     ToolPair ''t'' ''read'' None None None (Some (JObj [(''path'', JStr path)])) None False True [] None"

theorem relative_touches_stay_inside_witness:
  "distinct (map ft_path (extract_file_touches sample_fs (read_pair ''../Cargo.toml'') (Some sample_context)))
   \<and> ft_path ` set (extract_file_touches sample_fs (read_pair ''../Cargo.toml'') (Some sample_context))
       = {''Cargo.toml''}"
proof (intro conjI)
  show "distinct (map ft_path (extract_file_touches sample_fs (read_pair ''../Cargo.toml'') (Some sample_context)))"
    by (rule relative_touches_stay_inside [THEN conjunct1])
       (simp_all add: sample_context_def plain_def skipped_def)
  show "ft_path ` set (extract_file_touches sample_fs (read_pair ''../Cargo.toml'') (Some sample_context))
      = {''Cargo.toml''}"
    by code_simp
qed

text \<open>
  An absolute path is only stripped of the root's components, so dots after the
  root stay: reading \<open>/tmp/alpha/../key\<close> in the repository at \<open>/tmp/alpha\<close> is recorded as a
  touch of \<open>../key\<close> in it, while the same file given relative to the root is refused.
\<close>

theorem absolute_touch_escapes:
  "map ft_path (extract_file_touches sample_fs (read_pair ''/tmp/alpha/../key'') (Some sample_context))
     = [''../key'']
   \<and> normalize_candidate sample_fs (sample_context\<lparr>fc_working_dir := fc_repo_root sample_context\<rparr>) ''../key''
     = None"
  by (intro conjI) code_simp+

section \<open>Stored projections\<close>

lemma file_touch_fold:
  "foldl (touch_step od) out ts =
     out @ map (\<lambda>(n, t). \<lparr>sf_touch_ord = as_i32 n, sf_operation_ord = Some od,
        sf_repo_name = ft_repo t, sf_repo_rel_path = ft_path t, sf_touch_kind = ft_touch_kind t,
        sf_is_write = ft_is_write t\<rparr>) (enumerate (length out) ts)"
  by (induction ts arbitrary: out) (simp_all add: touch_step_def)

definition touch_row :: "stored_file_touch \<Rightarrow> int option \<times> file_touch" where
  "touch_row s = (sf_operation_ord s, \<lparr>ft_repo = sf_repo_name s, ft_path = sf_repo_rel_path s,
     ft_touch_kind = sf_touch_kind s, ft_is_write = sf_is_write s\<rparr>)"

lemma touch_rows_fold:
  "map sf_touch_ord out = map as_i32 [0..<length out] \<Longrightarrow>
   (let res = foldl (\<lambda>out op. foldl (touch_step (so_operation_ord op)) out (so_file_touches op)) out ops
    in map sf_touch_ord res = map as_i32 [0..<length res]
       \<and> map touch_row res = map touch_row out
           @ concat (map (\<lambda>op. map (\<lambda>t. (Some (so_operation_ord op), t)) (so_file_touches op)) ops))"
proof (induction ops arbitrary: out)
  case (Cons op ops)
  let ?new = "foldl (touch_step (so_operation_ord op)) out (so_file_touches op)"
  have en: "map sf_touch_ord (map (\<lambda>(n, t). \<lparr>sf_touch_ord = as_i32 n, sf_operation_ord = Some od,
        sf_repo_name = ft_repo t, sf_repo_rel_path = ft_path t, sf_touch_kind = ft_touch_kind t,
        sf_is_write = ft_is_write t\<rparr>) (enumerate k ts)) = map as_i32 [k..<k + length ts]" for od k ts
    by (induction ts arbitrary: k) (simp_all add: upt_conv_Cons del: upt_Suc)
  have tr: "map touch_row (map (\<lambda>(n, t). \<lparr>sf_touch_ord = as_i32 n, sf_operation_ord = Some od,
        sf_repo_name = ft_repo t, sf_repo_rel_path = ft_path t, sf_touch_kind = ft_touch_kind t,
        sf_is_write = ft_is_write t\<rparr>) (enumerate k ts)) = map (\<lambda>t. (Some od, t)) ts" for od k ts
    by (induction ts arbitrary: k) (simp_all add: touch_row_def)
  let ?a = "length out" and ?b = "length (so_file_touches op)"
  have "length ?new = ?a + ?b" by (simp add: file_touch_fold)
  moreover have "map sf_touch_ord ?new = map as_i32 [0..<?a] @ map as_i32 [?a..<?a + ?b]"
    unfolding file_touch_fold map_append en Cons.prems ..
  moreover have "[0..<?a + ?b] = [0..<?a] @ [?a..<?a + ?b]"
    by (rule upt_add_eq_append) simp
  ultimately have "map sf_touch_ord ?new = map as_i32 [0..<length ?new]"
    by (simp only: map_append)
  from Cons.IH [OF this] show ?case
    by (simp add: Let_def) (simp add: file_touch_fold tr del: map_map)
qed simp

lemma touch_rows:
  "map sf_touch_ord (build_file_touch_projections ops)
     = map as_i32 [0..<length (build_file_touch_projections ops)]"
  "map touch_row (build_file_touch_projections ops)
     = concat (map (\<lambda>op. map (\<lambda>t. (Some (so_operation_ord op), t)) (so_file_touches op)) ops)"
  using touch_rows_fold [of "[]" ops] by (simp_all add: build_file_touch_projections_def Let_def)

lemma apply_touches_fold:
  "length ps = n \<Longrightarrow> n + length qs \<le> 2 ^ 31 \<Longrightarrow>
     foldl apply_touches_step (ps @ qs) (map (operation_of fs ctx) (enumerate n qs))
       = ps @ map (\<lambda>q. with_file_touches q (extract_file_touches fs q ctx)) qs"
proof (induction qs arbitrary: ps n)
  case (Cons q qs)
  have "as_i32 n = int n" using Cons.prems by (intro as_i32_small) simp
  then have "apply_touches_step (ps @ q # qs) (operation_of fs ctx (n, q))
      = (ps @ [with_file_touches q (extract_file_touches fs q ctx)]) @ qs"
    using Cons.prems(1)
    by (simp add: apply_touches_step_def operation_of_def list_update_append nth_append)
  then show ?case
    using Cons.IH [of "ps @ [with_file_touches q (extract_file_touches fs q ctx)]" "Suc n"] Cons.prems
    by simp
qed simp

lemma tool_pair_updates [simp]:
  "tp_file_touches (with_file_touches q ts) = ts" "tp_id (with_file_touches q ts) = tp_id q"
  "t_tool_pairs (with_tool_pairs t qs) = qs" "t_event_count (with_tool_pairs t qs) = t_event_count t"
  by (cases q, simp)+ (cases t, simp)+

lemma operation_columns:
  "map so_operation_ord (map (operation_of fs ctx) (enumerate n qs)) = map as_i32 [n..<n + length qs]"
  "map so_pair_id (map (operation_of fs ctx) (enumerate n qs)) = map tp_id qs"
  "map so_file_touches (map (operation_of fs ctx) (enumerate n qs))
     = map (\<lambda>q. extract_file_touches fs q ctx) qs"
  by (induction qs arbitrary: n) (simp_all add: operation_of_def upt_conv_Cons del: upt_Suc)

lemma signal_ords:
  "map as_signal_ord (build_activity_signals t s) = map as_i32 [0..<length (build_activity_signals t s)]"
proof -
  have "map as_signal_ord (map (\<lambda>(n, s). s\<lparr>as_signal_ord := as_i32 n\<rparr>) (enumerate k ss))
      = map as_i32 [k..<k + length ss]" for k ss
    by (induction ss arbitrary: k) (simp_all add: upt_conv_Cons del: upt_Suc)
  from this [of 0] show ?thesis by (simp add: build_activity_signals_def)
qed

lemma stored_turn_parts:
  assumes "stored_turn_of X fs events ctx (n, g) = Some st" and "length (st_operations st) \<le> 2 ^ 31"
  obtains t where "project_turn X g events default_filters True = Some t"
    and "st_operations st = map (operation_of fs ctx) (enumerate 0 (t_tool_pairs t))"
    and "st_turn st
      = with_tool_pairs t (map (\<lambda>q. with_file_touches q (extract_file_touches fs q ctx)) (t_tool_pairs t))"
    and "st_file_touches st = build_file_touch_projections (st_operations st)"
    and "st_activity_signals st = build_activity_signals (st_turn st) (seed_sidechain g)"
    and "st_turn_ord st = as_i32 n"
proof -
  obtain t where t: "project_turn X g events default_filters True = Some t"
    and s: "st = (let ops = build_operation_projections fs t ctx;
              t' = apply_operation_file_touches t ops
          in \<lparr>st_turn_ord = as_i32 n, st_is_sidechain_turn = seed_sidechain g, st_turn = t',
              st_operations = ops, st_file_touches = build_file_touch_projections ops,
              st_activity_signals = build_activity_signals t' (seed_sidechain g)\<rparr>)"
    using assms(1) by (auto simp: stored_turn_of_def Let_def)
  have ops: "st_operations st = map (operation_of fs ctx) (enumerate 0 (t_tool_pairs t))"
    by (simp add: s Let_def build_operation_projections_def)
  then have "length (t_tool_pairs t) \<le> 2 ^ 31" using assms(2) by simp
  then have "st_turn st
      = with_tool_pairs t (map (\<lambda>q. with_file_touches q (extract_file_touches fs q ctx)) (t_tool_pairs t))"
    using apply_touches_fold [of "[]" 0 "t_tool_pairs t" fs ctx]
    by (simp add: s Let_def apply_operation_file_touches_def build_operation_projections_def)
  with t ops show ?thesis by (rule that) (simp_all add: s Let_def)
qed

lemma projection_nth:
  assumes "build_session_projection X fs events ctx = Some ts"
  shows "length ts = length (group_into_turns events)"
    and "n < length ts \<Longrightarrow> stored_turn_of X fs events ctx (n, group_into_turns events ! n) = Some (ts ! n)"
proof -
  have m: "map (stored_turn_of X fs events ctx) (enumerate 0 (group_into_turns events)) = map Some ts"
    using assms by (simp add: build_session_projection_def those_Some_iff)
  then show len: "length ts = length (group_into_turns events)" by (metis length_enumerate length_map)
  show "n < length ts \<Longrightarrow> stored_turn_of X fs events ctx (n, group_into_turns events ! n) = Some (ts ! n)"
    using arg_cong [OF m, of "\<lambda>xs. xs ! n"] len by (simp add: nth_enumerate_eq)
qed

text \<open>
  The stored rows of a session: one turn per group of events, in order; each
  turn's operations are its tool pairs, numbered from 0, with the same identifiers and file
  touches; its touch rows are the touches of its operations, numbered in order, each naming
  the operation it belongs to; its activity signals are numbered in order.
\<close>

theorem stored_rows_consistent:
  assumes "build_session_projection X fs events ctx = Some ts" and "n < length ts"
    and "length (st_operations (ts ! n)) \<le> 2 ^ 31"
  shows "length ts = length (group_into_turns events)
    \<and> st_turn_ord (ts ! n) = as_i32 n
    \<and> t_event_count (st_turn (ts ! n)) = length (sd_events (group_into_turns events ! n))
    \<and> map so_operation_ord (st_operations (ts ! n)) = map int [0..<length (st_operations (ts ! n))]
    \<and> map so_pair_id (st_operations (ts ! n)) = map tp_id (t_tool_pairs (st_turn (ts ! n)))
    \<and> map so_file_touches (st_operations (ts ! n)) = map tp_file_touches (t_tool_pairs (st_turn (ts ! n)))
    \<and> map sf_touch_ord (st_file_touches (ts ! n)) = map as_i32 [0..<length (st_file_touches (ts ! n))]
    \<and> map touch_row (st_file_touches (ts ! n))
        = concat (map (\<lambda>op. map (\<lambda>t. (Some (so_operation_ord op), t)) (so_file_touches op))
            (st_operations (ts ! n)))
    \<and> map as_signal_ord (st_activity_signals (ts ! n))
        = map as_i32 [0..<length (st_activity_signals (ts ! n))]"
proof -
  let ?g = "group_into_turns events"
  note st = projection_nth(2) [OF assms(1,2)]
  obtain t where t: "project_turn X (?g ! n) events default_filters True = Some t"
    and ops: "st_operations (ts ! n) = map (operation_of fs ctx) (enumerate 0 (t_tool_pairs t))"
    and turn: "st_turn (ts ! n)
      = with_tool_pairs t (map (\<lambda>q. with_file_touches q (extract_file_touches fs q ctx)) (t_tool_pairs t))"
    and ft: "st_file_touches (ts ! n) = build_file_touch_projections (st_operations (ts ! n))"
    and sg: "st_activity_signals (ts ! n) = build_activity_signals (st_turn (ts ! n)) (seed_sidechain (?g ! n))"
    and ord: "st_turn_ord (ts ! n) = as_i32 n"
    using stored_turn_parts [OF st assms(3)] by blast
  have small: "length (t_tool_pairs t) \<le> 2 ^ 31" using assms(3) by (simp add: ops)
  have pairs: "t_tool_pairs (st_turn (ts ! n))
      = map (\<lambda>q. with_file_touches q (extract_file_touches fs q ctx)) (t_tool_pairs t)"
    by (simp add: turn)
  have ords: "map as_i32 [0..<length (t_tool_pairs t)] = map int [0..<length (t_tool_pairs t)]"
    using small by (intro map_cong) (simp_all add: as_i32_small)
  have count: "t_event_count (st_turn (ts ! n)) = length (sd_events (?g ! n))"
    using t by (auto simp: turn project_turn_def project_turn_with_def Let_def bind_eq_Some_conv)
  have o1: "map so_operation_ord (st_operations (ts ! n)) = map int [0..<length (st_operations (ts ! n))]"
    unfolding ops operation_columns length_map length_enumerate add_0 by (rule ords)
  have o2: "map so_pair_id (st_operations (ts ! n)) = map tp_id (t_tool_pairs (st_turn (ts ! n)))"
    unfolding ops pairs operation_columns by simp
  have o3: "map so_file_touches (st_operations (ts ! n))
      = map tp_file_touches (t_tool_pairs (st_turn (ts ! n)))"
    unfolding ops pairs operation_columns by simp
  show ?thesis
    by (intro conjI projection_nth(1) [OF assms(1)] ord count o1 o2 o3) (simp_all only: ft sg touch_rows signal_ords)
qed

lemma sample_stored:
  "case build_session_projection sample_text sample_fs sample_events (Some sample_context) of
     None \<Rightarrow> False
   | Some ts \<Rightarrow> length ts = 1 \<and> length (st_operations (ts ! 0)) = 1"
  by code_simp

theorem stored_rows_consistent_witness:
  "\<exists>ts. build_session_projection sample_text sample_fs sample_events (Some sample_context) = Some ts
     \<and> map so_operation_ord (st_operations (ts ! 0)) = [0]"
proof -
  obtain ts where ts: "build_session_projection sample_text sample_fs sample_events (Some sample_context)
      = Some ts" "length ts = 1" "length (st_operations (ts ! 0)) = 1"
    using sample_stored by (auto split: option.splits)
  have "0 < length ts" "length (st_operations (ts ! 0)) \<le> 2 ^ 31" using ts(2,3) by simp_all
  from stored_rows_consistent [OF ts(1) this]
  have "map so_operation_ord (st_operations (ts ! 0)) = map int [0..<length (st_operations (ts ! 0))]"
    by (elim conjE)
  then have "map so_operation_ord (st_operations (ts ! 0)) = [0]" by (simp add: ts(3))
  with ts(1) show ?thesis by (intro exI [of _ ts] conjI)
qed

end
