(* ===== verification/Projection_Agree.thy ===== *)
theory Projection_Agree
  imports Projection_Rebuild Timeline_Touches
begin

text \<open>
  When the incremental rebuild of a stored timeline gives what the full rebuild gives, and two
  ways in which it does not.
\<close>

section \<open>Agreement\<close>

lemma full_rebuild:
  assumes "children_of db pd u = []" and "in_order (load_all_session_events (pd_rules pd) db u)"
    and "rebuild_session_projection E db pd u = Some (Inr n, full)"
  obtains sts where "projection_of E db pd u (load_all_session_events (pd_rules pd) db u) = Some sts"
    and "rows_fit (pe_codec E) u (clear_session_projection pd u) sts"
    and "full = refresh_timeline_session_state
           (with_rows (pe_codec E) u (clear_session_projection pd u) sts) u"
  using assms(3) that
  by (auto simp: rebuild_session_projection_def source_events [OF assms(1,2)] projection_of_def
      write_projection_def insert_projection_rows_iff split: bind_splits sum.splits)

lemma full_rebuild_current:
  assumes "projection_of E db pd u es = Some sts"
    and "full = refresh_timeline_session_state
           (with_rows (pe_codec E) u (clear_session_projection pd u) sts) u"
  shows "projection_current E db full u es"
proof -
  have "projection_of E db full u es = projection_of E db pd u es"
    by (simp add: assms(2) projection_of_def load_file_touch_context_def refresh_timeline_session_state_def
        with_rows_def clear_session_projection_def Let_def)
  then show ?thesis
    using assms(1) by (simp add: projection_current_def assms(2) own_tables_full)
qed

text \<open>The events read from the last turn on.\<close>

lemma reloaded_events:
  assumes "load_all_session_events (pd_rules pd) db u = old @ new" and "in_order (old @ new)"
    and "group_into_turns old = ts @ [t]"
  shows "load_direct_session_events_from db pd u (sd_id t) = sd_events t @ new"
    and "sd_events t @ new \<noteq> []"
proof -
  have ok: "seed_ok t" using group_ok [of old] assms(3) by (simp add: turns_ok_snoc)
  then obtain e es where t: "sd_events t = e # es" "sd_id t = se_byte_offset e"
    by (cases "sd_events t") (auto simp: seed_ok_def)
  have old: "old = concat (map sd_events ts) @ sd_events t" using group_concat [of old] assms(3) by simp
  have ord: "sorted_wrt (\<lambda>a b. se_byte_offset a < se_byte_offset b) (old @ new)"
    using assms(2) by (auto simp: in_order_def elim: sorted_wrt_mono_rel [rotated])
  have "e \<in> set (load_all_session_events (pd_rules pd) db u)" by (simp add: assms(1) old t)
  then have n: "0 \<le> sd_id t" using t(2) load_nonneg by simp
  have "filter (\<lambda>x. sd_id t \<le> se_byte_offset x) (concat (map sd_events ts)) = []"
  proof (rule filter_none)
    fix x
    assume "x \<in> set (concat (map sd_events ts))"
    then have "se_byte_offset x < se_byte_offset e" using ord by (auto simp: old t(1) sorted_wrt_append)
    then show "\<not> sd_id t \<le> se_byte_offset x" using t(2) by simp
  qed
  moreover have "filter (\<lambda>x. sd_id t \<le> se_byte_offset x) (sd_events t @ new) = sd_events t @ new"
    by (rule filter_True) (use ord in \<open>auto simp: old t sorted_wrt_append intro: less_imp_le\<close>)
  ultimately have "filter (\<lambda>x. sd_id t \<le> se_byte_offset x) (old @ new) = sd_events t @ new"
    by (simp add: old)
  then show "load_direct_session_events_from db pd u (sd_id t) = sd_events t @ new"
    using n by (simp add: load_direct_session_events_from_def saturating_pred_def max_def load_after assms(1))
  show "sd_events t @ new \<noteq> []" by (simp add: t)
qed

lemma write_fitting:
  assumes "rows_fit C u cl sts"
  shows "write_projection C u pd cl sts
           = (Inr (length sts), refresh_timeline_session_state (with_rows C u cl sts) u)"
proof -
  have "insert_projection_rows C u cl sts = Inr (with_rows C u cl sts)"
    using assms by (simp add: insert_projection_rows_iff)
  then show ?thesis by (simp add: write_projection_def)
qed

lemma incremental_suffix:
  assumes "load_all_session_events (pd_rules pd) db u = old @ new" and "in_order (old @ new)"
    and "projection_current E db pd u old" and "subagents_local old new"
    and "group_into_turns old = ts @ [t]"
    and full: "projection_of E db pd u (old @ new) = Some sts"
      "rows_fit (pe_codec E) u (clear_session_projection pd u) sts"
  obtains bs where "projection_of E db pd u (sd_events t @ new) = Some bs"
    and "write_projection (pe_codec E) u pd (clear_session_projection_from pd u (sd_id t))
           (shift_ords (as_i32 (length ts)) bs)
         = (Inr (length bs), refresh_timeline_session_state (with_rows (pe_codec E) u
              (clear_session_projection_from pd u (sd_id t)) (shift_ords (as_i32 (length ts)) bs)) u)"
    and "session_tables (with_rows (pe_codec E) u (clear_session_projection_from pd u (sd_id t))
           (shift_ords (as_i32 (length ts)) bs)) u = tables_of (pe_codec E) u sts"
proof -
  let ?C = "pe_codec E" and ?cl = "clear_session_projection_from pd u (sd_id t)" and ?m = "length ts"
  let ?g = "\<lambda>es. stored_turn_of (pe_text E) (pe_fs E) es (load_file_touch_context db pd u)"
  let ?ss = "group_into_turns (sd_events t @ new)"
  have local: "\<And>s. s \<in> set ts \<Longrightarrow> same_subagents (old @ new) old s"
    "\<And>s. s \<in> set ?ss \<Longrightarrow> same_subagents (old @ new) (sd_events t @ new) s"
    using assms(4) by (simp_all add: subagents_local_def assms(5) list_all_iff Let_def)
  have "map (?g (old @ new)) (enumerate 0 ts) @ map (?g (old @ new)) (enumerate ?m ?ss) = map Some sts"
    using projection_turns [OF full(1)] by (simp add: group_split [OF assms(5)] enumerate_append')
  then obtain as bs where sts: "sts = as @ bs" "map (?g (old @ new)) (enumerate 0 ts) = map Some as"
    "map (?g (old @ new)) (enumerate ?m ?ss) = map Some bs"
    by (auto simp: append_eq_map_conv map_eq_append_conv)
  obtain bs' where bs': "map (?g (sd_events t @ new)) (enumerate 0 ?ss) = map Some bs'"
    "shift_ords (as_i32 ?m) bs' = bs"
    using rebuilt_suffix [OF sts(3) local(2)] by blast
  obtain olds where olds: "projection_of E db pd u old = Some olds" "session_tables pd u = tables_of ?C u olds"
    using assms(3) by (auto simp: projection_current_def split: option.splits)
  have "map (?g old) (enumerate 0 ts) = map Some as"
    unfolding sts(2) [symmetric]
    by (rule map_cong) (auto simp: in_set_enumerate_eq stored_same [OF local(1)])
  then have "map Some as @ [?g old (?m, t)] = map Some olds"
    using projection_turns [OF olds(1)] by (simp add: assms(5) enumerate_append')
  moreover from this obtain os b where os: "olds = os @ [b]" by (cases olds rule: rev_cases) auto
  ultimately have "map Some as = map Some os" by simp
  with os have b: "olds = as @ [b]" by (simp add: inj_map_eq_map)
  have "in_order old" using assms(2) by (simp add: in_order_def sorted_wrt_append)
  from turn_ids_ascend [OF this]
  have "sorted_wrt (<) (map (\<lambda>st. t_id (st_turn st)) (as @ [b]))"
    using projection_ids(1) [OF projection_turns [OF olds(1)]] b by simp
  moreover have "t_id (st_turn b) = sd_id t"
    using projection_ids(1) [OF projection_turns [OF olds(1)]] b by (simp add: assms(5))
  ultimately have kept: "session_tables ?cl u = tables_of ?C u as"
    by (intro own_tables_from [OF olds(2) [unfolded b]]) (auto simp: sorted_wrt_append)
  have fit: "rows_fit ?C u ?cl bs" using suffix_fits [OF _ kept] full(2) sts(1) by blast
  show thesis
  proof (rule that)
    show "projection_of E db pd u (sd_events t @ new) = Some bs'"
      using bs'(1) by (simp add: projection_of_def build_session_projection_def those_Some_iff)
    show "write_projection ?C u pd ?cl (shift_ords (as_i32 ?m) bs')
        = (Inr (length bs'), refresh_timeline_session_state (with_rows ?C u ?cl (shift_ords (as_i32 ?m) bs')) u)"
      using write_fitting [OF fit] bs'(2) by (auto simp: shift_ords_def)
    show "session_tables (with_rows ?C u ?cl (shift_ords (as_i32 ?m) bs')) u = tables_of ?C u sts"
      using kept by (simp add: bs'(2) sts(1) session_tables_def with_rows_def tables_of_def filter_rows rows_append)
  qed
qed

text \<open>
  C6. For a session without descendants whose events ascend in time with their offsets, and
  whose sub-agents stay inside the turns that started them: if the stored timeline is that of
  the events before an insert, then the incremental rebuild after the insert succeeds whenever
  the full one does, and leaves the same turns, operations, file touches, activity signals and
  session states, for this session and every other; and they are those of all its events.
\<close>

theorem incremental_rebuild_agrees:
  assumes "children_of db pd u = []"
    and "load_all_session_events (pd_rules pd) db u = old @ new"
    and "in_order (old @ new)" and "subagents_local old new"
    and "\<forall>e \<in> set old. se_byte_offset e < inserted"
    and "projection_current E db pd u old"
    and "rebuild_session_projection E db pd u = Some (Inr n, full)"
  shows "projection_current E db full u (old @ new)
    \<and> (\<exists>m inc. rebuild_session_projection_after_insert E db pd u inserted = Some (Inr m, inc)
         \<and> (\<forall>v. session_tables inc v = session_tables full v) \<and> pd_states inc = pd_states full)"
proof -
  have ord: "in_order (load_all_session_events (pd_rules pd) db u)" using assms(2,3) by simp
  obtain sts where sts: "projection_of E db pd u (old @ new) = Some sts"
    "rows_fit (pe_codec E) u (clear_session_projection pd u) sts"
    and full: "full = refresh_timeline_session_state
       (with_rows (pe_codec E) u (clear_session_projection pd u) sts) u"
    using full_rebuild [OF assms(1) ord assms(7)] assms(2) by metis
  have current: "projection_current E db full u (old @ new)" by (rule full_rebuild_current [OF sts(1) full])
  have lone: "\<not> session_has_descendants db pd u" using assms(1) by (simp add: session_has_descendants_def)
  show ?thesis
  proof (cases "group_into_turns old" rule: rev_cases)
    case Nil
    then have "session_tables pd u = tables_of (pe_codec E) u []"
      using assms(6) by (auto simp: projection_current_def projection_of_def build_session_projection_def split: option.splits)
    then have "filter (\<lambda>r. tt_session r = u) (pd_turns pd) = []"
      by (simp add: session_tables_def tables_of_def turn_rows_def)
    then have "projection_rebuild_anchor pd u inserted = None"
      by (simp add: projection_rebuild_anchor_def filter_empty_conv Let_def)
    then show ?thesis
      using lone current assms(7) by (simp add: rebuild_session_projection_after_insert_def)
  next
    case (snoc ts t)
    let ?cl = "clear_session_projection_from pd u (sd_id t)"
    have "in_order old" using assms(3) by (simp add: in_order_def sorted_wrt_append)
    then have anchor: "projection_rebuild_anchor pd u inserted = Some (sd_id t, as_i32 (length ts))"
      using anchor_is_last_turn [OF assms(6) _ snoc] assms(5) by blast
    obtain bs where bs: "projection_of E db pd u (sd_events t @ new) = Some bs"
      "write_projection (pe_codec E) u pd ?cl (shift_ords (as_i32 (length ts)) bs) = (Inr (length bs),
         refresh_timeline_session_state (with_rows (pe_codec E) u ?cl (shift_ords (as_i32 (length ts)) bs)) u)"
      "session_tables (with_rows (pe_codec E) u ?cl (shift_ords (as_i32 (length ts)) bs)) u
         = tables_of (pe_codec E) u sts"
      using incremental_suffix [OF assms(2,3,6,4) snoc sts] by blast
    let ?inc = "with_rows (pe_codec E) u ?cl (shift_ords (as_i32 (length ts)) bs)"
    have "rebuild_session_projection_after_insert E db pd u inserted
        = Some (Inr (length bs), refresh_timeline_session_state ?inc u)"
      using lone anchor bs(1,2) reloaded_events [OF assms(2,3) snoc]
      by (auto simp: rebuild_session_projection_after_insert_def projection_of_def)
    moreover have "session_tables ?inc v
        = session_tables (with_rows (pe_codec E) u (clear_session_projection pd u) sts) v" for v
      by (cases "v = u") (simp_all add: bs(3) own_tables_full other_sessions_kept other_sessions_cleared)
    ultimately show ?thesis
      using current states_agree [of ?inc u "with_rows (pe_codec E) u (clear_session_projection pd u) sts"]
      by (simp add: full) (simp add: with_rows_def clear_session_projection_def clear_session_projection_from_def)
  qed
qed

section \<open>Samples\<close>

text \<open>A codec that decodes what it encoded, for the chunks of these turns.\<close>

fun sample_encode :: "chunk \<Rightarrow> json" where
  "sample_encode (ChunkTool i) = JStr i"
| "sample_encode (ChunkAssistant items thinking) =
     JArr (map (\<lambda>x. case x of ItemText t \<Rightarrow> JArr [JStr t] | ItemTool i \<Rightarrow> JStr i) items)"
| "sample_encode _ = JNull"

fun sample_decode :: "json \<Rightarrow> chunk" where
  "sample_decode (JStr i) = ChunkTool i"
| "sample_decode (JArr xs) =
     ChunkAssistant (map (\<lambda>x. case x of JArr [JStr t] \<Rightarrow> ItemText t | JStr i \<Rightarrow> ItemTool i) xs) []"
| "sample_decode _ = ChunkTool []"

definition sample_codec :: codec_lib where
  "sample_codec =
     \<lparr>cd_turn = (\<lambda>_. JNull), cd_chunks = (\<lambda>cs. JArr (map sample_encode cs)),
      cd_chunks_back = (\<lambda>j. map_option (map sample_decode) (as_array j)),
      cd_subagent = (\<lambda>s. JStr (sa_title s)), cd_subagent_back = (\<lambda>_. None)\<rparr>"

definition sample_env :: projection_env where
  "sample_env =
     \<lparr>pe_text = sample_text,
      pe_ingest = \<lparr>i_json = x_json sample_text, i_uuid_parse = (\<lambda>_. None), i_uuid_show = (\<lambda>_. ''u''),
                   i_time_parse = (\<lambda>_. None), i_num = (\<lambda>_. None)\<rparr>,
      pe_codec = sample_codec, pe_fs = sample_fs\<rparr>"

definition sample_row :: "int \<Rightarrow> int \<Rightarrow> string \<Rightarrow> string option \<Rightarrow> bool \<Rightarrow> event_row" where
  "sample_row off time who parent side =
     \<lparr>ev_session = 1, ev_offset = off, ev_timestamp = time * 1000, ev_kind = who, ev_payload = JNull,
      ev_agent = ''claude-code'', ev_speaker = Some who, ev_content_kind = None,
      ev_event_uuid = Some (''e'' @ show_int off), ev_parent_event_uuid = parent,
      ev_related_tool_use_id = None, ev_is_sidechain = side, ev_is_meta = False, ev_subtype = None,
      ev_search_text = []\<rparr>"

definition sample_block :: "int \<Rightarrow> block \<Rightarrow> block_row" where
  "sample_block off b = \<lparr>br_session = 1, br_offset = off, br_block = b\<rparr>"

definition sample_tables :: "event_row list \<Rightarrow> ingest_db" where
  "sample_tables rows =
     \<lparr>ev_rows = rows,
      block_rows = [sample_block 0 (block_text 0 ''go''),
        sample_block 10 ((sample_use (Some ''a''))\<lparr>b_tool_name := Some ''task''\<rparr>),
        sample_block 20 (block_text 0 ''on'')],
      sessions = (\<lambda>_. None), states = (\<lambda>_. None), metadata = (\<lambda>_. None), ptys = [], rebuilds = []\<rparr>"

definition empty_projection :: projection_db where
  "empty_projection =
     \<lparr>pd_sessions = [], pd_ptys = (\<lambda>_. None), pd_repos = (\<lambda>_. None), pd_rules = [], pd_turns = [],
      pd_operations = [], pd_touches = [], pd_signals = [], pd_states = (\<lambda>_. None)\<rparr>"

text \<open>The tables after the first two turns: a prompt with a task call, and a prompt.\<close>

definition first_rows :: "event_row list" where
  "first_rows =
     [sample_row 0 0 ''user'' None False, sample_row 10 10 ''assistant'' None False,
      sample_row 20 20 ''user'' None False]"

definition projected_db :: "event_row list \<Rightarrow> projection_db" where
  "projected_db rows =
     with_rows sample_codec 1 empty_projection
       (the (projection_of sample_env (sample_tables rows) empty_projection 1
              (load_all_session_events [] (sample_tables rows) 1)))"

definition first_events :: "stored_event list" where
  "first_events = load_all_session_events [] (sample_tables first_rows) 1"

definition events_with :: "event_row \<Rightarrow> stored_event list" where
  "events_with r = load_all_session_events [] (sample_tables (first_rows @ [r])) 1"

definition rebuilt_fully :: "event_row \<Rightarrow> ((string, nat) result \<times> projection_db) option" where
  "rebuilt_fully r =
     rebuild_session_projection sample_env (sample_tables (first_rows @ [r])) (projected_db first_rows) 1"

definition rebuilt_after :: "event_row \<Rightarrow> ((string, nat) result \<times> projection_db) option" where
  "rebuilt_after r =
     rebuild_session_projection_after_insert sample_env (sample_tables (first_rows @ [r]))
       (projected_db first_rows) 1 30"

text \<open>An answer, an event of the sub-agent of the first turn's task, and an event that is older.\<close>

definition plain_row :: event_row where
  "plain_row = sample_row 30 30 ''assistant'' None False"

definition late_row :: event_row where
  "late_row = sample_row 30 30 ''assistant'' (Some ''e10'') True"

definition older_row :: event_row where
  "older_row = sample_row 30 5 ''assistant'' None False"

lemma sample_loads:
  "load_all_session_events (pd_rules (projected_db first_rows)) (sample_tables (first_rows @ [plain_row])) 1
     = first_events @ drop 3 (events_with plain_row)"
  "list_all (\<lambda>e. se_byte_offset e < 30) first_events"
  "subagents_local first_events (drop 3 (events_with plain_row))"
  "projection_current sample_env (sample_tables (first_rows @ [plain_row])) (projected_db first_rows) 1 first_events"
  "children_of (sample_tables (first_rows @ [plain_row])) (projected_db first_rows) 1 = []"
  by code_simp+

lemma sample_ordered: "in_order (first_events @ drop 3 (events_with plain_row))"
  unfolding in_order_def by code_simp

lemma sample_rebuilt: "case rebuilt_fully plain_row of Some (Inr n, full) \<Rightarrow> n = 2 | _ \<Rightarrow> False"
  by code_simp

theorem incremental_rebuild_agrees_witness:
  "\<exists>full m inc. rebuilt_fully plain_row = Some (Inr 2, full) \<and> rebuilt_after plain_row = Some (Inr m, inc)
     \<and> session_tables inc 1 = session_tables full 1"
proof -
  obtain full where full: "rebuilt_fully plain_row = Some (Inr 2, full)"
    using sample_rebuilt by (auto split: option.splits sum.splits)
  have "\<forall>e \<in> set first_events. se_byte_offset e < 30" using sample_loads(2) by (simp add: list_all_iff)
  from incremental_rebuild_agrees [OF sample_loads(5,1) sample_ordered sample_loads(3) this
      sample_loads(4) full [unfolded rebuilt_fully_def]]
  obtain m inc where "rebuilt_after plain_row = Some (Inr m, inc)" "session_tables inc 1 = session_tables full 1"
    unfolding rebuilt_after_def by blast
  with full show ?thesis by blast
qed

section \<open>Disagreement\<close>

fun succeeded :: "('e, 'a) result \<times> 'd \<Rightarrow> 'd option" where
  "succeeded (Inl e, d) = None"
| "succeeded (Inr a, d) = Some d"

lemma succeeded_Some: "Option.bind r succeeded = Some d \<Longrightarrow> \<exists>n. r = Some (Inr n, d)"
  by (cases r) (auto elim: succeeded.elims)

definition has_subagent_rows :: "projection_db \<Rightarrow> bool list" where
  "has_subagent_rows pd = map (\<lambda>r. or_subagent_json r \<noteq> None) (pd_operations pd)"

lemma late_evaluates:
  "map_option has_subagent_rows (Option.bind (rebuilt_fully late_row) succeeded) = Some [True]"
  "map_option has_subagent_rows (Option.bind (rebuilt_after late_row) succeeded) = Some [False]"
  by code_simp+

lemma older_evaluates:
  "map_option (\<lambda>pd. map tt_event_count (pd_turns pd)) (Option.bind (rebuilt_fully older_row) succeeded)
     = Some [3, 1]"
  "map_option (\<lambda>pd. map tt_event_count (pd_turns pd)) (Option.bind (rebuilt_after older_row) succeeded)
     = Some [2, 2]"
  by code_simp+

lemma succeeded_with:
  "map_option f (Option.bind r succeeded) = Some v \<Longrightarrow> \<exists>n d. r = Some (Inr n, d) \<and> f d = v"
  using succeeded_Some [of r] by (auto simp: map_option_eq_Some)

lemma both_succeeded:
  assumes "map_option f (Option.bind r succeeded) = Some v" "map_option g (Option.bind r' succeeded) = Some w"
  shows "\<exists>n d m d'. r = Some (Inr n, d) \<and> r' = Some (Inr m, d') \<and> f d = v \<and> g d' = w"
  using succeeded_with [OF assms(1)] succeeded_with [OF assms(2)] by (elim exE conjE, intro exI conjI)

text \<open>
  Outside these conditions the two rebuilds differ. An event of a sub-agent that arrives
  when its task's turn is no longer the last is shown by the full rebuild and missed by the
  incremental one. An event whose time stamp is older than its predecessor's is moved to an
  earlier turn by the full rebuild, which sorts by time, and stays in the last turn in the
  incremental one, which does not.
\<close>

theorem rebuilds_can_differ:
  "projection_current sample_env (sample_tables (first_rows @ [late_row])) (projected_db first_rows) 1 first_events
   \<and> in_order (events_with late_row)
   \<and> (\<exists>n full m inc. rebuilt_fully late_row = Some (Inr n, full) \<and> rebuilt_after late_row = Some (Inr m, inc)
        \<and> has_subagent_rows full = [True] \<and> has_subagent_rows inc = [False])
   \<and> (\<exists>n full m inc. rebuilt_fully older_row = Some (Inr n, full) \<and> rebuilt_after older_row = Some (Inr m, inc)
        \<and> map tt_event_count (pd_turns full) = [3, 1] \<and> map tt_event_count (pd_turns inc) = [2, 2])"
proof (intro conjI)
  show "projection_current sample_env (sample_tables (first_rows @ [late_row])) (projected_db first_rows) 1 first_events"
    by code_simp
  show "in_order (events_with late_row)" unfolding in_order_def by code_simp
  show "\<exists>n full m inc. rebuilt_fully late_row = Some (Inr n, full) \<and> rebuilt_after late_row = Some (Inr m, inc)
      \<and> has_subagent_rows full = [True] \<and> has_subagent_rows inc = [False]"
    by (rule both_succeeded [OF late_evaluates])
  show "\<exists>n full m inc. rebuilt_fully older_row = Some (Inr n, full) \<and> rebuilt_after older_row = Some (Inr m, inc)
      \<and> map tt_event_count (pd_turns full) = [3, 1] \<and> map tt_event_count (pd_turns inc) = [2, 2]"
    by (rule both_succeeded [OF older_evaluates])
qed

end
