(* ===== verification/Projection_Read.thy ===== *)
theory Projection_Read
  imports Projection_Write "HOL-Library.List_Lexorder" "HOL-Library.Char_ord"
begin

text \<open>
  Reading the stored timeline back (\<^verbatim>\<open>backend/src/ingest/projection.rs\<close> from the turn queries
  on, \<^verbatim>\<open>projection/filters.rs\<close>, \<^verbatim>\<open>projection/file_trace.rs\<close>): the whole timeline of a session,
  its summary, one turn of it, the summary of a repository, the trace of a file, and the
  backfill of sessions that have no stored turns. A query returns rows of the tables, of
  which the code reads the selected columns. \<open>Inl\<close> is a row whose JSON does not decode.
\<close>

section \<open>What is read\<close>

text \<open>
  \<open>rd_lower\<close> is PostgreSQL's \<open>LOWER\<close> and the case folding of \<open>ILIKE\<close>, \<open>rd_collate\<close> the sort
  key of its collation; \<open>rd_text\<close> has \<open>str::to_lowercase\<close>.
\<close>

record read_lib =
  rd_text :: text_lib
  rd_codec :: codec_lib
  rd_lower :: "string \<Rightarrow> string"
  rd_collate :: "string \<Rightarrow> string"

text \<open>A stored sub-agent (of a pair) or the stored chunks (of a turn) that do not decode.\<close>

datatype read_error = BadSubagent string | BadChunks int

record operation_badge =
  ob_name :: string
  ob_operation_type :: "string option"
  ob_count :: nat

record turn_summary =
  ts_id :: int
  ts_turn_key :: "string option"
  ts_preview :: string
  ts_start :: timestamp
  ts_end :: timestamp
  ts_duration_ms :: int
  ts_event_count :: nat
  ts_operation_count :: nat
  ts_operation_badges :: "operation_badge list"
  ts_thinking_count :: nat
  ts_has_errors :: bool
  ts_pty_session_id :: "uuid option"
  ts_session_uuid :: "uuid option"
  ts_session_agent :: "string option"
  ts_session_label :: "string option"
  ts_session_state :: "string option"

record summary_response =
  sr_session_uuid :: "uuid option"
  sr_session_agent :: "string option"
  sr_total_event_count :: int
  sr_turns :: "turn_summary list"

definition empty_timeline_response :: "int \<Rightarrow> timeline_response" where
  "empty_timeline_response n =
     \<lparr>tl_session_uuid = None, tl_session_agent = None, tl_total_event_count = n, tl_turns = []\<rparr>"

definition empty_timeline_summary_response :: "int \<Rightarrow> summary_response" where
  "empty_timeline_summary_response n =
     \<lparr>sr_session_uuid = None, sr_session_agent = None, sr_total_event_count = n, sr_turns = []\<rparr>"

section \<open>Queries\<close>

definition total_event_count :: "projection_db \<Rightarrow> uuid \<Rightarrow> int" where
  "total_event_count pd u = sum_list (map tt_event_count (filter (\<lambda>r. tt_session r = u) (pd_turns pd)))"

text \<open>The turns that touch a path; \<open>None\<close> when no path is asked for.\<close>

definition path_matches :: "read_lib \<Rightarrow> string \<Rightarrow> string \<Rightarrow> bool" where
  "path_matches R file_path path \<longleftrightarrow>
     sql_like (rd_lower R (''%'' @ x_lower (rd_text R) file_path @ ''%'')) (rd_lower R (rd_lower R path))"

definition load_referenced_turn_ids ::
    "read_lib \<Rightarrow> projection_db \<Rightarrow> uuid \<Rightarrow> string \<Rightarrow> int list option" where
  "load_referenced_turn_ids R pd u file_path =
     (if trim file_path = [] then None
      else Some (remdups (map tf_turn_id
             (filter (\<lambda>r. tf_session r = u \<and> path_matches R file_path (tf_repo_rel_path r)) (pd_touches pd)))))"

definition id_allowed :: "int list option \<Rightarrow> int \<Rightarrow> bool" where
  "id_allowed ids i = (case ids of None \<Rightarrow> True | Some is \<Rightarrow> i \<in> set is)"

definition load_projected_turn_rows ::
    "projection_db \<Rightarrow> uuid \<Rightarrow> int list option \<Rightarrow> bool \<Rightarrow> turn_row list" where
  "load_projected_turn_rows pd u ids errs =
     sort_key tt_turn_ord
       (filter (\<lambda>r. tt_session r = u \<and> id_allowed ids (tt_turn_id r) \<and> (errs \<longrightarrow> tt_has_errors r))
          (pd_turns pd))"

definition load_projected_turn_summary_rows ::
    "projection_db \<Rightarrow> uuid \<Rightarrow> int list option \<Rightarrow> projection_filters \<Rightarrow> turn_row list" where
  "load_projected_turn_summary_rows pd u ids f =
     sort_key tt_turn_ord
       (filter (\<lambda>r. tt_session r = u \<and> id_allowed ids (tt_turn_id r)
            \<and> (errors_only f \<longrightarrow> tt_has_errors r) \<and> (show_sidechain f \<or> \<not> tt_is_sidechain r))
          (pd_turns pd))"

definition load_projected_turn_row :: "projection_db \<Rightarrow> uuid \<Rightarrow> int \<Rightarrow> bool \<Rightarrow> turn_row option" where
  "load_projected_turn_row pd u turn_id errs =
     find (\<lambda>r. tt_session r = u \<and> tt_turn_id r = turn_id \<and> (errs \<longrightarrow> tt_has_errors r)) (pd_turns pd)"

definition load_projected_operation_rows ::
    "projection_db \<Rightarrow> uuid \<Rightarrow> int list \<Rightarrow> operation_row list" where
  "load_projected_operation_rows pd u ids =
     sort_key or_turn_id (sort_key or_ord
       (filter (\<lambda>r. or_session r = u \<and> or_turn_id r \<in> set ids) (pd_operations pd)))"

definition load_projected_touch_rows :: "projection_db \<Rightarrow> uuid \<Rightarrow> int list \<Rightarrow> touch_row list" where
  "load_projected_touch_rows pd u ids =
     sort_key tf_turn_id (sort_key tf_ord
       (filter (\<lambda>r. tf_session r = u \<and> tf_turn_id r \<in> set ids) (pd_touches pd)))"

text \<open>One badge row for each name and type among the operations of a turn, with their number.\<close>

record badge_row =
  bg_turn_id :: int
  bg_name :: string
  bg_operation_type :: "string option"
  bg_count :: int

definition badge_key :: "operation_row \<Rightarrow> int \<times> string \<times> string option" where
  "badge_key r = (or_turn_id r, unwrap_or (or_name r) (or_operation_type r), or_operation_type r)"

definition load_projected_operation_badge_rows ::
    "read_lib \<Rightarrow> projection_db \<Rightarrow> uuid \<Rightarrow> int list \<Rightarrow> badge_row list" where
  "load_projected_operation_badge_rows R pd u ids =
     (let rows = filter (\<lambda>r. or_session r = u \<and> or_turn_id r \<in> set ids) (pd_operations pd);
          groups = map (\<lambda>(i, name, ty).
            \<lparr>bg_turn_id = i, bg_name = name, bg_operation_type = ty,
             bg_count = int (length (filter (\<lambda>r. badge_key r = (i, name, ty)) rows))\<rparr>)
            (remdups (map badge_key rows))
      in sort_key bg_turn_id (sort_key (\<lambda>b. - bg_count b)
           (sort_key (\<lambda>b. rd_collate R (bg_name b)) groups)))"

section \<open>Putting rows together\<close>

text \<open>\<open>entry(k).or_default().push(v)\<close>.\<close>

definition push_entry :: "('k \<Rightarrow> 'v list option) \<Rightarrow> 'k \<Rightarrow> 'v \<Rightarrow> 'k \<Rightarrow> 'v list option" where
  "push_entry m k v = m(k \<mapsto> unwrap_or [] (m k) @ [v])"

definition touch_of_row :: "touch_row \<Rightarrow> file_touch" where
  "touch_of_row r =
     \<lparr>ft_repo = tf_repo_name r, ft_path = tf_repo_rel_path r, ft_touch_kind = tf_touch_kind r,
      ft_is_write = tf_is_write r\<rparr>"

definition push_touch_row ::
    "(int \<times> int \<Rightarrow> file_touch list option) \<Rightarrow> touch_row \<Rightarrow> int \<times> int \<Rightarrow> file_touch list option" where
  "push_touch_row m r =
     (case tf_operation_ord r of
        None \<Rightarrow> m | Some n \<Rightarrow> push_entry m (tf_turn_id r, n) (touch_of_row r))"

definition decoded :: "('j \<Rightarrow> 'a option) \<Rightarrow> read_error \<Rightarrow> 'j \<Rightarrow> (read_error, 'a) result" where
  "decoded dec what j = (case dec j of None \<Rightarrow> Inl what | Some x \<Rightarrow> Inr x)"

definition decoded_opt ::
    "('j \<Rightarrow> 'a option) \<Rightarrow> read_error \<Rightarrow> 'j option \<Rightarrow> (read_error, 'a option) result" where
  "decoded_opt dec what j =
     (case j of None \<Rightarrow> Inr None | Some v \<Rightarrow> res_bind (decoded dec what v) (\<lambda>x. Inr (Some x)))"

text \<open>The touches of the operation are taken out of the map.\<close>

definition build_operation_pair ::
    "codec_lib \<Rightarrow> operation_row \<Rightarrow> (int \<times> int \<Rightarrow> file_touch list option) \<Rightarrow>
     (read_error, tool_pair \<times> (int \<times> int \<Rightarrow> file_touch list option)) result" where
  "build_operation_pair C r touches =
     res_bind (decoded_opt (cd_subagent_back C) (BadSubagent (or_pair_id r))
                 (or_subagent_json r)) (\<lambda>sub.
       let k = (or_turn_id r, or_ord r);
           result = (if or_result_content r \<noteq> None \<or> or_result_payload r \<noteq> None
                     then Some \<lparr>tr_content = or_result_content r, tr_payload = or_result_payload r,
                                tr_is_error = or_result_is_error r\<rparr>
                     else None)
       in Inr (ToolPair (or_pair_id r) (or_name r) (or_raw_name r) (or_operation_type r)
                 (Option.bind (or_operation_category r) category_parse) (or_input r) result
                 (or_is_error r) (or_is_pending r) (unwrap_or [] (touches k)) sub,
               touches(k := None)))"

fun operations_loop ::
    "codec_lib \<Rightarrow> operation_row list \<Rightarrow> (int \<times> int \<Rightarrow> file_touch list option) \<Rightarrow>
     (int \<Rightarrow> tool_pair list option) \<Rightarrow> (read_error, int \<Rightarrow> tool_pair list option) result" where
  "operations_loop C [] touches ops = Inr ops"
| "operations_loop C (r # rs) touches ops =
     res_bind (build_operation_pair C r touches) (\<lambda>(pair, touches').
       operations_loop C rs touches' (push_entry ops (or_turn_id r) pair))"

definition build_operations_by_turn ::
    "codec_lib \<Rightarrow> operation_row list \<Rightarrow> touch_row list \<Rightarrow>
     (read_error, int \<Rightarrow> tool_pair list option) result" where
  "build_operations_by_turn C ops touches =
     operations_loop C ops (foldl push_touch_row (\<lambda>_. None) touches) (\<lambda>_. None)"

definition build_operation_badges_by_turn ::
    "badge_row list \<Rightarrow> int \<Rightarrow> operation_badge list option" where
  "build_operation_badges_by_turn rows =
     foldl (\<lambda>m r. push_entry m (bg_turn_id r)
              \<lparr>ob_name = bg_name r, ob_operation_type = bg_operation_type r,
               ob_count = nat (max (bg_count r) 0)\<rparr>) (\<lambda>_. None) rows"

definition build_projected_turn_summary ::
    "turn_row \<Rightarrow> (int \<Rightarrow> operation_badge list option) \<Rightarrow>
     turn_summary \<times> (int \<Rightarrow> operation_badge list option)" where
  "build_projected_turn_summary r badges =
     (\<lparr>ts_id = tt_turn_id r, ts_turn_key = None, ts_preview = tt_preview r, ts_start = tt_start r,
       ts_end = tt_end r, ts_duration_ms = tt_duration_ms r,
       ts_event_count = nat (max (tt_event_count r) 0),
       ts_operation_count = nat (max (tt_operation_count r) 0),
       ts_operation_badges = unwrap_or [] (badges (tt_turn_id r)),
       ts_thinking_count = nat (max (tt_thinking_count r) 0), ts_has_errors = tt_has_errors r,
       ts_pty_session_id = None, ts_session_uuid = None, ts_session_agent = None,
       ts_session_label = None, ts_session_state = None\<rparr>, badges(tt_turn_id r := None))"

definition build_projected_turn ::
    "codec_lib \<Rightarrow> turn_row \<Rightarrow> (int \<Rightarrow> tool_pair list option) \<Rightarrow>
     (read_error, turn \<times> (int \<Rightarrow> tool_pair list option)) result" where
  "build_projected_turn C r ops =
     res_bind (decoded (cd_chunks_back C) (BadChunks (tt_turn_id r)) (tt_chunks_json r)) (\<lambda>cs.
       Inr (Turn (tt_turn_id r) None (tt_preview r) (tt_user_prompt_text r) (tt_start r) (tt_end r)
              (tt_duration_ms r) (nat (max (tt_event_count r) 0)) (nat (max (tt_operation_count r) 0))
              (unwrap_or [] (ops (tt_turn_id r))) (nat (max (tt_thinking_count r) 0))
              (tt_has_errors r) (tt_markdown r) cs None None None None None,
            ops(tt_turn_id r := None)))"

section \<open>Filters\<close>

definition pair_visible :: "tool_pair \<Rightarrow> projection_filters \<Rightarrow> bool" where
  "pair_visible p f =
     (case tp_category p of None \<Rightarrow> True | Some c \<Rightarrow> c \<notin> hidden_operation_categories f)"

definition shown_pair :: "(string \<Rightarrow> tool_pair option) \<Rightarrow> projection_filters \<Rightarrow> string \<Rightarrow> bool" where
  "shown_pair pairs f i = (case pairs i of None \<Rightarrow> False | Some p \<Rightarrow> pair_visible p f)"

definition shown_item ::
    "(string \<Rightarrow> tool_pair option) \<Rightarrow> projection_filters \<Rightarrow> assistant_item \<Rightarrow> bool" where
  "shown_item pairs f item =
     (case item of ItemText _ \<Rightarrow> True | ItemTool i \<Rightarrow> shown_pair pairs f i)"

definition filter_chunk ::
    "(string \<Rightarrow> tool_pair option) \<Rightarrow> projection_filters \<Rightarrow> chunk \<Rightarrow> chunk option" where
  "filter_chunk pairs f c =
     (case c of
        ChunkAssistant items thinking \<Rightarrow>
          if FacetAssistant \<in> hidden_speakers f then None
          else (let items' = filter (shown_item pairs f) items
                in if items' = [] \<and> thinking = [] then None else Some (ChunkAssistant items' thinking))
      | ChunkTool i \<Rightarrow>
          if FacetAssistant \<in> hidden_speakers f then None
          else if shown_pair pairs f i then Some (ChunkTool i) else None
      | ChunkSystem subtype txt is_meta \<Rightarrow>
          if \<not> show_bookkeeping f \<and> is_meta then None else Some (ChunkSystem subtype txt is_meta)
      | ChunkGeneric label details \<Rightarrow>
          if \<not> show_bookkeeping f \<and> label \<in> set BOOKKEEPING_KINDS then None
          else Some (ChunkGeneric label details)
      | other \<Rightarrow> Some other)"

fun with_chunks :: "turn \<Rightarrow> chunk list \<Rightarrow> turn" where
  "with_chunks (Turn i k pv up s e d ec oc ps th er md _ py su sa sl ss) cs =
     Turn i k pv up s e d ec oc ps th er md cs py su sa sl ss"

definition apply_projection_filters :: "turn \<Rightarrow> projection_filters \<Rightarrow> turn" where
  "apply_projection_filters t f =
     with_chunks t (List.map_filter (filter_chunk (pair_by_id (t_tool_pairs t)) f) (t_chunks t))"

section \<open>Responses\<close>

fun summaries_loop ::
    "turn_row list \<Rightarrow> (int \<Rightarrow> operation_badge list option) \<Rightarrow> turn_summary list" where
  "summaries_loop [] badges = []"
| "summaries_loop (r # rs) badges =
     (case build_projected_turn_summary r badges of (s, badges') \<Rightarrow> s # summaries_loop rs badges')"

definition load_timeline_summary_response ::
    "read_lib \<Rightarrow> projection_db \<Rightarrow> uuid \<Rightarrow> projection_filters \<Rightarrow> summary_response" where
  "load_timeline_summary_response R pd u f =
     (let n = total_event_count pd u; ids = load_referenced_turn_ids R pd u (pf_file_path f)
      in if ids = Some [] then empty_timeline_summary_response n
         else (let rows = load_projected_turn_summary_rows pd u ids f;
                   badge_rows = load_projected_operation_badge_rows R pd u (map tt_turn_id rows)
               in \<lparr>sr_session_uuid = None, sr_session_agent = None, sr_total_event_count = n,
                   sr_turns = summaries_loop rows (build_operation_badges_by_turn badge_rows)\<rparr>))"

definition load_timeline_turn_detail ::
    "read_lib \<Rightarrow> projection_db \<Rightarrow> uuid \<Rightarrow> int \<Rightarrow> projection_filters \<Rightarrow> (read_error, turn option) result" where
  "load_timeline_turn_detail R pd u turn_id f =
     (let ids = load_referenced_turn_ids R pd u (pf_file_path f)
      in if \<not> id_allowed ids turn_id then Inr None
         else case load_projected_turn_row pd u turn_id (errors_only f) of
           None \<Rightarrow> Inr None
         | Some r \<Rightarrow>
             if \<not> show_sidechain f \<and> tt_is_sidechain r then Inr None
             else res_bind (build_operations_by_turn (rd_codec R)
                              (load_projected_operation_rows pd u [turn_id])
                              (load_projected_touch_rows pd u [turn_id])) (\<lambda>ops.
                  res_bind (build_projected_turn (rd_codec R) r ops) (\<lambda>(t, _).
                    Inr (Some (apply_projection_filters t f)))))"

fun turns_loop ::
    "codec_lib \<Rightarrow> projection_filters \<Rightarrow> int list option \<Rightarrow> turn_row list \<Rightarrow>
     (int \<Rightarrow> tool_pair list option) \<Rightarrow> (read_error, turn list) result" where
  "turns_loop C f ids [] ops = Inr []"
| "turns_loop C f ids (r # rs) ops =
     (if \<not> show_sidechain f \<and> tt_is_sidechain r then turns_loop C f ids rs ops
      else if \<not> id_allowed ids (tt_turn_id r) then turns_loop C f ids rs ops
      else if errors_only f \<and> \<not> tt_has_errors r then turns_loop C f ids rs ops
      else res_bind (build_projected_turn C r ops) (\<lambda>(t, ops').
           res_bind (turns_loop C f ids rs ops') (\<lambda>ts.
             Inr (apply_projection_filters t f # ts))))"

definition load_timeline_response ::
    "read_lib \<Rightarrow> projection_db \<Rightarrow> uuid \<Rightarrow> projection_filters \<Rightarrow> (read_error, timeline_response) result" where
  "load_timeline_response R pd u f =
     (let n = total_event_count pd u; ids = load_referenced_turn_ids R pd u (pf_file_path f)
      in if ids = Some [] then Inr (empty_timeline_response n)
         else (let rows = load_projected_turn_rows pd u ids (errors_only f); turn_ids = map tt_turn_id rows
               in res_bind (build_operations_by_turn (rd_codec R)
                              (load_projected_operation_rows pd u turn_ids)
                              (load_projected_touch_rows pd u turn_ids)) (\<lambda>ops.
                  res_bind (turns_loop (rd_codec R) f ids rows ops) (\<lambda>ts.
                    Inr \<lparr>tl_session_uuid = None, tl_session_agent = None, tl_total_event_count = n,
                         tl_turns = ts\<rparr>))))"

end
