(* ===== verification/Projection_Lookup.thy ===== *)
theory Projection_Lookup
  imports Projection_Read
begin

text \<open>
  What the responses contain in terms of the tables: the maps the code builds and empties are
  lookups, because the keys of the tables are unique. The detail of a turn and the summary
  agree with the whole timeline.
\<close>

section \<open>Maps of lists\<close>

lemma push_entry_apply:
  "unwrap_or [] (push_entry m k v i) = unwrap_or [] (m i) @ (if k = i then [v] else [])"
  by (simp add: push_entry_def)

lemma push_fold:
  "unwrap_or [] (foldl (\<lambda>m r. push_entry m (k r) (v r)) m rows i)
     = unwrap_or [] (m i) @ map v (filter (\<lambda>r. k r = i) rows)"
  by (induction rows arbitrary: m) (simp_all add: push_entry_apply)

lemma push_touch_row_apply:
  "unwrap_or [] (push_touch_row m r (i, n))
     = unwrap_or [] (m (i, n))
       @ (if tf_turn_id r = i \<and> tf_operation_ord r = Some n then [touch_of_row r] else [])"
  by (cases "tf_operation_ord r") (auto simp: push_touch_row_def push_entry_apply)

lemma touch_fold:
  "unwrap_or [] (foldl push_touch_row m rows (i, n))
     = unwrap_or [] (m (i, n))
       @ map touch_of_row (filter (\<lambda>r. tf_turn_id r = i \<and> tf_operation_ord r = Some n) rows)"
  by (induction rows arbitrary: m) (simp_all add: push_touch_row_apply)

section \<open>Operations of a turn\<close>

definition row_pair :: "codec_lib \<Rightarrow> operation_row \<Rightarrow> file_touch list \<Rightarrow> tool_pair" where
  "row_pair C r touches =
     ToolPair (or_pair_id r) (or_name r) (or_raw_name r) (or_operation_type r)
       (Option.bind (or_operation_category r) category_parse) (or_input r)
       (if or_result_content r \<noteq> None \<or> or_result_payload r \<noteq> None
        then Some \<lparr>tr_content = or_result_content r, tr_payload = or_result_payload r,
                   tr_is_error = or_result_is_error r\<rparr> else None)
       (or_is_error r) (or_is_pending r) touches
       (Option.bind (or_subagent_json r) (cd_subagent_back C))"

definition row_decodes :: "codec_lib \<Rightarrow> operation_row \<Rightarrow> bool" where
  "row_decodes C r \<longleftrightarrow> or_subagent_json r = None \<or> Option.bind (or_subagent_json r) (cd_subagent_back C) \<noteq> None"

lemma build_operation_pair_iff:
  "build_operation_pair C r touches = Inr res \<longleftrightarrow>
     row_decodes C r
     \<and> res = (row_pair C r (unwrap_or [] (touches (or_turn_id r, or_ord r))),
              touches((or_turn_id r, or_ord r) := None))"
  by (cases "or_subagent_json r")
     (auto simp: build_operation_pair_def row_pair_def row_decodes_def decoded_opt_def decoded_def Let_def
       split: option.splits)

definition place :: "operation_row \<Rightarrow> int \<times> int" where
  "place r = (or_turn_id r, or_ord r)"

lemma build_operation_pair_fails:
  "\<not> row_decodes C r \<Longrightarrow> \<exists>e. build_operation_pair C r touches = Inl e"
  using build_operation_pair_iff [of C r touches] by (cases "build_operation_pair C r touches") auto

lemma operations_loop_iff:
  assumes "distinct (map place rows)"
  shows "(\<exists>m. operations_loop C rows touches ops = Inr m) \<longleftrightarrow> list_all (row_decodes C) rows"
    and "operations_loop C rows touches ops = Inr m \<Longrightarrow>
      unwrap_or [] (m i) = unwrap_or [] (ops i)
        @ map (\<lambda>r. row_pair C r (unwrap_or [] (touches (place r)))) (filter (\<lambda>r. or_turn_id r = i) rows)"
proof -
  have "((\<exists>m. operations_loop C rows touches ops = Inr m) \<longleftrightarrow> list_all (row_decodes C) rows)
      \<and> (\<forall>m. operations_loop C rows touches ops = Inr m \<longrightarrow>
          unwrap_or [] (m i) = unwrap_or [] (ops i)
            @ map (\<lambda>r. row_pair C r (unwrap_or [] (touches (place r)))) (filter (\<lambda>r. or_turn_id r = i) rows))"
    using assms
  proof (induction rows arbitrary: touches ops)
    case (Cons r rows)
    let ?t' = "touches(place r := None)"
    let ?p = "row_pair C r (unwrap_or [] (touches (place r)))"
    have same: "unwrap_or [] (?t' (place x)) = unwrap_or [] (touches (place x))" if "x \<in> set rows" for x
      using that Cons.prems by (cases "place x = place r") (auto simp: image_iff)
    have tail: "map (\<lambda>x. row_pair C x (unwrap_or [] (?t' (place x)))) (filter (\<lambda>x. or_turn_id x = i) rows)
        = map (\<lambda>x. row_pair C x (unwrap_or [] (touches (place x)))) (filter (\<lambda>x. or_turn_id x = i) rows)"
      by (intro map_cong) (use same in auto)
    show ?case
    proof (cases "row_decodes C r")
      case True
      then have b: "build_operation_pair C r touches = Inr (?p, ?t')"
        by (simp add: build_operation_pair_iff place_def)
      have l: "operations_loop C (r # rows) touches ops
          = operations_loop C rows ?t' (push_entry ops (or_turn_id r) ?p)" by (simp add: b)
      have "distinct (map place rows)" using Cons.prems by simp
      note IH = Cons.IH [OF this, of ?t' "push_entry ops (or_turn_id r) ?p", unfolded tail push_entry_apply]
      show ?thesis unfolding l
        using IH True by (simp only: list.pred_inject filter.simps simp_thms) (auto split: if_splits simp del: fun_upd_apply)
    next
      case False
      then obtain e where "build_operation_pair C r touches = Inl e" using build_operation_pair_fails by blast
      with False show ?thesis by simp
    qed
  qed simp
  then show "(\<exists>m. operations_loop C rows touches ops = Inr m) \<longleftrightarrow> list_all (row_decodes C) rows"
    and "operations_loop C rows touches ops = Inr m \<Longrightarrow>
      unwrap_or [] (m i) = unwrap_or [] (ops i)
        @ map (\<lambda>r. row_pair C r (unwrap_or [] (touches (place r)))) (filter (\<lambda>r. or_turn_id r = i) rows)"
    by blast+
qed

section \<open>Lookups\<close>

definition touches_at :: "projection_db \<Rightarrow> uuid \<Rightarrow> int \<Rightarrow> int \<Rightarrow> file_touch list" where
  "touches_at pd u i n =
     map touch_of_row (filter (\<lambda>r. tf_operation_ord r = Some n)
       (sort_key tf_ord (filter (\<lambda>r. tf_session r = u \<and> tf_turn_id r = i) (pd_touches pd))))"

definition operations_at :: "projection_db \<Rightarrow> uuid \<Rightarrow> int \<Rightarrow> operation_row list" where
  "operations_at pd u i =
     sort_key or_ord (filter (\<lambda>r. or_session r = u \<and> or_turn_id r = i) (pd_operations pd))"

definition pairs_at :: "codec_lib \<Rightarrow> projection_db \<Rightarrow> uuid \<Rightarrow> int \<Rightarrow> tool_pair list" where
  "pairs_at C pd u i = map (\<lambda>r. row_pair C r (touches_at pd u i (or_ord r))) (operations_at pd u i)"

lemma filter_key_sort:
  "filter (\<lambda>r. k r = i) (sort_key k xs) = filter (\<lambda>r. k r = i) xs"
proof -
  have "sort_key k (filter (\<lambda>r. k r = i) xs) = filter (\<lambda>r. k r = i) xs"
    by (rule sort_key_id_if_sorted) (induction xs; simp)
  then show ?thesis by (simp add: filter_sort)
qed

lemma operations_of_turn:
  assumes "i \<in> set ids"
  shows "filter (\<lambda>r. or_turn_id r = i) (load_projected_operation_rows pd u ids) = operations_at pd u i"
proof -
  have "filter (\<lambda>r. or_turn_id r = i) (filter (\<lambda>r. or_session r = u \<and> or_turn_id r \<in> set ids) (pd_operations pd))
      = filter (\<lambda>r. or_session r = u \<and> or_turn_id r = i) (pd_operations pd)"
    using assms by (auto simp: conj_commute intro!: filter_cong)
  then show ?thesis
    by (simp only: load_projected_operation_rows_def operations_at_def filter_key_sort) (simp only: filter_sort)
qed

lemma touches_of_turn:
  assumes "i \<in> set ids"
  shows "filter (\<lambda>r. tf_turn_id r = i) (load_projected_touch_rows pd u ids)
    = sort_key tf_ord (filter (\<lambda>r. tf_session r = u \<and> tf_turn_id r = i) (pd_touches pd))"
proof -
  have "filter (\<lambda>r. tf_turn_id r = i) (filter (\<lambda>r. tf_session r = u \<and> tf_turn_id r \<in> set ids) (pd_touches pd))
      = filter (\<lambda>r. tf_session r = u \<and> tf_turn_id r = i) (pd_touches pd)"
    using assms by (auto simp: conj_commute intro!: filter_cong)
  then show ?thesis
    by (simp only: load_projected_touch_rows_def filter_key_sort) (simp only: filter_sort)
qed

lemma touches_map:
  assumes "i \<in> set ids"
  shows "unwrap_or [] (foldl push_touch_row (\<lambda>_. None) (load_projected_touch_rows pd u ids) (i, n))
    = touches_at pd u i n"
proof -
  have split: "filter (\<lambda>r. tf_turn_id r = i \<and> tf_operation_ord r = Some n) rows
      = filter (\<lambda>r. tf_operation_ord r = Some n) (filter (\<lambda>r. tf_turn_id r = i) rows)" for rows
    by (simp add: conj_commute)
  show ?thesis unfolding touch_fold split touches_of_turn [OF assms] touches_at_def by simp
qed

lemma loaded_rows_set: "set (load_projected_operation_rows pd u ids)
  = {r \<in> set (pd_operations pd). or_session r = u \<and> or_turn_id r \<in> set ids}"
  by (auto simp: load_projected_operation_rows_def)

lemma places_distinct:
  assumes "distinct (map operation_key (pd_operations pd))"
  shows "distinct (map place (load_projected_operation_rows pd u ids))"
proof -
  let ?rows = "load_projected_operation_rows pd u ids"
  have d: "distinct (map operation_key ?rows)"
  proof -
    have "distinct (pd_operations pd)" using assms by (simp add: distinct_map)
    then have "distinct ?rows" by (simp add: load_projected_operation_rows_def)
    moreover have "inj_on operation_key (set ?rows)"
      using assms by (auto simp: distinct_map loaded_rows_set intro: inj_on_subset)
    ultimately show ?thesis by (simp add: distinct_map)
  qed
  have "inj_on place (set ?rows)"
  proof (rule inj_onI)
    fix a b
    assume m: "a \<in> set ?rows" "b \<in> set ?rows" and eq: "place a = place b"
    then have "operation_key a = operation_key b" by (simp add: operation_key_def place_def loaded_rows_set)
    then show "a = b" using d m by (auto simp: distinct_map dest: inj_onD)
  qed
  then show ?thesis using d by (simp add: distinct_map)
qed

definition turns_decode :: "codec_lib \<Rightarrow> projection_db \<Rightarrow> uuid \<Rightarrow> int list \<Rightarrow> bool" where
  "turns_decode C pd u ids \<longleftrightarrow> list_all (\<lambda>i. list_all (row_decodes C) (operations_at pd u i)) ids"

lemma operations_by_turn:
  assumes "distinct (map operation_key (pd_operations pd))"
  shows "(\<exists>m. build_operations_by_turn C (load_projected_operation_rows pd u ids)
              (load_projected_touch_rows pd u ids) = Inr m) \<longleftrightarrow> turns_decode C pd u ids"
    and "build_operations_by_turn C (load_projected_operation_rows pd u ids)
           (load_projected_touch_rows pd u ids) = Inr m \<Longrightarrow> i \<in> set ids \<Longrightarrow>
         unwrap_or [] (m i) = pairs_at C pd u i"
proof -
  note loop = operations_loop_iff [OF places_distinct [OF assms, of u ids]]
  have "list_all (row_decodes C) (load_projected_operation_rows pd u ids) \<longleftrightarrow> turns_decode C pd u ids"
    by (auto simp: turns_decode_def list_all_iff loaded_rows_set operations_at_def)
  then show "(\<exists>m. build_operations_by_turn C (load_projected_operation_rows pd u ids)
              (load_projected_touch_rows pd u ids) = Inr m) \<longleftrightarrow> turns_decode C pd u ids"
    unfolding build_operations_by_turn_def loop(1) by simp
  assume m: "build_operations_by_turn C (load_projected_operation_rows pd u ids)
      (load_projected_touch_rows pd u ids) = Inr m" and i: "i \<in> set ids"
  let ?t = "foldl push_touch_row (\<lambda>_. None) (load_projected_touch_rows pd u ids)"
  have "unwrap_or [] (m i)
      = map (\<lambda>r. row_pair C r (unwrap_or [] (?t (place r)))) (operations_at pd u i)"
    using loop(2) [OF m [unfolded build_operations_by_turn_def], of i]
    by (simp add: operations_of_turn [OF i])
  also have "\<dots> = pairs_at C pd u i"
    unfolding pairs_at_def
  proof (rule map_cong [OF refl])
    fix r
    assume "r \<in> set (operations_at pd u i)"
    then have "place r = (i, or_ord r)" by (simp add: operations_at_def place_def)
    then show "row_pair C r (unwrap_or [] (?t (place r))) = row_pair C r (touches_at pd u i (or_ord r))"
      by (simp add: touches_map [OF i])
  qed
  finally show "unwrap_or [] (m i) = pairs_at C pd u i" .
qed

section \<open>The whole timeline\<close>

definition row_turn :: "codec_lib \<Rightarrow> turn_row \<Rightarrow> tool_pair list \<Rightarrow> turn" where
  "row_turn C r pairs =
     Turn (tt_turn_id r) None (tt_preview r) (tt_user_prompt_text r) (tt_start r) (tt_end r)
       (tt_duration_ms r) (nat (max (tt_event_count r) 0)) (nat (max (tt_operation_count r) 0)) pairs
       (nat (max (tt_thinking_count r) 0)) (tt_has_errors r) (tt_markdown r)
       (unwrap_or [] (cd_chunks_back C (tt_chunks_json r))) None None None None None"

definition chunks_decode :: "codec_lib \<Rightarrow> turn_row \<Rightarrow> bool" where
  "chunks_decode C r \<longleftrightarrow> cd_chunks_back C (tt_chunks_json r) \<noteq> None"

lemma build_projected_turn_iff:
  "build_projected_turn C r ops = Inr res \<longleftrightarrow>
     chunks_decode C r
     \<and> res = (row_turn C r (unwrap_or [] (ops (tt_turn_id r))), ops(tt_turn_id r := None))"
  by (auto simp: build_projected_turn_def row_turn_def chunks_decode_def decoded_def split: option.splits)

definition wanted_row :: "projection_filters \<Rightarrow> int list option \<Rightarrow> turn_row \<Rightarrow> bool" where
  "wanted_row f ids r \<longleftrightarrow>
     (show_sidechain f \<or> \<not> tt_is_sidechain r) \<and> id_allowed ids (tt_turn_id r)
     \<and> (errors_only f \<longrightarrow> tt_has_errors r)"

lemma turns_loop_iff:
  assumes "distinct (map tt_turn_id rows)"
  shows "turns_loop C f ids rows ops = Inr ts \<longleftrightarrow>
     list_all (chunks_decode C) (filter (wanted_row f ids) rows)
     \<and> ts = map (\<lambda>r. apply_projection_filters (row_turn C r (unwrap_or [] (ops (tt_turn_id r)))) f)
               (filter (wanted_row f ids) rows)"
  using assms
proof (induction rows arbitrary: ops ts)
  case (Cons r rows)
  let ?g = "\<lambda>ops r. apply_projection_filters (row_turn C r (unwrap_or [] (ops (tt_turn_id r)))) f"
  let ?o = "ops(tt_turn_id r := None)"
  have d: "distinct (map tt_turn_id rows)" using Cons.prems by simp
  have tail: "map (?g ?o) (filter (wanted_row f ids) rows) = map (?g ops) (filter (wanted_row f ids) rows)"
  proof (rule map_cong [OF refl])
    fix x
    assume "x \<in> set (filter (wanted_row f ids) rows)"
    then have "tt_turn_id x \<noteq> tt_turn_id r" using Cons.prems by (auto simp: image_iff)
    then show "?g ?o x = ?g ops x" by simp
  qed
  show ?case
  proof (cases "wanted_row f ids r")
    case False
    then have "turns_loop C f ids (r # rows) ops = turns_loop C f ids rows ops"
      by (auto simp: wanted_row_def)
    then show ?thesis using False by (simp add: Cons.IH [OF d])
  next
    case True
    then have "turns_loop C f ids (r # rows) ops
        = res_bind (build_projected_turn C r ops) (\<lambda>(t, ops').
           res_bind (turns_loop C f ids rows ops') (\<lambda>ts. Inr (apply_projection_filters t f # ts)))"
      by (auto simp: wanted_row_def)
    then have "turns_loop C f ids (r # rows) ops = Inr ts \<longleftrightarrow>
        chunks_decode C r \<and> (\<exists>ts'. turns_loop C f ids rows ?o = Inr ts' \<and> ts = ?g ops r # ts')"
      by (auto simp: res_bind_eq_Inr build_projected_turn_iff)
    also have "\<dots> \<longleftrightarrow> chunks_decode C r \<and> list_all (chunks_decode C) (filter (wanted_row f ids) rows)
        \<and> ts = ?g ops r # map (?g ops) (filter (wanted_row f ids) rows)"
      unfolding Cons.IH [OF d] tail by blast
    finally show ?thesis using True by simp
  qed
qed auto

definition read_pair_ids ::
    "read_lib \<Rightarrow> projection_db \<Rightarrow> uuid \<Rightarrow> projection_filters \<Rightarrow> int list option" where
  "read_pair_ids R pd u f = load_referenced_turn_ids R pd u (pf_file_path f)"

definition shown_rows ::
    "read_lib \<Rightarrow> projection_db \<Rightarrow> uuid \<Rightarrow> projection_filters \<Rightarrow> turn_row list" where
  "shown_rows R pd u f = load_projected_turn_summary_rows pd u (read_pair_ids R pd u f) f"

definition unique_keys :: "projection_db \<Rightarrow> bool" where
  "unique_keys pd \<longleftrightarrow>
     distinct (map turn_key_of (pd_turns pd)) \<and> distinct (map operation_key (pd_operations pd))"

lemma turn_ids_distinct:
  assumes "distinct (map turn_key_of rows)" and "\<And>r. P r \<Longrightarrow> tt_session r = u"
  shows "distinct (map tt_turn_id (filter P rows))"
  using assms(1)
proof (induction rows)
  case (Cons r rows)
  have "tt_turn_id r \<notin> tt_turn_id ` {x \<in> set rows. P x}" if "P r"
    using Cons.prems that assms(2) by (auto simp: turn_key_of_def)
  then show ?case using Cons by auto
qed simp

lemma loaded_turn_ids_distinct:
  assumes "unique_keys pd"
  shows "distinct (map tt_turn_id (load_projected_turn_rows pd u ids errs))"
proof -
  let ?P = "\<lambda>r. tt_session r = u \<and> id_allowed ids (tt_turn_id r) \<and> (errs \<longrightarrow> tt_has_errors r)"
  have "distinct (map tt_turn_id (filter ?P (pd_turns pd)))"
    using assms by (intro turn_ids_distinct) (auto simp: unique_keys_def)
  then show ?thesis
    unfolding load_projected_turn_rows_def
    by (metis (no_types, lifting) distinct_map distinct_sort set_sort)
qed

lemma shown_rows_filter:
  "shown_rows R pd u f
     = filter (wanted_row f (read_pair_ids R pd u f))
         (load_projected_turn_rows pd u (read_pair_ids R pd u f) (errors_only f))"
  unfolding shown_rows_def load_projected_turn_summary_rows_def load_projected_turn_rows_def filter_sort
  by (rule arg_cong [of _ _ "sort_key tt_turn_ord"]) (auto simp: wanted_row_def intro!: filter_cong)

lemma timeline_iff:
  assumes "unique_keys pd"
  shows "load_timeline_response R pd u f = Inr resp \<longleftrightarrow>
     turns_decode (rd_codec R) pd u
       (map tt_turn_id (load_projected_turn_rows pd u (read_pair_ids R pd u f) (errors_only f)))
     \<and> list_all (chunks_decode (rd_codec R)) (shown_rows R pd u f)
     \<and> resp = \<lparr>tl_session_uuid = None, tl_session_agent = None,
               tl_total_event_count = total_event_count pd u,
               tl_turns = map (\<lambda>r. apply_projection_filters
                   (row_turn (rd_codec R) r (pairs_at (rd_codec R) pd u (tt_turn_id r))) f)
                 (shown_rows R pd u f)\<rparr>"
proof -
  let ?C = "rd_codec R"
  let ?ids = "read_pair_ids R pd u f"
  let ?rows = "load_projected_turn_rows pd u ?ids (errors_only f)"
  let ?n = "total_event_count pd u"
  let ?ops = "load_projected_operation_rows pd u (map tt_turn_id ?rows)"
  let ?ts = "load_projected_touch_rows pd u (map tt_turn_id ?rows)"
  let ?out = "map (\<lambda>r. apply_projection_filters (row_turn ?C r (pairs_at ?C pd u (tt_turn_id r))) f)
                 (shown_rows R pd u f)"
  show ?thesis
  proof (cases "?ids = Some []")
    case True
    have empty: "filter (\<lambda>r. tt_session r = u \<and> id_allowed (Some []) (tt_turn_id r) \<and> Q r) (pd_turns pd) = []" for Q
      by (simp add: filter_empty_conv id_allowed_def)
    have "?rows = []" "shown_rows R pd u f = []"
      unfolding load_projected_turn_rows_def shown_rows_def load_projected_turn_summary_rows_def True
      by (simp_all add: empty)
    then show ?thesis
      using True by (auto simp: load_timeline_response_def read_pair_ids_def empty_timeline_response_def turns_decode_def)
  next
    case False
    have keys: "distinct (map operation_key (pd_operations pd))" using assms by (simp add: unique_keys_def)
    note built = operations_by_turn [OF keys, of ?C u "map tt_turn_id ?rows"]
    have loop: "turns_loop ?C f ?ids ?rows m = Inr ts \<longleftrightarrow>
        list_all (chunks_decode ?C) (shown_rows R pd u f) \<and> ts = ?out"
      if m: "build_operations_by_turn ?C ?ops ?ts = Inr m" for m ts
    proof -
      have e: "map (\<lambda>r. apply_projection_filters (row_turn ?C r (unwrap_or [] (m (tt_turn_id r)))) f)
          (filter (wanted_row f ?ids) ?rows) = ?out"
        unfolding shown_rows_filter
        by (intro map_cong refl) (use built(2) [OF m] in simp)
      then show ?thesis
        by (simp only: turns_loop_iff [OF loaded_turn_ids_distinct [OF assms]] e) (simp only: shown_rows_filter)
    qed
    have "load_timeline_response R pd u f = res_bind (build_operations_by_turn ?C ?ops ?ts) (\<lambda>ops.
        res_bind (turns_loop ?C f ?ids ?rows ops) (\<lambda>ts.
          Inr \<lparr>tl_session_uuid = None, tl_session_agent = None, tl_total_event_count = ?n, tl_turns = ts\<rparr>))"
      using False unfolding read_pair_ids_def by (simp add: load_timeline_response_def Let_def)
    then have "load_timeline_response R pd u f = Inr resp \<longleftrightarrow>
        (\<exists>m. build_operations_by_turn ?C ?ops ?ts = Inr m
           \<and> list_all (chunks_decode ?C) (shown_rows R pd u f)
           \<and> resp = \<lparr>tl_session_uuid = None, tl_session_agent = None, tl_total_event_count = ?n, tl_turns = ?out\<rparr>)"
      using loop by (auto simp: res_bind_eq_Inr)
    then show ?thesis using built(1) by blast
  qed
qed

end
