(* ===== verification/Projection_Views.thy ===== *)
theory Projection_Views
  imports Projection_Lookup Projection_Agree
begin

text \<open>
  The three views of a stored timeline, the list of its turns, the detail of one turn and the
  summary, show the same turns.
\<close>

section \<open>Detail\<close>

lemma apply_filters_id [simp]: "t_id (apply_projection_filters t f) = t_id t"
  by (cases t) (simp add: apply_projection_filters_def)

lemma row_turn_id [simp]: "t_id (row_turn C r ps) = tt_turn_id r"
  by (simp add: row_turn_def)

lemma find_map: "find P (map g xs) = map_option g (find (P \<circ> g) xs)"
  by (induction xs) auto

lemma shown_rows_set:
  "r \<in> set (shown_rows R pd u f) \<longleftrightarrow>
     r \<in> set (pd_turns pd) \<and> tt_session r = u \<and> wanted_row f (read_pair_ids R pd u f) r"
  by (auto simp: shown_rows_def load_projected_turn_summary_rows_def wanted_row_def)

lemma turn_row_unique:
  assumes "unique_keys pd" and "r \<in> set (pd_turns pd)" and "tt_session r = u" and "errs \<longrightarrow> tt_has_errors r"
  shows "load_projected_turn_row pd u (tt_turn_id r) errs = Some r"
proof -
  have inj: "inj_on turn_key_of (set (pd_turns pd))"
    using assms(1) by (simp add: unique_keys_def distinct_map)
  obtain x where x: "load_projected_turn_row pd u (tt_turn_id r) errs = Some x"
    using assms(2-4) by (cases "load_projected_turn_row pd u (tt_turn_id r) errs")
      (auto simp: load_projected_turn_row_def find_None_iff)
  then have "x \<in> set (pd_turns pd)" "turn_key_of x = turn_key_of r"
    using assms(3) by (auto simp: load_projected_turn_row_def find_Some_iff turn_key_of_def)
  then show ?thesis using x inj assms(2) by (auto dest: inj_onD)
qed

lemma detail_iff:
  assumes "unique_keys pd"
  shows "load_timeline_turn_detail R pd u i f = Inr res \<longleftrightarrow>
     (case find (\<lambda>r. tt_turn_id r = i) (shown_rows R pd u f) of
        None \<Rightarrow> res = None
      | Some r \<Rightarrow> turns_decode (rd_codec R) pd u [i] \<and> chunks_decode (rd_codec R) r
          \<and> res = Some (apply_projection_filters (row_turn (rd_codec R) r (pairs_at (rd_codec R) pd u i)) f))"
proof (cases "find (\<lambda>r. tt_turn_id r = i) (shown_rows R pd u f)")
  case None
  then have none: "\<not> (wanted_row f (read_pair_ids R pd u f) r \<and> tt_turn_id r = i)"
    if "r \<in> set (pd_turns pd)" "tt_session r = u" for r
    using that by (auto simp: find_None_iff shown_rows_set)
  have "load_timeline_turn_detail R pd u i f = Inr None"
  proof (cases "load_projected_turn_row pd u i (errors_only f)")
    case (Some r)
    then have r: "r \<in> set (pd_turns pd)" "tt_session r = u" "tt_turn_id r = i" "errors_only f \<longrightarrow> tt_has_errors r"
      by (auto simp: load_projected_turn_row_def find_Some_iff)
    then have "\<not> id_allowed (read_pair_ids R pd u f) i \<or> \<not> show_sidechain f \<and> tt_is_sidechain r"
      using none [OF r(1,2)] by (auto simp: wanted_row_def)
    then show ?thesis using Some by (auto simp: load_timeline_turn_detail_def read_pair_ids_def Let_def)
  qed (simp add: load_timeline_turn_detail_def Let_def)
  with None show ?thesis by auto
next
  case (Some r)
  then have "r \<in> set (shown_rows R pd u f)" "tt_turn_id r = i" by (auto simp: find_Some_iff)
  then have r: "r \<in> set (pd_turns pd)" "tt_session r = u" "tt_turn_id r = i"
    "wanted_row f (read_pair_ids R pd u f) r"
    by (simp_all add: shown_rows_set)
  have row: "load_projected_turn_row pd u i (errors_only f) = Some r"
    using turn_row_unique [OF assms r(1,2)] r(3,4) by (simp add: wanted_row_def)
  have keys: "distinct (map operation_key (pd_operations pd))" using assms by (simp add: unique_keys_def)
  note built = operations_by_turn [OF keys, of "rd_codec R" u "[i]"]
  have "load_timeline_turn_detail R pd u i f
      = res_bind (build_operations_by_turn (rd_codec R) (load_projected_operation_rows pd u [i])
            (load_projected_touch_rows pd u [i])) (\<lambda>ops.
          res_bind (build_projected_turn (rd_codec R) r ops) (\<lambda>(t, _).
            Inr (Some (apply_projection_filters t f))))"
    using row r(3,4) by (auto simp: load_timeline_turn_detail_def read_pair_ids_def wanted_row_def Let_def)
  then have "load_timeline_turn_detail R pd u i f = Inr res \<longleftrightarrow>
      (\<exists>m. build_operations_by_turn (rd_codec R) (load_projected_operation_rows pd u [i])
            (load_projected_touch_rows pd u [i]) = Inr m)
      \<and> chunks_decode (rd_codec R) r
      \<and> res = Some (apply_projection_filters (row_turn (rd_codec R) r (pairs_at (rd_codec R) pd u i)) f)"
    using built(2) [where i = i] r(3) by (auto simp: res_bind_eq_Inr build_projected_turn_iff)
  then show ?thesis using built(1) by (simp add: Some)
qed

section \<open>Summary\<close>

definition badges_at :: "read_lib \<Rightarrow> projection_db \<Rightarrow> uuid \<Rightarrow> int list \<Rightarrow> int \<Rightarrow> operation_badge list" where
  "badges_at R pd u ids i =
     map (\<lambda>b. \<lparr>ob_name = bg_name b, ob_operation_type = bg_operation_type b,
               ob_count = nat (max (bg_count b) 0)\<rparr>)
       (filter (\<lambda>b. bg_turn_id b = i) (load_projected_operation_badge_rows R pd u ids))"

lemma badges_lookup:
  "unwrap_or [] (build_operation_badges_by_turn (load_projected_operation_badge_rows R pd u ids) i)
     = badges_at R pd u ids i"
  unfolding build_operation_badges_by_turn_def badges_at_def push_fold by simp

definition row_summary :: "turn_row \<Rightarrow> operation_badge list \<Rightarrow> turn_summary" where
  "row_summary r bs = fst (build_projected_turn_summary r (\<lambda>_. Some bs))"

lemma summaries_loop_map:
  assumes "distinct (map tt_turn_id rows)"
  shows "summaries_loop rows badges = map (\<lambda>r. row_summary r (unwrap_or [] (badges (tt_turn_id r)))) rows"
  using assms
proof (induction rows arbitrary: badges)
  case (Cons r rows)
  let ?b = "badges(tt_turn_id r := None)"
  have "map (\<lambda>x. row_summary x (unwrap_or [] (?b (tt_turn_id x)))) rows
      = map (\<lambda>x. row_summary x (unwrap_or [] (badges (tt_turn_id x)))) rows"
    by (rule map_cong) (use Cons.prems in \<open>auto simp: image_iff\<close>)
  then show ?case
    using Cons by (simp add: build_projected_turn_summary_def row_summary_def)
qed simp

lemma count_by_key:
  assumes "finite K"
  shows "(\<Sum>k\<in>K. length (filter (\<lambda>r. key r = k) rows)) = length (filter (\<lambda>r. key r \<in> K) rows)"
proof (induction rows)
  case (Cons r rows)
  have "(\<Sum>k\<in>K. length (filter (\<lambda>r. key r = k) (r # rows)))
      = (\<Sum>k\<in>K. (if k = key r then 1 else 0) + length (filter (\<lambda>r. key r = k) rows))"
    by (rule sum.cong) auto
  also have "\<dots> = (if key r \<in> K then 1 else 0) + (\<Sum>k\<in>K. length (filter (\<lambda>r. key r = k) rows))"
    using assms by (simp add: sum.distrib sum.delta)
  finally show ?case using Cons by simp
qed simp

lemma sum_list_sort: "sum_list (map f (sort_key k xs)) = sum_list (map (f :: _ \<Rightarrow> nat) xs)"
proof -
  have "sum_list (map f (insort_key k x ys)) = f x + sum_list (map f ys)" for x ys
    by (induction ys) auto
  then show ?thesis by (induction xs) simp_all
qed

lemma badge_counts:
  assumes "i \<in> set ids"
  shows "sum_list (map ob_count (badges_at R pd u ids i)) = length (pairs_at C pd u i)"
proof -
  let ?rows = "filter (\<lambda>r. or_session r = u \<and> or_turn_id r \<in> set ids) (pd_operations pd)"
  let ?g = "\<lambda>(i, name, ty). \<lparr>bg_turn_id = i, bg_name = name, bg_operation_type = ty,
      bg_count = int (length (filter (\<lambda>r. badge_key r = (i, name, ty)) ?rows))\<rparr>"
  let ?keys = "filter (\<lambda>k. fst k = i) (remdups (map badge_key ?rows))"
  have g: "bg_turn_id (?g k) = fst k" "nat (max (bg_count (?g k)) 0) = length (filter (\<lambda>r. badge_key r = k) ?rows)" for k
    by (cases k; simp)+
  have "sum_list (map ob_count (badges_at R pd u ids i))
      = sum_list (map (\<lambda>b. nat (max (bg_count b) 0)) (filter (\<lambda>b. bg_turn_id b = i)
          (load_projected_operation_badge_rows R pd u ids)))"
    by (simp add: badges_at_def o_def)
  also have "\<dots> = sum_list (map (\<lambda>b. nat (max (bg_count b) 0)) (filter (\<lambda>b. bg_turn_id b = i)
          (map ?g (remdups (map badge_key ?rows)))))"
    unfolding load_projected_operation_badge_rows_def Let_def filter_sort by (simp only: sum_list_sort)
  also have "\<dots> = sum_list (map (\<lambda>k. length (filter (\<lambda>r. badge_key r = k) ?rows)) ?keys)"
    by (simp only: filter_map o_def g map_map)
  also have "\<dots> = (\<Sum>k\<in>set ?keys. length (filter (\<lambda>r. badge_key r = k) ?rows))"
    by (simp add: sum_list_distinct_conv_sum_set)
  also have "\<dots> = length (filter (\<lambda>r. badge_key r \<in> set ?keys) ?rows)" by (rule count_by_key) simp
  also have "filter (\<lambda>r. badge_key r \<in> set ?keys) ?rows
      = filter (\<lambda>r. or_session r = u \<and> or_turn_id r = i) (pd_operations pd)"
    using assms by (auto simp: badge_key_def intro!: filter_cong)
  finally show ?thesis by (simp add: pairs_at_def operations_at_def)
qed

text \<open>A summary and a turn that show the same.\<close>

definition summarises :: "turn_summary \<Rightarrow> turn \<Rightarrow> bool" where
  "summarises s t \<longleftrightarrow>
     ts_id s = t_id t \<and> ts_preview s = t_preview t \<and> ts_start s = t_start t \<and> ts_end s = t_end t
     \<and> ts_duration_ms s = t_duration_ms t \<and> ts_event_count s = t_event_count t
     \<and> ts_operation_count s = t_operation_count t \<and> ts_thinking_count s = t_thinking_count t
     \<and> ts_has_errors s = t_has_errors t
     \<and> sum_list (map ob_count (ts_operation_badges s)) = length (t_tool_pairs t)"

lemma with_chunks_keeps [simp]:
  "t_preview (with_chunks t cs) = t_preview t" "t_start (with_chunks t cs) = t_start t"
  "t_end (with_chunks t cs) = t_end t" "t_duration_ms (with_chunks t cs) = t_duration_ms t"
  "t_event_count (with_chunks t cs) = t_event_count t" "t_has_errors (with_chunks t cs) = t_has_errors t"
  "t_operation_count (with_chunks t cs) = t_operation_count t"
  "t_thinking_count (with_chunks t cs) = t_thinking_count t"
  "t_tool_pairs (with_chunks t cs) = t_tool_pairs t" "t_id (with_chunks t cs) = t_id t"
  by (cases t; simp)+

lemma summary_turns:
  assumes "unique_keys pd"
  shows "load_timeline_summary_response R pd u f
    = \<lparr>sr_session_uuid = None, sr_session_agent = None, sr_total_event_count = total_event_count pd u,
       sr_turns = map (\<lambda>r. row_summary r (badges_at R pd u (map tt_turn_id (shown_rows R pd u f)) (tt_turn_id r)))
         (shown_rows R pd u f)\<rparr>"
proof (cases "read_pair_ids R pd u f = Some []")
  case True
  then have "shown_rows R pd u f = []"
    by (auto simp: shown_rows_def load_projected_turn_summary_rows_def id_allowed_def filter_empty_conv)
  with True show ?thesis
    by (simp add: load_timeline_summary_response_def read_pair_ids_def empty_timeline_summary_response_def Let_def)
next
  case False
  have d: "distinct (map tt_turn_id (shown_rows R pd u f))"
    unfolding shown_rows_filter
    using loaded_turn_ids_distinct [OF assms] by (rule distinct_map_filter)
  show ?thesis
    using False
    by (simp add: load_timeline_summary_response_def read_pair_ids_def [symmetric] Let_def
        shown_rows_def [symmetric] summaries_loop_map [OF d] badges_lookup)
qed

lemma views_agree:
  assumes "unique_keys pd" and "load_timeline_response R pd u f = Inr resp"
  shows "load_timeline_turn_detail R pd u i f = Inr (find (\<lambda>t. t_id t = i) (tl_turns resp))
    \<and> sr_total_event_count (load_timeline_summary_response R pd u f) = tl_total_event_count resp
    \<and> list_all2 summarises (sr_turns (load_timeline_summary_response R pd u f)) (tl_turns resp)"
proof -
  let ?C = "rd_codec R"
  let ?shown = "shown_rows R pd u f"
  let ?turn = "\<lambda>r. apply_projection_filters (row_turn ?C r (pairs_at ?C pd u (tt_turn_id r))) f"
  have resp: "turns_decode ?C pd u
       (map tt_turn_id (load_projected_turn_rows pd u (read_pair_ids R pd u f) (errors_only f)))"
    "list_all (chunks_decode ?C) ?shown" "tl_turns resp = map ?turn ?shown"
    "tl_total_event_count resp = total_event_count pd u"
    using assms(2) by (simp_all add: timeline_iff [OF assms(1)])
  have "load_timeline_turn_detail R pd u i f = Inr (find (\<lambda>t. t_id t = i) (map ?turn ?shown))"
  proof (cases "find (\<lambda>r. tt_turn_id r = i) ?shown")
    case (Some r)
    then have r: "r \<in> set ?shown" "tt_turn_id r = i" by (auto simp: find_Some_iff)
    have "turns_decode ?C pd u [i]" "chunks_decode ?C r"
      using resp(1,2) r by (auto simp: turns_decode_def list_all_iff shown_rows_filter)
    then show ?thesis using Some r(2) by (simp add: detail_iff [OF assms(1)] find_map o_def)
  qed (simp add: detail_iff [OF assms(1)] find_map o_def)
  moreover have "list_all2 summarises
      (map (\<lambda>r. row_summary r (badges_at R pd u (map tt_turn_id ?shown) (tt_turn_id r))) ?shown) (map ?turn ?shown)"
    unfolding list.rel_map
  proof (rule list.rel_refl_strong)
    fix r
    assume "r \<in> set ?shown"
    then have "tt_turn_id r \<in> set (map tt_turn_id ?shown)" by simp
    from badge_counts [OF this]
    show "summarises (row_summary r (badges_at R pd u (map tt_turn_id ?shown) (tt_turn_id r))) (?turn r)"
      by (simp add: summarises_def row_summary_def build_projected_turn_summary_def row_turn_def
          apply_projection_filters_def)
  qed
  ultimately show ?thesis by (simp add: resp(3,4) summary_turns [OF assms(1)])
qed

lemma timeline_ids_distinct:
  assumes "unique_keys pd" and "load_timeline_response R pd u f = Inr resp"
  shows "distinct (map t_id (tl_turns resp))"
proof -
  have "map t_id (tl_turns resp) = map tt_turn_id (shown_rows R pd u f)"
    using assms(2) by (simp add: timeline_iff [OF assms(1)] o_def)
  then show ?thesis
    unfolding shown_rows_filter using loaded_turn_ids_distinct [OF assms(1)] by (simp add: distinct_map_filter)
qed

text \<open>
  In tables with unique keys, whatever the filters: when the timeline of a session loads,
  the detail of a turn is the turn with its identifier in that timeline (nothing when it is
  not there), and the summary lists the same turns in the same order with the same figures,
  its badges counting exactly the operations of the turn.
\<close>

theorem timeline_views_agree:
  assumes "unique_keys pd" and "load_timeline_response R pd u f = Inr resp"
  shows "load_timeline_turn_detail R pd u i f = Inr (find (\<lambda>t. t_id t = i) (tl_turns resp))
    \<and> sr_total_event_count (load_timeline_summary_response R pd u f) = tl_total_event_count resp
    \<and> list_all2 summarises (sr_turns (load_timeline_summary_response R pd u f)) (tl_turns resp)"
  by (rule views_agree [OF assms])

definition sample_reader :: read_lib where
  "sample_reader =
     \<lparr>rd_text = sample_text, rd_codec = sample_codec, rd_lower = (\<lambda>s. s), rd_collate = (\<lambda>s. s)\<rparr>"

lemma sample_views:
  "unique_keys (projected_db first_rows)"
  "map_option (\<lambda>resp. map t_id (tl_turns resp))
     (case load_timeline_response sample_reader (projected_db first_rows) 1 default_filters of
        Inl e \<Rightarrow> None | Inr resp \<Rightarrow> Some resp) = Some [0, 20]"
  by code_simp+

theorem timeline_views_agree_witness:
  "\<exists>t. load_timeline_turn_detail sample_reader (projected_db first_rows) 1 20 default_filters = Inr (Some t)
     \<and> t_id t = 20"
proof -
  obtain resp where resp: "load_timeline_response sample_reader (projected_db first_rows) 1 default_filters = Inr resp"
    "map t_id (tl_turns resp) = [0, 20]"
    using sample_views(2) by (auto split: sum.splits)
  from resp(2) obtain a b where "tl_turns resp = [a, b]" "t_id a = 0" "t_id b = 20" by (auto simp: map_eq_Cons_conv)
  then show ?thesis
    using timeline_views_agree [OF sample_views(1) resp(1), of 20] by simp
qed

end
