(* ===== verification/Projection_Roundtrip.thy ===== *)
theory Projection_Roundtrip
  imports Projection_Agree Projection_Views
begin

text \<open>
  What a rebuild stores is what the timeline shows: reading after a full rebuild gives the
  projected turns, filtered, in order.
\<close>

section \<open>What survives storing\<close>

text \<open>A result with neither text nor payload is stored as no result.\<close>

fun kept_pair :: "tool_pair \<Rightarrow> tool_pair" where
  "kept_pair (ToolPair i nm rn ot c inp r e pe ts sub) =
     ToolPair i nm rn ot c inp (opt_filter (\<lambda>v. tr_content v \<noteq> None \<or> tr_payload v \<noteq> None) r) e pe ts sub"

definition kept_turn :: "turn \<Rightarrow> turn" where
  "kept_turn t = with_tool_pairs t (map kept_pair (t_tool_pairs t))"

definition wanted_turn :: "read_lib \<Rightarrow> projection_filters \<Rightarrow> stored_turn \<Rightarrow> bool" where
  "wanted_turn R f st \<longleftrightarrow>
     (show_sidechain f \<or> \<not> st_is_sidechain_turn st) \<and> (errors_only f \<longrightarrow> t_has_errors (st_turn st))
     \<and> (trim (pf_file_path f) = []
        \<or> list_ex (\<lambda>t. path_matches R (pf_file_path f) (sf_repo_rel_path t)) (st_file_touches st))"

definition codec_inverts :: "codec_lib \<Rightarrow> stored_turn \<Rightarrow> bool" where
  "codec_inverts C st \<longleftrightarrow>
     cd_chunks_back C (cd_chunks C (t_chunks (st_turn st))) = Some (t_chunks (st_turn st))
     \<and> list_all (\<lambda>op. case so_subagent op of None \<Rightarrow> True
                  | Some s \<Rightarrow> cd_subagent_back C (cd_subagent C s) = Some s) (st_operations st)"

definition within_i32 :: "stored_turn \<Rightarrow> bool" where
  "within_i32 st \<longleftrightarrow>
     t_event_count (st_turn st) < 2 ^ 31 \<and> t_operation_count (st_turn st) < 2 ^ 31
     \<and> t_thinking_count (st_turn st) < 2 ^ 31
     \<and> length (st_operations st) \<le> 2 ^ 31 \<and> length (st_file_touches st) \<le> 2 ^ 31"

section \<open>Rows of one turn\<close>

lemma concat_at:
  assumes "distinct (map f xs)" and "x \<in> set xs" and "\<And>y r. y \<in> set xs \<Longrightarrow> r \<in> set (g y) \<Longrightarrow> k r = f y"
  shows "filter (\<lambda>r. k r = f x) (concat (map g xs)) = g x"
  using assms
proof (induction xs)
  case (Cons a xs)
  show ?case
  proof (cases "x = a")
    case True
    then have "f y \<noteq> f x" if "y \<in> set xs" for y using Cons.prems(1) that by (auto simp: image_iff)
    then have "filter (\<lambda>r. k r = f x) (concat (map g xs)) = []"
      using Cons.prems(3) by (fastforce simp: filter_empty_conv)
    moreover have "filter (\<lambda>r. k r = f x) (g a) = g a"
      by (rule filter_True) (use True Cons.prems(3) in auto)
    ultimately show ?thesis using True by simp
  next
    case False
    then have "x \<in> set xs" using Cons.prems(2) by simp
    then have "f a \<noteq> f x" using Cons.prems(1) by (auto simp: image_iff)
    then have "filter (\<lambda>r. k r = f x) (g a) = []" using Cons.prems(3) by (fastforce simp: filter_empty_conv)
    then show ?thesis using Cons False by simp
  qed
qed simp

lemma ords_sorted: "n \<le> 2 ^ 31 \<Longrightarrow> sorted (map as_i32 [0..<n])"
proof -
  assume n: "n \<le> 2 ^ 31"
  have "map as_i32 [0..<n] = map int [0..<n]" by (rule map_cong) (use n in \<open>auto simp: as_i32_small\<close>)
  then show ?thesis by (simp add: sorted_iff_nth_mono)
qed

lemma touches_of_operation:
  assumes "map touch_row ts = concat (map (\<lambda>op. map (\<lambda>t. (Some (so_operation_ord op), t)) (so_file_touches op)) ops)"
    and "distinct (map so_operation_ord ops)" and "op \<in> set ops"
  shows "map touch_of_row (filter (\<lambda>r. tf_operation_ord r = Some (so_operation_ord op)) (map (touch_row_of u i) ts))
    = so_file_touches op"
proof -
  have row: "touch_of_row (touch_row_of u i t) = snd (touch_row t)"
    "tf_operation_ord (touch_row_of u i t) = fst (touch_row t)" for t
    by (simp_all add: touch_of_row_def touch_row_of_def touch_row_def)
  have "map touch_of_row (filter (\<lambda>r. tf_operation_ord r = Some (so_operation_ord op)) (map (touch_row_of u i) ts))
      = map snd (filter (\<lambda>x. fst x = Some (so_operation_ord op)) (map touch_row ts))"
    by (simp add: filter_map o_def row)
  also have "filter (\<lambda>x. fst x = Some (so_operation_ord op)) (map touch_row ts)
      = map (\<lambda>t. (Some (so_operation_ord op), t)) (so_file_touches op)"
    unfolding assms(1)
    by (rule concat_at [where f = "\<lambda>op. Some (so_operation_ord op)"])
       (use assms(2,3) in \<open>auto simp: distinct_map inj_on_def\<close>)
  finally show ?thesis by (simp add: o_def)
qed

lemma tool_pair_kept:
  assumes "case so_subagent (operation_of fs ctx (n, q)) of None \<Rightarrow> True
    | Some s \<Rightarrow> cd_subagent_back C (cd_subagent C s) = Some s"
  shows "row_pair C (operation_row_of C u i (operation_of fs ctx (n, q))) (extract_file_touches fs q ctx)
    = kept_pair (with_file_touches q (extract_file_touches fs q ctx))"
proof -
  have cat: "Option.bind (map_option category_str c) category_parse = c" for c
    by (cases c) (simp_all add: category_parse_str)
  obtain j nm rn ot c inp r e pe ts sub where q: "q = ToolPair j nm rn ot c inp r e pe ts sub" by (cases q)
  have "Option.bind (map_option (cd_subagent C) sub) (cd_subagent_back C) = sub"
    using assms by (cases sub) (simp_all add: q operation_of_def)
  then show ?thesis
    by (cases r) (simp_all add: q row_pair_def operation_row_of_def operation_of_def cat)
qed

text \<open>One stored turn, its rows, and the turn they read back as.\<close>

lemma projected_turn_plain:
  assumes "project_turn X g events default_filters True = Some t"
  shows "t_turn_key t = None \<and> t_pty_session_id t = None \<and> t_session_uuid t = None
    \<and> t_session_agent t = None \<and> t_session_label t = None \<and> t_session_state t = None"
  using assms by (auto simp: project_turn_def project_turn_with_def Let_def bind_eq_Some_conv)

lemma row_turn_kept:
  assumes "stored_turn_of X fs events ctx (n, g) = Some st" and "within_i32 st" and "codec_inverts C st"
  shows "row_turn C (turn_row_of C u st) (map kept_pair (t_tool_pairs (st_turn st))) = kept_turn (st_turn st)"
proof -
  have ops: "length (st_operations st) \<le> 2 ^ 31" using assms(2) by (simp add: within_i32_def)
  obtain t ps where t: "project_turn X g events default_filters True = Some t" "st_turn st = with_tool_pairs t ps"
    by (rule stored_turn_parts [OF assms(1) ops]) blast
  obtain i k pv up s e d ec oc qs th er md cs py su sa sl ss
    where shape: "t = Turn i k pv up s e d ec oc qs th er md cs py su sa sl ss" by (cases t)
  have n: "nat (max (as_i32 m) 0) = m" if "m < 2 ^ 31" for m using that by (simp add: as_i32_small)
  show ?thesis
    using assms(2,3) projected_turn_plain [OF t(1)]
    by (simp add: kept_turn_def row_turn_def turn_row_of_def t(2) shape Let_def within_i32_def codec_inverts_def n)
qed

lemma operation_pairs_kept:
  assumes "stored_turn_of X fs events ctx (n, g) = Some st" and "within_i32 st" and "codec_inverts C st"
  shows "map (\<lambda>op. row_pair C (operation_row_of C u i op)
           (map touch_of_row (filter (\<lambda>r. tf_operation_ord r = Some (so_operation_ord op))
              (map (touch_row_of u i) (st_file_touches st))))) (st_operations st)
    = map kept_pair (t_tool_pairs (st_turn st))"
    and "sorted (map so_operation_ord (st_operations st))"
    and "sorted (map sf_touch_ord (st_file_touches st))"
proof -
  have small: "length (st_operations st) \<le> 2 ^ 31" "length (st_file_touches st) \<le> 2 ^ 31"
    using assms(2) by (simp_all add: within_i32_def)
  obtain t where ops: "st_operations st = map (operation_of fs ctx) (enumerate 0 (t_tool_pairs t))"
    and turn: "st_turn st
      = with_tool_pairs t (map (\<lambda>q. with_file_touches q (extract_file_touches fs q ctx)) (t_tool_pairs t))"
    and ft: "st_file_touches st = build_file_touch_projections (st_operations st)"
    by (rule stored_turn_parts [OF assms(1) small(1)]) blast
  have ords: "map so_operation_ord (st_operations st) = map as_i32 [0..<length (st_operations st)]"
    unfolding ops operation_columns by simp
  show sorted: "sorted (map so_operation_ord (st_operations st))" unfolding ords by (rule ords_sorted [OF small(1)])
  show "sorted (map sf_touch_ord (st_file_touches st))"
    using ords_sorted [OF small(2)] by (simp only: ft touch_rows(1))
  have e: "map as_i32 [0..<length (st_operations st)] = map int [0..<length (st_operations st)]"
    by (rule map_cong) (use small(1) in \<open>auto simp: as_i32_small\<close>)
  have d: "distinct (map so_operation_ord (st_operations st))" unfolding ords e by (simp add: distinct_map)
  have ts: "map touch_row (st_file_touches st)
      = concat (map (\<lambda>op. map (\<lambda>t. (Some (so_operation_ord op), t)) (so_file_touches op)) (st_operations st))"
    by (simp only: ft touch_rows(2))
  have "map (\<lambda>op. row_pair C (operation_row_of C u i op)
           (map touch_of_row (filter (\<lambda>r. tf_operation_ord r = Some (so_operation_ord op))
              (map (touch_row_of u i) (st_file_touches st))))) (st_operations st)
      = map (\<lambda>op. row_pair C (operation_row_of C u i op) (so_file_touches op)) (st_operations st)"
    by (rule map_cong [OF refl]) (simp only: touches_of_operation [OF ts d])
  also have "\<dots> = map (\<lambda>np. kept_pair (with_file_touches (snd np) (extract_file_touches fs (snd np) ctx)))
      (enumerate 0 (t_tool_pairs t))"
    unfolding ops map_map
  proof (rule map_cong [OF refl])
    fix np
    assume "np \<in> set (enumerate 0 (t_tool_pairs t))"
    then have "operation_of fs ctx np \<in> set (st_operations st)" by (simp add: ops)
    then have "case so_subagent (operation_of fs ctx np) of None \<Rightarrow> True
        | Some s \<Rightarrow> cd_subagent_back C (cd_subagent C s) = Some s"
      using assms(3) by (auto simp: codec_inverts_def list_all_iff)
    then have "row_pair C (operation_row_of C u i (operation_of fs ctx (fst np, snd np)))
        (extract_file_touches fs (snd np) ctx)
        = kept_pair (with_file_touches (snd np) (extract_file_touches fs (snd np) ctx))"
      by (intro tool_pair_kept) simp
    then show "((\<lambda>op. row_pair C (operation_row_of C u i op) (so_file_touches op)) \<circ> operation_of fs ctx) np
        = kept_pair (with_file_touches (snd np) (extract_file_touches fs (snd np) ctx))"
      by (cases np) (simp add: operation_of_def)
  qed
  also have "\<dots> = map kept_pair (t_tool_pairs (st_turn st))"
    by (simp add: turn comp_def) (metis (no_types, lifting) comp_apply map_cong map_map map_snd_enumerate)
  finally show "map (\<lambda>op. row_pair C (operation_row_of C u i op)
           (map touch_of_row (filter (\<lambda>r. tf_operation_ord r = Some (so_operation_ord op))
              (map (touch_row_of u i) (st_file_touches st))))) (st_operations st)
    = map kept_pair (t_tool_pairs (st_turn st))" .
qed

section \<open>The tables of a rebuilt session\<close>

text \<open>The tables hold exactly the rows of the projected turns, in any state of the other sessions.\<close>

definition holds_projection :: "codec_lib \<Rightarrow> projection_db \<Rightarrow> uuid \<Rightarrow> stored_turn list \<Rightarrow> bool" where
  "holds_projection C pd u sts \<longleftrightarrow>
     session_tables pd u = tables_of C u sts \<and> distinct (map (\<lambda>st. t_id (st_turn st)) sts)
     \<and> sorted (map st_turn_ord sts)"

lemma split_session: "filter (\<lambda>r. s r = u \<and> Q r) rows = filter Q (filter (\<lambda>r. s r = u) rows)"
  by (simp add: conj_commute)

lemma held_tables:
  assumes "holds_projection C pd u sts"
  shows "filter (\<lambda>r. tt_session r = u) (pd_turns pd) = turn_rows C u sts"
    and "filter (\<lambda>r. or_session r = u) (pd_operations pd) = operation_rows C u sts"
    and "filter (\<lambda>r. tf_session r = u) (pd_touches pd) = touch_rows_of u sts"
  using assms by (simp_all add: holds_projection_def session_tables_def tables_of_def)

lemma rows_of_turn:
  assumes "distinct (map (\<lambda>st. t_id (st_turn st)) sts)" and "st \<in> set sts"
  shows "filter (\<lambda>r. or_turn_id r = t_id (st_turn st)) (operation_rows C u sts)
      = map (operation_row_of C u (t_id (st_turn st))) (st_operations st)"
    and "filter (\<lambda>r. tf_turn_id r = t_id (st_turn st)) (touch_rows_of u sts)
      = map (touch_row_of u (t_id (st_turn st))) (st_file_touches st)"
  unfolding operation_rows_def touch_rows_of_def
  by (rule concat_at [where f = "\<lambda>st. t_id (st_turn st)"]; use assms in auto)+

lemma stored_row_decodes:
  assumes "case so_subagent op of None \<Rightarrow> True | Some s \<Rightarrow> cd_subagent_back C (cd_subagent C s) = Some s"
  shows "row_decodes C (operation_row_of C u i op)"
  using assms by (cases "so_subagent op") (simp_all add: row_decodes_def operation_row_of_def)

lemma pairs_held:
  assumes "holds_projection C pd u sts" and "st \<in> set sts"
    and "stored_turn_of X fs events ctx (n, g) = Some st" and "within_i32 st" and "codec_inverts C st"
  shows "pairs_at C pd u (t_id (st_turn st)) = map kept_pair (t_tool_pairs (st_turn st))"
    and "list_all (row_decodes C) (operations_at pd u (t_id (st_turn st)))"
proof -
  let ?i = "t_id (st_turn st)"
  note kept = operation_pairs_kept [OF assms(3-5)]
  have d: "distinct (map (\<lambda>st. t_id (st_turn st)) sts)" using assms(1) by (simp add: holds_projection_def)
  have ords: "map or_ord (map (operation_row_of C u ?i) (st_operations st)) = map so_operation_ord (st_operations st)"
    "map tf_ord (map (touch_row_of u ?i) (st_file_touches st)) = map sf_touch_ord (st_file_touches st)"
    by (simp_all add: operation_row_of_def touch_row_of_def)
  have ops: "operations_at pd u ?i = map (operation_row_of C u ?i) (st_operations st)"
    unfolding operations_at_def split_session held_tables(2) [OF assms(1)] rows_of_turn(1) [OF d assms(2)]
    by (rule sort_key_id_if_sorted) (unfold ords, rule kept(2))
  have "sort_key tf_ord (filter (\<lambda>r. tf_session r = u \<and> tf_turn_id r = ?i) (pd_touches pd))
      = map (touch_row_of u ?i) (st_file_touches st)"
    unfolding split_session held_tables(3) [OF assms(1)] rows_of_turn(2) [OF d assms(2)]
    by (rule sort_key_id_if_sorted) (unfold ords, rule kept(3))
  then have touches: "touches_at pd u ?i k = map touch_of_row (filter (\<lambda>r. tf_operation_ord r = Some k)
      (map (touch_row_of u ?i) (st_file_touches st)))" for k
    by (simp only: touches_at_def)
  have "pairs_at C pd u ?i = map (\<lambda>op. row_pair C (operation_row_of C u ?i op)
      (touches_at pd u ?i (so_operation_ord op))) (st_operations st)"
    by (simp add: pairs_at_def ops o_def) (simp add: operation_row_of_def)
  then show "pairs_at C pd u ?i = map kept_pair (t_tool_pairs (st_turn st))"
    unfolding touches kept(1) .
  show "list_all (row_decodes C) (operations_at pd u ?i)"
    using assms(5) by (auto simp: ops list_all_iff codec_inverts_def intro: stored_row_decodes)
qed

lemma ids_held:
  assumes "holds_projection (rd_codec R) pd u sts" and "st \<in> set sts"
  shows "id_allowed (read_pair_ids R pd u f) (t_id (st_turn st)) \<longleftrightarrow>
    trim (pf_file_path f) = []
    \<or> list_ex (\<lambda>t. path_matches R (pf_file_path f) (sf_repo_rel_path t)) (st_file_touches st)"
proof -
  let ?m = "\<lambda>r. path_matches R (pf_file_path f) (tf_repo_rel_path r)"
  have d: "distinct (map (\<lambda>st. t_id (st_turn st)) sts)" using assms(1) by (simp add: holds_projection_def)
  have "t_id (st_turn st) \<in> tf_turn_id ` {r \<in> set (pd_touches pd). tf_session r = u \<and> ?m r}
      \<longleftrightarrow> (\<exists>r \<in> set (filter (\<lambda>r. tf_turn_id r = t_id (st_turn st)) (filter (\<lambda>r. tf_session r = u) (pd_touches pd))). ?m r)"
    by (auto simp: image_iff)
  also have "\<dots> \<longleftrightarrow> list_ex (\<lambda>t. path_matches R (pf_file_path f) (sf_repo_rel_path t)) (st_file_touches st)"
    unfolding held_tables(3) [OF assms(1)] rows_of_turn(2) [OF d assms(2)]
    by (simp add: list_ex_iff touch_row_of_def)
  finally show ?thesis
    by (simp add: read_pair_ids_def load_referenced_turn_ids_def id_allowed_def)
qed

lemma shown_held:
  assumes "holds_projection (rd_codec R) pd u sts"
  shows "shown_rows R pd u f = map (turn_row_of (rd_codec R) u) (filter (wanted_turn R f) sts)"
proof -
  let ?row = "turn_row_of (rd_codec R) u"
  let ?ids = "read_pair_ids R pd u f"
  have row: "tt_has_errors (?row st) = t_has_errors (st_turn st)" "tt_turn_ord (?row st) = st_turn_ord st"
    "tt_is_sidechain (?row st) = st_is_sidechain_turn st" for st
    by (simp_all add: turn_row_of_def Let_def)
  have "shown_rows R pd u f = sort_key tt_turn_ord (filter (wanted_row f ?ids) (turn_rows (rd_codec R) u sts))"
    unfolding shown_rows_def load_projected_turn_summary_rows_def split_session held_tables(1) [OF assms]
    by (rule arg_cong [of _ _ "sort_key tt_turn_ord"]) (auto simp: wanted_row_def intro!: filter_cong)
  also have "filter (wanted_row f ?ids) (turn_rows (rd_codec R) u sts) = map ?row (filter (wanted_turn R f) sts)"
    unfolding turn_rows_def filter_map
    by (rule arg_cong [of _ _ "map ?row"], rule filter_cong)
       (auto simp: wanted_row_def wanted_turn_def row ids_held [OF assms])
  also have "sort_key tt_turn_ord \<dots> = \<dots>"
  proof (rule sort_key_id_if_sorted)
    have "sorted (map st_turn_ord sts)" using assms by (simp add: holds_projection_def)
    then show "sorted (map tt_turn_ord (map ?row (filter (wanted_turn R f) sts)))"
      by (simp add: o_def row sorted_filter)
  qed
  finally show ?thesis .
qed

section \<open>Reading after a rebuild\<close>

lemma rebuilt_tables:
  assumes "load_projection_source_events (pe_ingest E) db pd u = Some events"
    and "build_session_projection (pe_text E) (pe_fs E) events (load_file_touch_context db pd u) = Some sts"
    and "rebuild_session_projection E db pd u = Some (Inr n, pd')"
  shows "rows_fit (pe_codec E) u (clear_session_projection pd u) sts"
    and "pd' = refresh_timeline_session_state (with_rows (pe_codec E) u (clear_session_projection pd u) sts) u"
  using assms
  by (auto simp: rebuild_session_projection_def write_projection_def insert_projection_rows_iff
      split: sum.splits)

lemma rebuilt_holds:
  assumes "build_session_projection X fs events ctx = Some sts" and "length sts \<le> 2 ^ 31"
    and "rows_fit C u (clear_session_projection pd u) sts"
    and "pd' = refresh_timeline_session_state (with_rows C u (clear_session_projection pd u) sts) u"
  shows "holds_projection C pd' u sts"
proof -
  have "map st_turn_ord sts = map as_i32 [0..<length sts]"
    using projection_ids(2) [of X fs events ctx 0 "group_into_turns events" sts] assms(1)
      projection_nth(1) [OF assms(1)] by (simp add: build_session_projection_def those_Some_iff)
  then have ord: "sorted (map st_turn_ord sts)" using ords_sorted [OF assms(2)] by simp
  have "map turn_key_of (turn_rows C u sts) = map (Pair u) (map (\<lambda>st. t_id (st_turn st)) sts)"
    by (simp add: turn_rows_def turn_key_of_def)
  then have "distinct (map (Pair u) (map (\<lambda>st. t_id (st_turn st)) sts))"
    using assms(3) by (simp add: rows_fit_cleared)
  then have "distinct (map (\<lambda>st. t_id (st_turn st)) sts)" by (rule distinct_map [THEN iffD1, THEN conjunct1])
  with ord show ?thesis by (simp add: holds_projection_def assms(4) own_tables_full)
qed

lemma rebuilt_unique:
  assumes "unique_keys pd" and "rows_fit C u (clear_session_projection pd u) sts"
    and "pd' = refresh_timeline_session_state (with_rows C u (clear_session_projection pd u) sts) u"
  shows "unique_keys pd'"
  using assms
  by (auto simp: unique_keys_def rows_fit_def fresh_rows_def refresh_timeline_session_state_def with_rows_def
      clear_session_projection_def Let_def intro: distinct_map_filter)

lemma sum_list_int: "sum_list (map (\<lambda>x. int (k x)) xs) = int (sum_list (map k xs))"
  by (induction xs) simp_all

lemma stored_event_total:
  assumes "build_session_projection X fs events ctx = Some sts" and "list_all within_i32 sts"
  shows "sum_list (map tt_event_count (turn_rows C u sts)) = int (length events)"
proof -
  let ?g = "group_into_turns events"
  have small: "length (st_operations (sts ! n)) \<le> 2 ^ 31" if "n < length sts" for n
    using assms(2) that by (simp add: list_all_length within_i32_def)
  have "t_event_count (st_turn (sts ! n)) = length (sd_events (?g ! n))" if n: "n < length sts" for n
  proof -
    obtain t ps where "project_turn X (?g ! n) events default_filters True = Some t" "st_turn (sts ! n) = with_tool_pairs t ps"
      by (rule stored_turn_parts [OF projection_nth(2) [OF assms(1) n] small [OF n]]) blast
    then show ?thesis by (auto simp: project_turn_def project_turn_with_def Let_def bind_eq_Some_conv)
  qed
  then have counts: "map (\<lambda>st. t_event_count (st_turn st)) sts = map (length \<circ> sd_events) ?g"
    using projection_nth(1) [OF assms(1)] by (auto intro!: nth_equalityI)
  have "map tt_event_count (turn_rows C u sts) = map (\<lambda>st. int (t_event_count (st_turn st))) sts"
    using assms(2) by (auto simp: turn_rows_def turn_row_of_def Let_def list_all_iff within_i32_def as_i32_small)
  then have "sum_list (map tt_event_count (turn_rows C u sts))
      = int (sum_list (map (\<lambda>st. t_event_count (st_turn st)) sts))"
    by (simp add: sum_list_int)
  also have "\<dots> = int (length (concat (map sd_events ?g)))"
    by (simp only: counts length_concat) (simp add: o_def)
  finally show ?thesis by (simp only: group_concat)
qed

text \<open>
  C7. When the JSON codec inverts itself on the stored values and the counters fit their
  columns: after a successful full rebuild the timeline loads, whatever the filters; it counts
  all the events of the session and shows, in order, exactly the projected turns that the
  filters want (not a sidechain turn unless asked for, one with errors when only those are
  wanted, one that touches a matching path when a path is given), each as it was projected,
  with its operations, results, file touches, sub-agents and chunks, except that a result
  without content is not kept and that the filters cut its chunks.
\<close>

theorem rebuild_reads_back:
  assumes "unique_keys pd"
    and "load_projection_source_events (pe_ingest E) db pd u = Some events"
    and "build_session_projection (pe_text E) (pe_fs E) events (load_file_touch_context db pd u) = Some sts"
    and "rebuild_session_projection E db pd u = Some (Inr n, pd')"
    and "rd_codec R = pe_codec E" and "list_all (codec_inverts (pe_codec E)) sts"
    and "list_all within_i32 sts" and "length sts \<le> 2 ^ 31"
  shows "load_timeline_response R pd' u f =
    Inr \<lparr>tl_session_uuid = None, tl_session_agent = None, tl_total_event_count = int (length events),
         tl_turns = map (\<lambda>st. apply_projection_filters (kept_turn (st_turn st)) f)
           (filter (wanted_turn R f) sts)\<rparr>"
proof -
  let ?C = "pe_codec E"
  note rebuilt = rebuilt_tables [OF assms(2-4)]
  have held: "holds_projection ?C pd' u sts" by (rule rebuilt_holds [OF assms(3,8) rebuilt])
  then have held': "holds_projection (rd_codec R) pd' u sts" by (simp add: assms(5))
  have unique: "unique_keys pd'" by (rule rebuilt_unique [OF assms(1) rebuilt])
  have pairs: "pairs_at ?C pd' u (t_id (st_turn st)) = map kept_pair (t_tool_pairs (st_turn st))"
    and decodes: "list_all (row_decodes ?C) (operations_at pd' u (t_id (st_turn st)))"
    and turn: "row_turn ?C (turn_row_of ?C u st) (map kept_pair (t_tool_pairs (st_turn st))) = kept_turn (st_turn st)"
    if st: "st \<in> set sts" for st
  proof -
    obtain k where k: "k < length sts" "st = sts ! k" using st by (auto simp: in_set_conv_nth)
    note made = projection_nth(2) [OF assms(3) k(1), folded k(2)]
    have ok: "within_i32 st" "codec_inverts ?C st" using assms(6,7) st by (simp_all add: list_all_iff)
    show "pairs_at ?C pd' u (t_id (st_turn st)) = map kept_pair (t_tool_pairs (st_turn st))"
      "list_all (row_decodes ?C) (operations_at pd' u (t_id (st_turn st)))"
      by (rule pairs_held [OF held st made ok])+
    show "row_turn ?C (turn_row_of ?C u st) (map kept_pair (t_tool_pairs (st_turn st))) = kept_turn (st_turn st)"
      by (rule row_turn_kept [OF made ok])
  qed
  have shown: "shown_rows R pd' u f = map (turn_row_of ?C u) (filter (wanted_turn R f) sts)"
    using shown_held [OF held'] by (simp add: assms(5))
  have total: "total_event_count pd' u = int (length events)"
    using held_tables(1) [OF held] stored_event_total [OF assms(3,7)] by (simp add: total_event_count_def)
  have loaded: "set (load_projected_turn_rows pd' u ids errs) \<subseteq> turn_row_of ?C u ` set sts" for ids errs
  proof -
    have "set (load_projected_turn_rows pd' u ids errs) \<subseteq> set (filter (\<lambda>r. tt_session r = u) (pd_turns pd'))"
      by (auto simp: load_projected_turn_rows_def)
    then show ?thesis unfolding held_tables(1) [OF held] by (simp add: turn_rows_def)
  qed
  have "turns_decode ?C pd' u (map tt_turn_id (load_projected_turn_rows pd' u ids errs))" for ids errs
    using loaded [of ids errs] decodes by (fastforce simp: turns_decode_def list_all_iff)
  moreover have "list_all (chunks_decode ?C) (shown_rows R pd' u f)"
    using assms(6) by (auto simp: shown list_all_iff chunks_decode_def codec_inverts_def turn_row_of_def Let_def)
  moreover have "map (\<lambda>r. apply_projection_filters (row_turn ?C r (pairs_at ?C pd' u (tt_turn_id r))) f)
      (shown_rows R pd' u f)
      = map (\<lambda>st. apply_projection_filters (kept_turn (st_turn st)) f) (filter (wanted_turn R f) sts)"
    unfolding shown map_map by (rule map_cong [OF refl]) (simp add: pairs turn)
  ultimately show ?thesis by (simp add: timeline_iff [OF unique] assms(5) total)
qed

lemma sample_source:
  "load_projection_source_events (pe_ingest sample_env) (sample_tables (first_rows @ [plain_row]))
     (projected_db first_rows) 1 = Some (first_events @ drop 3 (events_with plain_row))"
  using source_events [OF sample_loads(5)] sample_ordered unfolding sample_loads(1) by blast

definition few :: "stored_turn \<Rightarrow> bool" where
  "few st \<longleftrightarrow>
     list_all (\<lambda>n. n < 5) [t_event_count (st_turn st), t_operation_count (st_turn st),
       t_thinking_count (st_turn st), length (st_operations st), length (st_file_touches st)]"

lemma few_within: "few st \<Longrightarrow> within_i32 st"
  by (simp add: few_def within_i32_def)

lemma sample_sts:
  "case build_session_projection (pe_text sample_env) (pe_fs sample_env)
       (first_events @ drop 3 (events_with plain_row))
       (load_file_touch_context (sample_tables (first_rows @ [plain_row])) (projected_db first_rows) 1) of
     None \<Rightarrow> False
   | Some sts \<Rightarrow> list_all (codec_inverts (pe_codec sample_env)) sts \<and> list_all few sts
       \<and> list_all (wanted_turn sample_reader default_filters) sts \<and> map (\<lambda>st. t_id (st_turn st)) sts = [0, 20]"
  "length (first_events @ drop 3 (events_with plain_row)) = 4"
  by code_simp+

lemma kept_turn_id [simp]: "t_id (kept_turn t) = t_id t"
  by (cases t) (simp add: kept_turn_def)

theorem rebuild_reads_back_witness:
  "\<exists>full resp. rebuilt_fully plain_row = Some (Inr 2, full)
     \<and> load_timeline_response sample_reader full 1 default_filters = Inr resp
     \<and> tl_total_event_count resp = 4 \<and> map t_id (tl_turns resp) = [0, 20]"
proof -
  obtain full where full: "rebuilt_fully plain_row = Some (Inr 2, full)"
    using sample_rebuilt by (auto split: option.splits sum.splits)
  obtain sts where sts: "build_session_projection (pe_text sample_env) (pe_fs sample_env)
       (first_events @ drop 3 (events_with plain_row))
       (load_file_touch_context (sample_tables (first_rows @ [plain_row])) (projected_db first_rows) 1) = Some sts"
    and ok: "list_all (codec_inverts (pe_codec sample_env)) sts" "list_all few sts"
      "list_all (wanted_turn sample_reader default_filters) sts" "map (\<lambda>st. t_id (st_turn st)) sts = [0, 20]"
    using sample_sts(1) by (auto split: option.splits)
  have i32: "list_all within_i32 sts" using ok(2) by (auto simp: list_all_iff few_within)
  have "length sts = 2" using arg_cong [OF ok(4), of length] by simp
  then have len: "length sts \<le> 2 ^ 31" by simp
  have codec: "rd_codec sample_reader = pe_codec sample_env" by (simp add: sample_reader_def sample_env_def)
  have all: "filter (wanted_turn sample_reader default_filters) sts = sts"
    using ok(3) by (simp add: list_all_iff filter_id_conv)
  from rebuild_reads_back [OF sample_views(1) sample_source sts full [unfolded rebuilt_fully_def] codec ok(1) i32 len,
      of default_filters, unfolded all sample_sts(2)]
  show ?thesis
    using full ok(4) by (simp add: o_def)
qed

end
