(* ===== verification/Pty.thy ===== *)
theory Pty
  imports Ingest_File Timeline_Types
begin

text \<open>
  Terminal sessions (\<^verbatim>\<open>backend/src/pty.rs\<close>, \<^verbatim>\<open>backend/src/correlate.rs\<close>): the rows of the table
  \<^verbatim>\<open>pty_sessions\<close>, every statement that changes them, how they are read back, the environment
  of a terminal's shell, and the messages that agents and hooks send. What happens in which
  order is in \<^verbatim>\<open>Pty_Steps\<close>. \<open>Inl\<close> is an error the caller sees.
\<close>

section \<open>Rows\<close>

datatype pty_state = Live | Dead | Deleted | Orphaned

fun pty_state_str :: "pty_state \<Rightarrow> string" where
  "pty_state_str Live = ''live''"
| "pty_state_str Dead = ''dead''"
| "pty_state_str Deleted = ''deleted''"
| "pty_state_str Orphaned = ''orphaned''"

definition pty_state_parse :: "string \<Rightarrow> pty_state option" where
  "pty_state_parse s =
     (if s = ''live'' then Some Live else if s = ''dead'' then Some Dead
      else if s = ''deleted'' then Some Deleted else if s = ''orphaned'' then Some Orphaned else None)"

record workspace_meta =
  wm_id :: uuid
  wm_repo_name :: string
  wm_kind :: string
  wm_path :: string
  wm_branch_name :: "string option"
  wm_base_ref :: "string option"
  wm_base_sha :: "string option"
  wm_merge_target :: "string option"

record agent_runtime =
  ag_agent :: "string option"
  ag_state :: string
  ag_started_at :: "timestamp option"
  ag_ended_at :: "timestamp option"
  ag_exit_code :: "int option"

definition no_runtime :: agent_runtime where
  "no_runtime =
     \<lparr>ag_agent = None, ag_state = ''none'', ag_started_at = None, ag_ended_at = None, ag_exit_code = None\<rparr>"

record pty_row =
  pr_id :: uuid
  pr_repo :: string
  pr_working_dir :: string
  pr_workspace_id :: "uuid option"
  pr_state :: string
  pr_created_at :: timestamp
  pr_ended_at :: "timestamp option"
  pr_exit_code :: "int option"
  pr_current_session :: "uuid option"
  pr_current_agent :: "string option"
  pr_current_claude :: "uuid option"
  pr_label :: "string option"
  pr_pinned :: bool
  pr_color :: "string option"
  pr_runtime :: agent_runtime

text \<open>\<open>UPDATE ... SET ... WHERE ...\<close>: the number of rows changed, and the rows.\<close>

definition update_rows :: "(pty_row \<Rightarrow> bool) \<Rightarrow> (pty_row \<Rightarrow> pty_row) \<Rightarrow> pty_row list \<Rightarrow> nat \<times> pty_row list" where
  "update_rows cond f rows = (length (filter cond rows), map (\<lambda>r. if cond r then f r else r) rows)"

definition runtime_active :: "agent_runtime \<Rightarrow> bool" where
  "runtime_active a \<longleftrightarrow> ag_state a \<in> {''starting'', ''running''}"

section \<open>Statements\<close>

record spawn_params =
  sp_repo :: string
  sp_working_dir :: string
  sp_workspace :: "workspace_meta option"
  sp_shell :: string
  sp_args :: "string list"
  sp_cols :: nat
  sp_rows :: nat
  sp_initial_agent :: "string option"

definition default_spawn_params :: spawn_params where
  "default_spawn_params =
     \<lparr>sp_repo = [], sp_working_dir = ''.'', sp_workspace = None, sp_shell = ''/bin/bash'', sp_args = [],
      sp_cols = 120, sp_rows = 30, sp_initial_agent = None\<rparr>"

definition initial_runtime :: "timestamp \<Rightarrow> string option \<Rightarrow> agent_runtime" where
  "initial_runtime now agent =
     (case agent of
        None \<Rightarrow> no_runtime
      | Some a \<Rightarrow> \<lparr>ag_agent = Some a, ag_state = ''starting'', ag_started_at = Some now,
                   ag_ended_at = None, ag_exit_code = None\<rparr>)"

definition new_pty_row :: "timestamp \<Rightarrow> uuid \<Rightarrow> spawn_params \<Rightarrow> pty_row" where
  "new_pty_row now i p =
     \<lparr>pr_id = i, pr_repo = sp_repo p, pr_working_dir = sp_working_dir p,
      pr_workspace_id = map_option wm_id (sp_workspace p), pr_state = pty_state_str Live,
      pr_created_at = now, pr_ended_at = None, pr_exit_code = None, pr_current_session = None,
      pr_current_agent = None, pr_current_claude = None, pr_label = None, pr_pinned = False,
      pr_color = None, pr_runtime = initial_runtime now (sp_initial_agent p)\<rparr>"

text \<open>The primary key makes a second row with the same identifier fail.\<close>

definition insert_pty_row :: "pty_row list \<Rightarrow> pty_row \<Rightarrow> (string, pty_row list) result" where
  "insert_pty_row rows r =
     (if pr_id r \<in> pr_id ` set rows then Inl ''duplicate key'' else Inr (rows @ [r]))"

text \<open>An empty text clears the field.\<close>

definition non_empty :: "string option \<Rightarrow> string option" where
  "non_empty s = opt_filter (\<lambda>t. t \<noteq> []) s"

definition update_metadata ::
    "pty_row list \<Rightarrow> uuid \<Rightarrow> string option option \<Rightarrow> bool option \<Rightarrow> string option option \<Rightarrow> pty_row list" where
  "update_metadata rows i label pinned color =
     (if label = None \<and> pinned = None \<and> color = None then rows
      else snd (update_rows (\<lambda>r. pr_id r = i)
        (\<lambda>r. r\<lparr>pr_label := (case label of None \<Rightarrow> pr_label r | Some l \<Rightarrow> non_empty l),
               pr_pinned := (case pinned of None \<Rightarrow> pr_pinned r | Some p \<Rightarrow> p),
               pr_color := (case color of None \<Rightarrow> pr_color r | Some c \<Rightarrow> non_empty c)\<rparr>) rows))"

definition mark_agent_starting ::
    "timestamp \<Rightarrow> pty_row list \<Rightarrow> uuid \<Rightarrow> string \<Rightarrow> (string, unit) result \<times> pty_row list" where
  "mark_agent_starting now rows i agent =
     (case update_rows (\<lambda>r. pr_id r = i \<and> pr_state r = ''live'')
        (\<lambda>r. r\<lparr>pr_runtime := \<lparr>ag_agent = Some agent, ag_state = ''starting'', ag_started_at = Some now,
                               ag_ended_at = None, ag_exit_code = None\<rparr>\<rparr>) rows of
        (n, rows') \<Rightarrow> (if n = 0 then Inl ''no live PTY session'' else Inr (), rows'))"

definition delete_row :: "timestamp \<Rightarrow> pty_row list \<Rightarrow> uuid \<Rightarrow> pty_row list" where
  "delete_row now rows i =
     snd (update_rows (\<lambda>r. pr_id r = i)
       (\<lambda>r. r\<lparr>pr_state := ''deleted'', pr_ended_at := or_else (pr_ended_at r) (Some now)\<rparr>) rows)"

text \<open>The runtime of an agent whose terminal ended.\<close>

definition ended_runtime :: "timestamp option \<Rightarrow> int option \<Rightarrow> agent_runtime \<Rightarrow> agent_runtime" where
  "ended_runtime ended code a =
     (if runtime_active a then a\<lparr>ag_state := ''exited'', ag_ended_at := ended, ag_exit_code := code\<rparr> else a)"

definition mark_dead_row :: "timestamp \<Rightarrow> pty_row list \<Rightarrow> uuid \<Rightarrow> int option \<Rightarrow> pty_row list" where
  "mark_dead_row now rows i code =
     snd (update_rows (\<lambda>r. pr_id r = i \<and> pr_state r = ''live'')
       (\<lambda>r. r\<lparr>pr_state := ''dead'', pr_ended_at := Some now, pr_exit_code := code,
              pr_runtime := ended_runtime (Some now) code (pr_runtime r)\<rparr>) rows)"

definition reconcile_orphans_on_startup :: "timestamp \<Rightarrow> pty_row list \<Rightarrow> nat \<times> pty_row list" where
  "reconcile_orphans_on_startup now rows =
     update_rows (\<lambda>r. pr_state r = ''live'')
       (\<lambda>r. r\<lparr>pr_state := ''orphaned'', pr_ended_at := or_else (pr_ended_at r) (Some now),
              pr_runtime := ended_runtime (or_else (ag_ended_at (pr_runtime r)) (Some now))
                 (ag_exit_code (pr_runtime r)) (pr_runtime r)\<rparr>) rows"

section \<open>Messages\<close>

datatype runtime_event = Running | Exited

record correlate_msg =
  cm_pty_id :: uuid
  cm_session_uuid :: uuid
  cm_agent :: string

record runtime_msg =
  rm_pty_id :: uuid
  rm_agent :: string
  rm_event :: runtime_event
  rm_exit_code :: "int option"

datatype socket_msg = RuntimeMsg runtime_msg | CorrelateMsg correlate_msg

definition apply_runtime :: "timestamp \<Rightarrow> pty_row list \<Rightarrow> runtime_msg \<Rightarrow> pty_row list" where
  "apply_runtime now rows msg =
     (case rm_event msg of
        Running \<Rightarrow>
          snd (update_rows (\<lambda>r. pr_id r = rm_pty_id msg \<and> pr_state r = ''live'')
            (\<lambda>r. r\<lparr>pr_runtime := \<lparr>ag_agent = Some (rm_agent msg), ag_state = ''running'',
                     ag_started_at = or_else (ag_started_at (pr_runtime r)) (Some now),
                     ag_ended_at = None, ag_exit_code = None\<rparr>\<rparr>) rows)
      | Exited \<Rightarrow>
          snd (update_rows (\<lambda>r. pr_id r = rm_pty_id msg \<and> runtime_active (pr_runtime r)
                 \<and> (ag_agent (pr_runtime r) = None \<or> ag_agent (pr_runtime r) = Some (rm_agent msg)))
            (\<lambda>r. r\<lparr>pr_runtime := (pr_runtime r)
                     \<lparr>ag_agent := or_else (ag_agent (pr_runtime r)) (Some (rm_agent msg)),
                      ag_state := ''exited'', ag_ended_at := Some now, ag_exit_code := rm_exit_code msg\<rparr>\<rparr>) rows))"

text \<open>A correlation: the session belongs to the terminal, and is the terminal's current one.\<close>

definition correlate_session :: "ingest_db \<Rightarrow> correlate_msg \<Rightarrow> ingest_db" where
  "correlate_session db msg =
     db\<lparr>sessions := (sessions db)(cm_session_uuid msg \<mapsto> (case sessions db (cm_session_uuid msg) of
          None \<Rightarrow> \<lparr>cs_agent = cm_agent msg, cs_project_hash = None, cs_pty_session_id = Some (cm_pty_id msg),
                   cs_parent_session_uuid = None\<rparr>
        | Some s \<Rightarrow> s\<lparr>cs_agent := cm_agent msg, cs_pty_session_id := Some (cm_pty_id msg)\<rparr>))\<rparr>"

definition correlate_row :: "pty_row list \<Rightarrow> correlate_msg \<Rightarrow> pty_row list" where
  "correlate_row rows msg =
     snd (update_rows (\<lambda>r. pr_id r = cm_pty_id msg)
       (\<lambda>r. r\<lparr>pr_current_session := Some (cm_session_uuid msg), pr_current_agent := Some (cm_agent msg),
              pr_current_claude := (if cm_agent msg = ''claude-code'' then Some (cm_session_uuid msg) else None)\<rparr>)
       rows)"

text \<open>The columns of the table that ingestion reads.\<close>

definition pty_pointers :: "pty_row list \<Rightarrow> (uuid \<times> uuid option) list" where
  "pty_pointers rows = map (\<lambda>r. (pr_id r, pr_current_session r)) rows"

definition apply_correlation ::
    "ingest_db \<Rightarrow> pty_row list \<Rightarrow> correlate_msg \<Rightarrow> ingest_db \<times> pty_row list" where
  "apply_correlation db rows msg =
     (let rows' = correlate_row rows msg
      in ((correlate_session db msg)\<lparr>ptys := pty_pointers rows'\<rparr>, rows'))"

definition apply_socket_msg ::
    "timestamp \<Rightarrow> ingest_db \<Rightarrow> pty_row list \<Rightarrow> socket_msg \<Rightarrow> ingest_db \<times> pty_row list" where
  "apply_socket_msg now db rows msg =
     (case msg of
        RuntimeMsg m \<Rightarrow> (db, apply_runtime now rows m)
      | CorrelateMsg m \<Rightarrow> apply_correlation db rows m)"

text \<open>
  Decoding a line: an untagged enum takes the first variant that fits. \<open>sock_parse\<close> is the JSON
  parser, which also refuses a line that repeats a field.
\<close>

record socket_lib =
  sock_parse :: "string \<Rightarrow> json option"
  sock_uuid :: "string \<Rightarrow> uuid option"
  sock_uuid_show :: "uuid \<Rightarrow> string"
  sock_int :: "string \<Rightarrow> int option"

definition uuid_field :: "socket_lib \<Rightarrow> json_map \<Rightarrow> string \<Rightarrow> uuid option" where
  "uuid_field K m k = Option.bind (map_str m k) (sock_uuid K)"

definition decode_event :: "json \<Rightarrow> runtime_event option" where
  "decode_event v =
     (if v = JStr ''running'' then Some Running else if v = JStr ''exited'' then Some Exited else None)"

text \<open>An optional \<open>i32\<close>: absent or null is none, a number must fit.\<close>

definition decode_i32_opt :: "socket_lib \<Rightarrow> json option \<Rightarrow> int option option" where
  "decode_i32_opt K v =
     (case v of
        None \<Rightarrow> Some None
      | Some JNull \<Rightarrow> Some None
      | Some (JNum t) \<Rightarrow>
          (case sock_int K t of
             None \<Rightarrow> None
           | Some n \<Rightarrow> if - (2 ^ 31) \<le> n \<and> n < 2 ^ 31 then Some (Some n) else None)
      | _ \<Rightarrow> None)"

definition decode_runtime :: "socket_lib \<Rightarrow> json_map \<Rightarrow> runtime_msg option" where
  "decode_runtime K m =
     Option.bind (uuid_field K m ''pty_id'') (\<lambda>pty.
     Option.bind (map_str m ''agent'') (\<lambda>agent.
     Option.bind (Option.bind (map_of m ''event'') decode_event) (\<lambda>event.
     Option.bind (decode_i32_opt K (map_of m ''exit_code'')) (\<lambda>code.
       Some \<lparr>rm_pty_id = pty, rm_agent = agent, rm_event = event, rm_exit_code = code\<rparr>))))"

text \<open>The session may come under its old name, but not under both.\<close>

definition session_field :: "socket_lib \<Rightarrow> json_map \<Rightarrow> uuid option" where
  "session_field K m =
     (case (map_of m ''session_uuid'', map_of m ''claude_session_uuid'') of
        (Some v, None) \<Rightarrow> Option.bind (as_str v) (sock_uuid K)
      | (None, Some v) \<Rightarrow> Option.bind (as_str v) (sock_uuid K)
      | _ \<Rightarrow> None)"

definition default_agent :: string where
  "default_agent = ''claude-code''"

definition decode_correlate :: "socket_lib \<Rightarrow> json_map \<Rightarrow> correlate_msg option" where
  "decode_correlate K m =
     Option.bind (uuid_field K m ''pty_id'') (\<lambda>pty.
     Option.bind (session_field K m) (\<lambda>session.
     Option.bind (case map_of m ''agent'' of None \<Rightarrow> Some default_agent | Some v \<Rightarrow> as_str v) (\<lambda>agent.
       Some \<lparr>cm_pty_id = pty, cm_session_uuid = session, cm_agent = agent\<rparr>)))"

definition decode_socket_msg :: "socket_lib \<Rightarrow> json \<Rightarrow> socket_msg option" where
  "decode_socket_msg K v =
     (case v of
        JObj m \<Rightarrow>
          (case decode_runtime K m of
             Some r \<Rightarrow> Some (RuntimeMsg r)
           | None \<Rightarrow> map_option CorrelateMsg (decode_correlate K m))
      | _ \<Rightarrow> None)"

text \<open>
  One connection that sent this line (nothing when it closed without one): the error, or
  whether it is acknowledged, and the tables.
\<close>

definition handle_conn ::
    "socket_lib \<Rightarrow> timestamp \<Rightarrow> ingest_db \<Rightarrow> pty_row list \<Rightarrow> string \<Rightarrow>
     (string, bool) result \<times> ingest_db \<times> pty_row list" where
  "handle_conn K now db rows line =
     (if trim line = [] then (Inr False, db, rows)
      else case Option.bind (sock_parse K (trim line)) (decode_socket_msg K) of
        None \<Rightarrow> (Inl ''invalid correlate payload'', db, rows)
      | Some msg \<Rightarrow> (Inr True, apply_socket_msg now db rows msg))"

text \<open>The line a launcher sends. The agent is not escaped.\<close>

definition correlate_msg_line :: "socket_lib \<Rightarrow> uuid \<Rightarrow> uuid \<Rightarrow> string \<Rightarrow> string" where
  "correlate_msg_line K pty session agent =
     ''{\"pty_id\":\"'' @ sock_uuid_show K pty @ ''\",\"session_uuid\":\"'' @ sock_uuid_show K session
     @ ''\",\"agent\":\"'' @ agent @ ''\"}'' @ [CHR 0x0A]"

section \<open>Reading back\<close>

record pty_meta =
  md_id :: uuid
  md_repo :: string
  md_working_dir :: string
  md_workspace :: "workspace_meta option"
  md_state :: pty_state
  md_created_at :: timestamp
  md_ended_at :: "timestamp option"
  md_exit_code :: "int option"
  md_current_session :: "uuid option"
  md_current_agent :: "string option"
  md_last_event_at :: "timestamp option"
  md_label :: "string option"
  md_pinned :: bool
  md_color :: "string option"
  md_runtime :: agent_runtime

text \<open>
  The join with the workspaces. Its columns are nullable, and the metadata needs four of them.
\<close>

record joined_workspace =
  jw_id :: "uuid option"
  jw_repo_name :: "string option"
  jw_kind :: "string option"
  jw_path :: "string option"
  jw_branch_name :: "string option"
  jw_base_ref :: "string option"
  jw_base_sha :: "string option"
  jw_merge_target :: "string option"

definition join_workspace :: "(uuid \<Rightarrow> workspace_meta option) \<Rightarrow> pty_row \<Rightarrow> joined_workspace" where
  "join_workspace ws r =
     (case Option.bind (pr_workspace_id r) ws of
        None \<Rightarrow> \<lparr>jw_id = None, jw_repo_name = None, jw_kind = None, jw_path = None, jw_branch_name = None,
                 jw_base_ref = None, jw_base_sha = None, jw_merge_target = None\<rparr>
      | Some w \<Rightarrow> \<lparr>jw_id = Some (wm_id w), jw_repo_name = Some (wm_repo_name w), jw_kind = Some (wm_kind w),
                   jw_path = Some (wm_path w), jw_branch_name = wm_branch_name w,
                   jw_base_ref = wm_base_ref w, jw_base_sha = wm_base_sha w,
                   jw_merge_target = wm_merge_target w\<rparr>)"

definition workspace_meta_of :: "joined_workspace \<Rightarrow> workspace_meta option" where
  "workspace_meta_of j =
     Option.bind (jw_id j) (\<lambda>i.
     Option.bind (jw_repo_name j) (\<lambda>repo.
     Option.bind (jw_kind j) (\<lambda>kind.
     Option.bind (jw_path j) (\<lambda>path.
       Some \<lparr>wm_id = i, wm_repo_name = repo, wm_kind = kind, wm_path = path,
             wm_branch_name = jw_branch_name j, wm_base_ref = jw_base_ref j,
             wm_base_sha = jw_base_sha j, wm_merge_target = jw_merge_target j\<rparr>))))"

definition pty_row_into_meta :: "pty_row \<Rightarrow> joined_workspace \<Rightarrow> pty_meta" where
  "pty_row_into_meta r j =
     \<lparr>md_id = pr_id r, md_repo = pr_repo r, md_working_dir = pr_working_dir r,
      md_workspace = workspace_meta_of j, md_state = unwrap_or Dead (pty_state_parse (pr_state r)),
      md_created_at = pr_created_at r, md_ended_at = pr_ended_at r, md_exit_code = pr_exit_code r,
      md_current_session = pr_current_session r, md_current_agent = pr_current_agent r,
      md_last_event_at = None, md_label = None, md_pinned = False, md_color = None,
      md_runtime = pr_runtime r\<rparr>"

definition pty_row_with_activity_into_meta ::
    "pty_row \<Rightarrow> joined_workspace \<Rightarrow> timestamp option \<Rightarrow> pty_meta" where
  "pty_row_with_activity_into_meta r j last_event =
     (pty_row_into_meta r j)
       \<lparr>md_last_event_at := last_event, md_label := pr_label r, md_pinned := pr_pinned r, md_color := pr_color r\<rparr>"

definition last_event_at :: "ingest_db \<Rightarrow> uuid option \<Rightarrow> timestamp option" where
  "last_event_at db u =
     (let times = map ev_timestamp (filter (\<lambda>e. Some (ev_session e) = u) (ev_rows db))
      in if times = [] then None else Some (Max (set times)))"

text \<open>Pinned terminals first, the newest first among both.\<close>

definition list_ptys :: "(uuid \<Rightarrow> workspace_meta option) \<Rightarrow> ingest_db \<Rightarrow> pty_row list \<Rightarrow> pty_meta list" where
  "list_ptys ws db rows =
     map (\<lambda>r. pty_row_with_activity_into_meta r (join_workspace ws r) (last_event_at db (pr_current_session r)))
       (sort_key (\<lambda>r. \<not> pr_pinned r) (sort_key (\<lambda>r. - pr_created_at r)
         (filter (\<lambda>r. pr_state r \<noteq> ''deleted'') rows)))"

definition read_meta :: "(uuid \<Rightarrow> workspace_meta option) \<Rightarrow> pty_row list \<Rightarrow> uuid \<Rightarrow> pty_meta option" where
  "read_meta ws rows i = map_option (\<lambda>r. pty_row_into_meta r (join_workspace ws r)) (find (\<lambda>r. pr_id r = i) rows)"

section \<open>The environment of a shell\<close>

type_synonym env_vars = "string \<Rightarrow> string option"

definition forward_env :: "env_vars \<Rightarrow> string \<Rightarrow> env_vars \<Rightarrow> env_vars" where
  "forward_env own key cmd = (case own key of None \<Rightarrow> cmd | Some v \<Rightarrow> cmd(key \<mapsto> v))"

definition set_opt :: "string \<Rightarrow> string option \<Rightarrow> env_vars \<Rightarrow> env_vars" where
  "set_opt key v cmd = (case v of None \<Rightarrow> cmd | Some t \<Rightarrow> cmd(key \<mapsto> t))"

definition default_pty_path :: "env_vars \<Rightarrow> string \<Rightarrow> string" where
  "default_pty_path own home =
     home @ ''/.local/bin:/opt/sulion/bin:''
     @ unwrap_or ''/usr/local/bin:/usr/bin:/bin:/usr/local/sbin:/usr/sbin:/sbin'' (own ''PATH'')"

definition TOOL_VARS :: "string list" where
  "TOOL_VARS =
     [''LANG'', ''LC_ALL'', ''LC_CTYPE'', ''TZ'', ''COLORTERM'', ''RUSTUP_HOME'', ''CARGO_HOME'',
      ''RUSTUP_TOOLCHAIN'', ''DOTNET_ROOT'', ''DOTNET_CLI_TELEMETRY_OPTOUT'', ''DOTNET_NOLOGO'',
      ''SSL_CERT_FILE'', ''SSL_CERT_DIR'']"

definition SERVICE_VARS :: "string list" where
  "SERVICE_VARS =
     [''SULION_CLAUDE_PROJECTS'', ''SULION_CODEX_SESSIONS'', ''SULION_SECRET_BROKER_URL'',
      ''SULION_AWS_SECRET_ID'', ''SULION_RUNNER_URL'']"

definition workspace_env ::
    "socket_lib \<Rightarrow> env_vars \<Rightarrow> workspace_meta \<Rightarrow> env_vars \<Rightarrow> env_vars" where
  "workspace_env K own w cmd =
     set_opt ''SULION_MERGE_TARGET'' (wm_merge_target w)
     (set_opt ''SULION_BASE_SHA'' (wm_base_sha w)
     (set_opt ''SULION_BASE_REF'' (wm_base_ref w)
     (set_opt ''SULION_BRANCH'' (wm_branch_name w)
     (cmd(''SULION_REPO_NAME'' \<mapsto> wm_repo_name w, ''SULION_WORKSPACE_ID'' \<mapsto> sock_uuid_show K (wm_id w),
          ''SULION_WORKSPACE_KIND'' \<mapsto> wm_kind w, ''SULION_WORKSPACE_PATH'' \<mapsto> wm_path w,
          ''SULION_CANONICAL_REPO'' \<mapsto>
            join_path (unwrap_or ''/home/dev/repos'' (own ''SULION_REPOS_ROOT'')) (wm_repo_name w))))))"

text \<open>\<open>own\<close> is the environment of the server. The command starts from an empty one.\<close>

definition configure_pty_environment ::
    "socket_lib \<Rightarrow> env_vars \<Rightarrow> uuid \<Rightarrow> string \<Rightarrow> string option \<Rightarrow> workspace_meta option \<Rightarrow> env_vars" where
  "configure_pty_environment K own i shell key_path w =
     (let home = unwrap_or ''/home/dev'' (own ''HOME''); who = unwrap_or ''dev'' (own ''USER'');
          cmd = (\<lambda>_. None)(''HOME'' \<mapsto> home, ''USER'' \<mapsto> who, ''LOGNAME'' \<mapsto> who, ''SHELL'' \<mapsto> shell,
            ''PATH'' \<mapsto> default_pty_path own home);
          cmd = (fold (forward_env own) TOOL_VARS cmd)(''SULION_PTY_ID'' \<mapsto> sock_uuid_show K i);
          cmd = (case w of None \<Rightarrow> cmd | Some w \<Rightarrow> workspace_env K own w cmd);
          cmd = cmd(''SULION_CORRELATE_SOCK'' \<mapsto>
            unwrap_or ''/run/sulion/correlate.sock'' (own ''SULION_CORRELATE_SOCK''))
      in set_opt ''SULION_SECRET_BROKER_KEY_PATH'' key_path (fold (forward_env own) SERVICE_VARS cmd))"

definition shell_env ::
    "socket_lib \<Rightarrow> env_vars \<Rightarrow> uuid \<Rightarrow> spawn_params \<Rightarrow> string option \<Rightarrow> env_vars" where
  "shell_env K own i p key_path =
     (configure_pty_environment K own i (sp_shell p) key_path (sp_workspace p))
       (''TERM'' \<mapsto> unwrap_or ''xterm-256color'' (own ''TERM''))"

definition default_shell :: "(string \<Rightarrow> bool) \<Rightarrow> string" where
  "default_shell exists = (if exists ''/bin/bash'' then ''/bin/bash'' else ''/bin/sh'')"

end
