(* ===== verification/Projection_Repo.thy ===== *)
theory Projection_Repo
  imports Projection_Views Pty "HOL-Library.Multiset"
begin

text \<open>
  Reads of the stored timeline across sessions (\<^verbatim>\<open>backend/src/ingest/projection.rs\<close>,
  \<^verbatim>\<open>projection/file_trace.rs\<close>): the metadata of a session, the summary of a repository, the trace
  of a file, and the backfill of sessions whose turns are not stored yet.
\<close>

section \<open>Session metadata\<close>

record session_meta =
  sm_pty_session_id :: "uuid option"
  sm_session_uuid :: uuid
  sm_session_agent :: "string option"
  sm_session_label :: "string option"
  sm_session_state :: "string option"

text \<open>The left join of a session with its terminal.\<close>

definition session_pty :: "pty_row list \<Rightarrow> session_row \<Rightarrow> pty_row option" where
  "session_pty rows s = Option.bind (cs_pty_session_id s) (\<lambda>i. find (\<lambda>r. pr_id r = i) rows)"

definition meta_of :: "pty_row list \<Rightarrow> uuid \<Rightarrow> session_row \<Rightarrow> session_meta" where
  "meta_of rows u s =
     \<lparr>sm_pty_session_id = cs_pty_session_id s, sm_session_uuid = u, sm_session_agent = Some (cs_agent s),
      sm_session_label = Option.bind (session_pty rows s) pr_label,
      sm_session_state = map_option pr_state (session_pty rows s)\<rparr>"

definition load_timeline_session_meta ::
    "ingest_db \<Rightarrow> pty_row list \<Rightarrow> uuid \<Rightarrow> (string, session_meta) result" where
  "load_timeline_session_meta db rows u =
     (case sessions db u of None \<Rightarrow> Inl ''load timeline session metadata'' | Some s \<Rightarrow> Inr (meta_of rows u s))"

definition turn_key_text :: "ingest_lib \<Rightarrow> session_meta \<Rightarrow> int \<Rightarrow> string" where
  "turn_key_text L m i = i_uuid_show L (sm_session_uuid m) @ '':'' @ show_int i"

definition annotate_timeline_summaries ::
    "ingest_lib \<Rightarrow> session_meta \<Rightarrow> turn_summary list \<Rightarrow> turn_summary list" where
  "annotate_timeline_summaries L m turns =
     map (\<lambda>t. t\<lparr>ts_turn_key := Some (turn_key_text L m (ts_id t)),
                ts_pty_session_id := sm_pty_session_id m, ts_session_uuid := Some (sm_session_uuid m),
                ts_session_agent := sm_session_agent m, ts_session_label := sm_session_label m,
                ts_session_state := sm_session_state m\<rparr>) turns"

fun annotate_turn :: "ingest_lib \<Rightarrow> session_meta \<Rightarrow> turn \<Rightarrow> turn" where
  "annotate_turn L m (Turn i _ pv up s e d ec oc ps th er md cs _ _ _ _ _) =
     Turn i (Some (turn_key_text L m i)) pv up s e d ec oc ps th er md cs (sm_pty_session_id m)
       (Some (sm_session_uuid m)) (sm_session_agent m) (sm_session_label m) (sm_session_state m)"

definition annotate_timeline_turns :: "ingest_lib \<Rightarrow> session_meta \<Rightarrow> turn list \<Rightarrow> turn list" where
  "annotate_timeline_turns L m turns = map (annotate_turn L m) turns"

section \<open>The summary of a repository\<close>

text \<open>
  \<open>started\<close> is the column \<^verbatim>\<open>started_at\<close>. The sessions come in the order of their start, and of
  their identifiers when they start together, as \<open>pd_sessions\<close> has them.
\<close>

definition repo_sessions ::
    "(uuid \<Rightarrow> timestamp) \<Rightarrow> ingest_db \<Rightarrow> projection_db \<Rightarrow> pty_row list \<Rightarrow> string \<Rightarrow> session_meta list" where
  "repo_sessions started db pd rows repo =
     List.map_filter (\<lambda>u. Option.bind (sessions db u) (\<lambda>s.
         case session_pty rows s of
           None \<Rightarrow> None
         | Some r \<Rightarrow> if pr_repo r = repo then Some (meta_of rows u s) else None))
       (sort_key started (pd_sessions pd))"

definition session_order :: "turn_summary \<Rightarrow> int" where
  "session_order t = (case ts_session_uuid t of None \<Rightarrow> - 1 | Some u \<Rightarrow> uint u)"

definition load_repo_timeline_summary_response ::
    "read_lib \<Rightarrow> ingest_lib \<Rightarrow> (uuid \<Rightarrow> timestamp) \<Rightarrow> ingest_db \<Rightarrow> projection_db \<Rightarrow> pty_row list \<Rightarrow> string \<Rightarrow>
     projection_filters \<Rightarrow> summary_response" where
  "load_repo_timeline_summary_response R L started db pd rows repo f =
     (let metas = repo_sessions started db pd rows repo;
          responses = map (\<lambda>m. (m, load_timeline_summary_response R pd (sm_session_uuid m) f)) metas;
          turns = concat (map (\<lambda>(m, r). annotate_timeline_summaries L m (sr_turns r)) responses)
      in \<lparr>sr_session_uuid = None, sr_session_agent = None,
          sr_total_event_count = sum_list (map (\<lambda>(m, r). sr_total_event_count r) responses),
          sr_turns = sort_key ts_start (sort_key ts_end (sort_key session_order (sort_key ts_id turns)))\<rparr>)"

section \<open>The trace of a file\<close>

record trace_touch =
  tc_pty_session_id :: "uuid option"
  tc_session_uuid :: uuid
  tc_session_agent :: "string option"
  tc_session_label :: "string option"
  tc_session_state :: "string option"
  tc_turn_id :: int
  tc_turn_preview :: string
  tc_turn_timestamp :: timestamp
  tc_operation_type :: "string option"
  tc_operation_category :: "string option"
  tc_pair_id :: "string option"
  tc_touch_kind :: string
  tc_is_write :: bool

definition touch_turn :: "projection_db \<Rightarrow> touch_row \<Rightarrow> turn_row option" where
  "touch_turn pd t = find (\<lambda>r. tt_session r = tf_session t \<and> tt_turn_id r = tf_turn_id t) (pd_turns pd)"

definition touch_operation :: "projection_db \<Rightarrow> touch_row \<Rightarrow> operation_row option" where
  "touch_operation pd t =
     find (\<lambda>r. or_session r = tf_session t \<and> or_turn_id r = tf_turn_id t \<and> Some (or_ord r) = tf_operation_ord t)
       (pd_operations pd)"

text \<open>One row of the joins: the turn and the session must exist.\<close>

definition trace_row ::
    "ingest_db \<Rightarrow> projection_db \<Rightarrow> pty_row list \<Rightarrow> touch_row \<Rightarrow> (touch_row \<times> trace_touch) option" where
  "trace_row db pd rows t =
     Option.bind (touch_turn pd t) (\<lambda>turn.
     Option.bind (sessions db (tf_session t)) (\<lambda>s.
       let m = meta_of rows (tf_session t) s; op = touch_operation pd t
       in Some (t, \<lparr>tc_pty_session_id = sm_pty_session_id m, tc_session_uuid = tf_session t,
          tc_session_agent = sm_session_agent m, tc_session_label = sm_session_label m,
          tc_session_state = sm_session_state m, tc_turn_id = tf_turn_id t, tc_turn_preview = tt_preview turn,
          tc_turn_timestamp = tt_start turn, tc_operation_type = Option.bind op or_operation_type,
          tc_operation_category = Option.bind op or_operation_category, tc_pair_id = map_option or_pair_id op,
          tc_touch_kind = tf_touch_kind t, tc_is_write = tf_is_write t\<rparr>)))"

definition load_repo_file_trace ::
    "ingest_db \<Rightarrow> projection_db \<Rightarrow> pty_row list \<Rightarrow> string \<Rightarrow> string \<Rightarrow> trace_touch list" where
  "load_repo_file_trace db pd rows repo path =
     map snd (sort_key (\<lambda>(t, c). - tc_turn_timestamp c) (sort_key (\<lambda>(t, c). - tf_turn_id t)
       (sort_key (\<lambda>(t, c). tf_ord t) (List.map_filter (trace_row db pd rows)
         (filter (\<lambda>t. tf_repo_name t = repo \<and> tf_repo_rel_path t = path) (pd_touches pd))))))"

section \<open>Backfill\<close>

definition sessions_missing_projection :: "ingest_db \<Rightarrow> projection_db \<Rightarrow> uuid list" where
  "sessions_missing_projection db pd =
     sort (filter (\<lambda>u. \<not> list_ex (\<lambda>r. tt_session r = u) (pd_turns pd)) (remdups (map ev_session (ev_rows db))))"

text \<open>The first session that fails stops it; what was rebuilt before stays.\<close>

fun backfill_loop ::
    "projection_env \<Rightarrow> ingest_db \<Rightarrow> uuid list \<Rightarrow> projection_db \<Rightarrow> ((string, unit) result \<times> projection_db) option" where
  "backfill_loop E db [] pd = Some (Inr (), pd)"
| "backfill_loop E db (u # us) pd =
     Option.bind (rebuild_session_projection E db pd u) (\<lambda>(r, pd').
       case r of Inl e \<Rightarrow> Some (Inl e, pd') | Inr _ \<Rightarrow> backfill_loop E db us pd')"

definition backfill_timeline_projection ::
    "projection_env \<Rightarrow> ingest_db \<Rightarrow> projection_db \<Rightarrow> ((string, nat) result \<times> projection_db) option" where
  "backfill_timeline_projection E db pd =
     (let us = sessions_missing_projection db pd
      in map_option (\<lambda>(r, pd'). (res_bind r (\<lambda>_. Inr (length us)), pd')) (backfill_loop E db us pd))"

section \<open>What they show\<close>

text \<open>
  With unique keys, and every touch belonging to a stored turn of a stored session, the trace
  of a file has exactly one entry for each touch of it.
\<close>

lemma trace_lists_every_touch:
  assumes "\<And>t. t \<in> set (pd_touches pd) \<Longrightarrow> touch_turn pd t \<noteq> None \<and> sessions db (tf_session t) \<noteq> None"
  shows "mset (map (\<lambda>c. (tc_session_uuid c, tc_turn_id c, tc_touch_kind c, tc_is_write c))
      (load_repo_file_trace db pd rows repo path))
    = mset (map (\<lambda>t. (tf_session t, tf_turn_id t, tf_touch_kind t, tf_is_write t))
        (filter (\<lambda>t. tf_repo_name t = repo \<and> tf_repo_rel_path t = path) (pd_touches pd)))"
proof -
  let ?key = "\<lambda>c. (tc_session_uuid c, tc_turn_id c, tc_touch_kind c, tc_is_write c)"
  have "map (\<lambda>tc. ?key (snd tc)) (List.map_filter (trace_row db pd rows) ts)
      = map (\<lambda>t. (tf_session t, tf_turn_id t, tf_touch_kind t, tf_is_write t)) ts"
    if "set ts \<subseteq> set (pd_touches pd)" for ts
    using that
  proof (induction ts)
    case (Cons t ts)
    then obtain turn s where "touch_turn pd t = Some turn" "sessions db (tf_session t) = Some s"
      using assms [of t] by auto
    then show ?case using Cons by (simp add: List.map_filter_simps trace_row_def Let_def)
  qed (simp add: List.map_filter_simps)
  then have "map (\<lambda>tc. ?key (snd tc)) (List.map_filter (trace_row db pd rows)
        (filter (\<lambda>t. tf_repo_name t = repo \<and> tf_repo_rel_path t = path) (pd_touches pd)))
      = map (\<lambda>t. (tf_session t, tf_turn_id t, tf_touch_kind t, tf_is_write t))
          (filter (\<lambda>t. tf_repo_name t = repo \<and> tf_repo_rel_path t = path) (pd_touches pd))"
    by auto
  from arg_cong [OF this, of mset] show ?thesis
    by (simp add: load_repo_file_trace_def image_mset.compositionality o_def)
qed

end
