(* ===== verification/Pty_Steps.thy ===== *)
theory Pty_Steps
  imports Pty Broker
begin

text \<open>
  The life of terminals as a step relation (\<^verbatim>\<open>backend/src/pty.rs\<close>, \<^verbatim>\<open>backend/src/secret_pty.rs\<close>).
  Spawning, deleting and the end of a process are tasks that run at the same time; a step
  is one of them going on to its next database statement, call or lock. A task that fails
  stops, and what it has done stays.
\<close>

section \<open>The world\<close>

datatype spawn_point = SpStart | SpPrepared "string option" | SpChild | SpRow

datatype delete_point = DlStart | DlTaken bool | DlUpdate | DlRevoke

datatype dead_point = DdStart | DdUpdate | DdRevoke

datatype pty_task =
  SpawnTask uuid spawn_params spawn_point
| DeleteTask uuid delete_point
| DeadTask uuid "int option" dead_point

datatype child = ChildRunning | ChildExited "int option"

datatype signal = SigTerm | SigKill

text \<open>
  \<open>w_sessions\<close> are the keys of the manager's map, \<open>w_supervised\<close> the terminals whose supervisor
  waits for their process, \<open>w_keys\<close> the key files. \<open>w_unrevoked\<close> only keeps account: the terminals
  whose credential was to be revoked and was not, because no broker is configured, the call did
  not get through or was refused, or the server stopped before it.
\<close>

record pty_world =
  w_rows :: "pty_row list"
  w_sessions :: "uuid set"
  w_children :: "uuid \<Rightarrow> child option"
  w_envs :: "uuid \<Rightarrow> env_vars option"
  w_supervised :: "uuid set"
  w_signals :: "(uuid \<times> signal) list"
  w_keys :: "uuid set"
  w_broker :: broker_db
  w_unrevoked :: "uuid set"
  w_tasks :: "pty_task list"

text \<open>
  What a step meets: the clock, which calls succeed, and the public key that was generated.
  \<open>en_registered\<close> says that the broker served the registration, \<open>en_answered\<close> that its answer
  came back.
\<close>

record step_env =
  en_clock :: timestamp
  en_own :: env_vars
  en_socket :: socket_lib
  en_primitives :: primitives
  en_broker_token :: string
  en_use_clock :: use_clock
  en_key_dir_ok :: bool
  en_public_key :: string
  en_registered :: bool
  en_answered :: bool
  en_key_written :: bool
  en_key_protected :: bool
  en_pty_opened :: bool
  en_child_started :: bool
  en_streams_ok :: bool
  en_db_ok :: bool
  en_alive :: bool
  en_revoke_served :: bool

definition KEY_DIR :: string where "KEY_DIR = ''/run/sulion/pty-keys''"

definition key_path_for :: "socket_lib \<Rightarrow> string \<Rightarrow> uuid \<Rightarrow> string" where
  "key_path_for K dir i = join_path dir (sock_uuid_show K i @ ''.pkcs8'')"

definition pty_key_dir :: "env_vars \<Rightarrow> string" where
  "pty_key_dir own = unwrap_or KEY_DIR (own ''SULION_SECRET_BROKER_KEY_DIR'')"

section \<open>Credentials\<close>

text \<open>The registration token, when a broker is configured. PostgreSQL has microseconds.\<close>

definition broker_registration_client :: "env_vars \<Rightarrow> string option" where
  "broker_registration_client own =
     (case (own ''SULION_SECRET_BROKER_URL'', own ''SULION_SECRET_BROKER_REGISTRATION_TOKEN'') of
        (Some url, Some token) \<Rightarrow> if blank url \<or> blank token then None else Some token
      | _ \<Rightarrow> None)"

definition call_broker :: "step_env \<Rightarrow> string \<Rightarrow> broker_db \<Rightarrow> broker_route \<Rightarrow> bool \<times> broker_db" where
  "call_broker E token b route =
     (case serve (en_primitives E) (en_broker_token E) b
        \<lparr>h_authorization = Some (''Bearer '' @ token), h_access_token = None, h_route = route,
         h_now = en_clock E div 1000, h_clock = en_use_clock E, h_iv = []\<rparr> of
        (reply, b') \<Rightarrow> (case reply of ReplyError _ \<Rightarrow> False | _ \<Rightarrow> True, b'))"

text \<open>The result, and the world with what was registered and written.\<close>

definition prepare_pty_credential ::
    "step_env \<Rightarrow> pty_world \<Rightarrow> uuid \<Rightarrow> (string, string option) result \<times> pty_world" where
  "prepare_pty_credential E w i =
     (case broker_registration_client (en_own E) of
        None \<Rightarrow> (Inr None, w)
      | Some token \<Rightarrow>
          if \<not> en_key_dir_ok E then (Inl ''create key directory'', w)
          else (let (ok, b) = (if en_registered E
                    then call_broker E token (w_broker w)
                           (RegisterPtyCredential \<lparr>reg_pty_session_id = i, reg_public_key = en_public_key E\<rparr>)
                    else (False, w_broker w));
                  w1 = w\<lparr>w_broker := b\<rparr>
                in if \<not> ok \<or> \<not> en_answered E then (Inl ''register PTY secret broker credential'', w1)
                   else if \<not> en_key_written E then (Inl ''write key'', w1)
                   else if \<not> en_key_protected E then (Inl ''chmod key'', w1\<lparr>w_keys := insert i (w_keys w1)\<rparr>)
                   else (Inr (Some (key_path_for (en_socket E) (pty_key_dir (en_own E)) i)),
                         w1\<lparr>w_keys := insert i (w_keys w1)\<rparr>)))"

definition revoke_credential :: "step_env \<Rightarrow> pty_world \<Rightarrow> uuid \<Rightarrow> pty_world" where
  "revoke_credential E w i =
     (let w1 = (case broker_registration_client (en_own E) of
                  None \<Rightarrow> w\<lparr>w_unrevoked := insert i (w_unrevoked w)\<rparr>
                | Some token \<Rightarrow>
                    (let (ok, b) = (if en_revoke_served E
                          then call_broker E token (w_broker w) (RevokePtyCredential i)
                          else (False, w_broker w))
                     in w\<lparr>w_broker := b, w_unrevoked := (if ok then w_unrevoked w else insert i (w_unrevoked w))\<rparr>))
      in w1\<lparr>w_keys := w_keys w1 - {i}\<rparr>)"

section \<open>Tasks\<close>

text \<open>
  Each function is one step of a task: the task afterwards, if it goes on, and the world.
\<close>

fun advance_spawn ::
    "step_env \<Rightarrow> uuid \<Rightarrow> spawn_params \<Rightarrow> spawn_point \<Rightarrow> pty_world \<Rightarrow> pty_task option \<times> pty_world" where
  "advance_spawn E i p SpStart w =
     (case prepare_pty_credential E w i of
        (Inl e, w') \<Rightarrow> (None, w')
      | (Inr key, w') \<Rightarrow> (Some (SpawnTask i p (SpPrepared key)), w'))"
| "advance_spawn E i p (SpPrepared key) w =
     (if \<not> en_pty_opened E \<or> \<not> en_child_started E then (None, w)
      else (let w' = w\<lparr>w_children := (w_children w)(i \<mapsto> ChildRunning),
                       w_envs := (w_envs w)(i \<mapsto> shell_env (en_socket E) (en_own E) i p key)\<rparr>
            in (if en_streams_ok E then Some (SpawnTask i p SpChild) else None, w')))"
| "advance_spawn E i p SpChild w =
     (case insert_pty_row (w_rows w) (new_pty_row (en_clock E) i p) of
        Inl e \<Rightarrow> (None, w)
      | Inr rows \<Rightarrow> if en_db_ok E then (Some (SpawnTask i p SpRow), w\<lparr>w_rows := rows\<rparr>) else (None, w))"
| "advance_spawn E i p SpRow w =
     (None, w\<lparr>w_sessions := insert i (w_sessions w), w_supervised := insert i (w_supervised w)\<rparr>)"

text \<open>
  The process is signalled while its supervisor waits for it, and killed when it is still
  alive after three seconds. A failed update returns before the credential is revoked.
\<close>

fun advance_delete ::
    "step_env \<Rightarrow> uuid \<Rightarrow> delete_point \<Rightarrow> pty_world \<Rightarrow> pty_task option \<times> pty_world" where
  "advance_delete E i DlStart w =
     (Some (DeleteTask i (DlTaken (i \<in> w_sessions w))), w\<lparr>w_sessions := w_sessions w - {i}\<rparr>)"
| "advance_delete E i (DlTaken had) w =
     (Some (DeleteTask i DlUpdate),
      if had \<and> i \<in> w_supervised w
      then w\<lparr>w_signals := w_signals w @ [(i, SigTerm)] @ (if en_alive E then [(i, SigKill)] else [])\<rparr>
      else w)"
| "advance_delete E i DlUpdate w =
     (if en_db_ok E
      then (Some (DeleteTask i DlRevoke), w\<lparr>w_rows := delete_row (en_clock E) (w_rows w) i\<rparr>)
      else (None, w))"
| "advance_delete E i DlRevoke w = (None, revoke_credential E w i)"

fun advance_dead ::
    "step_env \<Rightarrow> uuid \<Rightarrow> int option \<Rightarrow> dead_point \<Rightarrow> pty_world \<Rightarrow> pty_task option \<times> pty_world" where
  "advance_dead E i code DdStart w =
     (Some (DeadTask i code DdUpdate), w\<lparr>w_sessions := w_sessions w - {i}\<rparr>)"
| "advance_dead E i code DdUpdate w =
     (Some (DeadTask i code DdRevoke),
      if en_db_ok E then w\<lparr>w_rows := mark_dead_row (en_clock E) (w_rows w) i code\<rparr> else w)"
| "advance_dead E i code DdRevoke w = (None, revoke_credential E w i)"

fun advance :: "step_env \<Rightarrow> pty_task \<Rightarrow> pty_world \<Rightarrow> pty_task option \<times> pty_world" where
  "advance E (SpawnTask i p at) w = advance_spawn E i p at w"
| "advance E (DeleteTask i at) w = advance_delete E i at w"
| "advance E (DeadTask i code at) w = advance_dead E i code at w"

text \<open>The n-th task moves on.\<close>

definition run_task :: "step_env \<Rightarrow> nat \<Rightarrow> pty_world \<Rightarrow> pty_world" where
  "run_task E n w =
     (case advance E (w_tasks w ! n) w of
        (t', w') \<Rightarrow> w'\<lparr>w_tasks := take n (w_tasks w) @ (case t' of None \<Rightarrow> [] | Some t \<Rightarrow> [t])
                            @ drop (Suc n) (w_tasks w)\<rparr>)"

section \<open>Steps\<close>

definition task_ids :: "pty_task list \<Rightarrow> uuid set" where
  "task_ids ts = (\<lambda>t. case t of SpawnTask i _ _ \<Rightarrow> i | DeleteTask i _ \<Rightarrow> i | DeadTask i _ _ \<Rightarrow> i) ` set ts"

text \<open>An identifier that nothing has used: spawning draws a random one.\<close>

definition unused :: "pty_world \<Rightarrow> uuid \<Rightarrow> bool" where
  "unused w i \<longleftrightarrow>
     i \<notin> pr_id ` set (w_rows w) \<and> i \<notin> w_sessions w \<and> w_children w i = None \<and> i \<notin> w_supervised w
     \<and> i \<notin> task_ids (w_tasks w) \<and> map_of (credentials (w_broker w)) i = None \<and> i \<notin> w_keys w"

text \<open>
  The server process goes away with its tasks and supervisors, and comes back: the rows are
  reconciled, and the map is empty.
\<close>

fun awaits_revocation :: "pty_task \<Rightarrow> uuid set" where
  "awaits_revocation (DeleteTask i DlRevoke) = {i}"
| "awaits_revocation (DeadTask i _ DdRevoke) = {i}"
| "awaits_revocation _ = {}"

definition restart :: "step_env \<Rightarrow> pty_world \<Rightarrow> pty_world" where
  "restart E w =
     w\<lparr>w_unrevoked := w_unrevoked w \<union> \<Union> (awaits_revocation ` set (w_tasks w)),
       w_rows := snd (reconcile_orphans_on_startup (en_clock E) (w_rows w)),
       w_sessions := {}, w_supervised := {}, w_tasks := []\<rparr>"

text \<open>A request to the broker that is not one of the server's own.\<close>

definition foreign_route :: "broker_route \<Rightarrow> bool" where
  "foreign_route r \<longleftrightarrow> route_layer r \<noteq> RegistrationAuth"

inductive pty_step :: "pty_world \<Rightarrow> pty_world \<Rightarrow> bool" where
  spawn: "unused w i \<Longrightarrow> pty_step w (w\<lparr>w_tasks := w_tasks w @ [SpawnTask i p SpStart]\<rparr>)"
| delete: "pty_step w (w\<lparr>w_tasks := w_tasks w @ [DeleteTask i DlStart]\<rparr>)"
| task: "n < length (w_tasks w) \<Longrightarrow> pty_step w (run_task E n w)"
| exits: "w_children w i = Some ChildRunning \<Longrightarrow>
    pty_step w (w\<lparr>w_children := (w_children w)(i \<mapsto> ChildExited code)\<rparr>)"
| reaped: "i \<in> w_supervised w \<Longrightarrow> w_children w i = Some (ChildExited code) \<Longrightarrow>
    pty_step w (w\<lparr>w_supervised := w_supervised w - {i}, w_tasks := w_tasks w @ [DeadTask i code DdStart]\<rparr>)"
| metadata: "pty_step w (w\<lparr>w_rows := update_metadata (w_rows w) i label pinned color\<rparr>)"
| starting: "pty_step w (w\<lparr>w_rows := snd (mark_agent_starting now (w_rows w) i agent)\<rparr>)"
| message: "pty_step w (w\<lparr>w_rows := snd (apply_socket_msg now db (w_rows w) msg)\<rparr>)"
| restarts: "pty_step w (restart E w)"
| broker: "foreign_route (h_route rq) \<Longrightarrow> pty_step w (w\<lparr>w_broker := snd (serve P token (w_broker w) rq)\<rparr>)"

definition initial_world :: "broker_db \<Rightarrow> pty_world" where
  "initial_world b =
     \<lparr>w_rows = [], w_sessions = {}, w_children = (\<lambda>_. None), w_envs = (\<lambda>_. None), w_supervised = {},
      w_signals = [], w_keys = {}, w_broker = b, w_unrevoked = {}, w_tasks = []\<rparr>"

abbreviation pty_steps :: "pty_world \<Rightarrow> pty_world \<Rightarrow> bool" where
  "pty_steps \<equiv> pty_step\<^sup>*\<^sup>*"

end
