(* ===== verification/Pty_Safety.thy ===== *)
theory Pty_Safety
  imports Pty_Steps
begin

text \<open>
  What holds of terminals in every reachable state: rows are well formed, a terminal's state
  only moves forward, and a terminal that ended has no credential left, with the ways in
  which credentials and processes are left behind.
\<close>

section \<open>Well-formed rows\<close>

definition runtime_ok :: "agent_runtime \<Rightarrow> bool" where
  "runtime_ok a \<longleftrightarrow>
     a = no_runtime
     \<or> runtime_active a \<and> ag_agent a \<noteq> None \<and> ag_started_at a \<noteq> None \<and> ag_ended_at a = None
         \<and> ag_exit_code a = None
     \<or> ag_state a = ''exited'' \<and> ag_agent a \<noteq> None \<and> ag_started_at a \<noteq> None \<and> ag_ended_at a \<noteq> None"

definition row_ok :: "pty_row \<Rightarrow> bool" where
  "row_ok r \<longleftrightarrow>
     pty_state_parse (pr_state r) \<noteq> None \<and> runtime_ok (pr_runtime r)
     \<and> (pr_state r = ''live'' \<longleftrightarrow> pr_ended_at r = None) \<and> (pr_state r = ''live'' \<longrightarrow> pr_exit_code r = None)
     \<and> (pr_state r \<in> {''dead'', ''orphaned''} \<longrightarrow> \<not> runtime_active (pr_runtime r))"

text \<open>The life of a terminal.\<close>

inductive life_step :: "pty_state option \<Rightarrow> pty_state option \<Rightarrow> bool" where
  born: "life_step None (Some Live)"
| ended: "life_step (Some Live) (Some Dead)"
| lost: "life_step (Some Live) (Some Orphaned)"
| deleted: "life_step (Some s) (Some Deleted)"

definition row_state :: "pty_row \<Rightarrow> pty_state option" where
  "row_state r = pty_state_parse (pr_state r)"

lemma pty_state_strings [simp]:
  "pty_state_parse ''live'' = Some Live" "pty_state_parse ''dead'' = Some Dead"
  "pty_state_parse ''deleted'' = Some Deleted" "pty_state_parse ''orphaned'' = Some Orphaned"
  "pty_state_parse s = Some Live \<longleftrightarrow> s = ''live''"
  by (auto simp: pty_state_parse_def)

definition row_moves :: "pty_row \<Rightarrow> pty_row \<Rightarrow> bool" where
  "row_moves r r' \<longleftrightarrow>
     pr_id r' = pr_id r
     \<and> (row_ok r \<longrightarrow> row_ok r' \<and> (row_state r' = row_state r \<or> life_step (row_state r) (row_state r')))"

lemma row_moves_refl [simp]: "row_moves r r"
  by (simp add: row_moves_def)

lemma update_rows_moves:
  assumes "\<And>r. c r \<Longrightarrow> row_moves r (f r)"
  shows "list_all2 row_moves rows (snd (update_rows c f rows))"
  by (simp add: update_rows_def list.rel_map) (rule list.rel_refl_strong, simp add: assms)

lemma find_update_rows:
  assumes "\<And>r. pr_id (f r) = pr_id r"
  shows "find (\<lambda>r. pr_id r = i) (snd (update_rows c f rows))
    = map_option (\<lambda>r. if c r then f r else r) (find (\<lambda>r. pr_id r = i) rows)"
  by (induction rows) (simp_all add: update_rows_def assms)

lemma all_moves_refl [simp]: "list_all2 row_moves rows rows"
  by (rule list.rel_refl) simp

lemma metadata_moves: "list_all2 row_moves rows (update_metadata rows i l p c)"
  unfolding update_metadata_def
  by (rule if_split [where P = "list_all2 row_moves rows", THEN iffD2], intro conjI impI all_moves_refl update_rows_moves)
     (auto simp: row_moves_def row_ok_def row_state_def)

lemma starting_moves: "list_all2 row_moves rows (snd (mark_agent_starting now rows i agent))"
  unfolding mark_agent_starting_def case_prod_beta snd_conv
  by (rule update_rows_moves) (auto simp: row_moves_def row_ok_def row_state_def runtime_ok_def runtime_active_def)

lemma delete_moves: "list_all2 row_moves rows (delete_row now rows i)"
  unfolding delete_row_def
  by (rule update_rows_moves)
     (auto simp: row_moves_def row_ok_def row_state_def or_else_eq_None intro: life_step.intros)

lemma ended_runtime_ok:
  "runtime_ok a \<Longrightarrow> runtime_ok (ended_runtime (Some t) code a) \<and> \<not> runtime_active (ended_runtime (Some t) code a)"
  by (auto simp: runtime_ok_def ended_runtime_def runtime_active_def no_runtime_def)

lemma dead_moves: "list_all2 row_moves rows (mark_dead_row now rows i code)"
  unfolding mark_dead_row_def
  by (rule update_rows_moves)
     (auto simp: row_moves_def row_ok_def row_state_def ended_runtime_ok intro: life_step.intros)

lemma orphan_moves: "list_all2 row_moves rows (snd (reconcile_orphans_on_startup now rows))"
proof -
  have some: "\<exists>t. or_else x (Some now) = Some t" for x by (cases x) auto
  show ?thesis
    unfolding reconcile_orphans_on_startup_def
  proof (rule update_rows_moves)
    fix r :: pty_row
    assume live: "pr_state r = ''live''"
    obtain t where t: "or_else (ag_ended_at (pr_runtime r)) (Some now) = Some t" using some by blast
    show "row_moves r (r\<lparr>pr_state := ''orphaned'', pr_ended_at := or_else (pr_ended_at r) (Some now),
        pr_runtime := ended_runtime (or_else (ag_ended_at (pr_runtime r)) (Some now))
           (ag_exit_code (pr_runtime r)) (pr_runtime r)\<rparr>)"
      using live unfolding t
      by (auto simp: row_moves_def row_ok_def row_state_def ended_runtime_ok or_else_eq_None intro: life_step.intros)
  qed
qed

lemma runtime_moves: "list_all2 row_moves rows (apply_runtime now rows msg)"
proof (cases "rm_event msg")
  case Running
  have "\<exists>t. or_else x (Some now) = Some t" for x by (cases x) auto
  then show ?thesis
    unfolding apply_runtime_def Running runtime_event.case
    by (intro update_rows_moves)
       (auto simp: row_moves_def row_ok_def row_state_def runtime_ok_def runtime_active_def or_else_eq_None)
next
  case Exited
  show ?thesis
    unfolding apply_runtime_def Exited runtime_event.case
    by (intro update_rows_moves)
       (auto simp: row_moves_def row_ok_def row_state_def runtime_ok_def runtime_active_def or_else_eq_None no_runtime_def)
qed

lemma message_moves: "list_all2 row_moves rows (snd (apply_socket_msg now db rows msg))"
proof (cases msg)
  case (CorrelateMsg m)
  have "list_all2 row_moves rows (correlate_row rows m)"
    unfolding correlate_row_def
    by (rule update_rows_moves) (auto simp: row_moves_def row_ok_def row_state_def)
  then show ?thesis by (simp add: CorrelateMsg apply_socket_msg_def apply_correlation_def Let_def)
qed (simp add: apply_socket_msg_def runtime_moves)

lemma new_row_ok: "row_ok (new_pty_row now i p) \<and> row_state (new_pty_row now i p) = Some Live"
  by (cases "sp_initial_agent p")
     (auto simp: new_pty_row_def row_ok_def row_state_def initial_runtime_def runtime_ok_def runtime_active_def)

section \<open>Steps on the rows\<close>

text \<open>Every step leaves the rows moved, or adds a live one under a new identifier.\<close>

definition rows_step :: "pty_row list \<Rightarrow> pty_row list \<Rightarrow> bool" where
  "rows_step rows rows' \<longleftrightarrow>
     list_all2 row_moves rows rows'
     \<or> (\<exists>r. rows' = rows @ [r] \<and> pr_id r \<notin> pr_id ` set rows \<and> row_ok r \<and> row_state r = Some Live)"

lemma prepare_rows [simp]: "w_rows (snd (prepare_pty_credential E w i)) = w_rows w"
  by (auto simp: prepare_pty_credential_def Let_def split: option.splits prod.splits)

lemma revoke_rows [simp]: "w_rows (revoke_credential E w i) = w_rows w"
  by (auto simp: revoke_credential_def Let_def split: option.splits prod.splits)

lemma advance_rows: "rows_step (w_rows w) (w_rows (snd (advance E t w)))"
proof (cases t)
  case (SpawnTask i p at)
  show ?thesis
  proof (cases at)
    case SpStart
    have "w_rows (snd (advance_spawn E i p SpStart w)) = w_rows (snd (prepare_pty_credential E w i))"
      by (cases "prepare_pty_credential E w i") (auto split: sum.splits)
    then show ?thesis by (simp add: SpawnTask SpStart rows_step_def)
  next
    case SpChild
    then show ?thesis
      using new_row_ok [of "en_clock E" i p]
      by (auto simp: SpawnTask rows_step_def insert_pty_row_def new_pty_row_def split: if_splits)
  qed (auto simp: SpawnTask rows_step_def Let_def)
next
  case (DeleteTask i at)
  then show ?thesis by (cases at) (auto simp: rows_step_def delete_moves)
next
  case (DeadTask i code at)
  then show ?thesis by (cases at) (auto simp: rows_step_def dead_moves)
qed

lemma run_task_rows: "w_rows (run_task E n w) = w_rows (snd (advance E (w_tasks w ! n) w))"
  by (simp add: run_task_def split: prod.splits)

lemma step_rows: "pty_step w w' \<Longrightarrow> rows_step (w_rows w) (w_rows w')"
  by (induction rule: pty_step.induct)
     (simp_all add: run_task_rows advance_rows,
      simp_all add: rows_step_def metadata_moves starting_moves message_moves orphan_moves restart_def)

definition rows_ok :: "pty_world \<Rightarrow> bool" where
  "rows_ok w \<longleftrightarrow> distinct (map pr_id (w_rows w)) \<and> list_all row_ok (w_rows w)"

definition life_of :: "uuid \<Rightarrow> pty_world \<Rightarrow> pty_state option" where
  "life_of i w = Option.bind (find (\<lambda>r. pr_id r = i) (w_rows w)) row_state"

lemma moves_ids: "list_all2 row_moves rows rows' \<Longrightarrow> map pr_id rows' = map pr_id rows"
  by (induction rule: list_all2_induct) (auto simp: row_moves_def)

lemma moves_find:
  assumes "list_all2 row_moves rows rows'" and "list_all row_ok rows"
  shows "find (\<lambda>r. pr_id r = i) rows = None \<and> find (\<lambda>r. pr_id r = i) rows' = None
    \<or> (\<exists>r r'. find (\<lambda>r. pr_id r = i) rows = Some r \<and> find (\<lambda>r. pr_id r = i) rows' = Some r'
         \<and> (row_state r' = row_state r \<or> life_step (row_state r) (row_state r')))"
  using assms by (induction rule: list_all2_induct) (auto simp: row_moves_def)

lemma rows_ok_step: "rows_ok w \<Longrightarrow> pty_step w w' \<Longrightarrow> rows_ok w'"
proof -
  assume ok: "rows_ok w" and "pty_step w w'"
  from step_rows [OF this(2)] show "rows_ok w'"
    unfolding rows_step_def
  proof
    assume m: "list_all2 row_moves (w_rows w) (w_rows w')"
    then have "list_all row_ok (w_rows w')"
      using ok unfolding rows_ok_def by (elim conjE) (induction rule: list_all2_induct; simp add: row_moves_def)
    then show ?thesis using ok moves_ids [OF m] by (simp add: rows_ok_def)
  qed (use ok in \<open>auto simp: rows_ok_def\<close>)
qed

lemma life_simulated:
  assumes "rows_ok w" and "pty_step w w'"
  shows "life_of i w' = life_of i w \<or> life_step (life_of i w) (life_of i w')"
  using step_rows [OF assms(2)] unfolding rows_step_def
proof
  assume "list_all2 row_moves (w_rows w) (w_rows w')"
  from moves_find [OF this, of i] assms(1) show ?thesis by (auto simp: rows_ok_def life_of_def)
next
  assume "\<exists>r. w_rows w' = w_rows w @ [r] \<and> pr_id r \<notin> pr_id ` set (w_rows w) \<and> row_ok r \<and> row_state r = Some Live"
  then obtain r where r: "w_rows w' = w_rows w @ [r]" "pr_id r \<notin> pr_id ` set (w_rows w)" "row_state r = Some Live"
    by blast
  have app: "find P (xs @ ys) = (case find P xs of None \<Rightarrow> find P ys | Some x \<Rightarrow> Some x)" for P and xs ys :: "pty_row list"
    by (induction xs) auto
  have "find (\<lambda>x. pr_id x = pr_id r) (w_rows w) = None" using r(2) by (auto simp: find_None_iff image_iff)
  then show ?thesis
    by (cases "find (\<lambda>x. pr_id x = i) (w_rows w)") (auto simp: life_of_def r app intro: life_step.born)
qed

interpretation life: simulation pty_step life_step "life_of i" rows_ok for i
  by unfold_locales (fact rows_ok_step, fact life_simulated)

text \<open>The rows never leave the form in which the code reads them.\<close>

text \<open>
  C26. In every state the terminals can reach, whatever is spawned, deleted, crashes, fails or
  is reported in whatever order: identifiers are unique, every row has one of the four states,
  is live exactly while it has no end, has no exit code while live, and its agent's runtime is
  in a consistent form and never active on a dead or orphaned terminal.
\<close>

theorem pty_rows_well_formed:
  assumes "pty_steps (initial_world b) w"
  shows "distinct (map pr_id (w_rows w)) \<and> list_all row_ok (w_rows w)"
proof -
  have "rows_ok (initial_world b)" by (simp add: rows_ok_def initial_world_def)
  from life.inv_steps [OF assms this] show ?thesis by (simp add: rows_ok_def)
qed

text \<open>
  C25. The terminals implement the life cycle \<open>life_step\<close>: absent, live, then dead or orphaned,
  then deleted; each step of the server is a step of the life of each terminal or leaves it.
  So a terminal that is not live is never live again: it stays as it is or is deleted.
\<close>

theorem pty_refines_life_cycle:
  assumes "pty_steps (initial_world b) w" and "pty_steps w w'"
  shows "life_step\<^sup>*\<^sup>* (life_of i w) (life_of i w')
    \<and> (life_of i w = Some s \<longrightarrow> s \<noteq> Live \<longrightarrow> life_of i w' \<in> {Some s, Some Deleted})"
proof -
  have "rows_ok (initial_world b)" by (simp add: rows_ok_def initial_world_def)
  from life.inv_steps [OF assms(1) this] have sim: "life_step\<^sup>*\<^sup>* (life_of i w) (life_of i w')"
    using life.simulates_steps [OF assms(2)] by blast
  have "y \<in> {Some s, Some Deleted}" if "life_step\<^sup>*\<^sup>* x y" "x = Some s" "s \<noteq> Live" for x y
    using that by (induction rule: rtranclp_induct) (auto elim: life_step.cases)
  then show ?thesis using sim by blast
qed

section \<open>Runs\<close>

text \<open>The tasks at these positions move on, one after the other.\<close>

fun run_tasks :: "step_env \<Rightarrow> nat list \<Rightarrow> pty_world \<Rightarrow> pty_world option" where
  "run_tasks E [] w = Some w"
| "run_tasks E (n # ns) w = (if n < length (w_tasks w) then run_tasks E ns (run_task E n w) else None)"

lemma run_tasks_steps: "run_tasks E ns w = Some w' \<Longrightarrow> pty_steps w w'"
proof (induction ns arbitrary: w)
  case (Cons n ns)
  then have "pty_step w (run_task E n w)" "pty_steps (run_task E n w) w'"
    by (auto intro: pty_step.task split: if_splits)
  then show ?case by (rule converse_rtranclp_into_rtranclp)
qed simp

definition sample_primitives :: primitives where
  "sample_primitives =
     \<lparr>show_uuid = (\<lambda>_. ''u''), b64_decode = (\<lambda>_. Some (replicate 32 CHR ''k'')), ed25519_verify = (\<lambda>_ _ _. True),
      cipher_encrypt = (\<lambda>_ _. None), cipher_decrypt = (\<lambda>_ _. None), json_encode = (\<lambda>_. Inl []),
      json_decode = (\<lambda>_. Inl []), collate = (\<lambda>xs. xs), validate_bearer = (\<lambda>_. None)\<rparr>"

definition sample_step :: step_env where
  "sample_step =
     \<lparr>en_clock = 7000,
      en_own = [''SULION_SECRET_BROKER_URL'' \<mapsto> ''http://broker'', ''SULION_SECRET_BROKER_REGISTRATION_TOKEN'' \<mapsto> ''t''],
      en_socket = \<lparr>sock_parse = (\<lambda>_. None), sock_uuid = (\<lambda>_. None), sock_uuid_show = (\<lambda>_. ''u''), sock_int = (\<lambda>_. None)\<rparr>,
      en_primitives = sample_primitives, en_broker_token = ''t'',
      en_use_clock = \<lparr>app_now = 0, prune_now = 0, nonce_now = 0, select_now = 0, audit_now = 0\<rparr>,
      en_key_dir_ok = True, en_public_key = ''key'', en_registered = True, en_answered = True,
      en_key_written = True, en_key_protected = True, en_pty_opened = True, en_child_started = True,
      en_streams_ok = True, en_db_ok = True, en_alive = False, en_revoke_served = True\<rparr>"

definition empty_broker :: broker_db where
  "empty_broker = \<lparr>secrets = [], grants = [], credentials = [], nonces = [], audit = []\<rparr>"

definition start :: pty_world where
  "start = (initial_world empty_broker)\<lparr>w_tasks := [SpawnTask 1 default_spawn_params SpStart]\<rparr>"

lemma start_reached: "pty_steps (initial_world empty_broker) start"
proof -
  have "unused (initial_world empty_broker) 1"
    by (simp add: unused_def initial_world_def task_ids_def empty_broker_def)
  from pty_step.spawn [OF this, of default_spawn_params] show ?thesis
    by (simp add: start_def initial_world_def r_into_rtranclp)
qed

lemma run_reached: "run_tasks E ns start = Some w \<Longrightarrow> pty_steps (initial_world empty_broker) w"
  using start_reached run_tasks_steps by (meson rtranclp_trans)

text \<open>The process of the terminal exits and is reaped.\<close>

definition exit_reaped :: "pty_world \<Rightarrow> pty_world" where
  "exit_reaped w =
     (let w1 = w\<lparr>w_children := (w_children w)(1 \<mapsto> ChildExited (Some 0))\<rparr>
      in w1\<lparr>w_supervised := w_supervised w1 - {1}, w_tasks := w_tasks w1 @ [DeadTask 1 (Some 0) DdStart]\<rparr>)"

lemma exit_reached:
  assumes "w_children w 1 = Some ChildRunning" and "1 \<in> w_supervised w"
  shows "pty_steps w (exit_reaped w)"
proof -
  let ?w = "w\<lparr>w_children := (w_children w)(1 \<mapsto> ChildExited (Some 0))\<rparr>"
  have "pty_step w ?w" by (rule pty_step.exits [OF assms(1)])
  moreover have "pty_step ?w (exit_reaped w)"
    unfolding exit_reaped_def Let_def by (rule pty_step.reaped) (use assms(2) in simp_all)
  ultimately show ?thesis by (meson converse_rtranclp_into_rtranclp r_into_rtranclp)
qed

lemma sample_spawned:
  "case run_tasks sample_step [0, 0, 0, 0] start of
     None \<Rightarrow> False
   | Some w \<Rightarrow> w_children w 1 = Some ChildRunning \<and> 1 \<in> w_supervised w \<and> w_tasks w = []
       \<and> active_key (w_broker w) 1 \<noteq> None
       \<and> (case run_tasks sample_step [0, 0, 0] (exit_reaped w) of
            None \<Rightarrow> False
          | Some v \<Rightarrow> life_of 1 v = Some Dead \<and> w_tasks v = [] \<and> 1 \<notin> w_unrevoked v)
       \<and> life_of 1 (restart sample_step w) = Some Orphaned \<and> w_tasks (restart sample_step w) = []
       \<and> 1 \<notin> w_unrevoked (restart sample_step w) \<and> active_key (w_broker (restart sample_step w)) 1 \<noteq> None"
  by code_simp

theorem pty_rows_well_formed_witness:
  "\<exists>w. pty_steps (initial_world empty_broker) w \<and> w_tasks w = [] \<and> list_all row_ok (w_rows w)"
proof -
  obtain w where w: "run_tasks sample_step [0, 0, 0, 0] start = Some w" "w_tasks w = []"
    using sample_spawned by (auto split: option.splits)
  from pty_rows_well_formed [OF run_reached [OF w(1)]] run_reached [OF w(1)] w(2) show ?thesis by blast
qed

theorem pty_refines_life_cycle_witness:
  "\<exists>w v. pty_steps (initial_world empty_broker) w \<and> pty_steps w v
     \<and> life_step\<^sup>*\<^sup>* (life_of 1 w) (life_of 1 v) \<and> life_of 1 v = Some Orphaned
     \<and> life_of 1 (restart sample_step v) \<in> {Some Orphaned, Some Deleted}"
proof -
  obtain w where w: "run_tasks sample_step [0, 0, 0, 0] start = Some w"
    "life_of 1 (restart sample_step w) = Some Orphaned"
    using sample_spawned by (cases "run_tasks sample_step [0, 0, 0, 0] start") simp_all
  let ?v = "restart sample_step w"
  have steps: "pty_steps w ?v" "pty_steps ?v (restart sample_step ?v)" using pty_step.restarts by blast+
  have v: "pty_steps (initial_world empty_broker) ?v" using run_reached [OF w(1)] steps(1) by (rule rtranclp_trans)
  have "life_step\<^sup>*\<^sup>* (life_of 1 w) (life_of 1 ?v)"
    using pty_refines_life_cycle [OF run_reached [OF w(1)] steps(1), of 1] by blast
  moreover have "life_of 1 (restart sample_step ?v) \<in> {Some Orphaned, Some Deleted}"
    using pty_refines_life_cycle [OF v steps(2), of 1 Orphaned] w(2) by simp
  ultimately show ?thesis using run_reached [OF w(1)] steps(1) w(2) by blast
qed

end
