(* ===== verification/Pty_Credentials.thy ===== *)
theory Pty_Credentials
  imports Pty_Safety
begin

text \<open>
  Credentials of terminals at the secret broker: when a terminal that ended can no longer
  redeem secrets, and when its credential or its process outlives it.
\<close>

section \<open>Calls to the broker\<close>

lemma active_key_register:
  "i \<noteq> reg_pty_session_id body \<Longrightarrow>
     active_key (snd (register_pty_credential P now st body)) i = active_key st i"
  by (auto simp: register_pty_credential_def active_key_def update_conv split: option.splits)

lemma active_key_revoke:
  "active_key (snd (revoke_pty_credential now st j)) i = (if i = j then None else active_key st i)"
proof -
  have e: "map_of (map (\<lambda>(k, c). (k, if k = j \<and> c_revoked_at c = None then c\<lparr>c_revoked_at := Some now\<rparr> else c)) cs) i
      = map_option (\<lambda>c. if i = j \<and> c_revoked_at c = None then c\<lparr>c_revoked_at := Some now\<rparr> else c) (map_of cs i)" for cs
    by (induction cs) auto
  show ?thesis
    by (cases "map_of (credentials st) i") (simp_all add: revoke_pty_credential_def active_key_def e)
qed

lemma register_call:
  assumes "i \<noteq> j"
  shows "active_key (snd (call_broker E token b (RegisterPtyCredential \<lparr>reg_pty_session_id = j, reg_public_key = key\<rparr>))) i
    = active_key b i"
  using assms by (simp add: call_broker_def serve_def Let_def active_key_register case_prod_beta)

lemma revoke_call:
  "i \<noteq> j \<Longrightarrow> active_key (snd (call_broker E token b (RevokePtyCredential j))) i = active_key b i"
  "fst (call_broker E token b (RevokePtyCredential j)) \<Longrightarrow>
     active_key (snd (call_broker E token b (RevokePtyCredential j))) j = None"
  "active_key b i = None \<Longrightarrow> active_key (snd (call_broker E token b (RevokePtyCredential j))) i = None"
  by (auto simp: call_broker_def serve_def Let_def active_key_revoke case_prod_beta unauthorized_reply_def
      split: if_splits)

lemma verify_credentials: "credentials (snd (verify_signed_use_request P clk st body)) = credentials st"
  by (simp add: verify_signed_use_request_def split: sum.split prod.split)

lemma use_credentials: "credentials (snd (use_secret P clk st body)) = credentials st"
proof (cases "verify_signed_use_request P clk st body")
  case (Pair r st1)
  then have "credentials st1 = credentials st" using verify_credentials [of P clk st body] by simp
  then show ?thesis by (cases r) (simp_all add: use_secret_def Pair split: sum.split)
qed

lemma handler_credentials: "credentials (snd (user_handler P rq u st route)) = credentials st"
  by (cases route)
     (simp_all add: upsert_secret_def delete_secret_def unlock_grant_def revoke_grant_def split: sum.split)

lemma foreign_keys:
  assumes "foreign_route (h_route rq)"
  shows "active_key (snd (serve P token st rq)) i = active_key st i"
proof -
  have "credentials (snd (serve P token st rq)) = credentials st"
  proof (cases "route_layer (h_route rq)")
    case UserAuth
    then show ?thesis by (simp add: serve_def Let_def handler_credentials split: option.split)
  next
    case NoAuth
    then show ?thesis by (cases "h_route rq") (simp_all add: serve_def Let_def use_credentials)
  qed (use assms in \<open>simp add: foreign_route_def\<close>)
  then show ?thesis by (simp add: active_key_def)
qed

section \<open>Where a step leaves credentials\<close>

definition ended :: "pty_state option \<Rightarrow> bool" where
  "ended s \<longleftrightarrow> s = Some Dead \<or> s = Some Deleted"

definition awaited :: "pty_task list \<Rightarrow> uuid set" where
  "awaited ts = \<Union> (awaits_revocation ` set ts)"

definition secured :: "pty_world \<Rightarrow> uuid set \<Rightarrow> uuid \<Rightarrow> bool" where
  "secured w pending i \<longleftrightarrow> active_key (w_broker w) i = None \<or> i \<in> w_unrevoked w \<or> i \<in> pending"

text \<open>The spawn tasks that have not yet inserted their row.\<close>

fun rowless :: "pty_task \<Rightarrow> uuid list" where
  "rowless (SpawnTask i p SpRow) = []"
| "rowless (SpawnTask i p _) = [i]"
| "rowless _ = []"

definition row_ids :: "pty_world \<Rightarrow> uuid set" where
  "row_ids w = pr_id ` set (w_rows w)"

lemma found_id: "find (\<lambda>r. pr_id r = i) rows = Some r \<Longrightarrow> pr_id r = i"
  by (auto simp: find_Some_iff)

text \<open>Statements that keep the state of every terminal, and the two that end one.\<close>

definition keeps_life :: "pty_row list \<Rightarrow> pty_row list \<Rightarrow> uuid \<Rightarrow> bool" where
  "keeps_life rows rows' i \<longleftrightarrow>
     Option.bind (find (\<lambda>r. pr_id r = i) rows') row_state = Option.bind (find (\<lambda>r. pr_id r = i) rows) row_state"

lemma update_keeps:
  assumes "\<And>r. pr_id (f r) = pr_id r" and "\<And>r. pr_id r = i \<Longrightarrow> c r \<Longrightarrow> row_state (f r) = row_state r"
  shows "keeps_life rows (snd (update_rows c f rows)) i"
  unfolding keeps_life_def find_update_rows [of f, OF assms(1)]
  by (cases "find (\<lambda>r. pr_id r = i) rows") (auto dest: found_id simp: assms(2))

lemma keeps_refl [simp]: "keeps_life rows rows i"
  by (simp add: keeps_life_def)

lemma metadata_keeps: "keeps_life rows (update_metadata rows j l p c) i"
  unfolding update_metadata_def
  by (rule if_split [where P = "\<lambda>rows'. keeps_life rows rows' i", THEN iffD2], intro conjI impI keeps_refl update_keeps)
     (auto simp: row_state_def)

lemma starting_keeps: "keeps_life rows (snd (mark_agent_starting now rows j agent)) i"
  unfolding mark_agent_starting_def case_prod_beta snd_conv by (rule update_keeps) (auto simp: row_state_def)

lemma message_keeps: "keeps_life rows (snd (apply_socket_msg now db rows msg)) i"
proof (cases msg)
  case (RuntimeMsg m)
  then show ?thesis
    by (cases "rm_event m")
       (simp_all add: apply_socket_msg_def apply_runtime_def, (rule update_keeps; simp add: row_state_def)+)
next
  case (CorrelateMsg m)
  then show ?thesis
    unfolding apply_socket_msg_def apply_correlation_def correlate_row_def Let_def CorrelateMsg socket_msg.case snd_conv
    by (intro update_keeps) (auto simp: row_state_def)
qed

lemma ending_keeps:
  "i \<noteq> j \<Longrightarrow> keeps_life rows (delete_row now rows j) i"
  "i \<noteq> j \<Longrightarrow> keeps_life rows (mark_dead_row now rows j code) i"
  unfolding delete_row_def mark_dead_row_def by (rule update_keeps; simp)+

lemma orphan_not_ended:
  assumes "ended (Option.bind (find (\<lambda>r. pr_id r = i) (snd (reconcile_orphans_on_startup now rows))) row_state)"
  shows "ended (Option.bind (find (\<lambda>r. pr_id r = i) rows) row_state)"
proof -
  let ?f = "\<lambda>r. r\<lparr>pr_state := ''orphaned'', pr_ended_at := or_else (pr_ended_at r) (Some now),
      pr_runtime := ended_runtime (or_else (ag_ended_at (pr_runtime r)) (Some now))
         (ag_exit_code (pr_runtime r)) (pr_runtime r)\<rparr> :: pty_row"
  have f: "find (\<lambda>r. pr_id r = i) (snd (reconcile_orphans_on_startup now rows))
      = map_option (\<lambda>r. if pr_state r = ''live'' then ?f r else r) (find (\<lambda>r. pr_id r = i) rows)"
    unfolding reconcile_orphans_on_startup_def by (rule find_update_rows) simp
  show ?thesis
    using assms unfolding f
    by (cases "find (\<lambda>r. pr_id r = i) rows") (auto simp: ended_def row_state_def split: if_splits)
qed

section \<open>Ended terminals are secured\<close>

abbreviation after :: "step_env \<Rightarrow> pty_task \<Rightarrow> pty_world \<Rightarrow> pty_world" where
  "after E t w \<equiv> snd (advance E t w)"

definition remaining :: "step_env \<Rightarrow> pty_task \<Rightarrow> pty_world \<Rightarrow> pty_task list" where
  "remaining E t w = (case fst (advance E t w) of None \<Rightarrow> [] | Some t' \<Rightarrow> [t'])"

lemma prepare_keeps:
  "w_unrevoked (snd (prepare_pty_credential E w j)) = w_unrevoked w"
  "i \<noteq> j \<Longrightarrow> active_key (w_broker (snd (prepare_pty_credential E w j))) i = active_key (w_broker w) i"
  using register_call [of i j E _ "w_broker w" "en_public_key E"]
  by (auto simp: prepare_pty_credential_def Let_def case_prod_beta split: option.splits)

lemma revoke_secures:
  "secured (revoke_credential E w i) pending i"
  "secured w pending i \<Longrightarrow> secured (revoke_credential E w j) pending i"
  using revoke_call(2) [of E _ "w_broker w" i] revoke_call(1) [of i j E _ "w_broker w"]
    revoke_call(3) [of "w_broker w" i E _ j]
  by (auto simp: revoke_credential_def Let_def case_prod_beta secured_def split: option.splits)

lemma secured_same:
  "secured w p i \<Longrightarrow> w_broker w' = w_broker w \<Longrightarrow> w_unrevoked w' = w_unrevoked w \<Longrightarrow> p \<subseteq> p' \<Longrightarrow> secured w' p' i"
  by (auto simp: secured_def)

lemma secured_more: "secured w p i \<Longrightarrow> p \<subseteq> p' \<Longrightarrow> secured w p' i"
  by (auto simp: secured_def)

lemma advance_secured:
  assumes "secured w (awaits_revocation t) i" and "i \<notin> set (rowless t)"
  shows "secured (after E t w) (awaited (remaining E t w)) i"
proof (cases t)
  case (SpawnTask j p at)
  show ?thesis
  proof (cases at)
    case SpStart
    then have "i \<noteq> j" using assms(2) SpawnTask by simp
    from prepare_keeps(2) [OF this, of E w] show ?thesis
      using assms(1) SpawnTask SpStart prepare_keeps(1) [of E w j]
      by (cases "prepare_pty_credential E w j") (auto simp: secured_def split: sum.splits)
  next
    case (SpPrepared key)
    then show ?thesis using assms(1) SpawnTask by (auto simp: secured_def Let_def)
  next
    case SpChild
    then show ?thesis using assms(1) SpawnTask by (auto simp: secured_def split: sum.splits)
  next
    case SpRow
    then show ?thesis using assms(1) SpawnTask by (auto simp: secured_def)
  qed
next
  case (DeleteTask j at)
  show ?thesis
  proof (cases at)
    case DlRevoke
    then show ?thesis
      using assms(1) DeleteTask revoke_secures(1) [of E w i "{}"] revoke_secures(2) [of w "{}" i E j]
      by (cases "i = j") (auto simp: remaining_def awaited_def secured_def)
  qed (use assms(1) DeleteTask in \<open>auto simp: remaining_def awaited_def secured_def\<close>)
next
  case (DeadTask j code at)
  show ?thesis
  proof (cases at)
    case DdRevoke
    then show ?thesis
      using assms(1) DeadTask revoke_secures(1) [of E w i "{}"] revoke_secures(2) [of w "{}" i E j]
      by (cases "i = j") (auto simp: remaining_def awaited_def secured_def)
  qed (use assms(1) DeadTask in \<open>auto simp: remaining_def awaited_def secured_def\<close>)
qed

lemma life_keeps: "keeps_life (w_rows w) (w_rows w') i \<Longrightarrow> life_of i w' = life_of i w"
  by (simp add: life_of_def keeps_life_def)

lemma life_new_row:
  assumes "ended (life_of i (w\<lparr>w_rows := w_rows w @ [r]\<rparr>))" and "row_state r = Some Live"
  shows "ended (life_of i w)"
proof -
  have "find P (xs @ ys) = (case find P xs of None \<Rightarrow> find P ys | Some x \<Rightarrow> Some x)" for P and xs ys :: "pty_row list"
    by (induction xs) auto
  then show ?thesis
    using assms by (cases "find (\<lambda>x. pr_id x = i) (w_rows w)") (auto simp: life_of_def ended_def split: if_splits)
qed

lemma advance_ends:
  assumes "ended (life_of i (after E t w))"
  shows "ended (life_of i w) \<or> i \<in> awaited (remaining E t w)"
proof (cases t)
  case (SpawnTask j p at)
  show ?thesis
  proof (cases at)
    case SpStart
    have "w_rows (after E t w) = w_rows w"
      using prepare_rows [of E w j]
      by (cases "prepare_pty_credential E w j") (auto simp: SpawnTask SpStart split: sum.splits)
    then show ?thesis using assms by (simp add: life_of_def)
  next
    case SpChild
    then show ?thesis
      using assms life_new_row [of i w "new_pty_row (en_clock E) j p"] new_row_ok [of "en_clock E" j p]
      by (auto simp: SpawnTask insert_pty_row_def split: if_splits)
  qed (use assms in \<open>auto simp: SpawnTask Let_def life_of_def split: if_splits\<close>)
next
  case (DeleteTask j at)
  show ?thesis
  proof (cases at)
    case DlUpdate
    show ?thesis
    proof (cases "i = j \<and> en_db_ok E")
      case False
      then have "life_of i (after E t w) = life_of i w"
        by (intro life_keeps) (auto simp: DeleteTask DlUpdate ending_keeps)
      then show ?thesis using assms by simp
    qed (simp add: DeleteTask DlUpdate remaining_def awaited_def)
  qed (use assms in \<open>auto simp: DeleteTask life_of_def split: if_splits\<close>)
next
  case (DeadTask j code at)
  show ?thesis
  proof (cases at)
    case DdUpdate
    show ?thesis
    proof (cases "i = j")
      case False
      then have "life_of i (after E t w) = life_of i w"
        by (intro life_keeps) (auto simp: DeadTask DdUpdate ending_keeps)
      then show ?thesis using assms by simp
    qed (simp add: DeadTask DdUpdate remaining_def awaited_def)
  qed (use assms in \<open>auto simp: DeadTask life_of_def\<close>)
qed

lemma moves_row_ids: "list_all2 row_moves rows rows' \<Longrightarrow> pr_id ` set rows' = pr_id ` set rows"
  by (metis list.set_map moves_ids)

lemma advance_rowless:
  "concat (map rowless (remaining E t w)) = rowless t \<and> row_ids (after E t w) = row_ids w
   \<or> concat (map rowless (remaining E t w)) = [] \<and> row_ids (after E t w) \<subseteq> row_ids w \<union> set (rowless t)"
proof (cases t)
  case (SpawnTask j p at)
  show ?thesis
  proof (cases at)
    case SpStart
    show ?thesis
      using prepare_rows [of E w j]
      by (cases "prepare_pty_credential E w j")
         (auto simp: SpawnTask SpStart remaining_def row_ids_def split: sum.splits)
  next
    case SpChild
    then show ?thesis
      by (auto simp: SpawnTask remaining_def row_ids_def insert_pty_row_def new_pty_row_def split: if_splits)
  qed (auto simp: SpawnTask remaining_def row_ids_def Let_def)
next
  case (DeleteTask j at)
  then show ?thesis
    by (cases at) (auto simp: remaining_def row_ids_def moves_row_ids [OF delete_moves])
next
  case (DeadTask j code at)
  then show ?thesis
    by (cases at) (auto simp: remaining_def row_ids_def moves_row_ids [OF dead_moves])
qed

definition rowless_ids :: "pty_task list \<Rightarrow> uuid list" where
  "rowless_ids ts = concat (map rowless ts)"

definition cred_inv :: "pty_world \<Rightarrow> bool" where
  "cred_inv w \<longleftrightarrow>
     distinct (rowless_ids (w_tasks w)) \<and> set (rowless_ids (w_tasks w)) \<inter> row_ids w = {}
     \<and> (\<forall>i. ended (life_of i w) \<longrightarrow> secured w (awaited (w_tasks w)) i)"

lemma awaited_append [simp]: "awaited (xs @ ys) = awaited xs \<union> awaited ys"
  and rowless_append [simp]: "rowless_ids (xs @ ys) = rowless_ids xs @ rowless_ids ys"
  and awaited_Cons [simp]: "awaited (t # ts) = awaits_revocation t \<union> awaited ts"
  and rowless_Cons [simp]: "rowless_ids (t # ts) = rowless t @ rowless_ids ts"
  and awaited_Nil [simp]: "awaited [] = {}" and rowless_Nil [simp]: "rowless_ids [] = []"
  by (simp_all add: awaited_def rowless_ids_def)

lemma life_has_row: "life_of i w \<noteq> None \<Longrightarrow> i \<in> row_ids w"
  by (cases "find (\<lambda>r. pr_id r = i) (w_rows w)") (auto simp: life_of_def row_ids_def find_Some_iff)

lemma rowless_unused: "unused w i \<Longrightarrow> i \<notin> set (rowless_ids (w_tasks w)) \<and> i \<notin> row_ids w"
proof -
  assume u: "unused w i"
  have "j \<in> task_ids ts" if "j \<in> set (rowless_ids ts)" for j ts
    using that
  proof (induction ts)
    case (Cons t ts)
    then show ?case by (cases t rule: rowless.cases) (auto simp: task_ids_def)
  qed simp
  then show ?thesis using u by (auto simp: unused_def row_ids_def)
qed

lemma run_task_parts:
  assumes "n < length (w_tasks w)"
  obtains xs t ys where "w_tasks w = xs @ t # ys" and "w_tasks (run_task E n w) = xs @ remaining E t w @ ys"
    and "w_rows (run_task E n w) = w_rows (after E t w)" and "w_broker (run_task E n w) = w_broker (after E t w)"
    and "w_unrevoked (run_task E n w) = w_unrevoked (after E t w)"
proof
  let ?t = "w_tasks w ! n"
  show "w_tasks w = take n (w_tasks w) @ ?t # drop (Suc n) (w_tasks w)" using assms by (rule id_take_nth_drop)
  show "w_tasks (run_task E n w) = take n (w_tasks w) @ remaining E ?t w @ drop (Suc n) (w_tasks w)"
    "w_rows (run_task E n w) = w_rows (after E ?t w)" "w_broker (run_task E n w) = w_broker (after E ?t w)"
    "w_unrevoked (run_task E n w) = w_unrevoked (after E ?t w)"
    by (simp_all add: run_task_def remaining_def case_prod_beta)
qed

lemma cred_inv_task:
  assumes "cred_inv w" and "n < length (w_tasks w)"
  shows "cred_inv (run_task E n w)"
proof -
  obtain xs t ys where ts: "w_tasks w = xs @ t # ys" "w_tasks (run_task E n w) = xs @ remaining E t w @ ys"
    and same: "w_rows (run_task E n w) = w_rows (after E t w)" "w_broker (run_task E n w) = w_broker (after E t w)"
      "w_unrevoked (run_task E n w) = w_unrevoked (after E t w)"
    by (rule run_task_parts [OF assms(2)])
  have inv: "distinct (rowless_ids xs @ rowless t @ rowless_ids ys)"
    "(set (rowless_ids xs) \<union> set (rowless t) \<union> set (rowless_ids ys)) \<inter> row_ids w = {}"
    "\<And>i. ended (life_of i w) \<Longrightarrow> secured w (awaited xs \<union> awaits_revocation t \<union> awaited ys) i"
    using assms(1) by (auto simp: cred_inv_def ts(1) Un_assoc)
  have rows: "row_ids (run_task E n w) = row_ids (after E t w)" by (simp add: row_ids_def same)
  have life: "life_of i (run_task E n w) = life_of i (after E t w)" for i by (simp add: life_of_def same)
  have "distinct (rowless_ids (w_tasks (run_task E n w)))
      \<and> set (rowless_ids (w_tasks (run_task E n w))) \<inter> row_ids (run_task E n w) = {}"
    using advance_rowless [of E t w] inv(1,2) unfolding rows ts(2) rowless_append rowless_ids_def [symmetric]
    by (elim disjE conjE; force)
  moreover have "secured (run_task E n w) (awaited (w_tasks (run_task E n w))) i"
    if e: "ended (life_of i (run_task E n w))" for i
  proof -
    have s: "secured (run_task E n w) p i \<longleftrightarrow> secured (after E t w) p i" for p by (simp add: secured_def same)
    from advance_ends [OF e [unfolded life]]
    show ?thesis
    proof
      assume was: "ended (life_of i w)"
      then have "life_of i w \<noteq> None" by (auto simp: ended_def)
      then have "i \<notin> set (rowless t)" using inv(2) life_has_row by blast
      show ?thesis
      proof (cases "i \<in> awaited xs \<union> awaited ys")
        case False
        then have "secured w (awaits_revocation t) i" using inv(3) [OF was] by (auto simp: secured_def)
        from advance_secured [OF this \<open>i \<notin> set (rowless t)\<close>]
        show ?thesis unfolding s ts(2) awaited_append by (rule secured_more) blast
      qed (auto simp: secured_def ts(2))
    qed (auto simp: secured_def ts(2))
  qed
  ultimately show ?thesis by (simp add: cred_inv_def)
qed

lemma cred_inv_rows:
  assumes "cred_inv w" and "\<And>i. keeps_life (w_rows w) rows i" and "pr_id ` set rows = pr_id ` set (w_rows w)"
  shows "cred_inv (w\<lparr>w_rows := rows\<rparr>)"
proof -
  have "life_of i (w\<lparr>w_rows := rows\<rparr>) = life_of i w" for i by (rule life_keeps) (simp add: assms(2))
  then show ?thesis using assms(1,3) by (simp add: cred_inv_def row_ids_def secured_def)
qed

lemma cred_inv_step: "cred_inv w \<Longrightarrow> pty_step w w' \<Longrightarrow> cred_inv w'"
proof (erule pty_step.cases, goal_cases)
  case (1 v i p)
  then show ?case
    using rowless_unused [of v i] by (auto simp: cred_inv_def row_ids_def life_of_def secured_def)
next
  case (2 v i)
  then show ?case by (auto simp: cred_inv_def row_ids_def life_of_def secured_def)
next
  case (3 n v E)
  then show ?case by (simp add: cred_inv_task)
next
  case (4 v i code)
  then show ?case by (auto simp: cred_inv_def row_ids_def life_of_def secured_def)
next
  case (5 i v code)
  then show ?case by (auto simp: cred_inv_def row_ids_def life_of_def secured_def)
next
  case (6 v i label pinned color)
  then show ?case by (simp add: cred_inv_rows metadata_keeps moves_row_ids [OF metadata_moves])
next
  case (7 v now i agent)
  then show ?case by (simp add: cred_inv_rows starting_keeps moves_row_ids [OF starting_moves])
next
  case (8 v now db msg)
  then show ?case by (simp add: cred_inv_rows message_keeps moves_row_ids [OF message_moves])
next
  case (9 v E)
  have "secured (restart E v) {} i" if "ended (life_of i (restart E v))" for i
  proof -
    have "ended (life_of i v)"
      using that orphan_not_ended [of i "en_clock E" "w_rows v"] by (simp add: life_of_def restart_def)
    then have "secured v (awaited (w_tasks v)) i" using 9 by (simp add: cred_inv_def)
    then show ?thesis by (auto simp: secured_def restart_def awaited_def)
  qed
  then show ?case using 9 by (simp add: cred_inv_def) (simp add: restart_def)
next
  case (10 rq v P token)
  then show ?case by (auto simp: cred_inv_def row_ids_def life_of_def secured_def foreign_keys)
qed

text \<open>
  C14. From an empty table of terminals, in every state that can be reached, whatever fails and
  however tasks interleave: a terminal that is dead or deleted, none of whose tasks is still
  running and whose revocation got through, has no active credential at the broker, and every
  redemption in its name is refused and returns nothing, with whatever signature.
\<close>

theorem ended_terminal_cannot_redeem:
  assumes "pty_steps (initial_world b) w" and "life_of i w \<in> {Some Dead, Some Deleted}"
    and "i \<notin> task_ids (w_tasks w)" and "i \<notin> w_unrevoked w" and "use_pty_session_id body = i"
  shows "active_key (w_broker w) i = None \<and> (\<exists>e. fst (use_secret P clk (w_broker w) body) = Inl e)"
proof -
  have "cred_inv (initial_world b)"
    by (simp add: cred_inv_def initial_world_def row_ids_def life_of_def ended_def)
  with assms(1) have inv: "cred_inv w"
    by (induction rule: rtranclp_induct) (auto intro: cred_inv_step)
  have pending: "i \<in> task_ids ts" if "i \<in> awaited ts" for ts
    using that
  proof (induction ts)
    case (Cons t ts)
    then show ?case by (cases t rule: awaits_revocation.cases) (auto simp: task_ids_def)
  qed simp
  have "secured w (awaited (w_tasks w)) i" using inv assms(2) by (auto simp: cred_inv_def ended_def)
  then have none: "active_key (w_broker w) i = None" using assms(3,4) pending by (auto simp: secured_def)
  have "\<exists>e. check_use_request P (app_now clk) (w_broker w) body = Inl e"
    using none assms(5) by (auto simp: check_use_request_def)
  then have "\<exists>e. fst (use_secret P clk (w_broker w) body) = Inl e"
    by (auto simp: use_secret_def verify_signed_use_request_def)
  with none show ?thesis ..
qed

theorem ended_terminal_cannot_redeem_witness:
  "\<exists>w. pty_steps (initial_world empty_broker) w \<and> life_of 1 w = Some Dead
     \<and> (\<exists>e. fst (use_secret sample_primitives (en_use_clock sample_step) (w_broker w)
           \<lparr>use_pty_session_id = 1, use_secret_id = None, use_tool = ''sh'', use_timestamp = 0,
            use_nonce = ''n'', use_signature = ''s''\<rparr>) = Inl e)"
proof -
  obtain w where w: "run_tasks sample_step [0, 0, 0, 0] start = Some w" "w_children w 1 = Some ChildRunning"
    "1 \<in> w_supervised w"
    and rest: "case run_tasks sample_step [0, 0, 0] (exit_reaped w) of None \<Rightarrow> False
          | Some v \<Rightarrow> life_of 1 v = Some Dead \<and> w_tasks v = [] \<and> 1 \<notin> w_unrevoked v"
    using sample_spawned by (auto split: option.splits)
  obtain v where v: "run_tasks sample_step [0, 0, 0] (exit_reaped w) = Some v" "life_of 1 v = Some Dead"
    "w_tasks v = []" "1 \<notin> w_unrevoked v"
    using rest by (auto split: option.splits)
  have reach: "pty_steps (initial_world empty_broker) v"
    using run_reached [OF w(1)] exit_reached [OF w(2,3)] run_tasks_steps [OF v(1)] by (meson rtranclp_trans)
  have "life_of 1 v \<in> {Some Dead, Some Deleted}" "1 \<notin> task_ids (w_tasks v)"
    using v(2,3) by (simp_all add: task_ids_def)
  from ended_terminal_cannot_redeem [OF reach this v(4), where P = sample_primitives and clk = "en_use_clock sample_step"
      and body = "\<lparr>use_pty_session_id = 1, use_secret_id = None, use_tool = ''sh'', use_timestamp = 0,
        use_nonce = ''n'', use_signature = ''s''\<rparr>"] reach v(2)
  show ?thesis by auto
qed

text \<open>A spawn that fails after the registration, and a delete that runs before the session is in the map.\<close>

definition failing_step :: step_env where
  "failing_step = sample_step\<lparr>en_child_started := False\<rparr>"

definition delete_too :: "pty_world \<Rightarrow> pty_world" where
  "delete_too w = w\<lparr>w_tasks := w_tasks w @ [DeleteTask 1 DlStart]\<rparr>"

lemma sample_left_behind:
  "case run_tasks failing_step [0, 0] start of
     None \<Rightarrow> False
   | Some w \<Rightarrow> w_rows w = [] \<and> w_tasks w = [] \<and> w_children w 1 = None \<and> active_key (w_broker w) 1 \<noteq> None"
  "case run_tasks sample_step [0, 0, 0] start of
     None \<Rightarrow> False
   | Some w \<Rightarrow>
       (case run_tasks sample_step [1, 1, 1, 1, 0] (delete_too w) of
          None \<Rightarrow> False
        | Some v \<Rightarrow> life_of 1 v = Some Deleted \<and> w_tasks v = [] \<and> 1 \<in> w_sessions v
            \<and> w_children v 1 = Some ChildRunning \<and> w_signals v = [])"
  by code_simp+

text \<open>
  Three ways in which a credential or a process outlives its terminal, without any call to
  the broker failing. When the server restarts, a terminal becomes orphaned and its
  credential stays active. When the shell does not start, the credential that was registered
  for it stays active, with no terminal left to delete. And when a terminal is deleted between
  the insertion of its row and its entry into the map, its process is never signalled, and
  runs on as a session of a deleted terminal.
\<close>

theorem terminals_left_behind:
  "(\<exists>w. pty_steps (initial_world empty_broker) w \<and> life_of 1 w = Some Orphaned \<and> w_tasks w = []
      \<and> 1 \<notin> w_unrevoked w \<and> active_key (w_broker w) 1 \<noteq> None)
   \<and> (\<exists>w. pty_steps (initial_world empty_broker) w \<and> w_rows w = [] \<and> w_tasks w = [] \<and> w_children w 1 = None
      \<and> active_key (w_broker w) 1 \<noteq> None)
   \<and> (\<exists>w. pty_steps (initial_world empty_broker) w \<and> life_of 1 w = Some Deleted \<and> w_tasks w = []
      \<and> 1 \<in> w_sessions w \<and> w_children w 1 = Some ChildRunning \<and> w_signals w = [])"
proof (intro conjI)
  obtain w where w: "run_tasks sample_step [0, 0, 0, 0] start = Some w"
    "life_of 1 (restart sample_step w) = Some Orphaned" "w_tasks (restart sample_step w) = []"
    "1 \<notin> w_unrevoked (restart sample_step w)" "active_key (w_broker (restart sample_step w)) 1 \<noteq> None"
    using sample_spawned by (cases "run_tasks sample_step [0, 0, 0, 0] start") simp_all
  have "pty_steps (initial_world empty_broker) (restart sample_step w)"
    using run_reached [OF w(1)] pty_step.restarts by (rule rtranclp.rtrancl_into_rtrancl)
  with w(2-5) show "\<exists>w. pty_steps (initial_world empty_broker) w \<and> life_of 1 w = Some Orphaned \<and> w_tasks w = []
      \<and> 1 \<notin> w_unrevoked w \<and> active_key (w_broker w) 1 \<noteq> None" by blast
next
  obtain w where "run_tasks failing_step [0, 0] start = Some w" "w_rows w = []" "w_tasks w = []" "w_children w 1 = None"
    "active_key (w_broker w) 1 \<noteq> None"
    using sample_left_behind(1) by (cases "run_tasks failing_step [0, 0] start") simp_all
  then show "\<exists>w. pty_steps (initial_world empty_broker) w \<and> w_rows w = [] \<and> w_tasks w = [] \<and> w_children w 1 = None
      \<and> active_key (w_broker w) 1 \<noteq> None" using run_reached by blast
next
  obtain w v where w: "run_tasks sample_step [0, 0, 0] start = Some w"
    and v: "run_tasks sample_step [1, 1, 1, 1, 0] (delete_too w) = Some v"
    and left: "life_of 1 v = Some Deleted" "w_tasks v = []" "1 \<in> w_sessions v" "w_children v 1 = Some ChildRunning"
      "w_signals v = []"
    using sample_left_behind(2) by (auto split: option.splits)
  have "pty_step w (delete_too w)" unfolding delete_too_def by (rule pty_step.delete)
  then have "pty_steps (initial_world empty_broker) v"
    using run_reached [OF w] run_tasks_steps [OF v] by (meson rtranclp.rtrancl_into_rtrancl rtranclp_trans)
  with left show "\<exists>w. pty_steps (initial_world empty_broker) w \<and> life_of 1 w = Some Deleted \<and> w_tasks w = []
      \<and> 1 \<in> w_sessions w \<and> w_children w 1 = Some ChildRunning \<and> w_signals w = []" by blast
qed

end
