(* ===== verification/Pty_Props.thy ===== *)
theory Pty_Props
  imports Pty_Safety Store_Load
begin

text \<open>
  What a terminal's shell can see of the server's environment, and correlation against
  ingestion.
\<close>

section \<open>The environment of a shell\<close>

text \<open>The variables of the server that are read, and those that the shell can have.\<close>

definition READ_VARS :: "string list" where
  "READ_VARS =
     [''HOME'', ''USER'', ''PATH'', ''TERM'', ''SULION_REPOS_ROOT'', ''SULION_CORRELATE_SOCK''] @ TOOL_VARS @ SERVICE_VARS"

definition SHELL_VARS :: "string list" where
  "SHELL_VARS =
     [''HOME'', ''USER'', ''LOGNAME'', ''SHELL'', ''PATH'', ''TERM'', ''SULION_PTY_ID'', ''SULION_REPO_NAME'',
      ''SULION_WORKSPACE_ID'', ''SULION_WORKSPACE_KIND'', ''SULION_WORKSPACE_PATH'', ''SULION_CANONICAL_REPO'',
      ''SULION_BRANCH'', ''SULION_BASE_REF'', ''SULION_BASE_SHA'', ''SULION_MERGE_TARGET'',
      ''SULION_CORRELATE_SOCK'', ''SULION_SECRET_BROKER_KEY_PATH''] @ TOOL_VARS @ SERVICE_VARS"

lemma forward_restrict:
  "set ks \<subseteq> A \<Longrightarrow> fold (forward_env (own |` A)) ks cmd = fold (forward_env own) ks cmd"
  by (induction ks arbitrary: cmd) (simp_all add: forward_env_def)

lemma forward_other: "k \<notin> set ks \<Longrightarrow> fold (forward_env own) ks cmd k = cmd k"
  by (induction ks arbitrary: cmd) (auto simp: forward_env_def split: option.split)

lemma set_opt_other: "k \<noteq> k' \<Longrightarrow> set_opt k' v cmd k = cmd k"
  by (simp add: set_opt_def split: option.split)

lemma forwarded_sets: "set TOOL_VARS \<subseteq> set READ_VARS" "set SERVICE_VARS \<subseteq> set READ_VARS"
  by (auto simp: READ_VARS_def)

lemma read_vars:
  "(own |` set READ_VARS) ''HOME'' = own ''HOME''" "(own |` set READ_VARS) ''USER'' = own ''USER''"
  "(own |` set READ_VARS) ''PATH'' = own ''PATH''" "(own |` set READ_VARS) ''TERM'' = own ''TERM''"
  "(own |` set READ_VARS) ''SULION_REPOS_ROOT'' = own ''SULION_REPOS_ROOT''"
  "(own |` set READ_VARS) ''SULION_CORRELATE_SOCK'' = own ''SULION_CORRELATE_SOCK''"
  by (simp_all add: restrict_map_def READ_VARS_def)

lemma shell_env_reads: "shell_env K (own |` set READ_VARS) i p key = shell_env K own i p key"
  by (simp only: shell_env_def configure_pty_environment_def workspace_env_def default_pty_path_def Let_def
      read_vars forward_restrict forwarded_sets)

lemma shell_env_other:
  assumes "k \<notin> set SHELL_VARS"
  shows "shell_env K own i p key k = None"
proof -
  have "k \<notin> set TOOL_VARS" "k \<notin> set SERVICE_VARS"
    "k \<notin> {''HOME'', ''USER'', ''LOGNAME'', ''SHELL'', ''PATH'', ''TERM'', ''SULION_PTY_ID'', ''SULION_REPO_NAME'',
      ''SULION_WORKSPACE_ID'', ''SULION_WORKSPACE_KIND'', ''SULION_WORKSPACE_PATH'', ''SULION_CANONICAL_REPO'',
      ''SULION_BRANCH'', ''SULION_BASE_REF'', ''SULION_BASE_SHA'', ''SULION_MERGE_TARGET'',
      ''SULION_CORRELATE_SOCK'', ''SULION_SECRET_BROKER_KEY_PATH''}"
    using assms by (auto simp: SHELL_VARS_def)
  then show ?thesis
    by (simp add: shell_env_def configure_pty_environment_def workspace_env_def Let_def set_opt_other
        forward_other split: option.split)
qed

lemma shell_env_pty: "shell_env K own i p key ''SULION_PTY_ID'' = Some (sock_uuid_show K i)"
proof -
  have "''SULION_PTY_ID'' \<notin> set SERVICE_VARS" by (simp add: SERVICE_VARS_def)
  then show ?thesis
    by (simp add: shell_env_def configure_pty_environment_def workspace_env_def Let_def set_opt_other
        forward_other split: option.split)
qed

text \<open>
  C30. The shell of a terminal sees nothing of the server's environment but the listed
  variables, and gets no others: in particular neither the broker's registration token nor the
  database's address. Its own identifier is always there.
\<close>

theorem shell_env_isolated:
  "shell_env K own i p key = shell_env K (own |` set READ_VARS) i p key
   \<and> dom (shell_env K own i p key) \<subseteq> set SHELL_VARS
   \<and> shell_env K own i p key ''SULION_PTY_ID'' = Some (sock_uuid_show K i)
   \<and> list_all (\<lambda>k. k \<notin> set (READ_VARS @ SHELL_VARS))
       [''SULION_SECRET_BROKER_REGISTRATION_TOKEN'', ''SULION_DB_URL'', ''DATABASE_URL'']"
proof (intro conjI)
  show "dom (shell_env K own i p key) \<subseteq> set SHELL_VARS"
    by (rule subsetI, rule ccontr) (simp add: domIff shell_env_other)
  show "list_all (\<lambda>k. k \<notin> set (READ_VARS @ SHELL_VARS))
      [''SULION_SECRET_BROKER_REGISTRATION_TOKEN'', ''SULION_DB_URL'', ''DATABASE_URL'']"
    by code_simp
qed (simp_all only: shell_env_reads shell_env_pty)

section \<open>Correlation and ingestion\<close>

lemma pointers_of_current:
  "map_of (pty_pointers rows) i = map_option pr_current_session (find (\<lambda>r. pr_id r = i) rows)"
  by (induction rows) (auto simp: pty_pointers_def)

lemma correlate_row_again: "correlate_row (correlate_row rows msg) msg = correlate_row rows msg"
  by (simp add: correlate_row_def update_rows_def)

lemma correlate_session_again:
  "correlate_session (correlate_session db msg) msg = correlate_session db msg"
  by (cases "sessions db (cm_session_uuid msg)") (simp_all add: correlate_session_def)

lemma upsert_ptys [simp]: "ptys (upsert_agent_session db u agent ph) = ptys db"
  by (simp add: upsert_agent_session_def Let_def)

lemma correlate_current:
  assumes "cm_pty_id msg \<in> pr_id ` set rows"
  shows "map_of (pty_pointers (correlate_row rows msg)) (cm_pty_id msg) = Some (Some (cm_session_uuid msg))"
proof -
  obtain r where "find (\<lambda>r. pr_id r = cm_pty_id msg) rows = Some r"
    using assms by (cases "find (\<lambda>r. pr_id r = cm_pty_id msg) rows") (auto simp: find_None_iff)
  moreover from this have "pr_id r = cm_pty_id msg" by (auto simp: find_Some_iff)
  ultimately show ?thesis by (simp add: pointers_of_current correlate_row_def find_update_rows)
qed

text \<open>
  A correlation for a terminal makes its session the one the terminal shows, with the
  agent it names, and the session the terminal's, whatever was there before; applying it twice
  is applying it once; and for a session of that agent it commutes with the upsert that
  ingestion makes when it first sees the transcript: hook and ingester may come in any order.
\<close>

theorem correlation_race_tolerant:
  assumes "cm_pty_id msg \<in> pr_id ` set rows"
  shows "(case apply_correlation db rows msg of (db', rows') \<Rightarrow>
      resolve_session_target db' (cm_pty_id msg) None = Resolved (cm_session_uuid msg) (Some (cm_agent msg))
      \<and> map_option cs_pty_session_id (sessions db' (cm_session_uuid msg)) = Some (Some (cm_pty_id msg))
      \<and> apply_correlation db' rows' msg = (db', rows')
      \<and> upsert_agent_session db' (cm_session_uuid msg) (cm_agent msg) ph
          = fst (apply_correlation (upsert_agent_session db (cm_session_uuid msg) (cm_agent msg) ph) rows msg))"
proof -
  let ?rows = "correlate_row rows msg"
  let ?db = "(correlate_session db msg)\<lparr>ptys := pty_pointers ?rows\<rparr>"
  let ?u = "cm_session_uuid msg"
  have row: "\<exists>s. sessions ?db ?u = Some s \<and> cs_agent s = cm_agent msg \<and> cs_pty_session_id s = Some (cm_pty_id msg)"
    by (cases "sessions db ?u") (simp_all add: correlate_session_def)
  have "upsert_agent_session ?db ?u (cm_agent msg) ph
      = fst (apply_correlation (upsert_agent_session db ?u (cm_agent msg) ph) rows msg)"
  proof (cases "sessions db ?u")
    case (Some s)
    then show ?thesis
      by (cases s) (simp add: upsert_agent_session_def apply_correlation_def correlate_session_def Let_def)
  qed (simp add: upsert_agent_session_def apply_correlation_def correlate_session_def Let_def)
  moreover have "apply_correlation ?db ?rows msg = (?db, ?rows)"
    by (cases "sessions db ?u") (simp_all add: apply_correlation_def correlate_row_again Let_def correlate_session_def)
  ultimately show ?thesis
    using row correlate_current [OF assms]
    by (auto simp: apply_correlation_def Let_def resolve_session_target_def)
qed

theorem correlation_race_tolerant_witness:
  "\<exists>w db'. pty_steps (initial_world empty_broker) w
     \<and> fst (apply_correlation \<lparr>ev_rows = [], block_rows = [], sessions = (\<lambda>_. None), states = (\<lambda>_. None),
            metadata = (\<lambda>_. None), ptys = [], rebuilds = []\<rparr> (w_rows w)
          \<lparr>cm_pty_id = 1, cm_session_uuid = 9, cm_agent = ''codex''\<rparr>) = db'
     \<and> resolve_session_target db' 1 None = Resolved 9 (Some ''codex'')"
proof -
  obtain w where w: "run_tasks sample_step [0, 0, 0, 0] start = Some w" "life_of 1 (restart sample_step w) = Some Orphaned"
    using sample_spawned by (cases "run_tasks sample_step [0, 0, 0, 0] start") simp_all
  let ?w = "restart sample_step w"
  have reach: "pty_steps (initial_world empty_broker) ?w"
    using run_reached [OF w(1)] pty_step.restarts by (rule rtranclp.rtrancl_into_rtrancl)
  have "1 \<in> pr_id ` set (w_rows ?w)"
    using w(2) by (cases "find (\<lambda>r. pr_id r = 1) (w_rows ?w)") (auto simp: life_of_def find_Some_iff)
  then have "cm_pty_id \<lparr>cm_pty_id = 1, cm_session_uuid = 9, cm_agent = ''codex''\<rparr> \<in> pr_id ` set (w_rows ?w)" by simp
  from correlation_race_tolerant [OF this, where db = "\<lparr>ev_rows = [], block_rows = [], sessions = (\<lambda>_. None),
      states = (\<lambda>_. None), metadata = (\<lambda>_. None), ptys = [], rebuilds = []\<rparr>" and ph = None] reach
  show ?thesis by (auto simp: case_prod_beta)
qed

end
