(* ===== verification/Reindex.thy ===== *)
theory Reindex
  imports Projection_Repo
begin

text \<open>
  Rebuilding what is derived from stored transcripts: the backfill of canonical fields and
  blocks (\<^verbatim>\<open>backend/src/ingest/ingester.rs\<close>), the reindex an administrator starts
  (\<^verbatim>\<open>reset.rs\<close>) and the maintenance at startup with its version gates
  (\<^verbatim>\<open>maintenance.rs\<close>). An environment says which statements fail and in which order a query
  without \<^verbatim>\<open>ORDER BY\<close> returns its rows.
\<close>

section \<open>Rewriting one event\<close>

definition set_canonical :: "ingest_lib \<Rightarrow> canonical_event \<Rightarrow> event_row \<Rightarrow> event_row" where
  "set_canonical L parsed r =
     r\<lparr>ev_speaker := Some (speaker_str (ce_speaker parsed)),
       ev_content_kind := Some (content_kind_str (ce_content_kind parsed)),
       ev_event_uuid := ce_event_uuid parsed, ev_parent_event_uuid := ce_parent_event_uuid parsed,
       ev_related_tool_use_id := ce_related_tool_use_id parsed,
       ev_is_sidechain := ce_is_sidechain parsed, ev_is_meta := ce_is_meta parsed,
       ev_subtype := ce_subtype parsed, ev_search_text := search_text (i_json L) parsed\<rparr>"

definition rewrite_canonical_event ::
    "ingest_lib \<Rightarrow> ingest_db \<Rightarrow> uuid \<Rightarrow> int \<Rightarrow> canonical_event \<Rightarrow> ingest_db" where
  "rewrite_canonical_event L db u off parsed =
     db\<lparr>ev_rows := map (\<lambda>r. if ev_session r = u \<and> ev_offset r = off then set_canonical L parsed r else r)
          (ev_rows db),
        block_rows := insert_blocks (block_rows db) u off (ce_blocks parsed)\<rparr>"

section \<open>Which events need it\<close>

definition has_block :: "block_row list \<Rightarrow> event_row \<Rightarrow> (block \<Rightarrow> bool) \<Rightarrow> bool" where
  "has_block blocks r P \<longleftrightarrow>
     list_ex (\<lambda>b. br_session b = ev_session r \<and> br_offset b = ev_offset r \<and> P (br_block b)) blocks"

definition needs_backfill :: "block_row list \<Rightarrow> event_row \<Rightarrow> bool" where
  "needs_backfill blocks r \<longleftrightarrow>
     ev_speaker r = None \<or> ev_content_kind r = None
     \<or> ev_content_kind r \<noteq> Some ''none'' \<and> \<not> has_block blocks r (\<lambda>_. True)"

text \<open>The operator \<open>?\<close> of \<^verbatim>\<open>jsonb\<close>: a key of an object, an element of an array, or the text itself.\<close>

fun json_has :: "json \<Rightarrow> string \<Rightarrow> bool" where
  "json_has (JObj m) k = (map_of m k \<noteq> None)"
| "json_has (JArr vs) k = list_ex (\<lambda>v. v = JStr k) vs"
| "json_has v k = (v = JStr k)"

definition legacy_shape :: "block_row list \<Rightarrow> event_row \<Rightarrow> bool" where
  "legacy_shape blocks r \<longleftrightarrow>
     has_block blocks r (\<lambda>b. b_kind b = BToolResult \<and> b_tool_output b = None
       \<and> json_has (ev_payload r) ''toolUseResult'')
     \<or> has_block blocks r (\<lambda>b. b_kind b = BToolUse
       \<and> (b_tool_name_canonical b = Some ''edit'' \<or> b_tool_name_canonical b = Some ''multi_edit'')
       \<and> (case b_tool_input b of None \<Rightarrow> False | Some v \<Rightarrow> \<not> json_has v ''file_edits''))"

definition needs_rewrite :: "block_row list \<Rightarrow> event_row \<Rightarrow> bool" where
  "needs_rewrite blocks r \<longleftrightarrow>
     ev_agent r \<noteq> ''codex'' \<and> (needs_backfill blocks r \<or> legacy_shape blocks r)"

section \<open>The backfill\<close>

record backfill_env =
  be_sessions_fail :: bool
  be_rows_fail :: "uuid \<Rightarrow> bool"
  be_legacy_fail :: bool
  be_rewrite_fails :: "uuid \<Rightarrow> int \<Rightarrow> bool"
  be_parent_fails :: "uuid \<Rightarrow> int \<Rightarrow> bool"
  be_session_order :: "uuid list \<Rightarrow> uuid list"
  be_row_order :: "event_row list \<Rightarrow> event_row list"

definition session_rows :: "ingest_db \<Rightarrow> uuid \<Rightarrow> event_row list" where
  "session_rows db u = sort_key ev_offset (filter (\<lambda>r. ev_session r = u) (ev_rows db))"

definition codex_sessions :: "ingest_db \<Rightarrow> uuid list" where
  "codex_sessions db =
     remdups (map ev_session
       (filter (\<lambda>r. ev_agent r = ''codex'' \<and> needs_backfill (block_rows db) r) (ev_rows db)))"

text \<open>The rows of one session, with what the query said of each before the loop.\<close>

fun backfill_codex_rows ::
    "ingest_lib \<Rightarrow> backfill_env \<Rightarrow> uuid \<Rightarrow> codex_context \<Rightarrow> nat \<Rightarrow> (event_row \<times> bool) list \<Rightarrow>
     ingest_db \<Rightarrow> (string, nat) result \<times> ingest_db" where
  "backfill_codex_rows L E u ctx n [] db = (Inr n, db)"
| "backfill_codex_rows L E u ctx n ((r, needs) # rows) db =
     (let ctx' = update_codex_context L ctx (ev_payload r) u
      in if \<not> needs then backfill_codex_rows L E u ctx' n rows db
         else if be_rewrite_fails E u (ev_offset r) then (Inl ''rewrite_canonical_event'', db)
         else let parsed = parse_canonical_event L (ev_agent r) (ev_payload r) u (ev_offset r) (Some ctx);
                  db1 = rewrite_canonical_event L db u (ev_offset r) parsed
              in case detect_codex_parent_session L (ev_payload r) u of
                   None \<Rightarrow> backfill_codex_rows L E u ctx' (n + 1) rows db1
                 | Some parent \<Rightarrow>
                     if be_parent_fails E u (ev_offset r) then (Inl ''set_parent_session'', db1)
                     else backfill_codex_rows L E u ctx' (n + 1) rows (set_parent_session db1 u parent))"

fun backfill_codex_sessions ::
    "ingest_lib \<Rightarrow> backfill_env \<Rightarrow> nat \<Rightarrow> uuid list \<Rightarrow> ingest_db \<Rightarrow> (string, nat) result \<times> ingest_db" where
  "backfill_codex_sessions L E n [] db = (Inr n, db)"
| "backfill_codex_sessions L E n (u # us) db =
     (if be_rows_fail E u then (Inl ''session rows'', db)
      else case backfill_codex_rows L E u (new_codex_context L u) n
                  (map (\<lambda>r. (r, needs_backfill (block_rows db) r)) (session_rows db u)) db of
             (Inl e, db') \<Rightarrow> (Inl e, db')
           | (Inr n', db') \<Rightarrow> backfill_codex_sessions L E n' us db')"

fun rewrite_rows ::
    "ingest_lib \<Rightarrow> backfill_env \<Rightarrow> event_row list \<Rightarrow> ingest_db \<Rightarrow> (string, unit) result \<times> ingest_db" where
  "rewrite_rows L E [] db = (Inr (), db)"
| "rewrite_rows L E (r # rows) db =
     (if be_rewrite_fails E (ev_session r) (ev_offset r) then (Inl ''rewrite_canonical_event'', db)
      else rewrite_rows L E rows
             (rewrite_canonical_event L db (ev_session r) (ev_offset r)
               (parse_canonical_event L (ev_agent r) (ev_payload r) (ev_session r) (ev_offset r) None)))"

definition backfill_canonical_blocks ::
    "ingest_lib \<Rightarrow> backfill_env \<Rightarrow> ingest_db \<Rightarrow> (string, nat) result \<times> ingest_db" where
  "backfill_canonical_blocks L E db =
     (if be_sessions_fail E then (Inl ''codex sessions'', db)
      else case backfill_codex_sessions L E 0 (be_session_order E (codex_sessions db)) db of
             (Inl e, db1) \<Rightarrow> (Inl e, db1)
           | (Inr n, db1) \<Rightarrow>
               if be_legacy_fail E then (Inl ''legacy rows'', db1)
               else let rows = be_row_order E (filter (needs_rewrite (block_rows db1)) (ev_rows db1))
                    in case rewrite_rows L E rows db1 of
                         (Inl e, db2) \<Rightarrow> (Inl e, db2)
                       | (Inr _, db2) \<Rightarrow> (Inr (n + length rows), db2))"

section \<open>The tables with their versions\<close>

record derived_db =
  dv_ingest :: ingest_db
  dv_projection :: projection_db
  dv_versions :: "string \<Rightarrow> int option"

record maintenance_env =
  me_backfill :: backfill_env
  me_projection :: projection_env
  me_clear_fails :: bool
  me_load_fails :: "string \<Rightarrow> bool"
  me_set_fails :: "string \<Rightarrow> bool"
  me_pick :: "uuid list \<Rightarrow> uuid"

definition CANONICAL_BLOCKS_KEY :: string where
  "CANONICAL_BLOCKS_KEY = ''canonical_blocks''"

definition CANONICAL_BLOCKS_VERSION :: int where
  "CANONICAL_BLOCKS_VERSION = 1"

definition TIMELINE_PROJECTION_KEY :: string where
  "TIMELINE_PROJECTION_KEY = ''timeline_projection''"

definition TIMELINE_PROJECTION_VERSION :: int where
  "TIMELINE_PROJECTION_VERSION = 1"

definition projection_version ::
    "maintenance_env \<Rightarrow> derived_db \<Rightarrow> string \<Rightarrow> (string, int) result" where
  "projection_version M d name =
     (if me_load_fails M name then Inl ''load ingest projection version''
      else Inr (unwrap_or 0 (dv_versions d name)))"

definition set_projection_version ::
    "maintenance_env \<Rightarrow> derived_db \<Rightarrow> string \<Rightarrow> int \<Rightarrow> (string, unit) result \<times> derived_db" where
  "set_projection_version M d name version =
     (if me_set_fails M name then (Inl ''set ingest projection version'', d)
      else (Inr (), d\<lparr>dv_versions := (dv_versions d)(name \<mapsto> version)\<rparr>))"

definition mark_projection_versions_current ::
    "maintenance_env \<Rightarrow> derived_db \<Rightarrow> (string, unit) result \<times> derived_db" where
  "mark_projection_versions_current M d =
     (case set_projection_version M d CANONICAL_BLOCKS_KEY CANONICAL_BLOCKS_VERSION of
        (Inl e, d1) \<Rightarrow> (Inl e, d1)
      | (Inr _, d1) \<Rightarrow> set_projection_version M d1 TIMELINE_PROJECTION_KEY TIMELINE_PROJECTION_VERSION)"

section \<open>Maintenance at startup\<close>

record maintenance_stats =
  ms_canonical :: nat
  ms_timeline :: nat

definition maintain_canonical ::
    "maintenance_env \<Rightarrow> derived_db \<Rightarrow> (string, nat) result \<times> derived_db" where
  "maintain_canonical M d =
     (case projection_version M d CANONICAL_BLOCKS_KEY of
        Inl e \<Rightarrow> (Inl e, d)
      | Inr v \<Rightarrow>
          if v < CANONICAL_BLOCKS_VERSION then
            (case backfill_canonical_blocks (pe_ingest (me_projection M)) (me_backfill M) (dv_ingest d) of
               (Inl e, db) \<Rightarrow> (Inl e, d\<lparr>dv_ingest := db\<rparr>)
             | (Inr n, db) \<Rightarrow>
                 case set_projection_version M (d\<lparr>dv_ingest := db\<rparr>) CANONICAL_BLOCKS_KEY
                        CANONICAL_BLOCKS_VERSION of
                   (r, d') \<Rightarrow> (res_bind r (\<lambda>_. Inr n), d'))
          else (Inr 0, d))"

definition maintain_timeline ::
    "maintenance_env \<Rightarrow> derived_db \<Rightarrow> ((string, nat) result \<times> derived_db) option" where
  "maintain_timeline M d =
     (case projection_version M d TIMELINE_PROJECTION_KEY of
        Inl e \<Rightarrow> Some (Inl e, d)
      | Inr v \<Rightarrow>
          if v < TIMELINE_PROJECTION_VERSION then
            Option.bind (backfill_timeline_projection (me_projection M) (dv_ingest d) (dv_projection d))
              (\<lambda>(r, pd). case r of
                 Inl e \<Rightarrow> Some (Inl e, d\<lparr>dv_projection := pd\<rparr>)
               | Inr n \<Rightarrow>
                   case set_projection_version M (d\<lparr>dv_projection := pd\<rparr>) TIMELINE_PROJECTION_KEY
                          TIMELINE_PROJECTION_VERSION of
                     (r', d') \<Rightarrow> Some (res_bind r' (\<lambda>_. Inr n), d'))
          else Some (Inr 0, d))"

text \<open>\<open>None\<close> is a rebuild that panics or does not return.\<close>

definition run_required_startup_maintenance ::
    "maintenance_env \<Rightarrow> derived_db \<Rightarrow> ((string, maintenance_stats) result \<times> derived_db) option" where
  "run_required_startup_maintenance M d =
     (case maintain_canonical M d of
        (Inl e, d1) \<Rightarrow> Some (Inl e, d1)
      | (Inr n, d1) \<Rightarrow>
          map_option (\<lambda>(r, d2). (res_bind r (\<lambda>k. Inr \<lparr>ms_canonical = n, ms_timeline = k\<rparr>), d2))
            (maintain_timeline M d1))"

section \<open>Reindex\<close>

definition clear_canonical :: "event_row \<Rightarrow> event_row" where
  "clear_canonical r =
     r\<lparr>ev_speaker := None, ev_content_kind := None, ev_event_uuid := None, ev_parent_event_uuid := None,
       ev_related_tool_use_id := None, ev_is_sidechain := False, ev_is_meta := False,
       ev_subtype := None, ev_search_text := []\<rparr>"

text \<open>Sessions without a terminal get one that shows them; among several the database picks.\<close>

definition link_terminals :: "(uuid list \<Rightarrow> uuid) \<Rightarrow> ingest_db \<Rightarrow> ingest_db" where
  "link_terminals pick db =
     db\<lparr>sessions := (\<lambda>u. map_option (\<lambda>s.
          let shown = map fst (filter (\<lambda>p. snd p = Some u) (ptys db))
          in if cs_pty_session_id s = None \<and> shown \<noteq> []
             then s\<lparr>cs_pty_session_id := Some (pick shown)\<rparr> else s) (sessions db u))\<rparr>"

definition clear_derivatives :: "(uuid list \<Rightarrow> uuid) \<Rightarrow> derived_db \<Rightarrow> derived_db" where
  "clear_derivatives pick d =
     d\<lparr>dv_projection := (dv_projection d)\<lparr>pd_turns := [], pd_operations := [], pd_touches := [],
          pd_signals := []\<rparr>,
       dv_ingest := link_terminals pick ((dv_ingest d)\<lparr>block_rows := [],
          ev_rows := map clear_canonical (ev_rows (dv_ingest d))\<rparr>)\<rparr>"

record reindex_stats =
  rx_sessions_rebuilt :: nat
  rx_events_preserved :: nat
  rx_canonical_events_rebuilt :: nat
  rx_timeline_sessions_rebuilt :: nat

definition rebuild_ingest_derivatives ::
    "maintenance_env \<Rightarrow> derived_db \<Rightarrow> ((string, reindex_stats) result \<times> derived_db) option" where
  "rebuild_ingest_derivatives M d =
     (let us = sort (remdups (map ev_session (ev_rows (dv_ingest d)))); E = me_projection M
      in if me_clear_fails M then Some (Inl ''clear'', d)
         else let d1 = clear_derivatives (me_pick M) d
              in case backfill_canonical_blocks (pe_ingest E) (me_backfill M) (dv_ingest d1) of
                   (Inl e, db) \<Rightarrow> Some (Inl e, d1\<lparr>dv_ingest := db\<rparr>)
                 | (Inr n, db) \<Rightarrow>
                     Option.bind (backfill_loop E db us (dv_projection d1)) (\<lambda>(r, pd).
                       let d2 = d1\<lparr>dv_ingest := db, dv_projection := pd\<rparr>
                       in case r of
                            Inl e \<Rightarrow> Some (Inl e, d2)
                          | Inr _ \<Rightarrow>
                              case mark_projection_versions_current M d2 of
                                (r', d3) \<Rightarrow> Some (res_bind r' (\<lambda>_. Inr
                                  \<lparr>rx_sessions_rebuilt = length us,
                                   rx_events_preserved = length (ev_rows (dv_ingest d)),
                                   rx_canonical_events_rebuilt = n,
                                   rx_timeline_sessions_rebuilt = length us\<rparr>), d3)))"

end
