(* ===== verification/Reindex_Props.thy ===== *)
theory Reindex_Props
  imports Reindex Ingest_Props "HOL-Library.Multiset"
begin

text \<open>
  What a backfill leaves behind: after any number of interrupted attempts, one that goes
  through gives every event the fields and blocks its payload says, and nothing else. A
  reindex therefore gives back what ingestion wrote.
\<close>

section \<open>Blocks as a map\<close>

definition block_at :: "block_row list \<Rightarrow> uuid \<times> int \<Rightarrow> int \<Rightarrow> block option" where
  "block_at rows k i =
     map_option br_block (find (\<lambda>b. (br_session b, br_offset b) = k \<and> b_ord (br_block b) = i) rows)"

definition block_map :: "block list \<Rightarrow> int \<Rightarrow> block option" where
  "block_map bs = map_of (rev (map (\<lambda>b. (b_ord b, stored_block b)) bs))"

lemma stored_block_ord [simp]: "b_ord (stored_block b) = b_ord b"
  by (simp add: stored_block_def)

lemma block_at_Nil [simp]: "block_at [] k i = None"
  by (simp add: block_at_def)

lemma block_at_Cons:
  "block_at (b # rows) k i
     = (if (br_session b, br_offset b) = k \<and> b_ord (br_block b) = i then Some (br_block b)
        else block_at rows k i)"
  by (simp add: block_at_def)

lemma block_at_put:
  "block_at (put_block u off rows b) k
     = (if k = (u, off) then (block_at rows k)(b_ord b \<mapsto> stored_block b) else block_at rows k)"
  by (induction u off rows b rule: put_block.induct) (auto simp: block_at_Cons fun_eq_iff)

lemma block_at_insert:
  "block_at (insert_blocks rows u off bs) k
     = (if k = (u, off) then block_at rows k ++ block_map bs else block_at rows k)"
  unfolding insert_blocks_def
  by (induction bs arbitrary: rows) (auto simp: block_map_def block_at_put)

lemma map_add_absorb [simp]: "Map.empty ++ m = m" "m ++ m = m"
  by (auto simp: fun_eq_iff map_add_def split: option.splits)

definition block_keys :: "block_row list \<Rightarrow> (uuid \<times> int \<times> int) list" where
  "block_keys rows = map (\<lambda>b. (br_session b, br_offset b, b_ord (br_block b))) rows"

lemma set_block_keys_put:
  "set (block_keys (put_block u off rows b)) = insert (u, off, b_ord b) (set (block_keys rows))"
  by (induction u off rows b rule: put_block.induct) (auto simp: block_keys_def)

lemma distinct_block_keys_put:
  "distinct (block_keys rows) \<Longrightarrow> distinct (block_keys (put_block u off rows b))"
proof (induction u off rows b rule: put_block.induct)
  case (2 u off r rows b)
  then show ?case
    using set_block_keys_put [of u off rows b] by (auto simp: block_keys_def)
qed (simp add: block_keys_def)

lemma distinct_block_keys_insert:
  "distinct (block_keys rows) \<Longrightarrow> distinct (block_keys (insert_blocks rows u off bs))"
  unfolding insert_blocks_def by (induction bs arbitrary: rows) (auto intro: distinct_block_keys_put)

section \<open>What a payload says\<close>

abbreviation row_key :: "event_row \<Rightarrow> uuid \<times> int" where
  "row_key r \<equiv> (ev_session r, ev_offset r)"

definition ctx_before :: "ingest_lib \<Rightarrow> event_row list \<Rightarrow> uuid \<Rightarrow> int \<Rightarrow> codex_context" where
  "ctx_before L rows u off =
     foldl (\<lambda>c r. update_codex_context L c (ev_payload r) u) (new_codex_context L u)
       (filter (\<lambda>r. ev_offset r < off) (sort_key ev_offset (filter (\<lambda>r. ev_session r = u) rows)))"

definition reparsed :: "ingest_lib \<Rightarrow> event_row list \<Rightarrow> event_row \<Rightarrow> canonical_event" where
  "reparsed L rows r =
     parse_canonical_event L (ev_agent r) (ev_payload r) (ev_session r) (ev_offset r)
       (Some (ctx_before L rows (ev_session r) (ev_offset r)))"

lemma parse_not_codex:
  "agent \<noteq> ''codex'' \<Longrightarrow>
     parse_canonical_event L agent v u off ctx = parse_canonical_event L agent v u off ctx'"
  by (simp add: parse_canonical_event_def)

section \<open>The state of a backfill\<close>

text \<open>The events with a key in \<open>D\<close> are done; the others are still cleared.\<close>

definition row_state :: "ingest_lib \<Rightarrow> event_row list \<Rightarrow> (uuid \<times> int) set \<Rightarrow> event_row \<Rightarrow> event_row" where
  "row_state L rows D r =
     (if row_key r \<in> D then set_canonical L (reparsed L rows r) r else clear_canonical r)"

definition backfilled :: "ingest_lib \<Rightarrow> event_row list \<Rightarrow> (uuid \<times> int) set \<Rightarrow> ingest_db \<Rightarrow> bool" where
  "backfilled L rows D db \<longleftrightarrow>
     ev_rows db = map (row_state L rows D) rows \<and> distinct (block_keys (block_rows db))
     \<and> (\<forall>r \<in> set rows. block_at (block_rows db) (row_key r)
          = (if row_key r \<in> D then block_map (ce_blocks (reparsed L rows r)) else Map.empty))
     \<and> (\<forall>k. k \<notin> row_key ` set rows \<longrightarrow> block_at (block_rows db) k = Map.empty)"

lemma row_state_fields [simp]:
  "ev_session (row_state L rows D r) = ev_session r" "ev_offset (row_state L rows D r) = ev_offset r"
  "ev_payload (row_state L rows D r) = ev_payload r" "ev_agent (row_state L rows D r) = ev_agent r"
  by (simp_all add: row_state_def set_canonical_def clear_canonical_def)

lemma set_canonical_state: "set_canonical L p (row_state L rows D r) = set_canonical L p r"
  by (cases r) (simp add: row_state_def set_canonical_def clear_canonical_def)

lemma cleared_needs: "row_key r \<notin> D \<Longrightarrow> needs_backfill blocks (row_state L rows D r)"
  by (simp add: row_state_def needs_backfill_def clear_canonical_def)

lemma same_key:
  assumes "distinct (row_keys rows)" and "r \<in> set rows" and "x \<in> set rows" and "row_key x = row_key r"
  shows "x = r"
  using assms unfolding row_keys_def distinct_map inj_on_def by blast

lemma rewrite_backfilled:
  assumes d: "distinct (row_keys rows)" and b: "backfilled L rows D db" and r: "r \<in> set rows"
  shows "backfilled L rows (insert (row_key r) D)
    (rewrite_canonical_event L db (ev_session r) (ev_offset r) (reparsed L rows r))"
proof -
  let ?db = "rewrite_canonical_event L db (ev_session r) (ev_offset r) (reparsed L rows r)"
  let ?m = "block_map (ce_blocks (reparsed L rows r))"
  have step: "(if ev_session (row_state L rows D x) = ev_session r
         \<and> ev_offset (row_state L rows D x) = ev_offset r
       then set_canonical L (reparsed L rows r) (row_state L rows D x) else row_state L rows D x)
      = row_state L rows (insert (row_key r) D) x" if "x \<in> set rows" for x
  proof (cases "row_key x = row_key r")
    case True
    with same_key [OF d r that] have "x = r" by simp
    then show ?thesis by (simp only: set_canonical_state row_state_fields) (simp add: row_state_def)
  next
    case False
    then have "\<not> (ev_session x = ev_session r \<and> ev_offset x = ev_offset r)" by simp
    moreover from False have "row_state L rows (insert (row_key r) D) x = row_state L rows D x"
      by (auto simp: row_state_def)
    ultimately show ?thesis by (simp only: row_state_fields if_False)
  qed
  have "ev_rows ?db = map (row_state L rows (insert (row_key r) D)) rows"
    using b step by (simp add: rewrite_canonical_event_def backfilled_def)
  moreover have "distinct (block_keys (block_rows ?db))"
    using b distinct_block_keys_insert by (simp add: rewrite_canonical_event_def backfilled_def)
  moreover have "block_at (block_rows ?db) k
      = (if k = row_key r then ?m else block_at (block_rows db) k)" for k
    using b r by (auto simp: rewrite_canonical_event_def backfilled_def block_at_insert)
  ultimately show ?thesis
    using b r same_key [OF d r] unfolding backfilled_def by auto
qed

lemma set_parent_backfilled [simp]:
  "backfilled L rows D (set_parent_session db u p) = backfilled L rows D db"
  by (simp add: backfilled_def)


section \<open>The loops\<close>

lemma sort_key_map: "sort_key f (map g xs) = map g (sort_key (\<lambda>x. f (g x)) xs)"
proof (induction xs)
  case (Cons x xs)
  have "insort_key f (g x) (map g ys) = map g (insort_key (\<lambda>x. f (g x)) x ys)" for ys
    by (induction ys) auto
  with Cons show ?case by simp
qed simp

lemma session_rows_state:
  assumes "backfilled L rows D db"
  shows "session_rows db u
    = map (row_state L rows D) (sort_key ev_offset (filter (\<lambda>r. ev_session r = u) rows))"
proof -
  from assms show ?thesis
    by (simp add: session_rows_def backfilled_def filter_map sort_key_map o_def)
qed

lemma filter_before:
  assumes "sorted_wrt (<) (map f (pre @ r # suf))"
  shows "filter (\<lambda>x. f x < (f r :: int)) (pre @ r # suf) = pre"
  using assms by (auto simp: sorted_wrt_append less_imp_not_less filter_empty_conv)

lemma ctx_before_split:
  assumes d: "distinct (row_keys rows)"
    and s: "sort_key ev_offset (filter (\<lambda>r. ev_session r = u) rows) = pre @ r # suf"
  shows "ctx_before L rows u (ev_offset r)
    = foldl (\<lambda>c r. update_codex_context L c (ev_payload r) u) (new_codex_context L u) pre"
proof -
  let ?rs = "filter (\<lambda>r. ev_session r = u) rows"
  have "inj_on ev_offset (set ?rs)"
    using same_key [OF d] by (auto intro!: inj_onI)
  moreover have "distinct ?rs"
    using d by (simp add: row_keys_def distinct_map)
  ultimately have "distinct (map ev_offset (sort_key ev_offset ?rs))"
    by (simp add: distinct_map)
  then have "sorted_wrt (<) (map ev_offset (pre @ r # suf))"
    unfolding s [symmetric] by (simp add: strict_sorted_iff)
  from filter_before [OF this] show ?thesis
    by (simp add: ctx_before_def s)
qed

text \<open>\<open>progress\<close>: what is done stays done; without an error the wanted keys are done too.\<close>

definition progress ::
    "ingest_lib \<Rightarrow> event_row list \<Rightarrow> (uuid \<times> int) set \<Rightarrow> (uuid \<times> int) set \<Rightarrow>
     (string, 'a) result \<times> ingest_db \<Rightarrow> bool" where
  "progress L rows D K out \<longleftrightarrow>
     (\<exists>D'. backfilled L rows D' (snd out) \<and> D \<subseteq> D' \<and> (isl (fst out) \<or> K \<subseteq> D'))"

lemma progress_more:
  "progress L rows D' K out \<Longrightarrow> D \<subseteq> D' \<Longrightarrow> K' \<subseteq> K \<union> D' \<Longrightarrow> progress L rows D K' out"
  unfolding progress_def by blast

lemma codex_rows_progress:
  assumes d: "distinct (row_keys rows)"
    and s: "sort_key ev_offset (filter (\<lambda>r. ev_session r = u) rows) = pre @ suf"
    and b: "backfilled L rows D db"
    and n: "\<And>r. r \<in> set suf \<Longrightarrow> row_key r \<notin> D \<Longrightarrow> needs r"
  shows "progress L rows D (row_key ` set suf)
    (backfill_codex_rows L E u
      (foldl (\<lambda>c r. update_codex_context L c (ev_payload r) u) (new_codex_context L u) pre) n
      (map (\<lambda>r. (row_state L rows D0 r, needs r)) suf) db)"
  using s b n
proof (induction suf arbitrary: pre D db n)
  case Nil
  then show ?case by (auto simp: progress_def)
next
  case (Cons r suf)
  let ?upd = "\<lambda>c r. update_codex_context L c (ev_payload r) u"
  let ?ctx = "foldl ?upd (new_codex_context L u) pre"
  let ?go = "\<lambda>n db. backfill_codex_rows L E u (?upd ?ctx r) n
     (map (\<lambda>r. (row_state L rows D0 r, needs r)) suf) db"
  from Cons.prems(1) have s': "sort_key ev_offset (filter (\<lambda>r. ev_session r = u) rows) = (pre @ [r]) @ suf"
    by simp
  have rin: "r \<in> set (sort_key ev_offset (filter (\<lambda>r. ev_session r = u) rows))"
    unfolding Cons.prems(1) by simp
  then have r: "r \<in> set rows" "ev_session r = u" by simp_all
  have go: "progress L rows D' (row_key ` set suf) (?go n' db')"
    if "backfilled L rows D' db'" "D \<subseteq> D'" for D' db' n'
    using Cons.IH [OF s' that(1)] Cons.prems(3) that(2) by auto
  show ?case
  proof (cases "needs r")
    case False
    with Cons.prems(3) have "row_key r \<in> D" by auto
    with False progress_more [OF go [OF Cons.prems(2) subset_refl]] show ?thesis by simp
  next
    case True
    let ?p = "reparsed L rows r"
    let ?db1 = "rewrite_canonical_event L db u (ev_offset r) ?p"
    have p: "parse_canonical_event L (ev_agent r) (ev_payload r) u (ev_offset r) (Some ?ctx) = ?p"
      using ctx_before_split [OF d Cons.prems(1)] r(2) by (simp add: reparsed_def)
    have b1: "backfilled L rows (insert (row_key r) D) ?db1"
      using rewrite_backfilled [OF d Cons.prems(2) r(1)] r(2) by simp
    have go1: "progress L rows D (row_key ` set (r # suf)) (?go n' db')"
      if "backfilled L rows (insert (row_key r) D) db'" for n' db'
      by (rule progress_more [OF go [OF that]]) auto
    have fail: "progress L rows D K (Inl e, db)" for e K
      using Cons.prems(2) by (auto simp: progress_def)
    have fail1: "progress L rows D K (Inl e, ?db1)" for e K
      using b1 by (auto simp: progress_def)
    show ?thesis
      using True fail fail1 go1 [OF b1] go1 b1
      by (auto simp: Let_def p split: option.split)
  qed
qed

lemma codex_sessions_progress:
  assumes d: "distinct (row_keys rows)" and b: "backfilled L rows D db"
  shows "progress L rows D {row_key r | r. r \<in> set rows \<and> ev_session r \<in> set us}
    (backfill_codex_sessions L E n us db)"
  using b
proof (induction us arbitrary: D db n)
  case Nil
  then show ?case by (auto simp: progress_def)
next
  case (Cons u us)
  let ?rs = "sort_key ev_offset (filter (\<lambda>r. ev_session r = u) rows)"
  let ?out = "backfill_codex_rows L E u (new_codex_context L u) n
      (map (\<lambda>r. (r, needs_backfill (block_rows db) r)) (session_rows db u)) db"
  let ?K = "{row_key r | r. r \<in> set rows \<and> ev_session r \<in> set (u # us)}"
  have out: "progress L rows D (row_key ` set ?rs) ?out"
    using codex_rows_progress [OF d, where pre = "[]" and suf = ?rs and D = D and D0 = D and n = n
        and needs = "\<lambda>r. needs_backfill (block_rows db) (row_state L rows D r)"] Cons.prems cleared_needs
    by (simp add: session_rows_state [OF Cons.prems] o_def)
  show ?case
  proof (cases "be_rows_fail E u")
    case True
    with Cons.prems show ?thesis by (auto simp: progress_def)
  next
    case False
    obtain res db1 where o: "?out = (res, db1)" by fastforce
    with out obtain D1 where D1: "backfilled L rows D1 db1" "D \<subseteq> D1"
      and K1: "isl res \<or> row_key ` set ?rs \<subseteq> D1"
      unfolding progress_def by auto
    show ?thesis
    proof (cases res)
      case (Inl e)
      with D1 False o show ?thesis by (auto simp: progress_def)
    next
      case (Inr n')
      with K1 have "?K \<subseteq> {row_key r | r. r \<in> set rows \<and> ev_session r \<in> set us} \<union> D1" by auto
      from progress_more [OF Cons.IH [OF D1(1)] D1(2) this] Inr False o show ?thesis by simp
    qed
  qed
qed

lemma rewrite_rows_progress:
  assumes d: "distinct (row_keys rows)" and b: "backfilled L rows D db"
    and rs: "set rs \<subseteq> set rows" and nc: "\<And>r. r \<in> set rs \<Longrightarrow> ev_agent r \<noteq> ''codex''"
  shows "progress L rows D (row_key ` set rs) (rewrite_rows L E (map (row_state L rows D0) rs) db)"
  using b rs nc
proof (induction rs arbitrary: D db)
  case Nil
  then show ?case by (auto simp: progress_def)
next
  case (Cons r rs)
  have p: "parse_canonical_event L (ev_agent r) (ev_payload r) (ev_session r) (ev_offset r) None
      = reparsed L rows r"
    unfolding reparsed_def using parse_not_codex Cons.prems(3) by (metis list.set_intros(1))
  have b1: "backfilled L rows (insert (row_key r) D)
      (rewrite_canonical_event L db (ev_session r) (ev_offset r) (reparsed L rows r))"
    using rewrite_backfilled [OF d Cons.prems(1)] Cons.prems(2) by simp
  have "progress L rows D (row_key ` set (r # rs)) (rewrite_rows L E (map (row_state L rows D0) rs)
      (rewrite_canonical_event L db (ev_session r) (ev_offset r) (reparsed L rows r)))"
    by (rule progress_more [OF Cons.IH [OF b1]]) (use Cons.prems in auto)
  with Cons.prems(1) show ?case
    by (auto simp: p progress_def)
qed

end
