(* ===== verification/Reindex_Agree.thy ===== *)
theory Reindex_Agree
  imports Reindex_Props
begin

text \<open>
  A completed backfill after any interrupted ones, a reindex of what ingestion wrote, and a
  reindex that fails half way.
\<close>

section \<open>A whole backfill\<close>

text \<open>The database returns the rows of a query in some order.\<close>

definition permutes :: "backfill_env \<Rightarrow> bool" where
  "permutes E \<longleftrightarrow> (\<forall>us. mset (be_session_order E us) = mset us) \<and> (\<forall>rs. mset (be_row_order E rs) = mset rs)"

lemma permutes_sets:
  "permutes E \<Longrightarrow> set (be_session_order E us) = set us" "permutes E \<Longrightarrow> set (be_row_order E rs) = set rs"
  unfolding permutes_def using mset_eq_setD by blast+

lemma map_preimage:
  assumes "set ys \<subseteq> f ` A"
  shows "\<exists>xs. set xs \<subseteq> A \<and> ys = map f xs"
  using assms
proof (induction ys)
  case (Cons y ys)
  then obtain xs where xs: "set xs \<subseteq> A" "ys = map f xs" by auto
  from Cons.prems obtain x where x: "x \<in> A" "y = f x" by auto
  from xs x have "set (x # xs) \<subseteq> A" "y # ys = map f (x # xs)" by simp_all
  then show ?case by (intro exI [of _ "x # xs"] conjI)
qed simp

lemma backfill_progress:
  assumes d: "distinct (row_keys rows)" and b: "backfilled L rows D db" and pm: "permutes E"
  shows "progress L rows D (row_key ` set rows) (backfill_canonical_blocks L E db)"
proof (cases "be_sessions_fail E")
  case True
  with b show ?thesis by (auto simp: backfill_canonical_blocks_def progress_def)
next
  case False
  let ?us = "be_session_order E (codex_sessions db)"
  obtain res1 db1 where o1: "backfill_codex_sessions L E 0 ?us db = (res1, db1)" by fastforce
  from codex_sessions_progress [OF d b, of ?us E 0] o1 obtain D1 where
    D1: "backfilled L rows D1 db1" "D \<subseteq> D1"
    and K1: "isl res1 \<or> {row_key r | r. r \<in> set rows \<and> ev_session r \<in> set ?us} \<subseteq> D1"
    by (auto simp: progress_def)
  let ?sel = "filter (needs_rewrite (block_rows db1)) (ev_rows db1)"
  have e1: "ev_rows db1 = map (row_state L rows D1) rows" using D1(1) by (simp add: backfilled_def)
  have "set (be_row_order E ?sel) \<subseteq> row_state L rows D1 ` set rows"
    using permutes_sets(2) [OF pm] e1 by auto
  then obtain rs where rs: "set rs \<subseteq> set rows" "be_row_order E ?sel = map (row_state L rows D1) rs"
    using map_preimage by blast
  have sel: "set (map (row_state L rows D1) rs) = set ?sel"
    using permutes_sets(2) [OF pm] rs(2) by metis
  have nc: "ev_agent r \<noteq> ''codex''" if "r \<in> set rs" for r
  proof -
    have "row_state L rows D1 r \<in> set ?sel" using sel that by auto
    then show ?thesis by (simp add: needs_rewrite_def)
  qed
  obtain res2 db2 where o2: "rewrite_rows L E (map (row_state L rows D1) rs) db1 = (res2, db2)" by fastforce
  from rewrite_rows_progress [OF d D1(1) rs(1) nc, of E D1] o2 obtain D2 where
    D2: "backfilled L rows D2 db2" "D1 \<subseteq> D2" and K2: "isl res2 \<or> row_key ` set rs \<subseteq> D2"
    by (auto simp: progress_def)
  have all: "row_key r \<in> D2" if ok: "\<not> isl res1" "\<not> isl res2" and r: "r \<in> set rows" for r
  proof (cases "ev_agent r = ''codex''")
    case True
    show ?thesis
    proof (cases "row_key r \<in> D")
      case False
      have "row_state L rows D r \<in> set (ev_rows db)" using b r by (auto simp: backfilled_def)
      moreover have "needs_backfill (block_rows db) (row_state L rows D r)" by (rule cleared_needs [OF False])
      ultimately have "row_state L rows D r \<in> set (filter (\<lambda>r. ev_agent r = ''codex''
          \<and> needs_backfill (block_rows db) r) (ev_rows db))"
        using True by simp
      then have "ev_session (row_state L rows D r) \<in> set (codex_sessions db)"
        unfolding codex_sessions_def set_remdups set_map by (rule imageI)
      then have "ev_session r \<in> set (codex_sessions db)" by simp
      with K1 ok(1) r permutes_sets(1) [OF pm] have "row_key r \<in> D1" by auto
      with D2(2) show ?thesis by blast
    qed (use D1(2) D2(2) in blast)
  next
    case False
    show ?thesis
    proof (cases "row_key r \<in> D1")
      case undone: False
      have "row_state L rows D1 r \<in> set ?sel"
        using False r cleared_needs [OF undone, of "block_rows db1"] by (simp add: e1 needs_rewrite_def)
      then have "row_state L rows D1 r \<in> row_state L rows D1 ` set rs" using sel by simp
      then obtain x where "x \<in> set rs" "row_state L rows D1 r = row_state L rows D1 x" by blast
      then have "row_key r = row_key x" by (metis row_state_fields(1,2))
      with \<open>x \<in> set rs\<close> K2 ok(2) show ?thesis by blast
    qed (use D2(2) in blast)
  qed
  show ?thesis
  proof (cases "isl res1 \<or> be_legacy_fail E")
    case True
    then show ?thesis
      using False o1 D1 by (cases res1) (auto simp: backfill_canonical_blocks_def progress_def)
  next
    case go: False
    then have "fst (backfill_canonical_blocks L E db)
        = (case res2 of Inl e \<Rightarrow> Inl e | Inr _ \<Rightarrow> Inr (projr res1 + length (map (row_state L rows D1) rs)))
      \<and> snd (backfill_canonical_blocks L E db) = db2"
      using False o1 o2 rs(2) by (cases res1; cases res2) (auto simp: backfill_canonical_blocks_def Let_def)
    then show ?thesis
      using D2 D1(2) all go unfolding progress_def by (cases res2) auto
  qed
qed

definition canonical_rows :: "ingest_lib \<Rightarrow> event_row list \<Rightarrow> ingest_db \<Rightarrow> bool" where
  "canonical_rows L rows db \<longleftrightarrow>
     ev_rows db = map (\<lambda>r. set_canonical L (reparsed L rows r) r) rows
     \<and> distinct (block_keys (block_rows db))
     \<and> (\<forall>k. block_at (block_rows db) k = (case event_at rows k of None \<Rightarrow> Map.empty
          | Some r \<Rightarrow> block_map (ce_blocks (reparsed L rows r))))"

lemma backfilled_all:
  assumes d: "distinct (row_keys rows)" and b: "backfilled L rows D db" and all: "row_key ` set rows \<subseteq> D"
  shows "canonical_rows L rows db"
proof -
  have "block_at (block_rows db) k = (case event_at rows k of None \<Rightarrow> Map.empty
      | Some r \<Rightarrow> block_map (ce_blocks (reparsed L rows r)))" for k
  proof (cases "event_at rows k")
    case None
    then have "k \<notin> row_key ` set rows" by (auto simp: event_at_None)
    with b have "block_at (block_rows db) k = Map.empty" unfolding backfilled_def by blast
    with None show ?thesis by simp
  next
    case (Some r)
    from event_at_Some [OF this] have "r \<in> set rows" "row_key r = k" by auto
    with Some b all show ?thesis by (auto simp: backfilled_def)
  qed
  moreover have "map (row_state L rows D) rows = map (\<lambda>r. set_canonical L (reparsed L rows r) r) rows"
    using all by (auto simp: row_state_def)
  ultimately show ?thesis using b by (simp add: canonical_rows_def backfilled_def)
qed

lemma cleared_backfilled:
  "distinct (row_keys rows) \<Longrightarrow> ev_rows db = map clear_canonical rows \<Longrightarrow> block_rows db = [] \<Longrightarrow>
     backfilled L rows {} db"
  by (simp add: backfilled_def row_state_def block_keys_def fun_eq_iff)

section \<open>Interrupted backfills\<close>

text \<open>A sequence of backfills, each with its own failures.\<close>

fun attempts :: "ingest_lib \<Rightarrow> backfill_env list \<Rightarrow> ingest_db \<Rightarrow> ingest_db" where
  "attempts L [] db = db"
| "attempts L (E # Es) db = attempts L Es (snd (backfill_canonical_blocks L E db))"

definition never_fails :: "backfill_env \<Rightarrow> bool" where
  "never_fails E \<longleftrightarrow> \<not> be_sessions_fail E \<and> \<not> be_legacy_fail E
     \<and> (\<forall>u off. \<not> be_rows_fail E u \<and> \<not> be_rewrite_fails E u off \<and> \<not> be_parent_fails E u off)"

lemma codex_rows_return:
  "never_fails E \<Longrightarrow> \<exists>m. fst (backfill_codex_rows L E u ctx n rows db) = Inr m"
  by (induction L E u ctx n rows db rule: backfill_codex_rows.induct)
    (auto simp: never_fails_def Let_def split: option.split)

lemma codex_sessions_return:
  "never_fails E \<Longrightarrow> \<exists>m. fst (backfill_codex_sessions L E n us db) = Inr m"
proof (induction L E n us db rule: backfill_codex_sessions.induct)
  case (2 L E n u us db)
  let ?out = "backfill_codex_rows L E u (new_codex_context L u) n
      (map (\<lambda>r. (r, needs_backfill (block_rows db) r)) (session_rows db u)) db"
  obtain m db' where o: "?out = (Inr m, db')"
    using codex_rows_return [OF 2(2)] by (metis prod.collapse)
  show ?case using 2(1) [OF _ o [symmetric] refl] 2(2) o by (simp add: never_fails_def)
qed simp

lemma rewrite_rows_return: "never_fails E \<Longrightarrow> fst (rewrite_rows L E rs db) = Inr ()"
  by (induction L E rs db rule: rewrite_rows.induct) (simp_all add: never_fails_def)

lemma backfill_returns:
  assumes "never_fails E" shows "\<exists>m. fst (backfill_canonical_blocks L E db) = Inr m"
proof -
  obtain m db1 where o: "backfill_codex_sessions L E 0 (be_session_order E (codex_sessions db)) db = (Inr m, db1)"
    using codex_sessions_return [OF assms] by (metis prod.collapse)
  let ?rs = "be_row_order E (filter (needs_rewrite (block_rows db1)) (ev_rows db1))"
  obtain db2 where "rewrite_rows L E ?rs db1 = (Inr (), db2)"
    using rewrite_rows_return [OF assms] by (metis prod.collapse)
  with o assms show ?thesis by (simp add: backfill_canonical_blocks_def never_fails_def Let_def)
qed

lemma attempts_backfilled:
  assumes "distinct (row_keys rows)" and "backfilled L rows D db" and "\<forall>E \<in> set Es. permutes E"
  shows "\<exists>D'. backfilled L rows D' (attempts L Es db)"
  using assms(2,3)
proof (induction Es arbitrary: D db)
  case (Cons E Es)
  then show ?case
    using backfill_progress [OF assms(1) Cons.prems(1), of E] by (auto simp: progress_def)
qed auto

lemma backfill_resumes_cleared:
  assumes "distinct (row_keys rows)" and "ev_rows db = map clear_canonical rows" and "block_rows db = []"
    and "\<forall>E' \<in> set (Es @ [E]). permutes E'" and "never_fails E"
  shows "\<exists>n db'. backfill_canonical_blocks L E (attempts L Es db) = (Inr n, db')
    \<and> ev_rows db' = map (\<lambda>r. set_canonical L (reparsed L rows r) r) rows
    \<and> (\<forall>r \<in> set rows. block_at (block_rows db') (row_key r) = block_map (ce_blocks (reparsed L rows r)))
    \<and> (\<forall>k. event_at rows k = None \<longrightarrow> block_at (block_rows db') k = Map.empty)"
proof -
  obtain D where D: "backfilled L rows D (attempts L Es db)"
    using attempts_backfilled [OF assms(1) cleared_backfilled [OF assms(1-3)]] assms(4) by fastforce
  obtain n db' where o: "backfill_canonical_blocks L E (attempts L Es db) = (Inr n, db')"
    using backfill_returns [OF assms(5)] by (metis prod.collapse)
  have "canonical_rows L rows db'"
    using backfill_progress [OF assms(1) D, of E] assms(4) o backfilled_all [OF assms(1)]
    by (auto simp: progress_def)
  moreover have "event_at rows (row_key r) = Some r" if "r \<in> set rows" for r
  proof (cases "event_at rows (row_key r)")
    case (Some x)
    with event_at_Some [OF Some] same_key [OF assms(1) that] show ?thesis by simp
  next
    case None
    with that show ?thesis unfolding event_at_None by blast
  qed
  ultimately show ?thesis using o by (simp add: canonical_rows_def)
qed


section \<open>Reindexing what ingestion wrote\<close>

definition session_blocks :: "block_row list \<Rightarrow> uuid \<times> int \<Rightarrow> block list" where
  "session_blocks rows k = map br_block (filter (\<lambda>b. (br_session b, br_offset b) = k) rows)"

lemma session_blocks_at:
  assumes "distinct (block_keys rows)"
  shows "b \<in> set (session_blocks rows k) \<longleftrightarrow> block_at rows k (b_ord b) = Some b"
    and "distinct (map b_ord (session_blocks rows k))"
  using assms
proof (induction rows)
  case (Cons x rows)
  have new: "b_ord (br_block y) \<noteq> b_ord (br_block x)"
    if "distinct (block_keys (x # rows))" "y \<in> set rows" "(br_session y, br_offset y) = (br_session x, br_offset x)" for y
  proof
    assume "b_ord (br_block y) = b_ord (br_block x)"
    then have "(br_session x, br_offset x, b_ord (br_block x)) = (br_session y, br_offset y, b_ord (br_block y))"
      unfolding prod.inject using that(3) [unfolded prod.inject] by metis
    with that(2) have "(br_session x, br_offset x, b_ord (br_block x)) \<in> set (block_keys rows)"
      unfolding block_keys_def by (metis (mono_tags, lifting) image_eqI set_map)
    with that(1) show False by (simp add: block_keys_def)
  qed
  { case 1
    have "distinct (block_keys rows)" using 1 by (simp add: block_keys_def)
    then have IH: "b \<in> set (session_blocks rows k) \<longleftrightarrow> block_at rows k (b_ord b) = Some b"
      by (rule Cons.IH(1))
    show ?case
    proof (cases "(br_session x, br_offset x) = k \<and> b_ord (br_block x) = b_ord b")
      case True
      then have "b \<notin> set (session_blocks rows k)"
        using new [OF 1] by (auto simp: session_blocks_def)
      moreover have "block_at (x # rows) k (b_ord b) = Some (br_block x)"
        using True by (simp only: block_at_Cons if_True simp_thms)
      moreover have "session_blocks (x # rows) k = br_block x # session_blocks rows k"
        using True by (simp add: session_blocks_def)
      ultimately show ?thesis by auto
    next
      case False
      then have "block_at (x # rows) k (b_ord b) = block_at rows k (b_ord b)"
        by (simp only: block_at_Cons if_False)
      moreover have "b \<in> set (session_blocks (x # rows) k) \<longleftrightarrow> b \<in> set (session_blocks rows k)"
        using False by (auto simp: session_blocks_def)
      ultimately show ?thesis using IH by simp
    qed }
  { case 2
    have "distinct (block_keys rows)" using 2 by (simp add: block_keys_def)
    with new [OF 2] Cons.IH(2) show ?case by (fastforce simp: session_blocks_def) }
qed (simp_all add: session_blocks_def block_at_def)

lemma load_event_blocks_at:
  assumes "distinct (block_keys rows)" and "distinct (block_keys rows')"
    and "block_at rows (u, off) = block_at rows' (u, off)"
  shows "load_event_blocks rules rows u off = load_event_blocks rules rows' u off"
proof -
  let ?f = "\<lambda>rows. session_blocks rows (u, off)"
  have load: "load_event_blocks rules xs u off = map (loaded_block rules) (sort_key b_ord (?f xs))" for xs
    by (simp add: load_event_blocks_def session_blocks_def sort_key_map o_def)
  have "set (?f rows) = set (?f rows')"
    using session_blocks_at(1) assms by (auto simp: set_eq_iff)
  moreover have d: "distinct (map b_ord (?f rows))" "distinct (map b_ord (?f rows'))"
    using session_blocks_at(2) assms(1,2) by blast+
  ultimately have m: "mset (?f rows) = mset (?f rows')"
    by (simp add: set_eq_iff_mset_eq_distinct [symmetric] distinct_map)
  have "sort_key b_ord (?f rows) = sort_key b_ord (?f rows')"
    by (rule sort_key_inj_key_eq) (use m d in \<open>auto simp: distinct_map\<close>)
  then show ?thesis by (simp add: load)
qed

definition claude_row :: "ingest_lib \<Rightarrow> uuid \<Rightarrow> event_row \<Rightarrow> bool" where
  "claude_row L u r \<longleftrightarrow> (\<exists>now. r = row_of_event L ClaudeCode u (ev_offset r) now (ev_payload r)
     (claude_parse (i_json L) (ev_payload r)))"

definition claude_ingested :: "ingest_lib \<Rightarrow> uuid \<Rightarrow> ingest_db \<Rightarrow> bool" where
  "claude_ingested L u db \<longleftrightarrow>
     distinct (block_keys (block_rows db))
     \<and> (\<forall>r \<in> set (ev_rows db). ev_session r = u \<longrightarrow> claude_row L u r
          \<and> block_at (block_rows db) (row_key r)
              = block_map (ce_blocks (claude_parse (i_json L) (ev_payload r))))
     \<and> (\<forall>off. event_at (ev_rows db) (u, off) = None \<longrightarrow> block_at (block_rows db) (u, off) = Map.empty)"

lemma claude_ingested_cong:
  "ev_rows db' = ev_rows db \<Longrightarrow> block_rows db' = block_rows db \<Longrightarrow>
     claude_ingested L u db' = claude_ingested L u db"
  by (simp add: claude_ingested_def)

lemma claude_ingested_insert:
  assumes "claude_ingested L u db"
  shows "claude_ingested L u (insert_db L env u ClaudeCode off line ctx db)"
proof (cases "(\<exists>v. usable L line v) \<and> \<not> en_insert_fails env off")
  case False
  then show ?thesis using assms insert_event_skip insert_event_fail by metis
next
  case True
  then obtain v where v: "usable L line v" "\<not> en_insert_fails env off" by blast
  let ?db = "insert_db L env u ClaudeCode off line ctx db"
  let ?row = "line_row L env u ClaudeCode off v ctx"
  have p: "parse_canonical_event L (agent_id ClaudeCode) v u off ctx = claude_parse (i_json L) v"
    by (simp add: parse_canonical_event_def)
  note put = insert_event_put(1,2) [OF v, where u = u and src = ClaudeCode and ctx = ctx and db = db]
  show ?thesis
  proof (cases "event_at (ev_rows db) (u, off)")
    case (Some r)
    then have "ev_rows ?db = ev_rows db" "block_rows ?db = block_rows db"
      using put by (simp_all add: put_event_def)
    then show ?thesis using assms claude_ingested_cong by blast
  next
    case None
    have rows: "ev_rows ?db = ev_rows db @ [?row]"
      using put(1) None by (simp add: put_event_def row_of_event_def)
    have blocks: "block_rows ?db = insert_blocks (block_rows db) u off (ce_blocks (claude_parse (i_json L) v))"
      using put(2) None p by simp
    have empty: "block_at (block_rows db) (u, off) = Map.empty"
      using assms None by (simp add: claude_ingested_def)
    define row where "row = ?row"
    have row: "ev_session row = u" "ev_offset row = off" "ev_payload row = v"
      unfolding row_def by (rule line_row_fields)+
    have "claude_row L u row"
      unfolding claude_row_def row row_def p by (rule exI [of _ "en_now env"]) (simp add: row_of_event_def)
    moreover have "ev_offset r \<noteq> off" if "r \<in> set (ev_rows db)" "ev_session r = u" for r
      using None that unfolding event_at_None by blast
    moreover have "distinct (block_keys (block_rows ?db))"
      using assms distinct_block_keys_insert by (simp add: blocks claude_ingested_def)
    ultimately show ?thesis
      using assms unfolding claude_ingested_def rows row_def [symmetric]
      by (auto simp: blocks block_at_insert empty event_at_append row split: option.splits if_splits)
  qed
qed

lemma claude_ingested_pass:
  assumes p: "process_file L env db (file_at db u path h flen) ClaudeCode (Some c) = Some (res, db')"
    and i: "claude_ingested L u db"
  shows "claude_ingested L u db'"
  using p
proof (cases rule: process_file_cases)
  case (failed e)
  with i show ?thesis using claude_ingested_cong by blast
next
  case reset
  have "ev_rows db' = ev_rows db" "block_rows db' = block_rows db"
    using reset(3) by (simp_all add: set_offset_def)
  with i show ?thesis using claude_ingested_cong by blast
next
  case ran
  have "claude_ingested L u (lp_db (pass_lines L env db (file_at db u path h flen) ClaudeCode c))"
    unfolding pass_lines_def Let_def
    by (rule fold_lines_inv)
      (use i claude_ingested_insert [of L u] in \<open>simp_all add: loop_start_def file_at_def claude_ingested_def\<close>)
  with finish_file_tables(1,2) [OF ran(2)] show ?thesis using claude_ingested_cong by blast
qed

lemma claude_ingested_run:
  assumes "ingest_run L u path h ClaudeCode (c, db) acts = Some (c', db')" and "claude_ingested L u db"
  shows "claude_ingested L u db'"
  using assms
proof (induction acts arbitrary: c db)
  case (Cons a acts)
  then obtain c1 db1 where s: "ingest_step L u path h ClaudeCode (c, db) a = Some (c1, db1)"
    and r: "ingest_run L u path h ClaudeCode (c1, db1) acts = Some (c', db')"
    by (auto simp: bind_eq_Some_conv)
  have "claude_ingested L u db1"
    using s claude_ingested_pass Cons.prems(2) by (cases a) auto
  from Cons.IH [OF r this] show ?case .
qed simp

end
