(* ===== verification/Reindex_Ingested.thy ===== *)
theory Reindex_Ingested
  imports Reindex_Agree Projection_Agree
begin

text \<open>
  A reindex of what ingestion wrote gives it back; one that fails after it cleared the tables
  leaves them empty, and the maintenance at the next start does not notice.
\<close>

section \<open>What a reindex keeps\<close>

text \<open>The tables a backfill leaves alone, and the sessions it does not touch.\<close>

definition same_tables :: "uuid set \<Rightarrow> ingest_db \<Rightarrow> ingest_db \<Rightarrow> bool" where
  "same_tables us db db' \<longleftrightarrow> states db' = states db \<and> metadata db' = metadata db \<and> ptys db' = ptys db
     \<and> rebuilds db' = rebuilds db \<and> (\<forall>u. u \<notin> us \<longrightarrow> sessions db' u = sessions db u)"

lemma same_tables_refl [simp]: "same_tables us db db"
  by (simp add: same_tables_def)

lemma same_tables_trans: "same_tables us db db' \<Longrightarrow> same_tables us db' db'' \<Longrightarrow> same_tables us db db''"
  by (simp add: same_tables_def)

lemma same_tables_mono: "same_tables us db db' \<Longrightarrow> us \<subseteq> vs \<Longrightarrow> same_tables vs db db'"
  by (auto simp: same_tables_def)

lemma rewrite_keeps: "same_tables us db (rewrite_canonical_event L db u off p)"
  by (simp add: rewrite_canonical_event_def same_tables_def)

lemma parent_keeps: "same_tables {u} db (set_parent_session db u p)"
  by (simp add: set_parent_session_def same_tables_def split: option.split)

lemma codex_rows_keep: "same_tables {u} db (snd (backfill_codex_rows L E u ctx n rows db))"
proof (induction L E u ctx n rows db rule: backfill_codex_rows.induct)
  case (2 L E u ctx n r needs rows db)
  let ?p = "parse_canonical_event L (ev_agent r) (ev_payload r) u (ev_offset r) (Some ctx)"
  let ?db = "rewrite_canonical_event L db u (ev_offset r) ?p"
  show ?case
  proof (cases "needs \<and> \<not> be_rewrite_fails E u (ev_offset r)")
    case False
    then show ?thesis using "2.IH"(1) by (auto simp: Let_def)
  next
    case True
    note k = rewrite_keeps [of "{u}" db L u "ev_offset r" ?p]
    show ?thesis
    proof (cases "detect_codex_parent_session L (ev_payload r) u")
      case None
      with True "2.IH"(2) show ?thesis by (auto simp: Let_def intro: same_tables_trans [OF k])
    next
      case (Some p)
      let ?rest = "backfill_codex_rows L E u (update_codex_context L ctx (ev_payload r) u) (n + 1) rows (set_parent_session ?db u p)"
      have "same_tables {u} db (snd ?rest)" if "\<not> be_parent_fails E u (ev_offset r)"
        using same_tables_trans [OF same_tables_trans [OF k parent_keeps] "2.IH"(3) [OF refl _ _ refl refl Some that]] True by simp
      then show ?thesis using True Some k by (simp add: Let_def)
    qed
  qed
qed simp

lemma codex_sessions_keep: "same_tables (set us) db (snd (backfill_codex_sessions L E n us db))"
proof (induction L E n us db rule: backfill_codex_sessions.induct)
  case (2 L E n u us db)
  let ?out = "backfill_codex_rows L E u (new_codex_context L u) n
      (map (\<lambda>r. (r, needs_backfill (block_rows db) r)) (session_rows db u)) db"
  obtain res db' where o: "?out = (res, db')" by fastforce
  have "same_tables {u} db db'"
    using codex_rows_keep [of u db L E "new_codex_context L u" n
        "map (\<lambda>r. (r, needs_backfill (block_rows db) r)) (session_rows db u)"] o by simp
  then have k: "same_tables (set (u # us)) db db'" by (rule same_tables_mono) simp
  show ?case
  proof (cases res)
    case (Inl e)
    with o k show ?thesis by simp
  next
    case (Inr m)
    have "same_tables (set (u # us)) db' (snd (backfill_codex_sessions L E m us db'))" if "\<not> be_rows_fail E u"
      using 2 [OF that o [symmetric] Inr] by (rule same_tables_mono) auto
    with o k Inr show ?thesis by (auto intro: same_tables_trans)
  qed
qed simp

lemma rewrite_rows_keep: "same_tables us db (snd (rewrite_rows L E rs db))"
  by (induction L E rs db rule: rewrite_rows.induct) (auto intro: same_tables_trans [OF rewrite_keeps])

lemma backfill_keeps:
  "same_tables (set (be_session_order E (codex_sessions db))) db (snd (backfill_canonical_blocks L E db))"
proof -
  obtain r1 db1 where o1: "backfill_codex_sessions L E 0 (be_session_order E (codex_sessions db)) db = (r1, db1)"
    by fastforce
  let ?rs = "be_row_order E (filter (needs_rewrite (block_rows db1)) (ev_rows db1))"
  obtain r2 db2 where o2: "rewrite_rows L E ?rs db1 = (r2, db2)" by fastforce
  let ?us = "set (be_session_order E (codex_sessions db))"
  have k: "same_tables ?us db db1" using codex_sessions_keep [of "be_session_order E (codex_sessions db)" db L E 0] o1 by simp
  moreover have "same_tables ?us db db2"
    using same_tables_trans [OF k] rewrite_rows_keep [of ?us db1 L E ?rs] o2 by simp
  ultimately show ?thesis
    by (auto simp: backfill_canonical_blocks_def o1 o2 Let_def split: sum.split)
qed

lemma not_unit_result: "\<forall>e. r \<noteq> Inl e \<Longrightarrow> r \<noteq> Inr () \<Longrightarrow> P"
  by (cases r) auto

lemma reindex_ok:
  assumes "rebuild_ingest_derivatives M d = Some (Inr st, d')"
  obtains n where
    "backfill_canonical_blocks (pe_ingest (me_projection M)) (me_backfill M)
       (dv_ingest (clear_derivatives (me_pick M) d)) = (Inr n, dv_ingest d')"
  using assms
  by (auto simp: rebuild_ingest_derivatives_def mark_projection_versions_current_def
      set_projection_version_def Let_def bind_eq_Some_conv res_bind_def
      split: if_splits sum.splits prod.splits elim: not_unit_result)

lemma cleared_tables [simp]:
  "ev_rows (dv_ingest (clear_derivatives pick d)) = map clear_canonical (ev_rows (dv_ingest d))"
  "block_rows (dv_ingest (clear_derivatives pick d)) = []"
  "states (dv_ingest (clear_derivatives pick d)) = states (dv_ingest d)"
  "metadata (dv_ingest (clear_derivatives pick d)) = metadata (dv_ingest d)"
  "ptys (dv_ingest (clear_derivatives pick d)) = ptys (dv_ingest d)"
  by (simp_all add: clear_derivatives_def link_terminals_def)

lemma reindex_canonical:
  assumes "rebuild_ingest_derivatives M d = Some (Inr st, d')" and "permutes (me_backfill M)"
    and "distinct (row_keys (ev_rows (dv_ingest d)))"
  shows "canonical_rows (pe_ingest (me_projection M)) (ev_rows (dv_ingest d)) (dv_ingest d')"
    and "states (dv_ingest d') = states (dv_ingest d)" and "metadata (dv_ingest d') = metadata (dv_ingest d)"
    and "ptys (dv_ingest d') = ptys (dv_ingest d)"
    and "(\<forall>r \<in> set (ev_rows (dv_ingest d)). ev_session r = u \<longrightarrow> ev_agent r \<noteq> ''codex'') \<Longrightarrow>
      sessions (dv_ingest d') u = sessions (dv_ingest (clear_derivatives (me_pick M) d)) u"
proof -
  let ?L = "pe_ingest (me_projection M)"
  let ?db = "dv_ingest (clear_derivatives (me_pick M) d)"
  obtain n where o: "backfill_canonical_blocks ?L (me_backfill M) ?db = (Inr n, dv_ingest d')"
    using reindex_ok [OF assms(1)] .
  have "backfilled ?L (ev_rows (dv_ingest d)) {} ?db"
    by (rule cleared_backfilled [OF assms(3)]) simp_all
  from backfill_progress [OF assms(3) this assms(2)] o
  show "canonical_rows ?L (ev_rows (dv_ingest d)) (dv_ingest d')"
    by (auto simp: progress_def intro: backfilled_all [OF assms(3)])
  have k: "same_tables (set (codex_sessions ?db)) ?db (dv_ingest d')"
    using backfill_keeps [of "me_backfill M" ?db ?L] o permutes_sets(1) [OF assms(2)] by simp
  then show "states (dv_ingest d') = states (dv_ingest d)" "metadata (dv_ingest d') = metadata (dv_ingest d)"
    "ptys (dv_ingest d') = ptys (dv_ingest d)"
    by (simp_all add: same_tables_def)
  show "sessions (dv_ingest d') u = sessions ?db u"
    if "\<forall>r \<in> set (ev_rows (dv_ingest d)). ev_session r = u \<longrightarrow> ev_agent r \<noteq> ''codex''"
  proof -
    have "u \<notin> set (codex_sessions ?db)" using that by (auto simp: codex_sessions_def clear_canonical_def)
    with k show ?thesis by (simp add: same_tables_def)
  qed
qed

text \<open>
  C20. After a reindex has cleared the derived columns and blocks of any tables with unique keys,
  however often the backfill is interrupted, and wherever, one that runs without a failure ends it
  (the queries returning their rows in any order): then every event has exactly the canonical fields
  and blocks its payload says, a Codex event in the context of all earlier events of its session.
\<close>

theorem backfill_resumes:
  assumes "distinct (row_keys (ev_rows (dv_ingest d)))"
    and "\<forall>E' \<in> set (Es @ [E]). permutes E'" and "never_fails E"
  shows "\<exists>n db'. backfill_canonical_blocks L E (attempts L Es (dv_ingest (clear_derivatives pick d))) = (Inr n, db')
    \<and> ev_rows db' = map (\<lambda>r. set_canonical L (reparsed L (ev_rows (dv_ingest d)) r) r) (ev_rows (dv_ingest d))
    \<and> (\<forall>r \<in> set (ev_rows (dv_ingest d)).
         block_at (block_rows db') (row_key r) = block_map (ce_blocks (reparsed L (ev_rows (dv_ingest d)) r)))
    \<and> (\<forall>k. event_at (ev_rows (dv_ingest d)) k = None \<longrightarrow> block_at (block_rows db') k = Map.empty)"
  by (rule backfill_resumes_cleared [OF assms(1) _ _ assms(2,3)]) simp_all

section \<open>What ingestion wrote\<close>

lemma set_canonical_row: "set_canonical L p (row_of_event L src u off now v p) = row_of_event L src u off now v p"
  by (simp add: set_canonical_def row_of_event_def)

lemma claude_row_reparsed:
  assumes "claude_row L u r"
  shows "reparsed L rows r = claude_parse (i_json L) (ev_payload r)"
    and "set_canonical L (reparsed L rows r) r = r"
proof -
  obtain now where r: "r = row_of_event L ClaudeCode u (ev_offset r) now (ev_payload r)
      (claude_parse (i_json L) (ev_payload r))"
    using assms by (auto simp: claude_row_def)
  have "ev_agent r = ''claude-code''"
    by (subst r) (simp add: row_of_event_def claude_parse_def Let_def)
  then show p: "reparsed L rows r = claude_parse (i_json L) (ev_payload r)"
    by (simp add: reparsed_def parse_canonical_event_def)
  show "set_canonical L (reparsed L rows r) r = r"
    using set_canonical_row r unfolding p by metis
qed

lemma shown_terminals: "[p. (p, v) \<leftarrow> ps, v = Some u] = map fst (filter (\<lambda>p. snd p = Some u) ps)"
  by (induction ps) auto

lemma claude_agent: "claude_row L u r \<Longrightarrow> ev_agent r = ''claude-code''"
  by (elim claude_row_def [THEN iffD1, THEN exE], drule arg_cong [of _ _ ev_agent])
    (simp add: row_of_event_def claude_parse_def Let_def)

lemma session_events_same:
  assumes rows: "filter (\<lambda>r. ev_session r = u) (ev_rows db') = filter (\<lambda>r. ev_session r = u) (ev_rows db)"
    and d: "distinct (block_keys (block_rows db'))" "distinct (block_keys (block_rows db))"
    and b: "\<And>r. r \<in> set (ev_rows db) \<Longrightarrow> ev_session r = u \<Longrightarrow>
      block_at (block_rows db') (row_key r) = block_at (block_rows db) (row_key r)"
  shows "load_all_session_events rules db' u = load_all_session_events rules db u"
proof -
  have "stored_event_of rules (block_rows db') r = stored_event_of rules (block_rows db) r"
    if "r \<in> set (ev_rows db)" "ev_session r = u" for r
    using load_event_blocks_at [OF d b [OF that]] by (simp add: stored_event_of_def)
  then show ?thesis
    by (simp add: load_all_session_events_def load_session_events_def no_event_filter_def
        selected_rows_all rows)
qed

text \<open>
  C10. A reindex gives back what ingestion wrote: after any run of passes over a growing
  Claude transcript of a session new to the database, with any failures on the way, a reindex that
  goes through, its queries returning their rows in any order, leaves the events of the session as
  they were and loads the same events with the same blocks. It keeps every payload of every session,
  the ingester's state, the metadata and the terminals, and of the session's own row changes nothing
  but to fill in, when it has no terminal and some show the session, the one picked among these.
\<close>

theorem reindex_restores_ingested:
  assumes "unseen db0 u" and "\<forall>b \<in> set (block_rows db0). br_session b \<noteq> u"
    and "distinct (block_keys (block_rows db0))"
    and "ingest_run (pe_ingest (me_projection M)) u path h ClaudeCode ([], db0) acts = Some (c, dv_ingest d)"
    and "permutes (me_backfill M)" and "rebuild_ingest_derivatives M d = Some (Inr st, d')"
  shows "filter (\<lambda>r. ev_session r = u) (ev_rows (dv_ingest d'))
      = filter (\<lambda>r. ev_session r = u) (ev_rows (dv_ingest d))
    \<and> load_all_session_events rules (dv_ingest d') u = load_all_session_events rules (dv_ingest d) u
    \<and> states (dv_ingest d') = states (dv_ingest d) \<and> metadata (dv_ingest d') = metadata (dv_ingest d)
    \<and> ptys (dv_ingest d') = ptys (dv_ingest d)
    \<and> sessions (dv_ingest d') u = map_option (\<lambda>s.
        let shown = [p. (p, v) \<leftarrow> ptys (dv_ingest d), v = Some u]
        in if cs_pty_session_id s = None \<and> shown \<noteq> [] then s\<lparr>cs_pty_session_id := Some (me_pick M shown)\<rparr> else s)
        (sessions (dv_ingest d) u)
    \<and> map (\<lambda>r. (row_key r, ev_payload r)) (ev_rows (dv_ingest d')) = map (\<lambda>r. (row_key r, ev_payload r)) (ev_rows (dv_ingest d))"
proof -
  let ?L = "pe_ingest (me_projection M)" and ?rows = "ev_rows (dv_ingest d)"
  from unseen_start [OF assms(1), of ?L] have s: "at_boundary [] (committed db0 u)" "sound ?L u [] db0"
    "distinct (row_keys (ev_rows db0))" by blast+
  have keys: "distinct (row_keys ?rows)" using run_keeps_invariant [OF assms(4) s] by blast
  have "block_at (block_rows db0) (u, off) i = None" for off i
    using assms(2) by (auto simp: block_at_def find_None_iff)
  then have "claude_ingested ?L u db0"
    using assms(1,3) by (auto simp: claude_ingested_def unseen_def list_all_iff)
  then have i: "claude_ingested ?L u (dv_ingest d)" by (rule claude_ingested_run [OF assms(4)])
  note canonical = reindex_canonical [OF assms(6,5) keys]
  have same: "set_canonical ?L (reparsed ?L ?rows r) r = r" if "r \<in> set ?rows" "ev_session r = u" for r
    using i that claude_row_reparsed(2) by (auto simp: claude_ingested_def)
  have sess: "ev_session (set_canonical L p r) = ev_session r"
    "ev_payload (set_canonical L p r) = ev_payload r" "ev_offset (set_canonical L p r) = ev_offset r" "row_key (set_canonical L p r) = row_key r" for L p r
    by (simp_all add: set_canonical_def)
  have rows: "ev_rows (dv_ingest d') = map (\<lambda>r. set_canonical ?L (reparsed ?L ?rows r) r) ?rows"
    using canonical(1) by (simp add: canonical_rows_def)
  have rows_u: "filter (\<lambda>r. ev_session r = u) (ev_rows (dv_ingest d')) = filter (\<lambda>r. ev_session r = u) ?rows"
    unfolding rows filter_map o_def sess by (rule map_idI) (use same in auto)
  have "block_at (block_rows (dv_ingest d')) (row_key r) = block_at (block_rows (dv_ingest d)) (row_key r)"
    if r: "r \<in> set ?rows" "ev_session r = u" for r
  proof -
    have "event_at ?rows (row_key r) = Some r"
    proof (cases "event_at ?rows (row_key r)")
      case (Some x)
      with event_at_Some [OF Some] same_key [OF keys r(1)] show ?thesis by simp
    next
      case None
      with r(1) show ?thesis unfolding event_at_None by blast
    qed
    then have "block_at (block_rows (dv_ingest d')) (row_key r) = block_map (ce_blocks (reparsed ?L ?rows r))"
      using canonical(1) by (simp add: canonical_rows_def)
    moreover have "claude_row ?L u r" and "block_at (block_rows (dv_ingest d)) (row_key r)
        = block_map (ce_blocks (claude_parse (i_json ?L) (ev_payload r)))"
      using i r unfolding claude_ingested_def by blast+
    ultimately show ?thesis using claude_row_reparsed(1) by simp
  qed
  then have "load_all_session_events rules (dv_ingest d') u = load_all_session_events rules (dv_ingest d) u"
    using session_events_same [OF rows_u] canonical(1) i by (simp add: canonical_rows_def claude_ingested_def)
  moreover have "sessions (dv_ingest d') u = map_option (\<lambda>s.
        let shown = [p. (p, v) \<leftarrow> ptys (dv_ingest d), v = Some u]
        in if cs_pty_session_id s = None \<and> shown \<noteq> [] then s\<lparr>cs_pty_session_id := Some (me_pick M shown)\<rparr> else s)
        (sessions (dv_ingest d) u)"
  proof -
    have "ev_agent r \<noteq> ''codex''" if "r \<in> set ?rows" "ev_session r = u" for r
      using i that claude_agent by (force simp: claude_ingested_def)
    then have "sessions (dv_ingest d') u = sessions (dv_ingest (clear_derivatives (me_pick M) d)) u"
      using canonical(5) by blast
    also have "\<dots> = sessions (link_terminals (me_pick M) (dv_ingest d)) u"
      by (simp add: clear_derivatives_def link_terminals_def)
    finally show ?thesis unfolding link_terminals_def shown_terminals by simp
  qed
  moreover have "map (\<lambda>r. (row_key r, ev_payload r)) (ev_rows (dv_ingest d')) = map (\<lambda>r. (row_key r, ev_payload r)) ?rows"
    by (simp add: rows sess)
  ultimately show ?thesis using rows_u canonical(2,3,4) by (intro conjI)
qed


section \<open>A reindex that fails\<close>

text \<open>
  A reindex whose backfill fails leaves the timeline empty for good: the tables are
  cleared in a transaction of their own, the version table still says that they are current,
  and the maintenance at the next start finds nothing to do.
\<close>

theorem failed_reindex_not_repaired:
  assumes "\<not> me_clear_fails M" and "be_sessions_fail (me_backfill M)"
    and "dv_versions d CANONICAL_BLOCKS_KEY = Some CANONICAL_BLOCKS_VERSION"
    and "dv_versions d TIMELINE_PROJECTION_KEY = Some TIMELINE_PROJECTION_VERSION"
    and "\<forall>k. \<not> me_load_fails M' k"
  shows "\<exists>d'. rebuild_ingest_derivatives M d = Some (Inl ''codex sessions'', d')
    \<and> list_all (\<lambda>r. ev_speaker r = None \<and> ev_search_text r = []) (ev_rows (dv_ingest d'))
    \<and> block_rows (dv_ingest d') = [] \<and> pd_turns (dv_projection d') = []
    \<and> run_required_startup_maintenance M' d' = Some (Inr \<lparr>ms_canonical = 0, ms_timeline = 0\<rparr>, d')"
proof (intro exI conjI)
  let ?d = "(clear_derivatives (me_pick M) d)\<lparr>dv_ingest := dv_ingest (clear_derivatives (me_pick M) d)\<rparr>"
  show "rebuild_ingest_derivatives M d = Some (Inl ''codex sessions'', ?d)"
    using assms(1,2) by (simp add: rebuild_ingest_derivatives_def backfill_canonical_blocks_def Let_def)
  show "list_all (\<lambda>r. ev_speaker r = None \<and> ev_search_text r = []) (ev_rows (dv_ingest ?d))"
    by (simp add: list_all_iff clear_canonical_def)
  show "block_rows (dv_ingest ?d) = []" "pd_turns (dv_projection ?d) = []"
    by (simp_all add: clear_derivatives_def link_terminals_def)
  have "dv_versions ?d = dv_versions d" by (simp add: clear_derivatives_def)
  then show "run_required_startup_maintenance M' ?d = Some (Inr \<lparr>ms_canonical = 0, ms_timeline = 0\<rparr>, ?d)"
    using assms(3-5)
    by (simp add: run_required_startup_maintenance_def maintain_canonical_def maintain_timeline_def
        projection_version_def)
qed

section \<open>Samples\<close>

definition talk_ingest :: ingest_lib where
  "talk_ingest = sample_ingest\<lparr>i_json := \<lparr>js_print = (\<lambda>_. ''{}''), js_pretty = (\<lambda>_. ''{}''),
     js_parse = (\<lambda>s.
       if s = ''u'' then Some (JObj [(''message'', JObj [(''content'', JStr ''go''), (''role'', JStr ''user'')]),
         (''type'', JStr ''user'')])
       else if s = ''a'' then Some (JObj [(''message'', JObj [(''content'', JArr [JObj
         [(''text'', JStr ''done''), (''type'', JStr ''text'')]])]), (''type'', JStr ''assistant'')])
       else None)\<rparr>\<rparr>"

definition talk_acts :: "ingest_action list" where
  "talk_acts = [Append (''u'' @ [CHR 0x0A] @ ''a''), Pass fine_env 3, Append [CHR 0x0A], Pass fine_env 4]"

definition quiet_backfill :: backfill_env where
  "quiet_backfill = \<lparr>be_sessions_fail = False, be_rows_fail = (\<lambda>_. False), be_legacy_fail = False,
     be_rewrite_fails = (\<lambda>_ _. False), be_parent_fails = (\<lambda>_ _. False),
     be_session_order = (\<lambda>us. us), be_row_order = rev\<rparr>"

definition broken_backfill :: backfill_env where
  "broken_backfill = quiet_backfill\<lparr>be_rewrite_fails := (\<lambda>u off. off = 0)\<rparr>"

definition quiet_maintenance :: maintenance_env where
  "quiet_maintenance = \<lparr>me_backfill = quiet_backfill, me_projection = sample_env\<lparr>pe_ingest := talk_ingest\<rparr>,
     me_clear_fails = False, me_load_fails = (\<lambda>_. False), me_set_fails = (\<lambda>_. False), me_pick = hd\<rparr>"

definition derived_of :: "ingest_db \<Rightarrow> derived_db" where
  "derived_of db = \<lparr>dv_ingest = db, dv_projection = empty_projection,
     dv_versions = [CANONICAL_BLOCKS_KEY \<mapsto> CANONICAL_BLOCKS_VERSION,
       TIMELINE_PROJECTION_KEY \<mapsto> TIMELINE_PROJECTION_VERSION]\<rparr>"

lemma quiet_permutes: "permutes quiet_backfill" "permutes broken_backfill" "never_fails quiet_backfill"
  by (simp_all add: permutes_def never_fails_def quiet_backfill_def broken_backfill_def)

lemma talk_run:
  "case ingest_run talk_ingest 1 [''t''] None ClaudeCode ([], empty_db) talk_acts of
     None \<Rightarrow> False
   | Some (c, db) \<Rightarrow> map ev_speaker (ev_rows db) = [Some ''user'', Some ''assistant'']
       \<and> length (block_rows db) = 2
       \<and> (case rebuild_ingest_derivatives quiet_maintenance (derived_of db) of
            Some (Inr st, d') \<Rightarrow> rx_canonical_events_rebuilt st = 2 \<and> length (pd_turns (dv_projection d')) = 1
          | _ \<Rightarrow> False)"
  by code_simp


theorem reindex_restores_ingested_witness:
  "\<exists>c db st d'. ingest_run talk_ingest 1 [''t''] None ClaudeCode ([], empty_db) talk_acts = Some (c, db)
     \<and> rebuild_ingest_derivatives quiet_maintenance (derived_of db) = Some (Inr st, d')
     \<and> rx_canonical_events_rebuilt st = 2
     \<and> filter (\<lambda>r. ev_session r = 1) (ev_rows (dv_ingest d')) = filter (\<lambda>r. ev_session r = 1) (ev_rows db)"
proof -
  obtain c db where r: "ingest_run talk_ingest 1 [''t''] None ClaudeCode ([], empty_db) talk_acts = Some (c, db)"
    and "case rebuild_ingest_derivatives quiet_maintenance (derived_of db) of
            Some (Inr st, d') \<Rightarrow> rx_canonical_events_rebuilt st = 2 \<and> length (pd_turns (dv_projection d')) = 1
          | _ \<Rightarrow> False"
    using talk_run by (auto split: option.splits)
  then obtain res d' where x': "rebuild_ingest_derivatives quiet_maintenance (derived_of db) = Some (res, d')"
    and res: "case res of Inl _ \<Rightarrow> False | Inr st \<Rightarrow> rx_canonical_events_rebuilt st = 2"
    by (cases "rebuild_ingest_derivatives quiet_maintenance (derived_of db)") (auto split: sum.splits)
  then obtain st where x: "rebuild_ingest_derivatives quiet_maintenance (derived_of db) = Some (Inr st, d')"
    and st: "rx_canonical_events_rebuilt st = 2"
    by (cases res) auto
  have l: "pe_ingest (me_projection quiet_maintenance) = talk_ingest" "permutes (me_backfill quiet_maintenance)"
    using quiet_permutes(1) by (simp_all add: quiet_maintenance_def)
  have e: "\<forall>b \<in> set (block_rows empty_db). br_session b \<noteq> 1" "distinct (block_keys (block_rows empty_db))"
    by (simp_all add: empty_db_def block_keys_def)
  have r': "ingest_run (pe_ingest (me_projection quiet_maintenance)) 1 [''t''] None ClaudeCode
      ([], empty_db) talk_acts = Some (c, dv_ingest (derived_of db))"
    using r l(1) by (simp add: derived_of_def)
  from reindex_restores_ingested [OF empty_unseen e r' l(2) x, of "[]"]
  have "filter (\<lambda>r. ev_session r = 1) (ev_rows (dv_ingest d')) = filter (\<lambda>r. ev_session r = 1) (ev_rows db)"
    by (elim conjE) (simp add: derived_of_def)
  with r x st show ?thesis by (intro exI conjI)
qed

theorem backfill_resumes_witness:
  "\<exists>n db'. backfill_canonical_blocks talk_ingest quiet_backfill
       (attempts talk_ingest [broken_backfill]
         (dv_ingest (clear_derivatives hd (derived_of (empty_db\<lparr>ev_rows := [plain_row]\<rparr>))))) = (Inr n, db')
     \<and> ev_rows db' = [set_canonical talk_ingest (reparsed talk_ingest [plain_row] plain_row) plain_row]"
proof -
  let ?d = "derived_of (empty_db\<lparr>ev_rows := [plain_row]\<rparr>)"
  have e: "ev_rows (dv_ingest ?d) = [plain_row]" by (simp add: derived_of_def)
  have a: "distinct (row_keys (ev_rows (dv_ingest ?d)))" by (simp add: e row_keys_def)
  have p: "\<forall>E' \<in> set ([broken_backfill] @ [quiet_backfill]). permutes E'" using quiet_permutes by simp
  from backfill_resumes [OF a p quiet_permutes(3), of talk_ingest hd]
  obtain n db' where "backfill_canonical_blocks talk_ingest quiet_backfill
      (attempts talk_ingest [broken_backfill] (dv_ingest (clear_derivatives hd ?d))) = (Inr n, db')"
    "ev_rows db' = map (\<lambda>r. set_canonical talk_ingest (reparsed talk_ingest [plain_row] r) r) [plain_row]"
    unfolding e by (elim exE conjE)
  then show ?thesis by (intro exI conjI) simp_all
qed

theorem failed_reindex_not_repaired_witness:
  "\<exists>d'. rebuild_ingest_derivatives
       (quiet_maintenance\<lparr>me_backfill := quiet_backfill\<lparr>be_sessions_fail := True\<rparr>\<rparr>)
       (derived_of (empty_db\<lparr>ev_rows := [plain_row]\<rparr>)) = Some (Inl ''codex sessions'', d')
     \<and> run_required_startup_maintenance quiet_maintenance d' = Some (Inr \<lparr>ms_canonical = 0, ms_timeline = 0\<rparr>, d')"
proof -
  let ?M = "quiet_maintenance\<lparr>me_backfill := quiet_backfill\<lparr>be_sessions_fail := True\<rparr>\<rparr>"
  let ?d = "derived_of (empty_db\<lparr>ev_rows := [plain_row]\<rparr>)"
  have M: "\<not> me_clear_fails ?M" "be_sessions_fail (me_backfill ?M)" "\<forall>k. \<not> me_load_fails quiet_maintenance k"
    by (simp_all add: quiet_maintenance_def)
  have v: "dv_versions ?d CANONICAL_BLOCKS_KEY = Some CANONICAL_BLOCKS_VERSION"
    "dv_versions ?d TIMELINE_PROJECTION_KEY = Some TIMELINE_PROJECTION_VERSION"
    by (simp_all add: derived_of_def CANONICAL_BLOCKS_KEY_def TIMELINE_PROJECTION_KEY_def)
  from failed_reindex_not_repaired [OF M(1,2) v M(3)] show ?thesis by blast
qed

end
