(* ===== verification/Rust_Parse.thy ===== *)
theory Rust_Parse
  imports Rust_String
begin

text \<open>
  More of Rust's \<open>str\<close>: splitting into a bounded number of pieces, cutting a character off both
  ends, replacing, and parsing unsigned numbers.
\<close>

section \<open>Pieces\<close>

text \<open>\<open>split_once(c)\<close>.\<close>

fun split_once :: "char \<Rightarrow> string \<Rightarrow> (string \<times> string) option" where
  "split_once d [] = None"
| "split_once d (c # cs) =
     (if c = d then Some ([], cs) else map_option (\<lambda>(a, b). (c # a, b)) (split_once d cs))"

text \<open>\<open>splitn(n, c)\<close> for a positive number.\<close>

fun splitn :: "nat \<Rightarrow> char \<Rightarrow> string \<Rightarrow> string list" where
  "splitn 0 d s = []"
| "splitn (Suc 0) d s = [s]"
| "splitn (Suc (Suc n)) d s =
     (case split_once d s of None \<Rightarrow> [s] | Some (a, b) \<Rightarrow> a # splitn (Suc n) d b)"

definition piece :: "nat \<Rightarrow> string list \<Rightarrow> string" where
  "piece i ps = (if i < length ps then ps ! i else [])"

lemma split_once_none: "split_once d s = None \<longleftrightarrow> d \<notin> set s"
  by (induction s) auto

lemma split_once_field: "d \<notin> set a \<Longrightarrow> split_once d (a @ d # b) = Some (a, b)"
  by (induction a) auto

lemma split_char_field: "d \<notin> set a \<Longrightarrow> split_char d (a @ d # b) = a # split_char d b"
  by (induction a) auto

lemma split_char_whole: "d \<notin> set a \<Longrightarrow> split_char d a = [a]"
  by (induction a) auto

lemma split_join:
  assumes "\<forall>p \<in> set ps. d \<notin> set p" and "ps \<noteq> []"
  shows "split_char d (join [d] ps) = ps"
  using assms
proof (induction "[d]" ps rule: join.induct)
  case (3 x y ys)
  then show ?case using split_char_field [of d x] by simp
qed (simp_all add: split_char_whole)

text \<open>A field that does not hold the separator starts after the last one.\<close>

lemma last_field_split:
  assumes "d \<notin> set a" and "d \<notin> set b"
  shows "x @ d # a = y @ d # b \<longleftrightarrow> x = y \<and> a = b"
proof
  assume "x @ d # a = y @ d # b"
  then have "rev (x @ d # a) = rev (y @ d # b)" by (rule arg_cong)
  then have "rev a @ d # rev x = rev b @ d # rev y" by simp
  with assms show "x = y \<and> a = b" by (simp add: field_split)
qed simp

section \<open>Trimming one character\<close>

definition trim_start_char :: "char \<Rightarrow> string \<Rightarrow> string" where
  "trim_start_char c s = dropWhile (\<lambda>x. x = c) s"

definition trim_end_char :: "char \<Rightarrow> string \<Rightarrow> string" where
  "trim_end_char c s = rev (dropWhile (\<lambda>x. x = c) (rev s))"

definition trim_char :: "char \<Rightarrow> string \<Rightarrow> string" where
  "trim_char c s = trim_end_char c (trim_start_char c s)"

section \<open>Replacing\<close>

text \<open>\<open>replace(p, by)\<close> for a pattern that is not empty.\<close>

function replace_sub :: "string \<Rightarrow> string \<Rightarrow> string \<Rightarrow> string" where
  "replace_sub p by [] = []"
| "replace_sub p by (c # cs) =
     (if p \<noteq> [] \<and> starts_with (c # cs) p then by @ replace_sub p by (drop (length p) (c # cs))
      else c # replace_sub p by cs)"
  by pat_completeness auto
termination
proof (relation "measure (\<lambda>(p, b, s). length s)", goal_cases)
  case (2 p b c cs)
  then have "0 < length p" by simp
  then show ?case by simp
qed simp_all

lemma replace_char: "replace_sub [c] by s = concat (map (\<lambda>x. if x = c then by else [x]) s)"
  by (induction s) (auto simp: starts_with_def)

section \<open>Unsigned numbers\<close>

text \<open>\<open>parse::<usize>()\<close> and \<open>parse::<u64>()\<close>: digits after an optional plus sign, below \<open>2 ^ 64\<close>.\<close>

definition parse_u64 :: "string \<Rightarrow> nat option" where
  "parse_u64 s =
     (let ds = (if take 1 s = ''+'' then drop 1 s else s)
      in if ds \<noteq> [] \<and> list_all ascii_digit ds \<and> int (digits_val ds) < 2 ^ 64 then Some (digits_val ds) else None)"

lemma parse_u64_show: "n < 2 ^ 64 \<Longrightarrow> parse_u64 (show_nat n) = Some n"
proof -
  assume n: "n < 2 ^ 64"
  have d: "list_all ascii_digit (show_nat n)" using show_nat_digits by (auto simp: list_all_iff)
  have ne: "show_nat n \<noteq> []" by (simp add: show_nat.simps [of n])
  have "hd (show_nat n) \<noteq> CHR ''+''"
  proof
    assume "hd (show_nat n) = CHR ''+''"
    with d ne have "ascii_digit (CHR ''+'')" by (cases "show_nat n") auto
    then show False by (simp add: ascii_digit_def)
  qed
  then have "take 1 (show_nat n) \<noteq> ''+''" using ne by (cases "show_nat n") auto
  moreover have "int n < 2 ^ 64" using n by (metis of_nat_less_iff of_nat_numeral of_nat_power)
  ultimately show ?thesis using d ne by (simp add: parse_u64_def digits_val_show)
qed

end
