(* ===== verification/Git.thy ===== *)
theory Git
  imports Rust_Parse "HOL-Library.AList" "HOL-Library.Multiset"
begin

text \<open>
  The state of a checkout (\<^verbatim>\<open>backend/src/git.rs\<close>): the subprocess calls, the parsing of their
  output, diffs, staging. The host answers every call as a function of the calls made before,
  so that its answers may change at any time; a trace of the calls is threaded through.
  \<open>String::from_utf8_lossy\<close> is a parameter. A map is an association list with distinct keys.
\<close>

section \<open>The host\<close>

datatype git_out = NotSpawned | Exited bool string string

type_synonym git_call = "string \<times> string list"

record git_host =
  gh_run :: "git_call list \<Rightarrow> git_call \<Rightarrow> git_out"
  gh_exists :: "git_call list \<Rightarrow> string \<Rightarrow> bool"
  gh_is_dir :: "git_call list \<Rightarrow> string \<Rightarrow> bool"
  gh_read_text :: "git_call list \<Rightarrow> string \<Rightarrow> string option"
  gh_lossy :: "string \<Rightarrow> string"
  gh_order :: "(string \<times> string) list \<Rightarrow> (string \<times> string) list"

text \<open>A step that may call git: the calls so far in, a result and the calls so far out.\<close>

type_synonym 'a git_op = "git_call list \<Rightarrow> (string, 'a) result \<times> git_call list"

definition op_return :: "'a \<Rightarrow> 'a git_op" where
  "op_return x = (\<lambda>tr. (Inr x, tr))"

definition op_fail :: "string \<Rightarrow> 'a git_op" where
  "op_fail e = (\<lambda>tr. (Inl e, tr))"

definition op_then :: "'a git_op \<Rightarrow> ('a \<Rightarrow> 'b git_op) \<Rightarrow> 'b git_op" where
  "op_then m f = (\<lambda>tr. case m tr of (Inl e, tr') \<Rightarrow> (Inl e, tr') | (Inr x, tr') \<Rightarrow> f x tr')"

lemma op_simps [simp]:
  "op_return x tr = (Inr x, tr)" "op_fail e tr = (Inl e, tr)"
  by (simp_all add: op_return_def op_fail_def)

lemma op_then_Inr: "op_then m f tr = (Inr y, tr2) \<longleftrightarrow> (\<exists>x tr1. m tr = (Inr x, tr1) \<and> f x tr1 = (Inr y, tr2))"
  by (auto simp: op_then_def split: prod.splits sum.splits)

section \<open>Data\<close>

record commit =
  cm_sha :: string
  cm_subject :: string
  cm_committed_at :: string

record diff_stat =
  dstat_additions :: nat
  dstat_deletions :: nat

record git_status =
  gs_branch :: "string option"
  gs_uncommitted :: nat
  gs_untracked :: nat
  gs_last_commit :: "commit option"
  gs_recent_commits :: "commit list"
  gs_dirty :: "(string \<times> string) list"
  gs_diff_stats :: "(string \<times> diff_stat) list"

definition empty_status :: git_status where
  "empty_status =
     \<lparr>gs_branch = None, gs_uncommitted = 0, gs_untracked = 0, gs_last_commit = None,
      gs_recent_commits = [], gs_dirty = [], gs_diff_stats = []\<rparr>"

section \<open>Commands\<close>

definition is_git_repo :: "git_host \<Rightarrow> git_call list \<Rightarrow> string \<Rightarrow> bool" where
  "is_git_repo H tr path \<longleftrightarrow> gh_exists H tr (join_path path ''.git'')"

text \<open>A command that fails yields no output.\<close>

definition run_git :: "git_host \<Rightarrow> string \<Rightarrow> string list \<Rightarrow> string git_op" where
  "run_git H path args = (\<lambda>tr.
     (case gh_run H tr (path, args) of
        NotSpawned \<Rightarrow> Inl ''git''
      | Exited ok out err \<Rightarrow> Inr (if ok then out else []), tr @ [(path, args)]))"

definition non_blank :: "string \<Rightarrow> string option" where
  "non_blank s = (if s = [] then None else Some s)"

definition current_branch :: "git_host \<Rightarrow> string \<Rightarrow> string option git_op" where
  "current_branch H path =
     op_then (run_git H path [''branch'', ''--show-current'']) (\<lambda>out.
       op_return (non_blank (trim (gh_lossy H out))))"

section \<open>The porcelain format\<close>

definition utf8_pair :: "string \<Rightarrow> bool" where
  "utf8_pair s \<longleftrightarrow>
     list_all (\<lambda>c. byte c < 0x80) s
     \<or> length s = 2 \<and> 0xC2 \<le> byte (s ! 0) \<and> byte (s ! 0) \<le> 0xDF \<and> cont_byte (s ! 1)"

definition rename_codes :: "string list" where
  "rename_codes = [''R '', ''RM'', ''C '', ''CM'']"

definition porcelain_code :: "string \<Rightarrow> string" where
  "porcelain_code record = (if utf8_pair (take 2 record) then take 2 record else ''  '')"

definition add_dirty :: "string \<Rightarrow> string \<Rightarrow> git_status \<Rightarrow> git_status" where
  "add_dirty path code st =
     st\<lparr>gs_uncommitted := gs_uncommitted st + 1,
        gs_untracked := gs_untracked st + (if code = ''??'' then 1 else 0),
        gs_dirty := AList.update path code (gs_dirty st)\<rparr>"

function parse_records :: "git_host \<Rightarrow> string list \<Rightarrow> git_status \<Rightarrow> git_status" where
  "parse_records H [] st = st"
| "parse_records H (r # rs) st =
     (if length r < 3 then parse_records H rs st
      else parse_records H (if porcelain_code r \<in> set rename_codes then drop 1 rs else rs)
             (add_dirty (gh_lossy H (drop 3 r)) (porcelain_code r) st))"
  by pat_completeness auto
termination by (relation "measure (\<lambda>(H, rs, st). length rs)") auto

definition parse_porcelain :: "git_host \<Rightarrow> string \<Rightarrow> git_status \<Rightarrow> git_status" where
  "parse_porcelain H bytes st = parse_records H (split_char (CHR 0x00) bytes) st"

section \<open>Diff statistics and the log\<close>

definition numstat_line :: "string \<Rightarrow> (string \<times> diff_stat) option" where
  "numstat_line line =
     (let ps = splitn 3 (CHR 0x09) line; path = trim (piece 2 ps)
      in if path = [] then None
         else Some (last (split_char (CHR 0x09) path),
                \<lparr>dstat_additions = unwrap_or 0 (parse_u64 (piece 0 ps)),
                 dstat_deletions = unwrap_or 0 (parse_u64 (piece 1 ps))\<rparr>))"

definition add_stat :: "(string \<times> diff_stat) list \<Rightarrow> string \<Rightarrow> (string \<times> diff_stat) list" where
  "add_stat stats line =
     (case numstat_line line of None \<Rightarrow> stats | Some (path, d) \<Rightarrow> AList.update path d stats)"

definition add_untracked ::
    "git_host \<Rightarrow> git_call list \<Rightarrow> string \<Rightarrow> (string \<times> diff_stat) list \<Rightarrow> string \<times> string \<Rightarrow>
     (string \<times> diff_stat) list" where
  "add_untracked H tr repo stats pc =
     (if snd pc \<noteq> ''??'' \<or> map_of stats (fst pc) \<noteq> None then stats
      else AList.update (fst pc)
             \<lparr>dstat_additions = (case gh_read_text H tr (join_path repo (fst pc)) of
                None \<Rightarrow> 0 | Some body \<Rightarrow> length (lines body)), dstat_deletions = 0\<rparr> stats)"

definition read_diff_stats ::
    "git_host \<Rightarrow> string \<Rightarrow> (string \<times> string) list \<Rightarrow> (string \<times> diff_stat) list git_op" where
  "read_diff_stats H repo dirty =
     op_then (run_git H repo [''diff'', ''HEAD'', ''--numstat'']) (\<lambda>out tr.
       (Inr (foldl (add_untracked H tr repo) (foldl add_stat [] (lines (gh_lossy H out))) dirty), tr))"

definition log_record :: "string \<Rightarrow> commit option" where
  "log_record r =
     (let ps = splitn 3 (CHR 0x1F) (trim_char (CHR 0x0A) r)
      in if trim_char (CHR 0x0A) r = [] \<or> piece 0 ps = [] then None
         else Some \<lparr>cm_sha = piece 0 ps, cm_subject = piece 1 ps, cm_committed_at = piece 2 ps\<rparr>)"

definition parse_log :: "string \<Rightarrow> commit list" where
  "parse_log text = List.map_filter log_record (split_char (CHR 0x1E) text)"

definition read_log :: "git_host \<Rightarrow> string \<Rightarrow> nat \<Rightarrow> (commit \<times> commit list) option git_op" where
  "read_log H repo want =
     op_then (run_git H repo [''log'', ''-'' @ show_nat want, ''--no-color'', ''--format=%h%x1f%s%x1f%cI%x1e''])
       (\<lambda>out. op_return (case parse_log (gh_lossy H out) of [] \<Rightarrow> None | c # cs \<Rightarrow> Some (c, take 3 (c # cs))))"

definition read_status :: "git_host \<Rightarrow> string \<Rightarrow> git_status git_op" where
  "read_status H repo = (\<lambda>tr.
     if \<not> is_git_repo H tr repo then (Inr empty_status, tr)
     else op_then (current_branch H repo) (\<lambda>branch.
       op_then (run_git H repo [''status'', ''--porcelain=v1'', ''-z'']) (\<lambda>porcelain.
         let st = parse_porcelain H porcelain (empty_status\<lparr>gs_branch := branch\<rparr>)
         in op_then (read_diff_stats H repo (gs_dirty st)) (\<lambda>stats.
              op_then (read_log H repo 4) (\<lambda>log.
                op_return (case log of
                    None \<Rightarrow> st\<lparr>gs_diff_stats := stats\<rparr>
                  | Some (c, recent) \<Rightarrow>
                      st\<lparr>gs_diff_stats := stats, gs_last_commit := Some c, gs_recent_commits := recent\<rparr>))))) tr)"

section \<open>Diffs and staging\<close>

definition new_file_diff :: "string \<Rightarrow> string \<Rightarrow> string" where
  "new_file_diff p body =
     ''diff --git a/'' @ p @ '' b/'' @ p @ [CHR 0x0A] @ ''new file mode 100644'' @ [CHR 0x0A]
     @ ''--- /dev/null'' @ [CHR 0x0A] @ ''+++ b/'' @ p @ [CHR 0x0A]
     @ concat (map (\<lambda>l. ''+'' @ l @ [CHR 0x0A]) (lines body))"

definition untracked_diff :: "git_host \<Rightarrow> git_call list \<Rightarrow> string \<Rightarrow> string \<Rightarrow> string" where
  "untracked_diff H tr repo p =
     (case gh_read_text H tr (join_path repo p) of None \<Rightarrow> [] | Some body \<Rightarrow> new_file_diff p body)"

definition read_diff :: "git_host \<Rightarrow> string \<Rightarrow> string option \<Rightarrow> string git_op" where
  "read_diff H repo path = (\<lambda>tr.
     if \<not> is_git_repo H tr repo then (Inr [], tr)
     else op_then (run_git H repo ([''diff'', ''HEAD'', ''--no-color'']
            @ (case path of None \<Rightarrow> [] | Some p \<Rightarrow> [''--'', p]))) (\<lambda>out.
       let diff = gh_lossy H out
       in case path of
            None \<Rightarrow> op_then (read_status H repo) (\<lambda>st tr'.
              (Inr (diff @ concat (map (\<lambda>(p, c). if c = ''??'' then untracked_diff H tr' repo p else [])
                 (gh_order H (gs_dirty st)))), tr'))
          | Some p \<Rightarrow> (\<lambda>tr'. (Inr (if diff = [] then untracked_diff H tr' repo p else diff), tr'))) tr)"

definition stage_path :: "git_host \<Rightarrow> string \<Rightarrow> string \<Rightarrow> bool \<Rightarrow> unit git_op" where
  "stage_path H repo rel stage = (\<lambda>tr.
     let args = (if stage then [''add'', ''--'', rel] else [''reset'', ''HEAD'', ''--'', rel])
     in (case gh_run H tr (repo, args) of
           NotSpawned \<Rightarrow> Inl ''git''
         | Exited ok out err \<Rightarrow>
             if ok then Inr ()
             else Inl (''git '' @ (if stage then ''add'' else ''reset'') @ '' '' @ rel @ '' failed: '' @ gh_lossy H err),
         tr @ [(repo, args)]))"

section \<open>Parsing what git prints\<close>

text \<open>One entry as git prints it: the code, the path, and for a rename or copy the old path.\<close>

datatype porcelain_entry = Entry string string "string option"

fun print_entry :: "porcelain_entry \<Rightarrow> string" where
  "print_entry (Entry code path old) =
     code @ '' '' @ path @ [CHR 0x00] @ (case old of None \<Rightarrow> [] | Some o' \<Rightarrow> o' @ [CHR 0x00])"

definition print_porcelain :: "porcelain_entry list \<Rightarrow> string" where
  "print_porcelain es = concat (map print_entry es)"

text \<open>
  Git prints the old path exactly after a code with an \<open>R\<close> or a \<open>C\<close>. Of these codes the entries here
  have the four that are followed by a blank or an \<open>M\<close>.
\<close>

definition names_old_path :: "string \<Rightarrow> bool" where
  "names_old_path code \<longleftrightarrow> CHR ''R'' \<in> set code \<or> CHR ''C'' \<in> set code"

fun entry_ok :: "git_host \<Rightarrow> porcelain_entry \<Rightarrow> bool" where
  "entry_ok H (Entry code path old) \<longleftrightarrow>
     length code = 2 \<and> list_all (\<lambda>c. byte c < 0x80 \<and> c \<noteq> CHR 0x00) code
     \<and> path \<noteq> [] \<and> CHR 0x00 \<notin> set path \<and> gh_lossy H path = path
     \<and> (old \<noteq> None \<longleftrightarrow> names_old_path code) \<and> (\<forall>o' \<in> set_option old. CHR 0x00 \<notin> set o')
     \<and> (names_old_path code \<longrightarrow> code \<in> {''R '', ''RM'', ''C '', ''CM''})"

lemma known_rename:
  "(names_old_path code \<longrightarrow> code \<in> {''R '', ''RM'', ''C '', ''CM''}) \<Longrightarrow> names_old_path code \<longleftrightarrow> code \<in> set rename_codes"
  unfolding rename_codes_def names_old_path_def by fastforce

fun entry_path :: "porcelain_entry \<Rightarrow> string" where
  "entry_path (Entry code path old) = path"

fun entry_code :: "porcelain_entry \<Rightarrow> string" where
  "entry_code (Entry code path old) = code"

definition add_entry :: "git_status \<Rightarrow> porcelain_entry \<Rightarrow> git_status" where
  "add_entry st e = add_dirty (entry_path e) (entry_code e) st"

lemma parse_printed:
  assumes "list_all (entry_ok H) es"
  shows "parse_records H (split_char (CHR 0x00) (print_porcelain es)) st = foldl add_entry st es"
  using assms
proof (induction es arbitrary: st)
  case Nil
  then show ?case by (simp add: print_porcelain_def)
next
  case (Cons e es)
  obtain code path old where e: "e = Entry code path old" by (cases e)
  define r where "r = code @ '' '' @ path"
  from Cons.prems e have ok: "length code = 2" "list_all (\<lambda>c. byte c < 0x80) code" "path \<noteq> []"
    "gh_lossy H path = path" "old \<noteq> None \<longleftrightarrow> code \<in> set rename_codes"
    and nul: "CHR 0x00 \<notin> set r" "\<forall>o' \<in> set_option old. CHR 0x00 \<notin> set o'"
    using known_rename by (auto simp: list_all_iff r_def)
  have r: "\<not> length r < 3" "porcelain_code r = code" "gh_lossy H (drop 3 r) = path"
    using ok(1-4) by (cases path, simp_all add: r_def porcelain_code_def utf8_pair_def)
  have IH: "parse_records H (split_char (CHR 0x00) (print_porcelain es)) s = foldl add_entry s es" for s
    using Cons by simp
  have first: "print_entry e = r @ CHR 0x00 # (case old of None \<Rightarrow> [] | Some o' \<Rightarrow> o' @ [CHR 0x00])"
    by (simp add: e r_def)
  have all: "print_porcelain (e # es) = print_entry e @ print_porcelain es"
    by (simp add: print_porcelain_def)
  have "drop (if code \<in> set rename_codes then 1 else 0)
      (split_char (CHR 0x00) ((case old of None \<Rightarrow> [] | Some o' \<Rightarrow> o' @ [CHR 0x00]) @ print_porcelain es))
    = split_char (CHR 0x00) (print_porcelain es)"
    using ok(5) nul(2) by (cases old) (auto simp: split_char_field)
  then have "parse_records H (split_char (CHR 0x00) (print_porcelain (e # es))) st
      = parse_records H (split_char (CHR 0x00) (print_porcelain es)) (add_dirty path code st)"
    unfolding all first append_assoc append_Cons split_char_field [OF nul(1)]
    by (auto simp: r split: if_splits)
  then show ?case by (simp add: IH) (simp add: add_entry_def e)
qed

lemma add_entries:
  assumes "distinct (map entry_path es)" and "entry_path ` set es \<inter> fst ` set (gs_dirty st) = {}"
  shows "foldl add_entry st es
     = st\<lparr>gs_uncommitted := gs_uncommitted st + length es,
          gs_untracked := gs_untracked st + length (filter (\<lambda>e. entry_code e = ''??'') es),
          gs_dirty := gs_dirty st @ map (\<lambda>e. (entry_path e, entry_code e)) es\<rparr>"
  using assms
proof (induction es arbitrary: st)
  case (Cons e es)
  have new: "AList.update (entry_path e) v al = al @ [(entry_path e, v)]" if "entry_path e \<notin> fst ` set al"
    for v and al :: "(string \<times> string) list"
    using that by (induction al) auto
  have "entry_path e \<notin> fst ` set (gs_dirty st)" using Cons.prems(2) by auto
  then have add: "add_entry st e = st\<lparr>gs_uncommitted := gs_uncommitted st + 1,
      gs_untracked := gs_untracked st + (if entry_code e = ''??'' then 1 else 0),
      gs_dirty := gs_dirty st @ [(entry_path e, entry_code e)]\<rparr>"
    by (simp add: add_entry_def add_dirty_def new)
  have "entry_path ` set es \<inter> fst ` set (gs_dirty (add_entry st e)) = {}"
    using Cons.prems by (auto simp: add)
  with Cons.IH [of "add_entry st e"] Cons.prems(1) show ?case by (simp add: add)
qed simp

text \<open>
  C17. Parsing the porcelain output git prints gives back its entries, in order, each path
  with its code, the old path of a rename or copy left out, and the right counts: for different paths
  that are valid text, and as long as \<open>R\<close> and \<open>C\<close> occur only in the codes \<open>R \<close>, \<open>RM\<close>, \<open>C \<close> and \<open>CM\<close>
  (the parser takes the old path after any other code, such as \<open>RD\<close>, for an entry).
\<close>

theorem porcelain_roundtrip:
  assumes "list_all (entry_ok H) es" and "distinct (map entry_path es)"
  shows "parse_porcelain H (print_porcelain es) empty_status
     = empty_status\<lparr>gs_uncommitted := length es,
         gs_untracked := length (filter (\<lambda>e. entry_code e = ''??'') es),
         gs_dirty := map (\<lambda>e. (entry_path e, entry_code e)) es\<rparr>"
  using parse_printed [OF assms(1)] add_entries [OF assms(2), of empty_status]
  by (simp add: parse_porcelain_def empty_status_def)

definition plain_host :: git_host where
  "plain_host = \<lparr>gh_run = (\<lambda>_ _. NotSpawned), gh_exists = (\<lambda>_ _. False), gh_is_dir = (\<lambda>_ _. False),
     gh_read_text = (\<lambda>_ _. None), gh_lossy = (\<lambda>s. s), gh_order = (\<lambda>xs. xs)\<rparr>"

theorem porcelain_roundtrip_witness:
  "gs_dirty (parse_porcelain plain_host
      (print_porcelain [Entry '' M'' ''lib.rs'' None, Entry ''R '' ''new.rs'' (Some ''old.rs''), Entry ''??'' ''x'' None])
      empty_status) = [(''lib.rs'', '' M''), (''new.rs'', ''R ''), (''x'', ''??'')]"
  by (subst porcelain_roundtrip) (simp_all add: plain_host_def names_old_path_def)

text \<open>
  A rename whose new file is deleted from the work tree has the code \<open>RD\<close>, which the parser
  does not know: its old path is read as an entry of its own, with its first bytes as code.
\<close>

lemma deleted_rename_misread:
  "gs_dirty (parse_porcelain plain_host (print_porcelain [Entry ''RD'' ''new.rs'' (Some ''src/old.rs'')]) empty_status)
     = [(''new.rs'', ''RD''), (''/old.rs'', ''sr'')]"
  by code_simp

end
