(* ===== verification/Repo_State.thy ===== *)
theory Repo_State
  imports Git Timeline_Types Json
begin

text \<open>
  The cached state of the checkouts (\<^verbatim>\<open>backend/src/repo_state.rs\<close> and the tables of
  \<^verbatim>\<open>migrations/0012_runtime_state.sql\<close>): discovery, the refresh of one checkout, reading the
  cache. \<open>reconcile_env\<close> has the clock, the host and which statements fail; the columns that
  repositories and workspaces share are a record of their own. Time is in nanoseconds.
\<close>

section \<open>Columns\<close>

record git_columns =
  gc_revision :: int
  gc_head_sha :: "string option"
  gc_head_subject :: "string option"
  gc_head_committed_at :: "timestamp option"
  gc_recent_commits :: json
  gc_dirty_count :: int
  gc_untracked_count :: int
  gc_fingerprint :: string
  gc_started_at :: "timestamp option"
  gc_finished_at :: "timestamp option"
  gc_next_status_at :: timestamp
  gc_status_error :: "string option"
  gc_updated_at :: timestamp

definition new_git_columns :: "timestamp \<Rightarrow> git_columns" where
  "new_git_columns now =
     \<lparr>gc_revision = 0, gc_head_sha = None, gc_head_subject = None, gc_head_committed_at = None,
      gc_recent_commits = JArr [], gc_dirty_count = 0, gc_untracked_count = 0, gc_fingerprint = [],
      gc_started_at = None, gc_finished_at = None, gc_next_status_at = now, gc_status_error = None,
      gc_updated_at = now\<rparr>"

record repo_row =
  rr_name :: string
  rr_path :: string
  rr_exists :: bool
  rr_branch :: "string option"
  rr_git :: git_columns

record 'k dirty_row =
  dr_owner :: 'k
  dr_path :: string
  dr_status :: string
  dr_additions :: "int option"
  dr_deletions :: "int option"

record repo_db =
  rd_rows :: "repo_row list"
  rd_dirty :: "string dirty_row list"

record reconcile_env =
  rc_host :: git_host
  rc_started :: timestamp
  rc_finished :: timestamp
  rc_time_parse :: "string \<Rightarrow> timestamp option"
  rc_start_fails :: bool
  rc_tx_fails :: bool
  rc_error_fails :: bool

definition seconds :: "int \<Rightarrow> timestamp" where
  "seconds n = n * 1000000000"

definition REPO_STATUS_CADENCE_SECS :: int where
  "REPO_STATUS_CADENCE_SECS = 30"

definition REPO_STATUS_ERROR_CADENCE_SECS :: int where
  "REPO_STATUS_ERROR_CADENCE_SECS = 90"

section \<open>The fingerprint\<close>

definition stat_of :: "git_status \<Rightarrow> string \<Rightarrow> nat \<times> nat" where
  "stat_of st path =
     (case map_of (gs_diff_stats st) path of None \<Rightarrow> (0, 0)
      | Some d \<Rightarrow> (dstat_additions d, dstat_deletions d))"

definition dirty_line :: "git_status \<Rightarrow> string \<times> string \<Rightarrow> string" where
  "dirty_line st pc =
     fst pc @ '':'' @ snd pc @ '':'' @ show_nat (fst (stat_of st (fst pc))) @ '':''
       @ show_nat (snd (stat_of st (fst pc)))"

definition fingerprint_parts :: "git_status \<Rightarrow> string list" where
  "fingerprint_parts st =
     (''branch='' @ unwrap_or [] (gs_branch st))
     # (''head='' @ (case gs_last_commit st of None \<Rightarrow> [] | Some c \<Rightarrow> cm_sha c))
     # map (dirty_line st) (sort_key fst (gs_dirty st))"

definition status_fingerprint :: "git_status \<Rightarrow> string" where
  "status_fingerprint st = join [CHR 0x0A] (fingerprint_parts st)"

section \<open>Storing a status\<close>

definition commit_json :: "commit \<Rightarrow> json" where
  "commit_json c =
     JObj [(''committed_at'', JStr (cm_committed_at c)), (''sha'', JStr (cm_sha c)),
           (''subject'', JStr (cm_subject c))]"

definition dirty_row_of :: "'k \<Rightarrow> git_status \<Rightarrow> string \<times> string \<Rightarrow> 'k dirty_row" where
  "dirty_row_of k st pc =
     (let diff = map_of (gs_diff_stats st) (fst pc)
      in \<lparr>dr_owner = k, dr_path = fst pc, dr_status = snd pc,
          dr_additions = map_option (\<lambda>d. as_i32 (dstat_additions d)) diff,
          dr_deletions = map_option (\<lambda>d. as_i32 (dstat_deletions d)) diff\<rparr>)"

definition replace_dirty :: "'k \<Rightarrow> git_status \<Rightarrow> 'k dirty_row list \<Rightarrow> 'k dirty_row list" where
  "replace_dirty k st rows = filter (\<lambda>r. dr_owner r \<noteq> k) rows @ map (dirty_row_of k st) (gs_dirty st)"

definition store_columns :: "reconcile_env \<Rightarrow> int \<Rightarrow> git_status \<Rightarrow> git_columns \<Rightarrow> git_columns" where
  "store_columns E cadence st g =
     g\<lparr>gc_revision := (if gc_fingerprint g \<noteq> status_fingerprint st then gc_revision g + 1 else gc_revision g),
       gc_head_sha := map_option cm_sha (gs_last_commit st),
       gc_head_subject := map_option cm_subject (gs_last_commit st),
       gc_head_committed_at := Option.bind (gs_last_commit st) (\<lambda>c. rc_time_parse E (cm_committed_at c)),
       gc_recent_commits := JArr (map commit_json (gs_recent_commits st)),
       gc_dirty_count := as_i32 (gs_uncommitted st), gc_untracked_count := as_i32 (gs_untracked st),
       gc_fingerprint := status_fingerprint st, gc_finished_at := Some (rc_finished E),
       gc_next_status_at := rc_finished E + seconds cadence, gc_status_error := None,
       gc_updated_at := rc_finished E\<rparr>"

definition mark_started :: "reconcile_env \<Rightarrow> git_columns \<Rightarrow> git_columns" where
  "mark_started E g =
     g\<lparr>gc_started_at := Some (rc_started E), gc_status_error := None, gc_updated_at := rc_started E\<rparr>"

definition mark_status_error :: "reconcile_env \<Rightarrow> int \<Rightarrow> string \<Rightarrow> git_columns \<Rightarrow> git_columns" where
  "mark_status_error E cadence e g =
     g\<lparr>gc_status_error := Some e, gc_finished_at := Some (rc_finished E),
       gc_next_status_at := rc_finished E + seconds cadence, gc_updated_at := rc_finished E\<rparr>"

section \<open>Repositories\<close>

definition update_repo :: "string \<Rightarrow> (repo_row \<Rightarrow> repo_row) \<Rightarrow> repo_db \<Rightarrow> repo_db" where
  "update_repo name f db = db\<lparr>rd_rows := map (\<lambda>r. if rr_name r = name then f r else r) (rd_rows db)\<rparr>"

definition store_repo_status :: "reconcile_env \<Rightarrow> string \<Rightarrow> git_status \<Rightarrow> repo_db \<Rightarrow> repo_db" where
  "store_repo_status E name st db =
     update_repo name (\<lambda>r. r\<lparr>rr_branch := gs_branch st,
         rr_git := store_columns E REPO_STATUS_CADENCE_SECS st (rr_git r)\<rparr>)
       (db\<lparr>rd_dirty := replace_dirty name st (rd_dirty db)\<rparr>)"

definition reconcile_repo_inner ::
    "reconcile_env \<Rightarrow> repo_db \<Rightarrow> string \<Rightarrow> string \<Rightarrow> git_call list \<Rightarrow>
     (string, unit) result \<times> repo_db \<times> git_call list" where
  "reconcile_repo_inner E db name path tr =
     (if rc_start_fails E then (Inl ''mark repo reconcile started'', db, tr)
      else let db1 = update_repo name (\<lambda>r. r\<lparr>rr_git := mark_started E (rr_git r)\<rparr>) db
           in case read_status (rc_host E) path tr of
                (Inl e, tr') \<Rightarrow> (Inl e, db1, tr')
              | (Inr st, tr') \<Rightarrow>
                  if rc_tx_fails E then (Inl ''repo reconcile tx'', db1, tr')
                  else (Inr (), store_repo_status E name st db1, tr'))"

definition reconcile_repo ::
    "reconcile_env \<Rightarrow> string \<times> string \<Rightarrow> repo_db \<times> git_call list \<Rightarrow> repo_db \<times> git_call list" where
  "reconcile_repo E np s =
     (case reconcile_repo_inner E (fst s) (fst np) (snd np) (snd s) of
        (Inr _, db, tr) \<Rightarrow> (db, tr)
      | (Inl e, db, tr) \<Rightarrow>
          (if rc_error_fails E then db
           else update_repo (fst np)
                  (\<lambda>r. r\<lparr>rr_git := mark_status_error E REPO_STATUS_ERROR_CADENCE_SECS e (rr_git r)\<rparr>) db, tr))"

text \<open>\<open>collate\<close> is the sort key of the database's collation.\<close>

definition due_repos :: "(string \<Rightarrow> string) \<Rightarrow> timestamp \<Rightarrow> nat \<Rightarrow> repo_db \<Rightarrow> (string \<times> string) list" where
  "due_repos collate now limit db =
     map (\<lambda>r. (rr_name r, rr_path r))
       (take limit (sort_key (\<lambda>r. gc_next_status_at (rr_git r)) (sort_key (collate \<circ> rr_name)
         (filter (\<lambda>r. rr_exists r \<and> gc_next_status_at (rr_git r) \<le> now) (rd_rows db)))))"

text \<open>\<open>Es\<close> gives each refreshed checkout its clock and failures.\<close>

definition reconcile_due_repos ::
    "(string \<Rightarrow> string) \<Rightarrow> (string \<Rightarrow> reconcile_env) \<Rightarrow> timestamp \<Rightarrow> nat \<Rightarrow> repo_db \<times> git_call list \<Rightarrow>
     nat \<times> repo_db \<times> git_call list" where
  "reconcile_due_repos collate Es now limit s =
     (let due = due_repos collate now limit (fst s)
      in (length due, foldl (\<lambda>s np. reconcile_repo (Es (fst np)) np s) s due))"

section \<open>Discovery\<close>

text \<open>
  A directory entry: its name, its path, and whether it is a directory (\<open>None\<close> if that
  cannot be told). \<open>None\<close> for the whole is a directory that cannot be read.
\<close>

definition discover_repo_dirs ::
    "bool \<Rightarrow> (string \<times> string \<times> bool option) list option \<Rightarrow> (string, (string \<times> string) list) result" where
  "discover_repo_dirs root_exists entries =
     (if \<not> root_exists then Inr []
      else case entries of
        None \<Rightarrow> Inl ''read_dir''
      | Some es \<Rightarrow> Inr (sort_key fst (map (\<lambda>(n, p, _). (n, p))
          (filter (\<lambda>(n, p, d). d = Some True \<and> \<not> starts_with n ''.'') es))))"

definition upsert_repo_row ::
    "timestamp \<Rightarrow> (timestamp \<Rightarrow> timestamp) \<Rightarrow> repo_row list \<Rightarrow> string \<times> string \<Rightarrow> repo_row list" where
  "upsert_repo_row now next rows np =
     (if fst np \<in> rr_name ` set rows then
        map (\<lambda>r. if rr_name r = fst np
               then r\<lparr>rr_path := snd np, rr_exists := True,
                      rr_git := (rr_git r)\<lparr>gc_next_status_at := next (gc_next_status_at (rr_git r)),
                                        gc_updated_at := now\<rparr>\<rparr> else r) rows
      else rows @ [\<lparr>rr_name = fst np, rr_path = snd np, rr_exists = True, rr_branch = None,
                    rr_git = new_git_columns now\<rparr>])"

definition sync_repos_once ::
    "timestamp \<Rightarrow> bool \<Rightarrow> (string, (string \<times> string) list) result \<Rightarrow> repo_db \<Rightarrow>
     (string, unit) result \<times> repo_db" where
  "sync_repos_once now tx_fails found db =
     (case found of
        Inl e \<Rightarrow> (Inl e, db)
      | Inr repos \<Rightarrow>
          if tx_fails then (Inl ''repo state sync'', db)
          else (Inr (), db\<lparr>rd_rows := foldl (upsert_repo_row now (\<lambda>t. min t now))
                 (map (\<lambda>r. r\<lparr>rr_exists := False, rr_git := (rr_git r)\<lparr>gc_updated_at := now\<rparr>\<rparr>) (rd_rows db))
                 repos\<rparr>))"

definition upsert_repo :: "timestamp \<Rightarrow> string \<Rightarrow> string \<Rightarrow> repo_db \<Rightarrow> repo_db" where
  "upsert_repo now name path db = db\<lparr>rd_rows := upsert_repo_row now (\<lambda>_. now) (rd_rows db) (name, path)\<rparr>"

definition request_repo_refresh :: "timestamp \<Rightarrow> string \<Rightarrow> repo_db \<Rightarrow> repo_db" where
  "request_repo_refresh now name db =
     db\<lparr>rd_rows := map (\<lambda>r. if rr_name r = name \<and> rr_exists r
          then r\<lparr>rr_git := (rr_git r)\<lparr>gc_next_status_at := now, gc_updated_at := now\<rparr>\<rparr> else r) (rd_rows db)\<rparr>"

section \<open>Reading the cache\<close>

record dirty_paths =
  dp_git_revision :: int
  dp_dirty :: "(string \<times> string) list"
  dp_diff_stats :: "(string \<times> diff_stat) list"

definition dirty_paths_of :: "'k \<Rightarrow> int \<Rightarrow> 'k dirty_row list \<Rightarrow> dirty_paths" where
  "dirty_paths_of k revision rows =
     (let rs = sort_key dr_path (filter (\<lambda>r. dr_owner r = k) rows)
      in \<lparr>dp_git_revision = revision,
          dp_dirty = foldl (\<lambda>m r. AList.update (dr_path r) (dr_status r) m) [] rs,
          dp_diff_stats = foldl (\<lambda>m r. case (dr_additions r, dr_deletions r) of
               (Some a, Some d) \<Rightarrow> AList.update (dr_path r)
                  \<lparr>dstat_additions = nat (max a 0), dstat_deletions = nat (max d 0)\<rparr> m
             | _ \<Rightarrow> m) [] rs\<rparr>)"

definition load_dirty_paths :: "repo_db \<Rightarrow> string \<Rightarrow> (string, dirty_paths) result" where
  "load_dirty_paths db name =
     (case find (\<lambda>r. rr_name r = name \<and> rr_exists r) (rd_rows db) of
        None \<Rightarrow> Inl ''load git revision''
      | Some r \<Rightarrow> Inr (dirty_paths_of name (gc_revision (rr_git r)) (rd_dirty db)))"

record git_summary =
  gy_revision :: int
  gy_branch :: "string option"
  gy_uncommitted :: int
  gy_untracked :: int
  gy_last_commit :: "commit option"
  gy_recent_commits :: "commit list"
  gy_refreshing :: bool
  gy_status_error :: "string option"

text \<open>The derived deserialiser takes an object or an array with the fields in order.\<close>

fun commit_of_json :: "json \<Rightarrow> commit option" where
  "commit_of_json (JObj m) =
     (case (map_str m ''sha'', map_str m ''subject'', map_str m ''committed_at'') of
        (Some s, Some t, Some c) \<Rightarrow> Some \<lparr>cm_sha = s, cm_subject = t, cm_committed_at = c\<rparr>
      | _ \<Rightarrow> None)"
| "commit_of_json (JArr [JStr s, JStr t, JStr c]) =
     Some \<lparr>cm_sha = s, cm_subject = t, cm_committed_at = c\<rparr>"
| "commit_of_json _ = None"

definition commits_of_json :: "json \<Rightarrow> commit list option" where
  "commits_of_json v =
     Option.bind (as_array v) (\<lambda>vs.
       if list_all (\<lambda>x. commit_of_json x \<noteq> None) vs then Some (List.map_filter commit_of_json vs) else None)"

definition is_refreshing :: "git_columns \<Rightarrow> bool" where
  "is_refreshing g =
     (case (gc_started_at g, gc_finished_at g) of
        (Some started, Some finished) \<Rightarrow> started > finished | (Some _, None) \<Rightarrow> True | _ \<Rightarrow> False)"

definition shown_last_commit :: "(timestamp \<Rightarrow> string) \<Rightarrow> git_columns \<Rightarrow> commit list \<Rightarrow> commit option" where
  "shown_last_commit show_time g recent =
     (case (gc_head_sha g, gc_head_subject g, gc_head_committed_at g) of
        (Some s, Some t, Some c) \<Rightarrow> Some \<lparr>cm_sha = s, cm_subject = t, cm_committed_at = show_time c\<rparr>
      | _ \<Rightarrow> (case recent of [] \<Rightarrow> None | c # _ \<Rightarrow> Some c))"

definition repo_git_summary ::
    "(timestamp \<Rightarrow> string) \<Rightarrow> repo_row \<Rightarrow> (string, git_summary) result" where
  "repo_git_summary show_time r =
     (case commits_of_json (gc_recent_commits (rr_git r)) of
        None \<Rightarrow> Inl ''deserialize repo recent commits''
      | Some recent \<Rightarrow>
          let g = rr_git r; l = shown_last_commit show_time g recent
          in Inr \<lparr>gy_revision = gc_revision g, gy_branch = rr_branch r, gy_uncommitted = gc_dirty_count g,
                  gy_untracked = gc_untracked_count g, gy_last_commit = l,
                  gy_recent_commits = (if recent = [] then (case l of None \<Rightarrow> [] | Some c \<Rightarrow> [c]) else recent),
                  gy_refreshing = is_refreshing g, gy_status_error = gc_status_error g\<rparr>)"

end
