(* ===== verification/Repo_Safety.thy ===== *)
theory Repo_Safety
  imports Repo_State
begin

text \<open>
  What the cached state of a checkout says: it is what git said at the last refresh, and its
  revision moves exactly when that changed.
\<close>

section \<open>The fingerprint determines the status\<close>

text \<open>Texts that cannot be taken for a separator of the fingerprint.\<close>

definition clean_status :: "git_status \<Rightarrow> bool" where
  "clean_status st \<longleftrightarrow>
     CHR 0x0A \<notin> set (unwrap_or [] (gs_branch st)) \<and> gs_branch st \<noteq> Some []
     \<and> (case gs_last_commit st of None \<Rightarrow> True | Some c \<Rightarrow> CHR 0x0A \<notin> set (cm_sha c))
     \<and> distinct (map fst (gs_dirty st))
     \<and> (\<forall>(path, code) \<in> set (gs_dirty st). CHR 0x0A \<notin> set path \<and> CHR 0x0A \<notin> set code \<and> CHR '':'' \<notin> set code)"

lemma digits_clean: "CHR '':'' \<notin> set (show_nat n)" "CHR 0x0A \<notin> set (show_nat n)"
  using show_nat_digits [of "CHR '':''" n] show_nat_digits [of "CHR 0x0A" n] by (auto simp: ascii_digit_def)

lemma dirty_line_clean:
  "clean_status st \<Longrightarrow> pc \<in> set (gs_dirty st) \<Longrightarrow> CHR 0x0A \<notin> set (dirty_line st pc)"
  by (auto simp: dirty_line_def clean_status_def digits_clean)

lemma dirty_line_inj:
  assumes "CHR '':'' \<notin> set (snd p)" and "CHR '':'' \<notin> set (snd q)"
    and "dirty_line st p = dirty_line st' q"
  shows "p = q \<and> stat_of st (fst p) = stat_of st' (fst q)"
proof -
  have split: "dirty_line s pc = ((fst pc @ CHR '':'' # snd pc) @ CHR '':'' # show_nat (fst (stat_of s (fst pc))))
      @ CHR '':'' # show_nat (snd (stat_of s (fst pc)))" for s pc
    by (simp add: dirty_line_def)
  from assms(3) have a: "(fst p @ CHR '':'' # snd p) @ CHR '':'' # show_nat (fst (stat_of st (fst p)))
      = (fst q @ CHR '':'' # snd q) @ CHR '':'' # show_nat (fst (stat_of st' (fst q)))"
    and d: "snd (stat_of st (fst p)) = snd (stat_of st' (fst q))"
    unfolding split last_field_split [OF digits_clean(1) digits_clean(1)] by (simp_all add: show_nat_inj)
  from a have b: "fst p @ CHR '':'' # snd p = fst q @ CHR '':'' # snd q"
    and e: "fst (stat_of st (fst p)) = fst (stat_of st' (fst q))"
    unfolding last_field_split [OF digits_clean(1) digits_clean(1)] by (simp_all add: show_nat_inj)
  from b show ?thesis
    unfolding last_field_split [OF assms(1,2)] using d e by (simp add: prod_eq_iff)
qed

definition head_of :: "git_status \<Rightarrow> string" where
  "head_of st = (case gs_last_commit st of None \<Rightarrow> [] | Some c \<Rightarrow> cm_sha c)"

text \<open>What the sidebar shows of a status.\<close>

definition shown_dirty :: "git_status \<Rightarrow> (string \<times> string \<times> nat \<times> nat) set" where
  "shown_dirty st = (\<lambda>(p, c). (p, c, stat_of st p)) ` set (gs_dirty st)"

lemma map_line_inj:
  assumes "map (dirty_line st) ps = map (dirty_line st') qs"
    and "\<forall>p \<in> set ps. CHR '':'' \<notin> set (snd p)" and "\<forall>q \<in> set qs. CHR '':'' \<notin> set (snd q)"
  shows "map (\<lambda>(p, c). (p, c, stat_of st p)) ps = map (\<lambda>(p, c). (p, c, stat_of st' p)) qs"
  using assms
proof (induction ps arbitrary: qs)
  case (Cons p ps)
  then obtain q qs' where qs: "qs = q # qs'" by (cases qs) auto
  have "p = q \<and> stat_of st (fst p) = stat_of st' (fst q)"
    by (rule dirty_line_inj) (use Cons.prems qs in auto)
  moreover have "map (\<lambda>(p, c). (p, c, stat_of st p)) ps = map (\<lambda>(p, c). (p, c, stat_of st' p)) qs'"
    by (rule Cons.IH) (use Cons.prems qs in auto)
  ultimately have "p = q" "stat_of st (fst q) = stat_of st' (fst q)"
    "map (\<lambda>(p, c). (p, c, stat_of st p)) ps = map (\<lambda>(p, c). (p, c, stat_of st' p)) qs'"
    by metis+
  then show ?case by (cases q) (simp add: qs)
qed simp

lemma fingerprint_inj:
  assumes c: "clean_status st" "clean_status st'" and f: "status_fingerprint st = status_fingerprint st'"
  shows "gs_branch st = gs_branch st' \<and> head_of st = head_of st' \<and> shown_dirty st = shown_dirty st'"
proof -
  have clean: "CHR 0x0A \<notin> set p" if "clean_status s" "p \<in> set (fingerprint_parts s)" for s p
    using that dirty_line_clean [OF that(1)]
    by (auto simp: fingerprint_parts_def clean_status_def split: option.splits)
  have "fingerprint_parts st = split_char (CHR 0x0A) (status_fingerprint st)"
    "fingerprint_parts st' = split_char (CHR 0x0A) (status_fingerprint st')"
    unfolding status_fingerprint_def
    by (rule split_join [symmetric]; use clean c in \<open>simp add: fingerprint_parts_def\<close>)+
  with f have parts: "fingerprint_parts st = fingerprint_parts st'" by simp
  then have lines: "map (dirty_line st) (sort_key fst (gs_dirty st))
      = map (dirty_line st') (sort_key fst (gs_dirty st'))"
    and b: "unwrap_or [] (gs_branch st) = unwrap_or [] (gs_branch st')" and h: "head_of st = head_of st'"
    by (simp_all add: fingerprint_parts_def head_of_def)
  have colon: "\<forall>p \<in> set (gs_dirty s). CHR '':'' \<notin> set (snd p)" if "clean_status s" for s
    using that by (fastforce simp: clean_status_def)
  from map_line_inj [OF lines] colon [OF c(1)] colon [OF c(2)] have "map (\<lambda>(p, c). (p, c, stat_of st p)) (sort_key fst (gs_dirty st))
      = map (\<lambda>(p, c). (p, c, stat_of st' p)) (sort_key fst (gs_dirty st'))"
    by simp
  then have "set (map (\<lambda>(p, c). (p, c, stat_of st p)) (sort_key fst (gs_dirty st)))
      = set (map (\<lambda>(p, c). (p, c, stat_of st' p)) (sort_key fst (gs_dirty st')))"
    by (rule arg_cong)
  then have "shown_dirty st = shown_dirty st'" by (simp add: shown_dirty_def)
  moreover have "gs_branch st = gs_branch st'"
    using b c by (cases "gs_branch st"; cases "gs_branch st'") (auto simp: clean_status_def)
  ultimately show ?thesis using h by simp
qed


lemma fingerprint_same:
  assumes c: "clean_status st" "clean_status st'"
    and s: "gs_branch st = gs_branch st'" "head_of st = head_of st'" "shown_dirty st = shown_dirty st'"
  shows "status_fingerprint st = status_fingerprint st'"
proof -
  let ?g = "\<lambda>st (p, c). (p, c, stat_of st p)"
  let ?line = "\<lambda>(p, c, a, d). p @ '':'' @ c @ '':'' @ show_nat a @ '':'' @ show_nat d"
  have line: "map (dirty_line s) (sort_key fst (gs_dirty s)) = map ?line (sort_key fst (map (?g s) (gs_dirty s)))" for s
  proof -
    have "fst \<circ> ?g s = fst" by (auto simp: fun_eq_iff)
    have "sort_key fst (map (?g s) xs) = map (?g s) (sort_key fst xs)" for xs
    proof (induction xs)
      case (Cons x xs)
      have "insort_key fst (?g s x) (map (?g s) ys) = map (?g s) (insort_key fst x ys)" for ys
        by (induction ys) (auto split: prod.splits)
      with Cons show ?case by simp
    qed simp
    then have "sort_key fst (map (?g s) (gs_dirty s)) = map (?g s) (sort_key fst (gs_dirty s))" .
    moreover have "dirty_line s pc = ?line (?g s pc)" for pc
      by (simp add: dirty_line_def split_beta)
    ultimately show ?thesis by (simp only: map_map) (rule map_cong; simp)
  qed
  have d: "distinct (map fst (map (?g s) (gs_dirty s)))" if "clean_status s" for s
  proof -
    have "map fst (map (?g s) (gs_dirty s)) = map fst (gs_dirty s)" by (simp add: split_beta)
    with that show ?thesis by (simp only: clean_status_def)
  qed
  have dd: "distinct (map (?g s) (gs_dirty s))" if "clean_status s" for s
    using d [OF that] unfolding distinct_map [of fst] by (rule conjunct1)
  have "set (map (?g st) (gs_dirty st)) = set (map (?g st') (gs_dirty st'))"
    using s(3) by (simp add: shown_dirty_def)
  then have m: "mset (map (?g st) (gs_dirty st)) = mset (map (?g st') (gs_dirty st'))"
    using set_eq_iff_mset_eq_distinct [OF dd [OF c(1)] dd [OF c(2)]] by (simp only:)
  have "inj_on fst (set (map (?g st) (gs_dirty st)))"
    using d [OF c(1)] unfolding distinct_map [of fst] by (rule conjunct2)
  with m have "sort_key fst (map (?g st) (gs_dirty st)) = sort_key fst (map (?g st') (gs_dirty st'))"
    by (intro sort_key_inj_key_eq) (simp_all only: mset_sort sorted_sort_key)
  with s(1,2) show ?thesis
    by (simp only: status_fingerprint_def fingerprint_parts_def line head_of_def)
qed

section \<open>Reading back what was stored\<close>

lemma update_fold_lookup:
  assumes "distinct (map k rs)"
  shows "map_of (foldl (\<lambda>m r. AList.update (k r) (v r) m) al rs) x
    = (case find (\<lambda>r. k r = x) rs of Some r \<Rightarrow> Some (v r) | None \<Rightarrow> map_of al x)"
  using assms
proof (induction rs arbitrary: al)
  case (Cons r rs)
  then have "find (\<lambda>r'. k r' = k r) rs = None" by (simp add: find_None_iff) (metis imageI)
  with Cons show ?case by (auto simp: update_conv' split: option.split)
qed simp

lemma owner_rows:
  "filter (\<lambda>r. dr_owner r = k) (replace_dirty k st rows) = map (dirty_row_of k st) (gs_dirty st)"
  by (simp add: replace_dirty_def filter_empty_conv dirty_row_of_def Let_def)

lemma other_rows:
  "k' \<noteq> k \<Longrightarrow> filter (\<lambda>r. dr_owner r = k') (replace_dirty k st rows) = filter (\<lambda>r. dr_owner r = k') rows"
  by (auto simp: replace_dirty_def filter_empty_conv dirty_row_of_def Let_def intro: filter_cong)

lemma find_distinct:
  assumes "distinct (map k xs)" and "x \<in> set xs"
  shows "find (\<lambda>r. k r = k x) xs = Some x"
proof (cases "find (\<lambda>r. k r = k x) xs")
  case None
  with assms(2) show ?thesis by (auto simp: find_None_iff)
next
  case (Some y)
  then have "y \<in> set xs" "k y = k x" by (auto simp: find_Some_iff)
  with assms Some show ?thesis by (auto simp: distinct_map inj_on_def)
qed

lemma stored_row_found:
  fixes k st
  defines "rs \<equiv> sort_key dr_path (map (dirty_row_of k st) (gs_dirty st))"
  assumes "distinct (map fst (gs_dirty st))"
  shows "distinct (map dr_path rs)"
    and "find (\<lambda>r. dr_path r = x) rs = map_option (\<lambda>c. dirty_row_of k st (x, c)) (map_of (gs_dirty st) x)"
proof -
  have f: "dr_path (dirty_row_of k st pc) = fst pc" "dr_status (dirty_row_of k st pc) = snd pc" for pc
    by (simp_all add: dirty_row_of_def Let_def)
  have "map dr_path (map (dirty_row_of k st) (gs_dirty st)) = map fst (gs_dirty st)" by (simp add: f)
  with assms(2) have "distinct (map dr_path (map (dirty_row_of k st) (gs_dirty st)))" by (simp only:)
  then show d: "distinct (map dr_path rs)"
    unfolding distinct_map [of dr_path] rs_def by simp
  show "find (\<lambda>r. dr_path r = x) rs = map_option (\<lambda>c. dirty_row_of k st (x, c)) (map_of (gs_dirty st) x)"
  proof (cases "map_of (gs_dirty st) x")
    case None
    then have "\<forall>r \<in> set rs. dr_path r \<noteq> x" by (auto simp: rs_def map_of_eq_None_iff f)
    with None show ?thesis by (simp add: find_None_iff)
  next
    case (Some c)
    then have "(x, c) \<in> set (gs_dirty st)" by (rule map_of_SomeD)
    then have "dirty_row_of k st (x, c) \<in> set rs" by (simp add: rs_def)
    from find_distinct [OF d this] Some show ?thesis by (simp add: f)
  qed
qed

lemma stored_dirty:
  assumes "distinct (map fst (gs_dirty st))"
  shows "map_of (dp_dirty (dirty_paths_of k n (replace_dirty k st rows))) = map_of (gs_dirty st)"
proof
  fix x
  have f: "dr_status (dirty_row_of k st pc) = snd pc" for pc by (simp add: dirty_row_of_def Let_def)
  show "map_of (dp_dirty (dirty_paths_of k n (replace_dirty k st rows))) x = map_of (gs_dirty st) x"
    using update_fold_lookup [OF stored_row_found(1) [OF assms, of k], of dr_status "[]" x] stored_row_found(2) [OF assms, of x k]
    by (cases "map_of (gs_dirty st) x") (simp_all add: dirty_paths_of_def owner_rows Let_def f)
qed

lemma update_some_lookup:
  assumes "distinct (map k rs)"
  shows "map_of (foldl (\<lambda>m r. case v r of Some y \<Rightarrow> AList.update (k r) y m | None \<Rightarrow> m) al rs) x
    = (case find (\<lambda>r. k r = x) rs of Some r \<Rightarrow> (case v r of Some y \<Rightarrow> Some y | None \<Rightarrow> map_of al x) | None \<Rightarrow> map_of al x)"
  using assms
proof (induction rs arbitrary: al)
  case (Cons r rs)
  then have "find (\<lambda>r'. k r' = k r) rs = None" by (simp add: find_None_iff) (metis imageI)
  with Cons show ?case by (auto simp: update_conv' split: option.split)
qed simp

text \<open>The counts of lines, as a column of 32 bits keeps them.\<close>

definition stored_stat :: "diff_stat \<Rightarrow> diff_stat" where
  "stored_stat d = \<lparr>dstat_additions = nat (max (as_i32 (dstat_additions d)) 0),
     dstat_deletions = nat (max (as_i32 (dstat_deletions d)) 0)\<rparr>"

lemma stored_stats:
  fixes k :: 'k
  assumes "distinct (map fst (gs_dirty st))"
  shows "map_of (dp_diff_stats (dirty_paths_of k n (replace_dirty k st rows))) x
     = (if map_of (gs_dirty st) x = None then None else map_option stored_stat (map_of (gs_diff_stats st) x))"
proof -
  define v where "v r = (case (dr_additions r, dr_deletions r) of
      (Some a, Some d) \<Rightarrow> Some \<lparr>dstat_additions = nat (max a 0), dstat_deletions = nat (max d 0)\<rparr> | _ \<Rightarrow> None)"
    for r :: "'k dirty_row"
  have step: "(\<lambda>m r. case (dr_additions r, dr_deletions r) of
       (Some a, Some d) \<Rightarrow> AList.update (dr_path r) \<lparr>dstat_additions = nat (max a 0), dstat_deletions = nat (max d 0)\<rparr> m
     | _ \<Rightarrow> m) = (\<lambda>m r. case v r of Some y \<Rightarrow> AList.update (dr_path r) y m | None \<Rightarrow> m)"
    by (auto simp: fun_eq_iff v_def split: option.split)
  have row: "v (dirty_row_of k st (x, c)) = map_option stored_stat (map_of (gs_diff_stats st) x)" for c
    by (cases "map_of (gs_diff_stats st) x") (simp_all add: v_def dirty_row_of_def Let_def stored_stat_def)
  show ?thesis
    unfolding dirty_paths_of_def owner_rows Let_def dirty_paths.simps step
      update_some_lookup [OF stored_row_found(1) [OF assms]] stored_row_found(2) [OF assms]
    using row by (cases "map_of (gs_dirty st) x"; cases "map_of (gs_diff_stats st) x") simp_all
qed

section \<open>What the cache says\<close>

lemma commits_read_back: "commits_of_json (JArr (map commit_json cs)) = Some cs"
proof -
  have c: "commit_of_json (commit_json c) = Some c" for c
    by (simp add: commit_json_def map_str_def)
  then have "List.map_filter commit_of_json (map commit_json cs) = cs"
    by (induction cs) (simp_all add: List.map_filter_simps)
  with c show ?thesis by (simp add: commits_of_json_def list_all_iff)
qed

text \<open>The last commit is the first of the recent ones.\<close>

definition commits_agree :: "git_status \<Rightarrow> bool" where
  "commits_agree st \<longleftrightarrow> gs_last_commit st = (case gs_recent_commits st of [] \<Rightarrow> None | c # cs \<Rightarrow> Some c)"

lemma parsed_commits:
  "gs_last_commit (parse_records H rs st) = gs_last_commit st"
  "gs_recent_commits (parse_records H rs st) = gs_recent_commits st"
  by (induction H rs st rule: parse_records.induct) (simp_all add: add_dirty_def)

lemma read_commits_agree:
  assumes "read_status H path tr = (Inr st, tr')"
  shows "commits_agree st"
proof (cases "is_git_repo H tr path")
  case False
  with assms show ?thesis by (auto simp: read_status_def commits_agree_def empty_status_def)
next
  case True
  with assms obtain log st0 tr1 tr2 stats porcelain branch where log: "read_log H path 4 tr1 = (Inr log, tr2)"
    and st0: "st0 = parse_porcelain H porcelain (empty_status\<lparr>gs_branch := branch\<rparr>)"
    and st: "st = (case log of None \<Rightarrow> st0\<lparr>gs_diff_stats := stats\<rparr>
        | Some (c, recent) \<Rightarrow> st0\<lparr>gs_diff_stats := stats, gs_last_commit := Some c, gs_recent_commits := recent\<rparr>)"
    by (auto simp: read_status_def op_then_Inr Let_def)
  have "log = None \<or> (\<exists>c cs. log = Some (c, take 3 (c # cs)))"
  proof -
    obtain out where "log = (case parse_log out of [] \<Rightarrow> None | c # cs \<Rightarrow> Some (c, take 3 (c # cs)))"
      using log by (auto simp only: read_log_def op_then_Inr op_return_def prod.inject sum.inject)
    then show ?thesis by (cases "parse_log out") auto
  qed
  moreover have "gs_last_commit st0 = None" "gs_recent_commits st0 = []"
    by (simp_all add: st0 parse_porcelain_def parsed_commits empty_status_def)
  ultimately show ?thesis using st by (auto simp: commits_agree_def)
qed

text \<open>
  Reading the cache gives the branch, the counts, the commits, the dirty paths with their codes
  and the line counts of a status, the counts as 32 bits keep them and a date that can be parsed
  in the form \<open>show_time\<close> prints it.
\<close>

definition cache_says ::
    "(string \<Rightarrow> timestamp option) \<Rightarrow> (timestamp \<Rightarrow> string) \<Rightarrow> git_status \<Rightarrow> repo_db \<Rightarrow> string \<Rightarrow> bool" where
  "cache_says time_parse show_time st db name \<longleftrightarrow>
     (\<exists>p r y. load_dirty_paths db name = Inr p
        \<and> find (\<lambda>r. rr_name r = name \<and> rr_exists r) (rd_rows db) = Some r \<and> repo_git_summary show_time r = Inr y
        \<and> map_of (dp_dirty p) = map_of (gs_dirty st)
        \<and> (\<forall>x. map_of (dp_diff_stats p) x
              = (if map_of (gs_dirty st) x = None then None else map_option stored_stat (map_of (gs_diff_stats st) x)))
        \<and> gy_revision y = dp_git_revision p \<and> gy_branch y = gs_branch st
        \<and> gy_uncommitted y = as_i32 (gs_uncommitted st) \<and> gy_untracked y = as_i32 (gs_untracked st)
        \<and> gy_last_commit y = map_option (\<lambda>c. c\<lparr>cm_committed_at :=
              case time_parse (cm_committed_at c) of None \<Rightarrow> cm_committed_at c | Some t \<Rightarrow> show_time t\<rparr>) (gs_last_commit st)
        \<and> gy_recent_commits y = gs_recent_commits st \<and> gy_status_error y = None)"

lemma stored_summary:
  assumes "commits_agree st"
    and "rr_branch r = gs_branch st" and "rr_git r = store_columns E cadence st g"
  shows "\<exists>y. repo_git_summary show_time r = Inr y \<and> gy_revision y = gc_revision (rr_git r) \<and> gy_branch y = gs_branch st
    \<and> gy_uncommitted y = as_i32 (gs_uncommitted st) \<and> gy_untracked y = as_i32 (gs_untracked st)
    \<and> gy_last_commit y = map_option (\<lambda>c. c\<lparr>cm_committed_at :=
          case rc_time_parse E (cm_committed_at c) of None \<Rightarrow> cm_committed_at c | Some t \<Rightarrow> show_time t\<rparr>) (gs_last_commit st)
    \<and> gy_recent_commits y = gs_recent_commits st \<and> gy_status_error y = None"
proof (cases "gs_recent_commits st")
  case Nil
  then show ?thesis using assms commits_read_back [of "[]"]
    by (simp add: repo_git_summary_def store_columns_def shown_last_commit_def commits_agree_def Let_def)
next
  case (Cons c cs)
  then show ?thesis using assms commits_read_back [of "c # cs"]
    by (auto simp: repo_git_summary_def store_columns_def shown_last_commit_def commits_agree_def Let_def
        split: option.splits)
qed


section \<open>Revisions\<close>

lemma find_map_same:
  "(\<And>x. P (f x) \<longleftrightarrow> P x) \<Longrightarrow> find P (map f xs) = map_option f (find P xs)"
  by (induction xs) auto

lemma stored_columns:
  "gc_fingerprint (store_columns E n st g) = status_fingerprint st"
  "gc_revision (store_columns E n st g)
     = (if gc_fingerprint g \<noteq> status_fingerprint st then gc_revision g + 1 else gc_revision g)"
  "gc_revision (mark_started E g) = gc_revision g" "gc_fingerprint (mark_started E g) = gc_fingerprint g"
  by (simp_all add: store_columns_def mark_started_def)

lemma reconciled_repo:
  assumes "reconcile_repo_inner E db name path tr = (Inr (), db', tr')"
  obtains st where "read_status (rc_host E) path tr = (Inr st, tr')"
    "db' = store_repo_status E name st (update_repo name (\<lambda>r. r\<lparr>rr_git := mark_started E (rr_git r)\<rparr>) db)"
  using assms by (auto simp: reconcile_repo_inner_def Let_def split: if_splits prod.splits sum.splits)

lemma stored_repo_row:
  "find (\<lambda>r. rr_name r = name \<and> rr_exists r) (rd_rows (store_repo_status E name st
      (update_repo name (\<lambda>r. r\<lparr>rr_git := mark_started E (rr_git r)\<rparr>) db)))
   = map_option (\<lambda>r. r\<lparr>rr_branch := gs_branch st, rr_git := store_columns E REPO_STATUS_CADENCE_SECS st
         (mark_started E (rr_git r))\<rparr>)
       (find (\<lambda>r. rr_name r = name \<and> rr_exists r) (rd_rows db))"
proof -
  let ?P = "\<lambda>r. rr_name r = name \<and> rr_exists r"
  let ?f = "\<lambda>r. if rr_name r = name then r\<lparr>rr_branch := gs_branch st, rr_git := store_columns E
      REPO_STATUS_CADENCE_SECS st (mark_started E (rr_git r))\<rparr> else r"
  have rows: "rd_rows (store_repo_status E name st
      (update_repo name (\<lambda>r. r\<lparr>rr_git := mark_started E (rr_git r)\<rparr>) db)) = map ?f (rd_rows db)"
    by (auto simp: store_repo_status_def update_repo_def)
  have keep: "?P (?f r) \<longleftrightarrow> ?P r" for r by auto
  have "find ?P (rd_rows (store_repo_status E name st
      (update_repo name (\<lambda>r. r\<lparr>rr_git := mark_started E (rr_git r)\<rparr>) db))) = map_option ?f (find ?P (rd_rows db))"
    unfolding rows by (rule find_map_same [of ?P ?f, OF keep])
  moreover have "?f r = r\<lparr>rr_branch := gs_branch st, rr_git := store_columns E REPO_STATUS_CADENCE_SECS st
      (mark_started E (rr_git r))\<rparr>" if "find ?P (rd_rows db) = Some r" for r
  proof -
    have "rr_name r = name" using that unfolding find_Some_iff by blast
    then show ?thesis by simp
  qed
  ultimately show ?thesis by (cases "find ?P (rd_rows db)") (simp_all only: option.map refl)
qed

text \<open>A checkout in which a new file appears between two refreshes.\<close>

definition sample_git :: git_host where
  "sample_git = \<lparr>gh_run = (\<lambda>tr (path, args).
       if args = [''branch'', ''--show-current''] then Exited True ''main'' []
       else if args = [''status'', ''--porcelain=v1'', ''-z''] then
         Exited True (if length tr < 4 then [] else ''?? a'' @ [CHR 0x00]) []
       else Exited True [] []),
     gh_exists = (\<lambda>_ _. True), gh_is_dir = (\<lambda>_ _. True), gh_read_text = (\<lambda>_ _. Some ''x''),
     gh_lossy = (\<lambda>s. s), gh_order = (\<lambda>xs. xs)\<rparr>"

definition sample_refresh :: reconcile_env where
  "sample_refresh = \<lparr>rc_host = sample_git, rc_started = 0, rc_finished = 1, rc_time_parse = (\<lambda>_. None),
     rc_start_fails = False, rc_tx_fails = False, rc_error_fails = False\<rparr>"

definition sample_repo_db :: repo_db where
  "sample_repo_db = \<lparr>rd_rows = [\<lparr>rr_name = ''r'', rr_path = ''/r'', rr_exists = True, rr_branch = None,
     rr_git = new_git_columns 0\<rparr>], rd_dirty = []\<rparr>"

lemma sample_statuses:
  "case read_status sample_git ''/r'' [] of
     (Inr st1, tr1) \<Rightarrow> clean_status st1 \<and> length tr1 = 4 \<and> gs_dirty st1 = []
       \<and> (case reconcile_repo_inner sample_refresh sample_repo_db ''r'' ''/r'' [] of
            (Inr _, db1, t1) \<Rightarrow> t1 = tr1
              \<and> (case read_status sample_git ''/r'' tr1 of
                   (Inr st2, tr2) \<Rightarrow> clean_status st2 \<and> gs_dirty st2 = [(''a'', ''??'')]
                     \<and> (case reconcile_repo_inner sample_refresh db1 ''r'' ''/r'' tr1 of
                          (Inr _, db2, t2) \<Rightarrow> t2 = tr2 | _ \<Rightarrow> False)
                 | _ \<Rightarrow> False)
          | _ \<Rightarrow> False)
   | _ \<Rightarrow> False"
  by code_simp

text \<open>
  C18. The cached state of a checkout is what git said at its last successful refresh: the branch, the
  numbers of uncommitted and untracked entries, the last and the recent commits, and each dirty path with
  its code and line counts. And the revision clients poll moves by one exactly when between two refreshes
  the branch, the head commit, or the code or line counts of a dirty path changed. Both for statuses
  whose branch, head and paths hold no line break, whose codes hold neither line break nor colon and whose
  paths differ; what holds a separator could be taken for another status.
\<close>

theorem revision_tracks_status:
  assumes "find (\<lambda>r. rr_name r = name \<and> rr_exists r) (rd_rows db) = Some r0"
    and "read_status (rc_host E1) path tr = (Inr st1, tr1)" and "clean_status st1"
    and "reconcile_repo_inner E1 db name path tr = (Inr (), db1, tr1)"
    and "read_status (rc_host E2) path tr' = (Inr st2, tr2)" and "clean_status st2"
    and "reconcile_repo_inner E2 db1 name path tr' = (Inr (), db2, tr2)"
  shows "cache_says (rc_time_parse E1) show_time st1 db1 name \<and> cache_says (rc_time_parse E2) show_time st2 db2 name
    \<and> (\<exists>p1 p2. load_dirty_paths db1 name = Inr p1 \<and> load_dirty_paths db2 name = Inr p2
    \<and> dp_git_revision p2 = (if gs_branch st1 = gs_branch st2 \<and> head_of st1 = head_of st2
          \<and> shown_dirty st1 = shown_dirty st2 then dp_git_revision p1 else dp_git_revision p1 + 1))"
proof -
  let ?P = "\<lambda>r. rr_name r = name \<and> rr_exists r"
  have db1: "db1 = store_repo_status E1 name st1
      (update_repo name (\<lambda>r. r\<lparr>rr_git := mark_started E1 (rr_git r)\<rparr>) db)"
    using reconciled_repo [OF assms(4)] assms(2) by auto
  have db2: "db2 = store_repo_status E2 name st2
      (update_repo name (\<lambda>r. r\<lparr>rr_git := mark_started E2 (rr_git r)\<rparr>) db1)"
    using reconciled_repo [OF assms(7)] assms(5) by auto
  let ?r1 = "r0\<lparr>rr_branch := gs_branch st1, rr_git := store_columns E1 REPO_STATUS_CADENCE_SECS st1
      (mark_started E1 (rr_git r0))\<rparr>"
  let ?r2 = "?r1\<lparr>rr_branch := gs_branch st2, rr_git := store_columns E2 REPO_STATUS_CADENCE_SECS st2
      (mark_started E2 (rr_git ?r1))\<rparr>"
  have f1: "find ?P (rd_rows db1) = Some ?r1" using assms(1) by (simp add: db1 stored_repo_row)
  have f2: "find ?P (rd_rows db2) = Some ?r2" unfolding db2 stored_repo_row f1 by simp
  have dirty: "\<exists>rows. rd_dirty db1 = replace_dirty name st1 rows"
    "\<exists>rows. rd_dirty db2 = replace_dirty name st2 rows"
    by (auto simp: db1 db2 store_repo_status_def update_repo_def)
  have same: "status_fingerprint st1 = status_fingerprint st2 \<longleftrightarrow> gs_branch st1 = gs_branch st2
      \<and> head_of st1 = head_of st2 \<and> shown_dirty st1 = shown_dirty st2"
    using fingerprint_inj [OF assms(3,6)] fingerprint_same [OF assms(3,6)] by blast
  have d: "distinct (map fst (gs_dirty st1))" "distinct (map fst (gs_dirty st2))"
    using assms(3,6) by (simp_all add: clean_status_def)
  define n1 where "n1 = gc_revision (rr_git ?r1)"
  define n2 where "n2 = gc_revision (rr_git ?r2)"
  have "n2 = (if status_fingerprint st1 = status_fingerprint st2 then n1 else n1 + 1)"
    unfolding n1_def n2_def by (simp add: stored_columns)
  then have revision: "n2 = (if gs_branch st1 = gs_branch st2 \<and> head_of st1 = head_of st2
      \<and> shown_dirty st1 = shown_dirty st2 then n1 else n1 + 1)" by (simp only: same)
  have out: "dp_git_revision (dirty_paths_of k n rows) = n" for k :: string and n rows
    by (simp add: dirty_paths_of_def Let_def)
  have l1: "load_dirty_paths db1 name = Inr (dirty_paths_of name n1 (rd_dirty db1))"
    by (simp only: load_dirty_paths_def f1 option.case n1_def)
  have l2: "load_dirty_paths db2 name = Inr (dirty_paths_of name n2 (rd_dirty db2))"
    by (simp only: load_dirty_paths_def f2 option.case n2_def)
  have "\<exists>p1 p2. load_dirty_paths db1 name = Inr p1 \<and> load_dirty_paths db2 name = Inr p2
    \<and> dp_git_revision p2 = (if gs_branch st1 = gs_branch st2 \<and> head_of st1 = head_of st2
          \<and> shown_dirty st1 = shown_dirty st2 then dp_git_revision p1 else dp_git_revision p1 + 1)"
    using l1 l2 revision
    by (intro exI [of _ "dirty_paths_of name n1 (rd_dirty db1)"]
        exI [of _ "dirty_paths_of name n2 (rd_dirty db2)"] conjI) (simp_all add: out)
  moreover have "cache_says (rc_time_parse E1) show_time st1 db1 name"
  proof -
    obtain rows where rows: "rd_dirty db1 = replace_dirty name st1 rows" using dirty(1) by blast
    obtain y where "repo_git_summary show_time ?r1 = Inr y" "gy_revision y = gc_revision (rr_git ?r1)"
      "gy_branch y = gs_branch st1 \<and> gy_uncommitted y = as_i32 (gs_uncommitted st1) \<and> gy_untracked y = as_i32 (gs_untracked st1)
       \<and> gy_last_commit y = map_option (\<lambda>c. c\<lparr>cm_committed_at :=
          case rc_time_parse E1 (cm_committed_at c) of None \<Rightarrow> cm_committed_at c | Some t \<Rightarrow> show_time t\<rparr>) (gs_last_commit st1)
       \<and> gy_recent_commits y = gs_recent_commits st1 \<and> gy_status_error y = None"
      using stored_summary [OF read_commits_agree [OF assms(2)], of ?r1 E1 REPO_STATUS_CADENCE_SECS] by auto
    then show ?thesis
      unfolding cache_says_def l1 f1 rows
      by (intro exI conjI) (rule refl | assumption | simp only: stored_dirty [OF d(1)] stored_stats [OF d(1)] out n1_def | blast)+
  qed
  moreover have "cache_says (rc_time_parse E2) show_time st2 db2 name"
  proof -
    obtain rows where rows: "rd_dirty db2 = replace_dirty name st2 rows" using dirty(2) by blast
    obtain y where "repo_git_summary show_time ?r2 = Inr y" "gy_revision y = gc_revision (rr_git ?r2)"
      "gy_branch y = gs_branch st2 \<and> gy_uncommitted y = as_i32 (gs_uncommitted st2) \<and> gy_untracked y = as_i32 (gs_untracked st2)
       \<and> gy_last_commit y = map_option (\<lambda>c. c\<lparr>cm_committed_at :=
          case rc_time_parse E2 (cm_committed_at c) of None \<Rightarrow> cm_committed_at c | Some t \<Rightarrow> show_time t\<rparr>) (gs_last_commit st2)
       \<and> gy_recent_commits y = gs_recent_commits st2 \<and> gy_status_error y = None"
      using stored_summary [OF read_commits_agree [OF assms(5)], of ?r2 E2 REPO_STATUS_CADENCE_SECS] by auto
    then show ?thesis
      unfolding cache_says_def l2 f2 rows
      by (intro exI conjI) (rule refl | assumption | simp only: stored_dirty [OF d(2)] stored_stats [OF d(2)] out n2_def | blast)+
  qed
  ultimately show ?thesis by blast
qed

theorem revision_tracks_status_witness:
  "\<exists>db1 db2 tr1 tr2 p1 p2. reconcile_repo_inner sample_refresh sample_repo_db ''r'' ''/r'' [] = (Inr (), db1, tr1)
    \<and> reconcile_repo_inner sample_refresh db1 ''r'' ''/r'' tr1 = (Inr (), db2, tr2)
    \<and> load_dirty_paths db1 ''r'' = Inr p1 \<and> load_dirty_paths db2 ''r'' = Inr p2
    \<and> map_of (dp_dirty p2) ''a'' = Some ''??'' \<and> dp_git_revision p2 = dp_git_revision p1 + 1"
proof -
  obtain st1 tr1 db1 where s1: "read_status sample_git ''/r'' [] = (Inr st1, tr1)" "clean_status st1"
      "gs_dirty st1 = []" "reconcile_repo_inner sample_refresh sample_repo_db ''r'' ''/r'' [] = (Inr (), db1, tr1)"
    and rest: "case read_status sample_git ''/r'' tr1 of
        (Inr st2, tr2) \<Rightarrow> clean_status st2 \<and> gs_dirty st2 = [(''a'', ''??'')]
          \<and> (case reconcile_repo_inner sample_refresh db1 ''r'' ''/r'' tr1 of
               (Inr _, db2, t2) \<Rightarrow> t2 = tr2 | _ \<Rightarrow> False)
      | _ \<Rightarrow> False"
    using sample_statuses by (auto split: prod.splits sum.splits)
  from rest obtain st2 tr2 db2 where s2: "read_status sample_git ''/r'' tr1 = (Inr st2, tr2)" "clean_status st2"
      "gs_dirty st2 = [(''a'', ''??'')]" "reconcile_repo_inner sample_refresh db1 ''r'' ''/r'' tr1 = (Inr (), db2, tr2)"
    by (auto split: prod.splits sum.splits)
  have host: "rc_host sample_refresh = sample_git" by (simp add: sample_refresh_def)
  have row: "find (\<lambda>r. rr_name r = ''r'' \<and> rr_exists r) (rd_rows sample_repo_db) = Some (hd (rd_rows sample_repo_db))"
    by (simp add: sample_repo_db_def)
  have ne: "shown_dirty st1 \<noteq> shown_dirty st2" by (simp add: shown_dirty_def s1 s2)
  have r1: "read_status (rc_host sample_refresh) ''/r'' [] = (Inr st1, tr1)"
    and r2: "read_status (rc_host sample_refresh) ''/r'' tr1 = (Inr st2, tr2)" using s1 s2 by (simp_all add: host)
  note all = revision_tracks_status [OF row r1 s1(2,4) r2 s2(2,4), of "\<lambda>_. []"]
  then obtain p1 p2 where p: "load_dirty_paths db1 ''r'' = Inr p1" "load_dirty_paths db2 ''r'' = Inr p2"
    "dp_git_revision p2 = dp_git_revision p1 + 1" using ne by auto
  from all p(2) have "map_of (dp_dirty p2) = map_of (gs_dirty st2)" unfolding cache_says_def by auto
  with s1(4) s2(3,4) p show ?thesis by auto
qed

end
