(* ===== verification/Worktree.thy ===== *)
theory Worktree
  imports Repo_State Pty
begin

text \<open>
  Workspaces (\<^verbatim>\<open>backend/src/worktree.rs\<close> and \<^verbatim>\<open>migrations/0015_workspaces.sql\<close>): the main
  checkout of every repository and the work trees made for single sessions. An operation
  first asks git and the file system, as a step over the trace of git calls, and then writes;
  the tables are those of workspaces, of dirty paths and of terminals, whose rows are bound to
  workspaces. Which statements fail is part of \<open>workspace_env\<close>: \<open>we_fails\<close> gets the text
  the statement is labelled with in the source; \<open>we_collate\<close> is the sort key of the
  database's collation.
\<close>

section \<open>State\<close>

record workspace_row =
  ws_id :: uuid
  ws_repo_name :: string
  ws_kind :: string
  ws_path :: string
  ws_branch_name :: "string option"
  ws_base_ref :: "string option"
  ws_base_sha :: "string option"
  ws_merge_target :: "string option"
  ws_created_by :: "uuid option"
  ws_state :: string
  ws_created_at :: timestamp
  ws_git :: git_columns

record workspace_db =
  wd_rows :: "workspace_row list"
  wd_dirty :: "uuid dirty_row list"
  wd_ptys :: "pty_row list"

record workspace_env =
  we_host :: git_host
  we_now :: timestamp
  we_repos_root :: string
  we_workspaces_root :: string
  we_new_id :: uuid
  we_hyphenated :: "uuid \<Rightarrow> string"
  we_simple :: "uuid \<Rightarrow> string"
  we_debug :: "string list \<Rightarrow> string"
  we_mkdir_fails :: "string \<Rightarrow> bool"
  we_fails :: "string \<Rightarrow> bool"
  we_collate :: "string \<Rightarrow> string"

definition update_workspace :: "uuid \<Rightarrow> (workspace_row \<Rightarrow> workspace_row) \<Rightarrow> workspace_db \<Rightarrow> workspace_db" where
  "update_workspace i f db = db\<lparr>wd_rows := map (\<lambda>r. if ws_id r = i then f r else r) (wd_rows db)\<rparr>"

definition touch :: "timestamp \<Rightarrow> workspace_row \<Rightarrow> workspace_row" where
  "touch now r = r\<lparr>ws_git := (ws_git r)\<lparr>gc_updated_at := now\<rparr>\<rparr>"

definition due_now :: "timestamp \<Rightarrow> workspace_row \<Rightarrow> workspace_row" where
  "due_now now r = r\<lparr>ws_git := (ws_git r)\<lparr>gc_next_status_at := now, gc_updated_at := now\<rparr>\<rparr>"

text \<open>
  The constraints of the table: the id and the path are unique, also among deleted rows, and a
  repository has one main row that is not deleted.
\<close>

definition insert_workspace :: "workspace_row \<Rightarrow> workspace_db \<Rightarrow> workspace_db option" where
  "insert_workspace r db =
     (if ws_id r \<in> ws_id ` set (wd_rows db) \<or> ws_path r \<in> ws_path ` set (wd_rows db)
         \<or> ws_kind r = ''main'' \<and> (\<exists>q \<in> set (wd_rows db). ws_kind q = ''main''
             \<and> ws_state q \<noteq> ''deleted'' \<and> ws_repo_name q = ws_repo_name r)
      then None else Some (db\<lparr>wd_rows := wd_rows db @ [r]\<rparr>))"

section \<open>Git commands\<close>

definition op_ask :: "(git_call list \<Rightarrow> 'a) \<Rightarrow> 'a git_op" where
  "op_ask f = (\<lambda>tr. (Inr (f tr), tr))"

definition op_refuse :: "bool \<Rightarrow> string \<Rightarrow> unit git_op" where
  "op_refuse b e = (if b then op_fail e else op_return ())"

text \<open>\<open>with_context\<close>: the outermost message is the one that is shown.\<close>

definition op_context :: "string \<Rightarrow> 'a git_op \<Rightarrow> 'a git_op" where
  "op_context e m = (\<lambda>tr. case m tr of (Inl _, tr') \<Rightarrow> (Inl e, tr') | (Inr x, tr') \<Rightarrow> (Inr x, tr'))"

text \<open>\<open>ok()\<close>: a failure is an absent value.\<close>

definition op_ok :: "'a git_op \<Rightarrow> 'a option git_op" where
  "op_ok m = (\<lambda>tr. case m tr of (Inl _, tr') \<Rightarrow> (Inr None, tr') | (Inr x, tr') \<Rightarrow> (Inr (Some x), tr'))"

definition run_git_capture :: "workspace_env \<Rightarrow> string \<Rightarrow> string list \<Rightarrow> string git_op" where
  "run_git_capture E path args = (\<lambda>tr.
     (case gh_run (we_host E) tr (path, args) of
        NotSpawned \<Rightarrow> Inl ''git''
      | git_out.Exited ok out err \<Rightarrow>
          if ok then Inr (gh_lossy (we_host E) out)
          else Inl (''git '' @ we_debug E args @ '' failed: '' @ gh_lossy (we_host E) err),
      tr @ [(path, args)]))"

definition run_git_checked :: "workspace_env \<Rightarrow> string \<Rightarrow> string list \<Rightarrow> unit git_op" where
  "run_git_checked E path args = op_then (run_git_capture E path args) (\<lambda>_. op_return ())"

definition workspace_branch :: "workspace_env \<Rightarrow> string \<Rightarrow> string option git_op" where
  "workspace_branch E path =
     op_then (run_git_capture E path [''branch'', ''--show-current'']) (\<lambda>out. op_return (non_blank (trim out)))"

definition rev_parse :: "workspace_env \<Rightarrow> string \<Rightarrow> string \<Rightarrow> string git_op" where
  "rev_parse E path r =
     op_then (run_git_capture E path [''rev-parse'', r]) (\<lambda>out.
       if trim out = [] then op_fail (''git rev-parse '' @ r @ '' returned empty output'')
       else op_return (trim out))"

definition git_branch_exists :: "workspace_env \<Rightarrow> string \<Rightarrow> string \<Rightarrow> bool git_op" where
  "git_branch_exists E path branch = (\<lambda>tr.
     let args = [''show-ref'', ''--verify'', ''--quiet'', ''refs/heads/'' @ branch]
     in (case gh_run (we_host E) tr (path, args) of
           NotSpawned \<Rightarrow> Inl ''git'' | git_out.Exited ok out err \<Rightarrow> Inr ok, tr @ [(path, args)]))"

definition rev_list_count :: "workspace_env \<Rightarrow> string \<Rightarrow> string \<Rightarrow> nat git_op" where
  "rev_list_count E path rng =
     op_then (run_git_capture E path [''rev-list'', ''--count'', rng]) (\<lambda>out.
       case parse_u64 (trim out) of
         None \<Rightarrow> op_fail (''parse git rev-list count for '' @ rng) | Some n \<Rightarrow> op_return n)"

text \<open>Equality of paths is that of their components: empty and inner \<open>.\<close> ones do not count.\<close>

definition path_components :: "string \<Rightarrow> bool \<times> string list" where
  "path_components s =
     (let absolute = (take 1 s = ''/''); cs = filter (\<lambda>c. c \<noteq> []) (split_char (CHR ''/'') s)
      in (absolute, (if \<not> absolute \<and> take 1 cs = [''.''] then [''.''] else [])
            @ filter (\<lambda>c. c \<noteq> ''.'') cs))"

definition same_path :: "string \<Rightarrow> string \<Rightarrow> bool" where
  "same_path a b \<longleftrightarrow> path_components a = path_components b"

definition lists_worktree :: "string \<Rightarrow> string \<Rightarrow> bool" where
  "lists_worktree out path \<longleftrightarrow>
     list_ex (\<lambda>line. case strip_prefix line ''worktree '' of None \<Rightarrow> False | Some p \<Rightarrow> same_path p path) (lines out)"

definition git_worktree_registered :: "workspace_env \<Rightarrow> string \<Rightarrow> string \<Rightarrow> bool git_op" where
  "git_worktree_registered E repo path =
     op_then (run_git_capture E repo [''worktree'', ''list'', ''--porcelain'']) (\<lambda>out.
       op_return (lists_worktree out path))"

section \<open>Names\<close>

definition valid_repo_name :: "string \<Rightarrow> bool" where
  "valid_repo_name name \<longleftrightarrow> name \<noteq> [] \<and> CHR ''/'' \<notin> set name \<and> \<not> starts_with name ''.''"

definition git_safe_char :: "char \<Rightarrow> bool" where
  "git_safe_char c \<longleftrightarrow> ascii_alnum c \<or> c \<in> set ''-_.''"

text \<open>One dash for a character, which is one that does not continue another's UTF-8 bytes.\<close>

definition branch_component :: "string \<Rightarrow> string" where
  "branch_component value =
     (let out = map (\<lambda>c. if git_safe_char c then c else CHR ''-'') (filter (\<lambda>c. \<not> cont_byte c) value)
      in if out = [] then ''repo'' else out)"

section \<open>Loading\<close>

definition load_workspace :: "workspace_env \<Rightarrow> workspace_db \<Rightarrow> uuid \<Rightarrow> (string, workspace_row) result" where
  "load_workspace E db i =
     (if we_fails E ''load workspace'' then Inl (''load workspace '' @ we_hyphenated E i)
      else case find (\<lambda>r. ws_id r = i \<and> ws_state r \<noteq> ''deleted'') (wd_rows db) of
        None \<Rightarrow> Inl (''workspace not found: '' @ we_hyphenated E i)
      | Some r \<Rightarrow> Inr r)"

section \<open>Main workspaces\<close>

definition set_main :: "timestamp \<Rightarrow> string \<Rightarrow> string option \<Rightarrow> string option \<Rightarrow> workspace_row \<Rightarrow> workspace_row" where
  "set_main now path branch head r =
     due_now now (r\<lparr>ws_path := path, ws_branch_name := branch, ws_base_ref := branch, ws_base_sha := head,
        ws_merge_target := branch, ws_state := ''active''\<rparr>)"

definition new_workspace ::
    "workspace_env \<Rightarrow> string \<Rightarrow> string \<Rightarrow> string \<Rightarrow> string option \<Rightarrow> string option \<Rightarrow> string option \<Rightarrow> workspace_row" where
  "new_workspace E repo kind path branch base_ref base_sha =
     \<lparr>ws_id = we_new_id E, ws_repo_name = repo, ws_kind = kind, ws_path = path, ws_branch_name = branch,
      ws_base_ref = base_ref, ws_base_sha = base_sha, ws_merge_target = base_ref, ws_created_by = None,
      ws_state = ''active'', ws_created_at = we_now E, ws_git = new_git_columns (we_now E)\<rparr>"

definition store_main ::
    "workspace_env \<Rightarrow> workspace_db \<Rightarrow> string \<Rightarrow> string \<Rightarrow> string option \<Rightarrow> string option \<Rightarrow>
     (string, workspace_row) result \<times> workspace_db" where
  "store_main E db repo path branch head =
     (if we_fails E ''load main workspace'' then (Inl (''load main workspace for '' @ repo), db)
      else case find (\<lambda>r. ws_repo_name r = repo \<and> ws_kind r = ''main'' \<and> ws_state r \<noteq> ''deleted'') (wd_rows db) of
        Some r \<Rightarrow>
          if we_fails E ''update main workspace'' \<or> (\<exists>q \<in> set (wd_rows db). ws_id q \<noteq> ws_id r \<and> ws_path q = path)
          then (Inl (''update main workspace for '' @ repo), db)
          else let db' = update_workspace (ws_id r) (set_main (we_now E) path branch head) db
               in (load_workspace E db' (ws_id r), db')
      | None \<Rightarrow>
          (case (if we_fails E ''insert main workspace'' then None
                 else insert_workspace (new_workspace E repo ''main'' path branch branch head) db) of
             None \<Rightarrow> (Inl (''insert main workspace for '' @ repo), db)
           | Some db' \<Rightarrow> (load_workspace E db' (we_new_id E), db')))"

definition ensure_main_workspace ::
    "workspace_env \<Rightarrow> string \<Rightarrow> string \<Rightarrow> workspace_db \<times> git_call list \<Rightarrow>
     (string, workspace_row) result \<times> workspace_db \<times> git_call list" where
  "ensure_main_workspace E repo path s =
     (if \<not> valid_repo_name repo then (Inl ''invalid repo name'', s)
      else case op_then (op_ok (workspace_branch E path)) (\<lambda>b. op_then (op_ok (rev_parse E path ''HEAD'')) (\<lambda>h.
             op_return (Option.bind b (\<lambda>x. x), h))) (snd s) of
        (Inl e, tr) \<Rightarrow> (Inl e, fst s, tr)
      | (Inr (branch, head), tr) \<Rightarrow>
          (case store_main E (fst s) repo path branch head of (r, db) \<Rightarrow> (r, db, tr)))"

text \<open>\<open>Es\<close> gives each repository its clock, new id and failures; the first failure ends the loop.\<close>

fun ensure_mains ::
    "(string \<Rightarrow> workspace_env) \<Rightarrow> (string \<times> string) list \<Rightarrow> workspace_db \<times> git_call list \<Rightarrow>
     (string, unit) result \<times> workspace_db \<times> git_call list" where
  "ensure_mains Es [] s = (Inr (), s)"
| "ensure_mains Es ((name, path) # rest) s =
     (case ensure_main_workspace (Es name) name path s of
        (Inl e, s') \<Rightarrow> (Inl e, s') | (Inr _, s') \<Rightarrow> ensure_mains Es rest s')"

definition sync_main_workspaces_once ::
    "(string \<Rightarrow> workspace_env) \<Rightarrow> (string, (string \<times> string) list) result \<Rightarrow> workspace_db \<times> git_call list \<Rightarrow>
     (string, unit) result \<times> workspace_db \<times> git_call list" where
  "sync_main_workspaces_once Es found s =
     (case found of Inl e \<Rightarrow> (Inl e, s) | Inr repos \<Rightarrow> ensure_mains Es repos s)"

section \<open>Creating a work tree\<close>

definition worktree_path :: "workspace_env \<Rightarrow> string \<Rightarrow> string" where
  "worktree_path E repo =
     join_path (join_path (we_workspaces_root E) repo) (we_hyphenated E (we_new_id E))"

definition worktree_branch :: "workspace_env \<Rightarrow> string \<Rightarrow> string" where
  "worktree_branch E repo =
     ''sulion/'' @ branch_component repo @ ''/'' @ take 12 (we_simple E (we_new_id E))"

text \<open>The checks and the git calls: the base branch and the base commit on success.\<close>

definition add_worktree :: "workspace_env \<Rightarrow> string \<Rightarrow> (string \<times> string) git_op" where
  "add_worktree E repo =
     (let path = join_path (we_repos_root E) repo; H = we_host E; target = worktree_path E repo
      in op_then (op_refuse (\<not> valid_repo_name repo) ''invalid repo name'') (\<lambda>_.
         op_then (op_ask (\<lambda>tr. gh_is_dir H tr path)) (\<lambda>dir.
         op_then (op_refuse (\<not> dir) (''repo does not exist: '' @ path)) (\<lambda>_.
         op_then (op_ask (\<lambda>tr. is_git_repo H tr path)) (\<lambda>repo_ok.
         op_then (op_refuse (\<not> repo_ok) (''isolated workspace requires a git repo: '' @ path)) (\<lambda>_.
         op_then (workspace_branch E path) (\<lambda>branch.
         op_then (op_context ''isolated workspace requires an existing HEAD commit'' (rev_parse E path ''HEAD'')) (\<lambda>sha.
         op_then (op_ask (\<lambda>tr. gh_exists H tr target)) (\<lambda>present.
         op_then (op_refuse present (''workspace path already exists: '' @ target)) (\<lambda>_.
         op_then (op_refuse (we_mkdir_fails E (join_path (we_workspaces_root E) repo))
             (''create workspace parent '' @ join_path (we_workspaces_root E) repo)) (\<lambda>_.
         op_then (op_context (''create git worktree '' @ target)
             (run_git_checked E path [''worktree'', ''add'', ''-b'', worktree_branch E repo, target, unwrap_or ''HEAD'' branch]))
           (\<lambda>_. op_return (unwrap_or ''HEAD'' branch, sha)))))))))))))"

definition store_worktree ::
    "workspace_env \<Rightarrow> workspace_db \<Rightarrow> string \<Rightarrow> string \<Rightarrow> string \<Rightarrow> (string, workspace_row) result \<times> workspace_db" where
  "store_worktree E db repo base_ref base_sha =
     (case (if we_fails E ''insert worktree workspace'' then None
            else insert_workspace (new_workspace E repo ''worktree'' (worktree_path E repo)
                   (Some (worktree_branch E repo)) (Some base_ref) (Some base_sha)) db) of
        None \<Rightarrow> (Inl (''insert worktree workspace for '' @ repo), db)
      | Some db' \<Rightarrow> (load_workspace E db' (we_new_id E), db'))"

definition create_worktree_workspace ::
    "workspace_env \<Rightarrow> string \<Rightarrow> workspace_db \<times> git_call list \<Rightarrow>
     (string, workspace_row) result \<times> workspace_db \<times> git_call list" where
  "create_worktree_workspace E repo s =
     (case add_worktree E repo (snd s) of
        (Inl e, tr) \<Rightarrow> (Inl e, fst s, tr)
      | (Inr (base_ref, base_sha), tr) \<Rightarrow>
          (case store_worktree E (fst s) repo base_ref base_sha of (r, db) \<Rightarrow> (r, db, tr)))"

section \<open>Sessions and refreshes\<close>

definition bind_created_session ::
    "workspace_env \<Rightarrow> uuid \<Rightarrow> uuid \<Rightarrow> workspace_db \<Rightarrow> (string, unit) result \<times> workspace_db" where
  "bind_created_session E i session db =
     (if we_fails E ''bind session''
      then (Inl (''bind session '' @ we_hyphenated E session @ '' to workspace '' @ we_hyphenated E i), db)
      else (Inr (), update_workspace i
              (\<lambda>r. touch (we_now E) (r\<lparr>ws_created_by := or_else (ws_created_by r) (Some session)\<rparr>)) db))"

definition request_refresh :: "workspace_env \<Rightarrow> uuid \<Rightarrow> workspace_db \<Rightarrow> (string, unit) result \<times> workspace_db" where
  "request_refresh E i db =
     (if we_fails E ''request workspace refresh''
      then (Inl (''request workspace refresh for '' @ we_hyphenated E i), db)
      else (Inr (), update_workspace i
              (\<lambda>r. if ws_state r = ''active'' then due_now (we_now E) r else r) db))"

section \<open>Deleting\<close>

definition delete_refusals :: "workspace_env \<Rightarrow> workspace_db \<Rightarrow> workspace_row \<Rightarrow> uuid \<Rightarrow> string option" where
  "delete_refusals E db w i =
     (let n = length (filter (\<lambda>p. pr_workspace_id p = Some i \<and> pr_state p \<in> {''live'', ''orphaned''}) (wd_ptys db))
      in if ws_kind w = ''main'' then Some ''main workspaces cannot be deleted''
         else if ws_kind w \<noteq> ''worktree'' then Some (''unsupported workspace kind: '' @ ws_kind w)
         else if we_fails E ''count active sessions''
         then Some (''count active sessions for workspace '' @ we_hyphenated E i)
         else if n > 0
         then Some (''workspace is still bound to '' @ show_nat n @ '' live or orphaned session''
                @ (if n = 1 then [] else ''s''))
         else None)"

definition refuse_uncommitted :: "workspace_env \<Rightarrow> workspace_row \<Rightarrow> bool \<Rightarrow> unit git_op" where
  "refuse_uncommitted E w force =
     op_then (op_ask (\<lambda>tr. gh_is_dir (we_host E) tr (ws_path w))) (\<lambda>dir.
       if \<not> dir then op_return ()
       else op_then (read_status (we_host E) (ws_path w)) (\<lambda>st.
         op_refuse (gs_uncommitted st > 0 \<and> \<not> force)
           (''workspace has '' @ show_nat (gs_uncommitted st) @ '' uncommitted change''
              @ (if gs_uncommitted st = 1 then [] else ''s'') @ ''; retry with force to discard it'')))"

definition branch_present :: "workspace_env \<Rightarrow> string \<Rightarrow> workspace_row \<Rightarrow> bool git_op" where
  "branch_present E repo w =
     (case ws_branch_name w of None \<Rightarrow> op_return False | Some b \<Rightarrow> git_branch_exists E repo b)"

definition refuse_unique :: "workspace_env \<Rightarrow> string \<Rightarrow> workspace_row \<Rightarrow> unit git_op" where
  "refuse_unique E repo w =
     (case (ws_base_sha w, ws_branch_name w) of
        (Some base, Some b) \<Rightarrow>
          op_then (rev_list_count E repo (base @ ''..'' @ b)) (\<lambda>n.
            op_refuse (n > 0) (''workspace branch has '' @ show_nat n @ '' commit'' @ (if n = 1 then [] else ''s'')
              @ '' not in its base; retry with force to delete it''))
      | _ \<Rightarrow> op_fail ''workspace branch history cannot be checked; retry with force to delete it'')"

definition remove_worktree :: "workspace_env \<Rightarrow> string \<Rightarrow> workspace_row \<Rightarrow> bool \<Rightarrow> unit git_op" where
  "remove_worktree E repo w force =
     op_then (git_worktree_registered E repo (ws_path w)) (\<lambda>registered.
     op_then (op_ask (\<lambda>tr. gh_is_dir (we_host E) tr (ws_path w))) (\<lambda>dir.
       if dir \<or> registered
       then op_context (''remove git worktree '' @ ws_path w)
              (run_git_checked E repo ([''worktree'', ''remove''] @ (if force then [''--force''] else []) @ [ws_path w]))
       else op_return ()))"

definition remove_branch :: "workspace_env \<Rightarrow> string \<Rightarrow> workspace_row \<Rightarrow> unit git_op" where
  "remove_branch E repo w =
     (case ws_branch_name w of
        None \<Rightarrow> op_return ()
      | Some b \<Rightarrow> op_then (git_branch_exists E repo b) (\<lambda>present.
          if present then op_context (''delete workspace branch '' @ b) (run_git_checked E repo [''branch'', ''-D'', b])
          else op_return ()))"

text \<open>The first half only looks, the second changes the repository.\<close>

definition check_delete :: "workspace_env \<Rightarrow> workspace_row \<Rightarrow> bool \<Rightarrow> bool \<Rightarrow> unit git_op" where
  "check_delete E w force delete_branch =
     (let repo = join_path (we_repos_root E) (ws_repo_name w)
      in op_then (op_ask (\<lambda>tr. gh_is_dir (we_host E) tr repo)) (\<lambda>dir.
         op_then (op_refuse (\<not> dir) (''repo does not exist: '' @ repo)) (\<lambda>_.
         op_then (refuse_uncommitted E w force) (\<lambda>_.
         op_then (branch_present E repo w) (\<lambda>present.
           if delete_branch \<and> present \<and> \<not> force then refuse_unique E repo w else op_return ())))))"

definition remove_from_git :: "workspace_env \<Rightarrow> workspace_row \<Rightarrow> bool \<Rightarrow> bool \<Rightarrow> unit git_op" where
  "remove_from_git E w force delete_branch =
     (let repo = join_path (we_repos_root E) (ws_repo_name w)
      in op_then (remove_worktree E repo w force) (\<lambda>_.
         if delete_branch then remove_branch E repo w else op_return ()))"

definition mark_deleted :: "timestamp \<Rightarrow> uuid \<Rightarrow> workspace_db \<Rightarrow> workspace_db" where
  "mark_deleted now i db =
     update_workspace i (\<lambda>r. r\<lparr>ws_state := ''deleted'',
         ws_git := (ws_git r)\<lparr>gc_status_error := None, gc_updated_at := now\<rparr>\<rparr>)
       (db\<lparr>wd_dirty := filter (\<lambda>d. dr_owner d \<noteq> i) (wd_dirty db),
           wd_ptys := map (\<lambda>p. if pr_workspace_id p = Some i then p\<lparr>pr_workspace_id := None\<rparr> else p) (wd_ptys db)\<rparr>)"

definition delete_workspace ::
    "workspace_env \<Rightarrow> uuid \<Rightarrow> bool \<Rightarrow> bool \<Rightarrow> workspace_db \<times> git_call list \<Rightarrow>
     (string, unit) result \<times> workspace_db \<times> git_call list" where
  "delete_workspace E i force delete_branch s =
     (case load_workspace E (fst s) i of
        Inl e \<Rightarrow> (Inl e, s)
      | Inr w \<Rightarrow>
          (case delete_refusals E (fst s) w i of
             Some e \<Rightarrow> (Inl e, s)
           | None \<Rightarrow>
               (case op_then (check_delete E w force delete_branch)
                       (\<lambda>_. remove_from_git E w force delete_branch) (snd s) of
                  (Inl e, tr) \<Rightarrow> (Inl e, fst s, tr)
                | (Inr _, tr) \<Rightarrow>
                    if we_fails E ''workspace delete tx''
                    then (Inl (''mark workspace '' @ we_hyphenated E i @ '' deleted''), fst s, tr)
                    else (Inr (), mark_deleted (we_now E) i (fst s), tr))))"

section \<open>Reconciling\<close>

definition WORKSPACE_STATUS_CADENCE_SECS :: int where
  "WORKSPACE_STATUS_CADENCE_SECS = 30"

definition WORKSPACE_STATUS_ERROR_CADENCE_SECS :: int where
  "WORKSPACE_STATUS_ERROR_CADENCE_SECS = 90"

definition store_workspace_status :: "reconcile_env \<Rightarrow> uuid \<Rightarrow> git_status \<Rightarrow> workspace_db \<Rightarrow> workspace_db" where
  "store_workspace_status E i st db =
     update_workspace i (\<lambda>r. r\<lparr>ws_branch_name := gs_branch st,
         ws_git := store_columns E WORKSPACE_STATUS_CADENCE_SECS st (ws_git r)\<rparr>)
       (db\<lparr>wd_dirty := replace_dirty i st (wd_dirty db)\<rparr>)"

definition mark_missing :: "reconcile_env \<Rightarrow> string \<Rightarrow> workspace_row \<Rightarrow> workspace_row" where
  "mark_missing E path r =
     r\<lparr>ws_state := ''missing'',
       ws_git := (ws_git r)\<lparr>gc_status_error := Some (''workspace path missing: '' @ path),
         gc_finished_at := Some (rc_started E), gc_updated_at := rc_started E\<rparr>\<rparr>"

text \<open>\<open>rc_start_fails\<close> is the failure of the first statement, whichever it is.\<close>

definition reconcile_workspace_inner ::
    "reconcile_env \<Rightarrow> workspace_db \<Rightarrow> uuid \<Rightarrow> string \<Rightarrow> git_call list \<Rightarrow>
     (string, unit) result \<times> workspace_db \<times> git_call list" where
  "reconcile_workspace_inner E db i path tr =
     (if \<not> gh_is_dir (rc_host E) tr path
      then if rc_start_fails E then (Inl ''mark workspace missing'', db, tr)
           else (Inr (), update_workspace i (mark_missing E path) db, tr)
      else if rc_start_fails E then (Inl ''mark workspace reconcile started'', db, tr)
      else let db1 = update_workspace i (\<lambda>r. r\<lparr>ws_git := mark_started E (ws_git r)\<rparr>) db
           in case read_status (rc_host E) path tr of
                (Inl e, tr') \<Rightarrow> (Inl e, db1, tr')
              | (Inr st, tr') \<Rightarrow>
                  if rc_tx_fails E then (Inl ''workspace reconcile tx'', db1, tr')
                  else (Inr (), store_workspace_status E i st db1, tr'))"

definition reconcile_workspace ::
    "reconcile_env \<Rightarrow> uuid \<times> string \<Rightarrow> workspace_db \<times> git_call list \<Rightarrow> workspace_db \<times> git_call list" where
  "reconcile_workspace E ip s =
     (case reconcile_workspace_inner E (fst s) (fst ip) (snd ip) (snd s) of
        (Inr _, db, tr) \<Rightarrow> (db, tr)
      | (Inl e, db, tr) \<Rightarrow>
          (if rc_error_fails E then db
           else update_workspace (fst ip)
                  (\<lambda>r. r\<lparr>ws_git := mark_status_error E WORKSPACE_STATUS_ERROR_CADENCE_SECS e (ws_git r)\<rparr>) db, tr))"

definition due_workspaces :: "timestamp \<Rightarrow> nat \<Rightarrow> workspace_db \<Rightarrow> (uuid \<times> string) list" where
  "due_workspaces now limit db =
     map (\<lambda>r. (ws_id r, ws_path r))
       (take limit (sort_key (\<lambda>r. gc_next_status_at (ws_git r)) (sort_key ws_created_at
         (filter (\<lambda>r. ws_state r = ''active'' \<and> gc_next_status_at (ws_git r) \<le> now) (wd_rows db)))))"

definition reconcile_due_workspaces ::
    "(uuid \<Rightarrow> reconcile_env) \<Rightarrow> timestamp \<Rightarrow> nat \<Rightarrow> workspace_db \<times> git_call list \<Rightarrow>
     nat \<times> workspace_db \<times> git_call list" where
  "reconcile_due_workspaces Es now limit s =
     (let due = due_workspaces now limit (fst s)
      in (length due, foldl (\<lambda>s ip. reconcile_workspace (Es (fst ip)) ip s) s due))"

section \<open>Views\<close>

definition into_view ::
    "(timestamp \<Rightarrow> string) \<Rightarrow> workspace_row \<Rightarrow> (string, workspace_row \<times> git_summary) result" where
  "into_view show_time r =
     (let g = ws_git r
      in case commits_of_json (gc_recent_commits g) of
           None \<Rightarrow> Inl ''deserialize workspace recent commits''
         | Some recent \<Rightarrow>
             let l = shown_last_commit show_time g recent
             in Inr (r, \<lparr>gy_revision = gc_revision g, gy_branch = ws_branch_name r,
                   gy_uncommitted = gc_dirty_count g, gy_untracked = gc_untracked_count g, gy_last_commit = l,
                   gy_recent_commits = (if recent = [] then (case l of None \<Rightarrow> [] | Some c \<Rightarrow> [c]) else recent),
                   gy_refreshing = is_refreshing g, gy_status_error = gc_status_error g\<rparr>))"

fun collect_results :: "('e, 'a) result list \<Rightarrow> ('e, 'a list) result" where
  "collect_results [] = Inr []"
| "collect_results (r # rs) = res_bind r (\<lambda>x. res_bind (collect_results rs) (\<lambda>xs. Inr (x # xs)))"

definition load_workspace_views ::
    "workspace_env \<Rightarrow> (timestamp \<Rightarrow> string) \<Rightarrow> workspace_db \<Rightarrow> (string, (workspace_row \<times> git_summary) list) result" where
  "load_workspace_views E show_time db =
     (if we_fails E ''load workspace views'' then Inl ''load workspace views''
      else collect_results (map (into_view show_time)
        (sort_key (we_collate E \<circ> ws_repo_name) (sort_key (we_collate E \<circ> ws_kind) (sort_key ws_created_at
          (filter (\<lambda>r. ws_state r \<noteq> ''deleted'') (wd_rows db)))))))"

definition load_workspace_view ::
    "workspace_env \<Rightarrow> (timestamp \<Rightarrow> string) \<Rightarrow> workspace_db \<Rightarrow> uuid \<Rightarrow> (string, workspace_row \<times> git_summary) result" where
  "load_workspace_view E show_time db i =
     (if we_fails E ''load workspace view'' then Inl (''load workspace view '' @ we_hyphenated E i)
      else case find (\<lambda>r. ws_id r = i \<and> ws_state r \<noteq> ''deleted'') (wd_rows db) of
        None \<Rightarrow> Inl (''workspace not found: '' @ we_hyphenated E i)
      | Some r \<Rightarrow> into_view show_time r)"

definition load_workspace_dirty_paths ::
    "workspace_env \<Rightarrow> workspace_db \<Rightarrow> uuid \<Rightarrow> (string, dirty_paths) result" where
  "load_workspace_dirty_paths E db i =
     (case (if we_fails E ''load git revision'' then None
            else find (\<lambda>r. ws_id r = i \<and> ws_state r = ''active'') (wd_rows db)) of
        None \<Rightarrow> Inl (''load git revision for workspace '' @ we_hyphenated E i)
      | Some r \<Rightarrow>
          if we_fails E ''load dirty paths'' then Inl (''load dirty paths for workspace '' @ we_hyphenated E i)
          else Inr (dirty_paths_of i (gc_revision (ws_git r)) (wd_dirty db)))"

section \<open>The command line\<close>

definition workspace_keys :: "string list" where
  "workspace_keys =
     [''SULION_REPO_NAME'', ''SULION_WORKSPACE_ID'', ''SULION_WORKSPACE_KIND'', ''SULION_WORKSPACE_PATH'',
      ''SULION_CANONICAL_REPO'', ''SULION_BRANCH'', ''SULION_BASE_REF'', ''SULION_BASE_SHA'', ''SULION_MERGE_TARGET'']"

definition print_workspace_status :: "(string \<Rightarrow> string option) \<Rightarrow> string list" where
  "print_workspace_status env =
     (if env ''SULION_WORKSPACE_ID'' = None then [''No Sulion workspace metadata is present in this shell.'']
      else ''Sulion workspace'' # map (\<lambda>key. key @ ''='' @ unwrap_or [] (env key)) workspace_keys)"

text \<open>An argument that is not UTF-8 is \<open>None\<close>. The lines of both outputs, and the exit code.\<close>

definition run_workspace_cli ::
    "(string \<Rightarrow> string option) \<Rightarrow> string option list \<Rightarrow> string list \<times> string list \<times> int" where
  "run_workspace_cli env args =
     (if take 1 args = [Some ''status''] then (print_workspace_status env, [], 0)
      else ([], [''usage: sulion workspace status''], 2))"

end
