(* ===== verification/Worktree_Invariant.thy ===== *)
theory Worktree_Invariant
  imports Worktree
begin

text \<open>
  Well-formed workspace tables, and that every operation on them keeps them so.
\<close>

section \<open>What git reports\<close>

lemma add_dirty_distinct: "distinct (map fst (gs_dirty st)) \<Longrightarrow> distinct (map fst (gs_dirty (add_dirty p c st)))"
  by (simp add: add_dirty_def distinct_update)

lemma parse_records_distinct:
  "distinct (map fst (gs_dirty st)) \<Longrightarrow> distinct (map fst (gs_dirty (parse_records H rs st)))"
  by (induction H rs st rule: parse_records.induct) (simp_all add: add_dirty_distinct)

lemma read_status_distinct:
  assumes "read_status H path tr = (Inr st, tr')"
  shows "distinct (map fst (gs_dirty st))"
proof -
  have parsed: "distinct (map fst (gs_dirty (parse_porcelain H out (empty_status\<lparr>gs_branch := b\<rparr>))))" for out b
    unfolding parse_porcelain_def by (rule parse_records_distinct) (simp add: empty_status_def)
  have "distinct (map fst (gs_dirty empty_status))" by (simp add: empty_status_def)
  then show ?thesis
    using assms parsed unfolding read_status_def
    by (auto simp: op_then_Inr Let_def op_return_def split: if_splits option.splits)
qed

section \<open>The invariant\<close>

definition workspace_ok :: "workspace_row \<Rightarrow> bool" where
  "workspace_ok r \<longleftrightarrow>
     ws_kind r \<in> {''main'', ''worktree''} \<and> ws_state r \<in> {''active'', ''missing'', ''deleted''}
     \<and> (ws_kind r = ''main'' \<longrightarrow> ws_state r \<noteq> ''deleted'')"

definition workspaces_ok :: "workspace_db \<Rightarrow> bool" where
  "workspaces_ok db \<longleftrightarrow>
     distinct (map ws_id (wd_rows db)) \<and> distinct (map ws_path (wd_rows db))
     \<and> (\<forall>r \<in> set (wd_rows db). workspace_ok r)
     \<and> distinct (map ws_repo_name (filter (\<lambda>r. ws_kind r = ''main'') (wd_rows db)))
     \<and> distinct (map (\<lambda>d. (dr_owner d, dr_path d)) (wd_dirty db))
     \<and> dr_owner ` set (wd_dirty db) \<subseteq> ws_id ` set (wd_rows db)
     \<and> (\<forall>p \<in> set (wd_ptys db). set_option (pr_workspace_id p) \<subseteq> ws_id ` set (wd_rows db))"

text \<open>An update that leaves the keys alone and keeps rows well formed keeps the tables so.\<close>

lemma set_rows:
  "wd_rows (db\<lparr>wd_rows := x\<rparr>) = x" "wd_dirty (db\<lparr>wd_rows := x\<rparr>) = wd_dirty db"
  "wd_ptys (db\<lparr>wd_rows := x\<rparr>) = wd_ptys db" "wd_rows (db\<lparr>wd_dirty := d\<rparr>) = wd_rows db"
  by simp_all

lemma map_rows_ok:
  assumes ok: "workspaces_ok db"
    and keys: "\<And>r. ws_id (f r) = ws_id r \<and> ws_kind (f r) = ws_kind r \<and> ws_repo_name (f r) = ws_repo_name r"
    and rows: "\<And>r. r \<in> set (wd_rows db) \<Longrightarrow> workspace_ok (f r)"
    and paths: "distinct (map (ws_path \<circ> f) (wd_rows db))"
  shows "workspaces_ok (db\<lparr>wd_rows := map f (wd_rows db)\<rparr>)"
proof -
  have same: "ws_id \<circ> f = ws_id" "ws_repo_name \<circ> f = ws_repo_name"
    "(\<lambda>r. ws_kind r = ''main'') \<circ> f = (\<lambda>r. ws_kind r = ''main'')"
    using keys by (auto simp: fun_eq_iff)
  have "\<forall>r \<in> set (map f (wd_rows db)). workspace_ok r" using rows by auto
  moreover have "ws_id ` set (map f (wd_rows db)) = ws_id ` set (wd_rows db)"
    unfolding set_map image_comp same ..
  moreover have "map ws_id (map f (wd_rows db)) = map ws_id (wd_rows db)"
    "map ws_path (map f (wd_rows db)) = map (ws_path \<circ> f) (wd_rows db)"
    "map ws_repo_name (filter (\<lambda>r. ws_kind r = ''main'') (map f (wd_rows db)))
      = map ws_repo_name (filter (\<lambda>r. ws_kind r = ''main'') (wd_rows db))"
    by (simp_all only: map_map filter_map same)
  ultimately show ?thesis
    using ok paths unfolding workspaces_ok_def by (simp only: set_rows simp_thms) blast
qed

lemma ids_update:
  assumes "\<And>r. ws_id (f r) = ws_id r"
  shows "ws_id ` set (wd_rows (update_workspace i f db)) = ws_id ` set (wd_rows db)"
proof -
  have "ws_id \<circ> (\<lambda>r. if ws_id r = i then f r else r) = ws_id" using assms by (simp add: fun_eq_iff)
  then show ?thesis by (simp only: update_workspace_def set_rows set_map image_comp)
qed

lemma update_ok:
  assumes ok: "workspaces_ok db"
    and keys: "\<And>r. ws_id (f r) = ws_id r \<and> ws_path (f r) = ws_path r \<and> ws_kind (f r) = ws_kind r
        \<and> ws_repo_name (f r) = ws_repo_name r"
    and rows: "\<And>r. r \<in> set (wd_rows db) \<Longrightarrow> ws_id r = i \<Longrightarrow> workspace_ok r \<Longrightarrow> workspace_ok (f r)"
  shows "workspaces_ok (update_workspace i f db)"
  unfolding update_workspace_def
proof (rule map_rows_ok [OF ok], goal_cases)
  case (1 r)
  then show ?case using keys [of r] by simp
next
  case (2 r)
  then show ?case using ok rows [of r] by (simp add: workspaces_ok_def)
next
  case 3
  have "ws_path \<circ> (\<lambda>r. if ws_id r = i then f r else r) = ws_path" using keys by (auto simp: fun_eq_iff)
  with ok show ?case unfolding workspaces_ok_def by (simp only:)
qed

lemma distinct_filter_snoc:
  assumes "distinct (map f (filter P xs))" and "\<And>q. q \<in> set xs \<Longrightarrow> P q \<Longrightarrow> P x \<Longrightarrow> f q \<noteq> f x"
  shows "distinct (map f (filter P (xs @ [x])))"
proof (cases "P x")
  case True
  have "f x \<notin> f ` set (filter P xs)" using assms(2) True by fastforce
  with assms(1) True show ?thesis by simp
qed (use assms(1) in simp)

lemma insert_ok:
  assumes "workspaces_ok db" and "workspace_ok r" and "ws_state r \<noteq> ''deleted''"
    and "insert_workspace r db = Some db'"
  shows "workspaces_ok db'"
proof -
  from assms(4) have new: "ws_id r \<notin> ws_id ` set (wd_rows db)" "ws_path r \<notin> ws_path ` set (wd_rows db)"
    and main: "\<not> (ws_kind r = ''main'' \<and> (\<exists>q \<in> set (wd_rows db). ws_kind q = ''main''
        \<and> ws_state q \<noteq> ''deleted'' \<and> ws_repo_name q = ws_repo_name r))"
    and db': "db' = db\<lparr>wd_rows := wd_rows db @ [r]\<rparr>"
    unfolding insert_workspace_def by (simp_all split: if_split_asm)
  have names: "ws_repo_name q \<noteq> ws_repo_name r" if "q \<in> set (wd_rows db)" "ws_kind q = ''main''" "ws_kind r = ''main''" for q
  proof -
    have "workspace_ok q" using assms(1) that(1) by (simp add: workspaces_ok_def)
    then have "ws_state q \<noteq> ''deleted''" using that(2) by (simp add: workspace_ok_def)
    with that main show ?thesis by blast
  qed
  have m: "distinct (map ws_repo_name (filter (\<lambda>r. ws_kind r = ''main'') (wd_rows db @ [r])))"
  proof (rule distinct_filter_snoc)
    show "distinct (map ws_repo_name (filter (\<lambda>r. ws_kind r = ''main'') (wd_rows db)))"
      using assms(1) by (simp only: workspaces_ok_def)
  qed (rule names)
  have "distinct (map ws_id (wd_rows db @ [r]))" "distinct (map ws_path (wd_rows db @ [r]))"
    using assms(1) new by (simp_all add: workspaces_ok_def)
  moreover have "ws_id ` set (wd_rows db) \<subseteq> ws_id ` set (wd_rows db @ [r])" by auto
  moreover have "\<forall>q \<in> set (wd_rows db @ [r]). workspace_ok q" using assms(1,2) by (simp add: workspaces_ok_def)
  ultimately show ?thesis
    using assms(1) m unfolding db' workspaces_ok_def by (simp only: set_rows simp_thms) blast
qed

lemma dirty_ok:
  assumes ok: "workspaces_ok db" and i: "i \<in> ws_id ` set (wd_rows db)" and d: "distinct (map fst (gs_dirty st))"
  shows "workspaces_ok (db\<lparr>wd_dirty := replace_dirty i st (wd_dirty db)\<rparr>)"
proof -
  let ?k = "\<lambda>d. (dr_owner d, dr_path d)"
  have k: "map ?k (map (dirty_row_of i st) xs) = map (Pair i) (map fst xs)" for xs
    by (induction xs) (simp_all add: dirty_row_of_def Let_def)
  have "distinct (map ?k (wd_dirty db))" using ok by (simp add: workspaces_ok_def)
  then have a: "distinct (map ?k (filter (\<lambda>r. dr_owner r \<noteq> i) (wd_dirty db)))" by (rule distinct_map_filter)
  have b: "distinct (map ?k (map (dirty_row_of i st) (gs_dirty st)))"
    unfolding k distinct_map [of "Pair i"] using d by (simp add: inj_on_def)
  have c: "dr_owner ` set (map (dirty_row_of i st) (gs_dirty st)) \<subseteq> {i}"
    by (auto simp: dirty_row_of_def Let_def)
  have "distinct (map ?k (replace_dirty i st (wd_dirty db)))"
    unfolding replace_dirty_def map_append distinct_append using a b c by fastforce
  moreover have "dr_owner ` set (replace_dirty i st (wd_dirty db)) \<subseteq> ws_id ` set (wd_rows db)"
    unfolding replace_dirty_def set_append image_Un using c i ok by (auto simp: workspaces_ok_def)
  ultimately show ?thesis using ok by (simp add: workspaces_ok_def)
qed

section \<open>Every operation keeps it\<close>

lemma due_touch_ok:
  "workspace_ok (due_now now r) = workspace_ok r" "workspace_ok (touch now r) = workspace_ok r"
  "workspace_ok (r\<lparr>ws_git := g\<rparr>) = workspace_ok r" "workspace_ok (r\<lparr>ws_branch_name := b\<rparr>) = workspace_ok r"
  "workspace_ok (r\<lparr>ws_created_by := c\<rparr>) = workspace_ok r"
  by (simp_all add: due_now_def touch_def workspace_ok_def)

lemma new_workspace_ok: "kind \<in> {''main'', ''worktree''} \<Longrightarrow> workspace_ok (new_workspace E repo kind p b br bs)"
  by (simp add: workspace_ok_def new_workspace_def)

lemma set_path_ok:
  assumes ok: "workspaces_ok db" and r: "r \<in> set (wd_rows db)"
    and path: "\<not> (\<exists>q \<in> set (wd_rows db). ws_id q \<noteq> ws_id r \<and> ws_path q = path)"
  shows "workspaces_ok (update_workspace (ws_id r) (\<lambda>q. q\<lparr>ws_path := path\<rparr>) db)"
  unfolding update_workspace_def
proof (rule map_rows_ok [OF ok], goal_cases)
  case (2 q)
  then show ?case using ok by (simp add: workspaces_ok_def workspace_ok_def)
next
  case 3
  let ?f = "\<lambda>q. if ws_id q = ws_id r then q\<lparr>ws_path := path\<rparr> else q"
  have d: "distinct (map ws_id (wd_rows db))" "distinct (map ws_path (wd_rows db))"
    using ok by (simp_all add: workspaces_ok_def)
  then have ids: "inj_on ws_id (set (wd_rows db))" "inj_on ws_path (set (wd_rows db))" "distinct (wd_rows db)"
    by (simp_all add: distinct_map)
  have "inj_on (ws_path \<circ> ?f) (set (wd_rows db))"
  proof (rule inj_onI)
    fix p q assume pq: "p \<in> set (wd_rows db)" "q \<in> set (wd_rows db)" "(ws_path \<circ> ?f) p = (ws_path \<circ> ?f) q"
    then have "ws_id p = ws_id q \<or> ws_path p = ws_path q"
      using path by (cases "ws_id p = ws_id r"; cases "ws_id q = ws_id r") auto
    then show "p = q" using ids pq(1,2) by (auto dest: inj_onD)
  qed
  then show ?case using ids(3) unfolding distinct_map [of "ws_path \<circ> ?f"] by (rule conjI [rotated])
qed simp

lemma set_main_ok:
  assumes "workspaces_ok db" and "r \<in> set (wd_rows db)" and "ws_kind r = ''main''"
    and "\<not> (\<exists>q \<in> set (wd_rows db). ws_id q \<noteq> ws_id r \<and> ws_path q = path)"
  shows "workspaces_ok (update_workspace (ws_id r) (set_main now path branch head) db)"
proof -
  let ?g = "\<lambda>r. due_now now (r\<lparr>ws_branch_name := branch, ws_base_ref := branch, ws_base_sha := head,
        ws_merge_target := branch, ws_state := ''active''\<rparr>)"
  have "update_workspace (ws_id r) (set_main now path branch head) db
      = update_workspace (ws_id r) ?g (update_workspace (ws_id r) (\<lambda>q. q\<lparr>ws_path := path\<rparr>) db)"
    by (simp add: update_workspace_def set_main_def due_now_def)
  moreover have "workspaces_ok \<dots>"
    by (rule update_ok [OF set_path_ok [OF assms(1,2,4)]]) (simp_all add: due_now_def workspace_ok_def)
  ultimately show ?thesis by simp
qed

lemma store_main_ok:
  assumes ok: "workspaces_ok db" and s: "store_main E db repo path branch head = (res, db')"
  shows "workspaces_ok db'"
proof -
  have upd: "workspaces_ok (update_workspace (ws_id r) (set_main now path branch head) db)"
    if "find (\<lambda>r. ws_repo_name r = repo \<and> ws_kind r = ''main'' \<and> ws_state r \<noteq> ''deleted'') (wd_rows db) = Some r"
      "\<not> (\<exists>q \<in> set (wd_rows db). ws_id q \<noteq> ws_id r \<and> ws_path q = path)" for r now
  proof -
    from that(1) have "r \<in> set (wd_rows db)" "ws_kind r = ''main''" by (auto simp: find_Some_iff)
    then show ?thesis by (rule set_main_ok [OF ok _ _ that(2)])
  qed
  have ins: "workspaces_ok db2" if "insert_workspace (new_workspace E repo ''main'' path branch branch head) db = Some db2" for db2
    by (rule insert_ok [OF ok new_workspace_ok _ that]) (simp_all add: new_workspace_def)
  show ?thesis
    using s ok ins unfolding store_main_def
    by (auto simp: Let_def simp del: not_ex intro: upd split: if_split_asm option.split_asm)
qed

lemma store_worktree_ok:
  assumes ok: "workspaces_ok db" and s: "store_worktree E db repo base_ref base_sha = (res, db')"
  shows "workspaces_ok db'"
proof -
  have ins: "workspaces_ok db2" if "insert_workspace (new_workspace E repo ''worktree'' p b br bs) db = Some db2" for db2 p b br bs
    by (rule insert_ok [OF ok new_workspace_ok _ that]) (simp_all add: new_workspace_def)
  show ?thesis using s ok ins unfolding store_worktree_def by (auto split: if_splits option.splits)
qed

lemma mark_deleted_ok:
  assumes ok: "workspaces_ok db" and w: "\<And>r. r \<in> set (wd_rows db) \<Longrightarrow> ws_id r = i \<Longrightarrow> ws_kind r \<noteq> ''main''"
  shows "workspaces_ok (mark_deleted now i db)"
proof -
  let ?db = "db\<lparr>wd_dirty := filter (\<lambda>d. dr_owner d \<noteq> i) (wd_dirty db),
      wd_ptys := map (\<lambda>p. if pr_workspace_id p = Some i then p\<lparr>pr_workspace_id := None\<rparr> else p) (wd_ptys db)\<rparr>"
  have "distinct (map (\<lambda>d. (dr_owner d, dr_path d)) (filter (\<lambda>d. dr_owner d \<noteq> i) (wd_dirty db)))"
    using ok by (intro distinct_map_filter) (simp add: workspaces_ok_def)
  then have "workspaces_ok ?db" using ok unfolding workspaces_ok_def by auto
  then show ?thesis
    unfolding mark_deleted_def by (rule update_ok) (use w in \<open>auto simp: workspace_ok_def\<close>)
qed

lemma reconcile_ok:
  assumes ok: "workspaces_ok db" and i: "i \<in> ws_id ` set (wd_rows db)"
  shows "workspaces_ok (fst (reconcile_workspace E (i, path) (db, tr)))"
proof -
  have upd: "workspaces_ok (update_workspace i (\<lambda>r. r\<lparr>ws_git := f r\<rparr>) d)" if "workspaces_ok d" for f d
    by (rule update_ok [OF that]) (simp_all add: due_touch_ok)
  have miss: "workspaces_ok (update_workspace i (mark_missing E path) db)"
    by (rule update_ok [OF ok]) (auto simp: mark_missing_def workspace_ok_def)
  have ids: "ws_id ` set (wd_rows (update_workspace i (\<lambda>r. r\<lparr>ws_git := f r\<rparr>) d)) = ws_id ` set (wd_rows d)" for f d
    by (rule ids_update) simp
  have store: "workspaces_ok (store_workspace_status E i st (update_workspace i (\<lambda>r. r\<lparr>ws_git := f r\<rparr>) db))"
    if "distinct (map fst (gs_dirty st))" for st f
    unfolding store_workspace_status_def
    by (rule update_ok, rule dirty_ok [OF upd [OF ok] _ that]) (use i ids in \<open>simp_all add: due_touch_ok\<close>)
  have inner: "workspaces_ok (fst (snd (reconcile_workspace_inner E db i path tr)))"
    unfolding reconcile_workspace_inner_def Let_def
    using ok miss upd [OF ok] store read_status_distinct
    by (auto split: prod.splits sum.splits)
  obtain res db' tr' where r: "reconcile_workspace_inner E db i path tr = (res, db', tr')"
    by (cases "reconcile_workspace_inner E db i path tr")
  with inner upd [of db'] show ?thesis
    by (auto simp: reconcile_workspace_def split: sum.splits)
qed

section \<open>Any sequence of operations\<close>

text \<open>
  A reconcile works on an id that was read from the table, from which no row is ever removed.
  \<open>Terminals\<close> is what the supervisor writes; the database checks its references.
\<close>

datatype workspace_op =
  EnsureMain workspace_env string string
| CreateWorktree workspace_env string
| BindSession workspace_env uuid uuid
| RefreshWorkspace workspace_env uuid
| DeleteWorkspace workspace_env uuid bool bool
| ReconcileWorkspace reconcile_env uuid string
| Terminals "pty_row list"

fun workspace_step :: "workspace_db \<times> git_call list \<Rightarrow> workspace_op \<Rightarrow> workspace_db \<times> git_call list" where
  "workspace_step s (EnsureMain E repo path) = snd (ensure_main_workspace E repo path s)"
| "workspace_step s (CreateWorktree E repo) = snd (create_worktree_workspace E repo s)"
| "workspace_step s (BindSession E i session) = (snd (bind_created_session E i session (fst s)), snd s)"
| "workspace_step s (RefreshWorkspace E i) = (snd (request_refresh E i (fst s)), snd s)"
| "workspace_step s (DeleteWorkspace E i force delete_branch) = snd (delete_workspace E i force delete_branch s)"
| "workspace_step s (ReconcileWorkspace E i path) =
     (if i \<in> ws_id ` set (wd_rows (fst s)) then reconcile_workspace E (i, path) s else s)"
| "workspace_step s (Terminals ps) =
     (if \<forall>p \<in> set ps. set_option (pr_workspace_id p) \<subseteq> ws_id ` set (wd_rows (fst s))
      then ((fst s)\<lparr>wd_ptys := ps\<rparr>, snd s) else s)"

lemma load_workspace_Inr:
  assumes "load_workspace E db i = Inr w"
  shows "w \<in> set (wd_rows db)" "ws_id w = i" "ws_state w \<noteq> ''deleted''"
  using assms by (auto simp: load_workspace_def find_Some_iff split: if_splits option.splits)

lemma same_row:
  assumes "workspaces_ok db" and "r \<in> set (wd_rows db)" and "w \<in> set (wd_rows db)" and "ws_id r = ws_id w"
  shows "r = w"
  using assms by (auto simp: workspaces_ok_def distinct_map dest: inj_onD)

lemma deleted_from:
  assumes "delete_workspace E i force delete_branch (db, tr) = (Inr (), db', tr')"
  obtains w where "load_workspace E db i = Inr w" "delete_refusals E db w i = None"
    "op_then (check_delete E w force delete_branch) (\<lambda>_. remove_from_git E w force delete_branch) tr = (Inr (), tr')"
    "db' = mark_deleted (we_now E) i db"
  using assms unfolding delete_workspace_def by (auto split: sum.splits option.splits prod.splits if_splits)

lemma delete_db:
  "fst (snd (delete_workspace E i force delete_branch s)) = fst s
   \<or> (\<exists>w. load_workspace E (fst s) i = Inr w \<and> ws_kind w \<noteq> ''main''
        \<and> fst (snd (delete_workspace E i force delete_branch s)) = mark_deleted (we_now E) i (fst s))"
  by (auto simp: delete_workspace_def delete_refusals_def Let_def split: sum.splits option.splits prod.splits)

lemma workspace_step_ok:
  assumes ok: "workspaces_ok (fst s)"
  shows "workspaces_ok (fst (workspace_step s oper))"
proof (cases oper)
  case (EnsureMain E repo path)
  then show ?thesis using ok store_main_ok [OF ok]
    by (auto simp: ensure_main_workspace_def split: sum.splits prod.splits)
next
  case (CreateWorktree E repo)
  then show ?thesis using ok store_worktree_ok [OF ok]
    by (auto simp: create_worktree_workspace_def split: sum.splits prod.splits)
next
  case (BindSession E i session)
  have "workspaces_ok (update_workspace i (\<lambda>r. touch now (r\<lparr>ws_created_by := f r\<rparr>)) (fst s))" for now f
    by (rule update_ok [OF ok]) (simp_all add: touch_def workspace_ok_def)
  with BindSession ok show ?thesis by (simp add: bind_created_session_def)
next
  case (RefreshWorkspace E i)
  have "workspaces_ok (update_workspace i (\<lambda>r. if ws_state r = ''active'' then due_now now r else r) (fst s))" for now
    by (rule update_ok [OF ok]) (simp_all add: due_touch_ok, simp_all add: due_now_def)
  with RefreshWorkspace ok show ?thesis by (simp add: request_refresh_def)
next
  case (DeleteWorkspace E i force delete_branch)
  have "workspaces_ok (mark_deleted now i (fst s))" if "load_workspace E (fst s) i = Inr w" "ws_kind w \<noteq> ''main''" for w now
    by (rule mark_deleted_ok [OF ok]) (metis load_workspace_Inr(1,2) that same_row [OF ok])
  with DeleteWorkspace ok delete_db [of E i force delete_branch s] show ?thesis by auto
next
  case (ReconcileWorkspace E i path)
  then show ?thesis using ok reconcile_ok [OF ok, of i E path "snd s"] by (cases s) simp
next
  case (Terminals ps)
  then show ?thesis using ok by (auto simp: workspaces_ok_def)
qed

interpretation workspaces: step_invariant workspace_step "\<lambda>s. workspaces_ok (fst s)"
  by unfold_locales (rule workspace_step_ok)

definition no_workspaces :: workspace_db where
  "no_workspaces = \<lparr>wd_rows = [], wd_dirty = [], wd_ptys = []\<rparr>"

text \<open>
  C16. After any sequence of operations the workspace tables are consistent: ids and paths are
  unique, a repository has at most one main workspace and it is never deleted, kinds and states
  are known ones, dirty paths are keyed by workspace and path, and terminals and dirty paths
  refer to rows that exist.
\<close>

theorem workspaces_invariant: "workspaces_ok (fst (foldl workspace_step (no_workspaces, []) ops))"
  by (rule workspaces.run_inv) (simp add: workspaces_ok_def no_workspaces_def)

end
