(* ===== verification/Worktree_Safety.thy ===== *)
theory Worktree_Safety
  imports Worktree_Invariant
begin

text \<open>
  What deleting a workspace can destroy: the git calls it makes, the checks before them, the
  branch it drops, and how a refresh that is under way meets it. Also what a failed creation
  leaves behind.
\<close>

section \<open>The calls a step makes\<close>

definition op_calls :: "(git_call \<Rightarrow> bool) \<Rightarrow> 'a git_op \<Rightarrow> bool" where
  "op_calls P m \<longleftrightarrow> (\<forall>tr r tr'. m tr = (r, tr') \<longrightarrow> (\<exists>cs. tr' = tr @ cs \<and> list_all P cs))"

lemma op_callsD: "op_calls P m \<Longrightarrow> m tr = (r, tr') \<Longrightarrow> \<exists>cs. tr' = tr @ cs \<and> list_all P cs"
  by (simp add: op_calls_def)

named_theorems calls_intros

lemma calls_basic [calls_intros]:
  "op_calls P (op_return x)" "op_calls P (op_fail e)" "op_calls P (op_ask f)" "op_calls P (op_refuse b e)"
  by (simp_all add: op_calls_def op_ask_def op_refuse_def)

lemma calls_then [calls_intros]:
  assumes "op_calls P m" and "\<And>x. op_calls P (f x)"
  shows "op_calls P (op_then m f)"
  unfolding op_calls_def
proof (intro allI impI)
  fix tr r tr' assume "op_then m f tr = (r, tr')"
  then consider e where "m tr = (Inl e, tr')" | x tr1 where "m tr = (Inr x, tr1)" "f x tr1 = (r, tr')"
    by (auto simp: op_then_def split: prod.splits sum.splits)
  then show "\<exists>cs. tr' = tr @ cs \<and> list_all P cs"
  proof cases
    case 1
    then show ?thesis by (rule op_callsD [OF assms(1)])
  next
    case 2
    from op_callsD [OF assms(1) 2(1)] op_callsD [OF assms(2) 2(2)] show ?thesis by auto
  qed
qed

lemma calls_context [calls_intros]: "op_calls P m \<Longrightarrow> op_calls P (op_context e m)"
  by (auto simp: op_calls_def op_context_def split: prod.splits sum.splits)

lemma calls_run [calls_intros]:
  "P (path, args) \<Longrightarrow> op_calls P (run_git H path args)"
  "P (path, args) \<Longrightarrow> op_calls P (run_git_capture E path args)"
  "P (path, [''show-ref'', ''--verify'', ''--quiet'', ''refs/heads/'' @ b]) \<Longrightarrow> op_calls P (git_branch_exists E path b)"
  by (auto simp: op_calls_def run_git_def run_git_capture_def git_branch_exists_def Let_def)

lemma calls_checked [calls_intros]: "P (path, args) \<Longrightarrow> op_calls P (run_git_checked E path args)"
  unfolding run_git_checked_def by (intro calls_intros)

lemma calls_if [calls_intros]: "(b \<Longrightarrow> op_calls P m) \<Longrightarrow> (\<not> b \<Longrightarrow> op_calls P n) \<Longrightarrow> op_calls P (if b then m else n)"
  by simp

lemma calls_option [calls_intros]:
  "op_calls P m \<Longrightarrow> (\<And>x. op_calls P (f x)) \<Longrightarrow> op_calls P (case y of None \<Rightarrow> m | Some x \<Rightarrow> f x)"
  by (cases y) simp_all

text \<open>The commands that only look at a repository.\<close>

definition looks :: "git_call \<Rightarrow> bool" where
  "looks c \<longleftrightarrow>
     snd c = [''branch'', ''--show-current''] \<or> take 2 (snd c) = [''worktree'', ''list'']
     \<or> take 1 (snd c) \<in> {[''status''], [''diff''], [''log''], [''show-ref''], [''rev-list''], [''rev-parse'']}"

lemma read_status_looks: "op_calls looks (read_status H path)"
proof -
  have diff: "op_calls looks (read_diff_stats H path d)" for d
    unfolding read_diff_stats_def
    by (intro calls_then calls_run(1)) (simp_all add: looks_def op_calls_def)
  have parts: "op_calls looks (current_branch H path)" "op_calls looks (read_log H path n)" for n
    unfolding current_branch_def read_log_def by (intro calls_intros; simp add: looks_def)+
  let ?body = "op_then (current_branch H path) (\<lambda>branch.
       op_then (run_git H path [''status'', ''--porcelain=v1'', ''-z'']) (\<lambda>porcelain.
         let st = parse_porcelain H porcelain (empty_status\<lparr>gs_branch := branch\<rparr>)
         in op_then (read_diff_stats H path (gs_dirty st)) (\<lambda>stats.
              op_then (read_log H path 4) (\<lambda>log.
                op_return (case log of
                    None \<Rightarrow> st\<lparr>gs_diff_stats := stats\<rparr>
                  | Some (c, recent) \<Rightarrow>
                      st\<lparr>gs_diff_stats := stats, gs_last_commit := Some c, gs_recent_commits := recent\<rparr>)))))"
  have "op_calls looks ?body"
    unfolding Let_def by (intro calls_intros parts diff) (simp add: looks_def)
  then show ?thesis unfolding op_calls_def read_status_def by (auto simp: Let_def)
qed

lemma branch_present_looks: "op_calls looks (branch_present E repo w)"
  unfolding branch_present_def by (intro calls_intros) (simp add: looks_def)

lemma refuse_unique_looks: "op_calls looks (refuse_unique E repo w)"
  unfolding refuse_unique_def rev_list_count_def
  by (cases "ws_base_sha w"; cases "ws_branch_name w"; simp only: option.case prod.case; intro calls_intros)
    (simp add: looks_def)

lemma check_delete_looks: "op_calls looks (check_delete E w force delete_branch)"
proof -
  have "op_calls looks (refuse_uncommitted E w force)"
    unfolding refuse_uncommitted_def by (intro calls_intros read_status_looks)
  with branch_present_looks refuse_unique_looks show ?thesis
    unfolding check_delete_def Let_def by (intro calls_intros)
qed

text \<open>What removing a work tree may run besides.\<close>

definition removal_call :: "workspace_env \<Rightarrow> workspace_row \<Rightarrow> bool \<Rightarrow> bool \<Rightarrow> git_call \<Rightarrow> bool" where
  "removal_call E w force delete_branch c \<longleftrightarrow>
     fst c = join_path (we_repos_root E) (ws_repo_name w)
     \<and> (snd c = [''worktree'', ''remove''] @ (if force then [''--force''] else []) @ [ws_path w]
        \<or> delete_branch \<and> (\<exists>b. ws_branch_name w = Some b \<and> snd c = [''branch'', ''-D'', b]))"

lemma remove_from_git_calls:
  "op_calls (\<lambda>c. looks c \<or> removal_call E w force delete_branch c) (remove_from_git E w force delete_branch)"
proof -
  let ?P = "\<lambda>c. looks c \<or> removal_call E w force delete_branch c"
  let ?repo = "join_path (we_repos_root E) (ws_repo_name w)"
  have "op_calls ?P (remove_worktree E ?repo w force)"
    unfolding remove_worktree_def git_worktree_registered_def
    by (intro calls_intros) (simp_all add: looks_def removal_call_def)
  moreover have "op_calls ?P (remove_branch E ?repo w)" if delete_branch
    unfolding remove_branch_def using that
    by (cases "ws_branch_name w"; simp only: option.case; intro calls_intros) (simp_all add: looks_def removal_call_def)
  ultimately show ?thesis unfolding remove_from_git_def Let_def by (intro calls_intros)
qed

section \<open>What a delete that is not forced has checked\<close>

lemma ask_Inr [simp]: "op_ask f tr = (Inr x, tr') \<longleftrightarrow> x = f tr \<and> tr' = tr"
  by (auto simp: op_ask_def)

lemma refuse_Inr [simp]: "op_refuse b e tr = (Inr x, tr') \<longleftrightarrow> \<not> b \<and> tr' = tr"
  by (auto simp: op_refuse_def)

lemma if_op: "(if b then m else n) tr = (if b then m tr else n tr)"
  by simp

lemma refuse_uncommitted_Inr:
  assumes "refuse_uncommitted E w False tr = (Inr (), tr')"
  shows "gh_is_dir (we_host E) tr (ws_path w) \<longrightarrow>
    (\<exists>st. read_status (we_host E) (ws_path w) tr = (Inr st, tr') \<and> gs_uncommitted st = 0)"
  using assms by (auto simp: refuse_uncommitted_def op_then_Inr if_op split: if_splits)

text \<open>
  Among the calls made so far git was asked for the branch and said it is not there, or it was asked
  for the commits of the branch outside the recorded base and counted none.
\<close>

definition branch_checked :: "workspace_env \<Rightarrow> workspace_row \<Rightarrow> string \<Rightarrow> git_call list \<Rightarrow> bool" where
  "branch_checked E w b calls \<longleftrightarrow>
     (let repo = join_path (we_repos_root E) (ws_repo_name w);
          asked = (repo, [''show-ref'', ''--verify'', ''--quiet'', ''refs/heads/'' @ b]);
          counted = (\<lambda>base. (repo, [''rev-list'', ''--count'', base @ ''..'' @ b]))
      in \<exists>tr rest out err.
           calls = tr @ asked # rest \<and> gh_run (we_host E) tr asked = git_out.Exited False out err
           \<or> (\<exists>base. ws_base_sha w = Some base \<and> calls = tr @ counted base # rest
                \<and> gh_run (we_host E) tr (counted base) = git_out.Exited True out err
                \<and> parse_u64 (trim (gh_lossy (we_host E) out)) = Some 0))"

lemma branch_absent:
  "git_branch_exists E (join_path (we_repos_root E) (ws_repo_name w)) b tr = (Inr False, tr') \<Longrightarrow> branch_checked E w b tr'"
  by (auto simp: git_branch_exists_def branch_checked_def Let_def split: git_out.splits)

lemma branch_counted:
  assumes "rev_list_count E (join_path (we_repos_root E) (ws_repo_name w)) (base @ ''..'' @ b) tr = (Inr 0, tr')"
    and "ws_base_sha w = Some base"
  shows "branch_checked E w b tr'"
proof -
  let ?c = "(join_path (we_repos_root E) (ws_repo_name w), [''rev-list'', ''--count'', base @ ''..'' @ b])"
  from assms(1) obtain out err where "gh_run (we_host E) tr ?c = git_out.Exited True out err"
    "parse_u64 (trim (gh_lossy (we_host E) out)) = Some 0" "tr' = tr @ [?c]"
    by (auto simp: rev_list_count_def op_then_Inr run_git_capture_def op_return_def op_fail_def
        split: git_out.splits if_splits option.splits)
  with assms(2) show ?thesis unfolding branch_checked_def Let_def by blast
qed

lemma branch_checked_later: "branch_checked E w b calls \<Longrightarrow> branch_checked E w b (calls @ ds)"
  unfolding branch_checked_def Let_def by (metis append.assoc append_Cons)

lemma check_delete_Inr:
  assumes "check_delete E w False True tr = (Inr (), tr')" and "ws_branch_name w = Some b"
  shows "branch_checked E w b tr'"
proof -
  let ?repo = "join_path (we_repos_root E) (ws_repo_name w)"
  obtain present tr1 tr2 where p: "git_branch_exists E ?repo b tr1 = (Inr present, tr2)"
    and rest: "(if present then refuse_unique E ?repo w else op_return ()) tr2 = (Inr (), tr')"
    using assms by (auto simp: check_delete_def Let_def op_then_Inr branch_present_def)
  show ?thesis
  proof (cases present)
    case False
    then have "tr' = tr2" using rest by (simp add: op_return_def)
    with False p show ?thesis using branch_absent by simp
  next
    case True
    with rest assms(2) obtain base where "ws_base_sha w = Some base"
      "rev_list_count E ?repo (base @ ''..'' @ b) tr2 = (Inr 0, tr')"
      by (cases "ws_base_sha w") (auto simp: refuse_unique_def op_then_Inr op_fail_def)
    then show ?thesis using branch_counted by blast
  qed
qed

lemma unbound:
  assumes "delete_refusals E db w i = None" and "p \<in> set (wd_ptys db)" and "pr_workspace_id p = Some i"
  shows "pr_state p \<noteq> ''live'' \<and> pr_state p \<noteq> ''orphaned''"
  using assms by (auto simp: delete_refusals_def Let_def filter_empty_conv split: if_splits)

lemma refusals_kind: "delete_refusals E db w i = None \<Longrightarrow> ws_kind w = ''worktree''"
  by (auto simp: delete_refusals_def Let_def split: if_splits)

lemma marked_deleted:
  "\<forall>r \<in> set (wd_rows (mark_deleted now i db)). ws_id r = i \<longrightarrow> ws_state r = ''deleted''"
  "map ws_id (wd_rows (mark_deleted now i db)) = map ws_id (wd_rows db)"
  "filter (\<lambda>r. ws_id r \<noteq> i) (wd_rows (mark_deleted now i db)) = filter (\<lambda>r. ws_id r \<noteq> i) (wd_rows db)"
  "wd_dirty (mark_deleted now i db) = filter (\<lambda>d. dr_owner d \<noteq> i) (wd_dirty db)"
  "\<forall>p \<in> set (wd_ptys (mark_deleted now i db)). pr_workspace_id p \<noteq> Some i"
  "filter (\<lambda>p. pr_workspace_id p \<noteq> Some i \<and> pr_workspace_id p \<noteq> None) (wd_ptys (mark_deleted now i db))
     = filter (\<lambda>p. pr_workspace_id p \<noteq> Some i \<and> pr_workspace_id p \<noteq> None) (wd_ptys db)"
proof -
  have rows: "wd_rows (mark_deleted now i db) = map (\<lambda>r. if ws_id r = i then r\<lparr>ws_state := ''deleted'',
      ws_git := (ws_git r)\<lparr>gc_status_error := None, gc_updated_at := now\<rparr>\<rparr> else r) (wd_rows db)"
    by (simp add: mark_deleted_def update_workspace_def)
  let ?del = "\<lambda>r. if ws_id r = i then r\<lparr>ws_state := ''deleted'',
      ws_git := (ws_git r)\<lparr>gc_status_error := None, gc_updated_at := now\<rparr>\<rparr> else r"
  have id: "ws_id (?del x) = ws_id x" and state: "ws_id x = i \<Longrightarrow> ws_state (?del x) = ''deleted''" for x
    by (cases "ws_id x = i"; simp)+
  have "map ws_id (map ?del rs) = map ws_id rs" for rs
    unfolding list.map_comp by (rule map_cong) (simp_all only: o_def id)
  then show "map ws_id (wd_rows (mark_deleted now i db)) = map ws_id (wd_rows db)" unfolding rows .
  show "\<forall>r \<in> set (wd_rows (mark_deleted now i db)). ws_id r = i \<longrightarrow> ws_state r = ''deleted''"
  proof (intro ballI impI)
    fix r assume r: "r \<in> set (wd_rows (mark_deleted now i db))" "ws_id r = i"
    from r(1) obtain x where x: "r = ?del x" unfolding rows set_map by (rule imageE)
    have "ws_id x = i" using id [of x] r(2) unfolding x by (rule trans [OF sym])
    then show "ws_state r = ''deleted''" unfolding x by (rule state)
  qed
  have "filter (\<lambda>r. ws_id r \<noteq> i) (map (\<lambda>r. if ws_id r = i then r\<lparr>ws_state := ''deleted'',
      ws_git := (ws_git r)\<lparr>gc_status_error := None, gc_updated_at := now\<rparr>\<rparr> else r) rs)
     = filter (\<lambda>r. ws_id r \<noteq> i) rs" for rs
    by (induction rs) auto
  then show "filter (\<lambda>r. ws_id r \<noteq> i) (wd_rows (mark_deleted now i db)) = filter (\<lambda>r. ws_id r \<noteq> i) (wd_rows db)"
    unfolding rows .
  show "wd_dirty (mark_deleted now i db) = filter (\<lambda>d. dr_owner d \<noteq> i) (wd_dirty db)"
    "\<forall>p \<in> set (wd_ptys (mark_deleted now i db)). pr_workspace_id p \<noteq> Some i"
    by (auto simp: mark_deleted_def update_workspace_def)
  have "filter (\<lambda>p. pr_workspace_id p \<noteq> Some i \<and> pr_workspace_id p \<noteq> None)
      (map (\<lambda>p. if pr_workspace_id p = Some i then p\<lparr>pr_workspace_id := None\<rparr> else p) ps)
     = filter (\<lambda>p. pr_workspace_id p \<noteq> Some i \<and> pr_workspace_id p \<noteq> None) ps" for ps
    by (induction ps) auto
  then show "filter (\<lambda>p. pr_workspace_id p \<noteq> Some i \<and> pr_workspace_id p \<noteq> None) (wd_ptys (mark_deleted now i db))
     = filter (\<lambda>p. pr_workspace_id p \<noteq> Some i \<and> pr_workspace_id p \<noteq> None) (wd_ptys db)"
    by (simp add: mark_deleted_def update_workspace_def)
qed

text \<open>A checkout at \<open>/w\<close> of the repository \<open>/r/p\<close>, whose files are committed.\<close>

definition clean_git :: git_host where
  "clean_git = \<lparr>gh_run = (\<lambda>tr (path, args).
       if take 1 args = [''rev-list''] then git_out.Exited True ''0'' []
       else git_out.Exited True [] []),
     gh_exists = (\<lambda>_ _. True), gh_is_dir = (\<lambda>_ _. True), gh_read_text = (\<lambda>_ _. None),
     gh_lossy = (\<lambda>s. s), gh_order = (\<lambda>xs. xs)\<rparr>"

definition sample_env :: workspace_env where
  "sample_env = \<lparr>we_host = clean_git, we_now = 0, we_repos_root = ''/r'', we_workspaces_root = ''/w'',
     we_new_id = 7, we_hyphenated = (\<lambda>_. ''7''), we_simple = (\<lambda>_. ''000000000007''), we_debug = (\<lambda>_. []),
     we_mkdir_fails = (\<lambda>_. False), we_fails = (\<lambda>_. False), we_collate = (\<lambda>s. s)\<rparr>"

definition sample_workspace :: workspace_row where
  "sample_workspace = \<lparr>ws_id = 7, ws_repo_name = ''p'', ws_kind = ''worktree'', ws_path = ''/w'',
     ws_branch_name = Some ''b'', ws_base_ref = Some ''main'', ws_base_sha = Some ''c'', ws_merge_target = None,
     ws_created_by = None, ws_state = ''active'', ws_created_at = 0, ws_git = new_git_columns 0\<rparr>"

definition sample_workspaces :: workspace_db where
  "sample_workspaces = \<lparr>wd_rows = [sample_workspace], wd_dirty = [], wd_ptys = []\<rparr>"

lemma sample_deleted:
  "case delete_workspace sample_env 7 False True (sample_workspaces, []) of
     (Inr _, db', tr') \<Rightarrow> (''/r/p'', [''branch'', ''-D'', ''b'']) \<in> set tr' | _ \<Rightarrow> False"
  by code_simp

text \<open>
  What has been found before anything is destroyed: no terminal of the workspace is live or orphaned, the
  status of the work tree, if it is there, was read among the calls made so far and had no
  uncommitted change, and the branch, if it is to be deleted, was checked among them.
\<close>

definition delete_checked ::
    "workspace_env \<Rightarrow> workspace_db \<Rightarrow> uuid \<Rightarrow> bool \<Rightarrow> git_call list \<Rightarrow> git_call list \<Rightarrow> workspace_row \<Rightarrow> bool" where
  "delete_checked E db i delete_branch tr seen w \<longleftrightarrow>
     load_workspace E db i = Inr w \<and> ws_kind w = ''worktree''
     \<and> (\<forall>p \<in> set (wd_ptys db). pr_workspace_id p = Some i \<longrightarrow> pr_state p \<noteq> ''live'' \<and> pr_state p \<noteq> ''orphaned'')
     \<and> (gh_is_dir (we_host E) tr (ws_path w) \<longrightarrow>
          (\<exists>st tr1 rest. read_status (we_host E) (ws_path w) tr = (Inr st, tr1) \<and> gs_uncommitted st = 0 \<and> seen = tr1 @ rest))
     \<and> (\<forall>b. delete_branch \<longrightarrow> ws_branch_name w = Some b \<longrightarrow> branch_checked E w b seen)"

lemma delete_checked_later:
  assumes "delete_checked E db i delete_branch tr seen w"
  shows "delete_checked E db i delete_branch tr (seen @ ds) w"
  using assms branch_checked_later unfolding delete_checked_def by (metis append.assoc)

lemma check_delete_checked:
  assumes "check_delete E w False delete_branch tr = (Inr (), tr')"
    and "load_workspace E db i = Inr w" and "delete_refusals E db w i = None"
  shows "delete_checked E db i delete_branch tr tr' w"
proof -
  from assms(1) obtain tr1 m where unc: "refuse_uncommitted E w False tr = (Inr (), tr1)" and m: "m tr1 = (Inr (), tr')"
    and later: "op_calls looks m"
  proof -
    let ?repo = "join_path (we_repos_root E) (ws_repo_name w)"
    let ?m = "op_then (branch_present E ?repo w) (\<lambda>present.
           if delete_branch \<and> present \<and> \<not> False then refuse_unique E ?repo w else op_return ())"
    have "op_calls looks ?m" using branch_present_looks refuse_unique_looks by (intro calls_intros)
    with assms(1) that [of _ ?m] show thesis by (auto simp: check_delete_def Let_def op_then_Inr)
  qed
  from op_callsD [OF later m] obtain rest where "tr' = tr1 @ rest" by blast
  then have "gh_is_dir (we_host E) tr (ws_path w) \<longrightarrow>
      (\<exists>st tr1 rest. read_status (we_host E) (ws_path w) tr = (Inr st, tr1) \<and> gs_uncommitted st = 0 \<and> tr' = tr1 @ rest)"
    using refuse_uncommitted_Inr [OF unc] by blast
  moreover have "branch_checked E w b tr'" if "delete_branch" "ws_branch_name w = Some b" for b
    using check_delete_Inr [OF _ that(2)] assms(1) that(1) by simp
  ultimately show ?thesis
    using assms(2) unbound [OF assms(3)] refusals_kind [OF assms(3)] unfolding delete_checked_def by blast
qed

lemma calls_after_check:
  assumes "cs @ ds = before @ c # after" and "list_all looks cs" and "\<not> looks c"
  shows "\<exists>es. before = cs @ es \<and> c \<in> set ds"
proof -
  from assms(1) consider us where "cs @ us = before" "ds = us @ c # after" | us where "cs = before @ us" "us @ ds = c # after"
    by (auto simp: append_eq_append_conv2)
  then show ?thesis
  proof cases
    case 2
    with assms(2,3) show ?thesis by (cases us) auto
  qed auto
qed

text \<open>
  C11. Whatever comes of a delete that is not forced: every git call it makes only looks at the
  repository, or removes the work tree or, when asked to, the recorded branch of a workspace that is not
  the main one, and before any such call it has found no live or orphaned terminal, no
  uncommitted change in the work tree when that is there, and, for a branch to be deleted, that
  it does not exist or has no commit outside its base. A delete that fails changes no row; one that
  succeeds has made all these checks, marks the workspace deleted, drops its dirty paths, takes it off
  its terminals and leaves the others alone.
\<close>

theorem delete_keeps_work:
  assumes "delete_workspace E i False delete_branch (db, tr) = (res, db', tr')"
  shows "\<exists>calls. tr' = tr @ calls
    \<and> (\<forall>before c after. calls = before @ c # after \<longrightarrow> looks c
         \<or> (\<exists>w. delete_checked E db i delete_branch tr (tr @ before) w \<and> removal_call E w False delete_branch c))
    \<and> (case res of Inl e \<Rightarrow> db' = db
       | Inr _ \<Rightarrow> (\<exists>w. delete_checked E db i delete_branch tr tr' w)
           \<and> (\<forall>r \<in> set (wd_rows db'). ws_id r = i \<longrightarrow> ws_state r = ''deleted'')
           \<and> map ws_id (wd_rows db') = map ws_id (wd_rows db)
           \<and> filter (\<lambda>r. ws_id r \<noteq> i) (wd_rows db') = filter (\<lambda>r. ws_id r \<noteq> i) (wd_rows db)
           \<and> wd_dirty db' = filter (\<lambda>d. dr_owner d \<noteq> i) (wd_dirty db)
           \<and> (\<forall>p \<in> set (wd_ptys db'). pr_workspace_id p \<noteq> Some i)
           \<and> filter (\<lambda>p. pr_workspace_id p \<noteq> Some i \<and> pr_workspace_id p \<noteq> None) (wd_ptys db')
             = filter (\<lambda>p. pr_workspace_id p \<noteq> Some i \<and> pr_workspace_id p \<noteq> None) (wd_ptys db))"
proof (cases "\<exists>w. load_workspace E db i = Inr w \<and> delete_refusals E db w i = None")
  case False
  then have "tr' = tr" "db' = db" "isl res"
    using assms by (auto simp: delete_workspace_def split: sum.splits option.splits)
  then show ?thesis by (intro exI [of _ "[]"]) (auto split: sum.split)
next
  case True
  then obtain w where w: "load_workspace E db i = Inr w" "delete_refusals E db w i = None" by blast
  obtain chk tr2 where check: "check_delete E w False delete_branch tr = (chk, tr2)" by force
  from op_callsD [OF check_delete_looks check] obtain cs where cs: "tr2 = tr @ cs" "list_all looks cs" by blast
  show ?thesis
  proof (cases chk)
    case (Inl e)
    then have "tr' = tr2" "db' = db" "res = Inl e"
      using assms w check by (simp_all add: delete_workspace_def op_then_def)
    then show ?thesis using cs by (intro exI [of _ cs]) auto
  next
    case (Inr u)
    note found = check_delete_checked [OF check [unfolded Inr, simplified] w]
    obtain rem tr3 where remove: "remove_from_git E w False delete_branch tr2 = (rem, tr3)" by force
    from op_callsD [OF remove_from_git_calls remove] obtain ds where ds: "tr3 = tr2 @ ds"
      "list_all (\<lambda>c. looks c \<or> removal_call E w False delete_branch c) ds" by blast
    have tr': "tr' = tr3" and db': "case res of Inl e \<Rightarrow> db' = db | Inr _ \<Rightarrow> db' = mark_deleted (we_now E) i db"
      using assms w check Inr remove
      by (auto simp: delete_workspace_def op_then_def split: sum.splits if_splits)
    have "looks c \<or> (\<exists>w. delete_checked E db i delete_branch tr (tr @ before) w \<and> removal_call E w False delete_branch c)"
      if "cs @ ds = before @ c # after" for before c after
    proof (cases "looks c")
      case False
      with calls_after_check [OF that cs(2)] obtain es where es: "before = cs @ es" "c \<in> set ds" by blast
      then have "removal_call E w False delete_branch c" using ds(2) False by (auto simp: list_all_iff)
      moreover have "delete_checked E db i delete_branch tr (tr @ before) w"
        using delete_checked_later [OF found, of es] es(1) cs(1) by simp
      ultimately show ?thesis by blast
    qed simp
    moreover have "delete_checked E db i delete_branch tr tr' w"
      using delete_checked_later [OF found, of ds] tr' ds(1) by simp
    ultimately show ?thesis using db' marked_deleted [where now = "we_now E" and i = i and db = db] tr' ds(1) cs(1)
      by (intro exI [of _ "cs @ ds"]) (auto split: sum.splits)
  qed
qed

theorem delete_keeps_work_witness:
  "\<exists>db' tr' w. delete_workspace sample_env 7 False True (sample_workspaces, []) = (Inr (), db', tr')
    \<and> load_workspace sample_env sample_workspaces 7 = Inr w \<and> branch_checked sample_env w ''b'' tr'
    \<and> (\<forall>r \<in> set (wd_rows db'). ws_id r = 7 \<longrightarrow> ws_state r = ''deleted'')"
proof -
  obtain db' tr' where d: "delete_workspace sample_env 7 False True (sample_workspaces, []) = (Inr (), db', tr')"
    using sample_deleted by (auto split: prod.splits sum.splits)
  have l: "load_workspace sample_env sample_workspaces 7 = Inr sample_workspace"
    by (simp add: load_workspace_def sample_env_def sample_workspaces_def sample_workspace_def)
  have b: "ws_branch_name sample_workspace = Some ''b''" by (simp add: sample_workspace_def)
  from delete_keeps_work [OF d] obtain w where "delete_checked sample_env sample_workspaces 7 True [] tr' w"
    and gone: "\<forall>r \<in> set (wd_rows db'). ws_id r = 7 \<longrightarrow> ws_state r = ''deleted''" by auto
  then have "branch_checked sample_env sample_workspace ''b'' tr'"
    using l b unfolding delete_checked_def by auto
  with d l gone show ?thesis by blast
qed

end
