(* ===== verification/Worktree_Races.thy ===== *)
theory Worktree_Races
  imports Worktree_Safety
begin

text \<open>
  Creation, and what the interplay of refreshing and deleting does to a workspace.
\<close>

section \<open>Creation\<close>

lemma branch_component_safe: "branch_component s \<noteq> [] \<and> list_all git_safe_char (branch_component s)"
proof -
  have "list_all git_safe_char ''repo''" by code_simp
  moreover have "git_safe_char (CHR ''-'')" by code_simp
  then have "git_safe_char (if git_safe_char c then c else CHR ''-'')" for c by simp
  then have "list_all git_safe_char (map (\<lambda>c. if git_safe_char c then c else CHR ''-'') xs)" for xs
    by (simp only: list_all_iff set_map ball_simps) blast
  ultimately show ?thesis by (simp only: branch_component_def Let_def split: if_split) simp
qed

lemma branch_component_fixed:
  assumes "s \<noteq> []" and "list_all git_safe_char s"
  shows "branch_component s = s"
proof -
  have ascii: "\<not> cont_byte c" if "git_safe_char c" for c
    using that by (auto simp: git_safe_char_def cont_byte_def ascii_alnum_def ascii_upper_def ascii_lower_def ascii_digit_def)
  then have "filter (\<lambda>c. \<not> cont_byte c) s = s" using assms(2) by (simp add: list_all_iff filter_id_conv)
  moreover have "map (\<lambda>c. if git_safe_char c then c else CHR ''-'') s = s"
    using assms(2) by (induction s) auto
  ultimately show ?thesis using assms(1) by (simp add: branch_component_def Let_def)
qed

text \<open>Git allows no two dots in the name of a branch; a repository may have them in its own.\<close>

lemma branch_component_dots: "branch_component ''a..b'' = ''a..b''"
  by code_simp

lemma context_Inr [simp]: "op_context e m tr = (Inr x, tr') \<longleftrightarrow> m tr = (Inr x, tr')"
  by (auto simp: op_context_def split: prod.splits sum.splits)

lemma capture_trace: "run_git_capture E path args tr = (r, tr') \<Longrightarrow> tr' = tr @ [(path, args)]"
  by (simp add: run_git_capture_def)

lemma add_worktree_Inr:
  assumes "add_worktree E repo tr = (Inr (base_ref, base_sha), tr')"
  shows "valid_repo_name repo"
    and "\<exists>tr1. tr' = tr1 @ [(join_path (we_repos_root E) repo,
          [''worktree'', ''add'', ''-b'', worktree_branch E repo, worktree_path E repo, base_ref])]"
  using assms unfolding add_worktree_def run_git_checked_def
  by (auto simp: Let_def op_then_Inr op_return_def dest: capture_trace)

text \<open>The row of a work tree that was just made.\<close>

definition fresh_worktree :: "workspace_env \<Rightarrow> string \<Rightarrow> string \<Rightarrow> string \<Rightarrow> workspace_row" where
  "fresh_worktree E repo base_ref base_sha =
     new_workspace E repo ''worktree'' (worktree_path E repo) (Some (worktree_branch E repo)) (Some base_ref) (Some base_sha)"

lemma store_worktree_Inr:
  assumes "store_worktree E db repo base_ref base_sha = (Inr w, db')"
  shows "w = fresh_worktree E repo base_ref base_sha" "wd_rows db' = wd_rows db @ [w]"
    "ws_id w \<notin> ws_id ` set (wd_rows db)" "ws_path w \<notin> ws_path ` set (wd_rows db)"
proof -
  let ?w = "fresh_worktree E repo base_ref base_sha"
  have store: "store_worktree E db repo base_ref base_sha
      = (case (if we_fails E ''insert worktree workspace'' then None else insert_workspace ?w db) of
          None \<Rightarrow> (Inl (''insert worktree workspace for '' @ repo), db)
        | Some db' \<Rightarrow> (load_workspace E db' (we_new_id E), db'))"
    unfolding store_worktree_def fresh_worktree_def ..
  have "\<not> we_fails E ''insert worktree workspace''" using assms unfolding store by (cases "we_fails E ''insert worktree workspace''") simp_all
  then have store': "(case insert_workspace ?w db of
        None \<Rightarrow> (Inl (''insert worktree workspace for '' @ repo), db)
      | Some db' \<Rightarrow> (load_workspace E db' (we_new_id E), db')) = (Inr w, db')"
    using assms unfolding store by simp
  then have ins: "insert_workspace ?w db = Some db'" and load: "load_workspace E db' (we_new_id E) = Inr w"
    by (cases "insert_workspace ?w db"; simp)+
  have new: "ws_id ?w \<notin> ws_id ` set (wd_rows db)" "ws_path ?w \<notin> ws_path ` set (wd_rows db)"
    and "db\<lparr>wd_rows := wd_rows db @ [?w]\<rparr> = db'"
    using ins unfolding insert_workspace_def by (simp_all split: if_split_asm)
  then have rows: "wd_rows db' = wd_rows db @ [?w]" by (auto simp: set_rows)
  have i: "ws_id ?w = we_new_id E" by (simp add: fresh_worktree_def new_workspace_def)
  have "w \<notin> set (wd_rows db)"
  proof
    assume "w \<in> set (wd_rows db)"
    then have "ws_id w \<in> ws_id ` set (wd_rows db)" by (rule imageI)
    then show False using load_workspace_Inr(2) [OF load] new(1) i by simp
  qed
  with load_workspace_Inr(1) [OF load] rows show "w = ?w" by simp
  with new rows show "wd_rows db' = wd_rows db @ [w]" "ws_id w \<notin> ws_id ` set (wd_rows db)"
    "ws_path w \<notin> ws_path ` set (wd_rows db)" by simp_all
qed

section \<open>A refresh that was under way\<close>

lemma find_map_none: "(\<And>x. x \<in> set xs \<Longrightarrow> \<not> P (f x)) \<Longrightarrow> find P (map f xs) = None"
  by (auto simp: find_None_iff)

lemma mark_deleted_gone: "find (\<lambda>r. ws_id r = i \<and> ws_state r \<noteq> ''deleted'') (wd_rows (mark_deleted now i db)) = None"
  unfolding mark_deleted_def update_workspace_def set_rows by (rule find_map_none) auto

lemma find_updated:
  assumes "i \<in> ws_id ` set (wd_rows db)" and "\<And>q. ws_id (f q) = ws_id q" and "\<And>q. P (f q)"
  shows "\<exists>q. find (\<lambda>r. ws_id r = i \<and> P r) (wd_rows (update_workspace i f db)) = Some (f q)"
proof -
  let ?rows = "wd_rows (update_workspace i f db)"
  have rows: "?rows = map (\<lambda>r. if ws_id r = i then f r else r) (wd_rows db)" by (simp add: update_workspace_def)
  have all: "\<exists>q. r = f q" if "r \<in> set ?rows" "ws_id r = i" for r
  proof -
    have "r \<in> (\<lambda>r. if ws_id r = i then f r else r) ` set (wd_rows db)" using that(1) by (simp only: rows set_map)
    then obtain q where "r = (if ws_id q = i then f q else q)" by (rule imageE)
    with that(2) assms(2) show ?thesis by (cases "ws_id q = i") auto
  qed
  obtain q where q: "q \<in> set (wd_rows db)" "ws_id q = i" using assms(1) by blast
  then have "f q \<in> set ?rows" unfolding rows set_map by force
  then have "find (\<lambda>r. ws_id r = i \<and> P r) ?rows \<noteq> None"
    using assms(2,3) q(2) unfolding find_None_iff by blast
  then obtain r where r: "find (\<lambda>r. ws_id r = i \<and> P r) ?rows = Some r" by blast
  then have "r \<in> set ?rows" "ws_id r = i" unfolding find_Some_iff by (metis nth_mem, blast)
  with r all show ?thesis by metis
qed

text \<open>
  A refresh that listed a workspace before it was deleted, and comes to it afterwards,
  brings it back: its path is gone, so the row is marked missing, which is not deleted, and
  the workspace is loaded and listed again.
\<close>

theorem refresh_undoes_delete:
  assumes "(i, path) \<in> set (due_workspaces now limit db)"
    and "delete_workspace E i force delete_branch (db, tr) = (Inr (), db', tr')"
    and "\<not> gh_is_dir (rc_host R) tr' path" and "\<not> rc_start_fails R"
    and "\<not> we_fails E2 ''load workspace''"
  shows "(\<exists>e. load_workspace E2 db' i = Inl e)
    \<and> (\<exists>w. load_workspace E2 (fst (reconcile_workspace R (i, path) (db', tr'))) i = Inr w \<and> ws_state w = ''missing'')"
proof -
  obtain w where w: "load_workspace E db i = Inr w" and db': "db' = mark_deleted (we_now E) i db"
    by (rule deleted_from [OF assms(2)])
  have "i \<in> ws_id ` set (wd_rows db')"
    using load_workspace_Inr [OF w] by (auto simp: db' mark_deleted_def ids_update)
  then obtain q where "find (\<lambda>r. ws_id r = i \<and> ws_state r \<noteq> ''deleted'')
      (wd_rows (update_workspace i (mark_missing R path) db')) = Some (mark_missing R path q)"
    using find_updated [of i db' "mark_missing R path" "\<lambda>r. ws_state r \<noteq> ''deleted''"] by (auto simp: mark_missing_def)
  moreover have "reconcile_workspace R (i, path) (db', tr') = (update_workspace i (mark_missing R path) db', tr')"
    using assms(3,4) by (simp add: reconcile_workspace_def reconcile_workspace_inner_def)
  ultimately show ?thesis
    using assms(5) mark_deleted_gone [of i "we_now E" db] by (simp add: load_workspace_def db' mark_missing_def)
qed

section \<open>Which branch is dropped\<close>

lemma stored_branch:
  assumes "r \<in> set (wd_rows (store_workspace_status R i st db))" and "ws_id r = i"
  shows "ws_branch_name r = gs_branch st"
proof -
  let ?f = "\<lambda>r. r\<lparr>ws_branch_name := gs_branch st, ws_git := store_columns R WORKSPACE_STATUS_CADENCE_SECS st (ws_git r)\<rparr>"
  have "r \<in> set (map (\<lambda>r. if ws_id r = i then ?f r else r) (wd_rows db))"
    using assms(1) by (simp only: store_workspace_status_def update_workspace_def set_rows)
  then obtain q where "r = (if ws_id q = i then ?f q else q)" by force
  with assms(2) show ?thesis by (cases "ws_id q = i") simp_all
qed

lemma reconciled_workspace:
  assumes "reconcile_workspace_inner R db i path tr = (Inr (), db', tr')" and "gh_is_dir (rc_host R) tr path"
  obtains st db1 where "read_status (rc_host R) path tr = (Inr st, tr')" "db' = store_workspace_status R i st db1"
  using assms by (auto simp: reconcile_workspace_inner_def Let_def split: if_splits prod.splits sum.splits)

lemma remove_branch_runs:
  assumes "remove_branch E repo w tr = (Inr (), tr')" and "ws_branch_name w = Some b"
    and "\<And>tr. fst (git_branch_exists E repo b tr) = Inr True"
  shows "(repo, [''branch'', ''-D'', b]) \<in> set (drop (length tr) tr')"
proof -
  have "git_branch_exists E repo b tr = (Inr True, snd (git_branch_exists E repo b tr))"
    using assms(3) by (simp add: prod_eq_iff)
  moreover obtain c where "snd (git_branch_exists E repo b tr) = tr @ [c]"
    by (simp add: git_branch_exists_def Let_def)
  ultimately obtain x where "run_git_capture E repo [''branch'', ''-D'', b] (tr @ [c]) = (Inr x, tr')"
    using assms(1,2) by (auto simp: remove_branch_def op_then_def run_git_checked_def op_return_def
        split: prod.splits sum.splits)
  then show ?thesis by (auto dest: capture_trace)
qed

lemma deleted_calls:
  assumes "delete_workspace E i force delete_branch (db, tr) = (Inr (), db', tr')"
  obtains w where "load_workspace E db i = Inr w"
    "\<forall>c \<in> set (drop (length tr) tr'). looks c \<or> removal_call E w force delete_branch c"
proof -
  obtain w where w: "load_workspace E db i = Inr w"
    and run: "op_then (check_delete E w force delete_branch) (\<lambda>_. remove_from_git E w force delete_branch) tr = (Inr (), tr')"
    by (rule deleted_from [OF assms])
  have "op_calls (\<lambda>c. looks c \<or> removal_call E w force delete_branch c) (check_delete E w force delete_branch)"
    using check_delete_looks unfolding op_calls_def list_all_iff by blast
  then have "op_calls (\<lambda>c. looks c \<or> removal_call E w force delete_branch c)
      (op_then (check_delete E w force delete_branch) (\<lambda>_. remove_from_git E w force delete_branch))"
    by (intro calls_then remove_from_git_calls)
  from op_callsD [OF this run] obtain cs where "tr' = tr @ cs"
    "\<forall>c \<in> set cs. looks c \<or> removal_call E w force delete_branch c" by (auto simp: list_all_iff)
  with w show ?thesis by (intro that) simp_all
qed

text \<open>
  The branch a delete drops is not the one made for the workspace, but the one that was
  checked out in it at the last refresh: a refresh stores the current branch in the column that
  the delete reads.
\<close>

theorem delete_drops_checked_out:
  assumes "reconcile_workspace_inner R db i path tr = (Inr (), db1, tr1)" and "gh_is_dir (rc_host R) tr path"
    and "delete_workspace E i force True (db1, tr2) = (Inr (), db2, tr3)"
  shows "\<exists>st. read_status (rc_host R) path tr = (Inr st, tr1)
    \<and> (\<forall>repo b. (repo, [''branch'', ''-D'', b]) \<in> set (drop (length tr2) tr3) \<longrightarrow> gs_branch st = Some b)"
proof -
  obtain st db0 where st: "read_status (rc_host R) path tr = (Inr st, tr1)" and db1: "db1 = store_workspace_status R i st db0"
    by (rule reconciled_workspace [OF assms(1,2)])
  obtain w where w: "load_workspace E db1 i = Inr w"
    and calls: "\<forall>c \<in> set (drop (length tr2) tr3). looks c \<or> removal_call E w force True c"
    by (rule deleted_calls [OF assms(3)])
  have branch: "ws_branch_name w = gs_branch st"
    using load_workspace_Inr [OF w] unfolding db1 by (metis stored_branch)
  have "gs_branch st = Some b" if "(repo, [''branch'', ''-D'', b]) \<in> set (drop (length tr2) tr3)" for repo b
  proof -
    have "looks (repo, [''branch'', ''-D'', b]) \<or> removal_call E w force True (repo, [''branch'', ''-D'', b])"
      using calls that by blast
    then show ?thesis by (auto simp: looks_def removal_call_def branch split: if_splits)
  qed
  with st show ?thesis by blast
qed

text \<open>
  A work tree is made for a valid name only, on a branch of its own whose name git takes,
  at an id and a path no workspace ever had, and the one row added for it is active and of the
  repository; the other rows stay. When the row cannot be stored, the work tree git has
  already made is left behind.
\<close>

theorem created_worktree:
  assumes "create_worktree_workspace E repo (db, tr) = (r, db', tr')"
  shows "(\<forall>w. r = Inr w \<longrightarrow> valid_repo_name repo \<and> wd_rows db' = wd_rows db @ [w]
      \<and> ws_id w \<notin> ws_id ` set (wd_rows db) \<and> ws_path w \<notin> ws_path ` set (wd_rows db)
      \<and> ws_repo_name w = repo \<and> ws_kind w = ''worktree'' \<and> ws_state w = ''active''
      \<and> ws_branch_name w = Some (worktree_branch E repo)
      \<and> (\<exists>base_ref tr1. ws_base_ref w = Some base_ref
          \<and> tr' = tr1 @ [(join_path (we_repos_root E) repo,
              [''worktree'', ''add'', ''-b'', worktree_branch E repo, ws_path w, base_ref])]))
    \<and> (we_fails E ''insert worktree workspace'' \<longrightarrow> fst (add_worktree E repo tr) = Inr (base_ref, base_sha)
        \<longrightarrow> r = Inl (''insert worktree workspace for '' @ repo) \<and> db' = db
          \<and> (\<exists>tr1. tr' = tr1 @ [(join_path (we_repos_root E) repo,
              [''worktree'', ''add'', ''-b'', worktree_branch E repo, worktree_path E repo, base_ref])]))"
proof (intro conjI allI impI)
  fix w assume r: "r = Inr w"
  from assms obtain base_ref base_sha where add: "add_worktree E repo tr = (Inr (base_ref, base_sha), tr')"
    and store: "store_worktree E db repo base_ref base_sha = (Inr w, db')"
    unfolding r create_worktree_workspace_def by (auto split: prod.splits sum.splits)
  note row = store_worktree_Inr [OF store]
  show "valid_repo_name repo" "wd_rows db' = wd_rows db @ [w]" "ws_id w \<notin> ws_id ` set (wd_rows db)"
    "ws_path w \<notin> ws_path ` set (wd_rows db)"
    by (fact add_worktree_Inr(1) [OF add] row)+
  show "ws_repo_name w = repo" "ws_kind w = ''worktree''" "ws_state w = ''active''"
    "ws_branch_name w = Some (worktree_branch E repo)"
    by (simp_all add: row(1) fresh_worktree_def new_workspace_def)
  have "ws_base_ref w = Some base_ref" "ws_path w = worktree_path E repo"
    by (simp_all add: row(1) fresh_worktree_def new_workspace_def)
  with add_worktree_Inr(2) [OF add] show "\<exists>base_ref tr1. ws_base_ref w = Some base_ref
          \<and> tr' = tr1 @ [(join_path (we_repos_root E) repo,
              [''worktree'', ''add'', ''-b'', worktree_branch E repo, ws_path w, base_ref])]" by auto
next
  assume f: "we_fails E ''insert worktree workspace''" and a: "fst (add_worktree E repo tr) = Inr (base_ref, base_sha)"
  obtain tr2 where add: "add_worktree E repo tr = (Inr (base_ref, base_sha), tr2)" using a by (metis prod.collapse)
  have "store_worktree E db repo base_ref base_sha = (Inl (''insert worktree workspace for '' @ repo), db)"
    using f by (simp add: store_worktree_def)
  with assms add have "r = Inl (''insert worktree workspace for '' @ repo)" "db' = db" "tr' = tr2"
    by (simp_all add: create_worktree_workspace_def)
  with add_worktree_Inr(2) [OF add] show "r = Inl (''insert worktree workspace for '' @ repo)" "db' = db"
    "\<exists>tr1. tr' = tr1 @ [(join_path (we_repos_root E) repo,
              [''worktree'', ''add'', ''-b'', worktree_branch E repo, worktree_path E repo, base_ref])]" by simp_all
qed

section \<open>Samples\<close>

text \<open>A host on which a branch \<open>feature\<close> is checked out everywhere, and one to make work trees on.\<close>

definition feature_git :: git_host where
  "feature_git = clean_git\<lparr>gh_run := (\<lambda>tr (path, args).
     if args = [''branch'', ''--show-current''] then git_out.Exited True ''feature'' []
     else gh_run clean_git tr (path, args))\<rparr>"

definition feature_refresh :: reconcile_env where
  "feature_refresh = \<lparr>rc_host = feature_git, rc_started = 0, rc_finished = 1, rc_time_parse = (\<lambda>_. None),
     rc_start_fails = False, rc_tx_fails = False, rc_error_fails = False\<rparr>"

definition gone_refresh :: reconcile_env where
  "gone_refresh = feature_refresh\<lparr>rc_host := plain_host\<rparr>"

definition making_env :: workspace_env where
  "making_env = sample_env\<lparr>we_host := feature_git\<lparr>gh_exists := (\<lambda>_ p. p = ''/r/p/.git''),
     gh_run := (\<lambda>tr (path, args). if take 1 args = [''rev-parse''] then git_out.Exited True ''c'' []
       else gh_run feature_git tr (path, args))\<rparr>\<rparr>"

lemma sample_runs:
  "(7, ''/w'') \<in> set (due_workspaces 0 5 sample_workspaces)"
  "case reconcile_workspace_inner feature_refresh sample_workspaces 7 ''/w'' [] of
     (Inr _, db1, tr1) \<Rightarrow>
       (case delete_workspace (sample_env\<lparr>we_host := feature_git\<rparr>) 7 False True (db1, []) of
          (Inr _, db2, tr3) \<Rightarrow> (''/r/p'', [''branch'', ''-D'', ''feature'']) \<in> set tr3 | _ \<Rightarrow> False)
   | _ \<Rightarrow> False"
  "case create_worktree_workspace making_env ''p'' (no_workspaces, []) of
     (Inr w, _) \<Rightarrow> ws_base_sha w = Some ''c'' | _ \<Rightarrow> False"
  by code_simp+

theorem refresh_undoes_delete_witness:
  "\<exists>db' tr' w. delete_workspace sample_env 7 False True (sample_workspaces, []) = (Inr (), db', tr')
    \<and> load_workspace sample_env (fst (reconcile_workspace gone_refresh (7, ''/w'') (db', tr'))) 7 = Inr w"
proof -
  obtain db' tr' where d: "delete_workspace sample_env 7 False True (sample_workspaces, []) = (Inr (), db', tr')"
    using sample_deleted by (auto split: prod.splits sum.splits)
  have gone: "\<not> gh_is_dir (rc_host gone_refresh) tr' ''/w''" "\<not> rc_start_fails gone_refresh"
    "\<not> we_fails sample_env ''load workspace''"
    by (simp_all add: gone_refresh_def feature_refresh_def plain_host_def sample_env_def)
  from refresh_undoes_delete [OF sample_runs(1) d gone] d show ?thesis by blast
qed

theorem delete_drops_checked_out_witness:
  "\<exists>st tr1. read_status feature_git ''/w'' [] = (Inr st, tr1) \<and> gs_branch st = Some ''feature''"
proof -
  obtain db1 tr1 db2 tr3 where r: "reconcile_workspace_inner feature_refresh sample_workspaces 7 ''/w'' [] = (Inr (), db1, tr1)"
    "delete_workspace (sample_env\<lparr>we_host := feature_git\<rparr>) 7 False True (db1, []) = (Inr (), db2, tr3)"
    "(''/r/p'', [''branch'', ''-D'', ''feature'']) \<in> set tr3"
    using sample_runs(2) by (auto split: prod.splits sum.splits)
  have "gh_is_dir (rc_host feature_refresh) [] ''/w''" "rc_host feature_refresh = feature_git"
    by (simp_all add: feature_refresh_def feature_git_def clean_git_def)
  with delete_drops_checked_out [OF r(1) _ r(2)] r(3) show ?thesis by auto
qed

theorem created_worktree_witness:
  "\<exists>w db' tr'. create_worktree_workspace making_env ''p'' (no_workspaces, []) = (Inr w, db', tr')
    \<and> ws_branch_name w = Some ''sulion/p/000000000007''"
proof -
  obtain w db' tr' where c: "create_worktree_workspace making_env ''p'' (no_workspaces, []) = (Inr w, db', tr')"
    using sample_runs(3) by (auto split: prod.splits sum.splits)
  have "worktree_branch making_env ''p'' = ''sulion/p/000000000007''" by code_simp
  with created_worktree [OF c] c show ?thesis by auto
qed

end
