(* ===== verification/Entry_File.thy ===== *)
theory Entry_File
  imports Rust_Parse "HOL-Library.AList"
begin

text \<open>
  What the prompt library and the deferred prompts share (\<^verbatim>\<open>backend/src/library.rs\<close>,
  \<^verbatim>\<open>backend/src/future_prompts.rs\<close>): a directory of \<open>.md\<close> files, and the format of an entry, a
  header of quoted fields between two lines of dashes and then the text.
\<close>

section \<open>A directory\<close>

text \<open>
  File names in the order in which the directory is read, each with its text; a file that
  cannot be read as UTF-8 has none. \<open>None\<close> for the whole is a directory that does not exist.
\<close>

type_synonym file_dir = "(string \<times> string option) list option"

definition files_of :: "file_dir \<Rightarrow> (string \<times> string option) list" where
  "files_of d = (case d of None \<Rightarrow> [] | Some fs \<Rightarrow> fs)"

definition file_exists :: "file_dir \<Rightarrow> string \<Rightarrow> bool" where
  "file_exists d name \<longleftrightarrow> name \<in> fst ` set (files_of d)"

definition read_to_string :: "file_dir \<Rightarrow> string \<Rightarrow> (string, string) result" where
  "read_to_string d name =
     (case map_of (files_of d) name of Some (Some text) \<Rightarrow> Inr text | _ \<Rightarrow> Inl ''read'')"

definition write_file :: "file_dir \<Rightarrow> string \<Rightarrow> string \<Rightarrow> file_dir" where
  "write_file d name text = Some (AList.update name (Some text) (files_of d))"

definition remove_file :: "file_dir \<Rightarrow> string \<Rightarrow> file_dir" where
  "remove_file d name = Some (AList.delete name (files_of d))"

text \<open>Which calls fail, and what a failed write leaves in the file.\<close>

record entry_env =
  ee_now :: string
  ee_new_id :: string
  ee_fails :: "string \<Rightarrow> bool"
  ee_torn :: "string option"

definition try_write :: "entry_env \<Rightarrow> file_dir \<Rightarrow> string \<Rightarrow> string \<Rightarrow> (string, unit) result \<times> file_dir" where
  "try_write E d name text =
     (if ee_fails E ''write''
      then (Inl ''write'', case ee_torn E of None \<Rightarrow> d | Some t \<Rightarrow> write_file d name t)
      else (Inr (), write_file d name text))"

lemma read_written [simp]: "read_to_string (write_file d name text) name = Inr text"
  by (simp add: read_to_string_def write_file_def files_of_def update_conv')

lemma exists_written [simp]:
  "file_exists (write_file d name text) name' \<longleftrightarrow> name' = name \<or> file_exists d name'"
  by (auto simp: file_exists_def write_file_def files_of_def dom_update)

lemma exists_removed [simp]: "file_exists (remove_file d name) name' \<longleftrightarrow> name' \<noteq> name \<and> file_exists d name'"
  by (auto simp: file_exists_def remove_file_def files_of_def AList.delete_eq)

section \<open>File names\<close>

function trim_end_matches :: "string \<Rightarrow> string \<Rightarrow> string" where
  "trim_end_matches p s =
     (if p \<noteq> [] \<and> ends_with s p then trim_end_matches p (take (length s - length p) s) else s)"
  by pat_completeness auto
termination
proof (relation "measure (\<lambda>(p, s). length s)", goal_cases)
  case (2 p s)
  then have "0 < length p" "length p \<le> length s" by (auto simp: ends_with_def)
  then show ?case by (cases s) simp_all
qed simp

declare trim_end_matches.simps [simp del]

definition md_name :: "string \<Rightarrow> string" where
  "md_name stem = stem @ ''.md''"

definition md_stem :: "string \<Rightarrow> string" where
  "md_stem name = trim_end_matches ''.md'' name"

lemma md_stem:
  assumes "\<not> ends_with stem ''.md''"
  shows "md_stem (md_name stem) = stem"
proof -
  have stop: "trim_end_matches ''.md'' stem = stem" using assms by (subst trim_end_matches.simps) simp
  show ?thesis
    unfolding md_stem_def md_name_def by (subst trim_end_matches.simps) (simp add: ends_with_def stop)
qed

section \<open>Quoted fields\<close>

definition unquote :: "string \<Rightarrow> string" where
  "unquote s0 =
     (let s = trim s0
      in if 2 \<le> length s \<and> (hd s = CHR 0x22 \<and> last s = CHR 0x22 \<or> hd s = CHR 0x27 \<and> last s = CHR 0x27)
         then replace_sub [CHR 0x5C, CHR 0x22] [CHR 0x22] (butlast (tl s)) else s)"

definition key_value :: "string \<times> string \<Rightarrow> string \<times> string" where
  "key_value kv = (trim (fst kv), unquote (trim (snd kv)))"

definition header_field :: "string \<Rightarrow> (string \<times> string) option" where
  "header_field line =
     (if trim line = [] then None else map_option key_value (split_once (CHR '':'') (trim line)))"

definition newline :: char where
  "newline = CHR 0x0A"

definition trim_newlines :: "string \<Rightarrow> string" where
  "trim_newlines s = trim_start_char newline s"

text \<open>The header's lines, none without a header, and the text after it.\<close>

definition split_entry :: "string \<Rightarrow> string list \<times> string" where
  "split_entry raw =
     (case strip_prefix raw (''---'' @ [newline]) of
        None \<Rightarrow> ([], raw)
      | Some rest \<Rightarrow>
          (case find_sub rest (newline # ''---'') of
             None \<Rightarrow> ([], raw)
           | Some e \<Rightarrow> (lines (take e rest), drop (e + 4) rest)))"

definition header_of :: "string \<Rightarrow> (string \<times> string) list" where
  "header_of raw = List.map_filter header_field (fst (split_entry raw))"

definition body_of :: "string \<Rightarrow> string" where
  "body_of raw = trim_newlines (snd (split_entry raw))"

definition last_value :: "string \<Rightarrow> (string \<times> string) list \<Rightarrow> string option" where
  "last_value key hs = map_of (rev hs) key"

text \<open>A field of the header, its value escaped already.\<close>

definition field_line :: "string \<Rightarrow> string \<Rightarrow> string" where
  "field_line key v = key @ '': '' @ [CHR 0x22] @ v @ [CHR 0x22]"

definition render_parts :: "(string \<times> string) list \<Rightarrow> string \<Rightarrow> string" where
  "render_parts fs body =
     ''---'' @ [newline] @ concat (map (\<lambda>(k, v). field_line k v @ [newline]) fs)
     @ ''---'' @ [newline] @ trim_newlines body"

section \<open>Reading a rendered entry back\<close>

lemma ws_len_ascii: "byte a < 0x80 \<Longrightarrow> \<not> ascii_ws a \<Longrightarrow> ws_len (a # s) = 0"
  by (auto split: list.split)

lemma ws_len_end_ascii:
  assumes "s \<noteq> []" and "byte (last s) < 0x80" and "\<not> ascii_ws (last s)"
  shows "ws_len_end s = 0"
proof -
  obtain xs x where s: "s = xs @ [x]" using assms(1) by (cases s rule: rev_cases) auto
  have x: "byte x < 0x80" "\<not> ascii_ws x" using assms(2,3) by (simp_all add: s)
  have "ws_len (drop (length s - 2) s) \<noteq> 2" if "2 \<le> length s"
  proof -
    have "length (drop (length xs - 1) xs) = 1" using that by (simp add: s)
    then obtain y where "drop (length xs - 1) xs = [y]" by (auto simp: length_Suc_conv simp del: length_drop)
    with that x show ?thesis by (simp add: s)
  qed
  moreover have "ws_len (drop (length s - 3) s) \<noteq> 3" if "3 \<le> length s"
  proof -
    have "length (drop (length xs - 2) xs) = 2" using that by (simp add: s)
    then obtain y z where "drop (length xs - 2) xs = [y, z]" by (auto simp: length_Suc_conv numeral_2_eq_2 simp del: length_drop)
    moreover have "drop (length s - 3) s = drop (length xs - 2) xs @ [x]" using that by (simp add: s)
    ultimately show ?thesis using x by simp
  qed
  ultimately show ?thesis using x by (simp add: ws_len_end_def s)
qed

lemma trim_ascii:
  assumes "s \<noteq> []" and "ws_len s = 0" and "byte (last s) < 0x80" and "\<not> ascii_ws (last s)"
  shows "trim s = s"
  by (simp add: trim_def trim_start_done assms(2) trim_end_done ws_len_end_ascii [OF assms(1,3,4)])

lemma trim_quoted: "trim ([CHR 0x22] @ v @ [CHR 0x22]) = [CHR 0x22] @ v @ [CHR 0x22]"
proof (rule trim_ascii)
  show "ws_len ([CHR 0x22] @ v @ [CHR 0x22]) = 0"
    unfolding append_Cons append_Nil by (rule ws_len_ascii) (simp_all add: ascii_ws_def)
qed (simp_all add: ascii_ws_def)

lemma unquote_quoted:
  "unquote ([CHR 0x22] @ v @ [CHR 0x22]) = replace_sub [CHR 0x5C, CHR 0x22] [CHR 0x22] v"
  unfolding unquote_def trim_quoted by simp

text \<open>The keys that are used.\<close>

definition entry_key :: "string \<Rightarrow> bool" where
  "entry_key k \<longleftrightarrow> k \<in> {''name'', ''created_at'', ''updated_at'', ''state''}"

lemma entry_key_start:
  assumes "entry_key k"
  shows "ws_len (k @ s) = 0" "CHR '':'' \<notin> set k" "trim k = k" "newline \<notin> set k" "\<not> starts_with (k @ s) ''---''" "k \<noteq> []"
  using assms by (auto simp: entry_key_def ascii_ws_def newline_def starts_with_def intro!: trim_ascii)

lemma field_line_read:
  assumes "entry_key k"
  shows "header_field (field_line k v) = Some (k, replace_sub [CHR 0x5C, CHR 0x22] [CHR 0x22] v)"
proof -
  have line: "field_line k v = (k @ [CHR '':'']) @ '' '' @ ([CHR 0x22] @ v @ [CHR 0x22])" by (simp add: field_line_def)
  have t: "trim (field_line k v) = field_line k v"
    by (rule trim_ascii) (simp_all add: line entry_key_start [OF assms] ascii_ws_def)
  have s: "split_once (CHR '':'') (field_line k v) = Some (k, '' '' @ ([CHR 0x22] @ v @ [CHR 0x22]))"
    using split_once_field [OF entry_key_start(2) [OF assms]] by (simp add: line)
  have "trim ('' '' @ ([CHR 0x22] @ v @ [CHR 0x22])) = [CHR 0x22] @ v @ [CHR 0x22]"
  proof -
    have "trim_start ('' '' @ ([CHR 0x22] @ v @ [CHR 0x22])) = trim_start ([CHR 0x22] @ v @ [CHR 0x22])"
      by (subst trim_start_step) (simp_all add: ascii_ws_def)
    moreover note trim_quoted [of v]
    ultimately show ?thesis by (simp add: trim_def)
  qed
  moreover have "field_line k v \<noteq> []" by (simp add: field_line_def)
  ultimately show ?thesis
    by (simp add: header_field_def key_value_def t s entry_key_start(3) [OF assms] unquote_quoted [simplified])
qed

text \<open>The first line of dashes after a newline is the one that ends the header.\<close>

lemma find_skip: "newline \<notin> set a \<Longrightarrow> find_sub (a @ s) (newline # p) = map_option ((+) (length a)) (find_sub s (newline # p))"
proof (induction a)
  case (Cons c a)
  then have "\<not> starts_with (c # a @ s) (newline # p)" by (auto simp: starts_with_def)
  with Cons show ?case by (simp add: option.map_comp comp_def)
qed (cases "find_sub s (newline # p)"; simp)

lemma starts_cons: "starts_with (c # s) (c # p) \<longleftrightarrow> starts_with s p"
  by (simp add: starts_with_def)

lemma find_header_end:
  assumes "\<forall>l \<in> set ls. newline \<notin> set l" and "\<forall>l \<in> set (tl ls). \<forall>s. \<not> starts_with (l @ s) ''---''" and "ls \<noteq> []"
  shows "find_sub (join [newline] ls @ newline # ''---'' @ r) (newline # ''---'') = Some (length (join [newline] ls))"
  using assms
proof (induction "[newline]" ls rule: join.induct)
  case (2 x)
  then show ?case by (simp add: find_skip starts_with_def)
next
  case (3 x y ys)
  have IH: "find_sub (join [newline] (y # ys) @ newline # ''---'' @ r) (newline # ''---'') = Some (length (join [newline] (y # ys)))"
    by (rule 3(1)) (use 3(2-) in auto)
  have "\<not> starts_with (join [newline] (y # ys) @ s) ''---''" for s
    using 3(3) by (cases ys) auto
  then have "\<not> starts_with (newline # join [newline] (y # ys) @ newline # ''---'' @ r) (newline # ''---'')"
    unfolding starts_cons .
  moreover have "newline \<notin> set x" using 3(2) by simp
  ultimately show ?case using IH by (simp add: find_skip)
qed simp

lemma lines_join:
  assumes "\<forall>l \<in> set ls. newline \<notin> set l \<and> drop_cr l = l \<and> l \<noteq> []" and "ls \<noteq> []"
  shows "lines (join [newline] ls) = ls"
proof -
  have "split_char (CHR 0x0A) (join [newline] ls) = ls"
    using split_join [of ls newline] assms by (simp add: newline_def)
  moreover have "map drop_cr (butlast ls) = butlast ls"
    using assms(1) by (intro map_idI) (meson in_set_butlastD)
  moreover have "last ls \<noteq> []" using assms by simp
  ultimately show ?thesis using assms(2) by (simp add: lines_def)
qed

lemma concat_join:
  "ls \<noteq> [] \<Longrightarrow> concat (map (\<lambda>l. l @ [d]) ls) = join [d] ls @ [d]"
  by (induction "[d]" ls rule: join.induct) simp_all

text \<open>Quoting that unquoting undoes, on the texts it is meant for.\<close>

locale quoting =
  fixes esc :: "string \<Rightarrow> string"
    and ok :: "string \<Rightarrow> bool"
  assumes unescaped: "ok v \<Longrightarrow> replace_sub [CHR 0x5C, CHR 0x22] [CHR 0x22] (esc v) = v"
    and one_line: "ok v \<Longrightarrow> newline \<notin> set (esc v)"
begin

lemma rendered_header:
  assumes "\<forall>(k, v) \<in> set fs. entry_key k \<and> ok v" and "fs \<noteq> []"
  shows "header_of (render_parts (map (\<lambda>(k, v). (k, esc v)) fs) body) = fs"
    and "body_of (render_parts (map (\<lambda>(k, v). (k, esc v)) fs) body) = trim_newlines body"
proof -
  let ?line = "\<lambda>(k, v). field_line k (esc v)"
  let ?ls = "map ?line fs"
  have ls: "newline \<notin> set l" "drop_cr l = l" "l \<noteq> []" "\<not> starts_with (l @ s) ''---''" if "l \<in> set ?ls" for l s
  proof -
    from that obtain k v where kv: "(k, v) \<in> set fs" "l = field_line k (esc v)" by auto
    with assms(1) have "entry_key k" "ok v" by auto
    with kv(2) show "newline \<notin> set l" "l \<noteq> []" "\<not> starts_with (l @ s) ''---''" "drop_cr l = l"
      using one_line [of v] entry_key_start(4,5) [of k]
      by (auto simp: field_line_def newline_def drop_cr_def)
  qed
  have c: "concat (map (\<lambda>(k, v). field_line k v @ [newline]) (map (\<lambda>(k, v). (k, esc v)) fs)) = join [newline] ?ls @ [newline]"
    by (subst concat_join [symmetric]) (use assms(2) in \<open>simp_all add: comp_def split_beta\<close>)
  have rest: "render_parts (map (\<lambda>(k, v). (k, esc v)) fs) body
      = (''---'' @ [newline]) @ join [newline] ?ls @ newline # ''---'' @ newline # trim_newlines body"
    unfolding render_parts_def c by simp
  have find: "find_sub (join [newline] ?ls @ newline # ''---'' @ r) (newline # ''---'') = Some (length (join [newline] ?ls))" for r
  proof (rule find_header_end)
    show "\<forall>l \<in> set (tl ?ls). \<forall>s. \<not> starts_with (l @ s) ''---''"
      using ls(4) assms(2) by (metis list.map_disc_iff list.set_sel(2))
  qed (use ls(1) assms(2) in simp_all)
  have split: "split_entry (render_parts (map (\<lambda>(k, v). (k, esc v)) fs) body) = (lines (join [newline] ?ls), newline # trim_newlines body)"
    unfolding rest split_entry_def strip_prefix_def using find by (simp add: starts_with_def)
  have lines: "lines (join [newline] ?ls) = ?ls"
    by (rule lines_join) (use ls assms(2) in auto)
  have "List.map_filter header_field ?ls = fs"
    using assms(1) by (induction fs) (auto simp: List.map_filter_def field_line_read unescaped)
  then show "header_of (render_parts (map (\<lambda>(k, v). (k, esc v)) fs) body) = fs"
    by (simp add: header_of_def split lines)
  have "trim_newlines (trim_newlines body) = trim_newlines body"
    unfolding trim_newlines_def trim_start_char_def by (simp add: dropWhile_idem)
  then show "body_of (render_parts (map (\<lambda>(k, v). (k, esc v)) fs) body) = trim_newlines body"
    by (simp add: body_of_def split) (simp add: trim_newlines_def trim_start_char_def)
qed

end

end
