(* ===== verification/Library.thy ===== *)
theory Library
  imports Entry_File
begin

text \<open>
  The library of prompts and references (\<^verbatim>\<open>backend/src/library.rs\<close>,
  \<^verbatim>\<open>backend/src/api/library_routes.rs\<close>): slugs, the files of a kind, and the routes. The state
  is the directory of each kind.
\<close>

section \<open>Errors of the routes\<close>

text \<open>\<^verbatim>\<open>ApiError\<close> of \<^verbatim>\<open>backend/src/api/routes.rs\<close>, and what a client sees of it.\<close>

datatype api_error = NotFound | BadRequest string | Internal string | Db string | Io string

fun error_response :: "api_error \<Rightarrow> http_status \<times> string" where
  "error_response NotFound = (NOT_FOUND, ''not found'')"
| "error_response (BadRequest m) = (BAD_REQUEST, m)"
| "error_response (Internal e) = (INTERNAL_SERVER_ERROR, ''internal error'')"
| "error_response (Db e) = (INTERNAL_SERVER_ERROR, ''database error'')"
| "error_response (Io e) = (INTERNAL_SERVER_ERROR, ''io error'')"

definition map_error :: "('e \<Rightarrow> 'f) \<Rightarrow> ('e, 'a) result \<Rightarrow> ('f, 'a) result" where
  "map_error f r = (case r of Inl e \<Rightarrow> Inl (f e) | Inr x \<Rightarrow> Inr x)"

section \<open>Kinds and entries\<close>

datatype library_kind = References | Prompts

definition kind_parse :: "string \<Rightarrow> library_kind option" where
  "kind_parse s =
     (if s = ''references'' \<or> s = ''refs'' then Some References
      else if s = ''prompts'' then Some Prompts else None)"

fun kind_str :: "library_kind \<Rightarrow> string" where
  "kind_str References = ''references''"
| "kind_str Prompts = ''prompts''"

record library_entry =
  le_slug :: string
  le_name :: string
  le_created_at :: "string option"
  le_updated_at :: "string option"
  le_body :: string

type_synonym library_store = "library_kind \<Rightarrow> file_dir"

section \<open>Slugs\<close>

definition slug_char :: "char \<Rightarrow> bool" where
  "slug_char c \<longleftrightarrow> ascii_alnum c \<or> c \<in> {CHR ''-'', CHR ''_'', CHR ''.''}"

text \<open>Kept characters, a dash for white space, nothing for the bytes of any other character.\<close>

function slug_chars :: "string \<Rightarrow> string" where
  "slug_chars [] = []"
| "slug_chars (c # cs) =
     (if slug_char c then c # slug_chars cs
      else if ws_len (c # cs) \<noteq> 0 then CHR ''-'' # slug_chars (drop (ws_len (c # cs)) (c # cs))
      else slug_chars cs)"
  by pat_completeness auto
termination
proof (relation "measure length", goal_cases)
  case (3 c cs)
  then show ?case using ws_len_le [of "c # cs"] by auto
qed simp_all

lemma replace_shorter:
  assumes "length b < length p" and "p \<noteq> []"
  shows "length (replace_sub p b s) \<le> length s" and "find_sub s p \<noteq> None \<Longrightarrow> length (replace_sub p b s) < length s"
proof -
  have "length (replace_sub p b s) \<le> length s \<and> (find_sub s p \<noteq> None \<longrightarrow> length (replace_sub p b s) < length s)"
    using assms
  proof (induction p b s rule: replace_sub.induct)
    case (2 p b c cs)
    show ?case
    proof (cases "starts_with (c # cs) p")
      case True
      then have "length p \<le> length (c # cs)" unfolding starts_with_def by (metis length_take min.absorb_iff1 min.commute)
      moreover have "length (replace_sub p b (drop (length p) (c # cs))) \<le> length (drop (length p) (c # cs))"
        using "2.IH"(1) "2.prems" True by simp
      ultimately have "length b + length (replace_sub p b (drop (length p) (c # cs))) < length (c # cs)"
        using "2.prems"(1) unfolding length_drop by arith
      then show ?thesis using "2.prems" True by simp
    next
      case False
      with "2.IH"(2) "2.prems" show ?thesis by auto
    qed
  qed simp
  then show "length (replace_sub p b s) \<le> length s" "find_sub s p \<noteq> None \<Longrightarrow> length (replace_sub p b s) < length s"
    by auto
qed

function squeeze_dashes :: "string \<Rightarrow> string" where
  "squeeze_dashes s =
     (if contains_sub s ''--'' then squeeze_dashes (replace_sub ''--'' ''-'' s) else s)"
  by pat_completeness auto
termination
  by (relation "measure length") (simp_all add: contains_sub_def replace_shorter)

declare squeeze_dashes.simps [simp del]

definition sanitise_slug :: "string \<Rightarrow> string option" where
  "sanitise_slug raw =
     (if trim raw = [] then None
      else let out = trim_char (CHR ''-'') (squeeze_dashes (slug_chars (trim raw)))
           in if out = [] \<or> starts_with out ''.'' then None else Some out)"

text \<open>The loop ends because a directory has finitely many files.\<close>

definition numbered :: "string \<Rightarrow> nat \<Rightarrow> string" where
  "numbered desired n = desired @ ''-'' @ show_nat n"

lemma numbered_inj: "md_name (numbered desired m) = md_name (numbered desired n) \<longleftrightarrow> m = n"
  by (simp add: md_name_def numbered_def show_nat_inj)

lemma taken_finite: "finite {m. n \<le> m \<and> file_exists d (md_name (numbered desired m))}"
proof (rule finite_subset)
  show "finite ((\<lambda>m. md_name (numbered desired m)) -` (fst ` set (files_of d)))"
    by (rule finite_vimageI) (auto simp: inj_def numbered_inj)
qed (auto simp: file_exists_def)

function next_suffix :: "file_dir \<Rightarrow> string \<Rightarrow> nat \<Rightarrow> string" where
  "next_suffix d desired n =
     (if file_exists d (md_name (numbered desired n)) then next_suffix d desired (Suc n)
      else numbered desired n)"
  by pat_completeness auto
termination
proof (relation "measure (\<lambda>(d, desired, n). card {m. n \<le> m \<and> file_exists d (md_name (numbered desired m))})", goal_cases)
  case (2 d desired n)
  have "{m. Suc n \<le> m \<and> file_exists d (md_name (numbered desired m))}
      \<subset> {m. n \<le> m \<and> file_exists d (md_name (numbered desired m))}"
  proof
    show "{m. Suc n \<le> m \<and> file_exists d (md_name (numbered desired m))}
        \<noteq> {m. n \<le> m \<and> file_exists d (md_name (numbered desired m))}"
      using 2 by (metis (mono_tags, lifting) Suc_n_not_le_n mem_Collect_eq order_refl)
  qed auto
  then show ?case by (simp add: psubset_card_mono [OF taken_finite])
qed simp

declare next_suffix.simps [simp del]

definition next_available_slug :: "file_dir \<Rightarrow> string \<Rightarrow> string" where
  "next_available_slug d desired =
     (if file_exists d (md_name desired) then next_suffix d desired 2 else desired)"

section \<open>Files\<close>

definition escape_backslashes :: "string \<Rightarrow> string" where
  "escape_backslashes s = replace_sub [CHR 0x5C] [CHR 0x5C, CHR 0x5C] s"

definition escape_quotes :: "string \<Rightarrow> string" where
  "escape_quotes s = replace_sub [CHR 0x22] [CHR 0x5C, CHR 0x22] s"

definition library_escape :: "string \<Rightarrow> string" where
  "library_escape s = escape_quotes (escape_backslashes s)"

definition parse_library_entry :: "string \<Rightarrow> string \<Rightarrow> library_entry" where
  "parse_library_entry raw slug =
     (let hs = header_of raw
      in \<lparr>le_slug = slug, le_name = unwrap_or slug (last_value ''name'' hs),
          le_created_at = last_value ''created_at'' hs, le_updated_at = last_value ''updated_at'' hs,
          le_body = body_of raw\<rparr>)"

definition opt_field :: "string \<Rightarrow> string option \<Rightarrow> (string \<times> string) list" where
  "opt_field k v = (case v of None \<Rightarrow> [] | Some x \<Rightarrow> [(k, x)])"

definition library_fields :: "library_entry \<Rightarrow> (string \<times> string) list" where
  "library_fields e =
     (''name'', le_name e) # opt_field ''created_at'' (le_created_at e) @ opt_field ''updated_at'' (le_updated_at e)"

definition render_library_entry :: "library_entry \<Rightarrow> string" where
  "render_library_entry e =
     render_parts (map (\<lambda>(k, v). (k, library_escape v)) (library_fields e)) (le_body e)"

section \<open>Operations\<close>

definition sort_desc :: "('a \<Rightarrow> string) \<Rightarrow> 'a list \<Rightarrow> 'a list" where
  "sort_desc k xs = rev (sort_key k (rev xs))"

definition list_library :: "entry_env \<Rightarrow> library_store \<Rightarrow> library_kind \<Rightarrow> (string, library_entry list) result" where
  "list_library E st k =
     (if st k = None then Inr []
      else if ee_fails E ''read_dir'' then Inl ''read_dir''
      else Inr (sort_desc (\<lambda>e. unwrap_or [] (le_updated_at e)) (sort_desc (\<lambda>e. unwrap_or [] (le_created_at e))
        (sort_key le_name (List.map_filter
          (\<lambda>(name, text). if ends_with name ''.md''
             then map_option (\<lambda>t. parse_library_entry t (md_stem name)) text else None)
          (files_of (st k)))))))"

definition read_library ::
    "library_store \<Rightarrow> library_kind \<Rightarrow> string \<Rightarrow> (string, library_entry option) result" where
  "read_library st k raw_slug =
     (case sanitise_slug raw_slug of
        None \<Rightarrow> Inr None
      | Some slug \<Rightarrow>
          if \<not> file_exists (st k) (md_name slug) then Inr None
          else res_bind (read_to_string (st k) (md_name slug)) (\<lambda>raw. Inr (Some (parse_library_entry raw slug))))"

definition existing_created ::
    "file_dir \<Rightarrow> string \<Rightarrow> string option" where
  "existing_created d slug =
     (if file_exists d (md_name slug)
      then (case read_to_string d (md_name slug) of
              Inl _ \<Rightarrow> None | Inr raw \<Rightarrow> le_created_at (parse_library_entry raw slug))
      else None)"

definition save_library ::
    "entry_env \<Rightarrow> library_store \<Rightarrow> library_kind \<Rightarrow> string \<Rightarrow> string \<Rightarrow> string \<Rightarrow>
     (string, library_entry) result \<times> library_store" where
  "save_library E st k raw_slug name body =
     (case sanitise_slug raw_slug of
        None \<Rightarrow> (Inl ''invalid slug'', st)
      | Some slug \<Rightarrow>
          if ee_fails E ''create_dir_all'' then (Inl ''create_dir_all'', st)
          else let d = Some (files_of (st k));
                   e = \<lparr>le_slug = slug, le_name = trim name,
                        le_created_at = or_else (existing_created d slug) (Some (ee_now E)),
                        le_updated_at = Some (ee_now E), le_body = body\<rparr>
               in (case try_write E d (md_name slug) (render_library_entry e) of
                     (Inl err, d') \<Rightarrow> (Inl err, st(k := d'))
                   | (Inr _, d') \<Rightarrow> (Inr e, st(k := d'))))"

definition delete_library ::
    "entry_env \<Rightarrow> library_store \<Rightarrow> library_kind \<Rightarrow> string \<Rightarrow> (string, bool) result \<times> library_store" where
  "delete_library E st k raw_slug =
     (case sanitise_slug raw_slug of
        None \<Rightarrow> (Inr False, st)
      | Some slug \<Rightarrow>
          if \<not> file_exists (st k) (md_name slug) then (Inr False, st)
          else if ee_fails E ''remove_file'' then (Inl ''remove_file'', st)
          else (Inr True, st(k := remove_file (st k) (md_name slug))))"

section \<open>Routes\<close>

definition parse_kind :: "string \<Rightarrow> (api_error, library_kind) result" where
  "parse_kind s =
     (case kind_parse s of None \<Rightarrow> Inl (BadRequest (''unknown library kind: '' @ s)) | Some k \<Rightarrow> Inr k)"

definition list_library_route ::
    "entry_env \<Rightarrow> library_store \<Rightarrow> string \<Rightarrow> (api_error, library_entry list) result" where
  "list_library_route E st kind = res_bind (parse_kind kind) (\<lambda>k. map_error Internal (list_library E st k))"

definition get_library_entry ::
    "library_store \<Rightarrow> string \<Rightarrow> string \<Rightarrow> (api_error, library_entry) result" where
  "get_library_entry st kind slug =
     res_bind (parse_kind kind) (\<lambda>k. res_bind (map_error Internal (read_library st k slug)) (\<lambda>found.
       case found of None \<Rightarrow> Inl NotFound | Some e \<Rightarrow> Inr e))"

definition put_library_root ::
    "entry_env \<Rightarrow> library_store \<Rightarrow> string \<Rightarrow> string \<Rightarrow> string \<Rightarrow> (api_error, library_entry) result \<times> library_store" where
  "put_library_root E st kind name body =
     (case parse_kind kind of
        Inl e \<Rightarrow> (Inl e, st)
      | Inr k \<Rightarrow>
          (case sanitise_slug name of
             None \<Rightarrow> (Inl (BadRequest ''name must derive a valid slug''), st)
           | Some desired \<Rightarrow>
               (case save_library E st k (next_available_slug (st k) desired) name body of
                  (r, st') \<Rightarrow> (map_error Internal r, st'))))"

definition put_library_entry ::
    "entry_env \<Rightarrow> library_store \<Rightarrow> string \<Rightarrow> string \<Rightarrow> string \<Rightarrow> string \<Rightarrow>
     (api_error, library_entry) result \<times> library_store" where
  "put_library_entry E st kind slug name body =
     (case parse_kind kind of
        Inl e \<Rightarrow> (Inl e, st)
      | Inr k \<Rightarrow> (case save_library E st k slug name body of (r, st') \<Rightarrow> (map_error Internal r, st')))"

definition delete_library_entry ::
    "entry_env \<Rightarrow> library_store \<Rightarrow> string \<Rightarrow> string \<Rightarrow> (api_error, http_status) result \<times> library_store" where
  "delete_library_entry E st kind slug =
     (case parse_kind kind of
        Inl e \<Rightarrow> (Inl e, st)
      | Inr k \<Rightarrow>
          (case delete_library E st k slug of
             (Inl e, st') \<Rightarrow> (Inl (Internal e), st')
           | (Inr removed, st') \<Rightarrow> (Inr (if removed then NO_CONTENT else NOT_FOUND), st')))"

end
