(* ===== verification/Library_Props.thy ===== *)
theory Library_Props
  imports Library
begin

text \<open>
  Slugs name a file inside the directory of their kind and nothing else; saved entries read
  back, and where they do not.
\<close>

section \<open>Slugs\<close>

lemma slug_char_ascii:
  assumes "slug_char c"
  shows "byte c < 0x80" "\<not> ascii_ws c" "c \<noteq> CHR ''/''"
  using assms
  by (auto simp: slug_char_def ascii_alnum_def ascii_upper_def ascii_lower_def ascii_digit_def ascii_ws_def)

lemma slug_chars_safe: "list_all slug_char (slug_chars s)"
  by (induction s rule: slug_chars.induct) (simp_all add: slug_char_def)

lemma slug_chars_fixed: "list_all slug_char s \<Longrightarrow> slug_chars s = s"
  by (induction s) simp_all

lemma replace_all: "list_all P b \<Longrightarrow> list_all P s \<Longrightarrow> list_all P (replace_sub p b s)"
proof (induction p b s rule: replace_sub.induct)
  case (2 p b c cs)
  then have "list_all P (drop (length p) (c # cs))" by (simp add: list_all_length)
  with 2 show ?case by auto
qed simp

lemma squeeze_safe: "list_all slug_char s \<Longrightarrow> list_all slug_char (squeeze_dashes s)"
proof (induction s rule: squeeze_dashes.induct)
  case (1 s)
  have "list_all slug_char ''-''" by code_simp
  with 1 show ?case by (subst squeeze_dashes.simps) (simp add: replace_all)
qed

lemma squeeze_done: "\<not> contains_sub (squeeze_dashes s) ''--''"
  by (induction s rule: squeeze_dashes.induct) (subst squeeze_dashes.simps, simp)

lemma find_sub_later: "starts_with b p \<Longrightarrow> find_sub (a @ b) p \<noteq> None"
proof (induction a)
  case Nil
  then show ?case by (cases b) (auto simp: starts_with_def)
qed simp

lemma contains_infix: "contains_sub b p \<Longrightarrow> contains_sub (a @ b @ c) p"
proof -
  assume "contains_sub b p"
  then obtain i where i: "find_sub b p = Some i" by (auto simp: contains_sub_def)
  then have "starts_with (drop i b) p" using find_sub_sound by blast
  then have "starts_with (drop i b @ c) p" unfolding starts_with_iff by (metis append.assoc)
  then have "find_sub ((a @ take i b) @ (drop i b @ c)) p \<noteq> None" by (rule find_sub_later)
  moreover have "(a @ take i b) @ (drop i b @ c) = a @ b @ c" by (metis append.assoc append_take_drop_id)
  ultimately show ?thesis unfolding contains_sub_def by metis
qed

lemma trim_char_infix: "\<exists>a b. s = a @ trim_char c s @ b"
proof -
  let ?t = "trim_start_char c s"
  have "s = takeWhile (\<lambda>x. x = c) s @ ?t" by (simp add: trim_start_char_def)
  moreover have "?t = trim_end_char c ?t @ rev (takeWhile (\<lambda>x. x = c) (rev ?t))"
    unfolding trim_end_char_def by (metis rev_append rev_rev_ident takeWhile_dropWhile_id)
  ultimately show ?thesis unfolding trim_char_def by metis
qed

lemma trim_char_ends:
  assumes "trim_char c s \<noteq> []"
  shows "hd (trim_char c s) \<noteq> c" "last (trim_char c s) \<noteq> c"
proof -
  let ?t = "trim_start_char c s"
  let ?d = "dropWhile (\<lambda>x. x = c) (rev ?t)"
  have r: "trim_char c s = rev ?d" by (simp add: trim_char_def trim_end_char_def)
  then have d: "?d \<noteq> []" using assms by simp
  then show "last (trim_char c s) \<noteq> c" using hd_dropWhile [OF d] by (simp add: r last_rev)
  have t: "?t \<noteq> []" using d by auto
  then have "hd ?t \<noteq> c" using hd_dropWhile [of "\<lambda>x. x = c" s] by (simp add: trim_start_char_def)
  moreover have "?t = trim_char c s @ rev (takeWhile (\<lambda>x. x = c) (rev ?t))"
    unfolding r by (metis rev_append rev_rev_ident takeWhile_dropWhile_id)
  ultimately show "hd (trim_char c s) \<noteq> c" using assms by (metis hd_append2)
qed

lemma trim_char_fixed:
  assumes "s = [] \<or> hd s \<noteq> c \<and> last s \<noteq> c"
  shows "trim_char c s = s"
proof -
  have "dropWhile (\<lambda>x. x = c) s = s" using assms by (cases s) auto
  moreover have "dropWhile (\<lambda>x. x = c) (rev s) = rev s" using assms by (cases s rule: rev_cases) auto
  ultimately show ?thesis by (simp add: trim_char_def trim_start_char_def trim_end_char_def)
qed

definition slug_ok :: "string \<Rightarrow> bool" where
  "slug_ok s \<longleftrightarrow> s \<noteq> [] \<and> list_all slug_char s \<and> \<not> contains_sub s ''--''
     \<and> hd s \<noteq> CHR ''-'' \<and> last s \<noteq> CHR ''-'' \<and> hd s \<noteq> CHR ''.''"

lemma slug_ok_fixed:
  assumes "slug_ok s"
  shows "sanitise_slug s = Some s"
proof -
  from assms have s: "s \<noteq> []" "list_all slug_char s" by (simp_all add: slug_ok_def)
  then have "slug_char (hd s)" "slug_char (last s)" by (auto simp: list_all_iff)
  moreover from this have "ws_len (hd s # tl s) = 0" by (intro ws_len_ascii slug_char_ascii)
  ultimately have "trim s = s"
    using s(1) slug_char_ascii by (intro trim_ascii) simp_all
  moreover have "squeeze_dashes s = s" using assms by (subst squeeze_dashes.simps) (simp add: slug_ok_def)
  moreover have "trim_char (CHR ''-'') s = s" using assms by (intro trim_char_fixed) (simp add: slug_ok_def)
  moreover have "\<not> starts_with s ''.''" using assms by (cases s) (auto simp: starts_with_def slug_ok_def)
  ultimately show ?thesis using s by (simp add: sanitise_slug_def Let_def slug_chars_fixed)
qed

lemma sanitise_ok:
  assumes "sanitise_slug raw = Some s"
  shows "slug_ok s"
proof -
  let ?q = "squeeze_dashes (slug_chars (trim raw))"
  from assms have s: "s = trim_char (CHR ''-'') ?q" "s \<noteq> []" "\<not> starts_with s ''.''"
    by (auto simp: sanitise_slug_def Let_def split: if_splits)
  obtain a b where q: "?q = a @ s @ b" using trim_char_infix s(1) by metis
  have "list_all slug_char ?q" by (intro squeeze_safe slug_chars_safe)
  then have "list_all slug_char s" by (simp add: q)
  moreover have "\<not> contains_sub s ''--''" using squeeze_done [of "slug_chars (trim raw)"] contains_infix unfolding q by metis
  moreover have "hd s \<noteq> CHR ''.''" using s(2,3) by (cases s) (auto simp: starts_with_def)
  ultimately show ?thesis using s(2) trim_char_ends [of "CHR ''-''" ?q] by (simp add: slug_ok_def s(1))
qed

text \<open>
  C32. A slug is a plain name: letters, digits, dashes, underscores and dots, not starting with a
  dot, no dash at its ends and no two in a row, so that its file lies in the directory of its
  kind; and making a slug of a slug changes nothing.
\<close>

theorem slug_safe:
  assumes "sanitise_slug raw = Some s"
  shows "slug_ok s \<and> CHR ''/'' \<notin> set (md_name s) \<and> md_name s \<noteq> ''..'' \<and> sanitise_slug s = Some s"
proof -
  have ok: "slug_ok s" by (rule sanitise_ok [OF assms])
  then have "CHR ''/'' \<notin> set s" using slug_char_ascii(3) by (auto simp: slug_ok_def list_all_iff)
  moreover have "md_name s \<noteq> ''..''"
  proof
    assume "md_name s = ''..''"
    then have "length (md_name s) = 2" by simp
    then show False by (simp add: md_name_def)
  qed
  ultimately show ?thesis using ok slug_ok_fixed by (simp add: md_name_def)
qed

theorem slug_safe_witness: "sanitise_slug ''Hi-x'' = Some ''Hi-x''"
proof -
  have "sanitise_slug ''  Hi -- /x- '' = Some ''Hi-x''" by code_simp
  from slug_safe [OF this] show ?thesis by simp
qed

section \<open>Numbered slugs\<close>

lemma no_double_dash: "contains_sub s ''--'' \<longleftrightarrow> \<not> successively (\<lambda>a b. \<not> (a = CHR ''-'' \<and> b = CHR ''-'')) s"
proof (induction s rule: induct_list012)
  case (3 x y zs)
  then show ?case by (auto simp: contains_sub_def starts_with_def)
qed (simp_all add: contains_sub_def starts_with_def)

lemma numbered_ok:
  assumes "slug_ok s"
  shows "slug_ok (numbered s n)"
proof -
  let ?P = "\<lambda>a b. \<not> (a = CHR ''-'' \<and> b = CHR ''-'')"
  have digits: "list_all ascii_digit (show_nat n)" using show_nat_digits by (auto simp: list_all_iff)
  have ne: "show_nat n \<noteq> []" by (simp add: show_nat.simps [of n])
  have nodash: "c \<noteq> CHR ''-''" if "ascii_digit c" for c using that by (auto simp: ascii_digit_def)
  have "successively ?P xs" if "list_all ascii_digit xs" for xs
    using that nodash by (induction xs rule: induct_list012) auto
  then have "successively ?P (show_nat n)" using digits by blast
  moreover have "ascii_digit (hd (show_nat n))" "ascii_digit (last (show_nat n))" using digits ne by (auto simp: list_all_iff)
  ultimately have "\<not> contains_sub (numbered s n) ''--''"
    using assms ne nodash
    by (simp add: no_double_dash slug_ok_def numbered_def successively_append_iff successively_Cons)
  moreover have "list_all slug_char (numbered s n)"
  proof -
    have "slug_char c" if "ascii_digit c" for c using that by (auto simp: slug_char_def ascii_alnum_def)
    moreover have "slug_char (CHR ''-'')" by code_simp
    ultimately show ?thesis using assms digits by (auto simp: slug_ok_def numbered_def list_all_iff)
  qed
  ultimately show ?thesis
    using assms ne nodash \<open>ascii_digit (last (show_nat n))\<close> by (auto simp: slug_ok_def numbered_def)
qed

lemma next_suffix_new: "\<not> file_exists d (md_name (next_suffix d s n)) \<and> (slug_ok s \<longrightarrow> slug_ok (next_suffix d s n))"
proof (induction d s n rule: next_suffix.induct)
  case (1 d s n)
  then show ?case
    using next_suffix.simps [of d s n] numbered_ok [of s n]
    by (cases "file_exists d (md_name (numbered s n))") simp_all
qed

lemma next_available:
  "\<not> file_exists d (md_name (next_available_slug d s))" "slug_ok s \<Longrightarrow> slug_ok (next_available_slug d s)"
  using next_suffix_new by (auto simp: next_available_slug_def)

section \<open>Entries\<close>

lemma escapes_concat:
  "escape_quotes v = concat (map (\<lambda>x. if x = CHR 0x22 then [CHR 0x5C, CHR 0x22] else [x]) v)"
  "escape_backslashes v = concat (map (\<lambda>x. if x = CHR 0x5C then [CHR 0x5C, CHR 0x5C] else [x]) v)"
  by (simp_all only: escape_quotes_def escape_backslashes_def replace_char)

lemma unescape_quotes: "replace_sub [CHR 0x5C, CHR 0x22] [CHR 0x22] (escape_quotes v) = v"
proof (induction v)
  case (Cons c v)
  have "escape_quotes (c # v) = (if c = CHR 0x22 then [CHR 0x5C, CHR 0x22] else [c]) @ escape_quotes v"
    by (simp add: escapes_concat)
  moreover have "take 1 (escape_quotes v) \<noteq> [CHR 0x22]"
    by (cases v) (auto simp: escapes_concat)
  then have "\<not> starts_with (c # escape_quotes v) [CHR 0x5C, CHR 0x22]"
    by (cases "escape_quotes v") (auto simp: starts_with_def)
  ultimately show ?case using Cons by (simp add: starts_with_def)
qed (simp add: escape_quotes_def)

lemma escape_quotes_line: "newline \<notin> set v \<Longrightarrow> newline \<notin> set (escape_quotes v)"
  by (auto simp: escapes_concat newline_def split: if_splits)

lemma escape_backslashes_id: "CHR 0x5C \<notin> set v \<Longrightarrow> escape_backslashes v = v"
  by (induction v) (auto simp: escapes_concat)

definition plain_line :: "string \<Rightarrow> bool" where
  "plain_line v \<longleftrightarrow> newline \<notin> set v \<and> CHR 0x5C \<notin> set v"

interpretation library_format: quoting library_escape plain_line
  by unfold_locales
     (simp_all add: library_escape_def plain_line_def escape_backslashes_id unescape_quotes escape_quotes_line)

lemma library_entry_reads_back:
  assumes "plain_line (le_name e)" and "\<forall>t \<in> set_option (le_created_at e) \<union> set_option (le_updated_at e). plain_line t"
  shows "parse_library_entry (render_library_entry e) slug = e\<lparr>le_slug := slug, le_body := trim_newlines (le_body e)\<rparr>"
proof -
  have "\<forall>(k, v) \<in> set (library_fields e). entry_key k \<and> plain_line v"
    using assms by (auto simp: library_fields_def opt_field_def entry_key_def split: option.splits)
  moreover have "library_fields e \<noteq> []" by (simp add: library_fields_def)
  ultimately have h: "header_of (render_library_entry e) = library_fields e"
    "body_of (render_library_entry e) = trim_newlines (le_body e)"
    unfolding render_library_entry_def by (rule library_format.rendered_header)+
  have "last_value ''name'' (library_fields e) = Some (le_name e)"
    "last_value ''created_at'' (library_fields e) = le_created_at e"
    "last_value ''updated_at'' (library_fields e) = le_updated_at e"
    by (cases "le_created_at e"; cases "le_updated_at e"; simp add: last_value_def library_fields_def opt_field_def)+
  then show ?thesis by (simp add: parse_library_entry_def Let_def h)
qed

text \<open>A name with a backslash reads back with two, one with a line of dashes cuts the header short.\<close>

lemma names_not_read_back:
  "le_name (parse_library_entry (render_library_entry
     \<lparr>le_slug = ''s'', le_name = [CHR 0x5C], le_created_at = None, le_updated_at = None, le_body = []\<rparr>) ''s'')
   = [CHR 0x5C, CHR 0x5C]"
  "le_body (parse_library_entry (render_library_entry
     \<lparr>le_slug = ''s'', le_name = ''a'' @ [CHR 0x0A] @ ''---b'', le_created_at = None, le_updated_at = None, le_body = ''t''\<rparr>) ''s'')
   = ''b'' @ [CHR 0x22, CHR 0x0A] @ ''---'' @ [CHR 0x0A] @ ''t''"
  by code_simp+

section \<open>Saving and reading\<close>

lemma saved:
  assumes "save_library E st k raw name body = (Inr e, st')"
  obtains slug where "sanitise_slug raw = Some slug" "le_slug e = slug" "le_name e = trim name" "le_body e = body"
    "le_created_at e = or_else (existing_created (Some (files_of (st k))) slug) (Some (ee_now E))"
    "le_updated_at e = Some (ee_now E)"
    "st' = st(k := write_file (Some (files_of (st k))) (md_name slug) (render_library_entry e))"
  using assms
  by (auto simp: save_library_def try_write_def Let_def split: option.splits if_splits prod.splits sum.splits)

lemma write_others: "f \<noteq> name \<Longrightarrow> map_of (files_of (write_file (Some (files_of d)) name text)) f = map_of (files_of d) f"
  by (simp add: write_file_def files_of_def update_conv')

lemma saved_reads_back:
  assumes "save_library E st k raw name body = (Inr e, st')" and "plain_line (trim name)" and "plain_line (ee_now E)"
    and "\<forall>t \<in> set_option (existing_created (Some (files_of (st k))) (le_slug e)). plain_line t"
  shows "read_library st' k (le_slug e) = Inr (Some (e\<lparr>le_body := trim_newlines body\<rparr>))"
proof -
  obtain slug where s: "sanitise_slug raw = Some slug" "le_slug e = slug" "le_name e = trim name" "le_body e = body"
    "le_created_at e = or_else (existing_created (Some (files_of (st k))) slug) (Some (ee_now E))"
    "le_updated_at e = Some (ee_now E)"
    "st' = st(k := write_file (Some (files_of (st k))) (md_name slug) (render_library_entry e))"
    by (rule saved [OF assms(1)])
  have fixed: "sanitise_slug slug = Some slug" by (rule slug_ok_fixed [OF sanitise_ok [OF s(1)]])
  have "parse_library_entry (render_library_entry e) slug = e\<lparr>le_slug := slug, le_body := trim_newlines (le_body e)\<rparr>"
  proof (rule library_entry_reads_back)
    show "plain_line (le_name e)" using assms(2) s(3) by simp
    show "\<forall>t \<in> set_option (le_created_at e) \<union> set_option (le_updated_at e). plain_line t"
      using assms(3,4) s(2,5,6) by (cases "existing_created (Some (files_of (st k))) slug") simp_all
  qed
  then have "parse_library_entry (render_library_entry e) slug = e\<lparr>le_body := trim_newlines body\<rparr>"
    using s(2,4) by (cases e) simp
  then show ?thesis by (simp add: read_library_def s(2) fixed s(7))
qed

text \<open>A slug that ends in \<open>.md\<close> is listed without it, and then not found.\<close>

definition quiet_env :: entry_env where
  "quiet_env = \<lparr>ee_now = ''t'', ee_new_id = ''i'', ee_fails = (\<lambda>_. False), ee_torn = None\<rparr>"

lemma listed_slug_not_found:
  "case put_library_root quiet_env (\<lambda>_. None) ''prompts'' ''a.md'' ''x'' of
     (Inr e, st) \<Rightarrow> le_slug e = ''a.md''
       \<and> (case list_library_route quiet_env st ''prompts'' of
            Inr [l] \<Rightarrow> le_slug l = ''a'' \<and> get_library_entry st ''prompts'' (le_slug l) = Inl NotFound
          | _ \<Rightarrow> False)
   | _ \<Rightarrow> False"
  by code_simp

text \<open>
  C22. A new entry gets a slug no file of its kind has, leaves every other file alone, and reads
  back under that slug with its name, its times and its text (without the leading empty lines),
  if the name has no line break and no backslash in it.
\<close>

theorem put_then_get:
  assumes "put_library_root E st kind name body = (Inr e, st')" and "kind_parse kind = Some k"
    and "plain_line (trim name)" and "plain_line (ee_now E)"
  shows "get_library_entry st' kind (le_slug e) = Inr (e\<lparr>le_body := trim_newlines body\<rparr>)
    \<and> le_name e = trim name \<and> le_created_at e = Some (ee_now E) \<and> le_updated_at e = Some (ee_now E)
    \<and> \<not> file_exists (st k) (md_name (le_slug e))
    \<and> (\<forall>k' f. k' = k \<and> f = md_name (le_slug e) \<or> map_of (files_of (st' k')) f = map_of (files_of (st k')) f)"
proof -
  obtain desired where d: "sanitise_slug name = Some desired"
    and save: "save_library E st k (next_available_slug (st k) desired) name body = (Inr e, st')"
    using assms(1,2)
    by (auto simp: put_library_root_def parse_kind_def map_error_def split: option.splits prod.splits sum.splits)
  obtain slug where s: "sanitise_slug (next_available_slug (st k) desired) = Some slug" "le_slug e = slug"
    "le_name e = trim name" "le_body e = body"
    "le_created_at e = or_else (existing_created (Some (files_of (st k))) slug) (Some (ee_now E))"
    "le_updated_at e = Some (ee_now E)"
    "st' = st(k := write_file (Some (files_of (st k))) (md_name slug) (render_library_entry e))"
    by (rule saved [OF save])
  have "slug_ok (next_available_slug (st k) desired)" by (rule next_available(2) [OF sanitise_ok [OF d]])
  then have slug: "slug = next_available_slug (st k) desired" using s(1) slug_ok_fixed by simp
  then have new: "\<not> file_exists (st k) (md_name slug)" using next_available(1) by simp
  then have none: "existing_created (Some (files_of (st k))) slug = None"
    by (simp add: existing_created_def file_exists_def files_of_def split: option.splits)
  have "read_library st' k (le_slug e) = Inr (Some (e\<lparr>le_body := trim_newlines body\<rparr>))"
    by (rule saved_reads_back [OF save assms(3,4)]) (simp add: s(2) none)
  then have "get_library_entry st' kind (le_slug e) = Inr (e\<lparr>le_body := trim_newlines body\<rparr>)"
    using assms(2) by (simp add: get_library_entry_def parse_kind_def map_error_def)
  moreover have "map_of (files_of (st' k')) f = map_of (files_of (st k')) f" if "\<not> (k' = k \<and> f = md_name slug)" for k' f
    using that by (cases "k' = k") (auto simp: s(7) write_others)
  ultimately show ?thesis using new none s(2,3,5,6) by simp blast
qed

theorem put_then_get_witness:
  "\<exists>e st'. put_library_root quiet_env (\<lambda>_. Some [(''a.md'', Some ''x'')]) ''prompts'' ''a'' ''y'' = (Inr e, st')
    \<and> get_library_entry st' ''prompts'' (le_slug e) = Inr (e\<lparr>le_body := ''y''\<rparr>)"
proof -
  let ?st = "\<lambda>_. Some [(''a.md'', Some ''x'')]"
  have "case put_library_root quiet_env ?st ''prompts'' ''a'' ''y'' of (Inr e, st') \<Rightarrow> le_slug e = ''a-2'' | _ \<Rightarrow> False"
    by code_simp
  then obtain e st' where p: "put_library_root quiet_env ?st ''prompts'' ''a'' ''y'' = (Inr e, st')"
    by (auto split: prod.splits sum.splits)
  have "trim ''a'' = ''a''" "trim_newlines ''y'' = ''y''" by code_simp+
  then have "plain_line (trim ''a'')" by (simp add: plain_line_def newline_def)
  moreover have "plain_line (ee_now quiet_env)" by (simp add: plain_line_def newline_def quiet_env_def)
  moreover have "kind_parse ''prompts'' = Some Prompts" by code_simp
  ultimately show ?thesis
    using put_then_get [OF p] p \<open>trim_newlines ''y'' = ''y''\<close> by metis
qed

end
