(* ===== verification/Future_Prompts.thy ===== *)
theory Future_Prompts
  imports Library_Props Store_Load
begin

text \<open>
  Deferred prompts (\<^verbatim>\<open>backend/src/future_prompts.rs\<close>,
  \<^verbatim>\<open>backend/src/api/future_prompt_routes.rs\<close>): a directory of entries for every transcript
  session, and the table that caches how many are pending. \<open>ee_fails\<close> gets the call that fails.
\<close>

section \<open>Entries\<close>

datatype prompt_state = Pending | Sent

definition prompt_state_parse :: "string \<Rightarrow> prompt_state option" where
  "prompt_state_parse raw =
     (if raw = ''pending'' then Some Pending else if raw = ''sent'' then Some Sent else None)"

fun prompt_state_str :: "prompt_state \<Rightarrow> string" where
  "prompt_state_str Pending = ''pending''"
| "prompt_state_str Sent = ''sent''"

record prompt_entry =
  pe_id :: string
  pe_state :: prompt_state
  pe_created_at :: "string option"
  pe_updated_at :: "string option"
  pe_text :: string

definition sanitise_id :: "string \<Rightarrow> string option" where
  "sanitise_id raw =
     (let out = filter (\<lambda>c. ascii_alnum c \<or> c \<in> set ''-_'') (trim raw)
      in if trim raw = [] \<or> out = [] \<or> starts_with out ''.'' then None else Some out)"

definition header_state :: "(string \<times> string) list \<Rightarrow> prompt_state" where
  "header_state hs =
     foldl (\<lambda>s (k, v). if k = ''state'' then unwrap_or s (prompt_state_parse v) else s) Pending hs"

definition parse_prompt :: "string \<Rightarrow> string \<Rightarrow> prompt_entry" where
  "parse_prompt raw i =
     (let hs = header_of raw
      in \<lparr>pe_id = i, pe_state = header_state hs, pe_created_at = last_value ''created_at'' hs,
          pe_updated_at = last_value ''updated_at'' hs, pe_text = body_of raw\<rparr>)"

definition prompt_fields :: "prompt_entry \<Rightarrow> (string \<times> string) list" where
  "prompt_fields e =
     (''state'', prompt_state_str (pe_state e))
     # opt_field ''created_at'' (pe_created_at e) @ opt_field ''updated_at'' (pe_updated_at e)"

text \<open>The state is written unescaped; it has nothing to escape.\<close>

definition render_prompt :: "prompt_entry \<Rightarrow> string" where
  "render_prompt e = render_parts (map (\<lambda>(k, v). (k, escape_quotes v)) (prompt_fields e)) (pe_text e)"

section \<open>Operations on a directory\<close>

definition file_prompt :: "string \<times> string option \<Rightarrow> prompt_entry option" where
  "file_prompt f =
     (if ends_with (fst f) ''.md'' then map_option (\<lambda>t. parse_prompt t (md_stem (fst f))) (snd f) else None)"

definition dir_prompts :: "file_dir \<Rightarrow> prompt_entry list" where
  "dir_prompts d = List.map_filter file_prompt (files_of d)"

definition is_pending :: "prompt_entry \<Rightarrow> bool" where
  "is_pending e \<longleftrightarrow> pe_state e = Pending"

text \<open>Pending before sent; pending by creation, sent by their last change, latest first; then by id.\<close>

definition sort_prompts :: "prompt_entry list \<Rightarrow> prompt_entry list" where
  "sort_prompts es =
     sort_key (\<lambda>e. unwrap_or [] (pe_created_at e)) (sort_key pe_id (filter is_pending es))
     @ sort_desc (\<lambda>e. unwrap_or [] (pe_updated_at e)) (sort_key pe_id (filter (\<lambda>e. \<not> is_pending e) es))"

definition list_prompts :: "entry_env \<Rightarrow> file_dir \<Rightarrow> (string, prompt_entry list) result" where
  "list_prompts E d =
     (if d = None then Inr []
      else if ee_fails E ''read_dir'' then Inl ''read_dir'' else Inr (sort_prompts (dir_prompts d)))"

definition count_pending :: "entry_env \<Rightarrow> file_dir \<Rightarrow> (string, nat) result" where
  "count_pending E d =
     (if d = None then Inr 0
      else if ee_fails E ''read_dir'' then Inl ''read_dir'' else Inr (length (filter is_pending (dir_prompts d))))"

definition create_prompt :: "entry_env \<Rightarrow> file_dir \<Rightarrow> string \<Rightarrow> (string, prompt_entry) result \<times> file_dir" where
  "create_prompt E d text =
     (if trim text = [] then (Inl ''text must not be empty'', d)
      else if ee_fails E ''create_dir_all'' then (Inl ''create_dir_all'', d)
      else let e = \<lparr>pe_id = ee_new_id E, pe_state = Pending, pe_created_at = Some (ee_now E),
                    pe_updated_at = Some (ee_now E), pe_text = trim text\<rparr>
           in (case try_write E (Some (files_of d)) (md_name (ee_new_id E)) (render_prompt e) of
                 (Inl err, d') \<Rightarrow> (Inl err, d') | (Inr _, d') \<Rightarrow> (Inr e, d')))"

text \<open>The entry after an update, an error for a text that is blank.\<close>

definition updated_prompt ::
    "entry_env \<Rightarrow> string option \<Rightarrow> prompt_state option \<Rightarrow> prompt_entry \<Rightarrow> (string, prompt_entry) result" where
  "updated_prompt E text st e =
     (if map_option trim text = Some [] then Inl ''text must not be empty''
      else Inr (e\<lparr>pe_text := unwrap_or (pe_text e) (map_option trim text), pe_state := unwrap_or (pe_state e) st,
                  pe_updated_at := Some (ee_now E)\<rparr>))"

definition update_prompt ::
    "entry_env \<Rightarrow> file_dir \<Rightarrow> string \<Rightarrow> string option \<Rightarrow> prompt_state option \<Rightarrow>
     (string, prompt_entry option) result \<times> file_dir" where
  "update_prompt E d raw_id text st =
     (case sanitise_id raw_id of
        None \<Rightarrow> (Inr None, d)
      | Some i \<Rightarrow>
          if \<not> file_exists d (md_name i) then (Inr None, d)
          else (case res_bind (read_to_string d (md_name i)) (\<lambda>raw. updated_prompt E text st (parse_prompt raw i)) of
                  Inl err \<Rightarrow> (Inl err, d)
                | Inr e \<Rightarrow>
                    (case try_write E d (md_name i) (render_prompt e) of
                       (Inl err, d') \<Rightarrow> (Inl err, d') | (Inr _, d') \<Rightarrow> (Inr (Some e), d'))))"

definition delete_prompt :: "entry_env \<Rightarrow> file_dir \<Rightarrow> string \<Rightarrow> (string, bool) result \<times> file_dir" where
  "delete_prompt E d raw_id =
     (case sanitise_id raw_id of
        None \<Rightarrow> (Inr False, d)
      | Some i \<Rightarrow>
          if \<not> file_exists d (md_name i) then (Inr False, d)
          else if ee_fails E ''remove_file'' then (Inl ''remove_file'', d)
          else (Inr True, remove_file d (md_name i)))"

section \<open>Routes\<close>

record prompt_db =
  pd_ingest :: ingest_db
  pd_dirs :: "uuid \<Rightarrow> file_dir"
  pd_counts :: "(uuid \<times> int \<times> int) list"

definition resolve_future_prompt_session ::
    "prompt_db \<Rightarrow> uuid \<Rightarrow> (api_error, (uuid \<times> string option) option) result" where
  "resolve_future_prompt_session db pty =
     (case resolve_session_target (pd_ingest db) pty None of
        Resolved u agent \<Rightarrow> Inr (Some (u, agent)) | NoSession \<Rightarrow> Inr None | MissingPty \<Rightarrow> Inl NotFound)"

definition pending_i32 :: "nat \<Rightarrow> int" where
  "pending_i32 n = min (int n) 2147483647"

definition refresh_future_prompt_count ::
    "entry_env \<Rightarrow> prompt_db \<Rightarrow> uuid \<Rightarrow> (api_error, unit) result \<times> prompt_db" where
  "refresh_future_prompt_count E db u =
     (case count_pending E (pd_dirs db u) of
        Inl e \<Rightarrow> (Inl (Internal e), db)
      | Inr n \<Rightarrow>
          if ee_fails E ''upsert count'' then (Inl (Db ''upsert count''), db)
          else (Inr (), db\<lparr>pd_counts := AList.update u
                 (case map_of (pd_counts db) u of None \<Rightarrow> 1 | Some (rv, _) \<Rightarrow> rv + 1, pending_i32 n) (pd_counts db)\<rparr>))"

definition list_future_prompts ::
    "entry_env \<Rightarrow> prompt_db \<Rightarrow> uuid \<Rightarrow> (api_error, (uuid \<times> string option) option \<times> prompt_entry list) result" where
  "list_future_prompts E db pty =
     res_bind (resolve_future_prompt_session db pty) (\<lambda>resolved.
       case resolved of
         None \<Rightarrow> Inr (None, [])
       | Some (u, agent) \<Rightarrow>
           res_bind (map_error Internal (list_prompts E (pd_dirs db u))) (\<lambda>ps. Inr (Some (u, agent), ps)))"

text \<open>What every change does: resolve, change the directory, refresh the count.\<close>

definition change_prompts ::
    "entry_env \<Rightarrow> prompt_db \<Rightarrow> uuid \<Rightarrow> (file_dir \<Rightarrow> (string, 'a option) result \<times> file_dir) \<Rightarrow>
     (api_error, 'a) result \<times> prompt_db" where
  "change_prompts E db pty change =
     (case resolve_future_prompt_session db pty of
        Inl e \<Rightarrow> (Inl e, db)
      | Inr None \<Rightarrow> (Inl (BadRequest ''no correlated transcript session for this terminal''), db)
      | Inr (Some (u, _)) \<Rightarrow>
          (case change (pd_dirs db u) of
             (Inl e, d') \<Rightarrow> (Inl (Internal e), db\<lparr>pd_dirs := (pd_dirs db)(u := d')\<rparr>)
           | (Inr None, d') \<Rightarrow> (Inl NotFound, db\<lparr>pd_dirs := (pd_dirs db)(u := d')\<rparr>)
           | (Inr (Some x), d') \<Rightarrow>
               (case refresh_future_prompt_count E (db\<lparr>pd_dirs := (pd_dirs db)(u := d')\<rparr>) u of
                  (Inl e, db') \<Rightarrow> (Inl e, db') | (Inr _, db') \<Rightarrow> (Inr x, db'))))"

definition create_future_prompt ::
    "entry_env \<Rightarrow> prompt_db \<Rightarrow> uuid \<Rightarrow> string \<Rightarrow> (api_error, prompt_entry) result \<times> prompt_db" where
  "create_future_prompt E db pty text =
     change_prompts E db pty (\<lambda>d. map_prod (map_sum id Some) id (create_prompt E d text))"

definition update_future_prompt ::
    "entry_env \<Rightarrow> prompt_db \<Rightarrow> uuid \<Rightarrow> string \<Rightarrow> string option \<Rightarrow> prompt_state option \<Rightarrow>
     (api_error, prompt_entry) result \<times> prompt_db" where
  "update_future_prompt E db pty item text st = change_prompts E db pty (\<lambda>d. update_prompt E d item text st)"

definition delete_future_prompt ::
    "entry_env \<Rightarrow> prompt_db \<Rightarrow> uuid \<Rightarrow> string \<Rightarrow> (api_error, unit) result \<times> prompt_db" where
  "delete_future_prompt E db pty item =
     change_prompts E db pty (\<lambda>d. map_prod (map_sum id (\<lambda>removed. if removed then Some () else None)) id
       (delete_prompt E d item))"

end
