(* ===== verification/Future_Prompts_Props.thy ===== *)
theory Future_Prompts_Props
  imports Future_Prompts "HOL-Library.Multiset"
begin

text \<open>
  Deferred prompts read back, a listing holds what the directory holds, and the cached number of
  pending prompts is right after every change.
\<close>

section \<open>The format\<close>

interpretation prompt_format: quoting escape_quotes "\<lambda>v. newline \<notin> set v"
  by unfold_locales (simp_all add: unescape_quotes escape_quotes_line)

lemma header_state_read:
  "header_state ((''state'', prompt_state_str s) # opt_field ''created_at'' c @ opt_field ''updated_at'' u) = s"
  by (cases s; cases c; cases u) (simp_all add: header_state_def opt_field_def prompt_state_parse_def)

lemma prompt_reads_back:
  assumes "\<forall>t \<in> set_option (pe_created_at e) \<union> set_option (pe_updated_at e). newline \<notin> set t"
  shows "parse_prompt (render_prompt e) i = e\<lparr>pe_id := i, pe_text := trim_newlines (pe_text e)\<rparr>"
proof -
  have "newline \<notin> set (prompt_state_str (pe_state e))" by (cases "pe_state e") (simp_all add: newline_def)
  then have "\<forall>(k, v) \<in> set (prompt_fields e). entry_key k \<and> newline \<notin> set v"
    using assms by (auto simp: prompt_fields_def opt_field_def entry_key_def split: option.splits)
  moreover have "prompt_fields e \<noteq> []" by (simp add: prompt_fields_def)
  ultimately have h: "header_of (render_prompt e) = prompt_fields e"
    "body_of (render_prompt e) = trim_newlines (pe_text e)"
    unfolding render_prompt_def by (rule prompt_format.rendered_header)+
  have "last_value ''created_at'' (prompt_fields e) = pe_created_at e"
    "last_value ''updated_at'' (prompt_fields e) = pe_updated_at e"
    by (cases "pe_created_at e"; cases "pe_updated_at e"; simp add: last_value_def prompt_fields_def opt_field_def)+
  moreover have "header_state (prompt_fields e) = pe_state e" by (simp only: prompt_fields_def header_state_read)
  ultimately show ?thesis by (simp add: parse_prompt_def Let_def h)
qed

lemma trim_end_prefix: "\<exists>r. s = trim_end s @ r"
proof (induction s rule: trim_end.induct)
  case (1 s)
  show ?case
  proof (cases "ws_len_end s = 0")
    case False
    then obtain r where "take (length s - ws_len_end s) s = trim_end s @ r"
      using "1.IH" trim_end_step [OF False] by metis
    then show ?thesis by (metis append.assoc append_take_drop_id)
  qed (simp add: trim_end_done)
qed

lemma trim_start_done_len: "ws_len (trim_start s) = 0"
  by (induction s rule: trim_start.induct) (metis trim_start_done trim_start_step)

lemma trim_text: "trim_newlines (trim s) = trim s"
proof (cases "trim s")
  case (Cons c cs)
  then obtain r where "trim_start s = c # cs @ r" using trim_end_prefix [of "trim_start s"] by (auto simp: trim_def)
  then have "ws_len (c # cs @ r) = 0" using trim_start_done_len [of s] by simp
  then have "c \<noteq> newline" by (auto simp: newline_def ascii_ws_def)
  then show ?thesis by (simp add: Cons trim_newlines_def trim_start_char_def)
qed (simp add: trim_newlines_def trim_start_char_def)

section \<open>Listing\<close>

lemma mset_sort_prompts: "mset (sort_prompts xs) = mset xs"
  unfolding sort_prompts_def sort_desc_def mset_append mset_rev mset_sort by simp

lemma count_pending_is_listed:
  "count_pending E d = map_sum id (\<lambda>ps. length (filter is_pending ps)) (list_prompts E d)"
proof -
  have "length (filter is_pending (sort_prompts xs)) = length (filter is_pending xs)" for xs
    using mset_sort_prompts [of xs] unfolding size_mset [symmetric] by simp
  then show ?thesis by (simp add: count_pending_def list_prompts_def)
qed

lemma update_absent: "k \<notin> fst ` set al \<Longrightarrow> AList.update k v al = al @ [(k, v)]"
  by (induction al) auto

lemma dir_prompts_written:
  assumes "\<not> file_exists d name"
  shows "dir_prompts (write_file d name text) = dir_prompts d @ List.map_filter file_prompt [(name, Some text)]"
  using assms
  by (simp add: dir_prompts_def write_file_def files_of_def file_exists_def update_absent List.map_filter_def
      split: option.splits)

section \<open>The cached count\<close>

definition pending_in :: "prompt_db \<Rightarrow> uuid \<Rightarrow> nat" where
  "pending_in db u = length (filter is_pending (dir_prompts (pd_dirs db u)))"

definition cached_count :: "prompt_db \<Rightarrow> uuid \<Rightarrow> int" where
  "cached_count db u = (case map_of (pd_counts db) u of None \<Rightarrow> 0 | Some (_, n) \<Rightarrow> n)"

definition counts_right :: "prompt_db \<Rightarrow> bool" where
  "counts_right db \<longleftrightarrow> (\<forall>u. cached_count db u = pending_i32 (pending_in db u))"

definition all_succeed :: "entry_env \<Rightarrow> bool" where
  "all_succeed E \<longleftrightarrow> (\<forall>call. \<not> ee_fails E call)"

lemma refreshed:
  assumes "all_succeed E"
  shows "\<exists>db'. refresh_future_prompt_count E db u = (Inr (), db') \<and> pd_dirs db' = pd_dirs db
    \<and> cached_count db' u = pending_i32 (pending_in db u) \<and> (\<forall>v. v \<noteq> u \<longrightarrow> cached_count db' v = cached_count db v)"
proof -
  have "count_pending E (pd_dirs db u) = Inr (pending_in db u)"
    using assms by (simp add: count_pending_def all_succeed_def pending_in_def dir_prompts_def files_of_def)
  with assms show ?thesis
    by (simp add: refresh_future_prompt_count_def all_succeed_def cached_count_def update_conv')
qed

text \<open>A change that reports nothing changed has left the prompts alone.\<close>

definition honest :: "(file_dir \<Rightarrow> (string, 'a option) result \<times> file_dir) \<Rightarrow> bool" where
  "honest change \<longleftrightarrow> (\<forall>d. (\<nexists>x. fst (change d) = Inr (Some x)) \<longrightarrow> snd (change d) = d)"

lemma change_keeps_counts:
  assumes ok: "all_succeed E" and honest: "honest change" and right: "counts_right db"
  shows "counts_right (snd (change_prompts E db pty change))"
proof (cases "resolve_future_prompt_session db pty")
  case (Inr resolved)
  show ?thesis
  proof (cases resolved)
    case (Some s)
    obtain u agent where s: "s = (u, agent)" by (cases s)
    obtain r d' where c: "change (pd_dirs db u) = (r, d')" by (cases "change (pd_dirs db u)")
    show ?thesis
    proof (cases "\<exists>x. r = Inr (Some x)")
      case True
      then obtain x where x: "r = Inr (Some x)" by blast
      let ?db = "db\<lparr>pd_dirs := (pd_dirs db)(u := d')\<rparr>"
      obtain db' where db': "refresh_future_prompt_count E ?db u = (Inr (), db')"
        "pd_dirs db' = (pd_dirs db)(u := d')" "cached_count db' u = pending_i32 (pending_in ?db u)"
        "\<forall>v. v \<noteq> u \<longrightarrow> cached_count db' v = cached_count ?db v"
        using refreshed [OF ok, of ?db u] by auto
      have "cached_count db' v = pending_i32 (pending_in db' v)" for v
        using db'(2-4) right by (cases "v = u") (simp_all add: counts_right_def pending_in_def cached_count_def)
      then have "counts_right db'" by (simp add: counts_right_def)
      then show ?thesis by (simp add: change_prompts_def Inr Some s c x db'(1))
    next
      case False
      then have "d' = pd_dirs db u" using honest c unfolding honest_def by (metis fst_conv snd_conv)
      then have "db\<lparr>pd_dirs := (pd_dirs db)(u := d')\<rparr> = db" by simp
      moreover have "snd (change_prompts E db pty change) = db\<lparr>pd_dirs := (pd_dirs db)(u := d')\<rparr>"
        using False by (auto simp: change_prompts_def Inr Some s c split: sum.split option.split)
      ultimately show ?thesis using right by simp
    qed
  qed (use right in \<open>simp add: change_prompts_def Inr\<close>)
qed (use right in \<open>simp add: change_prompts_def\<close>)

lemma changes_honest:
  assumes "all_succeed E"
  shows "honest (\<lambda>d. map_prod (map_sum id Some) id (create_prompt E d text))"
    and "honest (\<lambda>d. update_prompt E d item text' st)"
    and "honest (\<lambda>d. map_prod (map_sum id (\<lambda>removed. if removed then Some () else None)) id (delete_prompt E d item))"
  using assms
  by (auto simp: honest_def create_prompt_def update_prompt_def delete_prompt_def try_write_def all_succeed_def Let_def
      split: option.splits sum.splits)

datatype prompt_op =
  CreatePrompt entry_env uuid string
| UpdatePrompt entry_env uuid string "string option" "prompt_state option"
| DeletePrompt entry_env uuid string

fun op_env :: "prompt_op \<Rightarrow> entry_env" where
  "op_env (CreatePrompt E pty text) = E"
| "op_env (UpdatePrompt E pty item text st) = E"
| "op_env (DeletePrompt E pty item) = E"

text \<open>A request whose calls do not all succeed is left out.\<close>

fun prompt_step :: "prompt_db \<Rightarrow> prompt_op \<Rightarrow> prompt_db" where
  "prompt_step db (CreatePrompt E pty text) = snd (create_future_prompt E db pty text)"
| "prompt_step db (UpdatePrompt E pty item text st) = snd (update_future_prompt E db pty item text st)"
| "prompt_step db (DeletePrompt E pty item) = snd (delete_future_prompt E db pty item)"

lemma prompt_step_counts: "all_succeed (op_env oper) \<Longrightarrow> counts_right db \<Longrightarrow> counts_right (prompt_step db oper)"
  by (cases oper)
     (simp_all add: create_future_prompt_def update_future_prompt_def delete_future_prompt_def
       change_keeps_counts changes_honest)

text \<open>A terminal that is bound to a session without prompts.\<close>

definition sample_prompts :: prompt_db where
  "sample_prompts =
     \<lparr>pd_ingest = \<lparr>ev_rows = [], block_rows = [], sessions = (\<lambda>_. None), states = (\<lambda>_. None),
        metadata = (\<lambda>_. None), ptys = [(1, Some 5)], rebuilds = []\<rparr>,
      pd_dirs = (\<lambda>_. None), pd_counts = []\<rparr>"

lemma sample_created:
  "case create_future_prompt quiet_env sample_prompts 1 '' hi '' of
     (Inr e, db') \<Rightarrow> pe_text e = ''hi'' \<and> cached_count db' 5 = 1 | _ \<Rightarrow> False"
  by code_simp

lemma quiet_succeeds: "all_succeed quiet_env" "\<not> ee_fails quiet_env call"
  by (simp_all add: all_succeed_def quiet_env_def)

text \<open>
  As long as the calls to the file system and the database succeed, the cached number of
  pending prompts of every session is the number of pending prompts a listing of it shows,
  after any requests to create, change and delete prompts, refused ones included.
\<close>

theorem pending_counts_right:
  assumes "\<forall>oper \<in> set ops. all_succeed (op_env oper)" and "counts_right db"
  shows "\<forall>u ps. list_prompts E (pd_dirs (foldl prompt_step db ops) u) = Inr ps
    \<longrightarrow> cached_count (foldl prompt_step db ops) u = pending_i32 (length (filter is_pending ps))"
proof -
  have "counts_right (foldl prompt_step db ops)"
    using assms by (induction ops arbitrary: db) (simp_all add: prompt_step_counts)
  moreover have "length (filter is_pending ps) = pending_in d u" if "list_prompts E (pd_dirs d u) = Inr ps" for d u ps
  proof -
    have "count_pending E (pd_dirs d u) = Inr (length (filter is_pending ps))"
      using that by (simp add: count_pending_is_listed)
    then show ?thesis
      by (auto simp: count_pending_def pending_in_def dir_prompts_def files_of_def split: if_splits)
  qed
  ultimately show ?thesis by (simp add: counts_right_def)
qed

theorem pending_counts_right_witness:
  "\<exists>ps. list_prompts quiet_env (pd_dirs (prompt_step sample_prompts (CreatePrompt quiet_env 1 '' hi '')) 5) = Inr ps
    \<and> cached_count (prompt_step sample_prompts (CreatePrompt quiet_env 1 '' hi '')) 5 = pending_i32 (length (filter is_pending ps))"
proof -
  have ops: "\<forall>oper \<in> set [CreatePrompt quiet_env 1 '' hi '']. all_succeed (op_env oper)" by (simp add: quiet_succeeds)
  have "counts_right sample_prompts"
    by (simp add: counts_right_def cached_count_def pending_in_def sample_prompts_def dir_prompts_def files_of_def pending_i32_def)
  note right = pending_counts_right [OF ops this]
  obtain ps where "list_prompts quiet_env (pd_dirs (foldl prompt_step sample_prompts [CreatePrompt quiet_env 1 '' hi '']) 5) = Inr ps"
    by (cases "pd_dirs (foldl prompt_step sample_prompts [CreatePrompt quiet_env 1 '' hi '']) 5")
      (simp_all add: list_prompts_def quiet_succeeds)
  with right show ?thesis by (simp del: prompt_step.simps)
qed

lemma created_some [simp]:
  "map_prod (map_sum id Some) id r = (Inr (Some e), d') \<longleftrightarrow> r = (Inr e, d')"
  by (cases r; cases "fst r") auto

text \<open>
  A created prompt is pending, has the trimmed text, and is listed, as it was returned,
  beside the prompts that were there.
\<close>

theorem create_adds_prompt:
  assumes "create_future_prompt E db pty text = (Inr e, db')" and "newline \<notin> set (ee_now E)"
    and "\<not> ends_with (ee_new_id E) ''.md''" and "\<And>u. \<not> file_exists (pd_dirs db u) (md_name (ee_new_id E))"
    and "\<not> ee_fails E2 ''read_dir''"
  shows "pe_state e = Pending \<and> pe_text e = trim text \<and> pe_text e \<noteq> []
    \<and> (\<exists>u agent ps. list_future_prompts E2 db' pty = Inr (Some (u, agent), ps)
         \<and> mset ps = add_mset e (mset (dir_prompts (pd_dirs db u))))"
proof -
  obtain u agent d' where r: "resolve_future_prompt_session db pty = Inr (Some (u, agent))"
    and c: "create_prompt E (pd_dirs db u) text = (Inr e, d')"
    and db': "refresh_future_prompt_count E (db\<lparr>pd_dirs := (pd_dirs db)(u := d')\<rparr>) u = (Inr (), db')"
    using assms(1)
    by (auto simp: create_future_prompt_def change_prompts_def split: sum.splits option.splits prod.splits)
  have db'': "pd_dirs db' u = d'" "pd_ingest db' = pd_ingest db"
    using db' by (auto simp: refresh_future_prompt_count_def split: sum.splits if_splits)
  from c have e: "trim text \<noteq> []" "e = \<lparr>pe_id = ee_new_id E, pe_state = Pending, pe_created_at = Some (ee_now E),
      pe_updated_at = Some (ee_now E), pe_text = trim text\<rparr>"
    and d': "d' = write_file (Some (files_of (pd_dirs db u))) (md_name (ee_new_id E)) (render_prompt e)"
    by (auto simp: create_prompt_def try_write_def Let_def split: if_splits)
  have "parse_prompt (render_prompt e) (ee_new_id E) = e\<lparr>pe_id := ee_new_id E, pe_text := trim_newlines (pe_text e)\<rparr>"
    by (rule prompt_reads_back) (simp add: e(2) assms(2))
  also have "\<dots> = e" by (simp add: e(2) trim_text)
  finally have parsed: "parse_prompt (render_prompt e) (ee_new_id E) = e" .
  have "ends_with (md_name (ee_new_id E)) ''.md''" by (simp add: md_name_def ends_with_def)
  then have "List.map_filter file_prompt [(md_name (ee_new_id E), Some (render_prompt e))] = [e]"
    using parsed md_stem [OF assms(3)] by (simp add: List.map_filter_def file_prompt_def)
  moreover have "\<not> file_exists (Some (files_of (pd_dirs db u))) (md_name (ee_new_id E))"
    using assms(4) [of u] by (simp add: file_exists_def files_of_def)
  moreover have "dir_prompts (Some (files_of d)) = dir_prompts d" for d by (simp add: dir_prompts_def files_of_def)
  ultimately have "dir_prompts d' = dir_prompts (pd_dirs db u) @ [e]"
    unfolding d' by (simp add: dir_prompts_written)
  then have m: "mset (sort_prompts (dir_prompts d')) = add_mset e (mset (dir_prompts (pd_dirs db u)))"
    by (simp add: mset_sort_prompts)
  have "resolve_future_prompt_session db' pty = Inr (Some (u, agent))"
    using r by (simp add: resolve_future_prompt_session_def db''(2))
  then have "list_future_prompts E2 db' pty = Inr (Some (u, agent), sort_prompts (dir_prompts d'))"
    using assms(5) by (simp add: list_future_prompts_def db''(1) list_prompts_def map_error_def d' write_file_def)
  with m e show ?thesis by auto
qed

theorem create_adds_prompt_witness:
  "\<exists>e db' ps. create_future_prompt quiet_env sample_prompts 1 '' hi '' = (Inr e, db') \<and> pe_state e = Pending
    \<and> list_future_prompts quiet_env db' 1 = Inr (Some (5, None), ps) \<and> mset ps = {#e#}"
proof -
  obtain e db' where c: "create_future_prompt quiet_env sample_prompts 1 '' hi '' = (Inr e, db')"
    using sample_created by (auto split: prod.splits sum.splits)
  have h: "newline \<notin> set (ee_now quiet_env)" "\<not> ends_with (ee_new_id quiet_env) ''.md''"
    "\<not> file_exists (pd_dirs sample_prompts u) (md_name (ee_new_id quiet_env))" for u
    by (simp_all add: quiet_env_def newline_def ends_with_def sample_prompts_def file_exists_def files_of_def)
  obtain u agent ps where l: "list_future_prompts quiet_env db' 1 = Inr (Some (u, agent), ps)"
    "mset ps = add_mset e (mset (dir_prompts (pd_dirs sample_prompts u)))" "pe_state e = Pending"
    using create_adds_prompt [OF c h quiet_succeeds(2)] by blast
  have "pd_ingest db' = pd_ingest sample_prompts"
    using c by (auto simp: create_future_prompt_def change_prompts_def refresh_future_prompt_count_def
        split: sum.splits option.splits prod.splits if_splits)
  then have "resolve_future_prompt_session db' 1 = Inr (Some (5, None))"
    by (simp add: resolve_future_prompt_session_def resolve_session_target_def sample_prompts_def)
  then have "u = 5" "agent = None"
    using l(1) by (auto simp: list_future_prompts_def map_error_def split: sum.splits)
  moreover have "dir_prompts (pd_dirs sample_prompts 5) = []" by (simp add: sample_prompts_def dir_prompts_def files_of_def)
  ultimately show ?thesis using c l by auto
qed

end
