(* ===== verification/Agent.thy ===== *)
theory Agent
  imports Ingest_Codex Worktree
begin

text \<open>
  The launcher of agents (\<^verbatim>\<open>backend/src/agent.rs\<close>, \<^verbatim>\<open>backend/src/codex.rs\<close>, and where
  \<^verbatim>\<open>backend/src/main.rs\<close> starts it): its arguments, the environment it reads, the process it
  runs and what it reports to the server. An argument is the list of its bytes, which need
  not be UTF-8. What the launcher does to the outside is a list of actions.
\<close>

section \<open>Text of the operating system\<close>

text \<open>\<open>OsStr::to_str\<close>: the well-formed byte sequences of the Unicode standard (table 3-7).\<close>

fun utf8_len :: "string \<Rightarrow> nat" where
  "utf8_len [] = 0"
| "utf8_len (a # s) =
     (if byte a < 0x80 then 1
      else case s of
        [] \<Rightarrow> 0
      | b # t \<Rightarrow>
          if 0xC2 \<le> byte a \<and> byte a \<le> 0xDF \<and> cont_byte b then 2
          else case t of
            [] \<Rightarrow> 0
          | c # u \<Rightarrow>
              if 0xE0 \<le> byte a \<and> byte a \<le> 0xEF \<and> cont_byte b \<and> cont_byte c
                 \<and> (byte a = 0xE0 \<longrightarrow> 0xA0 \<le> byte b) \<and> (byte a = 0xED \<longrightarrow> byte b \<le> 0x9F) then 3
              else case u of
                [] \<Rightarrow> 0
              | d # _ \<Rightarrow>
                  if 0xF0 \<le> byte a \<and> byte a \<le> 0xF4 \<and> cont_byte b \<and> cont_byte c \<and> cont_byte d
                     \<and> (byte a = 0xF0 \<longrightarrow> 0x90 \<le> byte b) \<and> (byte a = 0xF4 \<longrightarrow> byte b \<le> 0x8F) then 4
                  else 0)"

function valid_utf8 :: "string \<Rightarrow> bool" where
  "valid_utf8 [] = True"
| "valid_utf8 (c # cs) = (if utf8_len (c # cs) = 0 then False else valid_utf8 (drop (utf8_len (c # cs)) (c # cs)))"
  by pat_completeness auto
termination by (relation "measure length") auto

lemma valid_ascii: "list_all (\<lambda>c. byte c < 0x80) s \<Longrightarrow> valid_utf8 s"
  by (induction s) auto

definition os_str :: "string \<Rightarrow> string option" where
  "os_str s = (if valid_utf8 s then Some s else None)"

definition get_arg :: "nat \<Rightarrow> string list \<Rightarrow> string option" where
  "get_arg n args = (if n < length args then Some (args ! n) else None)"

section \<open>Agents and arguments\<close>

datatype agent_type = Claude | Codex

datatype launch_mode = Real | Mock

definition agent_type_parse :: "string \<Rightarrow> (string, agent_type) result" where
  "agent_type_parse raw =
     (if raw = ''claude-code'' \<or> raw = ''claude'' then Inr Claude
      else if raw = ''codex'' then Inr Codex
      else Inl (''unknown agent type: '' @ raw))"

fun agent_type_str :: "agent_type \<Rightarrow> string" where
  "agent_type_str Claude = ''claude''"
| "agent_type_str Codex = ''codex''"

fun binary_name :: "agent_type \<Rightarrow> string" where
  "binary_name Claude = ''claude''"
| "binary_name Codex = ''codex''"

definition launch_mode_parse :: "string \<Rightarrow> (string, launch_mode) result" where
  "launch_mode_parse raw =
     (if raw = ''real'' then Inr Real else if raw = ''mock'' then Inr Mock
      else Inl (''unknown launch mode: '' @ raw))"

record launcher_config =
  lc_agent_type :: agent_type
  lc_mode :: launch_mode
  lc_args :: "string list"

text \<open>The value of a flag is the argument after it, as text.\<close>

definition flag_value :: "string \<Rightarrow> string list \<Rightarrow> (string, string) result" where
  "flag_value arg rest =
     (case Option.bind (get_arg 0 rest) os_str of
        None \<Rightarrow> Inl (''missing value for '' @ arg) | Some v \<Rightarrow> Inr v)"

fun launcher_flags ::
    "agent_type option \<Rightarrow> launch_mode \<Rightarrow> string list \<Rightarrow>
     (string, agent_type option \<times> launch_mode \<times> string list) result" where
  "launcher_flags t m [] = Inr (t, m, [])"
| "launcher_flags t m (arg # rest) =
     (if os_str arg = None then Inl ''launcher arg is not valid utf-8''
      else if arg = ''--'' then Inr (t, m, rest)
      else if arg = ''--type'' then
        (case res_bind (flag_value arg rest) agent_type_parse of
           Inl e \<Rightarrow> Inl e | Inr t' \<Rightarrow> launcher_flags (Some t') m (drop 1 rest))
      else if arg = ''--mode'' then
        (case res_bind (flag_value arg rest) launch_mode_parse of
           Inl e \<Rightarrow> Inl e | Inr m' \<Rightarrow> launcher_flags t m' (drop 1 rest))
      else Inl (''unknown launcher arg: '' @ arg))"

definition parse_launcher_args :: "string list \<Rightarrow> (string, launcher_config) result" where
  "parse_launcher_args args =
     (case launcher_flags None Real args of
        Inl e \<Rightarrow> Inl e
      | Inr (None, m, rest) \<Rightarrow> Inl ''--type is required''
      | Inr (Some t, m, rest) \<Rightarrow> Inr \<lparr>lc_agent_type = t, lc_mode = m, lc_args = rest\<rparr>)"

section \<open>The Codex launcher's arguments\<close>

record codex_flags =
  cf_codex_bin :: "string option"
  cf_pty_id :: "uuid option"
  cf_sessions_dir :: "string option"
  cf_correlate_sock :: "string option"

record codex_config =
  cc_codex_bin :: string
  cc_pty_id :: uuid
  cc_sessions_dir :: string
  cc_correlate_sock :: string
  cc_args :: "string list"

definition no_codex_flags :: codex_flags where
  "no_codex_flags =
     \<lparr>cf_codex_bin = None, cf_pty_id = None, cf_sessions_dir = None, cf_correlate_sock = None\<rparr>"

fun codex_launcher_flags ::
    "(string \<Rightarrow> uuid option) \<Rightarrow> codex_flags \<Rightarrow> string list \<Rightarrow> (string, codex_flags \<times> string list) result" where
  "codex_launcher_flags uuid_of f [] = Inr (f, [])"
| "codex_launcher_flags uuid_of f (arg # rest) =
     (if os_str arg = None then Inl ''launcher arg is not valid utf-8''
      else if arg = ''--'' then Inr (f, rest)
      else if arg = ''--codex-bin'' then
        (case flag_value arg rest of
           Inl e \<Rightarrow> Inl e
         | Inr v \<Rightarrow> codex_launcher_flags uuid_of (f\<lparr>cf_codex_bin := Some v\<rparr>) (drop 1 rest))
      else if arg = ''--pty-id'' then
        (case res_bind (flag_value arg rest)
            (\<lambda>v. case uuid_of v of None \<Rightarrow> Inl ''invalid uuid'' | Some i \<Rightarrow> Inr i) of
           Inl e \<Rightarrow> Inl e
         | Inr i \<Rightarrow> codex_launcher_flags uuid_of (f\<lparr>cf_pty_id := Some i\<rparr>) (drop 1 rest))
      else if arg = ''--sessions-dir'' then
        (case flag_value arg rest of
           Inl e \<Rightarrow> Inl e
         | Inr v \<Rightarrow> codex_launcher_flags uuid_of (f\<lparr>cf_sessions_dir := Some v\<rparr>) (drop 1 rest))
      else if arg = ''--correlate-sock'' then
        (case flag_value arg rest of
           Inl e \<Rightarrow> Inl e
         | Inr v \<Rightarrow> codex_launcher_flags uuid_of (f\<lparr>cf_correlate_sock := Some v\<rparr>) (drop 1 rest))
      else Inl (''unknown launcher arg: '' @ arg))"

definition required :: "string \<Rightarrow> 'a option \<Rightarrow> (string, 'a) result" where
  "required what v = (case v of None \<Rightarrow> Inl (what @ '' is required'') | Some x \<Rightarrow> Inr x)"

definition parse_codex_args :: "(string \<Rightarrow> uuid option) \<Rightarrow> string list \<Rightarrow> (string, codex_config) result" where
  "parse_codex_args uuid_of args =
     res_bind (codex_launcher_flags uuid_of no_codex_flags args) (\<lambda>(f, rest).
     res_bind (required ''--codex-bin'' (cf_codex_bin f)) (\<lambda>bin.
     res_bind (required ''--pty-id'' (cf_pty_id f)) (\<lambda>i.
     res_bind (required ''--sessions-dir'' (cf_sessions_dir f)) (\<lambda>dir.
     res_bind (required ''--correlate-sock'' (cf_correlate_sock f)) (\<lambda>sock.
       Inr \<lparr>cc_codex_bin = bin, cc_pty_id = i, cc_sessions_dir = dir, cc_correlate_sock = sock,
            cc_args = rest\<rparr>)))))"

section \<open>Processes\<close>

type_synonym u32 = "32 word"

text \<open>How a process ended: with a code, by a signal, or neither.\<close>

datatype wait_status = WithCode int | BySignal int | Unknown

fun exit_code :: "wait_status \<Rightarrow> int" where
  "exit_code (WithCode c) = c"
| "exit_code (BySignal s) = 128 + s"
| "exit_code Unknown = 1"

text \<open>
  What a scan of \<^verbatim>\<open>/proc\<close> finds: the link targets of a process's descriptors (none where the
  directory cannot be read, no target where the link cannot) and the text of its children.
  A scan asks each process once, so an answer per process is enough.
\<close>

record proc_view =
  pv_fds :: "u32 \<Rightarrow> string option list option"
  pv_children :: "u32 \<Rightarrow> string option"

definition parse_u32 :: "string \<Rightarrow> u32 option" where
  "parse_u32 s =
     (let ds = (if take 1 s = ''+'' then drop 1 s else s)
      in if ds \<noteq> [] \<and> list_all ascii_digit ds \<and> int (digits_val ds) < 2 ^ 32
         then Some (of_nat (digits_val ds)) else None)"

definition read_child_pids :: "proc_view \<Rightarrow> u32 \<Rightarrow> u32 list" where
  "read_child_pids V pid =
     (case pv_children V pid of
        None \<Rightarrow> [] | Some raw \<Rightarrow> List.map_filter parse_u32 (split_whitespace raw))"

text \<open>\<open>Path::starts_with\<close>: by whole components.\<close>

definition os_path_starts_with :: "string \<Rightarrow> string \<Rightarrow> bool" where
  "os_path_starts_with p root \<longleftrightarrow>
     (case (path_components p, path_components root) of
        ((a, xs), (b, ys)) \<Rightarrow> (a = b \<or> ys = [] \<and> \<not> b) \<and> take (length ys) xs = ys)"

definition rollout_target :: "ingest_lib \<Rightarrow> string \<Rightarrow> string option \<Rightarrow> uuid option" where
  "rollout_target L dir target =
     (case target of
        None \<Rightarrow> None
      | Some t \<Rightarrow>
          let cs = snd (path_components t)
          in if os_path_starts_with t dir \<and> valid_utf8 (unwrap_or [] (path_stem cs))
             then parse_codex_session_uuid L cs else None)"

fun first_some :: "'a option list \<Rightarrow> 'a option" where
  "first_some [] = None"
| "first_some (x # xs) = (case x of None \<Rightarrow> first_some xs | Some y \<Rightarrow> Some y)"

definition detect_in_pid :: "ingest_lib \<Rightarrow> string \<Rightarrow> proc_view \<Rightarrow> u32 \<Rightarrow> uuid option" where
  "detect_in_pid L dir V pid =
     Option.bind (pv_fds V pid) (\<lambda>targets. first_some (map (rollout_target L dir) targets))"

text \<open>The stack's top is the end of the list. Every round sees a new process or drops one.\<close>

function detect_loop ::
    "(u32 \<Rightarrow> 'a option) \<Rightarrow> (u32 \<Rightarrow> u32 list) \<Rightarrow> u32 set \<Rightarrow> u32 list \<Rightarrow> 'a option" where
  "detect_loop found kids seen stack =
     (if stack = [] then None
      else if last stack \<in> seen then detect_loop found kids seen (butlast stack)
      else case found (last stack) of
        Some u \<Rightarrow> Some u
      | None \<Rightarrow> detect_loop found kids (insert (last stack) seen) (butlast stack @ kids (last stack)))"
  by pat_completeness auto
termination
proof (relation "measures [\<lambda>(f, k, seen, stack). card (- seen), \<lambda>(f, k, seen, stack). length stack]", goal_cases)
  case (3 found kids seen stack)
  have "card (- insert (last stack) seen) < card (- seen)"
    by (rule psubset_card_mono) (use 3 in auto)
  then show ?case by simp
qed simp_all

declare detect_loop.simps [simp del]

definition detect_rollout_session_uuid_in_pid_tree ::
    "ingest_lib \<Rightarrow> string \<Rightarrow> proc_view \<Rightarrow> u32 \<Rightarrow> uuid option" where
  "detect_rollout_session_uuid_in_pid_tree L dir V root =
     detect_loop (detect_in_pid L dir V) (read_child_pids V) {} [root]"

section \<open>The environment\<close>

record launcher_env =
  le_pty_id :: "uuid option"
  le_correlate_sock :: "string option"
  le_claude_projects_dir :: "string option"
  le_codex_sessions_dir :: "string option"
  le_cwd :: string

text \<open>\<open>var\<close> gives text, \<open>var_os\<close> any bytes; an empty path is as good as none.\<close>

definition var_text :: "env_vars \<Rightarrow> string \<Rightarrow> string option" where
  "var_text vars k = Option.bind (vars k) os_str"

definition var_path :: "env_vars \<Rightarrow> string \<Rightarrow> string option" where
  "var_path vars k = opt_filter (\<lambda>v. v \<noteq> []) (vars k)"

definition pty_id_of_env :: "ingest_lib \<Rightarrow> env_vars \<Rightarrow> (string, uuid option) result" where
  "pty_id_of_env L vars =
     (case opt_filter (\<lambda>v. \<not> blank v) (var_text vars ''SULION_PTY_ID'') of
        None \<Rightarrow> Inr None
      | Some v \<Rightarrow> (case i_uuid_parse L v of None \<Rightarrow> Inl ''parse SULION_PTY_ID'' | Some i \<Rightarrow> Inr (Some i)))"

definition read_launcher_env :: "ingest_lib \<Rightarrow> env_vars \<Rightarrow> string option \<Rightarrow> (string, launcher_env) result" where
  "read_launcher_env L vars cwd =
     (case pty_id_of_env L vars of
        Inl e \<Rightarrow> Inl e
      | Inr i \<Rightarrow>
          (case cwd of
             None \<Rightarrow> Inl ''resolve current directory''
           | Some d \<Rightarrow>
               Inr \<lparr>le_pty_id = i, le_correlate_sock = var_path vars ''SULION_CORRELATE_SOCK'',
                    le_claude_projects_dir = var_path vars ''SULION_CLAUDE_PROJECTS'',
                    le_codex_sessions_dir = var_path vars ''SULION_CODEX_SESSIONS'', le_cwd = d\<rparr>))"

definition raw_agent_binary :: "env_vars \<Rightarrow> agent_type \<Rightarrow> string" where
  "raw_agent_binary vars t =
     (case t of
        Claude \<Rightarrow> unwrap_or ''claude'' (vars ''SULION_REAL_CLAUDE'')
      | Codex \<Rightarrow> unwrap_or ''codex'' (vars ''SULION_REAL_CODEX''))"

section \<open>Running\<close>

datatype launcher_action =
  ReportRuntime string runtime_msg
| SendCorrelation string correlate_msg
| SpawnProcess string "string list"
| PrintText string

text \<open>
  What a run meets: its environment, the outcome of the raw agent's process, the process number
  of Codex and one record per tick of its loop, and in mock mode the lines typed and what
  writing the transcript of the n-th prompt gives. The reports' own failures only log.
\<close>

record codex_tick =
  ct_view :: proc_view
  ct_acknowledged :: bool
  ct_wait :: "(string, wait_status option) result"

record run_env =
  re_vars :: env_vars
  re_cwd :: "string option"
  re_raw :: "(string, wait_status) result"
  re_codex_pid :: "u32 option"
  re_ticks :: "codex_tick list"
  re_lines :: "(string, string) result list"
  re_emit :: "u32 \<Rightarrow> string \<Rightarrow> (string, string) result"

definition report_runtime ::
    "launcher_env \<Rightarrow> agent_type \<Rightarrow> runtime_event \<Rightarrow> int option \<Rightarrow> launcher_action list" where
  "report_runtime V t event code =
     (case (le_pty_id V, le_correlate_sock V) of
        (Some i, Some sock) \<Rightarrow>
          [ReportRuntime sock \<lparr>rm_pty_id = i, rm_agent = agent_type_str t, rm_event = event, rm_exit_code = code\<rparr>]
      | _ \<Rightarrow> [])"

text \<open>One tick: look for the session until its correlation is acknowledged, then for the end.\<close>

definition codex_correlate ::
    "ingest_lib \<Rightarrow> codex_config \<Rightarrow> u32 \<Rightarrow> bool \<Rightarrow> codex_tick \<Rightarrow> bool \<times> launcher_action list" where
  "codex_correlate L c pid correlated t =
     (if correlated then (True, [])
      else case detect_rollout_session_uuid_in_pid_tree L (cc_sessions_dir c) (ct_view t) pid of
        None \<Rightarrow> (False, [])
      | Some u \<Rightarrow>
          (ct_acknowledged t,
           [SendCorrelation (cc_correlate_sock c)
              \<lparr>cm_pty_id = cc_pty_id c, cm_session_uuid = u, cm_agent = ''codex''\<rparr>]))"

text \<open>No result while the process goes on.\<close>

fun codex_ticks ::
    "ingest_lib \<Rightarrow> codex_config \<Rightarrow> u32 \<Rightarrow> bool \<Rightarrow> codex_tick list \<Rightarrow>
     (string, int) result option \<times> launcher_action list" where
  "codex_ticks L c pid correlated [] = (None, [])"
| "codex_ticks L c pid correlated (t # ts) =
     (case codex_correlate L c pid correlated t of
        (correlated', acts) \<Rightarrow>
          (case ct_wait t of
             Inl e \<Rightarrow> (Some (Inl e), acts)
           | Inr (Some st) \<Rightarrow> (Some (Inr (exit_code st)), acts)
           | Inr None \<Rightarrow>
               (case codex_ticks L c pid correlated' ts of (r, acts') \<Rightarrow> (r, acts @ acts'))))"

definition codex_run_launcher ::
    "ingest_lib \<Rightarrow> codex_config \<Rightarrow> u32 option \<Rightarrow> codex_tick list \<Rightarrow>
     (string, int) result option \<times> launcher_action list" where
  "codex_run_launcher L c child ticks =
     (case child of
        None \<Rightarrow> (Some (Inl (''failed to spawn codex binary '' @ cc_codex_bin c)), [])
      | Some pid \<Rightarrow>
          (case codex_ticks L c pid False ticks of
             (r, acts) \<Rightarrow> (r, SpawnProcess (cc_codex_bin c) (cc_args c) # acts)))"

definition run_raw_agent ::
    "run_env \<Rightarrow> agent_type \<Rightarrow> string list \<Rightarrow> (string, int) result option \<times> launcher_action list" where
  "run_raw_agent R t args =
     (Some (case re_raw R of Inl e \<Rightarrow> Inl e | Inr st \<Rightarrow> Inr (exit_code st)),
      [SpawnProcess (raw_agent_binary (re_vars R) t) args])"

definition run_real ::
    "ingest_lib \<Rightarrow> run_env \<Rightarrow> launcher_config \<Rightarrow> launcher_env \<Rightarrow>
     (string, int) result option \<times> launcher_action list" where
  "run_real L R c V =
     (case (lc_agent_type c, le_pty_id V) of
        (Codex, Some i) \<Rightarrow>
          (case (le_codex_sessions_dir V, le_correlate_sock V) of
             (None, _) \<Rightarrow> (Some (Inl ''SULION_CODEX_SESSIONS is required inside sulion''), [])
           | (_, None) \<Rightarrow> (Some (Inl ''SULION_CORRELATE_SOCK is required inside sulion''), [])
           | (Some dir, Some sock) \<Rightarrow>
               codex_run_launcher L
                 \<lparr>cc_codex_bin = raw_agent_binary (re_vars R) Codex, cc_pty_id = i, cc_sessions_dir = dir,
                  cc_correlate_sock = sock, cc_args = lc_args c\<rparr> (re_codex_pid R) (re_ticks R))
      | _ \<Rightarrow> run_raw_agent R (lc_agent_type c) (lc_args c))"

definition crlf :: string where
  "crlf = [CHR 0x0D, CHR 0x0A]"

definition mock_prompt :: "agent_type \<Rightarrow> launcher_action" where
  "mock_prompt t = PrintText (''mock-'' @ agent_type_str t @ ''> '')"

text \<open>Where the transcripts go, and the complaint when that is not set.\<close>

definition mock_dir :: "agent_type \<Rightarrow> launcher_env \<Rightarrow> (string, string) result" where
  "mock_dir t V =
     (case t of
        Claude \<Rightarrow> (case le_claude_projects_dir V of
            None \<Rightarrow> Inl ''mock Claude mode requires SULION_CLAUDE_PROJECTS'' | Some d \<Rightarrow> Inr d)
      | Codex \<Rightarrow> (case le_codex_sessions_dir V of
            None \<Rightarrow> Inl ''mock Codex mode requires SULION_CODEX_SESSIONS'' | Some d \<Rightarrow> Inr d))"

fun mock_lines ::
    "agent_type \<Rightarrow> launcher_env \<Rightarrow> (u32 \<Rightarrow> string \<Rightarrow> (string, string) result) \<Rightarrow> u32 \<Rightarrow>
     (string, string) result list \<Rightarrow> (string, int) result \<times> launcher_action list" where
  "mock_lines t V emit n [] = (Inr 0, [])"
| "mock_lines t V emit n (Inl e # rest) = (Inl e, [])"
| "mock_lines t V emit n (Inr line # rest) =
     (let prompt = trim line
      in if prompt = [] then
           (case mock_lines t V emit n rest of (r, acts) \<Rightarrow> (r, mock_prompt t # acts))
         else if prompt = ''exit'' \<or> prompt = ''quit'' then
           (Inr 0, [PrintText (crlf @ ''mock launcher exiting'' @ crlf)])
         else case res_bind (mock_dir t V) (\<lambda>_. emit (n + 1) prompt) of
           Inl e \<Rightarrow> (Inl e, [])
         | Inr session \<Rightarrow>
             (case mock_lines t V emit (n + 1) rest of
                (r, acts) \<Rightarrow>
                  (r, PrintText (crlf @ ''wrote '' @ agent_type_str t @ '' mock transcript '' @ session @ crlf)
                      # mock_prompt t # acts)))"

definition run_mock ::
    "run_env \<Rightarrow> launcher_config \<Rightarrow> launcher_env \<Rightarrow> (string, int) result option \<times> launcher_action list" where
  "run_mock R c V =
     (if le_pty_id V = None then (Some (Inl ''mock mode requires SULION_PTY_ID''), [])
      else if le_correlate_sock V = None then (Some (Inl ''mock mode requires SULION_CORRELATE_SOCK''), [])
      else case mock_lines (lc_agent_type c) V (re_emit R) 0 (re_lines R) of
        (r, acts) \<Rightarrow>
          (Some r, PrintText (''SULION '' @ agent_type_str (lc_agent_type c)
                     @ '' mock ready. Type a prompt and press Enter.'' @ crlf)
                   # mock_prompt (lc_agent_type c) # acts))"

text \<open>An error is reported as code 1, which is also what the process then exits with.\<close>

definition reported_code :: "(string, int) result \<Rightarrow> int" where
  "reported_code r = (case r of Inl _ \<Rightarrow> 1 | Inr c \<Rightarrow> c)"

definition run_launcher ::
    "ingest_lib \<Rightarrow> run_env \<Rightarrow> launcher_config \<Rightarrow> (string, int) result option \<times> launcher_action list" where
  "run_launcher L R c =
     (case read_launcher_env L (re_vars R) (re_cwd R) of
        Inl e \<Rightarrow> (Some (Inl e), [])
      | Inr V \<Rightarrow>
          (case (case lc_mode c of Real \<Rightarrow> run_real L R c V | Mock \<Rightarrow> run_mock R c V) of
             (r, acts) \<Rightarrow>
               (r, report_runtime V (lc_agent_type c) Running None @ acts
                   @ (case r of None \<Rightarrow> []
                      | Some x \<Rightarrow> report_runtime V (lc_agent_type c) runtime_event.Exited (Some (reported_code x))))))"

section \<open>The program's first argument\<close>

datatype subcommand = AgentLauncher | CodexLauncher | CredentialHelper | RunnerClient | WorkspaceCli | Server

definition subcommand_of :: "string list \<Rightarrow> subcommand" where
  "subcommand_of argv =
     (case Option.bind (get_arg 1 argv) os_str of
        None \<Rightarrow> Server
      | Some s \<Rightarrow>
          if s = ''agent-launcher'' then AgentLauncher
          else if s = ''codex-launcher'' then CodexLauncher
          else if s = ''credential-helper'' then CredentialHelper
          else if s = ''runner-client'' then RunnerClient
          else if s = ''workspace'' then WorkspaceCli else Server)"

text \<open>Starting as the launcher: the exit status (none while it runs) and the actions.\<close>

definition main_agent_launcher ::
    "ingest_lib \<Rightarrow> run_env \<Rightarrow> string list \<Rightarrow> int option \<times> launcher_action list" where
  "main_agent_launcher L R argv =
     (case parse_launcher_args (drop 2 argv) of
        Inl e \<Rightarrow> (Some 1, [])
      | Inr c \<Rightarrow> map_prod (map_option reported_code) (\<lambda>a. a) (run_launcher L R c))"

end
