(* ===== verification/Session_Routes.thy ===== *)
theory Session_Routes
  imports Agent Library Pty_Steps Store_Load
begin

text \<open>
  The handlers of \<^verbatim>\<open>/api/sessions\<close> (\<^verbatim>\<open>backend/src/api/session_routes.rs\<close>): creating a session,
  starting and interrupting its agent, sending prompts, changing its label, and its history.
  They work on the workspaces and on the terminals, whose rows both see; a spawn and a
  deletion are the tasks of \<^verbatim>\<open>Pty_Steps\<close> run to their end, with one \<open>step_env\<close> per step. What
  was sent to a terminal's input is listed in the order of sending.
\<close>

section \<open>State\<close>

record server =
  sv_ws :: workspace_db
  sv_git :: "git_call list"
  sv_ptys :: pty_world
  sv_input :: "(uuid \<times> string) list"

definition with_ptys :: "pty_world \<Rightarrow> server \<Rightarrow> server" where
  "with_ptys w sv = sv\<lparr>sv_ptys := w, sv_ws := (sv_ws sv)\<lparr>wd_ptys := w_rows w\<rparr>\<rparr>"

definition set_pty_rows :: "pty_row list \<Rightarrow> server \<Rightarrow> server" where
  "set_pty_rows rows sv = with_ptys ((sv_ptys sv)\<lparr>w_rows := rows\<rparr>) sv"

definition rows_shared :: "server \<Rightarrow> bool" where
  "rows_shared sv \<longleftrightarrow> wd_ptys (sv_ws sv) = w_rows (sv_ptys sv)"

text \<open>
  What a request meets beside the state. \<open>se_steps\<close> are the steps of a spawn or a deletion,
  \<open>se_db_fails\<close> the statements of the simple handlers that fail, \<open>se_closed\<close> whether the input
  channel is closed, \<open>se_binary\<close> the program's own path as the server writes it.
\<close>

record session_env =
  se_ws :: workspace_env
  se_now :: timestamp
  se_pty_id :: uuid
  se_steps :: "nat \<Rightarrow> step_env"
  se_binary :: string
  se_is_file :: "string \<Rightarrow> bool"
  se_path_exists :: "string \<Rightarrow> bool"
  se_fixtures :: bool
  se_show_uuid :: "uuid \<Rightarrow> string"
  se_db_fails :: "string \<Rightarrow> bool"
  se_closed :: bool

section \<open>Commands for a shell\<close>

text \<open>A quote ends the quoted text, is escaped, and starts it again.\<close>

definition shell_quote_str :: "string \<Rightarrow> string" where
  "shell_quote_str v =
     [CHR 0x27] @ replace_sub [CHR 0x27] [CHR 0x27, CHR 0x5C, CHR 0x27, CHR 0x27] v @ [CHR 0x27]"

definition agent_launch_shell_command :: "string \<Rightarrow> agent_type \<Rightarrow> string list \<Rightarrow> bool \<Rightarrow> string" where
  "agent_launch_shell_command binary t args append_exec_bash =
     join '' '' ([shell_quote_str binary, ''agent-launcher'', ''--type'', agent_type_str t, ''--mode'', ''real'', ''--'']
        @ map shell_quote_str args)
     @ (if append_exec_bash then '' ; exec bash'' else [])"

definition default_agent_launch_command :: "string \<Rightarrow> agent_type \<Rightarrow> bool \<Rightarrow> string" where
  "default_agent_launch_command binary t append_exec_bash =
     agent_launch_shell_command binary t
       [case t of Claude \<Rightarrow> ''--dangerously-skip-permissions'' | Codex \<Rightarrow> ''--yolo''] append_exec_bash"

definition parse_launch_agent :: "string \<Rightarrow> (api_error, agent_type) result" where
  "parse_launch_agent raw =
     map_error (\<lambda>_. BadRequest ''agent must be one of: claude, codex'') (agent_type_parse (trim raw))"

section \<open>Views\<close>

record session_view =
  sw_meta :: pty_meta
  sw_state :: string
  sw_pending_count :: nat

definition session_view_of :: "pty_meta \<Rightarrow> session_view" where
  "session_view_of m = \<lparr>sw_meta = m, sw_state = pty_state_str (md_state m), sw_pending_count = 0\<rparr>"

definition pty_workspace_metadata :: "workspace_row \<Rightarrow> workspace_meta" where
  "pty_workspace_metadata r =
     \<lparr>wm_id = ws_id r, wm_repo_name = ws_repo_name r, wm_kind = ws_kind r, wm_path = ws_path r,
      wm_branch_name = ws_branch_name r, wm_base_ref = ws_base_ref r, wm_base_sha = ws_base_sha r,
      wm_merge_target = ws_merge_target r\<rparr>"

definition workspace_metas :: "workspace_db \<Rightarrow> uuid \<Rightarrow> workspace_meta option" where
  "workspace_metas db i = map_option pty_workspace_metadata (find (\<lambda>r. ws_id r = i) (wd_rows db))"

section \<open>Creating a session\<close>

record create_req =
  cq_repo :: string
  cq_working_dir :: "string option"
  cq_workspace_id :: "uuid option"
  cq_workspace_mode :: "string option"
  cq_cols :: "nat option"
  cq_rows :: "nat option"
  cq_resume_session_uuid :: "uuid option"
  cq_resume_agent :: "string option"
  cq_claude_resume_uuid :: "uuid option"
  cq_launch_agent :: "string option"
  cq_e2e_fixture :: "string option"

definition is_isolated :: "string \<Rightarrow> bool" where
  "is_isolated mode \<longleftrightarrow> mode = ''isolated'' \<or> mode = ''worktree''"

definition workspace_mode_of :: "create_req \<Rightarrow> string" where
  "workspace_mode_of q =
     (case cq_workspace_mode q of
        Some m \<Rightarrow> m
      | None \<Rightarrow>
          if cq_working_dir q \<noteq> None then ''main''
          else if cq_launch_agent q \<noteq> None \<or> cq_resume_session_uuid q \<noteq> None \<or> cq_claude_resume_uuid q \<noteq> None
          then ''isolated'' else ''main'')"

definition MOCK_TERMINAL_FIXTURE :: string where
  "MOCK_TERMINAL_FIXTURE = ''mock-terminal''"

definition mock_terminal_script_path :: "string \<Rightarrow> string" where
  "mock_terminal_script_path root = join_path (join_path root ''.sulion-e2e'') ''mock-terminal.sh''"

definition default_session_shell :: "session_env \<Rightarrow> string" where
  "default_session_shell E = default_shell (se_path_exists E)"

text \<open>The shell, its arguments and the agent that is starting in it.\<close>

type_synonym boot = "string \<times> string list \<times> string option"

definition boot_fixture :: "session_env \<Rightarrow> string \<Rightarrow> (api_error, boot) result" where
  "boot_fixture E fixture =
     (let path = mock_terminal_script_path (we_repos_root (se_ws E))
      in if fixture \<noteq> MOCK_TERMINAL_FIXTURE then Inl (BadRequest (''unknown e2e fixture '' @ fixture))
         else if \<not> se_fixtures E then Inl (BadRequest ''e2e fixtures are disabled on this backend'')
         else if \<not> se_is_file E path then Inl (Internal (''mock terminal fixture missing: '' @ path))
         else Inr (path, [], None))"

definition boot_resume :: "session_env \<Rightarrow> uuid \<Rightarrow> string option \<Rightarrow> (api_error, boot) result" where
  "boot_resume E u agent =
     (case agent of
        None \<Rightarrow> Inl (BadRequest ''resume_agent is required when resume_session_uuid is set'')
      | Some a \<Rightarrow>
          if a = ''claude-code'' \<or> a = ''claude'' then
            Inr (''/bin/bash'',
                 [''-c'', agent_launch_shell_command (se_binary E) Claude
                    [''--dangerously-skip-permissions'', ''--resume'', se_show_uuid E u] True],
                 Some ''claude'')
          else if a = ''codex'' then
            Inr (''/bin/bash'',
                 [''-c'', agent_launch_shell_command (se_binary E) Codex [''--yolo'', ''resume'', se_show_uuid E u] True],
                 Some ''codex'')
          else Inl (BadRequest (''resume is not implemented for agent '' @ a)))"

definition boot_launch :: "session_env \<Rightarrow> agent_type \<Rightarrow> boot" where
  "boot_launch E t =
     (''/bin/bash'', [''-c'', default_agent_launch_command (se_binary E) t True], Some (agent_type_str t))"

definition requested_fixture :: "create_req \<Rightarrow> string option" where
  "requested_fixture q = opt_filter (\<lambda>f. f \<noteq> []) (map_option trim (cq_e2e_fixture q))"

definition resumed_session :: "create_req \<Rightarrow> uuid option" where
  "resumed_session q = or_else (cq_resume_session_uuid q) (cq_claude_resume_uuid q)"

definition resumed_agent :: "create_req \<Rightarrow> string option" where
  "resumed_agent q = or_else (cq_resume_agent q) (map_option (\<lambda>_. ''claude-code'') (resumed_session q))"

definition transpose_result :: "('e, 'a) result option \<Rightarrow> ('e, 'a option) result" where
  "transpose_result r =
     (case r of None \<Rightarrow> Inr None | Some (Inl e) \<Rightarrow> Inl e | Some (Inr x) \<Rightarrow> Inr (Some x))"

definition choose_boot :: "session_env \<Rightarrow> create_req \<Rightarrow> (api_error, boot) result" where
  "choose_boot E q =
     (let fixture = requested_fixture q; resume = resumed_session q
      in case transpose_result (map_option parse_launch_agent (cq_launch_agent q)) of
           Inl e \<Rightarrow> Inl e
         | Inr launch \<Rightarrow>
             if fixture \<noteq> None \<and> (resume \<noteq> None \<or> launch \<noteq> None)
             then Inl (BadRequest ''e2e_fixture cannot be combined with agent launch/resume'')
             else if resume \<noteq> None \<and> launch \<noteq> None
             then Inl (BadRequest ''launch_agent cannot be combined with resume_session_uuid'')
             else case fixture of
               Some f \<Rightarrow> boot_fixture E f
             | None \<Rightarrow>
                 (case resume of
                    Some u \<Rightarrow> boot_resume E u (resumed_agent q)
                  | None \<Rightarrow>
                      (case launch of
                         Some t \<Rightarrow> Inr (boot_launch E t)
                       | None \<Rightarrow> Inr (default_session_shell E, [], None))))"

definition mode_error :: api_error where
  "mode_error = BadRequest ''workspace_mode must be one of: main, isolated''"

definition validate_workspace_request :: "create_req \<Rightarrow> string \<Rightarrow> (api_error, unit) result" where
  "validate_workspace_request q mode =
     (if cq_workspace_id q \<noteq> None \<and> cq_workspace_mode q \<noteq> None
      then Inl (BadRequest ''workspace_id cannot be combined with workspace_mode'')
      else if cq_workspace_id q \<noteq> None \<and> cq_working_dir q \<noteq> None
      then Inl (BadRequest ''workspace_id cannot be combined with working_dir'')
      else if cq_working_dir q \<noteq> None \<and> is_isolated mode
      then Inl (BadRequest ''working_dir is only supported with workspace_mode=main'')
      else if mode = ''main'' \<or> is_isolated mode then Inr () else Inl mode_error)"

definition repo_path_for_session ::
    "workspace_env \<Rightarrow> git_call list \<Rightarrow> string \<Rightarrow> (api_error, string) result" where
  "repo_path_for_session W tr repo =
     (let path = join_path (we_repos_root W) repo
      in if \<not> valid_repo_name repo then Inl (BadRequest ''invalid repo name'')
         else if \<not> gh_is_dir (we_host W) tr path then Inl (BadRequest (''repo does not exist: '' @ path))
         else Inr path)"

type_synonym workspace_outcome = "(api_error, workspace_row) result \<times> workspace_db \<times> git_call list"

definition chosen_workspace ::
    "workspace_env \<Rightarrow> create_req \<Rightarrow> uuid \<Rightarrow> workspace_db \<Rightarrow> (api_error, workspace_row) result" where
  "chosen_workspace W q i db =
     (case load_workspace W db i of
        Inl _ \<Rightarrow> Inl NotFound
      | Inr w \<Rightarrow>
          if ws_repo_name w \<noteq> cq_repo q then Inl (BadRequest ''workspace_id does not belong to requested repo'')
          else if ws_state w \<noteq> ''active'' then Inl (BadRequest ''workspace is not active'')
          else Inr w)"

definition resolve_session_workspace ::
    "workspace_env \<Rightarrow> create_req \<Rightarrow> string \<Rightarrow> workspace_db \<times> git_call list \<Rightarrow> workspace_outcome" where
  "resolve_session_workspace W q mode s =
     (case validate_workspace_request q mode of
        Inl e \<Rightarrow> (Inl e, s)
      | Inr _ \<Rightarrow>
          (case cq_workspace_id q of
             Some i \<Rightarrow> (chosen_workspace W q i (fst s), s)
           | None \<Rightarrow>
               if mode = ''main'' then
                 (case repo_path_for_session W (snd s) (cq_repo q) of
                    Inl e \<Rightarrow> (Inl e, s)
                  | Inr path \<Rightarrow> apfst (map_error Internal) (ensure_main_workspace W (cq_repo q) path s))
               else if is_isolated mode then
                 apfst (map_error BadRequest) (create_worktree_workspace W (cq_repo q) s)
               else (Inl mode_error, s)))"

text \<open>A spawn with nothing between its steps.\<close>

definition spawn_next ::
    "step_env \<Rightarrow> uuid \<Rightarrow> spawn_params \<Rightarrow> pty_task option \<times> pty_world \<Rightarrow> pty_task option \<times> pty_world" where
  "spawn_next E i p s =
     (case fst s of Some (SpawnTask _ _ at) \<Rightarrow> advance_spawn E i p at (snd s) | _ \<Rightarrow> (None, snd s))"

definition spawn_session ::
    "(nat \<Rightarrow> step_env) \<Rightarrow> uuid \<Rightarrow> spawn_params \<Rightarrow> pty_world \<Rightarrow> (api_error, unit) result \<times> pty_world" where
  "spawn_session E i p w =
     (let s = spawn_next (E 2) i p (spawn_next (E 1) i p (advance_spawn (E 0) i p SpStart w))
      in if fst s = None then (Inl (Internal ''spawn''), snd s)
         else (Inr (), snd (spawn_next (E 3) i p s)))"

definition spawned_meta :: "timestamp \<Rightarrow> uuid \<Rightarrow> spawn_params \<Rightarrow> pty_meta" where
  "spawned_meta now i p =
     \<lparr>md_id = i, md_repo = sp_repo p, md_working_dir = sp_working_dir p, md_workspace = sp_workspace p,
      md_state = Live, md_created_at = now, md_ended_at = None, md_exit_code = None, md_current_session = None,
      md_current_agent = None, md_last_event_at = None, md_label = None, md_pinned = False, md_color = None,
      md_runtime = initial_runtime now (sp_initial_agent p)\<rparr>"

definition session_params :: "create_req \<Rightarrow> boot \<Rightarrow> workspace_row \<Rightarrow> string \<Rightarrow> spawn_params" where
  "session_params q b w dir =
     (case b of
        (shell, args, agent) \<Rightarrow>
          \<lparr>sp_repo = cq_repo q, sp_working_dir = dir, sp_workspace = Some (pty_workspace_metadata w), sp_shell = shell,
           sp_args = args, sp_cols = unwrap_or 120 (cq_cols q), sp_rows = unwrap_or 32 (cq_rows q),
           sp_initial_agent = agent\<rparr>)"

text \<open>From the workspace to the running terminal.\<close>

definition start_in_workspace ::
    "session_env \<Rightarrow> create_req \<Rightarrow> boot \<Rightarrow> workspace_row \<Rightarrow> server \<Rightarrow> (api_error, session_view) result \<times> server" where
  "start_in_workspace E q b w sv =
     (let dir = unwrap_or (ws_path w) (cq_working_dir q)
      in if \<not> gh_exists (we_host (se_ws E)) (sv_git sv) dir
         then (Inl (BadRequest (''working dir does not exist: '' @ dir)), sv)
         else (let p = session_params q b w dir
               in case spawn_session (se_steps E) (se_pty_id E) p (sv_ptys sv) of
                    (Inl e, w') \<Rightarrow> (Inl e, with_ptys w' sv)
                  | (Inr _, w') \<Rightarrow>
                      (case bind_created_session (se_ws E) (ws_id w) (se_pty_id E) (sv_ws (with_ptys w' sv)) of
                         (Inl e, db) \<Rightarrow> (Inl (Internal e), (with_ptys w' sv)\<lparr>sv_ws := db\<rparr>)
                       | (Inr _, db) \<Rightarrow>
                           (Inr (session_view_of (spawned_meta (en_clock (se_steps E 2)) (se_pty_id E) p)),
                            (with_ptys w' sv)\<lparr>sv_ws := db\<rparr>))))"

definition create_session ::
    "session_env \<Rightarrow> create_req \<Rightarrow> server \<Rightarrow> (api_error, session_view) result \<times> server" where
  "create_session E q sv =
     (if cq_repo q = [] then (Inl (BadRequest ''repo must not be empty''), sv)
      else case choose_boot E q of
        Inl e \<Rightarrow> (Inl e, sv)
      | Inr b \<Rightarrow>
          (case resolve_session_workspace (se_ws E) q (workspace_mode_of q) (sv_ws sv, sv_git sv) of
             (Inl e, db, tr) \<Rightarrow> (Inl e, sv\<lparr>sv_ws := db, sv_git := tr\<rparr>)
           | (Inr w, db, tr) \<Rightarrow> start_in_workspace E q b w (sv\<lparr>sv_ws := db, sv_git := tr\<rparr>)))"

section \<open>The agent of a session\<close>

definition send_input :: "session_env \<Rightarrow> uuid \<Rightarrow> string \<Rightarrow> server \<Rightarrow> (api_error, unit) result \<times> server" where
  "send_input E i bytes sv =
     (if i \<notin> w_sessions (sv_ptys sv) then (Inl (Internal (''no live PTY session '' @ se_show_uuid E i)), sv)
      else if se_closed E then (Inl (Internal ''PTY input channel closed''), sv)
      else (Inr (), sv\<lparr>sv_input := sv_input sv @ [(i, bytes)]\<rparr>))"

definition meta_of_session :: "session_env \<Rightarrow> uuid \<Rightarrow> server \<Rightarrow> (api_error, pty_meta) result" where
  "meta_of_session E i sv =
     (if se_db_fails E ''read meta'' then Inl (Internal ''read meta'')
      else case read_meta (workspace_metas (sv_ws sv)) (w_rows (sv_ptys sv)) i of
        None \<Rightarrow> Inl NotFound | Some m \<Rightarrow> Inr m)"

definition live_meta :: "session_env \<Rightarrow> uuid \<Rightarrow> server \<Rightarrow> (api_error, pty_meta) result" where
  "live_meta E i sv =
     res_bind (meta_of_session E i sv) (\<lambda>m.
       if md_state m \<noteq> Live then Inl (BadRequest ''PTY session is not live'') else Inr m)"

definition start_session_agent ::
    "session_env \<Rightarrow> uuid \<Rightarrow> string \<Rightarrow> server \<Rightarrow> (api_error, http_status) result \<times> server" where
  "start_session_agent E i agent sv =
     (case parse_launch_agent agent of
        Inl e \<Rightarrow> (Inl e, sv)
      | Inr t \<Rightarrow>
          (case live_meta E i sv of
             Inl e \<Rightarrow> (Inl e, sv)
           | Inr m \<Rightarrow>
               if runtime_active (md_runtime m)
               then (Inl (BadRequest (unwrap_or ''agent'' (ag_agent (md_runtime m)) @ '' is already ''
                       @ ag_state (md_runtime m))), sv)
               else if se_db_fails E ''mark agent starting'' then (Inl (Internal ''mark agent starting''), sv)
               else (case mark_agent_starting (se_now E) (w_rows (sv_ptys sv)) i (agent_type_str t) of
                       (Inl e, rows) \<Rightarrow> (Inl (Internal e), set_pty_rows rows sv)
                     | (Inr _, rows) \<Rightarrow>
                         apfst (map_sum (\<lambda>e. e) (\<lambda>_. ACCEPTED))
                           (send_input E i (default_agent_launch_command (se_binary E) t False @ [CHR 0x0D])
                             (set_pty_rows rows sv)))))"

definition agent_interrupt_input :: string where
  "agent_interrupt_input = [CHR 0x1B]"

definition agent_submit_input :: string where
  "agent_submit_input = [CHR 0x0D]"

definition interrupt_session_agent ::
    "session_env \<Rightarrow> uuid \<Rightarrow> server \<Rightarrow> (api_error, http_status) result \<times> server" where
  "interrupt_session_agent E i sv =
     (case live_meta E i sv of
        Inl e \<Rightarrow> (Inl e, sv)
      | Inr m \<Rightarrow>
          if \<not> runtime_active (md_runtime m) then (Inl (BadRequest ''agent is not running''), sv)
          else apfst (map_sum (\<lambda>e. e) (\<lambda>_. ACCEPTED)) (send_input E i agent_interrupt_input sv))"

text \<open>A prompt is pasted in brackets, its lines ended by carriage returns, and then submitted.\<close>

definition normalized_prompt :: "string \<Rightarrow> string" where
  "normalized_prompt text =
     replace_sub [CHR 0x0A] [CHR 0x0D]
       (trim_end_char (CHR 0x0A)
         (replace_sub [CHR 0x0D] [CHR 0x0A] (replace_sub [CHR 0x0D, CHR 0x0A] [CHR 0x0A] text)))"

definition paste_start :: string where "paste_start = CHR 0x1B # ''[200~''"

definition paste_end :: string where "paste_end = CHR 0x1B # ''[201~''"

definition prompt_input_chunks :: "string \<Rightarrow> string list" where
  "prompt_input_chunks text = [paste_start @ normalized_prompt text @ paste_end, agent_submit_input]"

text \<open>Each chunk has its own outcome: the terminal may end in the pause between them.\<close>

fun send_chunks :: "(nat \<Rightarrow> session_env) \<Rightarrow> uuid \<Rightarrow> nat \<Rightarrow> string list \<Rightarrow> server \<Rightarrow> (api_error, unit) result \<times> server" where
  "send_chunks Es i n [] sv = (Inr (), sv)"
| "send_chunks Es i n (c # cs) sv =
     (case send_input (Es n) i c sv of
        (Inl e, sv') \<Rightarrow> (Inl e, sv') | (Inr _, sv') \<Rightarrow> send_chunks Es i (Suc n) cs sv')"

definition send_session_prompt ::
    "(nat \<Rightarrow> session_env) \<Rightarrow> uuid \<Rightarrow> string \<Rightarrow> server \<Rightarrow> (api_error, http_status) result \<times> server" where
  "send_session_prompt Es i text sv =
     (if trim text = [] then (Inl (BadRequest ''prompt text must not be empty''), sv)
      else case live_meta (Es 0) i sv of
        Inl e \<Rightarrow> (Inl e, sv)
      | Inr m \<Rightarrow>
          if ag_state (md_runtime m) \<noteq> ''running'' then (Inl (BadRequest ''agent is not running''), sv)
          else apfst (map_sum (\<lambda>e. e) (\<lambda>_. ACCEPTED)) (send_chunks Es i 0 (prompt_input_chunks text) sv))"

section \<open>Labels, deletion and history\<close>

definition COLOR_PALETTE :: "string list" where
  "COLOR_PALETTE =
     [''amber'', ''emerald'', ''sky'', ''rose'', ''violet'', ''slate'', ''teal'', ''fuchsia'']"

record patch_req =
  pq_label :: "string option"
  pq_pinned :: "bool option"
  pq_color :: "string option"

definition patch_refused :: "patch_req \<Rightarrow> string option" where
  "patch_refused q =
     (if (case pq_color q of None \<Rightarrow> False | Some c \<Rightarrow> c \<noteq> [] \<and> c \<notin> set COLOR_PALETTE)
      then Some (''color must be one of: '' @ join '', '' COLOR_PALETTE)
      else if (case pq_label q of None \<Rightarrow> False | Some l \<Rightarrow> length l > 100)
      then Some ''label must be 100 characters or fewer''
      else None)"

definition patch_session ::
    "session_env \<Rightarrow> uuid \<Rightarrow> patch_req \<Rightarrow> server \<Rightarrow> (api_error, http_status) result \<times> server" where
  "patch_session E i q sv =
     (case patch_refused q of
        Some m \<Rightarrow> (Inl (BadRequest m), sv)
      | None \<Rightarrow>
          if se_db_fails E ''update metadata'' \<and> (pq_label q \<noteq> None \<or> pq_pinned q \<noteq> None \<or> pq_color q \<noteq> None)
          then (Inl (Internal ''update metadata''), sv)
          else (Inr NO_CONTENT,
                set_pty_rows (update_metadata (w_rows (sv_ptys sv)) i (map_option Some (pq_label q)) (pq_pinned q)
                  (map_option Some (pq_color q))) sv))"

text \<open>A deletion with nothing between its steps; a failed update is its only error.\<close>

definition delete_next ::
    "step_env \<Rightarrow> uuid \<Rightarrow> pty_task option \<times> pty_world \<Rightarrow> pty_task option \<times> pty_world" where
  "delete_next E i s =
     (case fst s of Some (DeleteTask _ at) \<Rightarrow> advance_delete E i at (snd s) | _ \<Rightarrow> (None, snd s))"

definition delete_session :: "session_env \<Rightarrow> uuid \<Rightarrow> server \<Rightarrow> (api_error, http_status) result \<times> server" where
  "delete_session E i sv =
     (let s = delete_next (se_steps E 2) i (delete_next (se_steps E 1) i
                (advance_delete (se_steps E 0) i DlStart (sv_ptys sv)))
      in if fst s = None then (Inl (Internal ''delete''), with_ptys (snd s) sv)
         else (Inr NO_CONTENT, with_ptys (snd (delete_next (se_steps E 3) i s)) sv))"

record history_query =
  hq_after :: "int option"
  hq_limit :: "int option"
  hq_kind :: "string option"
  hq_session :: "uuid option"
  hq_claude_session :: "uuid option"

record history_response =
  hr_session_uuid :: "uuid option"
  hr_session_agent :: "string option"
  hr_events :: "stored_event list"
  hr_next_after :: "int option"

definition last_offset :: "stored_event list \<Rightarrow> int option" where
  "last_offset es = (if es = [] then None else Some (se_byte_offset (last es)))"

definition session_history ::
    "tool_rule list \<Rightarrow> ingest_db \<Rightarrow> uuid \<Rightarrow> history_query \<Rightarrow> (api_error, history_response) result" where
  "session_history rules db i q =
     (case resolve_session_target db i (or_else (hq_session q) (hq_claude_session q)) of
        NoSession \<Rightarrow>
          Inr \<lparr>hr_session_uuid = None, hr_session_agent = None, hr_events = [], hr_next_after = None\<rparr>
      | MissingPty \<Rightarrow> Inl NotFound
      | Resolved u agent \<Rightarrow>
          (let es = load_session_events rules db u
                \<lparr>sef_after = hq_after q, sef_limit = Some (unwrap_or 5000 (hq_limit q)), sef_kind = hq_kind q\<rparr>
           in Inr \<lparr>hr_session_uuid = Some u, hr_session_agent = agent, hr_events = es,
                   hr_next_after = last_offset es\<rparr>))"

end
