(* ===== verification/Agent_Props.thy ===== *)
theory Agent_Props
  imports Session_Routes Pty_Props
begin

text \<open>
  The launcher's side of a session: the command line the server writes is read back by a
  shell and by the launcher's own parser as what was meant, the search for Codex's transcript
  finds one whenever a process of the tree holds one open, and the reports of a launch leave
  the terminal's row with the agent's exit code.
\<close>

section \<open>Searching the process tree\<close>

definition process_tree :: "(u32 \<Rightarrow> u32 list) \<Rightarrow> (u32 \<times> u32) set" where
  "process_tree kids = {(p, q). q \<in> set (kids p)}"

definition searched :: "(u32 \<Rightarrow> 'a option) \<Rightarrow> (u32 \<Rightarrow> u32 list) \<Rightarrow> u32 set \<Rightarrow> u32 list \<Rightarrow> bool" where
  "searched found kids seen stack \<longleftrightarrow> (\<forall>p \<in> seen. found p = None \<and> set (kids p) \<subseteq> seen \<union> set stack)"

lemma detect_loop_none:
  assumes "searched found kids seen stack" and "detect_loop found kids seen stack = None"
  shows "\<exists>all. seen \<union> set stack \<subseteq> all \<and> (\<forall>p \<in> all. found p = None \<and> set (kids p) \<subseteq> all)"
  using assms
proof (induction found kids seen stack rule: detect_loop.induct)
  case (1 found kids seen stack)
  show ?case
  proof (cases stack rule: rev_cases)
    case Nil
    with 1(3) show ?thesis by (intro exI [of _ seen]) (auto simp: searched_def)
  next
    case (snoc xs x)
    have ne: "stack \<noteq> []" and lst: "last stack = x" and bl: "butlast stack = xs" by (simp_all add: snoc)
    note IH = 1(1) [OF ne, unfolded lst bl] 1(2) [OF ne, unfolded lst bl]
    have loop: "(if x \<in> seen then detect_loop found kids seen xs
        else case found x of Some u \<Rightarrow> Some u | None \<Rightarrow> detect_loop found kids (insert x seen) (xs @ kids x)) = None"
      using 1(4) unfolding detect_loop.simps [of found kids seen stack] lst bl by (simp only: ne if_False)
    show ?thesis
    proof (cases "x \<in> seen")
      case True
      have "searched found kids seen xs" using 1(3) True unfolding snoc searched_def by auto
      from IH(1) [OF True this] loop True obtain all where
        "seen \<union> set xs \<subseteq> all" "\<forall>p \<in> all. found p = None \<and> set (kids p) \<subseteq> all" by (simp only: if_True) blast
      with True show ?thesis unfolding snoc by (intro exI [of _ all]) auto
    next
      case False
      then have none: "found x = None" using loop by (auto split: option.splits)
      have "searched found kids (insert x seen) (xs @ kids x)"
        using 1(3) none unfolding snoc searched_def by auto
      from IH(2) [OF False none this] loop False none obtain all where
        "insert x seen \<union> set (xs @ kids x) \<subseteq> all" "\<forall>p \<in> all. found p = None \<and> set (kids p) \<subseteq> all"
        by (simp only: if_False option.case) blast
      then show ?thesis unfolding snoc by (intro exI [of _ all]) auto
    qed
  qed
qed

lemma detect_loop_some:
  assumes "detect_loop found kids seen stack = Some u"
  shows "\<exists>p \<in> set stack. \<exists>q. (p, q) \<in> (process_tree kids)\<^sup>* \<and> found q = Some u"
  using assms
proof (induction found kids seen stack rule: detect_loop.induct)
  case (1 found kids seen stack)
  have ne: "stack \<noteq> []" using 1(3) by (auto simp: detect_loop.simps)
  then obtain xs x where snoc: "stack = xs @ [x]" by (cases stack rule: rev_cases) auto
  have lst: "last stack = x" and bl: "butlast stack = xs" by (simp_all add: snoc)
  note IH = 1(1) [OF ne, unfolded lst bl] 1(2) [OF ne, unfolded lst bl]
  have loop: "(if x \<in> seen then detect_loop found kids seen xs
      else case found x of Some u \<Rightarrow> Some u | None \<Rightarrow> detect_loop found kids (insert x seen) (xs @ kids x)) = Some u"
    using 1(3) unfolding detect_loop.simps [of found kids seen stack] lst bl by (simp only: ne if_False)
  consider (old) "x \<in> seen" | (hit) "x \<notin> seen" "found x = Some u" | (miss) "x \<notin> seen" "found x = None"
    using loop by (cases "found x") (auto split: if_splits)
  then show ?case
  proof cases
    case old
    with IH(1) [OF old] loop show ?thesis unfolding snoc by auto
  next
    case hit
    then show ?thesis unfolding snoc by auto
  next
    case miss
    with IH(2) [OF miss] loop obtain p q where p: "p \<in> set xs \<or> p \<in> set (kids x)"
      and q: "(p, q) \<in> (process_tree kids)\<^sup>*" "found q = Some u" by auto
    from p show ?thesis
    proof
      assume "p \<in> set (kids x)"
      then have "(x, p) \<in> process_tree kids" by (simp add: process_tree_def)
      then have "(x, q) \<in> (process_tree kids)\<^sup>*" using q(1) by (rule converse_rtrancl_into_rtrancl)
      with q(2) show ?thesis unfolding snoc by auto
    next
      assume "p \<in> set xs"
      with q show ?thesis unfolding snoc by auto
    qed
  qed
qed

lemma closed_tree:
  assumes "(p, q) \<in> (process_tree kids)\<^sup>*" and "p \<in> all" and "\<forall>p \<in> all. set (kids p) \<subseteq> all"
  shows "q \<in> all"
  using assms by (induction) (auto simp: process_tree_def)

text \<open>
  What the system reports, apart from how it is searched: a process is below another when it is
  in the text of that one's children or of those below it; and a process holds a session's transcript open
  when one of its descriptors is a file below the sessions directory, in whole components, whose
  name without its extension ends in 36 bytes that are the session's identifier.
\<close>

definition child_of :: "proc_view \<Rightarrow> u32 \<Rightarrow> u32 \<Rightarrow> bool" where
  "child_of V p q \<longleftrightarrow> (\<exists>raw word. pv_children V p = Some raw \<and> word \<in> set (split_whitespace raw) \<and> parse_u32 word = Some q)"

inductive below_process :: "proc_view \<Rightarrow> u32 \<Rightarrow> u32 \<Rightarrow> bool" for V where
  itself: "below_process V p p"
| child: "below_process V p q \<Longrightarrow> child_of V q r \<Longrightarrow> below_process V p r"

definition holds_transcript :: "ingest_lib \<Rightarrow> string \<Rightarrow> proc_view \<Rightarrow> u32 \<Rightarrow> uuid \<Rightarrow> bool" where
  "holds_transcript L dir V p u \<longleftrightarrow>
     (\<exists>targets t stem rest. pv_fds V p = Some targets \<and> Some t \<in> set targets
        \<and> snd (path_components t) = snd (path_components dir) @ rest
        \<and> (fst (path_components t) = fst (path_components dir) \<or> path_components dir = (False, []))
        \<and> path_stem (snd (path_components t)) = Some stem \<and> valid_utf8 stem
        \<and> length stem \<ge> 36 \<and> is_char_boundary stem (length stem - 36)
        \<and> i_uuid_parse L (drop (length stem - 36) stem) = Some u)"

lemma below_tree: "(p, q) \<in> (process_tree (read_child_pids V))\<^sup>* \<longleftrightarrow> below_process V p q"
proof -
  have filtered: "y \<in> set (List.map_filter f xs) \<longleftrightarrow> (\<exists>x \<in> set xs. f x = Some y)" for f and xs :: "string list" and y :: u32
    by (induction xs) (auto simp: List.map_filter_simps split: option.splits)
  have child: "(p, q) \<in> process_tree (read_child_pids V) \<longleftrightarrow> child_of V p q" for p q
    by (cases "pv_children V p") (auto simp: process_tree_def read_child_pids_def child_of_def filtered)
  show ?thesis
  proof
    assume "(p, q) \<in> (process_tree (read_child_pids V))\<^sup>*"
    then show "below_process V p q"
      by induction (auto simp: child intro: below_process.intros)
  next
    assume "below_process V p q"
    then show "(p, q) \<in> (process_tree (read_child_pids V))\<^sup>*"
      by induction (auto simp: child [symmetric] intro: rtrancl.intros)
  qed
qed

lemma target_names:
  "rollout_target L dir (Some t) = Some u \<longleftrightarrow> (\<exists>stem rest. snd (path_components t) = snd (path_components dir) @ rest
        \<and> (fst (path_components t) = fst (path_components dir) \<or> path_components dir = (False, []))
        \<and> path_stem (snd (path_components t)) = Some stem \<and> valid_utf8 stem
        \<and> length stem \<ge> 36 \<and> is_char_boundary stem (length stem - 36)
        \<and> i_uuid_parse L (drop (length stem - 36) stem) = Some u)"
proof -
  have prefix: "take (length ys) xs = ys \<longleftrightarrow> (\<exists>rest. xs = ys @ rest)" for xs ys :: "string list"
    by (metis append_eq_conv_conj append_take_drop_id)
  have dir: "os_path_starts_with t dir \<longleftrightarrow> (\<exists>rest. snd (path_components t) = snd (path_components dir) @ rest)
      \<and> (fst (path_components t) = fst (path_components dir) \<or> path_components dir = (False, []))"
    by (auto simp: os_path_starts_with_def prefix split: prod.splits)
  show ?thesis
    by (cases "path_stem (snd (path_components t))")
      (auto simp: rollout_target_def dir Let_def parse_codex_session_uuid_def)
qed

lemma first_some_member: "first_some xs = Some y \<Longrightarrow> Some y \<in> set xs" "first_some xs = None \<Longrightarrow> x \<in> set xs \<Longrightarrow> x = None"
  by (induction xs) (auto split: option.splits)

lemma detected_holds:
  "detect_in_pid L dir V p = Some u \<Longrightarrow> holds_transcript L dir V p u"
  "detect_in_pid L dir V p = None \<Longrightarrow> \<not> holds_transcript L dir V p u"
proof -
  have holds: "holds_transcript L dir V p u \<longleftrightarrow>
      (\<exists>targets t. pv_fds V p = Some targets \<and> Some t \<in> set targets \<and> rollout_target L dir (Some t) = Some u)" for u
    unfolding holds_transcript_def target_names by blast
  show "holds_transcript L dir V p u" if "detect_in_pid L dir V p = Some u"
  proof -
    from that obtain targets where t: "pv_fds V p = Some targets" "first_some (map (rollout_target L dir) targets) = Some u"
      by (auto simp: detect_in_pid_def bind_eq_Some_conv)
    from first_some_member(1) [OF t(2)] obtain target where "target \<in> set targets" "rollout_target L dir target = Some u" by auto
    with t(1) show ?thesis by (cases target) (auto simp: holds rollout_target_def)
  qed
  show "\<not> holds_transcript L dir V p u" if none: "detect_in_pid L dir V p = None"
  proof
    assume "holds_transcript L dir V p u"
    then obtain targets t where t: "pv_fds V p = Some targets" "Some t \<in> set targets" "rollout_target L dir (Some t) = Some u"
      unfolding holds by blast
    from none t(1) have "first_some (map (rollout_target L dir) targets) = None" by (simp add: detect_in_pid_def)
    moreover have "rollout_target L dir (Some t) \<in> set (map (rollout_target L dir) targets)"
      using t(2) by (metis image_eqI list.set_map)
    ultimately show False using first_some_member(2) t(3) by fastforce
  qed
qed

text \<open>
  C37. The search for the session of a running Codex returns, for any process tree, loops in what the
  system reports included. It returns a session whose transcript the launcher's child or a process below
  it holds open, and returns nothing only when none of them holds any transcript open.
\<close>
theorem codex_session_found:
  "case detect_rollout_session_uuid_in_pid_tree L dir V root of
     None \<Rightarrow> \<not> (\<exists>q u. below_process V root q \<and> holds_transcript L dir V q u)
   | Some u \<Rightarrow> \<exists>q. below_process V root q \<and> holds_transcript L dir V q u"
proof (cases "detect_rollout_session_uuid_in_pid_tree L dir V root")
  case None
  have "searched (detect_in_pid L dir V) (read_child_pids V) {} [root]" by (simp add: searched_def)
  from detect_loop_none [OF this] None obtain all where all: "root \<in> all"
      "\<forall>p \<in> all. detect_in_pid L dir V p = None \<and> set (read_child_pids V p) \<subseteq> all"
    by (auto simp: detect_rollout_session_uuid_in_pid_tree_def)
  then have "detect_in_pid L dir V q = None" if "below_process V root q" for q
    using closed_tree [OF that [folded below_tree], of all] by blast
  with None show ?thesis using detected_holds(2) by (auto simp only: option.case)
next
  case (Some u)
  then have "\<exists>q. below_process V root q \<and> detect_in_pid L dir V q = Some u"
    using detect_loop_some [of "detect_in_pid L dir V" "read_child_pids V" "{}" "[root]" u]
    by (auto simp: detect_rollout_session_uuid_in_pid_tree_def below_tree)
  then show ?thesis using Some detected_holds(1) by auto
qed

text \<open>A child of the root holds a transcript open, and the root a file elsewhere.\<close>

definition sample_tree :: proc_view where
  "sample_tree = \<lparr>pv_fds = (\<lambda>p. if p = 2 then Some [None, Some ''/s/2026/rollout-00000000-0000-0000-0000-000000000005.jsonl'']
       else Some [Some ''/t/rollout-00000000-0000-0000-0000-000000000005.jsonl'']),
     pv_children = (\<lambda>p. if p = 1 then Some ''x 1 2'' else None)\<rparr>"

lemma sample_tree_searched:
  "detect_rollout_session_uuid_in_pid_tree
     \<lparr>i_json = \<lparr>js_print = (\<lambda>_. []), js_pretty = (\<lambda>_. []), js_parse = (\<lambda>_. None)\<rparr>,
      i_uuid_parse = (\<lambda>s. if s = ''00000000-0000-0000-0000-000000000005'' then Some 5 else None),
      i_uuid_show = (\<lambda>_. []), i_time_parse = (\<lambda>_. None), i_num = (\<lambda>_. None)\<rparr> ''/s'' sample_tree 1 = Some 5"
  by code_simp

section \<open>Reading a command line\<close>

text \<open>
  How a shell reads a command line, for the part of its grammar that is used: single quotes,
  a backslash before a character, blanks between words and a semicolon between commands. A
  line with any other special character has no reading here.
\<close>

definition plain_char :: "char \<Rightarrow> bool" where
  "plain_char c \<longleftrightarrow> ascii_alnum c \<or> c \<in> {CHR ''-'', CHR ''_'', CHR ''.'', CHR ''/''}"

lemmas plain_chars = plain_char_def ascii_alnum_def ascii_upper_def ascii_lower_def ascii_digit_def

lemma plain_char_ordinary:
  "plain_char c \<Longrightarrow> c \<noteq> CHR 0x27 \<and> c \<noteq> CHR 0x5C \<and> c \<noteq> CHR '' '' \<and> c \<noteq> CHR '';''"
  by (intro conjI notI) (simp_all add: plain_chars)

definition word_so_far :: "string option \<Rightarrow> string list" where
  "word_so_far w = (case w of None \<Rightarrow> [] | Some s \<Rightarrow> [s])"

fun shell_read :: "string \<Rightarrow> bool \<Rightarrow> string option \<Rightarrow> string list \<Rightarrow> string list list option" where
  "shell_read [] quoted w ws = (if quoted then None else Some [ws @ word_so_far w])"
| "shell_read (c # cs) True w ws =
     (if c = CHR 0x27 then shell_read cs False w ws
      else shell_read cs True (Some (unwrap_or [] w @ [c])) ws)"
| "shell_read (c # cs) False w ws =
     (if c = CHR 0x27 then shell_read cs True (Some (unwrap_or [] w)) ws
      else if c = CHR 0x5C then
        (if cs = [] \<or> hd cs = CHR 0x0A then None
         else shell_read (tl cs) False (Some (unwrap_or [] w @ [hd cs])) ws)
      else if c = CHR '' '' then shell_read cs False None (ws @ word_so_far w)
      else if c = CHR '';'' then map_option ((#) (ws @ word_so_far w)) (shell_read cs False None [])
      else if plain_char c then shell_read cs False (Some (unwrap_or [] w @ [c])) ws
      else None)"

definition shell_commands :: "string \<Rightarrow> string list list option" where
  "shell_commands line = shell_read line False None []"

definition reads_as :: "string \<Rightarrow> string \<Rightarrow> bool" where
  "reads_as t v \<longleftrightarrow> (\<forall>rest ws. shell_read (t @ rest) False None ws = shell_read rest False (Some v) ws)"

lemma plain_reads:
  "list_all plain_char s \<Longrightarrow> shell_read (s @ rest) False (Some w) ws = shell_read rest False (Some (w @ s)) ws"
  by (induction s arbitrary: w) (simp_all add: plain_char_ordinary)

lemma plain_word: "s \<noteq> [] \<Longrightarrow> list_all plain_char s \<Longrightarrow> reads_as s s"
proof (cases s)
  case (Cons c cs)
  assume p: "list_all plain_char s"
  then have "shell_read (s @ rest) False None ws = shell_read (cs @ rest) False (Some [c]) ws" for rest ws
    by (simp add: Cons plain_char_ordinary)
  with plain_reads [of cs _ "[c]"] p show ?thesis by (simp add: reads_as_def Cons)
qed simp

lemma quoted_reads:
  "shell_read (replace_sub [CHR 0x27] [CHR 0x27, CHR 0x5C, CHR 0x27, CHR 0x27] v @ CHR 0x27 # rest) True (Some w) ws
     = shell_read rest False (Some (w @ v)) ws"
  unfolding replace_char by (induction v arbitrary: w) simp_all

lemma quoted_word: "reads_as (shell_quote_str v) v"
  by (simp add: reads_as_def shell_quote_str_def quoted_reads)

lemma joined_words:
  assumes "list_all2 reads_as ts vs" and "ts \<noteq> []"
  shows "shell_read (join '' '' ts @ rest) False None ws = shell_read rest False (Some (last vs)) (ws @ butlast vs)"
  using assms
proof (induction "'' ''" ts arbitrary: vs ws rule: join.induct)
  case (3 x y ys)
  then obtain v vs' where vs: "vs = v # vs'" "reads_as x v" "list_all2 reads_as (y # ys) vs'"
    by (auto simp: list_all2_Cons1)
  then have ne: "vs' \<noteq> []" by auto
  have "shell_read (join '' '' (x # y # ys) @ rest) False None ws
      = shell_read (join '' '' (y # ys) @ rest) False None (ws @ [v])"
    using vs(2) by (simp add: reads_as_def word_so_far_def)
  with 3(1) [OF vs(3)] ne show ?case by (simp add: vs(1))
qed (auto simp: list_all2_Cons1 reads_as_def)

definition launcher_words :: "string \<Rightarrow> agent_type \<Rightarrow> string list \<Rightarrow> string list" where
  "launcher_words binary t args =
     [binary, ''agent-launcher'', ''--type'', agent_type_str t, ''--mode'', ''real'', ''--''] @ args"

lemma launch_command_words:
  "shell_commands (agent_launch_shell_command binary t args tail)
     = Some (launcher_words binary t args # (if tail then [[''exec'', ''bash'']] else []))"
proof -
  let ?ts = "[shell_quote_str binary, ''agent-launcher'', ''--type'', agent_type_str t, ''--mode'', ''real'', ''--'']
    @ map shell_quote_str args"
  have "list_all2 reads_as ?ts (launcher_words binary t args)"
    unfolding launcher_words_def
    by (cases t) (simp_all add: quoted_word plain_word plain_chars list_all2_map1 list_all2_same)
  from joined_words [OF this, of "if tail then '' ; exec bash'' else []" "[]"]
  show ?thesis
    by (simp add: shell_commands_def agent_launch_shell_command_def launcher_words_def word_so_far_def plain_chars)
qed

text \<open>
  C36. The command that starts an agent in a terminal is read by the shell as the program with
  the launcher's arguments, and by the launcher as the agent that was asked for, in real mode,
  with exactly the given arguments, whatever bytes the path and the arguments contain.
\<close>
theorem launch_command_read_back:
  "\<exists>argv more. shell_commands (agent_launch_shell_command binary t args tail) = Some (argv # more)
     \<and> hd argv = binary \<and> subcommand_of argv = AgentLauncher
     \<and> parse_launcher_args (drop 2 argv) = Inr \<lparr>lc_agent_type = t, lc_mode = Real, lc_args = args\<rparr>
     \<and> more = (if tail then [[''exec'', ''bash'']] else [])"
  unfolding launch_command_words
  by (cases t) (auto simp: launcher_words_def subcommand_of_def parse_launcher_args_def get_arg_def os_str_def
      flag_value_def agent_type_parse_def launch_mode_parse_def res_bind_def)

section \<open>The reports of a launch\<close>

definition is_report :: "launcher_action \<Rightarrow> bool" where
  "is_report a \<longleftrightarrow> (case a of ReportRuntime _ _ \<Rightarrow> True | _ \<Rightarrow> False)"

lemma codex_ticks_silent: "codex_ticks L c pid correlated ts = (r, acts) \<Longrightarrow> list_all (\<lambda>a. \<not> is_report a) acts"
proof (induction ts arbitrary: correlated r acts)
  case (Cons t ts)
  obtain k as where k: "codex_correlate L c pid correlated t = (k, as)" by (rule prod.exhaust)
  then have "list_all (\<lambda>a. \<not> is_report a) as"
    by (auto simp: codex_correlate_def is_report_def split: if_splits option.splits)
  with Cons k show ?case by (auto split: sum.splits option.splits prod.splits)
qed simp

lemma mock_lines_silent: "mock_lines t V emit n ls = (r, acts) \<Longrightarrow> list_all (\<lambda>a. \<not> is_report a) acts"
  by (induction t V emit n ls arbitrary: r acts rule: mock_lines.induct)
     (auto simp: Let_def is_report_def mock_prompt_def split: if_splits sum.splits prod.splits)

lemma run_real_silent: "run_real L R c V = (r, acts) \<Longrightarrow> list_all (\<lambda>a. \<not> is_report a) acts"
  by (auto simp: run_real_def run_raw_agent_def codex_run_launcher_def is_report_def dest: codex_ticks_silent
      split: agent_type.splits option.splits prod.splits)

lemma run_mock_silent: "run_mock R c V = (r, acts) \<Longrightarrow> list_all (\<lambda>a. \<not> is_report a) acts"
  by (auto simp: run_mock_def is_report_def mock_prompt_def dest: mock_lines_silent split: if_splits prod.splits)

lemma shell_env_sock:
  "shell_env K own i p key ''SULION_CORRELATE_SOCK''
     = Some (unwrap_or ''/run/sulion/correlate.sock'' (own ''SULION_CORRELATE_SOCK''))"
proof -
  have "''SULION_CORRELATE_SOCK'' \<notin> set SERVICE_VARS" by (simp add: SERVICE_VARS_def)
  then show ?thesis
    by (simp add: shell_env_def configure_pty_environment_def Let_def set_opt_other forward_other)
qed

lemma env_in_terminal:
  assumes "i_uuid_parse L (sock_uuid_show K i) = Some i"
    and "valid_utf8 (sock_uuid_show K i)" "\<not> blank (sock_uuid_show K i)"
    and "own ''SULION_CORRELATE_SOCK'' \<noteq> Some []"
    and "\<forall>k \<in> {''SULION_PTY_ID'', ''SULION_CORRELATE_SOCK''}. vars k = shell_env K own i p key k"
    and "cwd = Some d"
  shows "\<exists>V sock. read_launcher_env L vars cwd = Inr V \<and> le_pty_id V = Some i \<and> le_correlate_sock V = Some sock"
proof -
  let ?sock = "unwrap_or ''/run/sulion/correlate.sock'' (own ''SULION_CORRELATE_SOCK'')"
  have "pty_id_of_env L vars = Inr (Some i)"
    using assms(1-3,5) by (simp add: pty_id_of_env_def var_text_def os_str_def shell_env_pty opt_filter_def)
  moreover have "?sock \<noteq> []" using assms(4) by (auto simp: unwrap_or_def split: option.split)
  then have "var_path vars ''SULION_CORRELATE_SOCK'' = Some ?sock"
    using assms(5) by (simp add: var_path_def shell_env_sock opt_filter_def)
  ultimately show ?thesis by (simp add: read_launcher_env_def assms(6))
qed

definition launch_report :: "uuid \<Rightarrow> agent_type \<Rightarrow> runtime_event \<Rightarrow> int option \<Rightarrow> runtime_msg" where
  "launch_report i t e code = \<lparr>rm_pty_id = i, rm_agent = agent_type_str t, rm_event = e, rm_exit_code = code\<rparr>"

lemma find_id: "find P xs = Some x \<Longrightarrow> P x"
  by (auto simp: find_Some_iff)

lemma reports_recorded:
  assumes "find (\<lambda>r. pr_id r = i) rows = Some row" and "pr_state row = ''live''"
  shows "map_option (\<lambda>r. (pr_state r, ag_agent (pr_runtime r), ag_state (pr_runtime r), ag_exit_code (pr_runtime r)))
      (find (\<lambda>r. pr_id r = i)
         (apply_runtime t2 (apply_runtime t1 rows (launch_report i a Running None))
            (launch_report i a runtime_event.Exited (Some c))))
    = Some (''live'', Some (agent_type_str a), ''exited'', Some c)"
  using assms find_id [OF assms(1)] by (simp add: apply_runtime_def launch_report_def find_update_rows runtime_active_def or_else_def)

text \<open>
  A launch in the shell of a terminal reports for that terminal, once that the agent runs
  and, when it ended, once that it exited, with the code the launcher itself returns (1 for an
  error), before and after everything else it does; a live terminal that got both reports
  shows that agent as exited with that code.
\<close>
theorem launch_is_recorded:
  assumes "i_uuid_parse L (sock_uuid_show K i) = Some i"
    and "valid_utf8 (sock_uuid_show K i)" "\<not> blank (sock_uuid_show K i)"
    and "own ''SULION_CORRELATE_SOCK'' \<noteq> Some []"
    and "\<forall>k \<in> {''SULION_PTY_ID'', ''SULION_CORRELATE_SOCK''}. re_vars R k = shell_env K own i p key k"
    and "re_cwd R = Some d"
    and "run_launcher L R c = (Some r, acts)"
    and "find (\<lambda>r. pr_id r = i) rows = Some row" and "pr_state row = ''live''"
  shows "\<exists>sock mid m1 m2. acts = ReportRuntime sock m1 # mid @ [ReportRuntime sock m2]
    \<and> list_all (\<lambda>a. \<not> is_report a) mid
    \<and> map_option (\<lambda>r. (pr_state r, ag_agent (pr_runtime r), ag_state (pr_runtime r), ag_exit_code (pr_runtime r)))
        (find (\<lambda>r. pr_id r = i) (apply_runtime t2 (apply_runtime t1 rows m1) m2))
      = Some (''live'', Some (agent_type_str (lc_agent_type c)), ''exited'', Some (reported_code r))"
proof -
  from env_in_terminal [OF assms(1-6)] obtain V sock where
    V: "read_launcher_env L (re_vars R) (re_cwd R) = Inr V" "le_pty_id V = Some i" "le_correlate_sock V = Some sock"
    by blast
  obtain mid where mid: "(case lc_mode c of Real \<Rightarrow> run_real L R c V | Mock \<Rightarrow> run_mock R c V) = (Some r, mid)"
    and acts: "acts = report_runtime V (lc_agent_type c) Running None @ mid
      @ report_runtime V (lc_agent_type c) runtime_event.Exited (Some (reported_code r))"
    using assms(7) by (auto simp: run_launcher_def V(1) split: prod.splits option.splits)
  have rep: "report_runtime V t e code = [ReportRuntime sock (launch_report i t e code)]" for t e code
    by (simp add: report_runtime_def V launch_report_def)
  have "list_all (\<lambda>a. \<not> is_report a) mid"
    using mid by (auto split: launch_mode.splits dest: run_real_silent run_mock_silent)
  moreover note reports_recorded [OF assms(8,9), of t2 t1 "lc_agent_type c" "reported_code r"]
  ultimately show ?thesis
    by (intro exI [of _ sock] exI [of _ mid] exI) (auto simp: acts rep)
qed

definition sample_socket :: socket_lib where
  "sample_socket = \<lparr>sock_parse = (\<lambda>_. None), sock_uuid = (\<lambda>_. None), sock_uuid_show = (\<lambda>_. ''u''), sock_int = (\<lambda>_. None)\<rparr>"

definition sample_agent_lib :: ingest_lib where
  "sample_agent_lib =
     \<lparr>i_json = \<lparr>js_print = (\<lambda>_. []), js_pretty = (\<lambda>_. []), js_parse = (\<lambda>_. None)\<rparr>,
      i_uuid_parse = (\<lambda>s. if s = ''u'' then Some 1 else None), i_uuid_show = (\<lambda>_. ''u''),
      i_time_parse = (\<lambda>_. None), i_num = (\<lambda>_. None)\<rparr>"

text \<open>Codex is looked for twice, and is then killed.\<close>

definition sample_launch :: run_env where
  "sample_launch =
     \<lparr>re_vars = [''SULION_PTY_ID'' \<mapsto> ''u'', ''SULION_CORRELATE_SOCK'' \<mapsto> ''/run/sulion/correlate.sock'',
        ''SULION_CODEX_SESSIONS'' \<mapsto> ''/s''], re_cwd = Some ''/'', re_raw = Inl [], re_codex_pid = Some 7,
      re_ticks = [\<lparr>ct_view = \<lparr>pv_fds = (\<lambda>_. None), pv_children = (\<lambda>_. None)\<rparr>, ct_acknowledged = False, ct_wait = Inr None\<rparr>,
        \<lparr>ct_view = \<lparr>pv_fds = (\<lambda>_. None), pv_children = (\<lambda>_. None)\<rparr>, ct_acknowledged = False,
         ct_wait = Inr (Some (BySignal 9))\<rparr>],
      re_lines = [], re_emit = (\<lambda>_ _. Inl [])\<rparr>"

lemma sample_launched:
  "run_launcher sample_agent_lib sample_launch \<lparr>lc_agent_type = agent_type.Codex, lc_mode = Real, lc_args = []\<rparr>
     = (Some (Inr 137),
        [ReportRuntime ''/run/sulion/correlate.sock'' (launch_report 1 agent_type.Codex Running None),
         SpawnProcess ''codex'' [],
         ReportRuntime ''/run/sulion/correlate.sock'' (launch_report 1 agent_type.Codex runtime_event.Exited (Some 137))])"
proof -
  have detect: "detect_rollout_session_uuid_in_pid_tree L dir \<lparr>pv_fds = \<lambda>_. None, pv_children = \<lambda>_. None\<rparr> 7 = None" for L dir
    by (simp add: detect_rollout_session_uuid_in_pid_tree_def detect_loop.simps detect_in_pid_def read_child_pids_def)
  have "valid_utf8 ''u''" "trim ''u'' = ''u''" by code_simp+
  then show ?thesis
    by (simp add: run_launcher_def read_launcher_env_def pty_id_of_env_def var_text_def var_path_def os_str_def blank_def
        opt_filter_def sample_launch_def sample_agent_lib_def run_real_def codex_run_launcher_def codex_correlate_def detect
        report_runtime_def launch_report_def reported_code_def raw_agent_binary_def unwrap_or_def)
qed

theorem launch_is_recorded_witness:
  "\<exists>sock mid m1 m2. snd (run_launcher sample_agent_lib sample_launch
        \<lparr>lc_agent_type = agent_type.Codex, lc_mode = Real, lc_args = []\<rparr>) = ReportRuntime sock m1 # mid @ [ReportRuntime sock m2]
    \<and> map_option (\<lambda>r. (pr_state r, ag_agent (pr_runtime r), ag_state (pr_runtime r), ag_exit_code (pr_runtime r)))
        (find (\<lambda>r. pr_id r = 1)
          (apply_runtime 9 (apply_runtime 8 [new_pty_row 7 1 default_spawn_params] m1) m2))
      = Some (''live'', Some ''codex'', ''exited'', Some 137)"
proof -
  have env: "\<forall>k \<in> {''SULION_PTY_ID'', ''SULION_CORRELATE_SOCK''}.
      re_vars sample_launch k = shell_env sample_socket (\<lambda>_. None) 1 default_spawn_params None k"
    by (simp add: shell_env_pty shell_env_sock) (simp add: sample_launch_def sample_socket_def unwrap_or_def)
  have "valid_utf8 ''u''" "trim ''u'' = ''u''" by code_simp+
  then have p: "i_uuid_parse sample_agent_lib (sock_uuid_show sample_socket 1) = Some 1"
    "valid_utf8 (sock_uuid_show sample_socket 1)" "\<not> blank (sock_uuid_show sample_socket 1)"
    by (simp_all add: sample_agent_lib_def sample_socket_def blank_def)
  have row: "find (\<lambda>r. pr_id r = 1) [new_pty_row 7 1 default_spawn_params] = Some (new_pty_row 7 1 default_spawn_params)"
    "pr_state (new_pty_row 7 1 default_spawn_params) = ''live''" by (simp_all add: new_pty_row_def)
  have cwd: "re_cwd sample_launch = Some ''/''" by (simp add: sample_launch_def)
  from launch_is_recorded [OF p _ env cwd sample_launched row, of 9 8] show ?thesis
    unfolding sample_launched by (auto simp: reported_code_def)
qed

end
