(* ===== verification/Session_Props.thy ===== *)
theory Session_Props
  imports Agent_Props Worktree_Races
begin

text \<open>
  What a client of \<^verbatim>\<open>/api/sessions\<close> can rely on: a request that is refused changes nothing, a
  created session is a live terminal in an active workspace of its repository, a prompt reaches
  the terminal as one paste and one Enter, and paging through a history shows every event once.
\<close>

section \<open>Prompts\<close>

text \<open>How a program in bracketed-paste mode reads its terminal.\<close>

datatype terminal_key = Pasted string | Typed char

function terminal_keys :: "string \<Rightarrow> terminal_key list" where
  "terminal_keys [] = []"
| "terminal_keys (c # cs) =
     (if starts_with (c # cs) paste_start then
        (let rest = drop 6 (c # cs)
         in case find_sub rest paste_end of
              None \<Rightarrow> [Pasted rest]
            | Some n \<Rightarrow> Pasted (take n rest) # terminal_keys (drop (n + 6) rest))
      else Typed c # terminal_keys cs)"
  by pat_completeness auto
termination by (relation "measure length") auto

lemma find_first:
  "hd p \<notin> set a \<Longrightarrow> p \<noteq> [] \<Longrightarrow> find_sub (a @ p @ s) p = Some (length a)"
proof (induction a)
  case Nil
  then show ?case using starts_with_append [of p s] by (cases "p @ s") auto
next
  case (Cons c a)
  then have "\<not> starts_with (c # a @ p @ s) p" by (cases p) (auto simp: starts_with_def)
  with Cons show ?case by simp
qed

lemma replace_sub_chars: "c \<notin> set s \<Longrightarrow> c \<notin> set by \<Longrightarrow> c \<notin> set (replace_sub p by s)"
proof (induction p "by" s rule: replace_sub.induct)
  case (2 p "by" d cs)
  have "c \<notin> set (drop (length p) (d # cs))" using 2(3) by (blast dest: in_set_dropD)
  then show ?case using 2 by auto
qed simp

lemma trim_end_char_part: "set (trim_end_char c s) \<subseteq> set s"
  using set_dropWhileD [of _ "\<lambda>x. x = c" "rev s"] by (auto simp: trim_end_char_def)

lemma normalized_keeps:
  assumes "CHR 0x1B \<notin> set text"
  shows "CHR 0x1B \<notin> set (normalized_prompt text)"
  unfolding normalized_prompt_def
  by (intro replace_sub_chars notI) (use trim_end_char_part replace_sub_chars assms in fastforce)+

lemma normalized_lines: "CHR 0x0A \<notin> set (normalized_prompt text)"
  by (auto simp: normalized_prompt_def replace_char)

definition line_end :: "char \<Rightarrow> bool" where
  "line_end c \<longleftrightarrow> c = CHR 0x0A \<or> c = CHR 0x0D"

lemma filter_replace:
  assumes "\<And>c. c \<in> set p \<Longrightarrow> line_end c" and "\<And>c. c \<in> set by \<Longrightarrow> line_end c"
  shows "filter (\<lambda>c. \<not> line_end c) (replace_sub p by s) = filter (\<lambda>c. \<not> line_end c) s"
  using assms
proof (induction p "by" s rule: replace_sub.induct)
  case (2 p "by" c cs)
  show ?case
  proof (cases "p \<noteq> [] \<and> starts_with (c # cs) p")
    case True
    then obtain r where r: "c # cs = p @ r" by (auto simp: starts_with_iff)
    have "filter (\<lambda>c. \<not> line_end c) (c # cs) = filter (\<lambda>c. \<not> line_end c) r"
      unfolding r using 2(3) by (simp add: filter_False)
    moreover have "filter (\<lambda>c. \<not> line_end c) by = []" using 2(4) by (simp add: filter_False)
    moreover have "drop (length p) (c # cs) = r" unfolding r by simp
    ultimately show ?thesis using 2(1) [OF True 2(3,4)] True by simp
  qed (use 2(2) [OF _ 2(3,4)] in auto)
qed simp

lemma filter_trim_end: "line_end d \<Longrightarrow> filter (\<lambda>c. \<not> line_end c) (trim_end_char d s) = filter (\<lambda>c. \<not> line_end c) s"
proof -
  assume d: "line_end d"
  have "s = trim_end_char d s @ rev (takeWhile (\<lambda>x. x = d) (rev s))"
    by (simp add: trim_end_char_def rev_append [symmetric])
  moreover have "filter (\<lambda>c. \<not> line_end c) (rev (takeWhile (\<lambda>x. x = d) (rev s))) = []"
    using d by (auto simp: filter_empty_conv dest: set_takeWhileD)
  ultimately show ?thesis by (metis append_Nil2 filter_append)
qed

lemma normalized_text: "filter (\<lambda>c. \<not> line_end c) (normalized_prompt text) = filter (\<lambda>c. \<not> line_end c) text"
proof -
  let ?P = "\<lambda>c. \<not> line_end c" and ?a = "replace_sub [CHR 0x0D, CHR 0x0A] [CHR 0x0A] text"
  let ?b = "replace_sub [CHR 0x0D] [CHR 0x0A] ?a"
  have "filter ?P (replace_sub [CHR 0x0A] [CHR 0x0D] (trim_end_char (CHR 0x0A) ?b)) = filter ?P (trim_end_char (CHR 0x0A) ?b)"
    by (rule filter_replace) (auto simp: line_end_def)
  also have "\<dots> = filter ?P ?b" by (rule filter_trim_end) (simp add: line_end_def)
  also have "\<dots> = filter ?P ?a" by (rule filter_replace) (auto simp: line_end_def)
  also have "\<dots> = filter ?P text" by (rule filter_replace) (auto simp: line_end_def)
  finally show ?thesis by (simp only: normalized_prompt_def)
qed

lemma pasted_prompt:
  assumes "CHR 0x1B \<notin> set text"
  shows "terminal_keys (concat (prompt_input_chunks text)) = [Pasted (normalized_prompt text), Typed (CHR 0x0D)]"
proof -
  let ?n = "normalized_prompt text"
  have "find_sub (?n @ paste_end @ agent_submit_input) paste_end = Some (length ?n)"
    by (rule find_first) (use normalized_keeps [OF assms] in \<open>simp_all add: paste_end_def\<close>)
  moreover have "\<not> starts_with agent_submit_input paste_start" by (simp add: starts_with_def agent_submit_input_def paste_start_def)
  ultimately show ?thesis
    by (simp add: prompt_input_chunks_def paste_start_def paste_end_def agent_submit_input_def starts_with_def)
qed

text \<open>A text that contains the end of a paste leaves it: the rest is typed.\<close>

lemma paste_left_early:
  "terminal_keys (concat (prompt_input_chunks (''a'' @ paste_end @ ''b'')))
     = [Pasted ''a'', Typed (CHR ''b'')] @ map Typed (paste_end @ [CHR 0x0D])"
  by code_simp

lemma map_sum_Inr: "map_sum f g x = Inr y \<longleftrightarrow> (\<exists>z. x = Inr z \<and> y = g z)"
  by (cases x) auto

lemma send_input_Inr:
  "send_input E i c sv = (Inr x, sv') \<longleftrightarrow>
     i \<in> w_sessions (sv_ptys sv) \<and> \<not> se_closed E \<and> sv' = sv\<lparr>sv_input := sv_input sv @ [(i, c)]\<rparr>"
  by (auto simp: send_input_def)

lemma live_meta_Inr:
  assumes "live_meta E i sv = Inr m"
  shows "\<exists>row. find (\<lambda>r. pr_id r = i) (w_rows (sv_ptys sv)) = Some row \<and> pr_state row = ''live'' \<and> md_runtime m = pr_runtime row"
proof -
  from assms obtain row where "find (\<lambda>r. pr_id r = i) (w_rows (sv_ptys sv)) = Some row"
      "m = pty_row_into_meta row (join_workspace (workspace_metas (sv_ws sv)) row)" "md_state m = Live"
    by (auto simp: live_meta_def meta_of_session_def res_bind_def read_meta_def split: if_splits sum.splits option.splits)
  moreover from this have "pty_state_parse (pr_state row) = Some Live"
    by (auto simp: pty_row_into_meta_def unwrap_or_def split: option.splits)
  ultimately show ?thesis by (auto simp: pty_state_strings pty_row_into_meta_def)
qed

text \<open>
  C34. A prompt without an escape character is accepted only for a live terminal whose agent is
  running, and then the terminal's program reads exactly one paste and one Enter; the paste is the
  text with its line ends as carriage returns and none after its end, every other character kept in
  order. (An escape character in the text can end the paste early.)
\<close>
theorem prompt_delivered:
  assumes "send_session_prompt Es i text sv = (Inr st, sv')" and "CHR 0x1B \<notin> set text"
  shows "st = ACCEPTED \<and> i \<in> w_sessions (sv_ptys sv)
    \<and> (\<exists>row. find (\<lambda>r. pr_id r = i) (w_rows (sv_ptys sv)) = Some row
          \<and> pr_state row = ''live'' \<and> ag_state (pr_runtime row) = ''running'')
    \<and> (\<exists>c1 c2. sv' = sv\<lparr>sv_input := sv_input sv @ [(i, c1), (i, c2)]\<rparr>
          \<and> terminal_keys (c1 @ c2) = [Pasted (normalized_prompt text), Typed (CHR 0x0D)])
    \<and> CHR 0x0A \<notin> set (normalized_prompt text)
    \<and> filter (\<lambda>c. \<not> line_end c) (normalized_prompt text) = filter (\<lambda>c. \<not> line_end c) text"
proof -
  from assms(1) obtain m where m: "live_meta (Es 0) i sv = Inr m" "ag_state (md_runtime m) = ''running''"
    and s: "send_chunks Es i 0 (prompt_input_chunks text) sv = (Inr (), sv')" and st: "st = ACCEPTED"
    by (auto simp: send_session_prompt_def apfst_def map_prod_def map_sum_Inr split: if_splits sum.splits prod.splits)
  from s have "sv' = sv\<lparr>sv_input := sv_input sv @ [(i, paste_start @ normalized_prompt text @ paste_end), (i, agent_submit_input)]\<rparr>"
    and live: "i \<in> w_sessions (sv_ptys sv)"
    by (auto simp: prompt_input_chunks_def send_input_Inr split: sum.splits prod.splits)
  moreover have "terminal_keys ((paste_start @ normalized_prompt text @ paste_end) @ agent_submit_input)
      = [Pasted (normalized_prompt text), Typed (CHR 0x0D)]"
    using pasted_prompt [OF assms(2)] by (simp add: prompt_input_chunks_def)
  ultimately have keys: "\<exists>c1 c2. sv' = sv\<lparr>sv_input := sv_input sv @ [(i, c1), (i, c2)]\<rparr>
      \<and> terminal_keys (c1 @ c2) = [Pasted (normalized_prompt text), Typed (CHR 0x0D)]" by blast
  have "\<exists>row. find (\<lambda>r. pr_id r = i) (w_rows (sv_ptys sv)) = Some row
      \<and> pr_state row = ''live'' \<and> ag_state (pr_runtime row) = ''running''"
    using live_meta_Inr [OF m(1)] m(2) by auto
  with keys show ?thesis using st live normalized_lines normalized_text by blast
qed

section \<open>Creating a session\<close>

text \<open>What is asked of a request before anything is done.\<close>

definition request_ok :: "session_env \<Rightarrow> create_req \<Rightarrow> bool" where
  "request_ok E q \<longleftrightarrow>
     cq_repo q \<noteq> [] \<and> \<not> isl (choose_boot E q)
     \<and> validate_workspace_request q (workspace_mode_of q) = Inr ()"

lemma calls_ok: "op_calls P m \<Longrightarrow> op_calls P (op_ok m)"
  unfolding op_calls_def op_ok_def by (auto split: prod.splits sum.splits)

lemma main_looks:
  assumes "ensure_main_workspace W repo path (db, tr) = (r, db', tr')"
  shows "\<exists>cs. tr' = tr @ cs \<and> list_all looks cs"
proof -
  let ?ask = "op_then (op_ok (workspace_branch W path)) (\<lambda>b. op_then (op_ok (rev_parse W path ''HEAD'')) (\<lambda>h.
             op_return (Option.bind b (\<lambda>x. x), h)))"
  have "op_calls looks ?ask"
    unfolding workspace_branch_def rev_parse_def
    by (intro calls_intros calls_ok) (simp_all add: looks_def)
  then show ?thesis
    using assms by (auto simp: ensure_main_workspace_def dest: op_callsD split: if_splits prod.splits sum.splits)
qed

lemma resolved_looks:
  assumes "resolve_session_workspace W q mode (db, tr) = (r, db', tr')"
    and "\<not> is_isolated mode \<or> cq_workspace_id q \<noteq> None"
  shows "\<exists>cs. tr' = tr @ cs \<and> list_all looks cs"
  using assms
  by (auto simp: resolve_session_workspace_def apfst_def map_prod_def dest: main_looks
      split: sum.splits option.splits if_splits prod.splits)

lemma start_keeps_git: "start_in_workspace E q b w sv = (r, sv') \<Longrightarrow> sv_git sv' = sv_git sv"
  by (auto simp: start_in_workspace_def Let_def with_ptys_def split: if_splits prod.splits sum.splits)

text \<open>
  A request that is wrong in itself (no repository, an agent or fixture that cannot be
  started, a combination of fields that is not allowed) is refused before anything happens:
  no table, no work tree and no terminal changes. A request for the main checkout or for a
  named workspace never makes git change anything either, whatever happens to it.
\<close>
theorem refused_request_changes_nothing:
  assumes "create_session E q sv = (r, sv')"
  shows "(\<not> request_ok E q \<longrightarrow> (\<exists>e. r = Inl e) \<and> sv' = sv)
    \<and> (\<not> is_isolated (workspace_mode_of q) \<or> cq_workspace_id q \<noteq> None \<longrightarrow>
        (\<exists>cs. sv_git sv' = sv_git sv @ cs \<and> list_all looks cs))"
proof (intro conjI impI)
  assume "\<not> request_ok E q"
  then show "\<exists>e. r = Inl e" "sv' = sv"
    using assms by (auto simp: create_session_def request_ok_def resolve_session_workspace_def
        split: if_splits sum.splits prod.splits)
next
  assume q: "\<not> is_isolated (workspace_mode_of q) \<or> cq_workspace_id q \<noteq> None"
  show "\<exists>cs. sv_git sv' = sv_git sv @ cs \<and> list_all looks cs"
    using assms
    by (auto simp: create_session_def dest!: resolved_looks [OF _ q] start_keeps_git
        split: if_splits sum.splits prod.splits)
qed

lemma spawn_session_Inr:
  assumes "spawn_session Es i p w = (Inr (), w')"
  shows "w_rows w' = w_rows w @ [new_pty_row (en_clock (Es 2)) i p] \<and> i \<in> w_sessions w' \<and> i \<notin> pr_id ` set (w_rows w)"
proof -
  obtain key w1 where 1: "prepare_pty_credential (Es 0) w i = (Inr key, w1)"
    using assms by (auto simp: spawn_session_def spawn_next_def Let_def split: sum.splits prod.splits)
  then have r1: "w_rows w1 = w_rows w" by (metis prepare_rows snd_conv)
  show ?thesis
    using assms 1 r1
    by (auto simp: spawn_session_def spawn_next_def Let_def insert_pty_row_def new_pty_row_def
        split: sum.splits prod.splits if_splits)
qed

text \<open>The workspace of a request, as it is in the tables afterwards.\<close>

definition usable_workspace :: "string \<Rightarrow> workspace_db \<Rightarrow> workspace_row \<Rightarrow> bool" where
  "usable_workspace repo db w \<longleftrightarrow> w \<in> set (wd_rows db) \<and> ws_repo_name w = repo \<and> ws_state w = ''active''"

lemma store_main_usable:
  assumes ok: "workspaces_ok db" and s: "store_main W db repo path branch head = (Inr w, db')"
  shows "usable_workspace repo db' w \<and> wd_ptys db' = wd_ptys db"
proof (cases "find (\<lambda>r. ws_repo_name r = repo \<and> ws_kind r = ''main'' \<and> ws_state r \<noteq> ''deleted'') (wd_rows db)")
  case None
  then obtain new where new: "insert_workspace new db = Some db'" "load_workspace W db' (we_new_id W) = Inr w"
      "new = new_workspace W repo ''main'' path branch branch head"
    using s by (auto simp: store_main_def split: if_splits option.splits)
  then have "wd_rows db' = wd_rows db @ [new]" "wd_ptys db' = wd_ptys db" "ws_id new \<notin> ws_id ` set (wd_rows db)"
    by (auto simp: insert_workspace_def split: if_splits)
  moreover have w: "w \<in> set (wd_rows db')" "ws_id w = ws_id new"
    using load_workspace_Inr [OF new(2)] by (auto simp: new(3) new_workspace_def)
  moreover have "w \<notin> set (wd_rows db)" using calculation(3) w(2) by (metis image_eqI)
  ultimately have "w = new" by simp
  with w(1) \<open>wd_ptys db' = wd_ptys db\<close> show ?thesis
    by (simp add: usable_workspace_def new(3) new_workspace_def)
next
  case (Some r)
  let ?f = "set_main (we_now W) path branch head"
  have r: "r \<in> set (wd_rows db)" "ws_repo_name r = repo" using Some by (auto simp: find_Some_iff)
  from s Some have db': "db' = update_workspace (ws_id r) ?f db" and l: "load_workspace W db' (ws_id r) = Inr w"
    by (auto simp: store_main_def Let_def split: if_splits)
  from load_workspace_Inr [OF l] have w: "w \<in> set (wd_rows db')" "ws_id w = ws_id r" by auto
  then obtain q where q: "q \<in> set (wd_rows db)" "w = (if ws_id q = ws_id r then ?f q else q)"
    unfolding db' update_workspace_def set_rows by auto
  have ids: "ws_id (?f q) = ws_id q" by (simp add: set_main_def due_now_def)
  have "ws_id q = ws_id r" using q(2) w(2) ids by (auto split: if_splits)
  with same_row [OF ok q(1) r(1)] q(2) have "w = ?f r" by simp
  with w(1) r(2) show ?thesis
    by (simp add: usable_workspace_def set_main_def due_now_def) (simp add: db' update_workspace_def)
qed

lemma map_error_Inr: "map_error f r = Inr x \<longleftrightarrow> r = Inr x"
  by (cases r) (simp_all add: map_error_def)

lemma apfst_pair: "apfst f x = (a, b) \<longleftrightarrow> (\<exists>y. x = (y, b) \<and> f y = a)"
  by (cases x) auto

lemma resolved_usable:
  assumes ok: "workspaces_ok db" and s: "resolve_session_workspace W q mode (db, tr) = (Inr w, db', tr')"
  shows "usable_workspace (cq_repo q) db' w \<and> wd_ptys db' = wd_ptys db"
proof (cases "cq_workspace_id q")
  case (Some i)
  then have "chosen_workspace W q i db = Inr w" "db' = db"
    using s by (auto simp: resolve_session_workspace_def split: sum.splits)
  then show ?thesis
    by (auto simp: chosen_workspace_def usable_workspace_def dest: load_workspace_Inr split: sum.splits if_splits)
next
  case None
  show ?thesis
  proof (cases "mode = ''main''")
    case True
    with None s obtain path where m: "ensure_main_workspace W (cq_repo q) path (db, tr) = (Inr w, db', tr')"
      by (auto simp: resolve_session_workspace_def apfst_pair map_error_Inr split: sum.splits)
    obtain r tr1 where ask: "op_then (op_ok (workspace_branch W path)) (\<lambda>b. op_then (op_ok (rev_parse W path ''HEAD'')) (\<lambda>h.
             op_return (Option.bind b (\<lambda>x. x), h))) tr = (r, tr1)" by (rule prod.exhaust)
    with m obtain branch head where "store_main W db (cq_repo q) path branch head = (Inr w, db')"
      by (cases r) (auto simp: ensure_main_workspace_def split: if_splits prod.splits)
    then show ?thesis by (rule store_main_usable [OF ok])
  next
    case False
    with None s have "create_worktree_workspace W (cq_repo q) (db, tr) = (Inr w, db', tr')"
      by (auto simp: resolve_session_workspace_def apfst_pair map_error_Inr split: sum.splits if_splits)
    then obtain base_ref base_sha where st: "store_worktree W db (cq_repo q) base_ref base_sha = (Inr w, db')"
      by (auto simp: create_worktree_workspace_def split: sum.splits prod.splits)
    note store_worktree_Inr [OF st]
    moreover have "wd_ptys db' = wd_ptys db"
      using st by (auto simp: store_worktree_def insert_workspace_def split: if_splits option.splits)
    ultimately show ?thesis by (simp add: usable_workspace_def fresh_worktree_def new_workspace_def)
  qed
qed

lemma rows_of_with: "w_rows (sv_ptys (with_ptys w sv)) = w_rows w" "wd_rows (sv_ws (with_ptys w sv)) = wd_rows (sv_ws sv)"
    "sv_ptys (with_ptys w sv) = w" "wd_ptys (sv_ws (with_ptys w sv)) = w_rows w"
  by (simp_all add: with_ptys_def)

text \<open>The terminal and its workspace after a successful start.\<close>

lemma started:
  assumes "start_in_workspace E q b w sv = (Inr v, sv')" and "usable_workspace repo (sv_ws sv) w"
  shows "\<exists>p dir wrow. p = session_params q b w dir \<and> dir = unwrap_or (ws_path w) (cq_working_dir q)
      \<and> w_rows (sv_ptys sv') = w_rows (sv_ptys sv) @ [new_pty_row (en_clock (se_steps E 2)) (se_pty_id E) p]
      \<and> se_pty_id E \<notin> pr_id ` set (w_rows (sv_ptys sv)) \<and> se_pty_id E \<in> w_sessions (sv_ptys sv')
      \<and> rows_shared sv' \<and> usable_workspace repo (sv_ws sv') wrow \<and> ws_id wrow = ws_id w \<and> ws_created_by wrow \<noteq> None
      \<and> ws_path wrow = ws_path w \<and> v = session_view_of (spawned_meta (en_clock (se_steps E 2)) (se_pty_id E) p)"
proof -
  let ?p = "session_params q b w (unwrap_or (ws_path w) (cq_working_dir q))"
  let ?f = "\<lambda>r. touch (we_now (se_ws E)) (r\<lparr>ws_created_by := or_else (ws_created_by r) (Some (se_pty_id E))\<rparr>)"
  obtain w' where sp: "spawn_session (se_steps E) (se_pty_id E) ?p (sv_ptys sv) = (Inr (), w')"
    and sv': "sv' = (with_ptys w' sv)\<lparr>sv_ws := update_workspace (ws_id w) ?f (sv_ws (with_ptys w' sv))\<rparr>"
    and v: "v = session_view_of (spawned_meta (en_clock (se_steps E 2)) (se_pty_id E) ?p)"
    using assms(1)
    by (auto simp: start_in_workspace_def bind_created_session_def Let_def split: if_splits sum.splits prod.splits)
  note spawn_session_Inr [OF sp]
  moreover have "rows_shared sv'"
    by (simp add: rows_shared_def sv' rows_of_with update_workspace_def)
  moreover have "?f w \<in> set (wd_rows (sv_ws sv'))"
    using assms(2) by (auto simp: sv' update_workspace_def set_rows rows_of_with usable_workspace_def intro!: image_eqI [of _ _ w])
  then have "usable_workspace repo (sv_ws sv') (?f w)" using assms(2) by (simp add: usable_workspace_def touch_def)
  moreover have "ws_id (?f w) = ws_id w" "ws_created_by (?f w) \<noteq> None" "ws_path (?f w) = ws_path w"
    by (simp_all add: touch_def or_else_def split: option.split)
  moreover have "sv_ptys sv' = w'" by (simp add: sv' rows_of_with)
  ultimately show ?thesis unfolding v by (intro exI [of _ ?p] exI [of _ "?f w"] exI [of _ "unwrap_or (ws_path w) (cq_working_dir q)"]) simp
qed

text \<open>
  What a request asks for, apart from how it is decided: the agent, and the arguments it is given.
  A fixture asks for none; a session to resume asks for its agent, Claude unless it says Codex;
  else the agent to launch, if any, is asked for.
\<close>

definition asked_agent :: "create_req \<Rightarrow> string option" where
  "asked_agent q =
     (if \<exists>f \<in> set_option (cq_e2e_fixture q). trim f \<noteq> [] then None
      else if cq_resume_session_uuid q \<noteq> None \<or> cq_claude_resume_uuid q \<noteq> None
      then Some (if cq_resume_agent q = Some ''codex'' then ''codex'' else ''claude'')
      else map_option (\<lambda>l. if trim l = ''codex'' then ''codex'' else ''claude'') (cq_launch_agent q))"

definition asked_arguments :: "session_env \<Rightarrow> create_req \<Rightarrow> string list" where
  "asked_arguments E q =
     (let uuids = (case cq_resume_session_uuid q of Some u \<Rightarrow> [u] | None \<Rightarrow>
             (case cq_claude_resume_uuid q of Some u \<Rightarrow> [u] | None \<Rightarrow> []))
      in if asked_agent q = Some ''codex'' then ''--yolo'' # concat (map (\<lambda>u. [''resume'', se_show_uuid E u]) uuids)
         else ''--dangerously-skip-permissions'' # concat (map (\<lambda>u. [''--resume'', se_show_uuid E u]) uuids))"

text \<open>A terminal boots what was asked for: its shell with the agent's command, or a plain shell, or the fixture.\<close>

definition boots_as_asked :: "session_env \<Rightarrow> create_req \<Rightarrow> string \<Rightarrow> string list \<Rightarrow> agent_runtime \<Rightarrow> bool" where
  "boots_as_asked E q shell args runtime \<longleftrightarrow>
     (case asked_agent q of
        None \<Rightarrow> args = [] \<and> runtime = no_runtime
          \<and> shell = (if \<exists>f \<in> set_option (cq_e2e_fixture q). trim f \<noteq> []
               then join_path (join_path (we_repos_root (se_ws E)) ''.sulion-e2e'') ''mock-terminal.sh''
               else default_session_shell E)
      | Some a \<Rightarrow> shell = ''/bin/bash'' \<and> ag_agent runtime = Some a \<and> ag_state runtime = ''starting''
          \<and> (\<exists>command. args = [''-c'', command]
               \<and> shell_commands command
                 = Some [[se_binary E, ''agent-launcher'', ''--type'', a, ''--mode'', ''real'', ''--''] @ asked_arguments E q,
                         [''exec'', ''bash'']]))"

lemma boot_as_asked:
  assumes "choose_boot E q = Inr (shell, args, agent)"
  shows "boots_as_asked E q shell args (initial_runtime now agent)"
proof -
  have run: "initial_runtime now None = no_runtime"
    "ag_agent (initial_runtime now (Some a)) = Some a" "ag_state (initial_runtime now (Some a)) = ''starting''" for a
    by (simp_all add: initial_runtime_def)
  note unfold = boots_as_asked_def asked_agent_def asked_arguments_def
  show ?thesis
  proof (cases "requested_fixture q")
    case (Some f)
    then have "\<exists>f \<in> set_option (cq_e2e_fixture q). trim f \<noteq> []"
      by (auto simp: requested_fixture_def opt_filter_def split: option.splits if_splits)
    moreover from Some assms have "boot_fixture E f = Inr (shell, args, agent)"
      by (auto simp: choose_boot_def Let_def split: sum.splits if_splits)
    ultimately show ?thesis
      by (auto simp: unfold run boot_fixture_def Let_def mock_terminal_script_path_def split: if_splits)
  next
    case None
    then have nf: "\<not> (\<exists>f \<in> set_option (cq_e2e_fixture q). trim f \<noteq> [])"
      by (auto simp: requested_fixture_def opt_filter_def split: option.splits if_splits)
    show ?thesis
    proof (cases "resumed_session q")
      case (Some u)
      then have u: "cq_resume_session_uuid q \<noteq> None \<or> cq_claude_resume_uuid q \<noteq> None"
        "(case cq_resume_session_uuid q of Some u \<Rightarrow> [u] | None \<Rightarrow>
             (case cq_claude_resume_uuid q of Some u \<Rightarrow> [u] | None \<Rightarrow> [])) = [u]"
        by (auto simp: resumed_session_def or_else_def split: option.splits)
      have boot: "boot_resume E u (resumed_agent q) = Inr (shell, args, agent)"
        using assms None Some by (auto simp: choose_boot_def Let_def split: sum.splits if_splits)
      have agent: "resumed_agent q = Some (case cq_resume_agent q of None \<Rightarrow> ''claude-code'' | Some a \<Rightarrow> a)"
        using Some by (auto simp: resumed_agent_def or_else_def split: option.splits)
      show ?thesis
      proof (cases "cq_resume_agent q = Some ''codex''")
        case True
        then have "shell = ''/bin/bash''" "agent = Some ''codex''"
          "args = [''-c'', agent_launch_shell_command (se_binary E) Codex [''--yolo'', ''resume'', se_show_uuid E u] True]"
          using boot agent by (auto simp: boot_resume_def)
        then show ?thesis using nf u True by (simp add: unfold run launch_command_words launcher_words_def)
      next
        case False
        then have "shell = ''/bin/bash''" "agent = Some ''claude''"
          "args = [''-c'', agent_launch_shell_command (se_binary E) Claude
             [''--dangerously-skip-permissions'', ''--resume'', se_show_uuid E u] True]"
          using boot agent by (auto simp: boot_resume_def split: option.splits if_splits)
        then show ?thesis using nf u False by (simp add: unfold run launch_command_words launcher_words_def)
      qed
    next
      case nr: None
      then have u: "cq_resume_session_uuid q = None" "cq_claude_resume_uuid q = None"
        by (auto simp: resumed_session_def or_else_def split: option.splits)
      show ?thesis
      proof (cases "cq_launch_agent q")
        case l: None
        then show ?thesis using assms None nr nf u by (simp add: choose_boot_def transpose_result_def unfold run)
      next
        case (Some l)
        with assms None nr obtain t where t: "parse_launch_agent l = Inr t" "boot_launch E t = (shell, args, agent)"
          by (auto simp: choose_boot_def transpose_result_def split: sum.splits)
        from t(1) have "t = (if trim l = ''codex'' then Codex else Claude)"
          by (auto simp: parse_launch_agent_def map_error_def agent_type_parse_def split: sum.splits if_splits)
        with t(2) Some nf u show ?thesis
          by (auto simp: boot_launch_def unfold run default_agent_launch_command_def launch_command_words launcher_words_def)
      qed
    qed
  qed
qed


section \<open>Reading a history page by page\<close>

text \<open>A client that asks for the events after the last one it got, until there are none.\<close>

fun read_pages :: "(int option \<Rightarrow> stored_event list \<times> int option) \<Rightarrow> nat \<Rightarrow> int option \<Rightarrow> stored_event list" where
  "read_pages page 0 after = []"
| "read_pages page (Suc n) after =
     (case page after of (es, None) \<Rightarrow> [] | (es, Some off) \<Rightarrow> es @ read_pages page n (Some off))"

definition history_page ::
    "tool_rule list \<Rightarrow> ingest_db \<Rightarrow> uuid \<Rightarrow> history_query \<Rightarrow> int option \<Rightarrow> stored_event list \<times> int option" where
  "history_page rules db i q after =
     (case session_history rules db i (q\<lparr>hq_after := after\<rparr>) of
        Inl _ \<Rightarrow> ([], None) | Inr h \<Rightarrow> (hr_events h, hr_next_after h))"

definition offsets_after :: "event_row list \<Rightarrow> uuid \<Rightarrow> string option \<Rightarrow> int option \<Rightarrow> event_row list" where
  "offsets_after rows u kind a = selected_rows rows u \<lparr>sef_after = a, sef_limit = None, sef_kind = kind\<rparr>"

lemma offsets_after_def2:
  "offsets_after rows u kind a = filter (\<lambda>r. ev_offset r > unwrap_or (- 1) a)
     (sort_key ev_offset (filter (\<lambda>r. ev_session r = u \<and> (case kind of None \<Rightarrow> True | Some k \<Rightarrow> ev_kind r = k)) rows))"
proof -
  have "filter (\<lambda>r. ev_session r = u \<and> ev_offset r > unwrap_or (- 1) a \<and> (case kind of None \<Rightarrow> True | Some k \<Rightarrow> ev_kind r = k)) rows
     = filter (\<lambda>r. ev_offset r > unwrap_or (- 1) a)
         (filter (\<lambda>r. ev_session r = u \<and> (case kind of None \<Rightarrow> True | Some k \<Rightarrow> ev_kind r = k)) rows)"
    by (simp add: conj_commute conj_left_commute)
  then show ?thesis by (simp add: offsets_after_def selected_rows_def filter_sort [symmetric])
qed

lemma filter_later:
  fixes f :: "'a \<Rightarrow> int"
  assumes "sorted (map f xs)" and "distinct (map f xs)" and "m < length xs"
  shows "filter (\<lambda>x. f x > f (xs ! m)) xs = drop (Suc m) xs"
  using assms
proof (induction xs arbitrary: m)
  case (Cons x xs)
  show ?case
  proof (cases m)
    case 0
    have "\<forall>y \<in> set xs. f x < f y" using Cons.prems by (force simp: order.strict_iff_order)
    then show ?thesis by (simp add: 0 filter_True)
  next
    case (Suc k)
    with Cons.prems have "k < length xs" by simp
    then have "f x \<le> f (xs ! k)" using Cons.prems(1) by (auto intro: nth_mem)
    then have "\<not> f (xs ! k) < f x" by simp
    with Cons Suc show ?thesis by simp
  qed
qed simp

lemma next_offsets:
  assumes "distinct (map ev_offset (filter (\<lambda>r. ev_session r = u) rows))"
    and "m < length (offsets_after rows u kind a)"
  shows "offsets_after rows u kind (Some (ev_offset (offsets_after rows u kind a ! m)))
      = drop (Suc m) (offsets_after rows u kind a)"
proof -
  let ?all = "sort_key ev_offset (filter (\<lambda>r. ev_session r = u \<and> (case kind of None \<Rightarrow> True | Some k \<Rightarrow> ev_kind r = k)) rows)"
  let ?xs = "offsets_after rows u kind a"
  have xs: "?xs = filter (\<lambda>r. ev_offset r > unwrap_or (- 1) a) ?all" by (rule offsets_after_def2)
  have "filter (\<lambda>r. ev_session r = u \<and> (case kind of None \<Rightarrow> True | Some k \<Rightarrow> ev_kind r = k)) rows
      = filter (\<lambda>r. case kind of None \<Rightarrow> True | Some k \<Rightarrow> ev_kind r = k) (filter (\<lambda>r. ev_session r = u) rows)"
    by (simp add: conj_commute)
  then have "distinct (map ev_offset (filter (\<lambda>r. ev_session r = u \<and> (case kind of None \<Rightarrow> True | Some k \<Rightarrow> ev_kind r = k)) rows))"
    using assms(1) by (simp only: distinct_map_filter)
  then have "distinct (map ev_offset ?all)" by (simp add: distinct_map)
  then have d: "distinct (map ev_offset ?xs)" unfolding xs by (rule distinct_map_filter)
  have s: "sorted (map ev_offset ?xs)" unfolding xs by (simp add: sorted_filter)
  have "?xs ! m \<in> set ?xs" using assms(2) by simp
  then have gt: "ev_offset (?xs ! m) > unwrap_or (- 1) a" unfolding xs by auto
  have "offsets_after rows u kind (Some (ev_offset (?xs ! m))) = filter (\<lambda>r. ev_offset r > ev_offset (?xs ! m)) ?all"
    unfolding offsets_after_def2 [of rows u kind "Some _"] by (simp add: unwrap_or_def)
  also have "\<dots> = filter (\<lambda>r. ev_offset r > ev_offset (?xs ! m)) ?xs"
    unfolding xs [symmetric] by (subst (2) xs) (use gt in \<open>auto intro!: filter_cong\<close>)
  also have "\<dots> = drop (Suc m) ?xs" by (rule filter_later [OF s d assms(2)])
  finally show ?thesis .
qed

definition page_size :: "history_query \<Rightarrow> nat" where
  "page_size q = nat (max 1 (min (unwrap_or 5000 (hq_limit q)) 5000))"

lemma page_of:
  assumes "resolve_session_target db i (or_else (hq_session q) (hq_claude_session q)) = Resolved u agent"
  shows "history_page rules db i q a =
    (let es = map (stored_event_of rules (block_rows db)) (take (page_size q) (offsets_after (ev_rows db) u (hq_kind q) a))
     in (es, last_offset es))"
  using assms
  by (simp add: history_page_def session_history_def load_session_events_def selected_rows_def offsets_after_def
      page_size_def Let_def)

lemma pages_complete:
  assumes u: "distinct (map ev_offset (filter (\<lambda>r. ev_session r = u) (ev_rows db)))"
    and res: "resolve_session_target db i (or_else (hq_session q) (hq_claude_session q)) = Resolved u agent"
    and "length (offsets_after (ev_rows db) u (hq_kind q) a) < n"
  shows "read_pages (history_page rules db i q) n a
    = map (stored_event_of rules (block_rows db)) (offsets_after (ev_rows db) u (hq_kind q) a)"
  using assms(3)
proof (induction n arbitrary: a)
  case (Suc n)
  let ?xs = "offsets_after (ev_rows db) u (hq_kind q) a" and ?se = "stored_event_of rules (block_rows db)"
  show ?case
  proof (cases "?xs = []")
    case True
    then show ?thesis by (simp add: page_of [OF res] last_offset_def)
  next
    case False
    let ?k = "min (page_size q) (length ?xs)"
    have k: "0 < ?k" using False by (simp add: page_size_def)
    then obtain m where m: "?k = Suc m" by (cases ?k) auto
    have tk: "take (page_size q) ?xs = take (Suc m) ?xs" using m by (metis min.commute take_all_iff take_take min_def order_refl)
    have lt: "m < length ?xs" using m by linarith
    have "last (take (Suc m) ?xs) = ?xs ! m" using lt by (simp add: take_Suc_conv_app_nth)
    moreover have ne: "take (Suc m) ?xs \<noteq> []" using False by simp
    ultimately have lo: "last_offset (map ?se (take (Suc m) ?xs)) = Some (ev_offset (?xs ! m))"
      by (simp add: last_offset_def last_map)
    have rest: "offsets_after (ev_rows db) u (hq_kind q) (Some (ev_offset (?xs ! m))) = drop (Suc m) ?xs"
      by (rule next_offsets [OF u lt])
    have "length (drop (Suc m) ?xs) < n" using Suc.prems lt by simp
    with Suc.IH [of "Some (ev_offset (?xs ! m))"] rest
    have "read_pages (history_page rules db i q) n (Some (ev_offset (?xs ! m))) = map ?se (drop (Suc m) ?xs)" by simp
    then have "read_pages (history_page rules db i q) (Suc n) a = map ?se (take (Suc m) ?xs) @ map ?se (drop (Suc m) ?xs)"
      using lo by (simp add: page_of [OF res] tk Let_def)
    then show ?thesis by (metis append_take_drop_id map_append)
  qed
qed simp

text \<open>
  C35. Reading the history of a session page by page, with any page size asked for, asking each
  time for what comes after the last event received, gives every event of the session that the
  query selects, once and in the order of the transcript, after finitely many requests.
\<close>
theorem history_pages_complete:
  assumes "distinct (map ev_offset (filter (\<lambda>r. ev_session r = u) (ev_rows db)))"
    and "resolve_session_target db i (or_else (hq_session q) (hq_claude_session q)) = Resolved u agent"
    and "length (ev_rows db) < n"
  shows "read_pages (history_page rules db i q) n None
    = load_session_events rules db u \<lparr>sef_after = None, sef_limit = None, sef_kind = hq_kind q\<rparr>"
proof -
  have "length (offsets_after (ev_rows db) u (hq_kind q) None) \<le> length (ev_rows db)"
    unfolding offsets_after_def2 by (rule order_trans [OF length_filter_le]) (simp add: length_filter_le)
  with assms(3) have "length (offsets_after (ev_rows db) u (hq_kind q) None) < n" by simp
  from pages_complete [OF assms(1,2) this] show ?thesis by (simp add: load_session_events_def offsets_after_def)
qed

section \<open>Samples\<close>

definition sample_session :: session_env where
  "sample_session =
     \<lparr>se_ws = making_env\<lparr>we_host := (we_host making_env)\<lparr>gh_exists := (\<lambda>tr p. tr \<noteq> [] \<and> fst (last tr) = ''/r/p''
          \<and> take 2 (snd (last tr)) = [''worktree'', ''add''] \<or> p = ''/r/p/.git'')\<rparr>\<rparr>,
      se_now = 9, se_pty_id = 3, se_steps = (\<lambda>_. sample_step), se_binary = ''/bin/sulion'', se_is_file = (\<lambda>_. False),
      se_path_exists = (\<lambda>_. True), se_fixtures = False, se_show_uuid = (\<lambda>_. ''u''), se_db_fails = (\<lambda>_. False),
      se_closed = False\<rparr>"

definition sample_server :: server where
  "sample_server = \<lparr>sv_ws = no_workspaces, sv_git = [], sv_ptys = initial_world empty_broker, sv_input = []\<rparr>"

definition codex_request :: create_req where
  "codex_request =
     \<lparr>cq_repo = ''p'', cq_working_dir = None, cq_workspace_id = None, cq_workspace_mode = None, cq_cols = None,
      cq_rows = None, cq_resume_session_uuid = None, cq_resume_agent = None, cq_claude_resume_uuid = None,
      cq_launch_agent = Some ''codex'', cq_e2e_fixture = None\<rparr>"

lemma sample_session_created:
  "case create_session sample_session codex_request sample_server of
     (Inr v, sv') \<Rightarrow> ag_state (md_runtime (sw_meta v)) = ''starting'' | _ \<Rightarrow> False"
  "fst (create_session sample_session (codex_request\<lparr>cq_resume_session_uuid := Some 1\<rparr>) sample_server)
     = Inl (BadRequest ''launch_agent cannot be combined with resume_session_uuid'')"
  by code_simp+


theorem refused_request_changes_nothing_witness:
  "snd (create_session sample_session (codex_request\<lparr>cq_resume_session_uuid := Some 1\<rparr>) sample_server) = sample_server"
proof -
  let ?q = "codex_request\<lparr>cq_resume_session_uuid := Some 1\<rparr>"
  obtain r sv' where c: "create_session sample_session ?q sample_server = (r, sv')" by (rule prod.exhaust)
  have "\<not> request_ok sample_session ?q" unfolding request_ok_def by code_simp
  with refused_request_changes_nothing [OF c] c show ?thesis by simp
qed

definition running_server :: server where
  "running_server = sample_server\<lparr>sv_ptys := (initial_world empty_broker)\<lparr>w_sessions := {3},
     w_rows := apply_runtime 8 [new_pty_row 7 3 default_spawn_params] (launch_report 3 Claude Running None)\<rparr>\<rparr>"

lemma sample_prompted:
  "case send_session_prompt (\<lambda>_. sample_session) 3 (''a'' @ [CHR 0x0A]) running_server of (Inr st, sv') \<Rightarrow> True | _ \<Rightarrow> False"
  by code_simp

theorem prompt_delivered_witness:
  "\<exists>c1 c2. sv_input (snd (send_session_prompt (\<lambda>_. sample_session) 3 (''a'' @ [CHR 0x0A]) running_server)) = [(3, c1), (3, c2)]
     \<and> terminal_keys (c1 @ c2) = [Pasted ''a'', Typed (CHR 0x0D)]"
proof -
  obtain st sv' where s: "send_session_prompt (\<lambda>_. sample_session) 3 (''a'' @ [CHR 0x0A]) running_server = (Inr st, sv')"
    using sample_prompted by (auto split: prod.splits sum.splits)
  have "normalized_prompt (''a'' @ [CHR 0x0A]) = ''a''" by code_simp
  with prompt_delivered [OF s] s show ?thesis by (auto simp: running_server_def sample_server_def)
qed

definition history_event :: "int \<Rightarrow> event_row" where
  "history_event off =
     \<lparr>ev_session = 5, ev_offset = off, ev_timestamp = 0, ev_kind = ''user'', ev_payload = JNull, ev_agent = ''codex'',
      ev_speaker = None, ev_content_kind = None, ev_event_uuid = None, ev_parent_event_uuid = None,
      ev_related_tool_use_id = None, ev_is_sidechain = False, ev_is_meta = False, ev_subtype = None, ev_search_text = []\<rparr>"

definition sample_history :: ingest_db where
  "sample_history =
     \<lparr>ev_rows = [history_event 40, history_event 0], block_rows = [], sessions = (\<lambda>_. None), states = (\<lambda>_. None),
      metadata = (\<lambda>_. None), ptys = [(1, Some 5)], rebuilds = []\<rparr>"

definition one_by_one :: history_query where
  "one_by_one = \<lparr>hq_after = None, hq_limit = Some 1, hq_kind = None, hq_session = None, hq_claude_session = None\<rparr>"

theorem history_pages_complete_witness:
  "map se_byte_offset (read_pages (history_page [] sample_history 1 one_by_one) 3 None) = [0, 40]"
proof -
  have d: "distinct (map ev_offset (filter (\<lambda>r. ev_session r = 5) (ev_rows sample_history)))"
    by (simp add: sample_history_def history_event_def)
  have r: "resolve_session_target sample_history 1 (or_else (hq_session one_by_one) (hq_claude_session one_by_one)) = Resolved 5 None"
    by (simp add: resolve_session_target_def sample_history_def one_by_one_def or_else_def)
  have "length (ev_rows sample_history) < 3" by (simp add: sample_history_def)
  from history_pages_complete [OF d r this] show ?thesis
    by (simp add: load_session_events_def selected_rows_def sample_history_def history_event_def one_by_one_def
        unwrap_or_def comp_def stored_event_of_def)
qed

end
