(* ===== verification/Workspace_Files.thy ===== *)
theory Workspace_Files
  imports Timeline_Files Git
begin

text \<open>
  The files of a checkout (\<^verbatim>\<open>backend/src/workspace.rs\<close>): listings, reads and writes of paths given
  relative to its root. A root is the list of its components, with its text for git. What the
  file system answers is the record \<open>file_host\<close>; what an operation does to it is a list of
  actions. Names are the text \<open>to_string_lossy\<close> gives.
\<close>

section \<open>The host\<close>

text \<open>An entry of a directory; its metadata, when readable, is that of a link itself.\<close>

record dir_item =
  di_name :: string
  di_meta :: "(bool \<times> nat \<times> string option) option"

record file_host =
  fh_fs :: fs_view
  fh_is_file :: "fs_path \<Rightarrow> bool"
  fh_read_dir :: "fs_path \<Rightarrow> (string, (string, dir_item) result list) result"
  fh_size :: "fs_path \<Rightarrow> (string, nat) result"
  fh_read :: "fs_path \<Rightarrow> (string, string) result"
  fh_mkdir_error :: "fs_path \<Rightarrow> string option"
  fh_write_error :: "fs_path \<Rightarrow> string option"
  fh_lower :: "string \<Rightarrow> string"

datatype file_action = CreateDirs fs_path | WriteFile fs_path string

section \<open>Listing a directory\<close>

record dir_entry_view =
  de_name :: string
  de_is_dir :: bool
  de_size :: nat
  de_mtime :: "string option"
  de_dirty :: "string option"
  de_diff :: "diff_stat option"

record dir_listing =
  dl_path :: string
  dl_entries :: "dir_entry_view list"

definition ls_files_args :: "string \<Rightarrow> string list" where
  "ls_files_args rel =
     [''ls-files'', ''-co'', ''--exclude-standard''] @ (if rel = [] then [] else [''--'', rel @ [slash]])"

definition list_visible_paths :: "git_host \<Rightarrow> string \<Rightarrow> string \<Rightarrow> string set git_op" where
  "list_visible_paths H repo rel = (\<lambda>tr.
     (case gh_run H tr (repo, ls_files_args rel) of
        NotSpawned \<Rightarrow> Inl ''git''
      | Exited ok out err \<Rightarrow> if ok then Inr (set (lines (gh_lossy H out))) else Inr {},
      tr @ [(repo, ls_files_args rel)]))"

definition rel_entry :: "string \<Rightarrow> string \<Rightarrow> string" where
  "rel_entry rel name = (if rel = [] then name else rel @ [slash] @ name)"

definition below :: "string \<Rightarrow> string \<Rightarrow> bool" where
  "below p entry \<longleftrightarrow> starts_with p (entry @ [slash])"

definition is_visible :: "string set option \<Rightarrow> string \<Rightarrow> bool \<Rightarrow> bool" where
  "is_visible visible entry is_dir \<longleftrightarrow>
     (case visible of
        None \<Rightarrow> True
      | Some vs \<Rightarrow> if is_dir then (\<exists>p \<in> vs. below p entry) else entry \<in> vs)"

text \<open>A directory shows a code or counts for what is below it.\<close>

definition entry_dirty :: "(string \<times> string) list \<Rightarrow> string \<Rightarrow> bool \<Rightarrow> string option" where
  "entry_dirty dirty entry is_dir =
     (case map_of dirty entry of
        Some c \<Rightarrow> Some c
      | None \<Rightarrow>
          (let codes = map snd (filter (\<lambda>(p, _). below p entry) dirty)
           in if \<not> is_dir \<or> codes = [] then None
              else Some (if list_all (\<lambda>c. c = ''??'') codes then ''??'' else '' M'')))"

definition entry_diff :: "(string \<times> diff_stat) list \<Rightarrow> string \<Rightarrow> bool \<Rightarrow> diff_stat option" where
  "entry_diff stats entry is_dir =
     (case map_of stats entry of
        Some s \<Rightarrow> Some s
      | None \<Rightarrow>
          (let ss = map snd (filter (\<lambda>(p, _). below p entry) stats)
           in if \<not> is_dir \<or> ss = [] then None
              else Some \<lparr>dstat_additions = sum_list (map dstat_additions ss),
                         dstat_deletions = sum_list (map dstat_deletions ss)\<rparr>))"

definition entry_view ::
    "string \<Rightarrow> string set option \<Rightarrow> (string \<times> string) list \<Rightarrow> (string \<times> diff_stat) list \<Rightarrow> dir_item \<Rightarrow>
     dir_entry_view option" where
  "entry_view rel visible dirty stats item =
     (let entry = rel_entry rel (di_name item)
      in if di_name item = ''.git'' then None
         else case di_meta item of
           None \<Rightarrow> None
         | Some (is_dir, sz, mtime) \<Rightarrow>
             if is_visible visible entry is_dir
             then Some \<lparr>de_name = di_name item, de_is_dir = is_dir, de_size = sz, de_mtime = mtime,
                        de_dirty = entry_dirty dirty entry is_dir, de_diff = entry_diff stats entry is_dir\<rparr>
             else None)"

fun collect_items :: "(string, dir_item) result list \<Rightarrow> (string, dir_item list) result" where
  "collect_items [] = Inr []"
| "collect_items (Inl e # rest) = Inl e"
| "collect_items (Inr d # rest) =
     (case collect_items rest of Inl e \<Rightarrow> Inl e | Inr ds \<Rightarrow> Inr (d # ds))"

text \<open>Directories first, and by the lower-case name among each; the order is stable.\<close>

definition sort_entries :: "(string \<Rightarrow> string) \<Rightarrow> dir_entry_view list \<Rightarrow> dir_entry_view list" where
  "sort_entries lower es = sort_key (\<lambda>e. \<not> de_is_dir e) (sort_key (\<lambda>e. lower (de_name e)) es)"

definition list_entries ::
    "file_host \<Rightarrow> fs_path \<Rightarrow> string \<Rightarrow> string set option \<Rightarrow> (string \<times> string) list \<Rightarrow> (string \<times> diff_stat) list \<Rightarrow>
     (string, dir_listing) result" where
  "list_entries F target rel visible dirty stats =
     (case res_bind (fh_read_dir F target) collect_items of
        Inl e \<Rightarrow> Inl e
      | Inr items \<Rightarrow>
          Inr \<lparr>dl_path = rel,
               dl_entries = sort_entries (fh_lower F) (List.map_filter (entry_view rel visible dirty stats) items)\<rparr>)"

definition list_dir ::
    "file_host \<Rightarrow> git_host \<Rightarrow> fs_path \<Rightarrow> string \<Rightarrow> string \<Rightarrow> bool \<Rightarrow> (string \<times> string) list \<Rightarrow>
     (string \<times> diff_stat) list \<Rightarrow> dir_listing git_op" where
  "list_dir F H root repo rel only_tracked dirty stats = (\<lambda>tr.
     case resolve_in_repo (fh_fs F) root rel of
       Inl e \<Rightarrow> (Inl e, tr)
     | Inr (target, rel_canon) \<Rightarrow>
         if \<not> fs_exists (fh_fs F) target then (Inl ''not found'', tr)
         else if \<not> fs_is_dir (fh_fs F) target then (Inl ''not a directory'', tr)
         else if only_tracked then
           (case list_visible_paths H repo rel_canon tr of
              (Inl e, tr') \<Rightarrow> (Inl e, tr')
            | (Inr visible, tr') \<Rightarrow> (list_entries F target rel_canon (Some visible) dirty stats, tr'))
         else (list_entries F target rel_canon None dirty stats, tr))"

section \<open>Reading and writing\<close>

definition read_file_at :: "file_host \<Rightarrow> fs_path \<Rightarrow> string \<Rightarrow> (string, fs_path \<times> string) result" where
  "read_file_at F root rel =
     res_bind (resolve_in_repo (fh_fs F) root rel) (\<lambda>(target, _).
       if \<not> fh_is_file F target then Inl ''not a file''
       else res_bind (fh_read F target) (\<lambda>bytes. Inr (target, bytes)))"

text \<open>The directory a file is written into: it must resolve inside, or is made.\<close>

definition check_parent :: "file_host \<Rightarrow> fs_path \<Rightarrow> fs_path \<Rightarrow> (string, file_action list) result" where
  "check_parent F root target =
     (if target = [] then Inr []
      else let parent = butlast target
           in if fs_exists (fh_fs F) parent then
                (case (fs_canonicalize (fh_fs F) parent, fs_canonicalize (fh_fs F) root) of
                   (Some parent_real, Some root_real) \<Rightarrow>
                     if under parent_real root_real then Inr [] else Inl ''parent escapes repo root''
                 | _ \<Rightarrow> Inl ''canonicalize failed'')
              else case fh_mkdir_error F parent of Some e \<Rightarrow> Inl e | None \<Rightarrow> Inr [CreateDirs parent])"

definition write_repo_file ::
    "file_host \<Rightarrow> fs_path \<Rightarrow> string \<Rightarrow> string \<Rightarrow> (string, fs_path) result \<times> file_action list" where
  "write_repo_file F root rel bytes =
     (case resolve_in_repo (fh_fs F) root rel of
        Inl e \<Rightarrow> (Inl e, [])
      | Inr (target, _) \<Rightarrow>
          (case check_parent F root target of
             Inl e \<Rightarrow> (Inl e, [])
           | Inr made \<Rightarrow>
               (case fh_write_error F target of
                  Some e \<Rightarrow> (Inl e, made)
                | None \<Rightarrow> (Inr target, made @ [WriteFile target bytes]))))"

definition looks_binary :: "string \<Rightarrow> bool" where
  "looks_binary bytes \<longleftrightarrow> list_ex (\<lambda>b. b = CHR 0x00) (take 8192 bytes)"

end
