(* ===== verification/File_Routes.thy ===== *)
theory File_Routes
  imports Workspace_Files Session_Routes Projection_Repo
begin

text \<open>
  The handlers under \<^verbatim>\<open>/api/repos\<close> and \<^verbatim>\<open>/api/workspaces\<close> (\<^verbatim>\<open>backend/src/api/repo_routes.rs\<close>,
  \<^verbatim>\<open>backend/src/api/workspace_routes.rs\<close>): the same operations on the checkout of a repository
  and on a workspace. Each operation is a function of the root, and the two handlers find that
  root in their own way. The state is that of both caches, the trace of git calls and the trace
of what was written; what the file system answers may depend on both traces. Of the texts of
errors only those without a path are exact.
\<close>

section \<open>State\<close>

record checkouts =
  ck_repos :: repo_db
  ck_ws :: workspace_db
  ck_git :: "git_call list"
  ck_files :: "file_action list"

record files_env =
  fe_host :: "git_call list \<Rightarrow> file_action list \<Rightarrow> file_host"
  fe_ws :: workspace_env
  fe_now :: timestamp
  fe_repo_fails :: "string \<Rightarrow> bool"
  fe_quote :: "string \<Rightarrow> string"

definition host_now :: "files_env \<Rightarrow> checkouts \<Rightarrow> file_host" where
  "host_now E c = fe_host E (ck_git c) (ck_files c)"

definition did :: "file_action list \<Rightarrow> checkouts \<Rightarrow> checkouts" where
  "did acts c = c\<lparr>ck_files := ck_files c @ acts\<rparr>"

definition fs_path_of :: "string \<Rightarrow> fs_path" where
  "fs_path_of s = path_join [] s"

text \<open>The checkout of a repository.\<close>

definition repo_path :: "files_env \<Rightarrow> string \<Rightarrow> checkouts \<Rightarrow> (api_error, string) result" where
  "repo_path E name c =
     (let p = join_path (we_repos_root (fe_ws E)) name
      in if \<not> valid_repo_name name then Inl (BadRequest ''invalid repo name'')
         else if \<not> gh_is_dir (we_host (fe_ws E)) (ck_git c) p then Inl NotFound
         else Inr p)"

text \<open>The path of a workspace: whatever goes wrong is \<open>not found\<close>.\<close>

definition workspace_of :: "files_env \<Rightarrow> uuid \<Rightarrow> checkouts \<Rightarrow> (api_error, workspace_row) result" where
  "workspace_of E i c = map_error (\<lambda>_. NotFound) (load_workspace (fe_ws E) (ck_ws c) i)"

definition refresh_repo :: "files_env \<Rightarrow> string \<Rightarrow> checkouts \<Rightarrow> (api_error, unit) result \<times> checkouts" where
  "refresh_repo E name c =
     (if fe_repo_fails E ''request refresh'' then (Inl (Internal ''request refresh''), c)
      else (Inr (), c\<lparr>ck_repos := request_repo_refresh (fe_now E) name (ck_repos c)\<rparr>))"

definition refresh_workspace :: "files_env \<Rightarrow> uuid \<Rightarrow> checkouts \<Rightarrow> (api_error, unit) result \<times> checkouts" where
  "refresh_workspace E i c =
     (case request_refresh (fe_ws E) i (ck_ws c) of
        (r, db) \<Rightarrow> (map_error Internal r, c\<lparr>ck_ws := db\<rparr>))"

definition answer :: "http_status \<Rightarrow> (api_error, unit) result \<Rightarrow> (api_error, http_status) result" where
  "answer st r = (case r of Inl e \<Rightarrow> Inl e | Inr _ \<Rightarrow> Inr st)"

section \<open>Creating a repository\<close>

text \<open>git's two calls are made outside any checkout; the repository is entered last.\<close>

definition create_repo ::
    "files_env \<Rightarrow> string \<Rightarrow> string option \<Rightarrow> checkouts \<Rightarrow> (api_error, string \<times> string) result \<times> checkouts" where
  "create_repo E raw url c =
     (let name = trim raw; root = we_repos_root (fe_ws E); dest = join_path root name; H = we_host (fe_ws E);
          args = (case url of None \<Rightarrow> [''init'', dest] | Some u \<Rightarrow> [''clone'', u, dest]);
          made = [CreateDirs (fs_path_of root)] @ (if url = None then [CreateDirs (fs_path_of dest)] else []);
          c' = (did made c)\<lparr>ck_git := ck_git c @ [([], args)]\<rparr>
      in if \<not> valid_repo_name name then (Inl (BadRequest ''invalid repo name''), c)
         else case fh_mkdir_error (host_now E c) (fs_path_of root) of
           Some e \<Rightarrow> (Inl (Io e), c)
         | None \<Rightarrow>
             if gh_exists H (ck_git c) dest
             then (Inl (BadRequest (''repo already exists: '' @ dest)), did [CreateDirs (fs_path_of root)] c)
             else if url = None \<and> fh_mkdir_error (host_now E c) (fs_path_of dest) \<noteq> None
             then (Inl (Io (the (fh_mkdir_error (host_now E c) (fs_path_of dest)))), did [CreateDirs (fs_path_of root)] c)
             else (case gh_run H (ck_git c) ([], args) of
                     NotSpawned \<Rightarrow> (Inl (Io ''git''), c')
                   | git_out.Exited ok out err \<Rightarrow>
                       if ok then
                         (if fe_repo_fails E ''upsert repo'' then (Inl (Internal ''upsert repo''), c')
                          else (Inr (name, dest),
                                c'\<lparr>ck_repos := upsert_repo (fe_now E) name dest (ck_repos c)\<rparr>))
                       else (Inl (case url of
                               Some u \<Rightarrow> BadRequest (''git clone of '' @ fe_quote E u @ '' failed: '' @ gh_lossy H err)
                             | None \<Rightarrow> Internal (''git init failed: '' @ gh_lossy H err)), c')))"

section \<open>Listings\<close>

definition no_dirty_paths :: dirty_paths where
  "no_dirty_paths = \<lparr>dp_git_revision = 0, dp_dirty = [], dp_diff_stats = []\<rparr>"

definition files_at ::
    "files_env \<Rightarrow> string \<Rightarrow> (string, dirty_paths) result \<Rightarrow> string option \<Rightarrow> bool option \<Rightarrow> checkouts \<Rightarrow>
     (api_error, dir_listing) result \<times> checkouts" where
  "files_at E path cached rel all c =
     (let dirty = (case cached of Inl _ \<Rightarrow> no_dirty_paths | Inr d \<Rightarrow> d)
      in case list_dir (host_now E c) (we_host (fe_ws E)) (fs_path_of path) path (unwrap_or [] rel)
             (\<not> unwrap_or False all) (dp_dirty dirty) (dp_diff_stats dirty) (ck_git c) of
           (r, tr) \<Rightarrow> (map_error BadRequest r, c\<lparr>ck_git := tr\<rparr>))"

definition cached_repo :: "files_env \<Rightarrow> string \<Rightarrow> checkouts \<Rightarrow> (string, dirty_paths) result" where
  "cached_repo E name c =
     (if fe_repo_fails E ''load dirty paths'' then Inl ''load dirty paths'' else load_dirty_paths (ck_repos c) name)"

definition get_repo_files ::
    "files_env \<Rightarrow> string \<Rightarrow> string option \<Rightarrow> bool option \<Rightarrow> checkouts \<Rightarrow> (api_error, dir_listing) result \<times> checkouts" where
  "get_repo_files E name rel all c =
     (case repo_path E name c of
        Inl e \<Rightarrow> (Inl e, c) | Inr p \<Rightarrow> files_at E p (cached_repo E name c) rel all c)"

definition get_workspace_files ::
    "files_env \<Rightarrow> uuid \<Rightarrow> string option \<Rightarrow> bool option \<Rightarrow> checkouts \<Rightarrow> (api_error, dir_listing) result \<times> checkouts" where
  "get_workspace_files E i rel all c =
     (case workspace_of E i c of
        Inl e \<Rightarrow> (Inl e, c)
      | Inr w \<Rightarrow> files_at E (ws_path w) (load_workspace_dirty_paths (fe_ws E) (ck_ws c) i) rel all c)"

definition get_repo_dirty_paths :: "files_env \<Rightarrow> string \<Rightarrow> checkouts \<Rightarrow> (api_error, dirty_paths) result" where
  "get_repo_dirty_paths E name c =
     res_bind (repo_path E name c) (\<lambda>_. map_error Internal (cached_repo E name c))"

definition get_workspace_dirty_paths :: "files_env \<Rightarrow> uuid \<Rightarrow> checkouts \<Rightarrow> (api_error, dirty_paths) result" where
  "get_workspace_dirty_paths E i c = map_error Internal (load_workspace_dirty_paths (fe_ws E) (ck_ws c) i)"

definition list_workspaces ::
    "files_env \<Rightarrow> (timestamp \<Rightarrow> string) \<Rightarrow> checkouts \<Rightarrow> (api_error, (workspace_row \<times> git_summary) list) result" where
  "list_workspaces E show_time c = map_error Internal (load_workspace_views (fe_ws E) show_time (ck_ws c))"

definition get_workspace ::
    "files_env \<Rightarrow> (timestamp \<Rightarrow> string) \<Rightarrow> uuid \<Rightarrow> checkouts \<Rightarrow> (api_error, workspace_row \<times> git_summary) result" where
  "get_workspace E show_time i c = map_error (\<lambda>_. NotFound) (load_workspace_view (fe_ws E) show_time (ck_ws c) i)"

section \<open>Files\<close>

record file_response =
  fr_path :: string
  fr_size :: nat
  fr_mime :: string
  fr_binary :: bool
  fr_truncated :: bool
  fr_content :: "string option"

definition FILE_PREVIEW_CAP :: nat where
  "FILE_PREVIEW_CAP = 1024 * 1024"

text \<open>\<open>Path::extension\<close>: what follows the last dot of the last component, unless it starts with it.\<close>

definition last_component :: "string \<Rightarrow> string option" where
  "last_component s =
     (case rev (components s) of Normal n # _ \<Rightarrow> Some n | _ \<Rightarrow> None)"

definition extension :: "string \<Rightarrow> string option" where
  "extension path =
     Option.bind (last_component path) (\<lambda>n.
       let before = rev (drop 1 (dropWhile (\<lambda>c. c \<noteq> CHR ''.'') (rev n)))
       in if CHR ''.'' \<notin> set n \<or> before = [] then None
          else Some (rev (takeWhile (\<lambda>c. c \<noteq> CHR ''.'') (rev n))))"

definition guess_mime :: "(string \<Rightarrow> string) \<Rightarrow> string \<Rightarrow> bool \<Rightarrow> string" where
  "guess_mime lower path binary =
     (let ext = lower (unwrap_or [] (extension path))
      in if binary then ''application/octet-stream''
         else if ext \<in> {''md'', ''markdown''} then ''text/markdown''
         else if ext = ''json'' then ''application/json''
         else if ext = ''png'' then ''image/png''
         else if ext \<in> {''jpg'', ''jpeg''} then ''image/jpeg''
         else if ext = ''gif'' then ''image/gif''
         else if ext = ''svg'' then ''image/svg+xml''
         else ''text/plain'')"

definition file_at :: "files_env \<Rightarrow> string \<Rightarrow> string \<Rightarrow> checkouts \<Rightarrow> (api_error, file_response) result" where
  "file_at E root rel c =
     res_bind (map_error BadRequest (resolve_in_repo (fh_fs (host_now E c)) (fs_path_of root) rel)) (\<lambda>(target, _).
     res_bind (map_error Io (fh_size (host_now E c) target)) (\<lambda>size.
       if size > FILE_PREVIEW_CAP then
         Inr \<lparr>fr_path = rel, fr_size = size, fr_mime = ''application/octet-stream'', fr_binary = True,
              fr_truncated = True, fr_content = None\<rparr>
       else res_bind (map_error Io (fh_read (host_now E c) target)) (\<lambda>bytes.
         let binary = looks_binary bytes
         in Inr \<lparr>fr_path = rel, fr_size = size, fr_mime = guess_mime (fh_lower (host_now E c)) rel binary,
                 fr_binary = binary, fr_truncated = False,
                 fr_content = (if binary then None else Some (gh_lossy (we_host (fe_ws E)) bytes))\<rparr>)))"

definition get_repo_file :: "files_env \<Rightarrow> string \<Rightarrow> string \<Rightarrow> checkouts \<Rightarrow> (api_error, file_response) result" where
  "get_repo_file E name rel c = res_bind (repo_path E name c) (\<lambda>p. file_at E p rel c)"

definition get_workspace_file :: "files_env \<Rightarrow> uuid \<Rightarrow> string \<Rightarrow> checkouts \<Rightarrow> (api_error, file_response) result" where
  "get_workspace_file E i rel c = res_bind (workspace_of E i c) (\<lambda>w. file_at E (ws_path w) rel c)"

record file_trace_response =
  ftr_path :: string
  ftr_dirty :: "string option"
  ftr_current_diff :: "diff_stat option"
  ftr_touches :: "trace_touch list"

definition file_trace_of :: "dirty_paths \<Rightarrow> (string \<Rightarrow> trace_touch list) \<Rightarrow> string \<Rightarrow> file_trace_response" where
  "file_trace_of d touches rel =
     \<lparr>ftr_path = rel, ftr_dirty = map_of (dp_dirty d) rel, ftr_current_diff = map_of (dp_diff_stats d) rel,
      ftr_touches = touches rel\<rparr>"

text \<open>\<open>trace\<close> reads the touches of a path in a repository (\<open>load_repo_file_trace\<close> on the stored tables).\<close>

definition get_repo_file_trace ::
    "files_env \<Rightarrow> ingest_db \<Rightarrow> projection_db \<Rightarrow> pty_row list \<Rightarrow> string \<Rightarrow> string \<Rightarrow> checkouts \<Rightarrow>
     (api_error, file_trace_response) result" where
  "get_repo_file_trace E db pd rows name path c =
     res_bind (repo_path E name c) (\<lambda>p.
     res_bind (map_error BadRequest (resolve_in_repo (fh_fs (host_now E c)) (fs_path_of p) path)) (\<lambda>(_, rel).
     res_bind (map_error Internal (cached_repo E name c)) (\<lambda>d.
       if fe_repo_fails E ''file trace'' then Inl (Internal ''file trace'')
       else Inr (file_trace_of d (load_repo_file_trace db pd rows name) rel))))"

definition get_workspace_file_trace ::
    "files_env \<Rightarrow> ingest_db \<Rightarrow> projection_db \<Rightarrow> pty_row list \<Rightarrow> uuid \<Rightarrow> string \<Rightarrow> checkouts \<Rightarrow>
     (api_error, file_trace_response) result" where
  "get_workspace_file_trace E db pd rows i path c =
     res_bind (workspace_of E i c) (\<lambda>w.
     res_bind (map_error BadRequest (resolve_in_repo (fh_fs (host_now E c)) (fs_path_of (ws_path w)) path)) (\<lambda>(_, rel).
     res_bind (map_error Internal (load_workspace_dirty_paths (fe_ws E) (ck_ws c) i)) (\<lambda>d.
       if fe_repo_fails E ''file trace'' then Inl (Internal ''file trace'')
       else Inr (file_trace_of d (load_repo_file_trace db pd rows (ws_repo_name w)) rel))))"

section \<open>Diffs and staging\<close>

definition diff_at :: "files_env \<Rightarrow> string \<Rightarrow> string option \<Rightarrow> checkouts \<Rightarrow> (api_error, string) result \<times> checkouts" where
  "diff_at E root path c =
     (case read_diff (we_host (fe_ws E)) root path (ck_git c) of
        (r, tr) \<Rightarrow> (map_error Internal r, c\<lparr>ck_git := tr\<rparr>))"

definition get_repo_diff ::
    "files_env \<Rightarrow> string \<Rightarrow> string option \<Rightarrow> checkouts \<Rightarrow> (api_error, string) result \<times> checkouts" where
  "get_repo_diff E name path c =
     (case repo_path E name c of Inl e \<Rightarrow> (Inl e, c) | Inr p \<Rightarrow> diff_at E p path c)"

definition get_workspace_diff ::
    "files_env \<Rightarrow> uuid \<Rightarrow> string option \<Rightarrow> checkouts \<Rightarrow> (api_error, string) result \<times> checkouts" where
  "get_workspace_diff E i path c =
     (case workspace_of E i c of Inl e \<Rightarrow> (Inl e, c) | Inr w \<Rightarrow> diff_at E (ws_path w) path c)"

definition stage_at ::
    "files_env \<Rightarrow> string \<Rightarrow> string \<Rightarrow> bool \<Rightarrow> (checkouts \<Rightarrow> (api_error, unit) result \<times> checkouts) \<Rightarrow> checkouts \<Rightarrow>
     (api_error, http_status) result \<times> checkouts" where
  "stage_at E root rel stage refresh c =
     (case stage_path (we_host (fe_ws E)) root rel stage (ck_git c) of
        (Inl e, tr) \<Rightarrow> (Inl (BadRequest e), c\<lparr>ck_git := tr\<rparr>)
      | (Inr _, tr) \<Rightarrow> apfst (answer NO_CONTENT) (refresh (c\<lparr>ck_git := tr\<rparr>)))"

definition post_repo_stage ::
    "files_env \<Rightarrow> string \<Rightarrow> string \<Rightarrow> bool \<Rightarrow> checkouts \<Rightarrow> (api_error, http_status) result \<times> checkouts" where
  "post_repo_stage E name rel stage c =
     (case repo_path E name c of
        Inl e \<Rightarrow> (Inl e, c) | Inr p \<Rightarrow> stage_at E p rel stage (refresh_repo E name) c)"

definition post_workspace_stage ::
    "files_env \<Rightarrow> uuid \<Rightarrow> string \<Rightarrow> bool \<Rightarrow> checkouts \<Rightarrow> (api_error, http_status) result \<times> checkouts" where
  "post_workspace_stage E i rel stage c =
     (case workspace_of E i c of
        Inl e \<Rightarrow> (Inl e, c) | Inr w \<Rightarrow> stage_at E (ws_path w) rel stage (refresh_workspace E i) c)"

definition post_repo_refresh :: "files_env \<Rightarrow> string \<Rightarrow> checkouts \<Rightarrow> (api_error, http_status) result \<times> checkouts" where
  "post_repo_refresh E name c =
     (case repo_path E name c of Inl e \<Rightarrow> (Inl e, c) | Inr _ \<Rightarrow> apfst (answer ACCEPTED) (refresh_repo E name c))"

definition post_workspace_refresh :: "files_env \<Rightarrow> uuid \<Rightarrow> checkouts \<Rightarrow> (api_error, http_status) result \<times> checkouts" where
  "post_workspace_refresh E i c =
     (case workspace_of E i c of Inl e \<Rightarrow> (Inl e, c) | Inr _ \<Rightarrow> apfst (answer ACCEPTED) (refresh_workspace E i c))"

text \<open>Deleting a workspace: the branch goes by default, and every refusal is a bad request.\<close>

definition delete_workspace_route ::
    "files_env \<Rightarrow> uuid \<Rightarrow> bool option \<Rightarrow> bool option \<Rightarrow> checkouts \<Rightarrow> (api_error, http_status) result \<times> checkouts" where
  "delete_workspace_route E i force delete_branch c =
     (case delete_workspace (fe_ws E) i (unwrap_or False force) (unwrap_or True delete_branch) (ck_ws c, ck_git c) of
        (r, db, tr) \<Rightarrow> (answer NO_CONTENT (map_error BadRequest r), c\<lparr>ck_ws := db, ck_git := tr\<rparr>))"

section \<open>Uploads\<close>

definition UPLOAD_MAX_BYTES :: nat where
  "UPLOAD_MAX_BYTES = 50 * 1024 * 1024"

text \<open>A field of the form with its file name and its chunks, any of which may fail to arrive.\<close>

record form_field =
  ff_name :: "string option"
  ff_chunks :: "(string, string) result list"

fun read_chunks :: "string \<Rightarrow> (string, string) result list \<Rightarrow> (api_error, string) result" where
  "read_chunks buf [] = Inr buf"
| "read_chunks buf (Inl e # rest) = Inl (BadRequest (''multipart read: '' @ e))"
| "read_chunks buf (Inr chunk # rest) =
     (if length buf + length chunk > UPLOAD_MAX_BYTES
      then Inl (BadRequest (''file exceeds '' @ show_nat UPLOAD_MAX_BYTES @ '' bytes''))
      else read_chunks (buf @ chunk) rest)"

definition upload_path :: "string \<Rightarrow> string \<Rightarrow> string" where
  "upload_path dir name = (if dir = [] then name else trim_end_char slash dir @ [slash] @ name)"

text \<open>Where a field goes, and its bytes.\<close>

definition upload_field :: "string \<Rightarrow> form_field \<Rightarrow> (api_error, string \<times> string) result" where
  "upload_field dir f =
     (case ff_name f of
        None \<Rightarrow> Inl (BadRequest ''file field missing filename'')
      | Some fname \<Rightarrow>
          (case last_component fname of
             None \<Rightarrow> Inl (BadRequest ''bad filename'')
           | Some name \<Rightarrow> res_bind (read_chunks [] (ff_chunks f)) (\<lambda>bytes. Inr (upload_path dir name, bytes))))"

text \<open>The first file written and its size; what was written before an error stays.\<close>

fun upload_fields ::
    "files_env \<Rightarrow> fs_path \<Rightarrow> string \<Rightarrow> (checkouts \<Rightarrow> (api_error, unit) result \<times> checkouts) \<Rightarrow>
     (fs_path \<times> nat) option \<Rightarrow> (string, form_field) result list \<Rightarrow> checkouts \<Rightarrow>
     (api_error, fs_path \<times> nat) result \<times> checkouts" where
  "upload_fields E root dir refresh written [] c =
     (case written of None \<Rightarrow> Inl (BadRequest ''no file field'') | Some w \<Rightarrow> Inr w, c)"
| "upload_fields E root dir refresh written (Inl e # rest) c = (Inl (BadRequest (''multipart: '' @ e)), c)"
| "upload_fields E root dir refresh written (Inr f # rest) c =
     (case upload_field dir f of
        Inl e \<Rightarrow> (Inl e, c)
      | Inr (rel, bytes) \<Rightarrow>
          (case write_repo_file (host_now E c) root rel bytes of
             (Inl e, acts) \<Rightarrow> (Inl (BadRequest e), did acts c)
           | (Inr target, acts) \<Rightarrow>
               (case refresh (did acts c) of
                  (Inl e, c') \<Rightarrow> (Inl e, c')
                | (Inr _, c') \<Rightarrow>
                    upload_fields E root dir refresh (or_else written (Some (target, length bytes))) rest c')))"

definition post_repo_upload ::
    "files_env \<Rightarrow> string \<Rightarrow> string option \<Rightarrow> (string, form_field) result list \<Rightarrow> checkouts \<Rightarrow>
     (api_error, fs_path \<times> nat) result \<times> checkouts" where
  "post_repo_upload E name dir form c =
     (case repo_path E name c of
        Inl e \<Rightarrow> (Inl e, c)
      | Inr p \<Rightarrow> upload_fields E (fs_path_of p) (unwrap_or [] dir) (refresh_repo E name) None form c)"

definition post_workspace_upload ::
    "files_env \<Rightarrow> uuid \<Rightarrow> string option \<Rightarrow> (string, form_field) result list \<Rightarrow> checkouts \<Rightarrow>
     (api_error, fs_path \<times> nat) result \<times> checkouts" where
  "post_workspace_upload E i dir form c =
     (case workspace_of E i c of
        Inl e \<Rightarrow> (Inl e, c)
      | Inr w \<Rightarrow> upload_fields E (fs_path_of (ws_path w)) (unwrap_or [] dir) (refresh_workspace E i) None form c)"

end
