(* ===== verification/File_Props.thy ===== *)
theory File_Props
  imports File_Routes Worktree_Safety
begin

text \<open>
  What the file routes promise: a listing shows exactly the visible entries, in order; an upload
  writes only at paths below the checkout, and a file or its directory that exists resolves inside
  it. And what they do not: below a link out of the checkout a missing directory is made and written
  to, a link that points nowhere is followed, and a diff shows any file of the machine.
\<close>

section \<open>Uploads\<close>

text \<open>A path below the root, no piece of which goes up.\<close>

definition inside :: "fs_path \<Rightarrow> fs_path \<Rightarrow> bool" where
  "inside root p \<longleftrightarrow> (\<exists>ps. p = root @ ps \<and> ''..'' \<notin> set ps)"

text \<open>A place that is a link, or a directory above it, resolves inside the root.\<close>

definition resolves_inside :: "fs_view \<Rightarrow> fs_path \<Rightarrow> fs_path \<Rightarrow> bool" where
  "resolves_inside fs root p \<longleftrightarrow>
     (\<exists>p_real root_real. fs_canonicalize fs p = Some p_real \<and> fs_canonicalize fs root = Some root_real
        \<and> under p_real root_real)"

lemma no_parent_pieces:
  assumes "ParentDir \<notin> set (components rel)" and "\<not> is_absolute rel"
  shows "''..'' \<notin> set (filter (\<lambda>p. \<not> skipped p) (split_char slash rel))"
proof
  assume "''..'' \<in> set (filter (\<lambda>p. \<not> skipped p) (split_char slash rel))"
  then have "ParentDir \<in> set (map (\<lambda>p. if p = ''..'' then ParentDir else Normal p)
      (filter (\<lambda>p. \<not> skipped p) (split_char slash rel)))" by force
  with assms show False by (simp add: components_def)
qed

lemma resolved_inside:
  assumes "resolve_in_repo fs root rel = Inr (target, rel')"
  shows "inside root target" "rel' = rel" "fs_exists fs target \<Longrightarrow> resolves_inside fs root target"
proof -
  from assms have rel: "\<not> is_absolute rel" "ParentDir \<notin> set (components rel)" "target = path_join root rel"
    by (auto simp: resolve_in_repo_def Let_def split: if_splits option.splits)
  show "inside root target"
    unfolding inside_def rel(3) path_join_def using no_parent_pieces [OF rel(2,1)] by blast
  show "rel' = rel" "fs_exists fs target \<Longrightarrow> resolves_inside fs root target"
    using assms by (auto simp: resolve_in_repo_def resolves_inside_def Let_def split: if_splits option.splits)
qed

definition written_safely :: "file_host \<Rightarrow> fs_path \<Rightarrow> file_action \<Rightarrow> bool" where
  "written_safely F root a \<longleftrightarrow>
     (case a of
        CreateDirs p \<Rightarrow> \<exists>n. inside root (p @ [n]) \<and> \<not> fs_exists (fh_fs F) p
      | WriteFile p _ \<Rightarrow>
          inside root p
          \<and> (fs_exists (fh_fs F) p \<longrightarrow> resolves_inside (fh_fs F) root p)
          \<and> (fs_exists (fh_fs F) (butlast p) \<longrightarrow> p = [] \<or> resolves_inside (fh_fs F) root (butlast p)))"

text \<open>
  What is done is safe as the file system is when the upload of the file begins: there is at most
  one action, the directory made for it, between the look and the write.
\<close>

definition safe_actions :: "(file_action list \<Rightarrow> file_host) \<Rightarrow> fs_path \<Rightarrow> file_action list \<Rightarrow> bool" where
  "safe_actions host root acts \<longleftrightarrow>
     (\<forall>i < length acts. \<exists>j \<le> i. i \<le> Suc j \<and> written_safely (host (take j acts)) root (acts ! i))"

lemma write_safe:
  assumes "write_repo_file F root rel bytes = (r, acts)"
  shows "list_all (written_safely F root) acts" and "length acts \<le> 2"
proof -
  have "list_all (written_safely F root) acts \<and> length acts \<le> 2"
  proof (cases "resolve_in_repo (fh_fs F) root rel")
    case (Inr x)
    obtain target rel' where x: "x = (target, rel')" by (cases x)
    note res = resolved_inside [OF Inr [unfolded x]]
    show ?thesis
    proof (cases "check_parent F root target")
      case (Inl e)
      with assms Inr x show ?thesis by (simp add: write_repo_file_def)
    next
      case made: (Inr made)
      have made_ok: "list_all (written_safely F root) made \<and> length made \<le> 1"
      proof (cases "made = []")
        case False
        then have "target \<noteq> []" "made = [CreateDirs (butlast target)]" "\<not> fs_exists (fh_fs F) (butlast target)"
          using made by (auto simp: check_parent_def Let_def split: if_splits option.splits)
        with res(1) show ?thesis
          by (auto simp: written_safely_def intro!: exI [of _ "last target"])
      qed simp
      have parent: "fs_exists (fh_fs F) (butlast target) \<longrightarrow> target = [] \<or> resolves_inside (fh_fs F) root (butlast target)"
        using made by (auto simp: check_parent_def resolves_inside_def Let_def split: if_splits option.splits)
      have "written_safely F root (WriteFile target bytes)" using res(1,3) parent by (simp add: written_safely_def)
      with made_ok assms Inr x made show ?thesis by (auto simp: write_repo_file_def split: option.splits)
    qed
  qed (use assms in \<open>auto simp: write_repo_file_def\<close>)
  then show "list_all (written_safely F root) acts" "length acts \<le> 2" by simp_all
qed

lemma safe_actions_append:
  assumes "safe_actions host root acts" and "safe_actions (\<lambda>l. host (acts @ l)) root more_acts"
  shows "safe_actions host root (acts @ more_acts)"
  unfolding safe_actions_def
proof (intro allI impI)
  fix i
  assume i: "i < length (acts @ more_acts)"
  show "\<exists>j \<le> i. i \<le> Suc j \<and> written_safely (host (take j (acts @ more_acts))) root ((acts @ more_acts) ! i)"
  proof (cases "i < length acts")
    case True
    with assms(1) obtain j where "j \<le> i" "i \<le> Suc j" "written_safely (host (take j acts)) root (acts ! i)"
      by (auto simp: safe_actions_def)
    with True show ?thesis by (intro exI [of _ j]) (simp add: nth_append)
  next
    case False
    with i have "i - length acts < length more_acts" by simp
    with assms(2) obtain j where "j \<le> i - length acts" "i - length acts \<le> Suc j"
        "written_safely (host (acts @ take j more_acts)) root (more_acts ! (i - length acts))"
      unfolding safe_actions_def by blast
    with False show ?thesis by (intro exI [of _ "length acts + j"]) (auto simp: nth_append)
  qed
qed

lemma safe_short:
  assumes "list_all (written_safely (host []) root) acts" and "length acts \<le> 2"
  shows "safe_actions host root acts"
  using assms unfolding safe_actions_def by (auto simp: list_all_length intro!: exI [of _ 0])

text \<open>The files written by an upload, and that nothing else of the state is read by the next one.\<close>

definition uploads_safely :: "files_env \<Rightarrow> fs_path \<Rightarrow> checkouts \<Rightarrow> checkouts \<Rightarrow> bool" where
  "uploads_safely E root c c' \<longleftrightarrow>
     ck_git c' = ck_git c
     \<and> (\<exists>acts. ck_files c' = ck_files c @ acts
          \<and> safe_actions (\<lambda>l. fe_host E (ck_git c) (ck_files c @ l)) root acts)"

lemma uploads_refl [simp]: "uploads_safely E root c c"
  by (auto simp: uploads_safely_def safe_actions_def intro!: exI [of _ "[]"])

lemma uploads_trans:
  assumes "uploads_safely E root a b" and "uploads_safely E root b c"
  shows "uploads_safely E root a c"
proof -
  obtain x where "ck_git b = ck_git a" "ck_files b = ck_files a @ x"
      "safe_actions (\<lambda>l. fe_host E (ck_git a) (ck_files a @ l)) root x"
    using assms(1) by (auto simp: uploads_safely_def)
  moreover obtain y where "ck_git c = ck_git b" "ck_files c = ck_files b @ y"
      "safe_actions (\<lambda>l. fe_host E (ck_git b) (ck_files b @ l)) root y"
    using assms(2) by (auto simp: uploads_safely_def)
  ultimately show ?thesis
    by (auto simp: uploads_safely_def intro!: exI [of _ "x @ y"] safe_actions_append)
qed

lemma uploads_did:
  assumes "write_repo_file (host_now E c) root rel bytes = (r, acts)"
  shows "uploads_safely E root c (did acts c)"
  using safe_short [OF _ write_safe(2) [OF assms], of "\<lambda>l. fe_host E (ck_git c) (ck_files c @ l)" root]
    write_safe(1) [OF assms]
  by (auto simp: uploads_safely_def did_def host_now_def)

definition keeps_files :: "(checkouts \<Rightarrow> 'a \<times> checkouts) \<Rightarrow> bool" where
  "keeps_files f \<longleftrightarrow> (\<forall>c. ck_git (snd (f c)) = ck_git c \<and> ck_files (snd (f c)) = ck_files c)"

lemma refresh_keeps_files: "keeps_files (refresh_repo E name)" "keeps_files (refresh_workspace E i)"
  by (auto simp: keeps_files_def refresh_repo_def refresh_workspace_def split: prod.split)

lemma upload_fields_safe:
  assumes "keeps_files refresh"
  shows "uploads_safely E root c (snd (upload_fields E root dir refresh written fs c))"
proof (induction fs arbitrary: written c)
  case (Cons f fs)
  show ?case
  proof (cases "\<exists>x rel bytes target acts c' u. f = Inr x \<and> upload_field dir x = Inr (rel, bytes)
      \<and> write_repo_file (host_now E c) root rel bytes = (Inr target, acts) \<and> refresh (did acts c) = (Inr u, c')")
    case True
    then obtain x rel bytes target acts c' u where f: "f = Inr x" "upload_field dir x = Inr (rel, bytes)"
      and w: "write_repo_file (host_now E c) root rel bytes = (Inr target, acts)"
      and r: "refresh (did acts c) = (Inr u, c')" by blast
    have "uploads_safely E root (did acts c) c'"
      using assms r by (auto simp: keeps_files_def uploads_safely_def safe_actions_def dest: spec [of _ "did acts c"])
    with uploads_did [OF w] have "uploads_safely E root c c'" by (rule uploads_trans)
    then have "uploads_safely E root c
        (snd (upload_fields E root dir refresh (or_else written (Some (target, length bytes))) fs c'))"
      using Cons.IH by (rule uploads_trans)
    then show ?thesis by (simp add: f w r)
  next
    case False
    show ?thesis
    proof (cases f)
      case (Inr x)
      show ?thesis
      proof (cases "upload_field dir x")
        case up: (Inr y)
        obtain rel bytes where y: "y = (rel, bytes)" by (cases y)
        obtain wr acts where w: "write_repo_file (host_now E c) root rel bytes = (wr, acts)" by fastforce
        obtain rr c' where r: "refresh (did acts c) = (rr, c')" by fastforce
        have "ck_git c' = ck_git (did acts c)" "ck_files c' = ck_files (did acts c)"
          using assms r by (auto simp: keeps_files_def dest: spec [of _ "did acts c"])
        then have "uploads_safely E root c c'" using uploads_did [OF w] by (simp add: uploads_safely_def)
        then show ?thesis
          using uploads_did [OF w] False Inr up y w r by (cases wr; cases rr) auto
      qed (simp add: Inr)
    qed simp
  qed
qed simp

text \<open>
  C13. Whatever form is sent to an upload, into a repository or a workspace and also when it
  ends in an error: directories are made and files written only at paths that are, piece by piece,
  below the checkout and never go up; and when the file, or the directory it goes into, exists as the
  upload of the file begins, that resolves, links followed, to a place inside the checkout. For
  a directory that is missing only the path is looked at, and no link above it. Without a checkout
  nothing is written.
\<close>
theorem upload_existing_places_inside:
  "(case repo_path E name c of
      Inl e \<Rightarrow> post_repo_upload E name dir form c = (Inl e, c)
    | Inr p \<Rightarrow> uploads_safely E (fs_path_of p) c (snd (post_repo_upload E name dir form c)))
   \<and> (case workspace_of E i c of
      Inl e \<Rightarrow> post_workspace_upload E i dir form c = (Inl e, c)
    | Inr w \<Rightarrow> uploads_safely E (fs_path_of (ws_path w)) c (snd (post_workspace_upload E i dir form c)))"
  by (auto simp: post_repo_upload_def post_workspace_upload_def upload_fields_safe refresh_keeps_files split: sum.split)

text \<open>
  When the directory is missing, neither it nor what is above it is resolved. So below a link to
  a directory elsewhere, a path through a directory that is missing there is made, and the file
  written, outside the checkout.
\<close>

lemma missing_directory_unchecked:
  assumes "resolve_in_repo (fh_fs F) root rel = Inr (target, rel')" and "target \<noteq> []"
    and "\<not> fs_exists (fh_fs F) (butlast target)"
    and "fh_mkdir_error F (butlast target) = None" and "fh_write_error F target = None"
  shows "write_repo_file F root rel bytes = (Inr target, [CreateDirs (butlast target), WriteFile target bytes])"
  using assms by (simp add: write_repo_file_def check_parent_def Let_def)

definition linked_files :: file_host where
  "linked_files = \<lparr>fh_fs = \<lparr>fs_exists = (\<lambda>p. p \<in> {[''r''], [''r'', ''link''], [''out'']}), fs_is_dir = (\<lambda>_. True),
       fs_canonicalize = (\<lambda>p. if p = [''r'', ''link''] then Some [''out''] else Some p)\<rparr>,
     fh_is_file = (\<lambda>_. False), fh_read_dir = (\<lambda>_. Inr []), fh_size = (\<lambda>_. Inr 1), fh_read = (\<lambda>_. Inr ''x''),
     fh_mkdir_error = (\<lambda>_. None), fh_write_error = (\<lambda>_. None), fh_lower = (\<lambda>s. s)\<rparr>"

lemma missing_directory_escapes:
  "write_repo_file linked_files [''r''] ''link/new/f'' ''x''
     = (Inr [''r'', ''link'', ''new'', ''f''],
        [CreateDirs [''r'', ''link'', ''new''], WriteFile [''r'', ''link'', ''new'', ''f''] ''x''])"
  "\<not> resolves_inside (fh_fs linked_files) [''r''] [''r'', ''link'']"
  "fst (write_repo_file linked_files [''r''] ''link/f'' ''x'') = Inl ''parent escapes repo root''"
  by (code_simp, (auto simp: resolves_inside_def linked_files_def under_def)[1], code_simp)

text \<open>
  Nor is the place itself when nothing is found there: \<open>exists\<close> follows links,
  so a link to a missing file counts as nothing, and the write, which follows it too, creates
  the file it points to.
\<close>

lemma missing_target_written:
  assumes "resolve_in_repo (fh_fs F) root rel = Inr (target, rel')" and "check_parent F root target = Inr made"
    and "fh_write_error F target = None"
  shows "write_repo_file F root rel bytes = (Inr target, made @ [WriteFile target bytes])"
  using assms by (auto simp: write_repo_file_def)

lemma missing_target_unchecked:
  assumes "\<not> is_absolute rel" and "ParentDir \<notin> set (components rel)" and "\<not> fs_exists fs (path_join root rel)"
  shows "resolve_in_repo fs root rel = Inr (path_join root rel, rel)"
  using assms by (auto simp: resolve_in_repo_def Let_def)

section \<open>Diffs\<close>

text \<open>
  The diff of a single path is not confined to the checkout: when git has nothing to say
  about a path, as for one outside the repository, the answer is the content of the file of that
  name, so an absolute path shows any text file the server can read. The route for file
  contents refuses the same path.
\<close>
theorem diff_shows_any_file:
  assumes "repo_path E name c = Inr p" and "H = we_host (fe_ws E)" and "is_git_repo H (ck_git c) p"
    and "call = (p, [''diff'', ''HEAD'', ''--no-color'', ''--'', f])"
    and "gh_run H (ck_git c) call = git_out.Exited False out err" and "gh_lossy H [] = []"
    and "is_absolute f" and "gh_read_text H (ck_git c @ [call]) f = Some body"
  shows "get_repo_diff E name (Some f) c = (Inr (new_file_diff f body), c\<lparr>ck_git := ck_git c @ [call]\<rparr>)
    \<and> get_repo_file E name f c = Inl (BadRequest ''absolute path rejected'')"
proof -
  have "join_path p f = f" using assms(7) by (simp add: join_path_def is_absolute_def starts_with_def)
  moreover have "run_git H p [''diff'', ''HEAD'', ''--no-color'', ''--'', f] (ck_git c) = (Inr [], ck_git c @ [call])"
    using assms(4,5) by (simp add: run_git_def)
  ultimately have "read_diff H p (Some f) (ck_git c) = (Inr (new_file_diff f body), ck_git c @ [call])"
    using assms(3,6,8) by (simp add: read_diff_def op_then_def untracked_diff_def)
  then show ?thesis
    using assms(1,2,7) by (simp add: get_repo_diff_def diff_at_def map_error_def get_repo_file_def file_at_def resolve_in_repo_def)
qed

section \<open>Listings\<close>

definition listed_before :: "(string \<Rightarrow> string) \<Rightarrow> dir_entry_view \<Rightarrow> dir_entry_view \<Rightarrow> bool" where
  "listed_before lower a b \<longleftrightarrow>
     (de_is_dir b \<longrightarrow> de_is_dir a) \<and> (de_is_dir a = de_is_dir b \<longrightarrow> lower (de_name a) \<le> lower (de_name b))"

lemma entries_sorted: "sorted_wrt (listed_before lower) (sort_entries lower es)"
proof -
  note by_name = sort_key_lex [OF sorted_wrt_any [of es], of "\<lambda>e. lower (de_name e)"]
  show ?thesis
    unfolding sort_entries_def
    by (rule sorted_wrt_mono_rel [OF _ sort_key_lex [OF by_name]]) (auto simp: listed_before_def)
qed

lemma list_dir_Inr:
  assumes "list_dir F H root repo rel only_tracked dirty stats tr = (Inr l, tr')"
  obtains target visible where "resolve_in_repo (fh_fs F) root rel = Inr (target, rel)"
    and "list_entries F target rel visible dirty stats = Inr l"
    and "if only_tracked then \<exists>vs. list_visible_paths H repo rel tr = (Inr vs, tr') \<and> visible = Some vs
       else visible = None \<and> tr' = tr"
proof (cases "resolve_in_repo (fh_fs F) root rel")
  case (Inl e)
  with assms show thesis by (simp add: list_dir_def)
next
  case (Inr x)
  obtain target rel' where x: "x = (target, rel')" by (cases x)
  have "rel' = rel" using resolved_inside(2) Inr x by simp
  then have res: "resolve_in_repo (fh_fs F) root rel = Inr (target, rel)" using Inr x by simp
  with assms have there: "fs_exists (fh_fs F) target" "fs_is_dir (fh_fs F) target"
    by (simp_all add: list_dir_def split: if_splits)
  show thesis
  proof (cases only_tracked)
    case True
    obtain v tr2 where v: "list_visible_paths H repo rel tr = (v, tr2)" by fastforce
    with assms res there True show thesis
      by (cases v) (simp_all add: list_dir_def that [of target "Some (projr v)"])
  next
    case False
    with assms res there show thesis by (simp add: list_dir_def that [of target None])
  qed
qed

text \<open>
  A listing of tracked files shows, once each and directories first, then by lower-case
  name, exactly the readable entries but \<open>.git\<close> that are files git lists, or directories above
  one; with \<open>all\<close> it shows every readable entry. When git fails it shows nothing.
\<close>
theorem listing_shows_visible:
  assumes "list_dir F H root repo rel only_tracked dirty stats tr = (Inr l, tr')"
  shows "\<exists>items visible. res_bind (fh_read_dir F (path_join root rel)) collect_items = Inr items
    \<and> (if only_tracked then \<exists>vs. list_visible_paths H repo rel tr = (Inr vs, tr') \<and> visible = Some vs
       else visible = None \<and> tr' = tr)
    \<and> image_mset (\<lambda>e. (de_name e, de_is_dir e)) (mset (dl_entries l))
      = image_mset (\<lambda>d. (di_name d, fst (the (di_meta d))))
          (mset (filter (\<lambda>d. di_name d \<noteq> ''.git'' \<and> di_meta d \<noteq> None
             \<and> is_visible visible (rel_entry rel (di_name d)) (fst (the (di_meta d)))) items))
    \<and> sorted_wrt (listed_before (fh_lower F)) (dl_entries l)"
proof -
  obtain target visible where res: "resolve_in_repo (fh_fs F) root rel = Inr (target, rel)"
    and le: "list_entries F target rel visible dirty stats = Inr l"
    and vis: "if only_tracked then \<exists>vs. list_visible_paths H repo rel tr = (Inr vs, tr') \<and> visible = Some vs
       else visible = None \<and> tr' = tr"
    by (rule list_dir_Inr [OF assms])
  have target: "target = path_join root rel" using res by (auto simp: resolve_in_repo_def Let_def split: if_splits option.splits)
  obtain items where items: "res_bind (fh_read_dir F target) collect_items = Inr items"
    and l: "dl_entries l = sort_entries (fh_lower F) (List.map_filter (entry_view rel visible dirty stats) items)"
    using le by (auto simp: list_entries_def split: sum.splits)
  have shown: "map (\<lambda>e. (de_name e, de_is_dir e)) (List.map_filter (entry_view rel visible dirty stats) items)
      = map (\<lambda>d. (di_name d, fst (the (di_meta d))))
          (filter (\<lambda>d. di_name d \<noteq> ''.git'' \<and> di_meta d \<noteq> None
             \<and> is_visible visible (rel_entry rel (di_name d)) (fst (the (di_meta d)))) items)"
    by (induction items) (auto simp: map_filter_simps entry_view_def Let_def split: option.splits prod.splits)
  have "mset (dl_entries l) = mset (List.map_filter (entry_view rel visible dirty stats) items)"
    unfolding l sort_entries_def by simp
  then have "image_mset (\<lambda>e. (de_name e, de_is_dir e)) (mset (dl_entries l)) = image_mset (\<lambda>d. (di_name d, fst (the (di_meta d))))
          (mset (filter (\<lambda>d. di_name d \<noteq> ''.git'' \<and> di_meta d \<noteq> None
             \<and> is_visible visible (rel_entry rel (di_name d)) (fst (the (di_meta d)))) items))"
    by (simp only: mset_map [symmetric] shown)
  moreover have "sorted_wrt (listed_before (fh_lower F)) (dl_entries l)" unfolding l by (rule entries_sorted)
  ultimately show ?thesis
    using items vis
    by (intro exI [of _ items] exI [of _ visible] conjI) (simp_all only: target)
qed

text \<open>A path with a slash at its end is accepted, but nothing of it is found in git's listing.\<close>

lemma trailing_slash_hides:
  assumes "\<And>p. p \<in> vs \<Longrightarrow> \<not> contains_sub p [slash, slash]"
  shows "\<not> is_visible (Some vs) (rel_entry (d @ [slash]) n) is_dir"
proof -
  have hit: "contains_sub (a @ [slash, slash] @ b) [slash, slash]" for a b
  proof (induction a)
    case (Cons c a)
    then show ?case by (auto simp: contains_sub_def)
  qed (simp add: contains_sub_def starts_with_def)
  have hidden: "d @ [slash, slash] @ n @ r \<notin> vs" for r using hit [of d "n @ r"] assms by auto
  have entry: "rel_entry (d @ [slash]) n = d @ [slash, slash] @ n" by (simp add: rel_entry_def)
  show ?thesis
  proof (cases is_dir)
    case True
    have "\<not> below p (rel_entry (d @ [slash]) n)" if "p \<in> vs" for p
      using that hidden by (auto simp: below_def starts_with_iff entry)
    then show ?thesis by (simp add: is_visible_def True)
  qed (use hidden [of "[]"] in \<open>simp add: is_visible_def entry\<close>)
qed

section \<open>Samples\<close>

text \<open>A checkout with one file and one directory, on a machine with a file outside it.\<close>

definition sample_files :: file_host where
  "sample_files = \<lparr>fh_fs = \<lparr>fs_exists = (\<lambda>_. True), fs_is_dir = (\<lambda>_. True), fs_canonicalize = Some\<rparr>,
     fh_is_file = (\<lambda>_. True),
     fh_read_dir = (\<lambda>_. Inr (map Inr [\<lparr>di_name = ''.git'', di_meta = Some (True, 0, None)\<rparr>,
       \<lparr>di_name = ''b'', di_meta = Some (False, 1, None)\<rparr>, \<lparr>di_name = ''out'', di_meta = Some (False, 1, None)\<rparr>,
       \<lparr>di_name = ''src'', di_meta = Some (True, 0, None)\<rparr>])),
     fh_size = (\<lambda>_. Inr 1), fh_read = (\<lambda>_. Inr ''x''), fh_mkdir_error = (\<lambda>_. None), fh_write_error = (\<lambda>_. None),
     fh_lower = (\<lambda>s. s)\<rparr>"

definition listing_git :: git_host where
  "listing_git = \<lparr>gh_run = (\<lambda>tr (path, args).
       if args = [''ls-files'', ''-co'', ''--exclude-standard'']
       then git_out.Exited True (''b'' @ [CHR 0x0A] @ ''src/a'' @ [CHR 0x0A]) []
       else git_out.Exited False [] []),
     gh_exists = (\<lambda>_ _. True), gh_is_dir = (\<lambda>_ _. True),
     gh_read_text = (\<lambda>_ p. if p = ''/etc/passwd'' then Some ''root'' else None),
     gh_lossy = (\<lambda>s. s), gh_order = (\<lambda>xs. xs)\<rparr>"

definition sample_files_env :: files_env where
  "sample_files_env = \<lparr>fe_host = (\<lambda>_ _. sample_files), fe_ws = Worktree_Safety.sample_env\<lparr>we_host := listing_git\<rparr>, fe_now = 0,
     fe_repo_fails = (\<lambda>_. False), fe_quote = (\<lambda>s. s)\<rparr>"

definition sample_checkouts :: checkouts where
  "sample_checkouts = \<lparr>ck_repos = \<lparr>rd_rows = [], rd_dirty = []\<rparr>, ck_ws = sample_workspaces, ck_git = [], ck_files = []\<rparr>"

theorem diff_shows_any_file_witness:
  "get_repo_diff sample_files_env ''p'' (Some ''/etc/passwd'') sample_checkouts
     = (Inr (new_file_diff ''/etc/passwd'' ''root''),
        sample_checkouts\<lparr>ck_git := [(''/r/p'', [''diff'', ''HEAD'', ''--no-color'', ''--'', ''/etc/passwd''])]\<rparr>)
   \<and> get_repo_file sample_files_env ''p'' ''/etc/passwd'' sample_checkouts = Inl (BadRequest ''absolute path rejected'')"
proof -
  have "repo_path sample_files_env ''p'' sample_checkouts = Inr ''/r/p''" by code_simp
  note diff_shows_any_file [OF this refl, of "(''/r/p'', [''diff'', ''HEAD'', ''--no-color'', ''--'', ''/etc/passwd''])"
      "''/etc/passwd''" "[]" "[]" "''root''"]
  moreover have "is_absolute ''/etc/passwd''" by code_simp
  ultimately show ?thesis
    by (simp add: sample_files_env_def sample_checkouts_def listing_git_def is_git_repo_def)
qed

lemma sample_listing:
  "case list_dir sample_files listing_git [''r'', ''p''] ''/r/p'' [] True [] [] [] of
     (Inr l, tr) \<Rightarrow> map de_name (dl_entries l) = [''src'', ''b'']
       \<and> tr = [(''/r/p'', [''ls-files'', ''-co'', ''--exclude-standard''])]
   | _ \<Rightarrow> False"
  by code_simp

theorem listing_shows_visible_witness:
  "\<exists>l tr. list_dir sample_files listing_git [''r'', ''p''] ''/r/p'' [] True [] [] [] = (Inr l, tr)
     \<and> map de_name (dl_entries l) = [''src'', ''b''] \<and> sorted_wrt (listed_before (\<lambda>s. s)) (dl_entries l)"
proof -
  obtain l tr where l: "list_dir sample_files listing_git [''r'', ''p''] ''/r/p'' [] True [] [] [] = (Inr l, tr)"
      "map de_name (dl_entries l) = [''src'', ''b'']"
    using sample_listing by (auto split: prod.splits sum.splits)
  have "sorted_wrt (listed_before (fh_lower sample_files)) (dl_entries l)"
    using listing_shows_visible [OF l(1)] by blast
  with l show ?thesis by (simp add: sample_files_def)
qed

end
