(* ===== verification/Auth.thy ===== *)
theory Auth
  imports Rust_Parse
begin

text \<open>
  The configuration read at the start (\<^verbatim>\<open>backend/src/config.rs\<close>) and the check of users
  (\<^verbatim>\<open>backend/src/auth.rs\<close>): a bearer token is verified with a key the identity provider
  publishes, which is cached. The identity provider's answer, and the token and key formats of
  the \<open>jsonwebtoken\<close> crate, are parameters; instants are microseconds of a monotonic clock.
\<close>

section \<open>Configuration\<close>

record auth_config =
  ac_issuer_url :: string
  ac_client_id :: string

record config =
  cfg_listen :: string
  cfg_db_url :: string
  cfg_repos_root :: string
  cfg_workspaces_root :: string
  cfg_library_root :: string
  cfg_claude_projects_dir :: string
  cfg_codex_sessions_dir :: string
  cfg_correlate_sock_path :: string
  cfg_auth :: "auth_config option"

type_synonym vars = "string \<rightharpoonup> string"

definition dirs_home :: "vars \<Rightarrow> string" where
  "dirs_home V = unwrap_or ''/home/dev'' (V ''HOME'')"

definition auth_config_from_env :: "vars \<Rightarrow> (string, auth_config option) result" where
  "auth_config_from_env V =
     (case V ''SULION_AUTH_ISSUER_URL'' of
        None \<Rightarrow> Inr None
      | Some value \<Rightarrow>
          (case V ''SULION_AUTH_CLIENT_ID'' of
             None \<Rightarrow> Inl ''SULION_AUTH_CLIENT_ID must be set when auth is enabled''
           | Some client \<Rightarrow>
               Inr (Some \<lparr>ac_issuer_url = trim_end_char (CHR ''/'') (trim value), ac_client_id = client\<rparr>)))"

definition root_var :: "vars \<Rightarrow> string \<Rightarrow> string \<Rightarrow> string" where
  "root_var V name dir = unwrap_or (join_path (dirs_home V) dir) (V name)"

definition set_path_vars :: "string \<Rightarrow> string \<Rightarrow> string \<Rightarrow> string \<Rightarrow> vars \<Rightarrow> vars" where
  "set_path_vars repos ws claude codex V =
     V(''SULION_REPOS_ROOT'' \<mapsto> repos, ''SULION_WORKSPACES_ROOT'' \<mapsto> ws,
       ''SULION_CLAUDE_PROJECTS'' \<mapsto> claude, ''SULION_CODEX_SESSIONS'' \<mapsto> codex)"

text \<open>
  The configuration and the variables of the process afterwards: the paths are written back
  before the last thing that can fail. \<open>listen_ok\<close> says which texts are socket addresses.
\<close>

definition load_config :: "(string \<Rightarrow> bool) \<Rightarrow> vars \<Rightarrow> (string, config) result \<times> vars" where
  "load_config listen_ok V =
     (let listen = unwrap_or ''0.0.0.0:8080'' (V ''SULION_LISTEN'');
          repos = root_var V ''SULION_REPOS_ROOT'' ''repos'';
          ws = root_var V ''SULION_WORKSPACES_ROOT'' ''.sulion/workspaces'';
          library = root_var V ''SULION_LIBRARY_ROOT'' ''.sulion/library'';
          claude = root_var V ''SULION_CLAUDE_PROJECTS'' ''.claude/projects'';
          codex = root_var V ''SULION_CODEX_SESSIONS'' ''.codex/sessions'';
          V' = set_path_vars repos ws claude codex V
      in if \<not> listen_ok listen then (Inl ''invalid socket address syntax'', V)
         else case or_else (V ''SULION_DB_URL'') (V ''DATABASE_URL'') of
           None \<Rightarrow> (Inl ''SULION_DB_URL or DATABASE_URL must be set'', V)
         | Some db \<Rightarrow>
             (res_bind (auth_config_from_env V') (\<lambda>auth.
                Inr \<lparr>cfg_listen = listen, cfg_db_url = db, cfg_repos_root = repos, cfg_workspaces_root = ws,
                     cfg_library_root = library, cfg_claude_projects_dir = claude, cfg_codex_sessions_dir = codex,
                     cfg_correlate_sock_path = unwrap_or ''/run/sulion/correlate.sock'' (V' ''SULION_CORRELATE_SOCK''),
                     cfg_auth = auth\<rparr>), V'))"

section \<open>Keys\<close>

record jwk =
  jwk_kid :: "string option"
  jwk_kty :: string
  jwk_n :: string
  jwk_e :: string

record jwt_claims =
  jc_sub :: string
  jc_aud :: "string option"
  jc_email :: "string option"
  jc_client_id :: "string option"
  jc_token_use :: "string option"
  jc_username :: "string option"
  jc_cognito_username :: "string option"

record authenticated_user =
  au_sub :: string
  au_username :: "string option"
  au_email :: "string option"
  au_token_use :: string

record 'k jwks_cache =
  jw_loaded_at :: int
  jw_keys :: "string \<rightharpoonup> 'k"

text \<open>
  \<open>decode_header\<close> as the key identifier, \<open>from_rsa_components\<close>, and \<open>decode\<close> for RS256 with a key and
  an issuer, which also looks at the time of day.
\<close>

record 'k jwt_lib =
  jl_header :: "string \<Rightarrow> string option option"
  jl_rsa :: "string \<Rightarrow> string \<Rightarrow> 'k option"
  jl_decode :: "'k \<Rightarrow> string \<Rightarrow> int \<Rightarrow> string \<Rightarrow> jwt_claims option"

text \<open>
  A request: the text of its authorization header and its \<open>access_token\<close>, what the provider
  answers if it is asked, the instants of the two looks into the cache and of the load between
  them, and the time of day.
\<close>

record auth_request =
  ar_header :: "string option"
  ar_access_token :: "string option"
  ar_jwks :: "(string, jwk list) result"
  ar_first :: int
  ar_loaded :: int
  ar_again :: int
  ar_wall :: int

definition JWKS_CACHE_TTL :: int where
  "JWKS_CACHE_TTL = 60 * 15 * 1000000"

definition auth_state_new :: "auth_config \<Rightarrow> auth_config" where
  "auth_state_new c = c\<lparr>ac_issuer_url := trim_end_char (CHR ''/'') (ac_issuer_url c)\<rparr>"

definition find_cached_key :: "int \<Rightarrow> string \<Rightarrow> 'k jwks_cache option \<Rightarrow> 'k option" where
  "find_cached_key now kid cache =
     (case cache of
        None \<Rightarrow> None
      | Some current \<Rightarrow> if now - jw_loaded_at current > JWKS_CACHE_TTL then None else jw_keys current kid)"

fun jwks_keys :: "'k jwt_lib \<Rightarrow> jwk list \<Rightarrow> (string \<rightharpoonup> 'k) \<Rightarrow> (string, string \<rightharpoonup> 'k) result" where
  "jwks_keys L [] keys = Inr keys"
| "jwks_keys L (k # ks) keys =
     (if jwk_kty k \<noteq> ''RSA'' then jwks_keys L ks keys
      else case jwk_kid k of
        None \<Rightarrow> jwks_keys L ks keys
      | Some kid \<Rightarrow>
          (case jl_rsa L (jwk_n k) (jwk_e k) of
             None \<Rightarrow> Inl ''invalid rsa jwk''
           | Some d \<Rightarrow> jwks_keys L ks (keys(kid \<mapsto> d))))"

definition refresh_jwks ::
    "'k jwt_lib \<Rightarrow> auth_request \<Rightarrow> 'k jwks_cache option \<Rightarrow> (string, unit) result \<times> 'k jwks_cache option" where
  "refresh_jwks L r cache =
     (case res_bind (ar_jwks r) (\<lambda>ks. jwks_keys L ks Map.empty) of
        Inl e \<Rightarrow> (Inl e, cache)
      | Inr keys \<Rightarrow> (Inr (), Some \<lparr>jw_loaded_at = ar_loaded r, jw_keys = keys\<rparr>))"

definition find_key ::
    "'k jwt_lib \<Rightarrow> auth_request \<Rightarrow> string \<Rightarrow> 'k jwks_cache option \<Rightarrow> (string, 'k) result \<times> 'k jwks_cache option" where
  "find_key L r kid cache =
     (case find_cached_key (ar_first r) kid cache of
        Some key \<Rightarrow> (Inr key, cache)
      | None \<Rightarrow>
          (case refresh_jwks L r cache of
             (Inl e, cache') \<Rightarrow> (Inl e, cache')
           | (Inr _, cache') \<Rightarrow>
               (case find_cached_key (ar_again r) kid cache' of
                  None \<Rightarrow> (Inl ''jwks missing key id'', cache')
                | Some key \<Rightarrow> (Inr key, cache'))))"

section \<open>Tokens\<close>

text \<open>Whose token it is, by its use.\<close>

definition matches_client :: "auth_config \<Rightarrow> jwt_claims \<Rightarrow> (string, bool) result" where
  "matches_client c claims =
     (case jc_token_use claims of
        None \<Rightarrow> Inl ''jwt missing token_use''
      | Some u \<Rightarrow>
          if u = ''access'' then Inr (jc_client_id claims = Some (ac_client_id c))
          else if u = ''id'' then Inr (jc_aud claims = Some (ac_client_id c))
          else Inl (''unsupported token_use '' @ u))"

definition user_of_claims :: "jwt_claims \<Rightarrow> authenticated_user" where
  "user_of_claims claims =
     \<lparr>au_sub = jc_sub claims, au_username = or_else (jc_username claims) (jc_cognito_username claims),
      au_email = jc_email claims, au_token_use = unwrap_or ''unknown'' (jc_token_use claims)\<rparr>"

definition check_claims :: "auth_config \<Rightarrow> jwt_claims \<Rightarrow> (string, authenticated_user) result" where
  "check_claims c claims =
     res_bind (matches_client c claims) (\<lambda>ok.
       if ok then Inr (user_of_claims claims) else Inl ''jwt client mismatch'')"

definition validate_jwt ::
    "'k jwt_lib \<Rightarrow> auth_config \<Rightarrow> auth_request \<Rightarrow> string \<Rightarrow> 'k jwks_cache option \<Rightarrow>
     (string, authenticated_user) result \<times> 'k jwks_cache option" where
  "validate_jwt L c r token cache =
     (case jl_header L token of
        None \<Rightarrow> (Inl ''invalid jwt header'', cache)
      | Some None \<Rightarrow> (Inl ''jwt missing kid'', cache)
      | Some (Some kid) \<Rightarrow>
          (case find_key L r kid cache of
             (Inl e, cache') \<Rightarrow> (Inl e, cache')
           | (Inr key, cache') \<Rightarrow>
               (case jl_decode L key (ac_issuer_url c) (ar_wall r) token of
                  None \<Rightarrow> (Inl ''jwt validation failed'', cache')
                | Some claims \<Rightarrow> (check_claims c claims, cache'))))"

text \<open>The token of a request: the header's if it is a bearer token, else that of the query.\<close>

definition http_bearer :: "string option \<Rightarrow> string option \<Rightarrow> string option" where
  "http_bearer header query_token =
     or_else
       (opt_filter (\<lambda>t. \<not> blank t)
          (case header of None \<Rightarrow> None | Some v \<Rightarrow> strip_prefix v ''Bearer ''))
       (opt_filter (\<lambda>t. \<not> blank t) query_token)"

datatype auth_verdict = Passed "authenticated_user option" | Refused

definition require_http_auth ::
    "'k jwt_lib \<Rightarrow> auth_config option \<Rightarrow> auth_request \<Rightarrow> 'k jwks_cache option \<Rightarrow> auth_verdict \<times> 'k jwks_cache option" where
  "require_http_auth L auth r cache =
     (case auth of
        None \<Rightarrow> (Passed None, cache)
      | Some c \<Rightarrow>
          (case http_bearer (ar_header r) (ar_access_token r) of
             None \<Rightarrow> (Refused, cache)
           | Some token \<Rightarrow>
               (case validate_jwt L c r token cache of
                  (Inl e, cache') \<Rightarrow> (Refused, cache')
                | (Inr user, cache') \<Rightarrow> (Passed (Some user), cache'))))"

text \<open>The cache after a sequence of requests.\<close>

definition auth_cache_after ::
    "'k jwt_lib \<Rightarrow> auth_config option \<Rightarrow> auth_request list \<Rightarrow> 'k jwks_cache option" where
  "auth_cache_after L auth rs = foldl (\<lambda>cache r. snd (require_http_auth L auth r cache)) None rs"

end
