(* ===== verification/Auth_Props.thy ===== *)
theory Auth_Props
  imports Auth Pty_Props
begin

text \<open>
  What the check of users promises over any sequence of requests, and that shells see the
  paths the server was configured with.
\<close>

section \<open>Keys come from the provider\<close>

text \<open>A key a request's load of the provider's keys gave for an identifier.\<close>

definition published :: "'k jwt_lib \<Rightarrow> auth_request \<Rightarrow> string \<Rightarrow> 'k \<Rightarrow> bool" where
  "published L r kid key \<longleftrightarrow>
     (\<exists>ks k. ar_jwks r = Inr ks \<and> k \<in> set ks \<and> jwk_kty k = ''RSA'' \<and> jwk_kid k = Some kid
        \<and> jl_rsa L (jwk_n k) (jwk_e k) = Some key)"

lemma jwks_keys_published:
  "jwks_keys L ks keys = Inr keys' \<Longrightarrow> keys' kid = Some key \<Longrightarrow>
     keys kid = Some key \<or> (\<exists>k \<in> set ks. jwk_kty k = ''RSA'' \<and> jwk_kid k = Some kid
        \<and> jl_rsa L (jwk_n k) (jwk_e k) = Some key)"
proof (induction ks arbitrary: keys)
  case (Cons k ks)
  show ?case
  proof (cases "jwk_kty k = ''RSA'' \<and> (\<exists>i d. jwk_kid k = Some i \<and> jl_rsa L (jwk_n k) (jwk_e k) = Some d)")
    case True
    then obtain i d where k: "jwk_kty k = ''RSA''" "jwk_kid k = Some i" "jl_rsa L (jwk_n k) (jwk_e k) = Some d" by blast
    with Cons.prems(1) have "jwks_keys L ks (keys(i \<mapsto> d)) = Inr keys'" by simp
    from Cons.IH [OF this Cons.prems(2)] k show ?thesis by (auto split: if_splits)
  next
    case False
    with Cons.prems(1) have "jwks_keys L ks keys = Inr keys'" by (auto split: if_splits option.splits)
    from Cons.IH [OF this Cons.prems(2)] show ?thesis by auto
  qed
qed simp

text \<open>Every cached key was published at one of the requests so far, when the cache was loaded.\<close>

definition cache_published :: "'k jwt_lib \<Rightarrow> auth_request set \<Rightarrow> 'k jwks_cache option \<Rightarrow> bool" where
  "cache_published L rs cache \<longleftrightarrow>
     (case cache of
        None \<Rightarrow> True
      | Some c \<Rightarrow> \<exists>r \<in> rs. jw_loaded_at c = ar_loaded r \<and> (\<forall>kid key. jw_keys c kid = Some key \<longrightarrow> published L r kid key))"

lemma cache_published_mono: "cache_published L rs cache \<Longrightarrow> rs \<subseteq> rs' \<Longrightarrow> cache_published L rs' cache"
  by (auto simp: cache_published_def split: option.splits)

lemma refreshed_published:
  assumes "refresh_jwks L r cache = (Inr u, cache')"
  shows "cache_published L {r} cache'"
proof -
  obtain ks keys where ks: "ar_jwks r = Inr ks" "jwks_keys L ks Map.empty = Inr keys"
      "cache' = Some \<lparr>jw_loaded_at = ar_loaded r, jw_keys = keys\<rparr>"
    using assms by (auto simp: refresh_jwks_def split: sum.splits elim!: res_bind_eq_Inr [THEN iffD1, elim_format])
  have "published L r kid key" if "keys kid = Some key" for kid key
    using jwks_keys_published [OF ks(2) that] ks(1) by (auto simp: published_def)
  with ks(3) show ?thesis by (simp add: cache_published_def)
qed

lemma found_key:
  assumes "find_key L r kid cache = (k, cache')" and "cache_published L rs cache" and "r \<in> rs"
  shows "cache_published L rs cache'"
    and "k = Inr key \<Longrightarrow> find_cached_key (ar_first r) kid cache' = Some key \<or> find_cached_key (ar_again r) kid cache' = Some key"
proof -
  show "cache_published L rs cache'"
  proof (cases "find_cached_key (ar_first r) kid cache")
    case None
    obtain u c2 where u: "refresh_jwks L r cache = (u, c2)" by fastforce
    have "cache_published L rs c2"
    proof (cases u)
      case (Inl e)
      with u assms(2) show ?thesis by (auto simp: refresh_jwks_def split: sum.splits)
    next
      case (Inr x)
      from cache_published_mono [OF refreshed_published [OF u [unfolded Inr]]] assms(3) show ?thesis by simp
    qed
    moreover have "cache' = c2" using assms(1) None u by (auto simp: find_key_def split: sum.splits option.splits)
    ultimately show ?thesis by simp
  qed (use assms in \<open>simp add: find_key_def\<close>)
  show "k = Inr key \<Longrightarrow> find_cached_key (ar_first r) kid cache' = Some key \<or> find_cached_key (ar_again r) kid cache' = Some key"
    using assms(1) by (auto simp: find_key_def split: sum.splits option.splits prod.splits)
qed

lemma cached_published:
  assumes "cache_published L rs cache" and "find_cached_key now kid cache = Some key"
  shows "\<exists>q \<in> rs. published L q kid key \<and> now - ar_loaded q \<le> JWKS_CACHE_TTL"
proof -
  obtain c where c: "cache = Some c" "now - jw_loaded_at c \<le> JWKS_CACHE_TTL" "jw_keys c kid = Some key"
    using assms(2) by (auto simp: find_cached_key_def split: option.splits if_splits)
  with assms(1) obtain q where "q \<in> rs" "jw_loaded_at c = ar_loaded q" "published L q kid key"
    by (auto simp: cache_published_def)
  with c(2) show ?thesis by auto
qed

lemma auth_keeps_published:
  assumes "cache_published L rs cache" and "r \<in> rs"
  shows "cache_published L rs (snd (require_http_auth L auth r cache))"
proof (cases auth)
  case (Some c)
  show ?thesis
  proof (cases "http_bearer (ar_header r) (ar_access_token r)")
    case token: (Some token)
    have "cache_published L rs (snd (validate_jwt L c r token cache))"
    proof (cases "\<exists>kid. jl_header L token = Some (Some kid)")
      case True
      then obtain kid where kid: "jl_header L token = Some (Some kid)" by blast
      obtain k cache' where k: "find_key L r kid cache = (k, cache')" by fastforce
      from found_key(1) [OF k assms] kid k show ?thesis
        by (cases k) (simp_all add: validate_jwt_def split: option.split)
    qed (use assms in \<open>auto simp: validate_jwt_def split: option.splits\<close>)
    then show ?thesis
      by (cases "validate_jwt L c r token cache") (auto simp: require_http_auth_def Some token split: sum.split)
  qed (use assms Some in \<open>simp add: require_http_auth_def\<close>)
qed (use assms in \<open>simp add: require_http_auth_def\<close>)

lemma cache_after_published: "cache_published L (set rs) (auth_cache_after L auth rs)"
proof (induction rs rule: rev_induct)
  case (snoc r rs)
  have "cache_published L (set (rs @ [r])) (auth_cache_after L auth rs)"
    using snoc by (rule cache_published_mono) auto
  then have "cache_published L (set (rs @ [r])) (snd (require_http_auth L auth r (auth_cache_after L auth rs)))"
    by (rule auth_keeps_published) simp
  then show ?case by (simp add: auth_cache_after_def)
qed (simp add: auth_cache_after_def cache_published_def)

section \<open>Who is let in\<close>

lemma passed_user:
  assumes "fst (require_http_auth L (Some c) r cache) = Passed u"
  obtains token kid key cache' claims where "http_bearer (ar_header r) (ar_access_token r) = Some token"
    and "jl_header L token = Some (Some kid)" and "find_key L r kid cache = (Inr key, cache')"
    and "jl_decode L key (ac_issuer_url c) (ar_wall r) token = Some claims"
    and "matches_client c claims = Inr True" and "u = Some (user_of_claims claims)"
proof -
  obtain token where token: "http_bearer (ar_header r) (ar_access_token r) = Some token"
    using assms by (auto simp: require_http_auth_def split: option.splits)
  obtain w cache2 where w: "validate_jwt L c r token cache = (w, cache2)" by fastforce
  with assms token obtain user where user: "w = Inr user" "u = Some user"
    by (cases w) (auto simp: require_http_auth_def)
  obtain kid where kid: "jl_header L token = Some (Some kid)"
    using w user(1) by (auto simp: validate_jwt_def split: option.splits)
  obtain k cache' where k: "find_key L r kid cache = (k, cache')" by fastforce
  from w user(1) kid k obtain key where key: "k = Inr key" by (cases k) (auto simp: validate_jwt_def)
  with w user(1) kid k obtain claims where claims: "jl_decode L key (ac_issuer_url c) (ar_wall r) token = Some claims"
      "check_claims c claims = Inr user"
    by (auto simp: validate_jwt_def split: option.splits)
  have "matches_client c claims = Inr True" "user = user_of_claims claims"
    using claims(2) by (auto simp: check_claims_def split: if_splits elim!: res_bind_eq_Inr [THEN iffD1, elim_format])
  with that token kid k key claims(1) user(2) show thesis by blast
qed

lemma token_pass:
  assumes "fst (require_http_auth L (Some c) r (auth_cache_after L (Some c) rs)) = Passed u"
  shows "\<exists>token kid key claims q t. http_bearer (ar_header r) (ar_access_token r) = Some token
    \<and> jl_header L token = Some (Some kid)
    \<and> q \<in> set (rs @ [r]) \<and> published L q kid key \<and> t \<in> {ar_first r, ar_again r} \<and> t - ar_loaded q \<le> 900000000
    \<and> jl_decode L key (ac_issuer_url c) (ar_wall r) token = Some claims
    \<and> (jc_token_use claims = Some ''access'' \<and> jc_client_id claims = Some (ac_client_id c)
        \<or> jc_token_use claims = Some ''id'' \<and> jc_aud claims = Some (ac_client_id c))
    \<and> u = Some (user_of_claims claims)"
proof -
  obtain token kid key cache' claims where token: "http_bearer (ar_header r) (ar_access_token r) = Some token"
    and kid: "jl_header L token = Some (Some kid)"
    and key: "find_key L r kid (auth_cache_after L (Some c) rs) = (Inr key, cache')"
    and claims: "jl_decode L key (ac_issuer_url c) (ar_wall r) token = Some claims"
    and client: "matches_client c claims = Inr True" and u: "u = Some (user_of_claims claims)"
    by (rule passed_user [OF assms])
  have "cache_published L (set (rs @ [r])) (auth_cache_after L (Some c) rs)"
    using cache_after_published by (rule cache_published_mono) auto
  note found = found_key [OF key this]
  then have "cache_published L (set (rs @ [r])) cache'" by simp
  then obtain q t where "q \<in> set (rs @ [r])" "published L q kid key" "t \<in> {ar_first r, ar_again r}"
      "t - ar_loaded q \<le> JWKS_CACHE_TTL"
    using found(2) [OF _ refl] cached_published by (metis UnCI insertCI list.set_intros(1) set_append)
  moreover have "jc_token_use claims = Some ''access'' \<and> jc_client_id claims = Some (ac_client_id c)
      \<or> jc_token_use claims = Some ''id'' \<and> jc_aud claims = Some (ac_client_id c)"
    using client by (auto simp: matches_client_def split: option.splits if_splits)
  ultimately show ?thesis
    using token kid claims u by (intro exI [of _ token] exI [of _ kid] exI [of _ key] exI [of _ claims] exI [of _ q] exI [of _ t])
      (simp add: JWKS_CACHE_TTL_def)
qed


definition sample_jwt :: "string jwt_lib" where
  "sample_jwt = \<lparr>jl_header = (\<lambda>_. Some (Some ''k'')), jl_rsa = (\<lambda>n e. Some n),
     jl_decode = (\<lambda>key issuer t token. if key = ''n'' \<and> issuer = ''https://i'' then
       Some \<lparr>jc_sub = ''s'', jc_aud = None, jc_email = None, jc_client_id = Some ''app'', jc_token_use = Some ''access'',
         jc_username = None, jc_cognito_username = Some ''n''\<rparr> else None)\<rparr>"

definition sample_auth :: auth_config where
  "sample_auth = \<lparr>ac_issuer_url = ''https://i'', ac_client_id = ''app''\<rparr>"

definition sample_auth_request :: auth_request where
  "sample_auth_request = \<lparr>ar_header = Some ''Bearer t'', ar_access_token = None,
     ar_jwks = Inr [\<lparr>jwk_kid = Some ''k'', jwk_kty = ''RSA'', jwk_n = ''n'', jwk_e = ''e''\<rparr>],
     ar_first = 0, ar_loaded = 1, ar_again = 2, ar_wall = 0\<rparr>"

text \<open>A second request ten minutes later, when the provider does not answer, uses the cached key.\<close>

definition later_auth_request :: auth_request where
  "later_auth_request = sample_auth_request\<lparr>ar_jwks := Inl ''down'', ar_first := 600000000\<rparr>"

lemma sample_passes:
  "fst (require_http_auth sample_jwt (Some sample_auth) later_auth_request
     (auth_cache_after sample_jwt (Some sample_auth) [sample_auth_request]))
   = Passed (Some \<lparr>au_sub = ''s'', au_username = Some ''n'', au_email = None, au_token_use = ''access''\<rparr>)"
  by code_simp


text \<open>
  The library refuses a token with an audience when it is not told which audience to expect, as
  here: then no identity token is ever accepted.
\<close>

lemma identity_tokens_refused:
  assumes "\<And>key t token claims. jl_decode L key (ac_issuer_url c) t token = Some claims \<Longrightarrow> jc_aud claims = None"
    and "fst (require_http_auth L (Some c) r cache) = Passed (Some user)"
  shows "au_token_use user = ''access''"
proof -
  obtain token kid key cache' claims where "jl_decode L key (ac_issuer_url c) (ar_wall r) token = Some claims"
      "matches_client c claims = Inr True" "user = user_of_claims claims"
    by (rule passed_user [OF assms(2)]) blast
  with assms(1) show ?thesis
    by (auto simp: matches_client_def user_of_claims_def split: option.splits if_splits)
qed

text \<open>Without configuration everyone passes, as nobody.\<close>

lemma no_configuration_passes: "require_http_auth L None r cache = (Passed None, cache)"
  by (simp add: require_http_auth_def)

section \<open>Configuration\<close>

text \<open>The variables a shell gets agree with the paths the server itself uses.\<close>

lemma shells_see_configuration:
  assumes "load_config listen_ok V = (Inr cfg, V')"
  shows "V' ''SULION_REPOS_ROOT'' = Some (cfg_repos_root cfg)"
    and "V' ''SULION_WORKSPACES_ROOT'' = Some (cfg_workspaces_root cfg)"
    and "V' ''SULION_CLAUDE_PROJECTS'' = Some (cfg_claude_projects_dir cfg)"
    and "V' ''SULION_CODEX_SESSIONS'' = Some (cfg_codex_sessions_dir cfg)"
    and "V' ''SULION_CORRELATE_SOCK'' = V ''SULION_CORRELATE_SOCK''"
proof -
  obtain repos ws claude codex where V': "V' = set_path_vars repos ws claude codex V"
      "cfg_repos_root cfg = repos" "cfg_workspaces_root cfg = ws" "cfg_claude_projects_dir cfg = claude"
      "cfg_codex_sessions_dir cfg = codex"
    using assms by (auto simp: load_config_def Let_def split: if_splits option.splits
        elim!: res_bind_eq_Inr [THEN iffD1, elim_format])
  show "V' ''SULION_REPOS_ROOT'' = Some (cfg_repos_root cfg)" "V' ''SULION_WORKSPACES_ROOT'' = Some (cfg_workspaces_root cfg)"
    "V' ''SULION_CLAUDE_PROJECTS'' = Some (cfg_claude_projects_dir cfg)"
    "V' ''SULION_CODEX_SESSIONS'' = Some (cfg_codex_sessions_dir cfg)"
    "V' ''SULION_CORRELATE_SOCK'' = V ''SULION_CORRELATE_SOCK''"
    by (simp_all add: V' set_path_vars_def)
qed

end
