(* ===== verification/Credential_Helper.thy ===== *)
theory Credential_Helper
  imports Broker_Redemption Rust_Parse
begin

text \<open>
  The command a terminal runs another command through (\<^verbatim>\<open>backend/src/credential_helper.rs\<close>):
  it signs a request with the terminal's key, sends it to the broker and runs the command with
  the variables of the answer. The host (variables, files, key and signature, nonce, clock and
  the broker's answer) is the record \<open>helper_host\<close>. The composition with the broker: what the
  helper sends, the broker's check accepts.
\<close>

section \<open>Arguments\<close>

record helper_args =
  ha_tool :: string
  ha_secret_id :: "string option"
  ha_command :: "string list"

fun helper_flags ::
    "(string \<Rightarrow> string) \<Rightarrow> string list \<Rightarrow> string option \<Rightarrow> string option \<Rightarrow>
     (string, string option \<times> string option \<times> string list) result" where
  "helper_flags lossy [] tool secret = Inr (tool, secret, [])"
| "helper_flags lossy [a] tool secret =
     (if lossy a = ''--'' then Inr (tool, secret, [])
      else if lossy a = ''--tool'' then Inl ''credential-helper: --tool requires a value''
      else if lossy a = ''--secret'' then Inl ''credential-helper: --secret requires a value''
      else Inl ''credential-helper: unknown option'')"
| "helper_flags lossy (a # b # rest) tool secret =
     (if lossy a = ''--'' then Inr (tool, secret, b # rest)
      else if lossy a = ''--tool'' then helper_flags lossy rest (Some (lossy b)) secret
      else if lossy a = ''--secret'' then helper_flags lossy rest tool (Some (lossy b))
      else Inl ''credential-helper: unknown option'')"

definition helper_parse :: "(string \<Rightarrow> string) \<Rightarrow> string list \<Rightarrow> (string, helper_args) result" where
  "helper_parse lossy args =
     res_bind (helper_flags lossy args None None) (\<lambda>(tool, secret, command).
       case tool of
         None \<Rightarrow> Inl ''credential-helper: --tool is required''
       | Some t \<Rightarrow>
           if t \<notin> {''with-cred'', ''aws''} then Inl ''credential-helper: --tool must be with-cred or aws''
           else if t = ''aws'' \<and> secret = None then Inl ''credential-helper: --tool aws requires --secret''
           else if command = [] then Inl ''credential-helper: missing command''
           else Inr \<lparr>ha_tool = t, ha_secret_id = secret, ha_command = command\<rparr>)"

section \<open>The request\<close>

datatype helper_reply = NoReply string | Denied http_status string | Granted "env option"

record 'k helper_host =
  hh_var :: "string \<Rightarrow> string option"
  hh_uuid_parse :: "string \<Rightarrow> uuid option"
  hh_uuid_show :: "uuid \<Rightarrow> string"
  hh_lossy :: "string \<Rightarrow> string"
  hh_read :: "string \<Rightarrow> (string, bytes) result"
  hh_key_pair :: "bytes \<Rightarrow> 'k option"
  hh_sign :: "'k \<Rightarrow> string \<Rightarrow> bytes"
  hh_b64 :: "bytes \<Rightarrow> string"
  hh_random :: bytes
  hh_now :: i64
  hh_post :: "string \<Rightarrow> use_request \<Rightarrow> helper_reply"

text \<open>\<open>Exec\<close> replaces the process: a program, its arguments and the variables added to its environment.\<close>

datatype helper_outcome = HelperExit int | HelperError string | Exec "string list" env

definition new_nonce :: "'k helper_host \<Rightarrow> string" where
  "new_nonce H = hh_b64 H (hh_random H)"

definition helper_request :: "'k helper_host \<Rightarrow> 'k \<Rightarrow> uuid \<Rightarrow> helper_args \<Rightarrow> use_request" where
  "helper_request H k pty a =
     (let nonce = new_nonce H;
          canonical = canonical_use_payload (hh_uuid_show H) pty (ha_secret_id a) (ha_tool a) (hh_now H) nonce
      in \<lparr>use_pty_session_id = pty, use_secret_id = ha_secret_id a, use_tool = ha_tool a, use_timestamp = hh_now H,
          use_nonce = nonce, use_signature = hh_b64 H (hh_sign H k canonical)\<rparr>)"

definition helper_key :: "'k helper_host \<Rightarrow> string \<Rightarrow> (string, 'k) result" where
  "helper_key H path =
     (case hh_read H path of
        Inl e \<Rightarrow> Inl (''read PTY secret broker key '' @ path)
      | Inr pkcs8 \<Rightarrow> (case hh_key_pair H pkcs8 of None \<Rightarrow> Inl ''invalid PTY secret broker key'' | Some k \<Rightarrow> Inr k))"

definition helper_url :: "'k helper_host \<Rightarrow> string" where
  "helper_url H =
     trim_end_char (CHR ''/'') (unwrap_or ''http://sulion-broker:8081'' (hh_var H ''SULION_SECRET_BROKER_URL''))
     @ ''/v1/use''"

definition helper_finish :: "helper_args \<Rightarrow> helper_reply \<Rightarrow> helper_outcome" where
  "helper_finish a r =
     (case r of
        NoReply e \<Rightarrow> HelperExit 66
      | Denied status body \<Rightarrow> HelperExit 66
      | Granted None \<Rightarrow> HelperError ''invalid broker response''
      | Granted (Some env) \<Rightarrow> Exec (ha_command a) env)"

text \<open>The request sent, if any, and what becomes of the process.\<close>

definition helper_run :: "'k helper_host \<Rightarrow> string list \<Rightarrow> use_request option \<times> helper_outcome" where
  "helper_run H args =
     (case helper_parse (hh_lossy H) args of
        Inl message \<Rightarrow> (None, HelperExit 64)
      | Inr a \<Rightarrow>
          (case Option.bind (hh_var H ''SULION_PTY_ID'') (hh_uuid_parse H) of
             None \<Rightarrow> (None, HelperExit 65)
           | Some pty \<Rightarrow>
               (case opt_filter (\<lambda>p. \<not> blank p) (hh_var H ''SULION_SECRET_BROKER_KEY_PATH'') of
                  None \<Rightarrow> (None, HelperExit 65)
                | Some path \<Rightarrow>
                    (case helper_key H path of
                       Inl e \<Rightarrow> (None, HelperError e)
                     | Inr k \<Rightarrow>
                         (let req = helper_request H k pty a
                          in (Some req, helper_finish a (hh_post H (helper_url H) req)))))))"

section \<open>At the broker\<close>

text \<open>The answer of the broker to a redemption, as the helper reads it.\<close>

definition broker_answer :: "primitives \<Rightarrow> use_clock \<Rightarrow> broker_db \<Rightarrow> use_request \<Rightarrow> helper_reply" where
  "broker_answer P clk st req =
     (case fst (use_secret P clk st req) of
        Inl e \<Rightarrow> Denied (be_status e) (be_message e)
      | Inr env \<Rightarrow> Granted (Some env))"

lemma parsed_args:
  assumes "helper_parse lossy args = Inr a"
  shows "validate_tool_name (ha_tool a) = Inr ()" and "ha_tool a = ''aws'' \<longrightarrow> ha_secret_id a \<noteq> None"
    and "ha_command a \<noteq> []"
  using assms
  by (auto simp: helper_parse_def validate_tool_name_def split: option.splits if_splits
      elim!: res_bind_eq_Inr [THEN iffD1, elim_format])

text \<open>What has to be in place between a terminal and the broker.\<close>

definition terminal_set_up :: "'k helper_host \<Rightarrow> primitives \<Rightarrow> broker_db \<Rightarrow> uuid \<Rightarrow> 'k \<Rightarrow> bool" where
  "terminal_set_up H P st pty k \<longleftrightarrow>
     Option.bind (hh_var H ''SULION_PTY_ID'') (hh_uuid_parse H) = Some pty
     \<and> (\<exists>path key64 key. opt_filter (\<lambda>p. \<not> blank p) (hh_var H ''SULION_SECRET_BROKER_KEY_PATH'') = Some path
          \<and> helper_key H path = Inr k
          \<and> active_key st pty = Some key64 \<and> b64_decode P key64 = Some key
          \<and> (\<forall>m. ed25519_verify P key m (hh_sign H k m)))
     \<and> hh_uuid_show H = show_uuid P \<and> (\<forall>b. b64_decode P (hh_b64 H b) = Some b)"

lemma request_accepted:
  assumes "terminal_set_up H P st pty k" and "\<not> blank (new_nonce H)" and "length (new_nonce H) \<le> 128"
    and "\<not> stale (hh_now H) now"
  shows "check_use_request P now st (helper_request H k pty a) = Inr ()"
  using assms
  by (auto simp: check_use_request_def helper_request_def terminal_set_up_def use_payload_def Let_def)

lemma request_sent:
  assumes "terminal_set_up H P st pty k" and "helper_parse (hh_lossy H) args = Inr a"
  shows "helper_run H args
    = (Some (helper_request H k pty a), helper_finish a (hh_post H (helper_url H) (helper_request H k pty a)))"
  using assms by (auto simp: helper_run_def terminal_set_up_def Let_def)

lemma unused_nonce:
  assumes "(pty, n) \<notin> fst ` set ns"
  shows "\<exists>ns'. insert_nonce (prune_nonces t ns) (pty, n) t2 = (True, ns')"
proof -
  have "(pty, n) \<notin> fst ` set (prune_nonces t ns)" using assms by (auto simp: prune_nonces_def)
  then show ?thesis by (auto simp: insert_nonce_def map_of_eq_None_iff split: option.split)
qed

lemma row_env_error: "row_env P row = Inl e \<Longrightarrow> be_status e \<noteq> UNAUTHORIZED"
  by (auto simp: row_env_def decrypt_env_def broker_internal_def broker_bad_request_def Let_def
      split: option.splits sum.splits if_splits)

lemma add_env_error: "add_env tool env more_env = Inl e \<Longrightarrow> be_status e \<noteq> UNAUTHORIZED"
  by (induction tool env more_env rule: add_env.induct) (auto simp: broker_bad_request_def split: option.splits)

lemma collect_env_error: "collect_env P tool env rows = Inl e \<Longrightarrow> be_status e \<noteq> UNAUTHORIZED"
  by (induction P tool env rows rule: collect_env.induct)
    (auto simp: res_bind_eq_Inl dest: row_env_error add_env_error)

lemma verified_error:
  assumes "verify_signed_use_request P clk st req = (Inr (), st1)" and "use_secret P clk st req = (Inl e, st')"
  shows "be_status e \<noteq> UNAUTHORIZED"
  using assms
  by (auto simp: use_secret_def res_bind_eq_Inl Let_def validate_tool_name_def validate_secret_id_def
      broker_bad_request_def broker_forbidden_def split: sum.splits option.splits if_splits prod.splits
      dest: collect_env_error)

text \<open>
  C38. A command run through the helper in a terminal whose key the broker knows, with clocks at
  most a minute apart and a fresh nonce: the signed request passes the broker's check, and no
  later answer is \<open>unauthorized\<close>; the command is executed exactly when the redemption succeeds,
  and then with the variables of the secrets unlocked for this terminal and tool, else the
  helper exits with 66. It relies on signatures that verify and on base64 reading back.
\<close>
theorem helper_redeems:
  assumes "terminal_set_up H P st pty k" and "helper_parse (hh_lossy H) args = Inr a"
    and "\<not> blank (new_nonce H)" and "length (new_nonce H) \<le> 128" and "\<not> stale (hh_now H) (app_now clk)"
    and "(pty, new_nonce H) \<notin> fst ` set (nonces st)"
    and "hh_post H (helper_url H) = broker_answer P clk st" and "\<And>xs. set (collate P xs) = set xs"
  shows "let req = helper_request H k pty a in
    fst (verify_signed_use_request P clk st req) = Inr ()
    \<and> fst (helper_run H args) = Some req
    \<and> (case fst (use_secret P clk st req) of
         Inl e \<Rightarrow> snd (helper_run H args) = HelperExit 66 \<and> be_status e \<noteq> UNAUTHORIZED
       | Inr env \<Rightarrow> snd (helper_run H args) = Exec (ha_command a) env
           \<and> set env = {(v, x). \<exists>g row senv. matching_grant (select_now clk) st req g
               \<and> map_of (secrets st) (g_secret g) = Some row \<and> row_env P row = Inr senv \<and> (v, x) \<in> set senv})"
proof -
  let ?req = "helper_request H k pty a"
  have "check_use_request P (app_now clk) st ?req = Inr ()" by (rule request_accepted [OF assms(1,3-5)])
  moreover have "use_pty_session_id ?req = pty" "use_nonce ?req = new_nonce H"
    by (simp_all add: helper_request_def Let_def)
  moreover obtain ns where "insert_nonce (prune_nonces (prune_now clk) (nonces st)) (pty, new_nonce H) (nonce_now clk) = (True, ns)"
    using unused_nonce [OF assms(6)] by blast
  ultimately have v: "verify_signed_use_request P clk st ?req = (Inr (), st\<lparr>nonces := ns\<rparr>)"
    by (simp add: verify_signed_use_request_def)
  have run: "helper_run H args = (Some ?req, helper_finish a (broker_answer P clk st ?req))"
    using request_sent [OF assms(1,2)] assms(7) by simp
  obtain r st' where r: "use_secret P clk st ?req = (r, st')" by fastforce
  show ?thesis
  proof (cases r)
    case (Inl e)
    then have "be_status e \<noteq> UNAUTHORIZED" using verified_error [OF v] r by simp
    then show ?thesis using v run r Inl by (simp add: broker_answer_def helper_finish_def)
  next
    case (Inr env)
    have "set env = {(v, x). \<exists>g row senv. matching_grant (select_now clk) st ?req g
        \<and> map_of (secrets st) (g_secret g) = Some row \<and> row_env P row = Inr senv \<and> (v, x) \<in> set senv}"
      by (intro set_eqI) (simp add: redeemed(3) [OF assms(8) r [unfolded Inr]] split_paired_all)
    then show ?thesis using v run r Inr by (simp add: broker_answer_def helper_finish_def)
  qed
qed

definition sample_helper :: "unit helper_host" where
  "sample_helper = \<lparr>hh_var = [''SULION_PTY_ID'' \<mapsto> ''7'', ''SULION_SECRET_BROKER_KEY_PATH'' \<mapsto> ''/k''],
     hh_uuid_parse = (\<lambda>_. Some 7), hh_uuid_show = example_show_uuid, hh_lossy = (\<lambda>s. s), hh_read = (\<lambda>_. Inr ''key''),
     hh_key_pair = (\<lambda>_. Some ()), hh_sign = (\<lambda>_ _. ''sig''), hh_b64 = (\<lambda>b. b), hh_random = ''n1'', hh_now = 1000,
     hh_post = (\<lambda>_. broker_answer example_prims example_clock example_db)\<rparr>"

lemma sample_command:
  "helper_parse (hh_lossy sample_helper) [''--tool'', ''with-cred'', ''--secret'', ''db'', ''--'', ''aws'', ''s3'']
   = Inr \<lparr>ha_tool = ''with-cred'', ha_secret_id = Some ''db'', ha_command = [''aws'', ''s3'']\<rparr>"
  by (simp add: helper_parse_def sample_helper_def)

lemma sample_path: "\<not> blank ''/k''"
  by (simp add: blank_def trim_def trim_start.simps [of "''/k''"] trim_end.simps [of "''/k''"]
      ws_len_end_def ascii_ws_def)

lemma sample_set_up: "terminal_set_up sample_helper example_prims example_db 7 ()"
  by (simp add: terminal_set_up_def sample_helper_def example_prims_def example_db_def helper_key_def
      active_key_def opt_filter_def sample_path)

lemma sample_request:
  "helper_request sample_helper () 7 \<lparr>ha_tool = ''with-cred'', ha_secret_id = Some ''db'', ha_command = c\<rparr> = example_use"
  by (simp add: helper_request_def sample_helper_def example_use_def new_nonce_def Let_def)

theorem helper_redeems_witness:
  "snd (helper_run sample_helper [''--tool'', ''with-cred'', ''--secret'', ''db'', ''--'', ''aws'', ''s3''])
     = Exec [''aws'', ''s3''] [(''K'', ''v'')]"
proof -
  have nonce: "new_nonce sample_helper = ''n1''" by (simp add: new_nonce_def sample_helper_def)
  have now: "hh_now sample_helper = 1000" "app_now example_clock = 1000" "nonces example_db = []"
    by (simp_all add: sample_helper_def example_clock_def example_db_def)
  have post: "hh_post sample_helper (helper_url sample_helper) = broker_answer example_prims example_clock example_db"
    by (simp add: sample_helper_def)
  have collate: "set (collate example_prims xs) = set xs" for xs by (simp add: example_prims_def)
  show ?thesis
    using helper_redeems [OF sample_set_up sample_command _ _ _ _ post collate] example_blank example_stale example_redeemed
    by (simp add: nonce now sample_request)
qed

end
