(* ===== verification/Timeline_Routes.thy ===== *)
theory Timeline_Routes
  imports Projection_Repo Session_Routes
begin

text \<open>
  The handlers that answer with timelines (\<^verbatim>\<open>backend/src/api/timeline_routes.rs\<close>): of a session,
  of a repository and of the monitor, which shows the latest turn of up to 64 terminals. They
  read the stored tables; a read may fail, by its name.
\<close>

record timeline_store =
  tv_reader :: read_lib
  tv_ingest :: ingest_lib
  tv_started :: "uuid \<Rightarrow> timestamp"
  tv_db :: ingest_db
  tv_pd :: projection_db
  tv_rows :: "pty_row list"
  tv_is_dir :: "string \<Rightarrow> bool"
  tv_fails :: "string \<Rightarrow> bool"
  tv_now :: timestamp

section \<open>Filters\<close>

record timeline_query =
  tq_session :: "uuid option"
  tq_claude_session :: "uuid option"
  tq_hide_speakers :: "string option"
  tq_hide_categories :: "string option"
  tq_errors_only :: "bool option"
  tq_show_bookkeeping :: "bool option"
  tq_show_sidechain :: "bool option"
  tq_file_path :: "string option"

definition parse_speaker_facet :: "string \<Rightarrow> speaker_facet option" where
  "parse_speaker_facet v =
     (if v = ''user'' then Some FacetUser
      else if v = ''assistant'' then Some FacetAssistant
      else if v = ''tool_result'' then Some FacetToolResult
      else None)"

definition listed :: "string option \<Rightarrow> string list" where
  "listed raw = map trim (split_char (CHR '','') (unwrap_or [] raw))"

definition parse_hidden_speakers :: "string option \<Rightarrow> speaker_facet set" where
  "parse_hidden_speakers raw = set (List.map_filter parse_speaker_facet (listed raw))"

definition parse_hidden_categories :: "string option \<Rightarrow> operation_category set" where
  "parse_hidden_categories raw = set (List.map_filter category_parse (listed raw))"

definition filters_for :: "timeline_query \<Rightarrow> projection_filters" where
  "filters_for q =
     \<lparr>hidden_speakers = parse_hidden_speakers (tq_hide_speakers q),
      hidden_operation_categories = parse_hidden_categories (tq_hide_categories q),
      errors_only = unwrap_or False (tq_errors_only q), show_bookkeeping = unwrap_or False (tq_show_bookkeeping q),
      show_sidechain = unwrap_or False (tq_show_sidechain q), pf_file_path = unwrap_or [] (tq_file_path q)\<rparr>"

section \<open>Reads\<close>

definition read_or :: "timeline_store \<Rightarrow> string \<Rightarrow> (string \<Rightarrow> api_error) \<Rightarrow> 'a \<Rightarrow> (api_error, 'a) result" where
  "read_or S what err x = (if tv_fails S what then Inl (err what) else Inr x)"

definition read_detail ::
    "timeline_store \<Rightarrow> uuid \<Rightarrow> int \<Rightarrow> projection_filters \<Rightarrow> (api_error, turn option) result" where
  "read_detail S u i f =
     res_bind (read_or S ''turn'' Internal ()) (\<lambda>_.
       map_error (\<lambda>_. Internal ''turn'') (load_timeline_turn_detail (tv_reader S) (tv_pd S) u i f))"

definition read_session_meta :: "timeline_store \<Rightarrow> uuid \<Rightarrow> (api_error, session_meta) result" where
  "read_session_meta S u =
     res_bind (read_or S ''meta'' Internal ()) (\<lambda>_.
       map_error Internal (load_timeline_session_meta (tv_db S) (tv_rows S) u))"

text \<open>The annotated turn of a session with an identifier.\<close>

definition annotated_detail ::
    "timeline_store \<Rightarrow> uuid \<Rightarrow> int \<Rightarrow> projection_filters \<Rightarrow> (api_error, (session_meta \<times> turn) option) result" where
  "annotated_detail S u i f =
     res_bind (read_detail S u i f) (\<lambda>t.
       case t of
         None \<Rightarrow> Inr None
       | Some turn \<Rightarrow>
           res_bind (read_session_meta S u) (\<lambda>m. Inr (Some (m, annotate_turn (tv_ingest S) m turn))))"

section \<open>A session and a repository\<close>

record turn_response =
  tr_session_uuid :: uuid
  tr_session_agent :: "string option"
  tr_turn :: turn

definition session_timeline ::
    "timeline_store \<Rightarrow> uuid \<Rightarrow> timeline_query \<Rightarrow> (api_error, summary_response) result" where
  "session_timeline S i q =
     res_bind (read_or S ''target'' Internal ()) (\<lambda>_.
       case resolve_session_target (tv_db S) i (or_else (tq_session q) (tq_claude_session q)) of
         NoSession \<Rightarrow> Inr (empty_timeline_summary_response 0)
       | MissingPty \<Rightarrow> Inl NotFound
       | Resolved u agent \<Rightarrow>
           res_bind (read_or S ''summary'' Internal
               (load_timeline_summary_response (tv_reader S) (tv_pd S) u (filters_for q))) (\<lambda>response.
           res_bind (read_session_meta S u) (\<lambda>m.
             Inr (response\<lparr>sr_turns := annotate_timeline_summaries (tv_ingest S) m (sr_turns response),
                           sr_session_uuid := Some u, sr_session_agent := agent\<rparr>))))"

definition session_timeline_turn ::
    "timeline_store \<Rightarrow> uuid \<Rightarrow> int \<Rightarrow> timeline_query \<Rightarrow> (api_error, turn_response) result" where
  "session_timeline_turn S i turn_id q =
     res_bind (read_or S ''target'' Internal ()) (\<lambda>_.
       case resolve_session_target (tv_db S) i (or_else (tq_session q) (tq_claude_session q)) of
         NoSession \<Rightarrow> Inl NotFound
       | MissingPty \<Rightarrow> Inl NotFound
       | Resolved u agent \<Rightarrow>
           res_bind (annotated_detail S u turn_id (filters_for q)) (\<lambda>found.
             case found of
               None \<Rightarrow> Inl NotFound
             | Some (m, turn) \<Rightarrow> Inr \<lparr>tr_session_uuid = u, tr_session_agent = agent, tr_turn = turn\<rparr>))"

definition known_repo :: "timeline_store \<Rightarrow> string \<Rightarrow> (api_error, unit) result" where
  "known_repo S name =
     (if \<not> valid_repo_name name then Inl (BadRequest ''invalid repo name'')
      else if \<not> tv_is_dir S name then Inl NotFound else Inr ())"

definition repo_timeline :: "timeline_store \<Rightarrow> string \<Rightarrow> timeline_query \<Rightarrow> (api_error, summary_response) result" where
  "repo_timeline S name q =
     res_bind (known_repo S name) (\<lambda>_.
       read_or S ''repo summary'' Internal
         (load_repo_timeline_summary_response (tv_reader S) (tv_ingest S) (tv_started S) (tv_db S) (tv_pd S)
            (tv_rows S) name (filters_for q)))"

text \<open>The inner join of a session with its terminal, in a repository.\<close>

definition ensure_session_belongs_to_repo :: "timeline_store \<Rightarrow> uuid \<Rightarrow> string \<Rightarrow> (api_error, unit) result" where
  "ensure_session_belongs_to_repo S u name =
     res_bind (read_or S ''belongs'' Db ()) (\<lambda>_.
       case Option.bind (sessions (tv_db S) u) (session_pty (tv_rows S)) of
         None \<Rightarrow> Inl NotFound
       | Some r \<Rightarrow> if pr_repo r = name then Inr () else Inl NotFound)"

definition repo_timeline_turn ::
    "timeline_store \<Rightarrow> string \<Rightarrow> uuid \<Rightarrow> int \<Rightarrow> timeline_query \<Rightarrow> (api_error, turn_response) result" where
  "repo_timeline_turn S name u turn_id q =
     res_bind (known_repo S name) (\<lambda>_.
     res_bind (ensure_session_belongs_to_repo S u name) (\<lambda>_.
     res_bind (annotated_detail S u turn_id (filters_for q)) (\<lambda>found.
       case found of
         None \<Rightarrow> Inl NotFound
       | Some (m, turn) \<Rightarrow>
           Inr \<lparr>tr_session_uuid = u, tr_session_agent = sm_session_agent m, tr_turn = turn\<rparr>)))"

section \<open>The monitor\<close>

record monitor_request =
  mq_session_ids :: "uuid list"
  mq_hidden_speakers :: "string list"
  mq_hidden_operation_categories :: "string list"
  mq_errors_only :: bool
  mq_show_bookkeeping :: bool
  mq_show_sidechain :: bool
  mq_file_path :: string

record monitor_view =
  mv_pty_session_id :: uuid
  mv_repo :: string
  mv_label :: "string option"
  mv_pty_state :: string
  mv_current_session_uuid :: "uuid option"
  mv_current_session_agent :: "string option"
  mv_total_event_count :: int
  mv_turn :: "turn option"

record monitor_response =
  mr_generated_at :: timestamp
  mr_sessions :: "monitor_view list"

definition monitor_filters_for :: "monitor_request \<Rightarrow> projection_filters" where
  "monitor_filters_for q =
     \<lparr>hidden_speakers = set (List.map_filter parse_speaker_facet (mq_hidden_speakers q)),
      hidden_operation_categories = set (List.map_filter category_parse (mq_hidden_operation_categories q)),
      errors_only = mq_errors_only q, show_bookkeeping = mq_show_bookkeeping q,
      show_sidechain = mq_show_sidechain q, pf_file_path = mq_file_path q\<rparr>"

definition load_monitor_session_rows :: "timeline_store \<Rightarrow> uuid list \<Rightarrow> (api_error, pty_row list) result" where
  "load_monitor_session_rows S ids =
     (if ids = [] then Inr []
      else read_or S ''monitor'' Db (filter (\<lambda>r. pr_id r \<in> set ids \<and> pr_state r \<noteq> ''deleted'') (tv_rows S)))"

definition position :: "uuid list \<Rightarrow> uuid \<Rightarrow> nat" where
  "position ids i = length (takeWhile (\<lambda>j. j \<noteq> i) ids)"

text \<open>The number of events of a session and its latest turn.\<close>

definition latest_turn ::
    "timeline_store \<Rightarrow> projection_filters \<Rightarrow> uuid option \<Rightarrow> (api_error, int \<times> turn option) result" where
  "latest_turn S f session =
     (case session of
        None \<Rightarrow> Inr (0, None)
      | Some u \<Rightarrow>
          res_bind (read_or S ''summary'' Internal (load_timeline_summary_response (tv_reader S) (tv_pd S) u f)) (\<lambda>summary.
            let n = sr_total_event_count summary
            in if sr_turns summary = [] then Inr (n, None)
               else res_bind (annotated_detail S u (ts_id (last (sr_turns summary))) f) (\<lambda>t. Inr (n, map_option snd t))))"

definition monitor_view_of ::
    "timeline_store \<Rightarrow> projection_filters \<Rightarrow> pty_row \<Rightarrow> (api_error, monitor_view) result" where
  "monitor_view_of S f r =
     res_bind (latest_turn S f (pr_current_session r)) (\<lambda>(n, t).
       Inr \<lparr>mv_pty_session_id = pr_id r, mv_repo = pr_repo r, mv_label = pr_label r, mv_pty_state = pr_state r,
            mv_current_session_uuid = pr_current_session r, mv_current_session_agent = pr_current_agent r,
            mv_total_event_count = n, mv_turn = t\<rparr>)"

fun monitor_views ::
    "timeline_store \<Rightarrow> projection_filters \<Rightarrow> pty_row list \<Rightarrow> (api_error, monitor_view list) result" where
  "monitor_views S f [] = Inr []"
| "monitor_views S f (r # rs) =
     res_bind (monitor_view_of S f r) (\<lambda>v. res_bind (monitor_views S f rs) (\<lambda>vs. Inr (v # vs)))"

text \<open>Terminals with a turn first, the one that ended last first; equal ones by identifier.\<close>

definition sort_monitor :: "monitor_view list \<Rightarrow> monitor_view list" where
  "sort_monitor vs =
     sort_key (\<lambda>v. mv_turn v = None)
       (sort_key (\<lambda>v. case mv_turn v of None \<Rightarrow> 0 | Some t \<Rightarrow> - t_end t) (sort_key mv_pty_session_id vs))"

definition monitor_timeline :: "timeline_store \<Rightarrow> monitor_request \<Rightarrow> (api_error, monitor_response) result" where
  "monitor_timeline S q =
     (if length (mq_session_ids q) > 64 then Inl (BadRequest ''monitor supports at most 64 sessions'')
      else res_bind (load_monitor_session_rows S (mq_session_ids q)) (\<lambda>rows.
           res_bind (monitor_views S (monitor_filters_for q)
               (sort_key (\<lambda>r. position (mq_session_ids q) (pr_id r)) rows)) (\<lambda>views.
             Inr \<lparr>mr_generated_at = tv_now S, mr_sessions = sort_monitor views\<rparr>)))"

end
