(* ===== verification/App_State.thy ===== *)
theory App_State
  imports Timeline_Routes Future_Prompts
begin

text \<open>
  The state the interface polls (\<^verbatim>\<open>backend/src/api/app_state_routes.rs\<close>): terminals with what the
  other tables say of them, repositories, workspaces, and the cached resource sample
  (\<^verbatim>\<open>backend/src/api/stats.rs\<close>). The process figures of \<open>sysinfo\<close> are a parameter, a float its
  bits; database sizes and counters are numbers of the environment.
\<close>

section \<open>Resource sample\<close>

record process_stats =
  ps_memory_rss_bytes :: nat
  ps_cpu_bits :: "32 word"
  ps_memory_limit_bytes :: "nat option"

record stats_response =
  st_uptime_seconds :: nat
  st_process :: process_stats
  st_live_sessions :: nat
  st_live_agent_sessions :: nat
  st_database_size_bytes :: int
  st_last_tick_started_at :: "int option"
  st_last_progress_at :: "int option"
  st_stalled_seconds :: "int option"
  st_event_rows :: nat
  st_agent_sessions :: nat
  st_pty_sessions :: nat
  st_tracked_files :: nat
  st_events_inserted :: nat
  st_parse_errors :: nat

text \<open>What \<open>sysinfo\<close>, the clock, the ingester's counters and the database's size answer.\<close>

record stats_env =
  sn_uptime :: nat
  sn_process :: "(nat \<times> 32 word) option"
  sn_memory_max :: "string option"
  sn_live :: nat
  sn_db_size :: "int option"
  sn_now :: int
  sn_last_tick :: "int option"
  sn_last_progress :: "int option"
  sn_inserted :: nat
  sn_errors :: nat
  sn_known_sessions :: nat
  sn_tracked_files :: nat

definition read_cgroup_memory_max :: "stats_env \<Rightarrow> nat option" where
  "read_cgroup_memory_max N =
     Option.bind (sn_memory_max N) (\<lambda>raw. if trim raw = ''max'' then None else parse_u64 (trim raw))"

definition sample_process :: "stats_env \<Rightarrow> process_stats" where
  "sample_process N =
     \<lparr>ps_memory_rss_bytes = (case sn_process N of None \<Rightarrow> 0 | Some (m, _) \<Rightarrow> m),
      ps_cpu_bits = (case sn_process N of None \<Rightarrow> 0 | Some (_, c) \<Rightarrow> c),
      ps_memory_limit_bytes = read_cgroup_memory_max N\<rparr>"

definition saturating_sub_i64 :: "int \<Rightarrow> int \<Rightarrow> int" where
  "saturating_sub_i64 a b = max (- (2 ^ 63)) (min (2 ^ 63 - 1) (a - b))"

text \<open>The snapshot is one query; without its answer there is no sample.\<close>

definition collect_stats ::
    "stats_env \<Rightarrow> pty_row list \<Rightarrow> ingest_db \<Rightarrow> (string, stats_response) result" where
  "collect_stats N rows db =
     (case sn_db_size N of
        None \<Rightarrow> Inl ''stats snapshot''
      | Some sz \<Rightarrow>
          Inr \<lparr>st_uptime_seconds = sn_uptime N, st_process = sample_process N, st_live_sessions = sn_live N,
               st_live_agent_sessions =
                 length (filter (\<lambda>r. pr_state r = ''live'' \<and> pr_current_session r \<noteq> None) rows),
               st_database_size_bytes = sz, st_last_tick_started_at = sn_last_tick N,
               st_last_progress_at = sn_last_progress N,
               st_stalled_seconds = map_option (saturating_sub_i64 (sn_now N)) (sn_last_progress N),
               st_event_rows = length (ev_rows db), st_agent_sessions = sn_known_sessions N,
               st_pty_sessions = length rows, st_tracked_files = sn_tracked_files N,
               st_events_inserted = sn_inserted N, st_parse_errors = sn_errors N\<rparr>)"

definition sample_stats_once ::
    "stats_env \<Rightarrow> pty_row list \<Rightarrow> ingest_db \<Rightarrow> stats_response option \<Rightarrow> (string, unit) result \<times> stats_response option" where
  "sample_stats_once N rows db cache =
     (case collect_stats N rows db of Inl e \<Rightarrow> (Inl e, cache) | Inr s \<Rightarrow> (Inr (), Some s))"

section \<open>Terminals\<close>

record app_workspace_view =
  aw_id :: uuid
  aw_repo_name :: string
  aw_kind :: string
  aw_path :: string
  aw_branch_name :: "string option"
  aw_base_ref :: "string option"
  aw_base_sha :: "string option"
  aw_merge_target :: "string option"

record app_metadata_view =
  am_row :: metadata_row
  am_updated_at :: timestamp

record app_session_view =
  av_row :: pty_row
  av_workspace :: "app_workspace_view option"
  av_last_event_at :: "timestamp option"
  av_timeline_revision :: int
  av_metadata :: "app_metadata_view option"
  av_pending_prompts :: int

text \<open>The tables of one request, and which of its reads fail.\<close>

record app_tables =
  at_rows :: "pty_row list"
  at_ws :: workspace_db
  at_repos :: repo_db
  at_pd :: projection_db
  at_db :: ingest_db
  at_counts :: "(uuid \<times> int \<times> int) list"
  at_metadata_updated :: "uuid \<Rightarrow> timestamp"

record app_env =
  ae_ws :: workspace_env
  ae_stats :: stats_env
  ae_show_time :: "timestamp \<Rightarrow> string"
  ae_now :: timestamp
  ae_fails :: "string \<Rightarrow> bool"

text \<open>The left joins on the terminal's workspace and current session.\<close>

definition workspace_view_of :: "workspace_row \<Rightarrow> app_workspace_view" where
  "workspace_view_of w =
     \<lparr>aw_id = ws_id w, aw_repo_name = ws_repo_name w, aw_kind = ws_kind w, aw_path = ws_path w,
      aw_branch_name = ws_branch_name w, aw_base_ref = ws_base_ref w, aw_base_sha = ws_base_sha w,
      aw_merge_target = ws_merge_target w\<rparr>"

definition row_workspace :: "app_tables \<Rightarrow> pty_row \<Rightarrow> app_workspace_view option" where
  "row_workspace T r =
     Option.bind (pr_workspace_id r) (\<lambda>i. map_option workspace_view_of (find (\<lambda>w. ws_id w = i) (wd_rows (at_ws T))))"

definition current_state :: "app_tables \<Rightarrow> pty_row \<Rightarrow> session_state option" where
  "current_state T r = Option.bind (pr_current_session r) (pd_states (at_pd T))"

definition current_revision :: "app_tables \<Rightarrow> pty_row \<Rightarrow> int" where
  "current_revision T r = (case current_state T r of None \<Rightarrow> 0 | Some s \<Rightarrow> ss_revision s)"

definition app_session_of :: "app_tables \<Rightarrow> pty_row \<Rightarrow> app_session_view" where
  "app_session_of T r =
     \<lparr>av_row = r, av_workspace = row_workspace T r,
      av_last_event_at = Option.bind (current_state T r) ss_latest_event_at,
      av_timeline_revision = current_revision T r,
      av_metadata = Option.bind (pr_current_session r) (\<lambda>u.
        map_option (\<lambda>m. \<lparr>am_row = m, am_updated_at = at_metadata_updated T u\<rparr>) (metadata (at_db T) u)),
      av_pending_prompts =
        (case Option.bind (pr_current_session r) (map_of (at_counts T)) of None \<Rightarrow> 0 | Some (_, n) \<Rightarrow> n)\<rparr>"

definition app_rows :: "app_tables \<Rightarrow> pty_row list" where
  "app_rows T = filter (\<lambda>r. pr_state r \<noteq> ''deleted'') (at_rows T)"

definition load_app_sessions :: "app_env \<Rightarrow> app_tables \<Rightarrow> (api_error, app_session_view list) result" where
  "load_app_sessions E T =
     (if ae_fails E ''sessions'' then Inl (Db ''sessions'')
      else Inr (map (app_session_of T)
        (sort_key (\<lambda>r. \<not> pr_pinned r) (sort_key (\<lambda>r. - pr_created_at r) (app_rows T)))))"

section \<open>Repositories\<close>

record app_repo_view =
  ap_name :: string
  ap_path :: string
  ap_exists :: bool
  ap_timeline_revision :: int
  ap_git :: git_summary

text \<open>\<open>GROUP BY repo\<close>: the sum over the terminals of a repository, where it has any.\<close>

definition repo_timeline_revision :: "app_tables \<Rightarrow> string \<Rightarrow> int option" where
  "repo_timeline_revision T repo =
     (let rs = filter (\<lambda>r. pr_repo r = repo) (app_rows T)
      in if rs = [] then None else Some (sum_list (map (current_revision T) rs)))"

definition load_repo_timeline_revisions :: "app_env \<Rightarrow> app_tables \<Rightarrow> (api_error, string \<rightharpoonup> int) result" where
  "load_repo_timeline_revisions E T =
     (if ae_fails E ''revisions'' then Inl (Db ''revisions'') else Inr (repo_timeline_revision T))"

definition app_repo_of ::
    "app_env \<Rightarrow> (string \<rightharpoonup> int) \<Rightarrow> repo_row \<Rightarrow> (api_error, app_repo_view) result" where
  "app_repo_of E revisions r =
     res_bind (map_error Internal (repo_git_summary (ae_show_time E) r)) (\<lambda>git.
       Inr \<lparr>ap_name = rr_name r, ap_path = rr_path r, ap_exists = rr_exists r,
            ap_timeline_revision = unwrap_or 0 (revisions (rr_name r)), ap_git = git\<rparr>)"

fun app_repos_of ::
    "app_env \<Rightarrow> (string \<rightharpoonup> int) \<Rightarrow> repo_row list \<Rightarrow> (api_error, app_repo_view list) result" where
  "app_repos_of E revisions [] = Inr []"
| "app_repos_of E revisions (r # rs) =
     res_bind (app_repo_of E revisions r) (\<lambda>v. res_bind (app_repos_of E revisions rs) (\<lambda>vs. Inr (v # vs)))"

definition load_app_repos ::
    "app_env \<Rightarrow> app_tables \<Rightarrow> (string \<rightharpoonup> int) \<Rightarrow> (api_error, app_repo_view list) result" where
  "load_app_repos E T revisions =
     (if ae_fails E ''repos'' then Inl (Db ''repos'')
      else app_repos_of E revisions
        (sort_key (we_collate (ae_ws E) \<circ> rr_name) (filter rr_exists (rd_rows (at_repos T)))))"

section \<open>The response\<close>

record app_state_response =
  ar_generated_at :: timestamp
  ar_sessions :: "app_session_view list"
  ar_repos :: "app_repo_view list"
  ar_workspaces :: "(workspace_row \<times> git_summary) list"
  ar_stats :: stats_response

definition current_stats ::
    "app_env \<Rightarrow> app_tables \<Rightarrow> stats_response option \<Rightarrow> (api_error, stats_response) result \<times> stats_response option" where
  "current_stats E T cache =
     (case cache of
        Some s \<Rightarrow> (Inr s, cache)
      | None \<Rightarrow>
          (case sample_stats_once (ae_stats E) (at_rows T) (at_db T) cache of
             (Inl e, cache') \<Rightarrow> (Inl (Internal e), cache')
           | (Inr _, cache') \<Rightarrow>
               (case cache' of
                  None \<Rightarrow> Inl (Internal ''stats cache unavailable after sample'')
                | Some s \<Rightarrow> Inr s, cache')))"

definition app_state ::
    "app_env \<Rightarrow> app_tables \<Rightarrow> stats_response option \<Rightarrow> (api_error, app_state_response) result \<times> stats_response option" where
  "app_state E T cache =
     (case res_bind (load_app_sessions E T) (\<lambda>listed_sessions.
           res_bind (load_repo_timeline_revisions E T) (\<lambda>revisions.
           res_bind (load_app_repos E T revisions) (\<lambda>repos.
           res_bind (map_error Internal (load_workspace_views (ae_ws E) (ae_show_time E) (at_ws T))) (\<lambda>workspaces.
             Inr (listed_sessions, repos, workspaces))))) of
        Inl e \<Rightarrow> (Inl e, cache)
      | Inr (listed_sessions, repos, workspaces) \<Rightarrow>
          (case current_stats E T cache of
             (r, cache') \<Rightarrow>
               (res_bind r (\<lambda>stats.
                  Inr \<lparr>ar_generated_at = ae_now E, ar_sessions = listed_sessions, ar_repos = repos,
                       ar_workspaces = workspaces, ar_stats = stats\<rparr>), cache')))"

end
