(* ===== verification/Timeline_Route_Props.thy ===== *)
theory Timeline_Route_Props
  imports Timeline_Routes Ingest_Props
begin

text \<open>
  What the timeline routes promise: the monitor shows of every terminal the latest turn of its
  timeline, in the order of activity; a turn is shown under a repository only when its session
  is listed there.
\<close>

section \<open>The order of the monitor\<close>

text \<open>The comparator of the monitor.\<close>

definition newer_first :: "monitor_view \<Rightarrow> monitor_view \<Rightarrow> bool" where
  "newer_first a b \<longleftrightarrow>
     (case (mv_turn a, mv_turn b) of
        (Some s, Some t) \<Rightarrow> t_end t < t_end s \<or> t_end t = t_end s \<and> mv_pty_session_id a \<le> mv_pty_session_id b
      | (Some _, None) \<Rightarrow> True
      | (None, Some _) \<Rightarrow> False
      | (None, None) \<Rightarrow> mv_pty_session_id a \<le> mv_pty_session_id b)"

lemma monitor_sorted: "sorted_wrt newer_first (sort_monitor vs)"
proof -
  note by_id = sort_key_lex [OF sorted_wrt_any [of vs], of mv_pty_session_id]
  note by_end = sort_key_lex [OF by_id, of "\<lambda>v. case mv_turn v of None \<Rightarrow> 0 | Some t \<Rightarrow> - t_end t"]
  show ?thesis
    unfolding sort_monitor_def
    by (rule sorted_wrt_mono_rel [OF _ sort_key_lex [OF by_end]]) (auto simp: newer_first_def split: option.splits)
qed

lemma mset_sort_monitor: "mset (sort_monitor vs) = mset vs"
  by (simp add: sort_monitor_def)

section \<open>The entries\<close>

lemma monitor_views_Inr:
  "monitor_views S f rs = Inr vs \<Longrightarrow> list_all2 (\<lambda>r v. monitor_view_of S f r = Inr v) rs vs"
  by (induction rs arbitrary: vs) (auto simp: res_bind_eq_Inr)

lemma view_fields:
  assumes "monitor_view_of S f r = Inr v"
  shows "mv_pty_session_id v = pr_id r" and "mv_current_session_uuid v = pr_current_session r"
    and "latest_turn S f (pr_current_session r) = Inr (mv_total_event_count v, mv_turn v)"
    and "mv_repo v = pr_repo r" and "mv_label v = pr_label r" and "mv_pty_state v = pr_state r"
    and "mv_current_session_agent v = pr_current_agent r"
  using assms by (auto simp: monitor_view_of_def res_bind_eq_Inr)

text \<open>The last turn of a timeline with the metadata of its session.\<close>

definition last_annotated :: "timeline_store \<Rightarrow> uuid \<Rightarrow> turn list \<Rightarrow> turn option" where
  "last_annotated S u turns =
     (if turns = [] then None
      else case sessions (tv_db S) u of
        None \<Rightarrow> None
      | Some s \<Rightarrow> Some (annotate_turn (tv_ingest S) (meta_of (tv_rows S) u s) (last turns)))"

lemma find_last:
  assumes "distinct (map f xs)" and "xs \<noteq> []"
  shows "find (\<lambda>x. f x = f (last xs)) xs = Some (last xs)"
  using assms
proof (induction xs)
  case (Cons x xs)
  then show ?case by (cases "xs = []") (auto simp: image_iff)
qed simp

lemma latest_is_last:
  assumes "unique_keys (tv_pd S)" and "latest_turn S f (Some u) = Inr (n, t)"
    and "load_timeline_response (tv_reader S) (tv_pd S) u f = Inr whole"
  shows "n = tl_total_event_count whole" and "t = last_annotated S u (tl_turns whole)"
proof -
  let ?s = "load_timeline_summary_response (tv_reader S) (tv_pd S) u f"
  note agree = views_agree [OF assms(1,3)]
  have same: "list_all2 summarises (sr_turns ?s) (tl_turns whole)" "sr_total_event_count ?s = tl_total_event_count whole"
    using agree by simp_all
  then have empty: "sr_turns ?s = [] \<longleftrightarrow> tl_turns whole = []" by auto
  have read: "\<not> tv_fails S ''summary''" using assms(2) by (auto simp: latest_turn_def read_or_def)
  show "n = tl_total_event_count whole"
    using assms(2) same(2) read by (auto simp: latest_turn_def read_or_def Let_def res_bind_eq_Inr split: if_splits)
  show "t = last_annotated S u (tl_turns whole)"
  proof (cases "tl_turns whole = []")
    case True
    with assms(2) empty read show ?thesis by (simp add: latest_turn_def read_or_def Let_def last_annotated_def)
  next
    case False
    with same(1) empty have "ts_id (last (sr_turns ?s)) = t_id (last (tl_turns whole))"
      by (auto simp: list_all2_conv_all_nth last_conv_nth summarises_def)
    moreover have "find (\<lambda>x. t_id x = t_id (last (tl_turns whole))) (tl_turns whole) = Some (last (tl_turns whole))"
      using timeline_ids_distinct [OF assms(1,3)] False by (rule find_last)
    ultimately have "load_timeline_turn_detail (tv_reader S) (tv_pd S) u (ts_id (last (sr_turns ?s))) f
        = Inr (Some (last (tl_turns whole)))"
      using agree by simp
    with assms(2) False empty read show ?thesis
      by (auto simp: latest_turn_def read_or_def Let_def annotated_detail_def read_detail_def read_session_meta_def
          map_error_def load_timeline_session_meta_def last_annotated_def res_bind_eq_Inr split: if_splits option.splits)
  qed
qed

lemma monitor_Inr:
  assumes "monitor_timeline S q = Inr resp"
  obtains rows views where "load_monitor_session_rows S (mq_session_ids q) = Inr rows"
    and "list_all2 (\<lambda>r v. monitor_view_of S (monitor_filters_for q) r = Inr v)
           (sort_key (\<lambda>r. position (mq_session_ids q) (pr_id r)) rows) views"
    and "mr_sessions resp = sort_monitor views"
  using assms by (auto simp: monitor_timeline_def res_bind_eq_Inr split: if_splits dest: monitor_views_Inr)

text \<open>
  C39. An answer of the monitor has exactly one entry for every terminal asked for that is not
  deleted (deleted ones are left out), with that terminal's repository, label, state, current session and
  agent; those with a turn come first, by the end of that turn. An entry without a session has no event and
  no turn, and one whose session's timeline can be read shows the number of events and the last turn of
  that timeline under the filters asked for, none when it has no turn.
\<close>
theorem monitor_shows_latest:
  assumes "unique_keys (tv_pd S)" and "monitor_timeline S q = Inr resp"
  shows "mset (map (\<lambda>v. (mv_pty_session_id v, mv_current_session_uuid v, mv_repo v, mv_label v, mv_pty_state v,
          mv_current_session_agent v)) (mr_sessions resp))
      = mset (map (\<lambda>r. (pr_id r, pr_current_session r, pr_repo r, pr_label r, pr_state r, pr_current_agent r))
          (filter (\<lambda>r. pr_id r \<in> set (mq_session_ids q) \<and> pr_state r \<noteq> ''deleted'') (tv_rows S)))
    \<and> sorted_wrt newer_first (mr_sessions resp)
    \<and> (\<forall>v \<in> set (mr_sessions resp).
         case mv_current_session_uuid v of
           None \<Rightarrow> mv_total_event_count v = 0 \<and> mv_turn v = None
         | Some u \<Rightarrow>
             (case load_timeline_response (tv_reader S) (tv_pd S) u (monitor_filters_for q) of
                Inl _ \<Rightarrow> True
              | Inr whole \<Rightarrow> mv_total_event_count v = tl_total_event_count whole
                  \<and> mv_turn v = last_annotated S u (tl_turns whole)))"
proof (intro conjI ballI)
  let ?f = "monitor_filters_for q" and ?pos = "\<lambda>r. position (mq_session_ids q) (pr_id r)"
  obtain rows views where rows: "load_monitor_session_rows S (mq_session_ids q) = Inr rows"
    and views: "list_all2 (\<lambda>r v. monitor_view_of S ?f r = Inr v) (sort_key ?pos rows) views"
    and shown: "mr_sessions resp = sort_monitor views"
    by (rule monitor_Inr [OF assms(2)])
  show "sorted_wrt newer_first (mr_sessions resp)" unfolding shown by (rule monitor_sorted)
  let ?shown = "\<lambda>v. (mv_pty_session_id v, mv_current_session_uuid v, mv_repo v, mv_label v, mv_pty_state v,
          mv_current_session_agent v)"
    and ?row = "\<lambda>r. (pr_id r, pr_current_session r, pr_repo r, pr_label r, pr_state r, pr_current_agent r)"
  have entries: "map ?shown views = map ?row (sort_key ?pos rows)"
    using views
  proof (induction rule: list_all2_induct)
    case (Cons r rs v vs)
    then show ?case using view_fields [OF Cons(1)] by simp
  qed simp
  have "mset (map ?shown (mr_sessions resp)) = mset (map ?shown views)"
    by (simp only: shown mset_map mset_sort_monitor)
  also have "\<dots> = mset (map ?row rows)" by (simp only: entries) (simp only: mset_map mset_sort)
  finally have "mset (map ?shown (mr_sessions resp)) = mset (map ?row rows)" .
  moreover have "rows = filter (\<lambda>r. pr_id r \<in> set (mq_session_ids q) \<and> pr_state r \<noteq> ''deleted'') (tv_rows S)"
    using rows by (auto simp: load_monitor_session_rows_def read_or_def split: if_splits)
  ultimately show "mset (map ?shown (mr_sessions resp))
      = mset (map ?row (filter (\<lambda>r. pr_id r \<in> set (mq_session_ids q) \<and> pr_state r \<noteq> ''deleted'') (tv_rows S)))"
    by simp
  fix v
  assume "v \<in> set (mr_sessions resp)"
  then have "v \<in> set views" unfolding shown by (metis mset_sort_monitor set_mset_mset)
  with views obtain r where r: "monitor_view_of S ?f r = Inr v" by (auto simp: list_all2_conv_all_nth in_set_conv_nth)
  note fields = view_fields [OF r]
  show "case mv_current_session_uuid v of
           None \<Rightarrow> mv_total_event_count v = 0 \<and> mv_turn v = None
         | Some u \<Rightarrow>
             (case load_timeline_response (tv_reader S) (tv_pd S) u ?f of
                Inl _ \<Rightarrow> True
              | Inr whole \<Rightarrow> mv_total_event_count v = tl_total_event_count whole
                  \<and> mv_turn v = last_annotated S u (tl_turns whole))"
  proof (cases "pr_current_session r")
    case None
    with fields show ?thesis by (simp add: latest_turn_def)
  next
    case (Some u)
    with fields latest_is_last [OF assms(1), of ?f u] show ?thesis by (auto split: sum.split)
  qed
qed

text \<open>Three terminals: one whose session has two turns, one without a session, and a deleted one.\<close>

definition monitored_row :: "uuid \<Rightarrow> uuid option \<Rightarrow> string \<Rightarrow> pty_row" where
  "monitored_row i session state = \<lparr>pr_id = i, pr_repo = ''p'', pr_working_dir = ''/r/p'', pr_workspace_id = None,
     pr_state = state, pr_created_at = 0, pr_ended_at = None, pr_exit_code = None, pr_current_session = session,
     pr_current_agent = None, pr_current_claude = None, pr_label = None, pr_pinned = False, pr_color = None,
     pr_runtime = \<lparr>ag_agent = None, ag_state = ''none'', ag_started_at = None, ag_ended_at = None, ag_exit_code = None\<rparr>\<rparr>"

definition sample_store :: timeline_store where
  "sample_store = \<lparr>tv_reader = sample_reader, tv_ingest = sample_ingest, tv_started = (\<lambda>_. 0),
     tv_db = empty_db\<lparr>sessions := [1 \<mapsto> \<lparr>cs_agent = ''codex'', cs_project_hash = None, cs_pty_session_id = Some 5,
       cs_parent_session_uuid = None\<rparr>]\<rparr>,
     tv_pd = projected_db first_rows,
     tv_rows = [monitored_row 6 None ''live'', monitored_row 5 (Some 1) ''live'', monitored_row 7 None ''deleted''],
     tv_is_dir = (\<lambda>_. True), tv_fails = (\<lambda>_. False), tv_now = 9\<rparr>"

definition sample_monitor :: monitor_request where
  "sample_monitor = \<lparr>mq_session_ids = [7, 6, 5], mq_hidden_speakers = [], mq_hidden_operation_categories = [''other''],
     mq_errors_only = False, mq_show_bookkeeping = False, mq_show_sidechain = False, mq_file_path = []\<rparr>"

lemma sample_monitored:
  "case monitor_timeline sample_store sample_monitor of
     Inr resp \<Rightarrow> map (\<lambda>v. (mv_pty_session_id v, map_option t_id (mv_turn v))) (mr_sessions resp)
       = [(5, Some 20), (6, None)]
   | Inl _ \<Rightarrow> False"
  by code_simp

theorem monitor_shows_latest_witness:
  "\<exists>resp. monitor_timeline sample_store sample_monitor = Inr resp
     \<and> map (\<lambda>v. (mv_pty_session_id v, map_option t_id (mv_turn v))) (mr_sessions resp) = [(5, Some 20), (6, None)]
     \<and> sorted_wrt newer_first (mr_sessions resp)"
proof -
  obtain resp where resp: "monitor_timeline sample_store sample_monitor = Inr resp"
      "map (\<lambda>v. (mv_pty_session_id v, map_option t_id (mv_turn v))) (mr_sessions resp) = [(5, Some 20), (6, None)]"
    using sample_monitored by (auto split: sum.splits)
  have "unique_keys (tv_pd sample_store)" using sample_views(1) by (simp add: sample_store_def)
  from monitor_shows_latest [OF this resp(1), THEN conjunct2, THEN conjunct1] resp show ?thesis
    by (intro exI [of _ resp] conjI)
qed

section \<open>Repositories\<close>

text \<open>A turn is shown under a repository only when its session is among those of its summary.\<close>

lemma repo_turn_listed:
  assumes "repo_timeline_turn S name u i q = Inr resp" and "u \<in> set (pd_sessions (tv_pd S))"
  shows "\<exists>m \<in> set (repo_sessions (tv_started S) (tv_db S) (tv_pd S) (tv_rows S) name). sm_session_uuid m = u"
proof -
  obtain s r where s: "sessions (tv_db S) u = Some s" "session_pty (tv_rows S) s = Some r" "pr_repo r = name"
    using assms(1)
    by (auto simp: repo_timeline_turn_def ensure_session_belongs_to_repo_def res_bind_eq_Inr bind_eq_Some_conv
        split: option.splits if_splits)
  have "meta_of (tv_rows S) u s \<in> set (repo_sessions (tv_started S) (tv_db S) (tv_pd S) (tv_rows S) name)"
    using s assms(2) by (force simp: repo_sessions_def List.map_filter_def)
  then show ?thesis by (rule bexI [rotated]) (simp add: meta_of_def)
qed

end
