(* ===== verification/App_State_Props.thy ===== *)
theory App_State_Props
  imports App_State Timeline_Route_Props Repo_Safety
begin

text \<open>
  What the polled state shows: every terminal that is not deleted, pinned ones first, and for a
  repository the sum of the revisions of the terminals shown. That sum is no version number: it
  can be the same again after changes.
\<close>

definition listed_before_session :: "app_session_view \<Rightarrow> app_session_view \<Rightarrow> bool" where
  "listed_before_session a b \<longleftrightarrow>
     (pr_pinned (av_row b) \<longrightarrow> pr_pinned (av_row a))
     \<and> (pr_pinned (av_row a) = pr_pinned (av_row b) \<longrightarrow> pr_created_at (av_row b) \<le> pr_created_at (av_row a))"

lemma app_session_row [simp]: "av_row (app_session_of T r) = r" "av_timeline_revision (app_session_of T r) = current_revision T r"
  by (simp_all add: app_session_of_def)

lemma app_sessions_listed:
  assumes "load_app_sessions E T = Inr vs"
  shows "mset (map av_row vs) = mset (app_rows T)" and "sorted_wrt listed_before_session vs"
    and "\<And>v. v \<in> set vs \<Longrightarrow> v = app_session_of T (av_row v)"
proof -
  let ?rows = "sort_key (\<lambda>r. \<not> pr_pinned r) (sort_key (\<lambda>r. - pr_created_at r) (app_rows T))"
  have vs: "vs = map (app_session_of T) ?rows" using assms by (simp add: load_app_sessions_def split: if_splits)
  show "mset (map av_row vs) = mset (app_rows T)" unfolding vs by (simp add: o_def)
  note by_time = sort_key_lex [OF sorted_wrt_any [of "app_rows T"], of "\<lambda>r. - pr_created_at r"]
  show "sorted_wrt listed_before_session vs"
    unfolding vs sorted_wrt_map
    by (rule sorted_wrt_mono_rel [OF _ sort_key_lex [OF by_time, of "\<lambda>r. \<not> pr_pinned r"]])
      (auto simp: listed_before_session_def)
  show "v = app_session_of T (av_row v)" if "v \<in> set vs" for v using that unfolding vs by auto
qed

lemma app_repos_views:
  "app_repos_of E revisions rs = Inr vs \<Longrightarrow>
     map ap_name vs = map rr_name rs \<and> map (\<lambda>p. (ap_name p, ap_path p)) vs = map (\<lambda>r. (rr_name r, rr_path r)) rs
     \<and> (\<forall>v \<in> set vs. ap_timeline_revision v = unwrap_or 0 (revisions (ap_name v)))"
  by (induction rs arbitrary: vs) (auto simp: res_bind_eq_Inr app_repo_of_def)

lemma revision_sum:
  assumes "load_app_sessions E T = Inr vs"
  shows "unwrap_or 0 (repo_timeline_revision T repo)
    = sum_list (map av_timeline_revision (filter (\<lambda>v. pr_repo (av_row v) = repo) vs))"
proof -
  note listed = app_sessions_listed [OF assms]
  have "map av_timeline_revision (filter (\<lambda>v. pr_repo (av_row v) = repo) vs)
      = map (current_revision T) (filter (\<lambda>r. pr_repo r = repo) (map av_row vs))"
    unfolding filter_map map_map o_def using listed(3) by (auto intro!: map_cong) (metis app_session_row(2))
  then have "sum_list (map av_timeline_revision (filter (\<lambda>v. pr_repo (av_row v) = repo) vs))
      = sum_mset (image_mset (current_revision T) (filter_mset (\<lambda>r. pr_repo r = repo) (mset (map av_row vs))))"
    by (simp only: sum_mset_sum_list [symmetric] mset_map mset_filter)
  also have "\<dots> = sum_list (map (current_revision T) (filter (\<lambda>r. pr_repo r = repo) (app_rows T)))"
    unfolding listed(1) by (simp only: sum_mset_sum_list [symmetric] mset_map mset_filter)
  finally show ?thesis by (simp add: repo_timeline_revision_def Let_def)
qed

text \<open>
  C40. An answer lists every terminal that is not deleted once, pinned before others and newer
  before older, each with the revision of its current session, 0 without one; every repository that
  still exists once, in the order of the database's collation of their names, with its path and the sum
  of the revisions of its listed terminals; and the resource sample is the cached one, or a new one
  that is cached from then on. Deleted terminals and repositories that are gone are left out.
\<close>
theorem app_state_lists:
  assumes "app_state E T cache = (Inr resp, cache')"
  shows "mset (map av_row (ar_sessions resp)) = mset (filter (\<lambda>r. pr_state r \<noteq> ''deleted'') (at_rows T))
    \<and> sorted_wrt listed_before_session (ar_sessions resp)
    \<and> (\<forall>v \<in> set (ar_sessions resp). av_timeline_revision v = (case pr_current_session (av_row v) of
          None \<Rightarrow> 0 | Some u \<Rightarrow> (case pd_states (at_pd T) u of None \<Rightarrow> 0 | Some s \<Rightarrow> ss_revision s)))
    \<and> mset (map (\<lambda>p. (ap_name p, ap_path p)) (ar_repos resp))
        = mset (map (\<lambda>r. (rr_name r, rr_path r)) (filter rr_exists (rd_rows (at_repos T))))
    \<and> sorted (map (\<lambda>p. we_collate (ae_ws E) (ap_name p)) (ar_repos resp))
    \<and> list_all (\<lambda>p. ap_timeline_revision p
         = sum_list (map av_timeline_revision (filter (\<lambda>v. pr_repo (av_row v) = ap_name p) (ar_sessions resp))))
        (ar_repos resp)
    \<and> cache' = Some (ar_stats resp) \<and> cache \<in> {None, cache'}"
proof -
  obtain vs ps ws where load: "load_app_sessions E T = Inr vs"
    and repos: "load_app_repos E T (repo_timeline_revision T) = Inr ps"
    and stats: "current_stats E T cache = (Inr (ar_stats resp), cache')"
    and resp: "ar_sessions resp = vs" "ar_repos resp = ps"
    using assms
    by (auto simp: app_state_def load_repo_timeline_revisions_def res_bind_eq_Inr split: sum.splits prod.splits if_splits)
  let ?rows = "sort_key (we_collate (ae_ws E) \<circ> rr_name) (filter rr_exists (rd_rows (at_repos T)))"
  have ps: "app_repos_of E (repo_timeline_revision T) ?rows = Inr ps"
    using repos by (simp add: load_app_repos_def split: if_splits)
  note views = app_repos_views [OF ps]
  have "mset (map (\<lambda>p. (ap_name p, ap_path p)) ps)
      = mset (map (\<lambda>r. (rr_name r, rr_path r)) (filter rr_exists (rd_rows (at_repos T))))"
    using views by (simp only: mset_map mset_sort)
  moreover have "sorted (map (\<lambda>p. we_collate (ae_ws E) (ap_name p)) ps)"
  proof -
    have "map (\<lambda>p. we_collate (ae_ws E) (ap_name p)) ps = map (we_collate (ae_ws E)) (map ap_name ps)" by simp
    also have "\<dots> = map (we_collate (ae_ws E) \<circ> rr_name) ?rows" using views by (simp only: map_map)
    finally show ?thesis by (simp only: sorted_sort_key)
  qed
  moreover have "av_timeline_revision v = (case pr_current_session (av_row v) of
          None \<Rightarrow> 0 | Some u \<Rightarrow> (case pd_states (at_pd T) u of None \<Rightarrow> 0 | Some s \<Rightarrow> ss_revision s))" if "v \<in> set vs" for v
  proof -
    have "av_timeline_revision v = current_revision T (av_row v)"
      using app_sessions_listed(3) [OF load that] by (metis app_session_row(2))
    then show ?thesis by (simp add: current_revision_def current_state_def split: option.split)
  qed
  moreover have "list_all (\<lambda>p. ap_timeline_revision p
      = sum_list (map av_timeline_revision (filter (\<lambda>v. pr_repo (av_row v) = ap_name p) vs))) ps"
    using views by (simp add: list_all_iff revision_sum [OF load])
  moreover have "cache' = Some (ar_stats resp) \<and> cache \<in> {None, cache'}"
    using stats by (auto simp: current_stats_def sample_stats_once_def split: option.splits sum.splits prod.splits)
  ultimately show ?thesis
    using app_sessions_listed(1,2) [OF load] unfolding resp app_rows_def by blast
qed

section \<open>Samples\<close>

definition sample_process_env :: stats_env where
  "sample_process_env = \<lparr>sn_uptime = 1, sn_process = None, sn_memory_max = Some ''max'', sn_live = 2, sn_db_size = Some 1,
     sn_now = 9, sn_last_tick = None, sn_last_progress = None, sn_inserted = 0, sn_errors = 0, sn_known_sessions = 2,
     sn_tracked_files = 0\<rparr>"

definition sample_app_env :: app_env where
  "sample_app_env = \<lparr>ae_ws = \<lparr>we_host = sample_git, we_now = 0, we_repos_root = ''/r'', we_workspaces_root = ''/w'',
       we_new_id = 7, we_hyphenated = (\<lambda>_. ''7''), we_simple = (\<lambda>_. ''7''), we_debug = (\<lambda>_. []),
       we_mkdir_fails = (\<lambda>_. False), we_fails = (\<lambda>_. False), we_collate = (\<lambda>s. s)\<rparr>,
     ae_stats = sample_process_env, ae_show_time = (\<lambda>_. []), ae_now = 9, ae_fails = (\<lambda>_. False)\<rparr>"

definition revised :: "int \<Rightarrow> session_state" where
  "revised n = \<lparr>ss_revision = n, ss_total_event_count = n, ss_turn_count = 1, ss_latest_turn_id = None, ss_latest_event_at = None\<rparr>"

text \<open>Two terminals of a repository, with the revisions of their sessions.\<close>

definition two_terminals :: "string \<Rightarrow> int \<Rightarrow> app_tables" where
  "two_terminals state n = \<lparr>at_rows = [(monitored_row 5 (Some 1) ''live'')\<lparr>pr_repo := ''r''\<rparr>,
       (monitored_row 6 (Some 2) state)\<lparr>pr_repo := ''r''\<rparr>],
     at_ws = \<lparr>wd_rows = [], wd_dirty = [], wd_ptys = []\<rparr>, at_repos = sample_repo_db,
     at_pd = (projected_db first_rows)\<lparr>pd_states := [1 \<mapsto> revised n, 2 \<mapsto> revised 1]\<rparr>, at_db = empty_db,
     at_counts = [], at_metadata_updated = (\<lambda>_. 0)\<rparr>"

lemma sample_app_state:
  "case app_state sample_app_env (two_terminals ''live'' 3) None of
     (Inr resp, _) \<Rightarrow> map ap_timeline_revision (ar_repos resp) = [4] \<and> length (ar_sessions resp) = 2
   | _ \<Rightarrow> False"
  by code_simp

theorem app_state_lists_witness:
  "\<exists>resp cache'. app_state sample_app_env (two_terminals ''live'' 3) None = (Inr resp, cache')
     \<and> map ap_timeline_revision (ar_repos resp) = [4] \<and> cache' = Some (ar_stats resp)"
proof -
  obtain resp cache' where resp: "app_state sample_app_env (two_terminals ''live'' 3) None = (Inr resp, cache')"
      "map ap_timeline_revision (ar_repos resp) = [4]"
    using sample_app_state by (auto split: prod.splits sum.splits)
  show ?thesis by (intro exI [of _ resp] exI [of _ cache'] conjI resp app_state_lists [OF resp(1), THEN conjunct2,
        THEN conjunct2, THEN conjunct2, THEN conjunct2, THEN conjunct2, THEN conjunct2, THEN conjunct1])
qed

text \<open>
  The revision of a repository is the same after one terminal is deleted and the timeline of
  another went on: an interface that reloads when the number changes does not see it.
\<close>

lemma revision_repeats:
  "repo_timeline_revision (two_terminals ''live'' 3) ''r'' = repo_timeline_revision (two_terminals ''deleted'' 4) ''r''"
  "current_revision (two_terminals ''live'' 3) (hd (at_rows (two_terminals ''live'' 3)))
     < current_revision (two_terminals ''deleted'' 4) (hd (at_rows (two_terminals ''deleted'' 4)))"
  by code_simp+

end
