(* ===== verification/Attach.thy ===== *)
theory Attach
  imports Prelude "HOL-Library.Sublist"
begin

text \<open>
  A client attached to a terminal (\<^verbatim>\<open>backend/src/api/ws.rs\<close>, with the reader task of \<^verbatim>\<open>pty.rs\<close>
  and \<^verbatim>\<open>emulator.rs\<close>): it is sent the screen, then what the terminal prints. What happens between
  two awaits of the handler and its two tasks is one event; events of the terminal come in
  between. Parameters are the screen after some output (\<open>vt100\<close>) and the parsing of a message.
\<close>

section \<open>State\<close>

datatype frame = Binary string | Ready | Dead "int option" | CloseFrame

text \<open>Who holds a sender of the output channel: it is closed when nobody does.\<close>

datatype holder = ReaderTask | Manager | Handler

text \<open>
  Where the handler and then its outbound task are: before the snapshot, with the snapshot
  taken after some chunks, with it sent, with \<open>Ready\<close> sent, and forwarding from a chunk on.
\<close>

datatype attach_phase = Attaching | Snapped string | Greeting | Greeted | Forwarding nat | Finished

datatype client_msg = ClientInput string | ClientResize nat nat | ClientPing

datatype inbound = TextFrame string | BinaryFrame string | CloseMessage | PingOrPong

record attach_env =
  wx_screen :: "string list \<Rightarrow> string"
  wx_parse :: "string \<Rightarrow> client_msg option"
  wx_capacity :: nat

record attach =
  wa_output :: "string list"
  wa_holders :: "holder set"
  wa_phase :: attach_phase
  wa_inbound :: bool
  wa_sent :: "frame list"
  wa_input :: "string list"
  wa_resizes :: "(nat \<times> nat) list"

definition BROADCAST_CAPACITY :: nat where
  "BROADCAST_CAPACITY = 4096"

text \<open>\<open>attach\<close>: the terminal is looked up, the handler holds it from here on.\<close>

definition attached :: "string list \<Rightarrow> attach" where
  "attached output =
     \<lparr>wa_output = output, wa_holders = {ReaderTask, Manager, Handler}, wa_phase = Attaching, wa_inbound = False,
      wa_sent = [], wa_input = [], wa_resizes = []\<rparr>"

section \<open>The handler and the outbound task\<close>

definition wa_send :: "frame list \<Rightarrow> attach \<Rightarrow> attach" where
  "wa_send fs s = s\<lparr>wa_sent := wa_sent s @ fs\<rparr>"

text \<open>The handler returns when either task ends, and lets go of the terminal; the other task goes on.\<close>

definition handler_returns :: "attach \<Rightarrow> attach" where
  "handler_returns s = s\<lparr>wa_holders := wa_holders s - {Handler}\<rparr>"

definition outbound_ends :: "attach \<Rightarrow> attach" where
  "outbound_ends s = handler_returns (s\<lparr>wa_phase := Finished\<rparr>)"

text \<open>One reception of the outbound task; \<open>ok\<close> says whether the socket takes what is sent.\<close>

definition outbound_recv :: "attach_env \<Rightarrow> bool \<Rightarrow> nat \<Rightarrow> attach \<Rightarrow> attach" where
  "outbound_recv V ok n s =
     (let printed = length (wa_output s)
      in if n < printed then
           (if printed - n > wx_capacity V then s\<lparr>wa_phase := Forwarding (printed - wx_capacity V)\<rparr>
            else if ok then wa_send [Binary (wa_output s ! n)] (s\<lparr>wa_phase := Forwarding (Suc n)\<rparr>)
            else outbound_ends s)
         else if wa_holders s = {}
         then outbound_ends (wa_send (if ok then [Dead None, CloseFrame] else []) s)
         else s)"

definition handler_step :: "attach_env \<Rightarrow> bool \<Rightarrow> attach \<Rightarrow> attach" where
  "handler_step V ok s =
     (case wa_phase s of
        Attaching \<Rightarrow> s\<lparr>wa_phase := Snapped (wx_screen V (wa_output s))\<rparr>
      | Snapped snapshot \<Rightarrow>
          if snapshot = [] then s\<lparr>wa_phase := Greeting\<rparr>
          else if ok then wa_send [Binary snapshot] (s\<lparr>wa_phase := Greeting\<rparr>)
          else outbound_ends s
      | Greeting \<Rightarrow> wa_send (if ok then [Ready] else []) (s\<lparr>wa_phase := Greeted\<rparr>)
      | Greeted \<Rightarrow> s\<lparr>wa_phase := Forwarding (length (wa_output s)), wa_inbound := True\<rparr>
      | Forwarding n \<Rightarrow> outbound_recv V ok n s
      | Finished \<Rightarrow> s)"

section \<open>The inbound task\<close>

definition inbound_ends :: "attach \<Rightarrow> attach" where
  "inbound_ends s = handler_returns (s\<lparr>wa_inbound := False\<rparr>)"

definition send_input_chunk :: "bool \<Rightarrow> string \<Rightarrow> attach \<Rightarrow> attach" where
  "send_input_chunk ok data s = (if ok then s\<lparr>wa_input := wa_input s @ [data]\<rparr> else inbound_ends s)"

definition inbound_step :: "attach_env \<Rightarrow> bool \<Rightarrow> inbound \<Rightarrow> attach \<Rightarrow> attach" where
  "inbound_step V ok m s =
     (if \<not> wa_inbound s then s
      else case m of
        TextFrame text \<Rightarrow>
          (case wx_parse V text of
             Some (ClientInput data) \<Rightarrow> send_input_chunk ok data s
           | Some (ClientResize cols rows) \<Rightarrow> s\<lparr>wa_resizes := wa_resizes s @ (if ok then [(cols, rows)] else [])\<rparr>
           | Some ClientPing \<Rightarrow> s
           | None \<Rightarrow> s)
      | BinaryFrame bytes \<Rightarrow> send_input_chunk ok bytes s
      | CloseMessage \<Rightarrow> inbound_ends s
      | PingOrPong \<Rightarrow> s)"

section \<open>Events\<close>

text \<open>
  The reader prints a chunk (the emulator is fed and the chunk broadcast) or ends; the manager
  forgets the terminal; the handler or the outbound task goes a step; a message of the client
  or its end (\<open>None\<close>); the hook of the tests closes the socket.
\<close>

datatype attach_event =
  Prints string
| ReaderEnds
| Forgotten
| HandlerGoes bool
| Receives "inbound option" bool
| TestDrop bool

fun attach_step :: "attach_env \<Rightarrow> attach \<Rightarrow> attach_event \<Rightarrow> attach" where
  "attach_step V s (Prints chunk) =
     (if ReaderTask \<in> wa_holders s then s\<lparr>wa_output := wa_output s @ [chunk]\<rparr> else s)"
| "attach_step V s ReaderEnds = s\<lparr>wa_holders := wa_holders s - {ReaderTask}\<rparr>"
| "attach_step V s Forgotten = s\<lparr>wa_holders := wa_holders s - {Manager}\<rparr>"
| "attach_step V s (HandlerGoes ok) = handler_step V ok s"
| "attach_step V s (Receives m ok) =
     (case m of
        None \<Rightarrow> if wa_inbound s then inbound_ends s else s
      | Some msg \<Rightarrow> inbound_step V ok msg s)"
| "attach_step V s (TestDrop ok) =
     (case wa_phase s of
        Forwarding n \<Rightarrow> outbound_ends (wa_send (if ok then [CloseFrame] else []) s)
      | _ \<Rightarrow> s)"

section \<open>What the client sees\<close>

text \<open>The frames of a screen, if any.\<close>

definition screen_frames :: "string \<Rightarrow> frame list" where
  "screen_frames screen = (if screen = [] then [] else [Binary screen])"

text \<open>
  Forwarding at chunk \<open>n\<close>: the client has the screen after \<open>i\<close> chunks and then chunks from \<open>j\<close> on,
  which is not before \<open>i\<close>, all of them as long as the channel never overflows.
\<close>

definition forwarded_from :: "attach_env \<Rightarrow> nat \<Rightarrow> attach \<Rightarrow> nat \<Rightarrow> bool" where
  "forwarded_from V j s n \<longleftrightarrow>
     (\<exists>i greeting chunks. i \<le> j \<and> j \<le> n \<and> n \<le> length (wa_output s)
        \<and> greeting \<in> {[], [Ready]}
        \<and> wa_sent s = screen_frames (wx_screen V (take i (wa_output s))) @ greeting @ map Binary chunks
        \<and> (if length (wa_output s) \<le> wx_capacity V then chunks = drop j (take n (wa_output s))
           else subseq chunks (drop j (take n (wa_output s)))))"

definition forwarded :: "attach_env \<Rightarrow> attach \<Rightarrow> nat \<Rightarrow> bool" where
  "forwarded V s n \<longleftrightarrow> (\<exists>j. forwarded_from V j s n)"

definition screen_at :: "attach_env \<Rightarrow> attach \<Rightarrow> string \<Rightarrow> bool" where
  "screen_at V s screen \<longleftrightarrow> (\<exists>i \<le> length (wa_output s). screen = wx_screen V (take i (wa_output s)))"

text \<open>Before the tasks start the handler holds the terminal, and as long as both of them run.\<close>

definition starting :: "attach \<Rightarrow> bool" where
  "starting s \<longleftrightarrow> \<not> wa_inbound s \<and> Handler \<in> wa_holders s"

definition attach_ok :: "attach_env \<Rightarrow> attach \<Rightarrow> bool" where
  "attach_ok V s \<longleftrightarrow>
     (case wa_phase s of
        Attaching \<Rightarrow> starting s \<and> wa_sent s = []
      | Snapped screen \<Rightarrow> starting s \<and> wa_sent s = [] \<and> screen_at V s screen
      | Greeting \<Rightarrow> starting s \<and> (\<exists>screen. screen_at V s screen \<and> wa_sent s = screen_frames screen)
      | Greeted \<Rightarrow> starting s
          \<and> (\<exists>screen. screen_at V s screen \<and> wa_sent s \<in> {screen_frames screen, screen_frames screen @ [Ready]})
      | Forwarding n \<Rightarrow> forwarded V s n \<and> (wa_inbound s \<longrightarrow> Handler \<in> wa_holders s)
      | Finished \<Rightarrow> (wa_inbound s \<longrightarrow> set (wa_sent s) \<inter> range Dead = {}))"

lemma forwarded_no_dead: "forwarded V s n \<Longrightarrow> set (wa_sent s) \<inter> range Dead = {}"
  by (auto simp: forwarded_def forwarded_from_def screen_frames_def split: if_splits)

lemma forwarded_from_updates [simp]:
  "forwarded_from V j (s\<lparr>wa_holders := h\<rparr>) n = forwarded_from V j s n"
  "forwarded_from V j (s\<lparr>wa_inbound := b\<rparr>) n = forwarded_from V j s n"
  "forwarded_from V j (s\<lparr>wa_phase := p\<rparr>) n = forwarded_from V j s n"
  "forwarded_from V j (s\<lparr>wa_input := x\<rparr>) n = forwarded_from V j s n"
  "forwarded_from V j (s\<lparr>wa_resizes := y\<rparr>) n = forwarded_from V j s n"
  by (simp_all add: forwarded_from_def)

lemma forwarded_updates [simp]:
  "forwarded V (s\<lparr>wa_holders := h\<rparr>) n = forwarded V s n" "forwarded V (s\<lparr>wa_inbound := b\<rparr>) n = forwarded V s n"
  "forwarded V (s\<lparr>wa_phase := p\<rparr>) n = forwarded V s n" "forwarded V (s\<lparr>wa_input := x\<rparr>) n = forwarded V s n"
  "forwarded V (s\<lparr>wa_resizes := y\<rparr>) n = forwarded V s n"
  by (simp_all add: forwarded_def)

lemma screen_at_updates [simp]:
  "screen_at V (s\<lparr>wa_holders := h\<rparr>) c = screen_at V s c" "screen_at V (s\<lparr>wa_inbound := b\<rparr>) c = screen_at V s c"
  "screen_at V (s\<lparr>wa_phase := p\<rparr>) c = screen_at V s c" "screen_at V (s\<lparr>wa_input := x\<rparr>) c = screen_at V s c"
  "screen_at V (s\<lparr>wa_resizes := y\<rparr>) c = screen_at V s c" "screen_at V (s\<lparr>wa_sent := z\<rparr>) c = screen_at V s c"
  by (simp_all add: screen_at_def)

lemma screen_at_now: "screen_at V s (wx_screen V (wa_output s))"
  unfolding screen_at_def by (intro exI [of _ "length (wa_output s)"]) simp

lemma screen_at_prints: "screen_at V s c \<Longrightarrow> screen_at V (s\<lparr>wa_output := wa_output s @ [d]\<rparr>) c"
  unfolding screen_at_def by (elim exE conjE, rule_tac x = i in exI) simp

lemma forwardedI:
  assumes "i \<le> j" and "j \<le> n" and "n \<le> length (wa_output s)" and "greeting \<in> {[], [Ready]}"
    and "wa_sent s = screen_frames (wx_screen V (take i (wa_output s))) @ greeting @ map Binary chunks"
    and "if length (wa_output s) \<le> wx_capacity V then chunks = drop j (take n (wa_output s))
       else subseq chunks (drop j (take n (wa_output s)))"
  shows "forwarded_from V j s n"
  unfolding forwarded_from_def using assms by blast

lemma subseq_drop_more: "subseq xs (drop j (take n out)) \<Longrightarrow> n \<le> m \<Longrightarrow> subseq xs (drop j (take m out))"
proof -
  assume a: "subseq xs (drop j (take n out))" "n \<le> m"
  have "take m out = take n out @ drop n (take m out)" using a(2) by (metis append_take_drop_id min.absorb1 take_take)
  then have "\<exists>ys. drop j (take m out) = drop j (take n out) @ ys" by (metis drop_append)
  then show ?thesis using a(1) by (auto intro: subseq_rev_drop_many)
qed

lemma forwarded_from_prints:
  assumes "forwarded_from V j s n"
  shows "forwarded_from V j (s\<lparr>wa_output := wa_output s @ [c]\<rparr>) n"
proof -
  obtain i greeting chunks where f: "i \<le> j" "j \<le> n" "n \<le> length (wa_output s)" "greeting \<in> {[], [Ready]}"
      "wa_sent s = screen_frames (wx_screen V (take i (wa_output s))) @ greeting @ map Binary chunks"
      "if length (wa_output s) \<le> wx_capacity V then chunks = drop j (take n (wa_output s))
       else subseq chunks (drop j (take n (wa_output s)))"
    using assms unfolding forwarded_from_def by blast
  from f(6) have "if Suc (length (wa_output s)) \<le> wx_capacity V then chunks = drop j (take n (wa_output s))
      else subseq chunks (drop j (take n (wa_output s)))"
    by (auto split: if_splits)
  with f(3) have "if length (wa_output s @ [c]) \<le> wx_capacity V then chunks = drop j (take n (wa_output s @ [c]))
      else subseq chunks (drop j (take n (wa_output s @ [c])))"
    by (auto split: if_splits)
  with f(1-5) show ?thesis
    by (intro forwardedI [of i j n _ greeting V chunks]) (simp_all cong: if_cong split del: if_split)
qed

lemma forwarded_from_chunk:
  assumes "forwarded_from V j s n" and "n < length (wa_output s)"
  shows "forwarded_from V j (wa_send [Binary (wa_output s ! n)] (s\<lparr>wa_phase := p\<rparr>)) (Suc n)"
proof -
  obtain i greeting chunks where f: "i \<le> j" "j \<le> n" "n \<le> length (wa_output s)" "greeting \<in> {[], [Ready]}"
      "wa_sent s = screen_frames (wx_screen V (take i (wa_output s))) @ greeting @ map Binary chunks"
      "if length (wa_output s) \<le> wx_capacity V then chunks = drop j (take n (wa_output s))
       else subseq chunks (drop j (take n (wa_output s)))"
    using assms(1) unfolding forwarded_from_def by blast
  have "drop j (take (Suc n) (wa_output s)) = drop j (take n (wa_output s)) @ [wa_output s ! n]"
    using assms(2) f(2) by (simp add: take_Suc_conv_app_nth)
  with f(6) have "if length (wa_output s) \<le> wx_capacity V
      then chunks @ [wa_output s ! n] = drop j (take (Suc n) (wa_output s))
      else subseq (chunks @ [wa_output s ! n]) (drop j (take (Suc n) (wa_output s)))"
    by (auto split: if_splits)
  then show ?thesis using f(1-5) assms(2)
    by (intro forwardedI [of i j "Suc n" _ greeting V "chunks @ [wa_output s ! n]"]) (simp_all add: wa_send_def)
qed

lemma forwarded_from_lag:
  assumes "forwarded_from V j s n" and "length (wa_output s) - n > wx_capacity V"
  shows "forwarded_from V j (s\<lparr>wa_phase := p\<rparr>) (length (wa_output s) - wx_capacity V)"
proof -
  obtain i greeting chunks where f: "i \<le> j" "j \<le> n" "n \<le> length (wa_output s)" "greeting \<in> {[], [Ready]}"
      "wa_sent s = screen_frames (wx_screen V (take i (wa_output s))) @ greeting @ map Binary chunks"
      "if length (wa_output s) \<le> wx_capacity V then chunks = drop j (take n (wa_output s))
       else subseq chunks (drop j (take n (wa_output s)))"
    using assms(1) unfolding forwarded_from_def by blast
  have more: "n \<le> length (wa_output s) - wx_capacity V" "\<not> length (wa_output s) \<le> wx_capacity V" using assms(2) by auto
  with f(6) have "subseq chunks (drop j (take (length (wa_output s) - wx_capacity V) (wa_output s)))"
    by (simp add: subseq_drop_more)
  then show ?thesis using f(1-5) more
    by (intro forwardedI [of i j _ _ greeting V chunks]) simp_all
qed

lemma forwarded_prints: "forwarded V s n \<Longrightarrow> forwarded V (s\<lparr>wa_output := wa_output s @ [c]\<rparr>) n"
  unfolding forwarded_def using forwarded_from_prints by blast

lemma forwarded_chunk:
  "forwarded V s n \<Longrightarrow> n < length (wa_output s) \<Longrightarrow> forwarded V (wa_send [Binary (wa_output s ! n)] (s\<lparr>wa_phase := p\<rparr>)) (Suc n)"
  unfolding forwarded_def using forwarded_from_chunk by blast

lemma forwarded_lag:
  "forwarded V s n \<Longrightarrow> length (wa_output s) - n > wx_capacity V \<Longrightarrow>
     forwarded V (s\<lparr>wa_phase := p\<rparr>) (length (wa_output s) - wx_capacity V)"
  unfolding forwarded_def using forwarded_from_lag by blast

section \<open>The invariant\<close>

lemma attach_ok_prints: "attach_ok V s \<Longrightarrow> attach_ok V (s\<lparr>wa_output := wa_output s @ [c]\<rparr>)"
  by (cases "wa_phase s") (auto simp: attach_ok_def starting_def forwarded_prints dest: screen_at_prints)

lemma attach_ok_holders:
  "attach_ok V s \<Longrightarrow> (Handler \<in> wa_holders s \<longrightarrow> Handler \<in> hs) \<Longrightarrow> attach_ok V (s\<lparr>wa_holders := hs\<rparr>)"
  by (cases "wa_phase s") (auto simp: attach_ok_def starting_def)

lemma attach_ok_inbound_ends: "attach_ok V s \<Longrightarrow> wa_inbound s \<Longrightarrow> attach_ok V (inbound_ends s)"
  by (cases "wa_phase s") (auto simp: attach_ok_def starting_def inbound_ends_def handler_returns_def)

lemma attach_ok_read:
  "attach_ok V s \<Longrightarrow> attach_ok V (s\<lparr>wa_input := x\<rparr>)" "attach_ok V s \<Longrightarrow> attach_ok V (s\<lparr>wa_resizes := y\<rparr>)"
  by (cases "wa_phase s"; auto simp: attach_ok_def starting_def)+

lemma attach_ok_inbound: "attach_ok V s \<Longrightarrow> attach_ok V (inbound_step V ok m s)"
  by (auto simp: inbound_step_def send_input_chunk_def attach_ok_inbound_ends attach_ok_read
      split: inbound.split option.split client_msg.split)

lemma attach_ok_recv:
  assumes "attach_ok V s" and "wa_phase s = Forwarding n"
  shows "attach_ok V (outbound_recv V ok n s)"
proof -
  have f: "forwarded V s n" and h: "wa_inbound s \<longrightarrow> Handler \<in> wa_holders s"
    using assms by (simp_all add: attach_ok_def)
  show ?thesis
  proof (cases "n < length (wa_output s)")
    case True
    then show ?thesis
      using forwarded_lag [OF f, of "Forwarding (length (wa_output s) - wx_capacity V)"]
        forwarded_chunk [OF f True, of "Forwarding (Suc n)"] forwarded_no_dead [OF f] h
      by (auto simp: outbound_recv_def Let_def attach_ok_def wa_send_def outbound_ends_def handler_returns_def)
  next
    case False
    then show ?thesis
      using assms h by (auto simp: outbound_recv_def Let_def attach_ok_def wa_send_def outbound_ends_def handler_returns_def)
  qed
qed

lemma attach_ok_handler:
  assumes "attach_ok V s"
  shows "attach_ok V (handler_step V ok s)"
proof (cases "wa_phase s")
  case Attaching
  with assms show ?thesis by (simp add: handler_step_def attach_ok_def starting_def screen_at_now)
next
  case (Snapped screen)
  with assms show ?thesis
    by (auto simp: handler_step_def attach_ok_def starting_def wa_send_def outbound_ends_def handler_returns_def
        screen_frames_def intro!: exI [of _ screen])
next
  case Greeting
  with assms show ?thesis by (auto simp: handler_step_def attach_ok_def starting_def wa_send_def)
next
  case Greeted
  then obtain screen where screen: "screen_at V s screen" "wa_sent s \<in> {screen_frames screen, screen_frames screen @ [Ready]}"
    and start: "starting s" using assms by (auto simp: attach_ok_def)
  from screen(2) obtain greeting where greeting: "greeting \<in> {[], [Ready]}" "wa_sent s = screen_frames screen @ greeting"
    by (metis append_Nil2 insert_iff singletonD)
  from screen(1) obtain i where "i \<le> length (wa_output s)" "screen = wx_screen V (take i (wa_output s))"
    by (auto simp: screen_at_def)
  with greeting have "forwarded V s (length (wa_output s))" unfolding forwarded_def
    by (intro exI [of _ "length (wa_output s)"] forwardedI [of i "length (wa_output s)" _ _ greeting V "[]"]) simp_all
  then show ?thesis using Greeted start by (simp add: handler_step_def attach_ok_def starting_def)
next
  case (Forwarding n)
  with attach_ok_recv [OF assms] show ?thesis by (simp add: handler_step_def)
qed (use assms in \<open>simp add: handler_step_def\<close>)

lemma attach_ok_drop:
  assumes "attach_ok V s" and "wa_phase s = Forwarding n" and "fs \<in> {[], [CloseFrame]}"
  shows "attach_ok V (outbound_ends (wa_send fs s))"
  using assms forwarded_no_dead [of V s n]
  by (auto simp: attach_ok_def wa_send_def outbound_ends_def handler_returns_def)

lemma attach_step_ok: "attach_ok V s \<Longrightarrow> attach_ok V (attach_step V s e)"
  by (cases e)
    (simp_all add: attach_ok_prints attach_ok_holders attach_ok_handler attach_ok_inbound attach_ok_inbound_ends attach_ok_drop
      split: option.split attach_phase.split)

interpretation attachment: step_invariant "attach_step V" "attach_ok V" for V
  by unfold_locales (rule attach_step_ok)

lemma attached_ok: "attach_ok V (attached output)"
  by (simp add: attach_ok_def attached_def starting_def)

section \<open>From the subscription on\<close>

text \<open>A client that is being forwarded to subscribed at a step of the handler after the greeting.\<close>

lemma subscribing_step:
  "wa_phase (attach_step V s e) = Forwarding n \<Longrightarrow>
     (\<exists>m. wa_phase s = Forwarding m) \<or> (wa_phase s = Greeted \<and> (\<exists>ok. e = HandlerGoes ok))"
  by (cases e; cases "wa_phase s")
    (auto simp: handler_step_def outbound_recv_def outbound_ends_def handler_returns_def inbound_step_def inbound_ends_def
      send_input_chunk_def wa_send_def Let_def split: if_splits option.splits inbound.splits client_msg.splits)

lemma subscribed_once:
  "wa_phase (foldl (attach_step V) s0 events) = Forwarding n \<Longrightarrow> (\<forall>m. wa_phase s0 \<noteq> Forwarding m) \<Longrightarrow>
     \<exists>before ok later. events = before @ HandlerGoes ok # later \<and> wa_phase (foldl (attach_step V) s0 before) = Greeted"
proof (induction events arbitrary: n rule: rev_induct)
  case (snoc e es)
  let ?s = "foldl (attach_step V) s0 es"
  from snoc.prems(1) have "wa_phase (attach_step V ?s e) = Forwarding n" by simp
  from subscribing_step [OF this] consider m where "wa_phase ?s = Forwarding m"
    | ok where "wa_phase ?s = Greeted" "e = HandlerGoes ok" by blast
  then show ?case
  proof cases
    case 1
    from snoc.IH [OF this snoc.prems(2)] obtain before ok later where
      "es = before @ HandlerGoes ok # later" "wa_phase (foldl (attach_step V) s0 before) = Greeted" by blast
    then show ?thesis by (intro exI [of _ before] exI [of _ ok] exI [of _ "later @ [e]"]) simp
  next
    case 2
    then show ?thesis by (intro exI [of _ es] exI [of _ ok] exI [of _ "[]"]) simp
  qed
qed simp

definition forwards_from :: "attach_env \<Rightarrow> nat \<Rightarrow> attach \<Rightarrow> bool" where
  "forwards_from V j s \<longleftrightarrow>
     (case wa_phase s of Forwarding n \<Rightarrow> forwarded_from V j s n | Finished \<Rightarrow> True | _ \<Rightarrow> False)"

lemma forwards_step:
  assumes "forwards_from V j s"
  shows "forwards_from V j (attach_step V s e)"
proof (cases "wa_phase s")
  case (Forwarding n)
  with assms have f: "forwarded_from V j s n" by (simp add: forwards_from_def)
  show ?thesis
  proof (cases e)
    case (Prints c)
    then show ?thesis using assms Forwarding forwarded_from_prints [OF f] by (simp add: forwards_from_def)
  next
    case (HandlerGoes ok)
    show ?thesis
      using assms Forwarding f forwarded_from_lag [OF f, of "Forwarding (length (wa_output s) - wx_capacity V)"]
        forwarded_from_chunk [OF f, of "Forwarding (Suc n)"]
      by (auto simp: HandlerGoes handler_step_def outbound_recv_def Let_def forwards_from_def outbound_ends_def
          handler_returns_def wa_send_def)
  next
    case (Receives m ok)
    then show ?thesis using Forwarding f
      by (auto simp: forwards_from_def inbound_step_def inbound_ends_def handler_returns_def send_input_chunk_def
          split: option.split inbound.split client_msg.split)
  next
    case (TestDrop ok)
    then show ?thesis using Forwarding by (simp add: forwards_from_def outbound_ends_def handler_returns_def)
  qed (use Forwarding f in \<open>simp_all add: forwards_from_def\<close>)
next
  case Finished
  then show ?thesis
    by (cases e) (auto simp: forwards_from_def handler_step_def inbound_step_def inbound_ends_def handler_returns_def
        send_input_chunk_def split: option.split inbound.split client_msg.split)
qed (use assms in \<open>simp_all add: forwards_from_def\<close>)

interpretation subscription: step_invariant "attach_step V" "forwards_from V j" for V j
  by unfold_locales (rule forwards_step)

lemma subscribed_forwards:
  assumes "attach_ok V s" and "wa_phase s = Greeted"
  shows "forwards_from V (length (wa_output s)) (attach_step V s (HandlerGoes ok))"
proof -
  obtain screen where screen: "screen_at V s screen" "wa_sent s \<in> {screen_frames screen, screen_frames screen @ [Ready]}"
    using assms by (auto simp: attach_ok_def)
  from screen(2) obtain greeting where greeting: "greeting \<in> {[], [Ready]}" "wa_sent s = screen_frames screen @ greeting"
    by (metis append_Nil2 insert_iff singletonD)
  from screen(1) obtain i where "i \<le> length (wa_output s)" "screen = wx_screen V (take i (wa_output s))"
    by (auto simp: screen_at_def)
  with greeting have "forwarded_from V (length (wa_output s)) s (length (wa_output s))"
    by (intro forwardedI [of i "length (wa_output s)" _ _ greeting V "[]"]) simp_all
  then show ?thesis using assms(2) by (simp add: forwards_from_def handler_step_def)
qed

section \<open>Catching up\<close>

text \<open>How often the outbound task must receive until it has forwarded what is there.\<close>

definition steps_behind :: "attach_env \<Rightarrow> attach \<Rightarrow> nat \<Rightarrow> nat" where
  "steps_behind V s n =
     (let behind = length (wa_output s) - n in if behind > wx_capacity V then Suc (wx_capacity V) else behind)"

lemma forwards_all:
  assumes "wa_phase s = Forwarding n" and "length (wa_output s) - n = d" and "d \<le> wx_capacity V"
  shows "wa_sent (foldl (attach_step V) s (replicate d (HandlerGoes True))) = wa_sent s @ map Binary (drop n (wa_output s))"
  using assms
proof (induction d arbitrary: s n)
  case (Suc d)
  let ?s = "wa_send [Binary (wa_output s ! n)] (s\<lparr>wa_phase := Forwarding (Suc n)\<rparr>)"
  have step: "attach_step V s (HandlerGoes True) = ?s"
    using Suc.prems by (simp add: handler_step_def outbound_recv_def Let_def)
  have "wa_sent (foldl (attach_step V) ?s (replicate d (HandlerGoes True)))
      = wa_sent ?s @ map Binary (drop (Suc n) (wa_output ?s))"
    by (rule Suc.IH) (use Suc.prems in \<open>simp_all add: wa_send_def\<close>)
  moreover have "drop n (wa_output s) = wa_output s ! n # drop (Suc n) (wa_output s)"
    using Suc.prems(2) by (intro Cons_nth_drop_Suc [symmetric]) simp
  ultimately show ?case using step by (simp add: wa_send_def)
qed simp

lemma catches_up:
  assumes "wa_phase s = Forwarding n"
  shows "wa_sent (foldl (attach_step V) s (replicate (steps_behind V s n) (HandlerGoes True)))
    = wa_sent s @ map Binary (drop (max n (length (wa_output s) - wx_capacity V)) (wa_output s))"
proof (cases "length (wa_output s) - n > wx_capacity V")
  case False
  then have m: "max n (length (wa_output s) - wx_capacity V) = n" by simp
  have "steps_behind V s n = length (wa_output s) - n" using False by (simp add: steps_behind_def)
  with forwards_all [OF assms refl, of V] False m show ?thesis by simp
next
  case True
  let ?n = "length (wa_output s) - wx_capacity V"
  have step: "attach_step V s (HandlerGoes True) = s\<lparr>wa_phase := Forwarding ?n\<rparr>"
    using assms True by (simp add: handler_step_def outbound_recv_def Let_def)
  have "wa_sent (foldl (attach_step V) (s\<lparr>wa_phase := Forwarding ?n\<rparr>) (replicate (wx_capacity V) (HandlerGoes True)))
      = wa_sent s @ map Binary (drop ?n (wa_output s))"
    using forwards_all [of "s\<lparr>wa_phase := Forwarding ?n\<rparr>" ?n "wx_capacity V" V] True by simp
  moreover have "max n ?n = ?n" "steps_behind V s n = Suc (wx_capacity V)" using True by (simp_all add: steps_behind_def)
  ultimately show ?thesis using step by simp
qed

lemma starts_forwarding:
  assumes "wa_phase s \<noteq> Finished" and "\<forall>n. wa_phase s \<noteq> Forwarding n"
  shows "\<exists>k. k \<le> 4 \<and> wa_phase (foldl (attach_step V) s (replicate k (HandlerGoes True))) = Forwarding (length (wa_output s))"
proof -
  consider "wa_phase s = Attaching" | c where "wa_phase s = Snapped c" | "wa_phase s = Greeting" | "wa_phase s = Greeted"
    using assms by (cases "wa_phase s") auto
  then show ?thesis
  proof cases
    case 1
    then show ?thesis by (intro exI [of _ 4]) (simp add: eval_nat_numeral handler_step_def wa_send_def)
  next
    case 2
    then show ?thesis by (intro exI [of _ 3]) (simp add: eval_nat_numeral handler_step_def wa_send_def)
  next
    case 3
    then show ?thesis by (intro exI [of _ 2]) (simp add: eval_nat_numeral handler_step_def wa_send_def)
  next
    case 4
    then show ?thesis by (intro exI [of _ 1]) (simp add: handler_step_def)
  qed
qed

text \<open>
  C21. Whatever is printed, sent or closed, in any order: a client that is being forwarded to
  subscribed after the greeting, and has been sent the screen as it was at some time before that, and
  then, in order, exactly the chunks printed since it subscribed up to the one the outbound task has
  come to; all of them while no more is printed than the channel holds, else with gaps where the
  task fell behind. Whenever the outbound task then gets to go on and the socket takes what is sent, it
  sends all that is left, or the last chunks the channel holds. Before that it is
  at most four steps away from being forwarded to, if the socket takes what is sent. And while the
  client's messages are read, the end of the terminal is not announced.
\<close>
theorem attached_client_sees:
  "let s = foldl (attach_step V) (attached output) events; out = wa_output s in
     (case wa_phase s of
        Forwarding n \<Rightarrow>
          \<exists>before ok later i j greeting chunks. events = before @ HandlerGoes ok # later
            \<and> wa_phase (foldl (attach_step V) (attached output) before) = Greeted
            \<and> j = length (wa_output (foldl (attach_step V) (attached output) before))
            \<and> i \<le> j \<and> j \<le> n \<and> n \<le> length out \<and> greeting \<in> {[], [Ready]}
            \<and> wa_sent s = screen_frames (wx_screen V (take i out)) @ greeting @ map Binary chunks
            \<and> (if length out \<le> wx_capacity V then chunks = drop j (take n out)
               else subseq chunks (drop j (take n out)))
            \<and> wa_sent (foldl (attach_step V) s (replicate (steps_behind V s n) (HandlerGoes True)))
              = wa_sent s @ map Binary (drop (max n (length out - wx_capacity V)) out)
      | Finished \<Rightarrow> True
      | _ \<Rightarrow> (\<exists>k. k \<le> 4 \<and> wa_phase (foldl (attach_step V) s (replicate k (HandlerGoes True))) = Forwarding (length out)))
     \<and> (if wa_inbound s then set (wa_sent s) \<inter> range Dead = {} else True)"
proof -
  let ?s = "foldl (attach_step V) (attached output) events"
  have ok: "attach_ok V (foldl (attach_step V) (attached output) es)" for es using attached_ok by (rule attachment.run_inv)
  have dead: "set (wa_sent ?s) \<inter> range Dead = {}" if "wa_inbound ?s"
  proof (cases "wa_phase ?s")
    case (Forwarding n)
    then have "forwarded V ?s n" using ok [of events] by (simp add: attach_ok_def)
    then show ?thesis by (rule forwarded_no_dead)
  qed (use ok [of events] that in \<open>simp_all add: attach_ok_def starting_def\<close>)
  have fwd: "\<exists>before ok later i j greeting chunks. events = before @ HandlerGoes ok # later
            \<and> wa_phase (foldl (attach_step V) (attached output) before) = Greeted
            \<and> j = length (wa_output (foldl (attach_step V) (attached output) before))
            \<and> i \<le> j \<and> j \<le> n \<and> n \<le> length (wa_output ?s) \<and> greeting \<in> {[], [Ready]}
            \<and> wa_sent ?s = screen_frames (wx_screen V (take i (wa_output ?s))) @ greeting @ map Binary chunks
            \<and> (if length (wa_output ?s) \<le> wx_capacity V then chunks = drop j (take n (wa_output ?s))
               else subseq chunks (drop j (take n (wa_output ?s))))
            \<and> wa_sent (foldl (attach_step V) ?s (replicate (steps_behind V ?s n) (HandlerGoes True)))
              = wa_sent ?s @ map Binary (drop (max n (length (wa_output ?s) - wx_capacity V)) (wa_output ?s))"
    if p: "wa_phase ?s = Forwarding n" for n
  proof -
    obtain before ok' later where e: "events = before @ HandlerGoes ok' # later"
      and g: "wa_phase (foldl (attach_step V) (attached output) before) = Greeted"
      using subscribed_once [OF p] by (auto simp: attached_def)
    let ?start = "foldl (attach_step V) (attached output) before"
    have "forwards_from V (length (wa_output ?start)) (foldl (attach_step V) (attach_step V ?start (HandlerGoes ok')) later)"
      by (rule subscription.run_inv [OF subscribed_forwards [OF ok g]])
    then have "forwards_from V (length (wa_output ?start)) ?s" by (simp only: e foldl_append foldl.simps)
    then have "forwarded_from V (length (wa_output ?start)) ?s n" using p by (simp add: forwards_from_def)
    then show ?thesis
      unfolding forwarded_from_def using e g catches_up [OF p, of V] by blast
  qed
  show ?thesis
    unfolding Let_def
  proof (rule conjI)
    show "if wa_inbound ?s then set (wa_sent ?s) \<inter> range Dead = {} else True" using dead by simp
  qed (cases "wa_phase ?s"; use fwd starts_forwarding [of ?s V] in \<open>simp only: attach_phase.case attach_phase.distinct simp_thms\<close>)
qed

section \<open>What is lost\<close>

definition sample_attach :: attach_env where
  "sample_attach = \<lparr>wx_screen = concat, wx_parse = (\<lambda>_. None), wx_capacity = BROADCAST_CAPACITY\<rparr>"

text \<open>
  What is printed between the snapshot and the subscription is in neither: the client never gets
  it, and sees a screen that differs from the terminal's.
\<close>

lemma output_lost:
  "let s = foldl (attach_step sample_attach) (attached [''a''])
      [HandlerGoes True, HandlerGoes True, Prints ''b'', HandlerGoes True, HandlerGoes True, Prints ''c'', HandlerGoes True]
   in wa_sent s = [Binary ''a'', Ready, Binary ''c''] \<and> wa_output s = [''a'', ''b'', ''c''] \<and> wa_phase s = Forwarding 3"
  by code_simp

text \<open>
  The terminal has ended and is forgotten, everything is forwarded, and no end is announced: the
  handler itself keeps the channel open. It is when the client sends something that cannot be
  delivered.
\<close>

lemma end_not_announced:
  "let s = foldl (attach_step sample_attach) (attached [])
      [HandlerGoes True, HandlerGoes True, HandlerGoes True, HandlerGoes True, ReaderEnds, Forgotten, HandlerGoes True]
   in wa_sent s = [Ready] \<and> wa_holders s = {Handler}
      \<and> wa_sent (foldl (attach_step sample_attach) s [Receives (Some (BinaryFrame ''x'')) False, HandlerGoes True])
        = [Ready, Dead None, CloseFrame]"
  by code_simp

end
