(* ===== verification/Http_Routes.thy ===== *)
theory Http_Routes
  imports Auth_Props
begin

text \<open>
  The table of routes and the layer that checks users (\<^verbatim>\<open>backend/src/api/mod.rs\<close>,
  \<^verbatim>\<open>backend/src/api/routes.rs\<close>): which handler a request reaches, by name, with the parts of the
  path that are parameters. A \<open>get\<close> route also answers \<open>HEAD\<close>, as axum has it.
\<close>

datatype http_method = GET | HEAD | POST | PUT | DELETE | PATCH

type_synonym route_entry = "string \<times> (http_method \<times> string) list"

definition rest_routes :: "route_entry list" where
  "rest_routes =
     [(''/api/sessions'', [(POST, ''create_session'')]),
      (''/api/sessions/:id'', [(DELETE, ''delete_session''), (PATCH, ''patch_session'')]),
      (''/api/sessions/:id/agent'', [(POST, ''start_session_agent'')]),
      (''/api/sessions/:id/agent/interrupt'', [(POST, ''interrupt_session_agent'')]),
      (''/api/sessions/:id/prompt'', [(POST, ''send_session_prompt'')]),
      (''/api/sessions/:id/e2e/drop-ws'', [(POST, ''drop_session_ws'')]),
      (''/api/sessions/:id/history'', [(GET, ''session_history'')]),
      (''/api/sessions/:id/timeline'', [(GET, ''session_timeline'')]),
      (''/api/sessions/:id/timeline/turns/:turn_id'', [(GET, ''session_timeline_turn'')]),
      (''/api/sessions/:id/future-prompts'', [(GET, ''list_future_prompts''), (PUT, ''create_future_prompt'')]),
      (''/api/sessions/:id/future-prompts/:item_id'', [(DELETE, ''delete_future_prompt''), (PATCH, ''update_future_prompt'')]),
      (''/api/repos'', [(POST, ''create_repo'')]),
      (''/api/repos/:name/timeline'', [(GET, ''repo_timeline'')]),
      (''/api/repos/:name/timeline/turns/:session_uuid/:turn_id'', [(GET, ''repo_timeline_turn'')]),
      (''/api/monitor/timeline'', [(POST, ''monitor_timeline'')]),
      (''/api/workspaces'', [(GET, ''list_workspaces'')]),
      (''/api/workspaces/:id'', [(GET, ''get_workspace''), (DELETE, ''delete_workspace'')]),
      (''/api/workspaces/:id/refresh'', [(POST, ''post_workspace_refresh'')]),
      (''/api/workspaces/:id/dirty-paths'', [(GET, ''get_workspace_dirty_paths'')]),
      (''/api/workspaces/:id/files'', [(GET, ''get_workspace_files'')]),
      (''/api/workspaces/:id/file'', [(GET, ''get_workspace_file'')]),
      (''/api/workspaces/:id/file-trace'', [(GET, ''get_workspace_file_trace'')]),
      (''/api/workspaces/:id/git/diff'', [(GET, ''get_workspace_diff'')]),
      (''/api/workspaces/:id/git/stage'', [(POST, ''post_workspace_stage'')]),
      (''/api/workspaces/:id/upload'', [(POST, ''post_workspace_upload'')]),
      (''/api/repos/:name/git/diff'', [(GET, ''get_repo_diff'')]),
      (''/api/repos/:name/refresh'', [(POST, ''post_repo_refresh'')]),
      (''/api/repos/:name/dirty-paths'', [(GET, ''get_repo_dirty_paths'')]),
      (''/api/repos/:name/git/stage'', [(POST, ''post_repo_stage'')]),
      (''/api/repos/:name/files'', [(GET, ''get_repo_files'')]),
      (''/api/repos/:name/file'', [(GET, ''get_repo_file'')]),
      (''/api/repos/:name/file-trace'', [(GET, ''get_repo_file_trace'')]),
      (''/api/repos/:name/upload'', [(POST, ''post_repo_upload'')]),
      (''/api/library/:kind'', [(GET, ''list_library''), (PUT, ''put_library_root'')]),
      (''/api/library/:kind/:slug'', [(GET, ''get_library_entry''), (PUT, ''put_library_entry''), (DELETE, ''delete_library_entry'')]),
      (''/api/admin/reindex'', [(POST, ''reindex'')])]"

definition protected_routes :: "route_entry list" where
  "protected_routes =
     [(''/api/app-state'', [(GET, ''app_state'')]), (''/ws/sessions/:id'', [(GET, ''attach'')])] @ rest_routes"

section \<open>Matching\<close>

definition is_param :: "string \<Rightarrow> bool" where
  "is_param p \<longleftrightarrow> take 1 p = '':''"

fun match_segments :: "string list \<Rightarrow> string list \<Rightarrow> string list option" where
  "match_segments [] [] = Some []"
| "match_segments (p # ps) (s # ss) =
     (if is_param p then (if s = [] then None else map_option (Cons s) (match_segments ps ss))
      else if p = s then match_segments ps ss
      else None)"
| "match_segments _ _ = None"

definition route_params :: "route_entry \<Rightarrow> string \<Rightarrow> string list option" where
  "route_params e path = match_segments (split_char (CHR ''/'') (fst e)) (split_char (CHR ''/'') path)"

fun find_route :: "route_entry list \<Rightarrow> string \<Rightarrow> ((http_method \<times> string) list \<times> string list) option" where
  "find_route [] path = None"
| "find_route (e # es) path =
     (case route_params e path of Some ps \<Rightarrow> Some (snd e, ps) | None \<Rightarrow> find_route es path)"

definition method_handler :: "(http_method \<times> string) list \<Rightarrow> http_method \<Rightarrow> string option" where
  "method_handler hs meth = map_of hs (if meth = HEAD then GET else meth)"

section \<open>Requests\<close>

record http_call =
  hc_method :: http_method
  hc_path :: string
  hc_auth :: auth_request

datatype http_outcome = Handled string "string list" "authenticated_user option" | MethodNotAllowed | NoRoute | NotLetIn

text \<open>\<open>route_layer\<close>: the check comes after a route is found and before its handler.\<close>

definition serve_route ::
    "'k jwt_lib \<Rightarrow> auth_config option \<Rightarrow> http_call \<Rightarrow> 'k jwks_cache option \<Rightarrow> http_outcome \<times> 'k jwks_cache option" where
  "serve_route L auth c cache =
     (if hc_path c = ''/health'' then
        ((case method_handler [(GET, ''health'')] (hc_method c) of
            None \<Rightarrow> MethodNotAllowed | Some h \<Rightarrow> Handled h [] None), cache)
      else case find_route protected_routes (hc_path c) of
        None \<Rightarrow> (NoRoute, cache)
      | Some (hs, ps) \<Rightarrow>
          (case require_http_auth L auth (hc_auth c) cache of
             (Refused, cache') \<Rightarrow> (NotLetIn, cache')
           | (Passed u, cache') \<Rightarrow>
               ((case method_handler hs (hc_method c) of
                   None \<Rightarrow> MethodNotAllowed | Some h \<Rightarrow> Handled h ps u), cache')))"

section \<open>One route for a path\<close>

fun overlap :: "string list \<Rightarrow> string list \<Rightarrow> bool" where
  "overlap [] [] = True"
| "overlap (p # ps) (q # qs) = ((is_param p \<or> is_param q \<or> p = q) \<and> overlap ps qs)"
| "overlap _ _ = False"

lemma both_match: "match_segments ps ss = Some x \<Longrightarrow> match_segments qs ss = Some y \<Longrightarrow> overlap ps qs"
proof (induction ps ss arbitrary: x y qs rule: match_segments.induct)
  case (2 p ps s ss)
  then show ?case by (cases qs) (auto split: if_splits)
qed (auto elim: match_segments.elims)

fun no_overlap :: "string list list \<Rightarrow> bool" where
  "no_overlap [] = True"
| "no_overlap (p # ps) = (list_all (\<lambda>q. \<not> overlap p q) ps \<and> no_overlap ps)"

lemma routes_disjoint: "no_overlap (map (split_char (CHR ''/'') \<circ> fst) protected_routes)"
  by code_simp

lemma one_match:
  "no_overlap (map (split_char (CHR ''/'') \<circ> fst) es) \<Longrightarrow>
     length (filter (\<lambda>e. route_params e path \<noteq> None) es) \<le> 1"
proof (induction es)
  case (Cons e es)
  show ?case
  proof (cases "route_params e path")
    case (Some ps)
    have "route_params q path = None" if "q \<in> set es" for q
      using Cons.prems Some that both_match
      by (cases "route_params q path") (auto simp: route_params_def list_all_iff)
    then have "filter (\<lambda>e. route_params e path \<noteq> None) es = []" by (simp add: filter_empty_conv)
    then show ?thesis using Some by simp
  qed (use Cons in simp)
qed simp

text \<open>
  C23. Whatever answers at \<open>/health\<close> is the health handler, without a user. Every other handler
  runs, with authentication configured, for the user of a token that came with this request and
  that the library accepted for the configured issuer and this client; without a configuration it
  runs with no user. No path has two routes, so the order of the table does not matter.
\<close>
theorem only_health_is_open:
  "(case fst (serve_route L auth c cache) of
      Handled h ps u \<Rightarrow>
        if hc_path c = ''/health'' then h = ''health'' \<and> ps = [] \<and> u = None
        else (case auth of None \<Rightarrow> u = None
          | Some conf \<Rightarrow> \<exists>token key claims.
              http_bearer (ar_header (hc_auth c)) (ar_access_token (hc_auth c)) = Some token
              \<and> jl_decode L key (ac_issuer_url conf) (ar_wall (hc_auth c)) token = Some claims
              \<and> matches_client conf claims = Inr True \<and> u = Some (user_of_claims claims))
    | _ \<Rightarrow> True)
   \<and> length (filter (\<lambda>e. route_params e path \<noteq> None) protected_routes) \<le> 1"
proof
  let ?ok = "\<lambda>conf u. \<exists>token key claims.
              http_bearer (ar_header (hc_auth c)) (ar_access_token (hc_auth c)) = Some token
              \<and> jl_decode L key (ac_issuer_url conf) (ar_wall (hc_auth c)) token = Some claims
              \<and> matches_client conf claims = Inr True \<and> u = Some (user_of_claims claims)"
  have user: "?ok conf u" if "fst (require_http_auth L (Some conf) (hc_auth c) cache) = Passed u" for u conf
    by (rule passed_user [OF that]) blast
  show "case fst (serve_route L auth c cache) of
      Handled h ps u \<Rightarrow>
        if hc_path c = ''/health'' then h = ''health'' \<and> ps = [] \<and> u = None
        else (case auth of None \<Rightarrow> u = None | Some conf \<Rightarrow> ?ok conf u)
    | _ \<Rightarrow> True"
  proof (cases "fst (serve_route L auth c cache)")
    case (Handled h ps u)
    show ?thesis
    proof (cases "hc_path c = ''/health''")
      case True
      then show ?thesis by (simp add: serve_route_def method_handler_def split: option.splits)
    next
      case False
      with Handled have "fst (require_http_auth L auth (hc_auth c) cache) = Passed u"
        by (auto simp: serve_route_def split: option.splits prod.splits auth_verdict.splits)
      then show ?thesis using Handled False user by (cases auth) (auto simp: require_http_auth_def)
    qed
  qed simp_all
qed (rule one_match [OF routes_disjoint])

lemma sample_route:
  "fst (serve_route sample_jwt (Some sample_auth) \<lparr>hc_method = GET, hc_path = ''/api/library/prompts/x'', hc_auth = sample_auth_request\<rparr> None)
   = Handled ''get_library_entry'' [''prompts'', ''x''] (Some \<lparr>au_sub = ''s'', au_username = Some ''n'', au_email = None, au_token_use = ''access''\<rparr>)"
  "fst (serve_route sample_jwt (Some sample_auth) \<lparr>hc_method = POST, hc_path = ''/api/admin/reindex'',
     hc_auth = sample_auth_request\<lparr>ar_header := None\<rparr>\<rparr> None) = NotLetIn"
  by code_simp+

end
