(* ===== verification/Background.thy ===== *)
theory Background
  imports Ingest_Props Reindex Worktree Pty Auth
begin

text \<open>
  What the server runs beside its requests, and what its counters say: the start of the process (\<^verbatim>\<open>backend/src/main.rs\<close>),
  the loop of the ingester with its counters (\<^verbatim>\<open>ingest/ingester.rs\<close>), and the loops that keep
  the cached state of the checkouts current (\<^verbatim>\<open>repo_state.rs\<close>, \<^verbatim>\<open>worktree.rs\<close>). A round of
  a loop is a function of what the round meets: clocks, directories, failures.
\<close>

section \<open>The ingester\<close>

record ingester =
  in_events :: "64 word"
  in_errors :: "64 word"
  in_tick_started :: int
  in_progress :: int

definition new_ingester :: ingester where
  "new_ingester = \<lparr>in_events = 0, in_errors = 0, in_tick_started = 0, in_progress = 0\<rparr>"

definition unix_timestamp_from_atomic :: "int \<Rightarrow> int option" where
  "unix_timestamp_from_atomic raw = (if raw > 0 then Some raw else None)"

text \<open>A root that does not exist has no entries.\<close>

record ingest_round =
  ir_envs :: "string list \<Rightarrow> tick_env"
  ir_claude :: "walk_entry list"
  ir_codex :: "walk_entry list option"
  ir_contents :: "string list \<Rightarrow> string option"
  ir_started :: int
  ir_ended :: int

text \<open>
  One round; \<open>None\<close> is a pass that never returns. The counters are added to file by file in the
  code, here at the end of the pass, which nothing else can tell once the pass has returned.
\<close>

definition ingest_once ::
    "ingest_lib \<Rightarrow> ingester \<times> ingest_db \<Rightarrow> ingest_round \<Rightarrow> (ingester \<times> ingest_db) option" where
  "ingest_once L s R =
     (let ing = (fst s)\<lparr>in_tick_started := ir_started R\<rparr>
      in case tick L (ir_envs R) (ir_claude R) (ir_codex R) (ir_contents R) (snd s) of
           None \<Rightarrow> None
         | Some (ins, errs, db) \<Rightarrow>
             Some (ing\<lparr>in_events := in_events ing + of_nat ins, in_errors := in_errors ing + of_nat errs,
                       in_progress := (if ins > 0 \<or> errs > 0 then ir_ended R else in_progress ing)\<rparr>, db))"

fun ingest_rounds ::
    "ingest_lib \<Rightarrow> ingester \<times> ingest_db \<Rightarrow> ingest_round list \<Rightarrow> (ingester \<times> ingest_db) option" where
  "ingest_rounds L s [] = Some s"
| "ingest_rounds L s (R # Rs) = Option.bind (ingest_once L s R) (\<lambda>s'. ingest_rounds L s' Rs)"

section \<open>The repository manager\<close>

definition REPO_SCAN_INTERVAL :: int where
  "REPO_SCAN_INTERVAL = seconds 30"

text \<open>
  The clock of the process when the round looks whether a scan is due and when the scan is
  over, the clock of the database, and what fails.
\<close>

record repo_round =
  mp_clock :: timestamp
  mp_scanned :: timestamp
  mp_found :: "(string, (string \<times> string) list) result"
  mp_scan_now :: timestamp
  mp_scan_fails :: bool
  mp_due_now :: timestamp
  mp_due_fails :: bool
  mp_envs :: "string \<Rightarrow> reconcile_env"

type_synonym repo_cache = "repo_db \<times> git_call list"

definition scan_repos :: "repo_round \<Rightarrow> repo_cache \<Rightarrow> repo_cache" where
  "scan_repos R s = (snd (sync_repos_once (mp_scan_now R) (mp_scan_fails R) (mp_found R) (fst s)), snd s)"

definition refresh_due_repos :: "(string \<Rightarrow> string) \<Rightarrow> nat \<Rightarrow> repo_round \<Rightarrow> repo_cache \<Rightarrow> repo_cache" where
  "refresh_due_repos collate limit R s =
     (if mp_due_fails R then s else snd (reconcile_due_repos collate (mp_envs R) (mp_due_now R) limit s))"

text \<open>The state of the loop is the time of the last scan and the cache.\<close>

definition repo_manager_round ::
    "(string \<Rightarrow> string) \<Rightarrow> repo_round \<Rightarrow> timestamp \<times> repo_cache \<Rightarrow> timestamp \<times> repo_cache" where
  "repo_manager_round collate R s =
     (let (last, c) = (if mp_clock R - fst s \<ge> REPO_SCAN_INTERVAL then (mp_scanned R, scan_repos R (snd s)) else s)
      in (last, refresh_due_repos collate 1 R c))"

text \<open>Before its first round, at the start of the process.\<close>

definition run_repo_state_manager ::
    "(string \<Rightarrow> string) \<Rightarrow> repo_round \<Rightarrow> timestamp \<Rightarrow> repo_cache \<Rightarrow> timestamp \<times> repo_cache" where
  "run_repo_state_manager collate R started c =
     (started - REPO_SCAN_INTERVAL, refresh_due_repos collate 4 R (scan_repos R c))"

text \<open>What requests do to the table in between.\<close>

datatype repo_event =
    ManagerRound repo_round
  | RepoCreated timestamp string string
  | RefreshRequested timestamp string

fun repo_event_step ::
    "(string \<Rightarrow> string) \<Rightarrow> timestamp \<times> repo_cache \<Rightarrow> repo_event \<Rightarrow> timestamp \<times> repo_cache" where
  "repo_event_step collate s (ManagerRound R) = repo_manager_round collate R s"
| "repo_event_step collate s (RepoCreated now name path) =
     (fst s, upsert_repo now name path (fst (snd s)), snd (snd s))"
| "repo_event_step collate s (RefreshRequested now name) =
     (fst s, request_repo_refresh now name (fst (snd s)), snd (snd s))"

section \<open>The workspace manager\<close>

definition WORKSPACE_SCAN_INTERVAL :: int where
  "WORKSPACE_SCAN_INTERVAL = seconds 30"

record workspace_round =
  wp_clock :: timestamp
  wp_scanned :: timestamp
  wp_found :: "(string, (string \<times> string) list) result"
  wp_mains :: "string \<Rightarrow> workspace_env"
  wp_due_now :: timestamp
  wp_due_fails :: bool
  wp_envs :: "uuid \<Rightarrow> reconcile_env"

type_synonym workspace_cache = "workspace_db \<times> git_call list"

definition scan_workspaces :: "workspace_round \<Rightarrow> workspace_cache \<Rightarrow> workspace_cache" where
  "scan_workspaces R s = snd (sync_main_workspaces_once (wp_mains R) (wp_found R) s)"

definition refresh_due_workspaces :: "nat \<Rightarrow> workspace_round \<Rightarrow> workspace_cache \<Rightarrow> workspace_cache" where
  "refresh_due_workspaces limit R s =
     (if wp_due_fails R then s else snd (reconcile_due_workspaces (wp_envs R) (wp_due_now R) limit s))"

definition workspace_manager_round ::
    "workspace_round \<Rightarrow> timestamp \<times> workspace_cache \<Rightarrow> timestamp \<times> workspace_cache" where
  "workspace_manager_round R s =
     (let (last, c) = (if wp_clock R - fst s \<ge> WORKSPACE_SCAN_INTERVAL then (wp_scanned R, scan_workspaces R (snd s)) else s)
      in (last, refresh_due_workspaces 2 R c))"

definition run_workspace_manager ::
    "workspace_round \<Rightarrow> timestamp \<Rightarrow> workspace_cache \<Rightarrow> timestamp \<times> workspace_cache" where
  "run_workspace_manager R started c =
     (started - WORKSPACE_SCAN_INTERVAL, refresh_due_workspaces 4 R (scan_workspaces R c))"

section \<open>The start of the process\<close>

datatype background_task =
  CorrelateSocket | MaintenanceThenIngest | RepoManager | WorkspaceManager | StatsSampler

record boot_env =
  bo_config :: "(string, config) result"
  bo_connect_fails :: bool
  bo_migrate_fails :: bool
  bo_orphans_fail :: bool
  bo_bind_fails :: bool
  bo_now :: timestamp

text \<open>
  How far \<open>main\<close> gets: the error it ends with, or the number of reconciled terminals when it
  serves; the table of terminals, and the tasks it has started.
\<close>

definition server_start ::
    "boot_env \<Rightarrow> pty_row list \<Rightarrow> (string, nat) result \<times> pty_row list \<times> background_task list" where
  "server_start B rows =
     (case bo_config B of
        Inl e \<Rightarrow> (Inl e, rows, [])
      | Inr cfg \<Rightarrow>
          if bo_connect_fails B then (Inl ''connect'', rows, [])
          else if bo_migrate_fails B then (Inl ''run_migrations'', rows, [])
          else if bo_orphans_fail B then (Inl ''reconcile_orphans_on_startup'', rows, [])
          else let (orphaned, rows') = reconcile_orphans_on_startup (bo_now B) rows;
                   tasks = [CorrelateSocket, MaintenanceThenIngest, RepoManager, WorkspaceManager, StatsSampler]
               in if bo_bind_fails B then (Inl ''bind'', rows', tasks) else (Inr orphaned, rows', tasks))"

text \<open>When requests are served, no terminal is live but those that requests start.\<close>

lemma served_without_live:
  assumes "server_start B rows = (Inr n, rows', tasks)"
  shows "\<forall>r \<in> set rows'. pr_state r \<noteq> ''live''" and "n = length (filter (\<lambda>r. pr_state r = ''live'') rows)"
proof -
  have "reconcile_orphans_on_startup (bo_now B) rows = (n, rows')"
    using assms by (cases "reconcile_orphans_on_startup (bo_now B) rows") (simp add: server_start_def Let_def split: sum.splits if_splits)
  then show "\<forall>r \<in> set rows'. pr_state r \<noteq> ''live''" "n = length (filter (\<lambda>r. pr_state r = ''live'') rows)"
    by (auto simp: reconcile_orphans_on_startup_def update_rows_def)
qed

text \<open>
  The task of the transcripts: maintenance first, and the ingester after it, whether the
  maintenance succeeds or fails. When the maintenance panics or does not return the ingester
  never starts; a round that never returns is the last one. The supervisor's restart after a
  panic of a round is not modelled.
\<close>

definition run_startup_maintenance ::
    "maintenance_env \<Rightarrow> derived_db \<Rightarrow> (ingester \<times> derived_db) option" where
  "run_startup_maintenance M d = map_option (\<lambda>(_, d'). (new_ingester, d')) (run_required_startup_maintenance M d)"

definition transcript_task ::
    "ingest_lib \<Rightarrow> maintenance_env \<Rightarrow> derived_db \<Rightarrow> ingest_round list \<Rightarrow> (ingester \<times> derived_db) option" where
  "transcript_task L M d Rs =
     Option.bind (run_startup_maintenance M d) (\<lambda>(ing, d').
       map_option (\<lambda>(ing', db). (ing', d'\<lparr>dv_ingest := db\<rparr>)) (ingest_rounds L (ing, dv_ingest d') Rs))"

section \<open>Counting events\<close>

definition counted :: "nat \<Rightarrow> ingest_db \<Rightarrow> nat \<Rightarrow> ingest_db \<Rightarrow> bool" where
  "counted n db n' db' \<longleftrightarrow>
     length (ev_rows db) \<le> length (ev_rows db') \<and> n' + length (ev_rows db) = n + length (ev_rows db')"

lemma counted_trans: "counted n db n' db' \<Longrightarrow> counted n' db' n'' db'' \<Longrightarrow> counted n db n'' db''"
  by (auto simp: counted_def)

lemma inserted_appended:
  "length (ev_rows (insert_db L env u src off line ctx db))
     = length (ev_rows db) + (if fst (insert_event L env u src off line (ctx, db)) = Inr True then 1 else 0)"
proof (cases "(\<exists>v. usable L line v) \<and> \<not> en_insert_fails env off")
  case True
  then obtain v where v: "usable L line v" "\<not> en_insert_fails env off" by blast
  show ?thesis using insert_event_put(1,4) [OF v] by (simp add: put_event_def)
next
  case False
  then have "fst (insert_event L env u src off line (ctx, db)) \<noteq> Inr True"
    by (auto simp: insert_event_def usable_def Let_def split: option.splits)
  moreover have "insert_db L env u src off line ctx db = db"
    using False insert_event_skip insert_event_fail by metis
  ultimately show ?thesis by simp
qed

lemma line_step_counted: "counted (lp_inserted s) (lp_db s) (lp_inserted (line_step L env f src s ol)) (lp_db (line_step L env f src s ol))"
  using inserted_appended [of L env "df_session f" src "fst ol" "snd ol" "lp_ctx s" "lp_db s"]
  by (auto simp: counted_def line_step_def count_insert_def Let_def split: prod.split sum.split bool.split insert_error.split)

lemma lines_counted: "counted (lp_inserted s) (lp_db s) (lp_inserted (foldl (line_step L env f src) s ls)) (lp_db (foldl (line_step L env f src) s ls))"
proof (induction ls arbitrary: s)
  case (Cons ol ls)
  show ?case using counted_trans [OF line_step_counted Cons] by simp
qed (simp add: counted_def)

lemma file_counted:
  assumes "process_file L env db f src content = Some (res, db')" and "\<not> en_offset_fails env"
  shows "counted n db (n + (case res of Inl _ \<Rightarrow> 0 | Inr r \<Rightarrow> fr_inserted r)) db'"
proof (cases content)
  case None
  then show ?thesis using assms by (auto simp: process_file_def Let_def counted_def set_offset_def split: if_splits)
next
  case (Some bytes)
  from assms(1) [unfolded Some] show ?thesis
  proof (cases rule: process_file_cases)
    case ran
    let ?s = "pass_lines L env db f src bytes"
    have "res = Inr \<lparr>fr_inserted = lp_inserted ?s, fr_parse_errors = lp_parse_errors ?s, fr_committed = lp_next_committed ?s\<rparr>"
      using finish_file_tables(7,8) [OF ran(2)] assms(2) by auto
    moreover have "ev_rows db' = ev_rows (lp_db ?s)" by (rule finish_file_tables(1) [OF ran(2)])
    moreover have "counted 0 db (lp_inserted ?s) (lp_db ?s)"
      unfolding pass_lines_def Let_def
      by (rule counted_trans [OF _ lines_counted]) (simp add: loop_start_def counted_def)
    ultimately show ?thesis by (auto simp: counted_def)
  qed (auto simp: counted_def set_offset_def)
qed


abbreviation offsets_stored :: "(string list \<Rightarrow> tick_env) \<Rightarrow> bool" where
  "offsets_stored envs \<equiv> (\<forall>p. \<not> en_offset_fails (envs p))"

lemma tick_file_counted:
  assumes "tick_file L envs src contents (Some (n, e, db)) f = Some (n', e', db')" and "offsets_stored envs"
  shows "counted n db n' db'"
proof -
  from assms(1) obtain res db1 where p: "process_file L (envs (df_path f)) db f src (contents (df_path f)) = Some (res, db1)"
    and c: "(case res of Inl _ \<Rightarrow> Some (n, e, db1) | Inr r \<Rightarrow> Some (n + fr_inserted r, e + fr_parse_errors r, db1)) = Some (n', e', db')"
    by (auto simp: tick_file_def bind_eq_Some_conv)
  show ?thesis using file_counted [OF p, of n] assms(2) c by (cases res) auto
qed

lemma tick_files_None: "foldl (tick_file L envs src contents) None fs = None"
  by (induction fs) (simp_all add: tick_file_def)

lemma tick_files_counted:
  assumes "foldl (tick_file L envs src contents) (Some (n, e, db)) fs = Some (n', e', db')" and "offsets_stored envs"
  shows "counted n db n' db'"
  using assms(1)
proof (induction fs arbitrary: n e db)
  case (Cons f fs)
  then obtain n1 e1 db1 where f: "tick_file L envs src contents (Some (n, e, db)) f = Some (n1, e1, db1)"
    by (cases "tick_file L envs src contents (Some (n, e, db)) f") (auto simp: tick_files_None)
  have "counted n1 db1 n' db'" using Cons f by simp
  with tick_file_counted [OF f assms(2)] show ?case by (rule counted_trans)
qed (simp add: counted_def)

lemma tick_counted:
  assumes "tick L envs claude codex contents db = Some (n, e, db')" and "offsets_stored envs"
  shows "counted 0 db n db'"
proof -
  from assms(1) obtain n1 e1 db1 where c: "tick_root L envs ClaudeCode claude contents (0, 0, db) = Some (n1, e1, db1)"
    and rest: "(case codex of None \<Rightarrow> Some (n1, e1, db1)
      | Some entries \<Rightarrow> tick_root L envs Codex entries contents (n1, e1, db1)) = Some (n, e, db')"
    by (auto simp: tick_def bind_eq_Some_conv)
  have "counted 0 db n1 db1" using c tick_files_counted assms(2) unfolding tick_root_def by blast
  moreover have "counted n1 db1 n db'"
    using rest tick_files_counted assms(2) unfolding tick_root_def by (cases codex) (auto simp: counted_def)
  ultimately show ?thesis by (rule counted_trans)
qed

lemma round_counted:
  assumes "ingest_once L (ing, db) R = Some (ing', db')" and "offsets_stored (ir_envs R)"
  shows "length (ev_rows db) \<le> length (ev_rows db')"
    and "in_events ing' = in_events ing + of_nat (length (ev_rows db') - length (ev_rows db))"
proof -
  obtain n e where "tick L (ir_envs R) (ir_claude R) (ir_codex R) (ir_contents R) db = Some (n, e, db')"
    and n: "in_events ing' = in_events ing + of_nat n"
    using assms(1) by (auto simp: ingest_once_def Let_def split: option.splits)
  from tick_counted [OF this(1) assms(2)] have "length (ev_rows db) \<le> length (ev_rows db')"
    "n = length (ev_rows db') - length (ev_rows db)" by (auto simp: counted_def)
  with n show "length (ev_rows db) \<le> length (ev_rows db')"
    "in_events ing' = in_events ing + of_nat (length (ev_rows db') - length (ev_rows db))" by simp_all
qed

text \<open>
  However the rounds of the ingester go, with lines, files and directories that fail, as
  long as offsets are stored: the number of events the server says it inserted since it
  started is the number of rows by which the table has grown, up to wrapping of the counter.
\<close>
theorem counters_count_events:
  assumes "ingest_rounds L (ing, db) Rs = Some (ing', db')" and "\<forall>R \<in> set Rs. offsets_stored (ir_envs R)"
  shows "length (ev_rows db) \<le> length (ev_rows db')
    \<and> in_events ing' = in_events ing + of_nat (length (ev_rows db') - length (ev_rows db))"
  using assms
proof (induction Rs arbitrary: ing db)
  case (Cons R Rs)
  then obtain ing1 db1 where R: "ingest_once L (ing, db) R = Some (ing1, db1)"
    and "ingest_rounds L (ing1, db1) Rs = Some (ing', db')" by (auto simp: bind_eq_Some_conv)
  from round_counted [OF R] Cons.IH [OF this(2)] Cons.prems(2)
  show ?case by (auto simp: of_nat_diff)
qed simp

definition sample_round :: "bool \<Rightarrow> ingest_round" where
  "sample_round offset_fails =
     \<lparr>ir_envs = (\<lambda>_. fine_env\<lparr>en_offset_fails := offset_fails\<rparr>),
      ir_claude = [([''p'', ''t.jsonl''], True, Some 3)], ir_codex = None,
      ir_contents = (\<lambda>_. Some (''{}'' @ [CHR 0x0A])), ir_started = 5, ir_ended = 6\<rparr>"

lemma sample_counted:
  "ingest_rounds (sample_ingest\<lparr>i_uuid_parse := (\<lambda>_. Some 1)\<rparr>) (new_ingester, empty_db) [sample_round False] \<noteq> None"
  by code_simp

theorem counters_count_events_witness:
  "\<exists>ing db. ingest_rounds (sample_ingest\<lparr>i_uuid_parse := (\<lambda>_. Some 1)\<rparr>) (new_ingester, empty_db) [sample_round False] = Some (ing, db)
     \<and> in_events ing = of_nat (length (ev_rows db))"
proof -
  obtain ing db where r: "ingest_rounds (sample_ingest\<lparr>i_uuid_parse := (\<lambda>_. Some 1)\<rparr>) (new_ingester, empty_db) [sample_round False]
      = Some (ing, db)" using sample_counted by auto
  have "\<forall>R \<in> set [sample_round False]. offsets_stored (ir_envs R)" by (simp add: sample_round_def fine_env_def)
  from counters_count_events [OF r this] r show ?thesis by (auto simp: new_ingester_def empty_db_def)
qed

text \<open>
  An offset that could not be stored ends the file with an error after its events went in: they
  are in the table and never counted.
\<close>

lemma uncounted_events:
  "(case ingest_rounds (sample_ingest\<lparr>i_uuid_parse := (\<lambda>_. Some 1)\<rparr>) (new_ingester, empty_db) [sample_round True, sample_round False] of
      Some (ing, db) \<Rightarrow> length (ev_rows db) = 1 \<and> in_events ing = 0 | None \<Rightarrow> False)"
  by code_simp

end
