(* ===== verification/Repo_Turns.thy ===== *)
theory Repo_Turns
  imports Background Repo_Safety
begin

text \<open>
  The repository manager looks at one checkout in a round, the one that is due longest. A
  checkout that is due waits for at most as many rounds as there are checkouts due no later.
\<close>

section \<open>Waiting in a queue\<close>

text \<open>
  A state in which something waits behind a finite set; orderly events never let anything in
  before it, and a turn takes somebody out of the set, itself in the end.
\<close>

locale bounded_wait =
  fixes step :: "'s \<Rightarrow> 'e \<Rightarrow> 's"
    and ahead :: "'s \<Rightarrow> 'k set"
    and waiting :: "'s \<Rightarrow> bool"
    and served :: "'s \<Rightarrow> bool"
    and orderly :: "'e \<Rightarrow> bool"
    and turn :: "'e \<Rightarrow> bool"
  assumes finite_ahead: "finite (ahead s)"
    and self_ahead: "waiting s \<Longrightarrow> ahead s \<noteq> {}"
    and served_stays: "served s \<Longrightarrow> orderly e \<Longrightarrow> served (step s e)"
    and moves_up: "waiting s \<Longrightarrow> orderly e \<Longrightarrow> served (step s e)
      \<or> waiting (step s e) \<and> ahead (step s e) \<subseteq> ahead s \<and> (turn e \<longrightarrow> ahead (step s e) \<noteq> ahead s)"
begin

lemma served_run: "served s \<Longrightarrow> list_all orderly es \<Longrightarrow> served (foldl step s es)"
  by (induction es arbitrary: s) (auto intro: served_stays)

lemma served_in_turn:
  "waiting s \<Longrightarrow> list_all orderly es \<Longrightarrow> card (ahead s) \<le> length (filter turn es) \<Longrightarrow> served (foldl step s es)"
proof (induction es arbitrary: s)
  case Nil
  then show ?case using self_ahead [of s] finite_ahead [of s] by simp
next
  case (Cons e es)
  show ?case
  proof (cases "served (step s e)")
    case True
    then show ?thesis using Cons.prems(2) served_run by simp
  next
    case False
    then have w: "waiting (step s e)" "ahead (step s e) \<subseteq> ahead s" "turn e \<longrightarrow> ahead (step s e) \<noteq> ahead s"
      using moves_up [of s e] Cons.prems by auto
    have "card (ahead (step s e)) \<le> card (ahead s)" using w(2) by (rule card_mono [OF finite_ahead])
    moreover have "card (ahead (step s e)) < card (ahead s)" if "turn e"
      using w that by (intro psubset_card_mono [OF finite_ahead]) auto
    ultimately have "card (ahead (step s e)) \<le> length (filter turn es)" using Cons.prems(3) by (cases "turn e") auto
    with w(1) Cons show ?thesis by simp
  qed
qed

end

section \<open>The rows\<close>

abbreviation next_at :: "repo_row \<Rightarrow> timestamp" where
  "next_at r \<equiv> gc_next_status_at (rr_git r)"

abbreviation names :: "repo_row list \<Rightarrow> string set" where
  "names rows \<equiv> rr_name ` set rows"

definition late :: "timestamp \<Rightarrow> repo_row list \<Rightarrow> string set" where
  "late t rows = set (map rr_name (filter (\<lambda>r. next_at r \<le> t) rows))"

definition looked_at :: "string \<Rightarrow> timestamp \<Rightarrow> repo_row list \<Rightarrow> bool" where
  "looked_at n t rows \<longleftrightarrow>
     n \<in> names rows \<and> (\<forall>r \<in> set rows. rr_name r = n \<longrightarrow> (\<exists>f. gc_finished_at (rr_git r) = Some f \<and> t < f))"

definition present :: "string \<Rightarrow> repo_row list \<Rightarrow> bool" where
  "present n rows \<longleftrightarrow> (\<forall>r \<in> set rows. rr_name r = n \<longrightarrow> rr_exists r)"

definition awaits :: "string \<Rightarrow> timestamp \<Rightarrow> repo_row list \<Rightarrow> bool" where
  "awaits n t rows \<longleftrightarrow> (\<exists>r \<in> set rows. rr_name r = n \<and> next_at r = t) \<and> present n rows"

text \<open>What anything but a look at \<open>n\<close> leaves of a row, as far as the time \<open>t\<close> goes.\<close>

definition keeps_place :: "string \<Rightarrow> timestamp \<Rightarrow> repo_row \<Rightarrow> repo_row \<Rightarrow> bool" where
  "keeps_place n t r r' \<longleftrightarrow> rr_name r' = rr_name r
     \<and> (next_at r' = next_at r \<or> t < next_at r' \<and> (rr_name r = n \<longrightarrow> t < next_at r))
     \<and> (rr_name r = n \<longrightarrow> gc_finished_at (rr_git r') = gc_finished_at (rr_git r))"

definition keeps_places :: "string \<Rightarrow> timestamp \<Rightarrow> repo_row list \<Rightarrow> repo_row list \<Rightarrow> bool" where
  "keeps_places n t rows rows' \<longleftrightarrow>
     (\<forall>r \<in> set rows. \<exists>r' \<in> set rows'. keeps_place n t r r')
     \<and> (\<forall>r' \<in> set rows'. (\<exists>r \<in> set rows. keeps_place n t r r') \<or> t < next_at r' \<and> rr_name r' \<notin> names rows)"

lemma keeps_placeD:
  assumes "keeps_place n t r r'"
  shows "rr_name r' = rr_name r" "rr_name r = n \<Longrightarrow> gc_finished_at (rr_git r') = gc_finished_at (rr_git r)"
    "rr_name r = n \<Longrightarrow> next_at r \<le> t \<Longrightarrow> next_at r' = next_at r" "t < next_at r \<Longrightarrow> t < next_at r'"
  using assms by (auto simp: keeps_place_def)

lemma keeps_place_trans: "keeps_place n t a b \<Longrightarrow> keeps_place n t b c \<Longrightarrow> keeps_place n t a c"
  by (auto simp: keeps_place_def)

lemma kept_row:
  assumes "keeps_places n t rows rows'" and "r \<in> set rows"
  obtains r' where "r' \<in> set rows'" "keeps_place n t r r'"
  using assms unfolding keeps_places_def by blast

lemma row_kept:
  assumes "keeps_places n t rows rows'" and "r' \<in> set rows'"
  obtains (old) r where "r \<in> set rows" "keeps_place n t r r'" | (new) "t < next_at r'" "rr_name r' \<notin> names rows"
  using assms unfolding keeps_places_def by blast

lemma keeps_places_refl: "keeps_places n t rows rows"
  by (auto simp: keeps_places_def keeps_place_def)

lemma kept_names: "keeps_places n t rows rows' \<Longrightarrow> names rows \<subseteq> names rows'"
proof
  fix m assume kept: "keeps_places n t rows rows'" and "m \<in> names rows"
  then obtain r where r: "r \<in> set rows" "m = rr_name r" by auto
  obtain r' where "r' \<in> set rows'" "keeps_place n t r r'" by (rule kept_row [OF kept r(1)])
  then show "m \<in> names rows'" using r(2) by (auto dest!: keeps_placeD(1) intro: rev_image_eqI)
qed

lemma keeps_places_trans:
  assumes "keeps_places n t xs ys" and "keeps_places n t ys zs"
  shows "keeps_places n t xs zs"
  unfolding keeps_places_def
proof (intro conjI ballI)
  fix x assume "x \<in> set xs"
  then obtain y where "y \<in> set ys" "keeps_place n t x y" by (rule kept_row [OF assms(1)])
  moreover from this(1) obtain z where "z \<in> set zs" "keeps_place n t y z" by (rule kept_row [OF assms(2)])
  ultimately show "\<exists>z \<in> set zs. keeps_place n t x z" by (blast intro: keeps_place_trans)
next
  fix z assume "z \<in> set zs"
  from assms(2) this show "(\<exists>x \<in> set xs. keeps_place n t x z) \<or> t < next_at z \<and> rr_name z \<notin> names xs"
  proof (cases rule: row_kept)
    case (old y)
    from assms(1) old(1) show ?thesis
    proof (cases rule: row_kept)
      case (old x)
      with \<open>keeps_place n t y z\<close> show ?thesis by (blast intro: keeps_place_trans)
    next
      case new
      with keeps_placeD(1,4) [OF old(2)] show ?thesis by simp
    qed
  next
    case new
    with kept_names [OF assms(1)] show ?thesis by blast
  qed
qed

lemma kept_late:
  assumes "keeps_places n t rows rows'"
  shows "late t rows' \<subseteq> late t rows"
proof
  fix n assume "n \<in> late t rows'"
  then obtain r' where r': "r' \<in> set rows'" "next_at r' \<le> t" "n = rr_name r'" by (auto simp: late_def)
  from assms r'(1) show "n \<in> late t rows"
  proof (cases rule: row_kept)
    case (old r)
    then have "next_at r \<le> t" using keeps_placeD(4) [OF old(2)] r'(2) by force
    then show ?thesis using old r'(3) keeps_placeD(1) [OF old(2)] by (auto simp: late_def)
  qed (use r'(2) in simp)
qed

lemma kept_looked_at:
  assumes "looked_at n t rows" and "keeps_places n t rows rows'"
  shows "looked_at n t rows'"
  unfolding looked_at_def
proof (intro conjI ballI impI)
  show "n \<in> names rows'" using assms kept_names unfolding looked_at_def by blast
  fix r' assume r': "r' \<in> set rows'" "rr_name r' = n"
  from assms(2) r'(1) show "\<exists>f. gc_finished_at (rr_git r') = Some f \<and> t < f"
  proof (cases rule: row_kept)
    case (old r)
    then show ?thesis using assms(1) r'(2) keeps_placeD(1,2) [OF old(2)] by (simp add: looked_at_def)
  qed (use assms(1) r'(2) in \<open>simp add: looked_at_def\<close>)
qed

lemma kept_awaits:
  assumes "awaits n t rows" and "keeps_places n t rows rows'" and "present n rows'"
  shows "awaits n t rows'"
proof -
  obtain r where r: "r \<in> set rows" "rr_name r = n" "next_at r = t" using assms(1) by (auto simp: awaits_def)
  obtain r' where r': "r' \<in> set rows'" "keeps_place n t r r'" by (rule kept_row [OF assms(2) r(1)])
  then show ?thesis using r assms(3) keeps_placeD(1,3) [OF r'(2)] by (auto simp: awaits_def)
qed

text \<open>Rows changed in place keep their places when each does.\<close>

lemma keeps_places_map: "(\<And>r. r \<in> set rows \<Longrightarrow> keeps_place n t r (f r)) \<Longrightarrow> keeps_places n t rows (map f rows)"
  by (auto simp: keeps_places_def)

section \<open>Scans and requests\<close>

lemma upsert_keeps_places:
  assumes "fst np = n \<Longrightarrow> \<forall>x \<le> t. next x = x" and "\<And>x. next x = x \<or> t < next x" and "t < now"
  shows "keeps_places n t rows (upsert_repo_row now next rows np)"
proof (cases "fst np \<in> names rows")
  case True
  have "keeps_place n t r (if rr_name r = fst np
      then r\<lparr>rr_path := snd np, rr_exists := True,
             rr_git := (rr_git r)\<lparr>gc_next_status_at := next (next_at r), gc_updated_at := now\<rparr>\<rparr> else r)" for r
    using assms(1) assms(2) [of "next_at r"] by (auto simp: keeps_place_def) (metis linorder_not_less)
  then show ?thesis using True by (auto simp: upsert_repo_row_def intro!: keeps_places_map)
next
  case False
  then show ?thesis using assms(3)
    by (auto simp: upsert_repo_row_def keeps_places_def keeps_place_def new_git_columns_def)
qed

lemma upsert_present: "present n rows \<or> fst np = n \<Longrightarrow> present n (upsert_repo_row now next rows np)"
  by (force simp: present_def upsert_repo_row_def)

lemma scan_keeps_places:
  assumes "t < now"
  shows "keeps_places n t rows (foldl (upsert_repo_row now (\<lambda>x. min x now)) rows nps)"
proof (induction nps arbitrary: rows)
  case (Cons np nps)
  have "keeps_places n t rows (upsert_repo_row now (\<lambda>x. min x now) rows np)"
    using assms by (intro upsert_keeps_places) (auto simp: min_def)
  then show ?case using Cons by (auto intro: keeps_places_trans)
qed (simp add: keeps_places_refl)

lemma scan_present:
  "present n rows \<or> n \<in> fst ` set nps \<Longrightarrow> present n (foldl (upsert_repo_row now next) rows nps)"
proof (induction nps arbitrary: rows)
  case (Cons np nps)
  then show ?case using upsert_present [of n rows np now "next"] by auto
qed simp

lemma sync_keeps_places:
  assumes "t < now"
  shows "keeps_places n t (rd_rows db) (rd_rows (snd (sync_repos_once now fails found db)))"
proof (cases found)
  case (Inr repos)
  let ?reset = "map (\<lambda>r. r\<lparr>rr_exists := False, rr_git := (rr_git r)\<lparr>gc_updated_at := now\<rparr>\<rparr>) (rd_rows db)"
  have "keeps_places n t (rd_rows db) ?reset" by (rule keeps_places_map) (simp add: keeps_place_def)
  from keeps_places_trans [OF this scan_keeps_places [OF assms]]
  show ?thesis using Inr by (simp add: sync_repos_once_def keeps_places_refl)
qed (simp add: sync_repos_once_def keeps_places_refl)

lemma sync_present:
  assumes "present n (rd_rows db)" and "case found of Inl _ \<Rightarrow> True | Inr repos \<Rightarrow> n \<in> fst ` set repos"
  shows "present n (rd_rows (snd (sync_repos_once now fails found db)))"
  using assms by (auto simp: sync_repos_once_def intro: scan_present split: sum.splits)

section \<open>A look at a checkout\<close>

definition refreshed :: "reconcile_env \<Rightarrow> repo_row \<Rightarrow> repo_row \<Rightarrow> bool" where
  "refreshed E r r' \<longleftrightarrow> rr_name r' = rr_name r \<and> rr_exists r' = rr_exists r
     \<and> gc_finished_at (rr_git r') = Some (rc_finished E) \<and> rc_finished E < next_at r'"

lemma reconciled_rows:
  assumes "\<not> rc_error_fails E"
  obtains g where "rd_rows (fst (reconcile_repo E np s)) = map (\<lambda>r. if rr_name r = fst np then g r else r) (rd_rows (fst s))"
    "\<forall>r. refreshed E r (g r)"
proof -
  let ?e = "\<lambda>e r. r\<lparr>rr_git := mark_status_error E REPO_STATUS_ERROR_CADENCE_SECS e (rr_git r)\<rparr>"
  let ?m = "\<lambda>r. r\<lparr>rr_git := mark_started E (rr_git r)\<rparr>"
  let ?s = "\<lambda>st r. r\<lparr>rr_branch := gs_branch st, rr_git := store_columns E REPO_STATUS_CADENCE_SECS st (rr_git r)\<rparr>"
  note defs = reconcile_repo_def reconcile_repo_inner_def update_repo_def store_repo_status_def o_def
  note fields = refreshed_def mark_status_error_def mark_started_def store_columns_def seconds_def
    REPO_STATUS_ERROR_CADENCE_SECS_def REPO_STATUS_CADENCE_SECS_def
  obtain r tr where st: "read_status (rc_host E) (snd np) (snd s) = (r, tr)" by force
  consider (start) "rc_start_fails E" | (status) e where "\<not> rc_start_fails E" "r = Inl e"
    | (tx) x where "\<not> rc_start_fails E" "r = Inr x" "rc_tx_fails E"
    | (stored) x where "\<not> rc_start_fails E" "r = Inr x" "\<not> rc_tx_fails E" by (cases r) auto
  then show thesis
  proof cases
    case start
    show thesis by (rule that [of "?e ''mark repo reconcile started''"]) (use start assms in \<open>auto simp: defs fields split: prod.split\<close>)
  next
    case (status e)
    show thesis by (rule that [of "\<lambda>r. ?e e (?m r)"]) (use status st assms in \<open>auto simp: defs fields\<close>)
  next
    case (tx x)
    show thesis by (rule that [of "\<lambda>r. ?e ''repo reconcile tx'' (?m r)"]) (use tx st assms in \<open>auto simp: defs fields\<close>)
  next
    case (stored x)
    show thesis by (rule that [of "\<lambda>r. ?s x (?m r)"]) (use stored st assms in \<open>auto simp: defs fields\<close>)
  qed
qed


lemma look_keeps_places:
  assumes "\<not> rc_error_fails E" and "t < rc_finished E" and "fst np \<noteq> n"
  shows "keeps_places n t (rd_rows (fst s)) (rd_rows (fst (reconcile_repo E np s)))"
proof -
  obtain g where g: "rd_rows (fst (reconcile_repo E np s)) = map (\<lambda>r. if rr_name r = fst np then g r else r) (rd_rows (fst s))"
    "\<forall>r. refreshed E r (g r)" by (rule reconciled_rows [OF assms(1)])
  have later: "t < next_at (g r)" for r using spec [OF g(2), of r] assms(2) by (simp add: refreshed_def)
  show ?thesis unfolding g(1)
    by (rule keeps_places_map) (use g(2) later assms(3) in \<open>auto simp: keeps_place_def refreshed_def\<close>)
qed

lemma look_present:
  assumes "\<not> rc_error_fails E" and "present n (rd_rows (fst s))"
  shows "present n (rd_rows (fst (reconcile_repo E np s)))"
proof -
  obtain g where g: "rd_rows (fst (reconcile_repo E np s)) = map (\<lambda>r. if rr_name r = fst np then g r else r) (rd_rows (fst s))"
    "\<forall>r. refreshed E r (g r)" by (rule reconciled_rows [OF assms(1)])
  show ?thesis using assms(2) g(2) by (auto simp: g(1) present_def refreshed_def)
qed

lemma look_looks_at:
  assumes "\<not> rc_error_fails E" and "t < rc_finished E" and "fst np \<in> names (rd_rows (fst s))"
  shows "looked_at (fst np) t (rd_rows (fst (reconcile_repo E np s)))"
    and "fst np \<notin> late t (rd_rows (fst (reconcile_repo E np s)))"
proof -
  obtain g where g: "rd_rows (fst (reconcile_repo E np s)) = map (\<lambda>r. if rr_name r = fst np then g r else r) (rd_rows (fst s))"
    "\<forall>r. refreshed E r (g r)" by (rule reconciled_rows [OF assms(1)])
  have "names (rd_rows (fst (reconcile_repo E np s))) = names (rd_rows (fst s))"
    unfolding g(1) set_map image_image using g(2) by (intro image_cong) (auto simp: refreshed_def)
  moreover have "\<exists>f. gc_finished_at (rr_git r) = Some f \<and> t < f"
    if "r \<in> set (rd_rows (fst (reconcile_repo E np s)))" "rr_name r = fst np" for r
    using that assms(2) g(2) by (auto simp: g(1) refreshed_def split: if_splits)
  ultimately show "looked_at (fst np) t (rd_rows (fst (reconcile_repo E np s)))"
    using assms(3) by (simp add: looked_at_def)
  have "t < next_at (g r)" for r using spec [OF g(2), of r] assms(2) by (simp add: refreshed_def)
  then show "fst np \<notin> late t (rd_rows (fst (reconcile_repo E np s)))"
    using g(2) by (auto simp: g(1) late_def refreshed_def dest: leD split: if_splits)
qed

lemma looks_stay:
  assumes "\<forall>m. t < rc_finished (Es m) \<and> \<not> rc_error_fails (Es m)" and "looked_at n t (rd_rows (fst s))"
  shows "looked_at n t (rd_rows (fst (foldl (\<lambda>s np. reconcile_repo (Es (fst np)) np s) s nps)))"
  using assms(2)
proof (induction nps arbitrary: s)
  case (Cons np nps)
  let ?s = "reconcile_repo (Es (fst np)) np s"
  have "looked_at n t (rd_rows (fst ?s))"
  proof (cases "fst np = n")
    case True
    then show ?thesis using look_looks_at(1) [of "Es (fst np)" t np s] assms(1) Cons.prems by (simp add: looked_at_def)
  next
    case False
    from Cons.prems look_keeps_places [OF _ _ this] assms(1) show ?thesis by (blast intro: kept_looked_at)
  qed
  then show ?case using Cons.IH by simp
qed simp

section \<open>A round\<close>

lemma due_head:
  assumes "awaits n t (rd_rows db)" and "t \<le> now"
  obtains q where "due_repos collate now 1 db = [(rr_name q, rr_path q)]" "q \<in> set (rd_rows db)" "next_at q \<le> t"
proof -
  let ?due = "sort_key (\<lambda>r. next_at r) (sort_key (collate \<circ> rr_name)
      (filter (\<lambda>r. rr_exists r \<and> next_at r \<le> now) (rd_rows db)))"
  obtain r where "r \<in> set (rd_rows db)" "rr_exists r" "next_at r = t"
    using assms(1) by (auto simp: awaits_def present_def)
  then have r: "r \<in> set ?due" using assms(2) by simp
  then obtain q qs where due: "?due = q # qs" by (cases ?due) auto
  have "sorted (map next_at ?due)" by simp
  then have "next_at q \<le> next_at r" using r unfolding due by auto
  moreover have "q \<in> set ?due" unfolding due by simp
  then have "q \<in> set (rd_rows db)" by simp
  ultimately show thesis using that [of q] \<open>next_at r = t\<close> due by (simp add: due_repos_def)
qed

text \<open>
  What a waiting checkout needs of the events: the clocks are past its time, scans still find
  it, the database answers, and nobody asks for it again, which would move it to the end.
\<close>

fun orderly :: "string \<Rightarrow> timestamp \<Rightarrow> repo_event \<Rightarrow> bool" where
  "orderly n t (ManagerRound R) \<longleftrightarrow>
     t < mp_scan_now R \<and> t < mp_due_now R \<and> \<not> mp_due_fails R
     \<and> (\<forall>m. t < rc_finished (mp_envs R m) \<and> \<not> rc_error_fails (mp_envs R m))
     \<and> (case mp_found R of Inl _ \<Rightarrow> True | Inr repos \<Rightarrow> n \<in> fst ` set repos)"
| "orderly n t (RepoCreated now name path) \<longleftrightarrow> t < now \<and> name \<noteq> n"
| "orderly n t (RefreshRequested now name) \<longleftrightarrow> t < now \<and> name \<noteq> n"

fun is_round :: "repo_event \<Rightarrow> bool" where
  "is_round (ManagerRound R) = True"
| "is_round e = False"

abbreviation rows_of :: "timestamp \<times> repo_cache \<Rightarrow> repo_row list" where
  "rows_of s \<equiv> rd_rows (fst (snd s))"


lemma scan_kept:
  assumes "orderly n t (ManagerRound R)"
  shows "keeps_places n t (rd_rows (fst c)) (rd_rows (fst (scan_repos R c)))"
    and "present n (rd_rows (fst c)) \<Longrightarrow> present n (rd_rows (fst (scan_repos R c)))"
  using assms by (simp_all add: scan_repos_def sync_keeps_places sync_present)

lemma round_serves:
  fixes collate :: "string \<Rightarrow> string"
  assumes "awaits n t (rd_rows (fst c))" and "orderly n t (ManagerRound R)"
  defines "c' \<equiv> refresh_due_repos collate 1 R c"
  shows "looked_at n t (rd_rows (fst c'))
    \<or> awaits n t (rd_rows (fst c')) \<and> late t (rd_rows (fst c')) \<subset> late t (rd_rows (fst c))"
proof -
  have now: "t \<le> mp_due_now R" using assms(2) by simp
  obtain q where q: "due_repos collate (mp_due_now R) 1 (fst c) = [(rr_name q, rr_path q)]"
      "q \<in> set (rd_rows (fst c))" "next_at q \<le> t" by (rule due_head [OF assms(1) now])
  let ?E = "mp_envs R (rr_name q)" and ?np = "(rr_name q, rr_path q)"
  have E: "\<not> rc_error_fails ?E" "t < rc_finished ?E" using assms(2) by auto
  have c': "c' = reconcile_repo ?E ?np c"
    using assms(2) q(1) by (simp add: c'_def refresh_due_repos_def reconcile_due_repos_def)
  note look = look_looks_at [OF E, of ?np c, unfolded fst_conv, folded c']
  show ?thesis
  proof (cases "rr_name q = n")
    case True
    then show ?thesis using look(1) q(2) by auto
  next
    case False
    then have kept: "keeps_places n t (rd_rows (fst c)) (rd_rows (fst c'))"
      unfolding c' by (intro look_keeps_places [OF E]) simp
    moreover have "present n (rd_rows (fst c'))"
      unfolding c' by (rule look_present [OF E(1)]) (use assms(1) in \<open>simp add: awaits_def\<close>)
    moreover have "rr_name q \<in> late t (rd_rows (fst c))" using q by (auto simp: late_def)
    ultimately show ?thesis using look(2) q(2) kept_awaits [OF assms(1)] kept_late by blast
  qed
qed

lemma round_stays:
  assumes "looked_at n t (rd_rows (fst c))" and "orderly n t (ManagerRound R)"
  shows "looked_at n t (rd_rows (fst (refresh_due_repos collate 1 R c)))"
  using assms looks_stay [of t "mp_envs R" n c] by (auto simp: refresh_due_repos_def reconcile_due_repos_def Let_def)

text \<open>What the events other than a look do.\<close>

lemma upsert_places:
  assumes "t < now" and "name \<noteq> n"
  shows "keeps_places n t (rd_rows db) (rd_rows (upsert_repo now name path db))"
  unfolding upsert_repo_def using assms by (simp, intro upsert_keeps_places) auto

lemma request_places:
  assumes "t < now" and "name \<noteq> n"
  shows "keeps_places n t (rd_rows db) (rd_rows (request_repo_refresh now name db))"
  unfolding request_repo_refresh_def using assms by (auto simp: keeps_place_def intro!: keeps_places_map)

lemma request_present: "present n (rd_rows db) \<Longrightarrow> present n (rd_rows (request_repo_refresh now name db))"
  by (auto simp: present_def request_repo_refresh_def)

lemma awaits_scan:
  assumes "awaits n t (rd_rows (fst c))" and "orderly n t (ManagerRound R)"
  shows "awaits n t (rd_rows (fst (scan_repos R c)))" and "late t (rd_rows (fst (scan_repos R c))) \<subseteq> late t (rd_rows (fst c))"
proof -
  have "present n (rd_rows (fst c))" using assms(1) by (simp add: awaits_def)
  then show "awaits n t (rd_rows (fst (scan_repos R c)))"
    by (rule kept_awaits [OF assms(1) scan_kept(1) [OF assms(2)] scan_kept(2) [OF assms(2)]])
qed (rule kept_late [OF scan_kept(1) [OF assms(2)]])

lemma turn_stays:
  assumes "looked_at n t (rows_of s)" and "orderly n t e"
  shows "looked_at n t (rows_of (repo_event_step collate s e))"
proof (cases e)
  case (ManagerRound R)
  with assms(2) have R: "orderly n t (ManagerRound R)" by simp
  have "looked_at n t (rd_rows (fst (scan_repos R (snd s))))"
    by (rule kept_looked_at [OF assms(1) scan_kept(1) [OF R]])
  then show ?thesis using round_stays [OF _ R, of _ collate] assms(1)
    by (auto simp: ManagerRound repo_manager_round_def split: prod.split)
qed (use assms in \<open>auto intro: kept_looked_at upsert_places request_places\<close>)

lemma event_moves_up:
  fixes collate :: "string \<Rightarrow> string"
  assumes "awaits n t (rows_of s)" and "orderly n t e"
  defines "s' \<equiv> repo_event_step collate s e"
  shows "looked_at n t (rows_of s')
    \<or> awaits n t (rows_of s') \<and> late t (rows_of s') \<subseteq> late t (rows_of s) \<and> (is_round e \<longrightarrow> late t (rows_of s') \<noteq> late t (rows_of s))"
proof (cases e)
  case (ManagerRound R)
  with assms(2) have R: "orderly n t (ManagerRound R)" by simp
  let ?c = "if mp_clock R - fst s \<ge> REPO_SCAN_INTERVAL then scan_repos R (snd s) else snd s"
  have c: "awaits n t (rd_rows (fst ?c))" "late t (rd_rows (fst ?c)) \<subseteq> late t (rows_of s)"
    using awaits_scan [OF assms(1) R] assms(1) by auto
  have "snd s' = refresh_due_repos collate 1 R ?c"
    using ManagerRound by (simp add: s'_def repo_manager_round_def split: prod.split)
  then show ?thesis using round_serves [OF c(1) R, of collate] c(2) by auto
next
  case (RepoCreated now name path)
  then have "keeps_places n t (rows_of s) (rows_of s')" "present n (rows_of s')"
    using assms(1,2) upsert_present [of n "rows_of s" "(name, path)"]
    by (auto simp: s'_def upsert_places awaits_def) (simp add: upsert_repo_def)
  then show ?thesis using RepoCreated assms(1) by (simp add: kept_awaits kept_late)
next
  case (RefreshRequested now name)
  then have "keeps_places n t (rows_of s) (rows_of s')" "present n (rows_of s')"
    using assms(1,2) by (auto simp: s'_def awaits_def request_places request_present)
  then show ?thesis using RefreshRequested assms(1) by (simp add: kept_awaits kept_late)
qed

interpretation turns: bounded_wait "repo_event_step collate" "\<lambda>s. late t (rows_of s)" "\<lambda>s. awaits n t (rows_of s)"
  "\<lambda>s. looked_at n t (rows_of s)" "orderly n t" is_round for collate n t
proof unfold_locales
  show "late t (rows_of s) \<noteq> {}" if "awaits n t (rows_of s)" for s
    using that by (force simp: awaits_def late_def)
qed (simp add: late_def, erule (1) turn_stays, erule (1) event_moves_up)

text \<open>
  C19. A checkout whose time \<open>t\<close> has come is looked at, successfully or not, within as many
  rounds of the manager as there are checkouts due no later than it, whatever scans, new
  checkouts and requests for others come in between.
\<close>
theorem due_checkout_gets_turn:
  assumes "distinct (map rr_name (rd_rows db))" and "r \<in> set (rd_rows db)" and "rr_exists r"
    and "list_all (orderly (rr_name r) (next_at r)) es"
    and "card (late (next_at r) (rd_rows db)) \<le> length (filter is_round es)"
  shows "looked_at (rr_name r) (next_at r) (rows_of (foldl (repo_event_step collate) (scanned, db, tr) es))"
proof (rule turns.served_in_turn [OF _ assms(4)])
  have "r' = r" if "r' \<in> set (rd_rows db)" "rr_name r' = rr_name r" for r'
    using assms(1,2) that by (auto simp: distinct_map dest: inj_onD)
  then show "awaits (rr_name r) (next_at r) (rows_of (scanned, db, tr))"
    using assms(2,3) by (auto simp: awaits_def present_def)
qed (use assms(5) in simp)

definition two_checkouts :: repo_db where
  "two_checkouts = \<lparr>rd_rows = map (\<lambda>n. \<lparr>rr_name = n, rr_path = n, rr_exists = True, rr_branch = None,
     rr_git = new_git_columns 0\<rparr>) [''a'', ''b''], rd_dirty = []\<rparr>"

definition sample_repo_round :: repo_round where
  "sample_repo_round = \<lparr>mp_clock = 1, mp_scanned = 1, mp_found = Inr [(''a'', ''a''), (''b'', ''b'')], mp_scan_now = 1,
     mp_scan_fails = False, mp_due_now = 1, mp_due_fails = False,
     mp_envs = (\<lambda>_. \<lparr>rc_host = sample_git, rc_started = 2, rc_finished = 3, rc_time_parse = (\<lambda>_. None),
       rc_start_fails = False, rc_tx_fails = False, rc_error_fails = False\<rparr>)\<rparr>"

theorem due_checkout_gets_turn_witness:
  "looked_at ''b'' 0 (rows_of (foldl (repo_event_step (\<lambda>s. s)) (0, two_checkouts, [])
     [ManagerRound sample_repo_round, RepoCreated 1 ''c'' ''c'', ManagerRound sample_repo_round]))"
proof -
  let ?r = "\<lparr>rr_name = ''b'', rr_path = ''b'', rr_exists = True, rr_branch = None, rr_git = new_git_columns 0\<rparr>"
  have "late 0 (rd_rows two_checkouts) = {''a'', ''b''}"
    by (auto simp: late_def two_checkouts_def new_git_columns_def)
  then have "card (late 0 (rd_rows two_checkouts)) = 2" by simp
  then show ?thesis
    using due_checkout_gets_turn [of two_checkouts ?r
        "[ManagerRound sample_repo_round, RepoCreated 1 ''c'' ''c'', ManagerRound sample_repo_round]" "\<lambda>s. s" 0 "[]"]
    by (simp add: two_checkouts_def sample_repo_round_def new_git_columns_def)
qed

text \<open>
  The scan undoes the longer pauses: after it every checkout is due at once, also one whose
  last look failed and that should rest for 90 seconds, and the scan comes every 30.
\<close>

lemma upsert_due:
  assumes "\<forall>r \<in> set rows. rr_exists r \<longrightarrow> next_at r \<le> now"
  shows "\<forall>r \<in> set (upsert_repo_row now (\<lambda>x. min x now) rows np). rr_exists r \<longrightarrow> next_at r \<le> now"
  using assms by (auto simp: upsert_repo_row_def new_git_columns_def)

lemma upserts_due:
  "\<forall>r \<in> set rows. rr_exists r \<longrightarrow> next_at r \<le> now \<Longrightarrow>
   \<forall>r \<in> set (foldl (upsert_repo_row now (\<lambda>x. min x now)) rows nps). rr_exists r \<longrightarrow> next_at r \<le> now"
proof (induction nps arbitrary: rows)
  case (Cons np nps)
  show ?case unfolding foldl_Cons by (rule Cons.IH [OF upsert_due [OF Cons.prems]])
qed simp

lemma scan_makes_all_due:
  assumes "sync_repos_once now False (Inr repos) db = (Inr (), db')" and "r \<in> set (rd_rows db')" and "rr_exists r"
  shows "next_at r \<le> now"
proof -
  let ?reset = "map (\<lambda>r. r\<lparr>rr_exists := False, rr_git := (rr_git r)\<lparr>gc_updated_at := now\<rparr>\<rparr>) (rd_rows db)"
  have "\<forall>r \<in> set (foldl (upsert_repo_row now (\<lambda>x. min x now)) ?reset repos). rr_exists r \<longrightarrow> next_at r \<le> now"
    by (rule upserts_due) simp
  then show ?thesis using assms by (auto simp: sync_repos_once_def)
qed

end
