(* ===== verification/Spec2Isabelle.thy ===== *)
theory Spec2Isabelle
  imports Runner_Safety Broker_Redemption Canonical_Props Timeline_Chunks Timeline_Safety
    Ingest_Parents Projection_Roundtrip Projection_Repo Pty_Credentials Pty_Props
    Reindex_Ingested Repo_Safety Worktree_Races Future_Prompts_Props Session_Props File_Props
    Auth_Props Credential_Helper App_State_Props Attach Http_Routes Repo_Turns
begin

text \<open>
  A verification development for Sulion, the server that keeps terminal sessions of coding
  agents, ingests the transcripts the agents write, and lets the agents use Docker and
  secrets without handing them the Docker socket or the secrets' store. All of the modelled
  code is Rust under \<^verbatim>\<open>backend/src\<close>.

  Parts, in the order in which they are built on each other.

  \<^item> \<^verbatim>\<open>Prelude\<close>, \<^verbatim>\<open>Rust_String\<close>, \<^verbatim>\<open>Json\<close>: results with their sequencing function, casts between
    machine integers, the methods of \<open>str\<close> the program calls (trim, split, strip_prefix, lines,
    char boundaries; the length of a string is its length in UTF-8 bytes), and JSON values
    with the read functions of \<open>serde_json\<close>. Four locales are interfaces of the rest:
    \<open>first_error_scan\<close> (a filter that stops at the first refused item), \<open>step_invariant\<close>
    (a predicate kept by every step), \<open>simulation\<close> (a step relation whose abstraction takes the
    steps of a specification or stands still), \<open>insert_once_table\<close> (an insert that does nothing on a
    conflicting key). \<^verbatim>\<open>Prelude\<close> also has sorting by several keys.

  \<^item> The container runner (\<^verbatim>\<open>container_runner.rs\<close>). \<^verbatim>\<open>Runner\<close> has the request and the
    configuration as records, the flag policies, one function per subcommand
    (\<open>prepare_run_args\<close>, \<open>prepare_compose_args\<close>, ...), the search for container targets and
    \<open>execute\<close>. The host it runs on (canonicalisation of paths, existence of files, the
    answers of the Docker command line) is the record \<open>host\<close>, and \<open>execute\<close> returns the
    Docker invocations it made, so that what runs, and in which order, is visible.
    \<^verbatim>\<open>Runner_Safety\<close>: only inside allowed roots, only on owned containers (a request for help is
    no use of a container and is not checked), Compose only with the network override; and two
    ways around the policy.

  \<^item> The secret broker (\<^verbatim>\<open>secret_protocol.rs\<close>, \<^verbatim>\<open>secret_broker.rs\<close> and the tables of
    \<^verbatim>\<open>backend/broker_migrations\<close>). \<^verbatim>\<open>Broker_Protocol\<close> has the signed request and the text
    that is signed; \<^verbatim>\<open>Broker\<close> the tables as lists of rows in a record \<open>broker_db\<close>, one function
    per handler, and \<open>serve\<close>, the router with its three authentication layers. Signature
    verification, base64, the cipher, JSON encoding and token validation are the record
    \<open>primitives\<close>; the theorems that need it state what they rely on (decryption inverts
    encryption). Time is in microseconds, as PostgreSQL has it; a signed timestamp is a
    64-bit word, because its difference with the clock can overflow. \<^verbatim>\<open>Broker_Safety\<close> and
    \<^verbatim>\<open>Broker_Redemption\<close>: invariants of the tables over any sequence of requests, what a
    redemption returns, that it happens once, the life of a grant, confidentiality.

  \<^item> Canonical events (\<^verbatim>\<open>ingest/canonical\<close>). \<^verbatim>\<open>Canonical_Types\<close> has blocks, events and the
    searchable text; \<^verbatim>\<open>Canonical_Tools\<close> tool names, inputs, results and patches;
    \<^verbatim>\<open>Canonical_Parsers\<close> the Claude and Codex parsers, both interpretations of one locale
    \<open>event_parser\<close>; \<^verbatim>\<open>Canonical_Props\<close> what holds of them.

  \<^item> The timeline (\<^verbatim>\<open>ingest/timeline\<close> without loading). \<^verbatim>\<open>Timeline_Types\<close> the data,
    \<^verbatim>\<open>Timeline_Events\<close> predicates of events and grouping into turns, \<^verbatim>\<open>Timeline_Render\<close> the
    markdown, \<^verbatim>\<open>Timeline_Project\<close> pairing, chunks, sub-agents and the whole projection,
    \<^verbatim>\<open>Timeline_Files\<close> file touches (with \<open>resolve_in_repo\<close> of \<^verbatim>\<open>workspace.rs\<close>) and
    \<^verbatim>\<open>Timeline_Derived\<close> the stored rows. A panic of the Rust code is the value \<open>None\<close>.
    \<^verbatim>\<open>Timeline_Turns\<close>, \<^verbatim>\<open>Timeline_Chunks\<close>, \<^verbatim>\<open>Timeline_Safety\<close>, \<^verbatim>\<open>Timeline_Touches\<close>: grouping is a
    partition, pairing takes the last result, sub-agents are a closure, the chunks of a turn
    are an independently written list (\<open>turn_chunks\<close>) that shows exactly the visible content,
    when the projection panics, where touches can lie, how the stored rows refer to each other.

  \<^item> Ingestion (\<^verbatim>\<open>ingest/ingester.rs\<close>, \<^verbatim>\<open>ingest/file_scan.rs\<close>, \<^verbatim>\<open>ingest/metadata.rs\<close>).
    \<^verbatim>\<open>Ingest_Metadata\<close> what a record says of its session, \<^verbatim>\<open>Ingest_Codex\<close> identifiers, parents
    and lineage of records, \<^verbatim>\<open>Ingest_File\<close> the tables, the insert of a line, the pass over a
    file and the tick over all files, with the outcome of every database call an input
    (\<open>tick_env\<close>), so that failures of any of them are covered. \<^verbatim>\<open>Ingest_Lines\<close> and
    \<^verbatim>\<open>Ingest_Run\<close> turn the byte loop into a fold over complete lines; \<^verbatim>\<open>Ingest_Props\<close> and
    \<^verbatim>\<open>Ingest_Parents\<close>: the committed offset, which rows exist, replay, lost lines, parent
    links and the walk over them, merged metadata.

  \<^item> The stored timeline (\<^verbatim>\<open>ingest/timeline/load.rs\<close>, \<^verbatim>\<open>ingest/projection.rs\<close> and the files of
    \<^verbatim>\<open>ingest/projection\<close>). \<^verbatim>\<open>Store_Load\<close> reads the rows of a session back as events, with the
    windows and ranges of the queries; \<^verbatim>\<open>Projection_Write\<close> has the five tables of a timeline,
    the full and the incremental rebuild and the walk over sessions that inherit events from a
    parent, \<^verbatim>\<open>Projection_Rebuild\<close> and \<^verbatim>\<open>Projection_Agree\<close> when the two rebuilds give the same
    tables; \<^verbatim>\<open>Projection_Read\<close> the queries, the filters and the responses, \<^verbatim>\<open>Projection_Lookup\<close>,
    \<^verbatim>\<open>Projection_Views\<close> and \<^verbatim>\<open>Projection_Roundtrip\<close> that a response is what was projected,
    filtered, and that list, detail and summary agree; \<^verbatim>\<open>Projection_Repo\<close> the reads across
    sessions.

  \<^item> Terminals (\<^verbatim>\<open>pty.rs\<close>, \<^verbatim>\<open>secret_pty.rs\<close>, \<^verbatim>\<open>correlate.rs\<close>). \<^verbatim>\<open>Pty\<close> has the rows, the
    statements on them, the environment of a shell and the correlation socket, \<^verbatim>\<open>Pty_Steps\<close>
    the supervisor as a step relation: the tasks that spawn, delete and reap run in
    interleaved steps between their awaits, against one table, one map of live sessions and
    the broker's registrations. \<^verbatim>\<open>Pty_Safety\<close>: rows stay well formed and every terminal moves
    along the life cycle; \<^verbatim>\<open>Pty_Credentials\<close>: a terminal that ended cannot redeem secrets at
    the broker (the composition with \<^verbatim>\<open>Broker\<close>), and what is left behind when it fails;
    \<^verbatim>\<open>Pty_Props\<close>: the environment, and correlation against ingestion in either order.

  \<^item> Reindexing and maintenance (\<^verbatim>\<open>ingest/reset.rs\<close>, \<^verbatim>\<open>ingest/maintenance.rs\<close>). \<^verbatim>\<open>Reindex\<close> clears
    what is derived from the stored lines and writes it again, in steps that may stop anywhere;
    \<^verbatim>\<open>Reindex_Props\<close>, \<^verbatim>\<open>Reindex_Agree\<close>, \<^verbatim>\<open>Reindex_Ingested\<close>: a backfill that was
    interrupted after the tables were cleared goes on where it stopped, and reindexing an
    ingested transcript gives what ingestion wrote.

  \<^item> Git (\<^verbatim>\<open>git.rs\<close>, \<^verbatim>\<open>repo_state.rs\<close>, \<^verbatim>\<open>worktree.rs\<close>). \<^verbatim>\<open>Rust_Parse\<close> has more of \<open>str\<close>; \<^verbatim>\<open>Git\<close> the
    parsing of git's output, each call of git recorded in a trace on which its answer may
    depend; \<^verbatim>\<open>Repo_State\<close> and \<^verbatim>\<open>Repo_Safety\<close> the cached state of a checkout, whose revision moves
    exactly when the status does; \<^verbatim>\<open>Worktree\<close>, \<^verbatim>\<open>Worktree_Invariant\<close>, \<^verbatim>\<open>Worktree_Safety\<close> and
    \<^verbatim>\<open>Worktree_Races\<close> the workspaces: their tables stay consistent, an unforced delete loses no
    work that git shows, and what two requests at once can do to each other.

  \<^item> Prompts (\<^verbatim>\<open>library.rs\<close>, \<^verbatim>\<open>future_prompts.rs\<close> and their routes). \<^verbatim>\<open>Entry_File\<close> has the files with a
    header of quoted values, both formats interpretations of the locale \<open>quoting\<close>; \<^verbatim>\<open>Library\<close> and
    \<^verbatim>\<open>Future_Prompts\<close> the operations, \<^verbatim>\<open>Library_Props\<close> and \<^verbatim>\<open>Future_Prompts_Props\<close> that entries read
    back, that slugs stay in their directory, and that the cached counts are right.

  \<^item> Agents and sessions (\<^verbatim>\<open>agent.rs\<close>, \<^verbatim>\<open>codex.rs\<close>, \<^verbatim>\<open>api/session_routes.rs\<close>). \<^verbatim>\<open>Agent\<close> is the launcher,
    its reports and the search of the process tree for an open transcript, \<^verbatim>\<open>Session_Routes\<close> the
    creation of a terminal, its agent, prompts and history; \<^verbatim>\<open>Agent_Props\<close> and \<^verbatim>\<open>Session_Props\<close>:
    the command line is read back as it was meant, the search finds what is there, a created
    session is live in its workspace, a prompt arrives as one paste, pages are complete.

  \<^item> Files (\<^verbatim>\<open>workspace.rs\<close>, \<^verbatim>\<open>api/repo_routes.rs\<close>, \<^verbatim>\<open>api/workspace_routes.rs\<close>). \<^verbatim>\<open>Workspace_Files\<close> has
    listings, reads and writes of a checkout, \<^verbatim>\<open>File_Routes\<close> the handlers, \<^verbatim>\<open>File_Props\<close>: an
    upload to a place that exists stays inside the checkout, below a missing directory links are
    followed, listings show what git lists, and diffs are not confined.

  \<^item> Users (\<^verbatim>\<open>auth.rs\<close>, \<^verbatim>\<open>config.rs\<close>, \<^verbatim>\<open>credential_helper.rs\<close>, \<^verbatim>\<open>api/mod.rs\<close>, \<^verbatim>\<open>api/routes.rs\<close>).
    \<^verbatim>\<open>Auth\<close> and \<^verbatim>\<open>Auth_Props\<close>: where authentication is configured, who is let in has a token under
    a key the provider published, the keys at most 15 minutes old, and where it is not, everyone
    is let in with no user; \<^verbatim>\<open>Http_Routes\<close>: every handler but the health check is behind that;
    \<^verbatim>\<open>Credential_Helper\<close>, with the broker: a command run through the helper gets exactly what is
    unlocked for its terminal.

  \<^item> Views (\<^verbatim>\<open>api/timeline_routes.rs\<close>, \<^verbatim>\<open>api/app_state_routes.rs\<close>, \<^verbatim>\<open>api/stats.rs\<close>, \<^verbatim>\<open>api/ws.rs\<close>).
    \<^verbatim>\<open>Timeline_Routes\<close> and \<^verbatim>\<open>Timeline_Route_Props\<close>: the monitor shows the last turn of every
    terminal; \<^verbatim>\<open>App_State\<close> and \<^verbatim>\<open>App_State_Props\<close>: the polled state; \<^verbatim>\<open>Attach\<close>: a client of a
    terminal as interleaved events, and what it is sent.

  \<^item> The process (\<^verbatim>\<open>main.rs\<close> and the loops of \<^verbatim>\<open>ingest/ingester.rs\<close>, \<^verbatim>\<open>repo_state.rs\<close>, \<^verbatim>\<open>worktree.rs\<close>).
    \<^verbatim>\<open>Background\<close> has how far the start gets and what it starts, maintenance before ingestion, one
    round of each loop, and that the ingester's counter is the growth of the table of events;
    \<^verbatim>\<open>Repo_Turns\<close>: a checkout that is due gets its turn, by the locale \<open>bounded_wait\<close> (something waits
    behind a finite set that orderly events never enlarge).

  How they interact. Ingestion parses each line with the canonical parsers, writes events and
  blocks, and asks for the projection to be rebuilt; the rebuild loads the stored events,
  projects them and stores the rows of \<^verbatim>\<open>Timeline_Derived\<close>, from which the responses are built.
  Correlation binds a terminal to the session whose transcript is ingested; the launcher reports
  to the same socket. Creating a session makes or finds a workspace with git and spawns a
  terminal in it. Runner and broker are services of their own, called over HTTP by the
  terminals; the terminals' supervisor registers and revokes their credentials at the broker,
  and the credential helper signs with them.

  Parameters of the model are what is not code of the repository: \<open>host\<close>, \<open>primitives\<close>,
  \<open>json_lib\<close>, \<open>text_lib\<close> (Unicode tables), \<open>ingest_lib\<close> (JSON and time parsing, UUIDs),
  \<open>fs_view\<close> (which paths exist and what they resolve to), \<open>codec_lib\<close> (the JSON form of stored
  records and back), \<open>read_lib\<close> (that of reading, with the database's case folding and
  collation), \<open>socket_lib\<close> (texts of UUIDs and the parsing of a socket message), \<open>git_host\<close> (what
  git prints after the calls so far), \<open>file_host\<close> (what the file system answers), \<open>jwt_lib\<close>
  (tokens and keys), \<open>helper_host\<close>, \<open>attach_env\<close> (the screen), and the environments that fix the
  outcome of every call that can fail: \<open>tick_env\<close>, \<open>projection_env\<close>, \<open>step_env\<close>, \<open>backfill_env\<close>,
  \<open>maintenance_env\<close>, \<open>reconcile_env\<close>, \<open>workspace_env\<close>, \<open>entry_env\<close>, \<open>run_env\<close>, \<open>session_env\<close>,
  \<open>files_env\<close>, \<open>timeline_store\<close>, \<open>stats_env\<close>, \<open>app_env\<close>.

  Termination and fuel. No definition carries fuel. Loops are structural or have a measure;
  the two loops of the modelled code that can run forever, \<open>parent_chain\<close> of ingestion and
  \<open>descend_levels\<close> of the projection (a recursive query over parent links), are partial
  functions whose value \<open>None\<close> is not returning; \<open>ancestor_walk_returns_iff\<close> says when the
  first returns. The lineage loop of sub-agents is bounded by the events not yet selected, the
  search of the process tree by the processes not yet seen and those on the stack, the search
  for a free slug by the files of the directory; the loops of \<open>str\<close> by the length of the text.

  Concurrency. Where requests interleave and it matters (terminals and the broker, an attached
  client, workspaces), the model has steps between the awaits; elsewhere one request is one
  function of the state. Reads of one response are taken from one state of the tables, though the
  code makes several queries.

  Not modelled: logging, tracing and metrics; the HTTP transport and the serialisation of
  requests and responses; the migrations and the connections to the database (\<^verbatim>\<open>db.rs\<close>), the start
  of broker and runner (\<^verbatim>\<open>bin\<close>), the restart of an ingester that panicked,
  the loops that only repeat (the socket's accept loop, the sampler); \<^verbatim>\<open>e2e.rs\<close> and
  \<^verbatim>\<open>agent/mock_transcripts.rs\<close>, which write fixtures for tests; the frontend and the deployment.
\<close>

end
